(* ===== verification/Prelude.thy ===== *)
theory Prelude
  imports
    Main
    "HOL-Library.AList"
    "HOL-Library.Word"
    "HOL-Library.Multiset"
    "HOL-Library.Char_ord"
    "HOL-Library.List_Lexorder"
    "HOL-Library.Product_Lexorder"
    "HOL-Library.Signed_Division"
    "HOL-Library.Sublist"
begin

text \<open>
  Shared vocabulary of the development.

  \<^item> Type names for the Go types that occur everywhere: node and operator identifiers
    (\<^verbatim>\<open>uint64\<close>, only ever compared), byte strings, association lists for Go maps.
  \<^item> The outcome of a handler: a Go function that mutates its receiver and returns an
    \<^verbatim>\<open>error\<close> is a function to a status and the new state; a run-time panic is a status of
    its own, and so is running out of the recursion budget of the binary agreement.
  \<^item> Lemmas on association lists, counting, quorum intersection and \<^verbatim>\<open>sort.Slice\<close>.
  \<^item> Two interface locales several components share: \<open>take_once\<close> (an output that can be
    consumed once) and \<open>slice_order\<close> (a comparator passed to \<^verbatim>\<open>sort.Slice\<close>).
\<close>

named_theorems go_simps \<open>unfolding rules of the small accessor definitions\<close>
named_theorems frame_simps \<open>fields an operation leaves alone\<close>

type_synonym node_id = nat
type_synonym byte = "8 word"
type_synonym bytes = "8 word list"
type_synonym ('k, 'v) gomap = "('k \<times> 'v) list"

section \<open>Fixed-width arithmetic on naturals\<close>

text \<open>
  The increment and decrement of a \<^verbatim>\<open>uint32\<close> and the difference of two \<^verbatim>\<open>uint64\<close> values, with
  their wrap-around.
\<close>

definition inc32 :: "nat \<Rightarrow> nat" where
  "inc32 e = nat ((int e + 1) mod 4294967296)"

definition dec32 :: "nat \<Rightarrow> nat" where
  "dec32 e = nat ((int e - 1) mod 4294967296)"

definition sub64 :: "nat \<Rightarrow> nat \<Rightarrow> nat" where
  "sub64 a b = nat ((int a - int b) mod 18446744073709551616)"

lemma inc32_eq: "e + 1 < 2 ^ 32 \<Longrightarrow> inc32 e = e + 1"
  by (simp add: inc32_def)

lemma inc32_wrap: "inc32 (2 ^ 32 - 1) = 0"
  by (simp add: inc32_def)

lemma dec32_inc32: "e < 2 ^ 32 \<Longrightarrow> dec32 (inc32 e) = e"
proof -
  assume "e < 2 ^ 32"
  then have e: "0 \<le> int e" "int e < 4294967296" by auto
  have "int (dec32 (inc32 e)) = (((int e + 1) mod 4294967296) - 1) mod 4294967296"
    by (simp add: inc32_def dec32_def)
  also have "\<dots> = int e mod 4294967296"
    by (simp add: mod_diff_left_eq)
  also have "\<dots> = int e" using e by simp
  finally show ?thesis by simp
qed

lemma sub64_eq: "b \<le> a \<Longrightarrow> a < 2 ^ 64 \<Longrightarrow> sub64 a b = a - b"
proof -
  assume "b \<le> a" and "a < 2 ^ 64"
  then have "(int a - int b) mod 18446744073709551616 = int a - int b"
    by (intro mod_pos_pos_trivial) auto
  then show ?thesis using \<open>b \<le> a\<close> by (simp add: sub64_def)
qed

section \<open>Outcomes\<close>

datatype 'e status =
    NoErr          \<comment> \<open>the returned error is nil\<close>
  | Err 'e         \<comment> \<open>an error value is returned\<close>
  | Panic          \<comment> \<open>the goroutine panics\<close>
  | Diverge        \<comment> \<open>the recursion budget of the model is used up\<close>

section \<open>Configuration\<close>

text \<open>
  The configuration embedded in every protocol instance. The constructors of the
  sub-protocols replace a zero \<^verbatim>\<open>F\<close> by \<^verbatim>\<open>(N - 1) / 3\<close>; Go's division truncates towards zero.
\<close>

record Config =
  cfgN :: int
  cfgF :: int
  cfgID :: node_id
  cfgNodes :: "node_id list"
  cfgBatchSize :: int

definition defaultF :: "Config \<Rightarrow> Config" where
  "defaultF cfg = (if cfgF cfg = 0 then cfg\<lparr>cfgF := (cfgN cfg - 1) sdiv 3\<rparr> else cfg)"

lemma defaultF_fields [simp]:
  "cfgN (defaultF cfg) = cfgN cfg" "cfgID (defaultF cfg) = cfgID cfg"
  "cfgNodes (defaultF cfg) = cfgNodes cfg"
  by (simp_all add: defaultF_def)

section \<open>Go maps as association lists\<close>

text \<open>
  A Go map is an association list with distinct keys; the position of an entry is the
  order of first insertion and stands for one iteration order. \<open>len m\<close> is
  \<^term>\<open>length m\<close>, the write \<open>m[k] = v\<close> is \<^term>\<open>AList.update k v m\<close>,
  the lookup is \<^term>\<open>map_of m k\<close>.
\<close>

abbreviation wf_map :: "('k, 'v) gomap \<Rightarrow> bool" where
  "wf_map m \<equiv> distinct (map fst m)"

abbreviation keys_of :: "('k, 'v) gomap \<Rightarrow> 'k set" where
  "keys_of m \<equiv> fst ` set m"

definition has_key :: "('k, 'v) gomap \<Rightarrow> 'k \<Rightarrow> bool" where
  "has_key m k = (map_of m k \<noteq> None)"

definition count_where :: "('v \<Rightarrow> bool) \<Rightarrow> ('k, 'v) gomap \<Rightarrow> nat" where
  "count_where p m = length (filter (\<lambda>(k, v). p v) m)"

lemma has_key_iff [simp]: "has_key m k \<longleftrightarrow> k \<in> keys_of m"
  by (simp add: has_key_def map_of_eq_None_iff)

lemma update_fresh: "k \<notin> keys_of m \<Longrightarrow> AList.update k v m = m @ [(k, v)]"
  by (induction m) auto

lemma update_keys [simp]: "keys_of (AList.update k v m) = insert k (keys_of m)"
  by (induction m) auto

lemma update_wf [simp]: "wf_map m \<Longrightarrow> wf_map (AList.update k v m)"
  by (rule distinct_update)

lemma map_of_update [simp]: "map_of (AList.update k v m) = (map_of m)(k \<mapsto> v)"
  by (rule update_conv')

lemma set_update_wf: "wf_map m \<Longrightarrow> set (AList.update k v m) = insert (k, v) {(j, w) \<in> set m. j \<noteq> k}"
  by (induction m) (auto simp: rev_image_eqI)

lemma length_update_le: "length (AList.update k v m) \<le> Suc (length m)"
  by (induction m) auto

lemma length_update_ge: "length m \<le> length (AList.update k v m)"
  by (induction m) auto

lemma length_wf_map: "wf_map m \<Longrightarrow> length m = card (keys_of m)"
  by (metis distinct_card length_map list.set_map)

lemma count_where_Nil [simp]: "count_where p [] = 0"
  by (simp add: count_where_def)

lemma count_where_le: "count_where p m \<le> length m"
  by (simp add: count_where_def)

lemma count_where_append [simp]: "count_where p (m @ n) = count_where p m + count_where p n"
  by (simp add: count_where_def)

lemma count_where_Cons [simp]:
  "count_where p ((k, v) # m) = (if p v then Suc (count_where p m) else count_where p m)"
  by (simp add: count_where_def)

lemma count_where_update_fresh:
  "k \<notin> keys_of m \<Longrightarrow> count_where p (AList.update k v m) = count_where p m + (if p v then 1 else 0)"
  by (simp add: update_fresh)

lemma count_where_card:
  "wf_map m \<Longrightarrow> count_where p m = card {k. \<exists>v. map_of m k = Some v \<and> p v}"
proof (induction m)
  case Nil
  then show ?case by simp
next
  case (Cons kv m)
  obtain k v where kv: "kv = (k, v)" by force
  from Cons.prems kv have fresh: "k \<notin> keys_of m" and wf: "wf_map m" by auto
  let ?A = "{k. \<exists>v. map_of m k = Some v \<and> p v}"
  have fin: "finite ?A"
    by (rule finite_subset [OF _ finite_dom_map_of [of m]]) auto
  have notin: "k \<notin> ?A"
    using fresh by (auto simp: map_of_eq_None_iff dest: map_of_SomeD) (metis fst_conv image_eqI map_of_SomeD)
  have split_set: "{k'. \<exists>v'. map_of (kv # m) k' = Some v' \<and> p v'} = (if p v then insert k ?A else ?A)"
    using notin kv by auto
  show ?case
    using Cons.IH [OF wf] fin notin split_set kv by auto
qed

lemma finite_map_where [simp]: "finite {k. \<exists>v. map_of m k = Some v \<and> p v}"
  by (rule finite_subset [OF _ finite_dom_map_of [of m]]) auto

section \<open>Loops whose body may fail\<close>

primrec bind_fold :: "('a \<Rightarrow> 's \<Rightarrow> 's option) \<Rightarrow> 'a list \<Rightarrow> 's \<Rightarrow> 's option" where
  "bind_fold f [] s = Some s"
| "bind_fold f (x # xs) s = (case f x s of None \<Rightarrow> None | Some s' \<Rightarrow> bind_fold f xs s')"

lemma bind_fold_rel:
  assumes "bind_fold f xs s = Some t"
    and "\<And>x s s'. x \<in> set xs \<Longrightarrow> P s \<Longrightarrow> f x s = Some s' \<Longrightarrow> P s'"
    and "P s"
  shows "P t"
  using assms
proof (induction xs arbitrary: s)
  case Nil
  then show ?case by simp
next
  case (Cons x xs)
  then obtain s' where s': "f x s = Some s'" and rest: "bind_fold f xs s' = Some t"
    by (auto split: option.splits)
  have "P s'" using Cons.prems(2) [of x s s'] Cons.prems(3) s' by simp
  with rest show ?case using Cons.IH Cons.prems(2) by (meson list.set_intros(2))
qed

section \<open>Quorums\<close>

text \<open>
  Two sets of nodes whose sizes add up to more than the number of nodes plus the number of
  faulty nodes share a correct node.
\<close>

lemma quorum_intersect:
  assumes "finite U" and "A \<subseteq> U" and "B \<subseteq> U" and "Z \<subseteq> U"
    and "card A + card B > card U + card Z"
  shows "\<exists>x. x \<in> A \<and> x \<in> B \<and> x \<notin> Z"
proof (rule ccontr)
  assume "\<not> ?thesis"
  then have sub: "A \<inter> B \<subseteq> Z" by blast
  have fins: "finite A" "finite B" "finite Z"
    using assms(1-4) by (auto intro: finite_subset)
  have "card A + card B = card (A \<union> B) + card (A \<inter> B)"
    using fins(1,2) by (rule card_Un_Int)
  also have "\<dots> \<le> card U + card Z"
    using assms(1-3) fins sub by (intro add_mono card_mono) auto
  finally show False using assms(5) by simp
qed

lemma card_gt_exists_outside:
  assumes "finite Z" and "card Z < card A"
  shows "\<exists>x. x \<in> A \<and> x \<notin> Z"
proof (rule ccontr)
  assume "\<not> ?thesis"
  then have "A \<subseteq> Z" by blast
  then have "card A \<le> card Z" using assms(1) by (simp add: card_mono)
  with assms(2) show False by simp
qed

section \<open>Consuming an output once\<close>

text \<open>
  \<^verbatim>\<open>RBC.Output\<close>, \<^verbatim>\<open>BBA.Output\<close>, \<^verbatim>\<open>ACS.Output\<close> and \<^verbatim>\<open>SlotACS.Output\<close> share one contract: the
  call hands out the stored value and clears it, so the next call returns nil.
\<close>

locale take_once =
  fixes stored :: "'s \<Rightarrow> 'v option"
    and take_out :: "'s \<Rightarrow> 'v option \<times> 's"
  assumes take_value: "fst (take_out s) = stored s"
    and take_clears: "stored (snd (take_out s)) = None"
begin

lemma second_take_empty: "fst (take_out (snd (take_out s))) = None"
  by (simp add: take_value take_clears)

lemma take_idle: "stored s = None \<Longrightarrow> fst (take_out s) = None"
  by (simp add: take_value)

lemma take_cases:
  obtains (Empty) "stored s = None" "fst (take_out s) = None"
  | (Value) v where "stored s = Some v" "fst (take_out s) = Some v" "stored (snd (take_out s)) = None"
  by (cases "stored s") (auto simp: take_value take_clears)

end

lemma subseq_keeps: "subseq ys xs \<Longrightarrow> set ys \<subseteq> set xs \<and> (distinct (map f xs) \<longrightarrow> distinct (map f ys))"
  by (induction rule: list_emb.induct) auto

section \<open>Fallible results\<close>

text \<open>
  A Go function that returns a value and an \<^verbatim>\<open>error\<close> is a function to a sum: \<^term>\<open>Inl e\<close> for the
  error return, \<^term>\<open>Inr x\<close> for the value. \<open>and_then\<close> is the \<^verbatim>\<open>if err != nil { return err }\<close> of
  the sources, \<open>each\<close> a loop that stops at the first error.
\<close>

primrec and_then :: "'e + 'a \<Rightarrow> ('a \<Rightarrow> 'e + 'b) \<Rightarrow> 'e + 'b" where
  "and_then (Inl e) f = Inl e"
| "and_then (Inr x) f = f x"

primrec each :: "('a \<Rightarrow> 'e + 'b) \<Rightarrow> 'a list \<Rightarrow> 'e + 'b list" where
  "each f [] = Inr []"
| "each f (x # xs) = and_then (f x) (\<lambda>y. and_then (each f xs) (\<lambda>ys. Inr (y # ys)))"

definition ensure :: "bool \<Rightarrow> 'e \<Rightarrow> 'e + unit" where
  "ensure b e = (if b then Inr () else Inl e)"

definition or_error :: "'a option \<Rightarrow> 'e \<Rightarrow> 'e + 'a" where
  "or_error x e = (case x of None \<Rightarrow> Inl e | Some y \<Rightarrow> Inr y)"

lemma and_then_Inr_iff [simp]: "and_then r f = Inr y \<longleftrightarrow> (\<exists>x. r = Inr x \<and> f x = Inr y)"
  by (cases r) auto

lemma ensure_Inr [simp]: "ensure b e = Inr u \<longleftrightarrow> b"
  by (simp add: ensure_def)

lemma ensure_True [simp]: "ensure True e = Inr ()" and ensure_False [simp]: "ensure False e = Inl e"
  by (simp_all add: ensure_def)

lemma or_error_simps [simp]: "or_error (Some x) e = Inr x" "or_error None e = Inl e"
  by (simp_all add: or_error_def)

lemma or_error_Inr_iff [simp]: "or_error r e = Inr y \<longleftrightarrow> r = Some y"
  by (cases r) auto

lemma each_Inr_iff: "each f xs = Inr ys \<longleftrightarrow> list_all2 (\<lambda>x y. f x = Inr y) xs ys"
  by (induction xs arbitrary: ys) (auto simp: list_all2_Cons1)

lemma each_map: "(\<And>x. x \<in> set xs \<Longrightarrow> f x = Inr (g x)) \<Longrightarrow> each f xs = Inr (map g xs)"
  by (induction xs) auto

lemma each_Inl_iff: "(\<exists>e. each f xs = Inl e) \<longleftrightarrow> (\<exists>x \<in> set xs. \<exists>e. f x = Inl e)"
proof (induction xs)
  case (Cons x xs)
  show ?case by (cases "f x"; cases "each f xs") (use Cons in auto)
qed simp

section \<open>sort.Slice\<close>

text \<open>
  \<^verbatim>\<open>sort.Slice(xs, less)\<close> leaves a permutation of \<open>xs\<close> in which no later element is less than
  an earlier one. It is not stable, so its result is only determined where the comparator
  separates the elements. \<open>sortSlice\<close> computes one such result; \<open>slice_sorted\<close> states
  what every result satisfies; \<open>slice_order.unique\<close> shows that they coincide when the
  comparator's key is injective on the elements.
\<close>

fun insertBy :: "('a \<Rightarrow> 'a \<Rightarrow> bool) \<Rightarrow> 'a \<Rightarrow> 'a list \<Rightarrow> 'a list" where
  "insertBy lt x [] = [x]"
| "insertBy lt x (y # ys) = (if lt y x then y # insertBy lt x ys else x # y # ys)"

fun sortSlice :: "('a \<Rightarrow> 'a \<Rightarrow> bool) \<Rightarrow> 'a list \<Rightarrow> 'a list" where
  "sortSlice lt [] = []"
| "sortSlice lt (x # xs) = insertBy lt x (sortSlice lt xs)"

definition slice_sorted :: "('a \<Rightarrow> 'a \<Rightarrow> bool) \<Rightarrow> 'a list \<Rightarrow> 'a list \<Rightarrow> bool" where
  "slice_sorted lt xs ys \<longleftrightarrow> mset ys = mset xs \<and> sorted_wrt (\<lambda>a b. \<not> lt b a) ys"

lemma mset_insertBy [simp]: "mset (insertBy lt x ys) = add_mset x (mset ys)"
  by (induction ys) auto

lemma mset_sortSlice [simp]: "mset (sortSlice lt xs) = mset xs"
  by (induction xs) auto

lemma set_insertBy [simp]: "set (insertBy lt x ys) = insert x (set ys)"
  by (induction ys) auto

lemma set_sortSlice [simp]: "set (sortSlice lt xs) = set xs"
  by (induction xs) auto

lemma length_sortSlice [simp]: "length (sortSlice lt xs) = length xs"
  by (metis mset_sortSlice size_mset)

lemma distinct_sortSlice [simp]: "distinct (sortSlice lt xs) = distinct xs"
  by (metis mset_sortSlice mset_eq_imp_distinct_iff)

locale slice_order =
  fixes lt :: "'a \<Rightarrow> 'a \<Rightarrow> bool"
    and key :: "'a \<Rightarrow> 'k::linorder"
  assumes less_key: "lt x y \<longleftrightarrow> key x < key y"
begin

lemma insertBy_insort: "insertBy lt x ys = insort_key key x ys"
  by (induction ys) (auto simp: less_key)

lemma sort_is_key: "sortSlice lt xs = sort_key key xs"
  by (induction xs) (simp_all add: insertBy_insort sort_key_simps)

lemma sorted_by_key: "slice_sorted lt xs ys \<longleftrightarrow> mset ys = mset xs \<and> sorted (map key ys)"
proof -
  have "sorted_wrt (\<lambda>a b. \<not> lt b a) ys \<longleftrightarrow> sorted_wrt (\<lambda>a b. key a \<le> key b) ys"
    by (simp add: less_key not_less)
  then show ?thesis
    by (simp add: slice_sorted_def sorted_map)
qed

lemma computes_sorted: "slice_sorted lt xs (sortSlice lt xs)"
  unfolding sorted_by_key by (simp add: sort_is_key)

lemma unique:
  assumes "slice_sorted lt xs ys" and "inj_on key (set xs)"
  shows "ys = sortSlice lt xs"
proof -
  from assms(1) have m: "mset ys = mset xs" and s: "sorted (map key ys)"
    unfolding sorted_by_key by auto
  from m have st: "set ys = set xs" by (metis set_mset_mset)
  have mk: "mset (map key ys) = mset (map key (sort_key key xs))"
    using m by simp
  have "map key ys = map key (sort_key key xs)"
    using mk s by (metis properties_for_sort sorted_sort_key)
  then have "ys = sort_key key xs"
    using assms(2) st by (metis inj_on_map_eq_map set_sort sup.idem)
  then show ?thesis by (simp add: sort_is_key)
qed

lemma permutation_invariant:
  assumes "mset xs = mset xs'" and "inj_on key (set xs)"
  shows "sortSlice lt xs = sortSlice lt xs'"
proof -
  have "slice_sorted lt xs (sortSlice lt xs')"
    using computes_sorted [of xs'] assms(1) by (simp add: slice_sorted_def)
  from unique [OF this assms(2)] show ?thesis by simp
qed

lemma sorted_pairs: "i < j \<Longrightarrow> j < length xs \<Longrightarrow> \<not> lt (sortSlice lt xs ! j) (sortSlice lt xs ! i)"
  using computes_sorted [of xs] by (auto simp: slice_sorted_def sorted_wrt_iff_nth_less)

end

end
