(* ===== verification/Message_Que.thy ===== *)
theory Message_Que
  imports Prelude
begin

text \<open>
  The outgoing message queue (\<^verbatim>\<open>sbc/hbbft/message_que.go\<close>): a list of payloads tagged with
  their receiver, appended at the end and drained as a whole. The interface other
  components rely on is the locale \<open>fifo_queue\<close>, interpreted here on the model.
\<close>

record 'm MessageTuple =
  mtTo :: node_id
  mtPayload :: 'm

record 'm messageQue =
  que :: "'m MessageTuple list"

definition newMessageQue :: "'m messageQue" where
  "newMessageQue = \<lparr>que = []\<rparr>"

definition que_addMessage :: "'m \<Rightarrow> node_id \<Rightarrow> 'm messageQue \<Rightarrow> 'm messageQue" where
  "que_addMessage msg to q = q\<lparr>que := que q @ [\<lparr>mtTo = to, mtPayload = msg\<rparr>]\<rparr>"

definition que_addMessages :: "'m MessageTuple list \<Rightarrow> 'm messageQue \<Rightarrow> 'm messageQue" where
  "que_addMessages msgs q = q\<lparr>que := que q @ msgs\<rparr>"

definition que_messages :: "'m messageQue \<Rightarrow> 'm MessageTuple list \<times> 'm messageQue" where
  "que_messages q = (que q, q\<lparr>que := []\<rparr>)"

definition que_addQue :: "'m messageQue \<Rightarrow> 'm messageQue \<Rightarrow> 'm messageQue \<times> 'm messageQue" where
  "que_addQue other q = (let (msgs, other') = que_messages other in (other', que_addMessages msgs q))"

definition que_len :: "'m messageQue \<Rightarrow> nat" where
  "que_len q = length (que q)"

lemmas que_defs [go_simps] =
  newMessageQue_def que_addMessage_def que_addMessages_def que_messages_def que_len_def
  que_addQue_def

section \<open>The queue interface\<close>

locale fifo_queue =
  fixes empty :: 'q
    and push :: "'m \<Rightarrow> node_id \<Rightarrow> 'q \<Rightarrow> 'q"
    and drain :: "'q \<Rightarrow> 'm MessageTuple list \<times> 'q"
    and size_of :: "'q \<Rightarrow> nat"
    and contents :: "'q \<Rightarrow> 'm MessageTuple list"
  assumes contents_empty: "contents empty = []"
    and contents_push: "contents (push m to q) = contents q @ [\<lparr>mtTo = to, mtPayload = m\<rparr>]"
    and drain_all: "fst (drain q) = contents q"
    and drain_empties: "contents (snd (drain q)) = []"
    and size_contents: "size_of q = length (contents q)"
begin

text \<open>Queueing one payload for each of a list of receivers, as a broadcast does.\<close>

lemma push_all:
  "contents (fold (\<lambda>to. push m to) tos q) =
     contents q @ map (\<lambda>to. \<lparr>mtTo = to, mtPayload = m\<rparr>) tos"
  by (induction tos arbitrary: q) (simp_all add: contents_push)

lemma drain_twice: "fst (drain (snd (drain q))) = []"
  by (simp add: drain_all drain_empties)

lemma drain_after_push_all:
  "fst (drain (fold (\<lambda>to. push m to) tos (snd (drain q)))) =
     map (\<lambda>to. \<lparr>mtTo = to, mtPayload = m\<rparr>) tos"
  by (simp add: drain_all push_all drain_empties)

lemma size_push_all: "size_of (fold (\<lambda>to. push m to) tos q) = size_of q + length tos"
  by (simp add: size_contents push_all)

end

interpretation mq: fifo_queue newMessageQue que_addMessage que_messages que_len que
  by unfold_locales (simp_all add: que_defs)

end
