(* ===== verification/Trace.thy ===== *)
theory Trace
  imports Prelude
begin

text \<open>
  The process-local ACS diagnostic recorder: \<^verbatim>\<open>sbc/hbbft/trace.go\<close> and
  \<^verbatim>\<open>sbc/hbbft/trace_outbound.go\<close>.

  The recorder is shared by every protocol instance of a slot. Its methods read the clock
  at most once, so each is a function of that reading. A \<^verbatim>\<open>time.Time\<close> is the number of
  nanoseconds since the zero time, \<^verbatim>\<open>Sub\<close> saturates at the 64-bit range, and
  \<^verbatim>\<open>Microseconds\<close> truncates towards zero. Event and byte counters are natural numbers;
  the one subtraction on them is written with its wrap-around. The protocol models of the
  other theories do not carry the recorder itself: they log the calls they make on it
  (\<open>trace_call\<close>), and \<open>apply_call\<close> is what each call does.
\<close>

section \<open>Data\<close>

type_synonym time = int
type_synonym duration = int

definition zeroTime :: time where
  "zeroTime = 0"

definition timeSub :: "time \<Rightarrow> time \<Rightarrow> duration" where
  "timeSub a b = max (- (2 ^ 63)) (min (2 ^ 63 - 1) (a - b))"

definition Microseconds :: "duration \<Rightarrow> int" where
  "Microseconds d = d sdiv 1000"

definition ACSTraceSchemaV1 :: string where
  "ACSTraceSchemaV1 = ''bloc-acs-trace/v1''"

definition ACSTraceSchemaV2 :: string where
  "ACSTraceSchemaV2 = ''bloc-acs-trace/v2''"

definition ACSTraceSchemaV3 :: string where
  "ACSTraceSchemaV3 = ''bloc-acs-trace/v3''"

definition ACSTraceSchemaVersion :: string where
  "ACSTraceSchemaVersion = ACSTraceSchemaV3"

record TracePoint =
  Recorded :: bool
  OffsetUS :: int

definition noPoint :: TracePoint where
  "noPoint = \<lparr>Recorded = False, OffsetUS = 0\<rparr>"

datatype ACSMessageSubtype =
    ACSMessageProof | ACSMessageEcho | ACSMessageReady | ACSMessageBVAL | ACSMessageAUX
  | OtherSubtype string

definition acsMessageSubtypes :: "ACSMessageSubtype list" where
  "acsMessageSubtypes =
     [ACSMessageProof, ACSMessageEcho, ACSMessageReady, ACSMessageBVAL, ACSMessageAUX]"

text \<open>
  Subtypes and triggers are strings in the code. The constants are constructors of their own, so
  \<open>OtherSubtype\<close> and \<open>OtherTrigger\<close> stand for the strings that are none of them, which only a
  trace read from a file can contain.
\<close>

datatype RBCReadyTrigger = NoTrigger | RBCReadyTriggerEchoQuorum | RBCReadyTriggerRelay | OtherTrigger string

record ACSTransportTrace =
  Sealed :: bool
  Finalized :: bool

record ACSAggregateTrace =
  InputStarted :: TracePoint
  FirstRBCOutput :: TracePoint
  RBCOutputQuorum :: TracePoint
  FirstTrueBBA :: TracePoint
  TrueBBAQuorum :: TracePoint
  FalseInputInjected :: TracePoint
  AllBBADecided :: TracePoint
  TruthyRBCReady :: TracePoint
  CoreDecision :: TracePoint

record RBCTrace =
  ProofAccepted :: TracePoint
  EchoSent :: TracePoint
  ReadySent :: TracePoint
  ReadyTrigger :: RBCReadyTrigger
  ReadyTriggerEchoCount :: int
  ReadyTriggerReadyCount :: int
  DecodeEligible :: TracePoint
  ReconstructionStarted :: TracePoint
  ReconstructionFinished :: TracePoint
  OutputStored :: TracePoint

record BBATrace =
  InputPoint :: TracePoint
  InputValue :: bool
  FirstBinValue :: TracePoint
  FirstBin :: bool
  FirstAux :: TracePoint
  FirstAuxValue :: bool
  ValidAuxQuorum :: TracePoint
  DecisionPoint :: TracePoint
  DecisionValue :: bool
  DonePoint :: TracePoint
  MaxEpoch :: nat

record ACSWaitTrace =
  TrueBBAQuorumUS :: int
  AllBBAUS :: int
  TruthyRBCUS :: int

record ACSAdapterTrace =
  CommonSubsetDecoded :: TracePoint
  BlockBodyBuilt :: TracePoint
  NodeOutputReceived :: TracePoint

record ACSSendPhaseTrace =
  PhaseCount :: nat
  PhaseTotalUS :: int
  PhaseMaxUS :: int

record ACSSendObservation =
  ObsSize :: int
  ObsTotal :: duration
  ObsEncode :: duration
  ObsQueueWait :: duration
  ObsStreamOpen :: duration
  ObsWrite :: duration
  ObsFinalize :: duration
  ObsReused :: bool
  ObsErr :: bool

record ACSMessageTrace =
  ScheduledCount :: nat
  TerminalCount :: nat
  PendingAtDecision :: nat
  InboundCount :: nat
  InboundBytes :: nat
  OutboundCount :: nat
  OutboundBytes :: nat
  SendCount :: nat
  SendTotalUS :: int
  SendMaxUS :: int
  SendFailureCount :: nat
  EncodePhase :: ACSSendPhaseTrace
  QueueWaitPhase :: ACSSendPhaseTrace
  StreamOpenPhase :: ACSSendPhaseTrace
  WritePhase :: ACSSendPhaseTrace
  FinalizePhase :: ACSSendPhaseTrace
  StreamOpenCount :: nat
  StreamReuseCount :: nat

record ACSTrace =
  SchemaVersion :: string
  Enabled :: bool
  Transport :: ACSTransportTrace
  Aggregate :: ACSAggregateTrace
  Wait :: ACSWaitTrace
  Adapter :: ACSAdapterTrace
  RBCs :: "(node_id, RBCTrace) gomap"
  BBAs :: "(node_id, BBATrace) gomap"
  Messages :: "(ACSMessageSubtype, ACSMessageTrace) gomap"

datatype aggregateTraceEvent =
    traceACSInputStarted | traceACSFirstRBCOutput | traceACSRBCOutputQuorum
  | traceACSFirstTrueBBA | traceACSTrueBBAQuorum | traceACSFalseInputInjected
  | traceACSAllBBADecided | traceACSTruthyRBCReady | traceACSCoreDecision

datatype rbcTraceEvent =
    traceRBCProofAccepted | traceRBCEchoSent | traceRBCReadySent | traceRBCDecodeEligible
  | traceRBCReconstructionStarted | traceRBCReconstructionFinished | traceRBCOutputStored

datatype bbaTraceEvent =
    traceBBAInput | traceBBAFirstBinValue | traceBBAFirstAux | traceBBAValidAuxQuorum
  | traceBBADecision | traceBBADone | traceBBAEpoch

datatype adapterTraceEvent =
    traceCommonSubsetDecoded | traceBlockBodyBuilt | traceNodeOutputReceived

text \<open>
  The wait reasons \<^verbatim>\<open>ACS.waitingReason\<close> returns; the empty string is \<open>NoWait\<close>.
\<close>

datatype waitReason =
    NoWait | waitForTrueBBAResults | waitForAllBBAResults | waitForTruthyRBCOutputs
  | readyToComplete

record traceRecorder =
  trEnabled :: bool
  trBase :: time
  trStarted :: bool
  trWaitReason :: waitReason
  trWaitStarted :: time
  trTrace :: ACSTrace

definition emptyAggregate :: ACSAggregateTrace where
  "emptyAggregate = \<lparr>InputStarted = noPoint, FirstRBCOutput = noPoint,
     RBCOutputQuorum = noPoint, FirstTrueBBA = noPoint, TrueBBAQuorum = noPoint,
     FalseInputInjected = noPoint, AllBBADecided = noPoint, TruthyRBCReady = noPoint,
     CoreDecision = noPoint\<rparr>"

definition emptyRBCTrace :: RBCTrace where
  "emptyRBCTrace = \<lparr>ProofAccepted = noPoint, EchoSent = noPoint, ReadySent = noPoint,
     ReadyTrigger = NoTrigger, ReadyTriggerEchoCount = 0, ReadyTriggerReadyCount = 0,
     DecodeEligible = noPoint, ReconstructionStarted = noPoint,
     ReconstructionFinished = noPoint, OutputStored = noPoint\<rparr>"

definition emptyBBATrace :: BBATrace where
  "emptyBBATrace = \<lparr>InputPoint = noPoint, InputValue = False, FirstBinValue = noPoint,
     FirstBin = False, FirstAux = noPoint, FirstAuxValue = False, ValidAuxQuorum = noPoint,
     DecisionPoint = noPoint, DecisionValue = False, DonePoint = noPoint, MaxEpoch = 0\<rparr>"

definition emptyPhase :: ACSSendPhaseTrace where
  "emptyPhase = \<lparr>PhaseCount = 0, PhaseTotalUS = 0, PhaseMaxUS = 0\<rparr>"

definition emptyMessageTrace :: ACSMessageTrace where
  "emptyMessageTrace = \<lparr>ScheduledCount = 0, TerminalCount = 0, PendingAtDecision = 0,
     InboundCount = 0, InboundBytes = 0, OutboundCount = 0, OutboundBytes = 0, SendCount = 0,
     SendTotalUS = 0, SendMaxUS = 0, SendFailureCount = 0, EncodePhase = emptyPhase,
     QueueWaitPhase = emptyPhase, StreamOpenPhase = emptyPhase, WritePhase = emptyPhase,
     FinalizePhase = emptyPhase, StreamOpenCount = 0, StreamReuseCount = 0\<rparr>"

definition emptyTrace :: ACSTrace where
  "emptyTrace = \<lparr>SchemaVersion = [], Enabled = False, Transport = \<lparr>Sealed = False, Finalized = False\<rparr>,
     Aggregate = emptyAggregate,
     Wait = \<lparr>TrueBBAQuorumUS = 0, AllBBAUS = 0, TruthyRBCUS = 0\<rparr>,
     Adapter = \<lparr>CommonSubsetDecoded = noPoint, BlockBodyBuilt = noPoint,
                NodeOutputReceived = noPoint\<rparr>,
     RBCs = [], BBAs = [], Messages = []\<rparr>"

section \<open>The recorder\<close>

definition newTraceRecorder :: "node_id list \<Rightarrow> bool \<Rightarrow> traceRecorder" where
  "newTraceRecorder nodes enabled =
     \<lparr>trEnabled = enabled, trBase = zeroTime, trStarted = False, trWaitReason = NoWait,
      trWaitStarted = zeroTime,
      trTrace =
        (if \<not> enabled then emptyTrace
         else emptyTrace\<lparr>SchemaVersion := ACSTraceSchemaVersion, Enabled := True,
           RBCs := fold (\<lambda>i. AList.update i emptyRBCTrace) nodes [],
           BBAs := fold (\<lambda>i. AList.update i emptyBBATrace) nodes [],
           Messages := fold (\<lambda>t. AList.update t emptyMessageTrace) acsMessageSubtypes []\<rparr>)\<rparr>"

definition begin_trace :: "time \<Rightarrow> traceRecorder \<Rightarrow> traceRecorder" where
  "begin_trace base r =
     (if \<not> trEnabled r then r
      else if trStarted r then r
      else r\<lparr>trBase := base, trStarted := True\<rparr>)"

definition pointLocked :: "time \<Rightarrow> traceRecorder \<Rightarrow> TracePoint \<Rightarrow> bool \<times> TracePoint" where
  "pointLocked now r point =
     (if Recorded point \<or> \<not> trStarted r then (False, point)
      else let offset = Microseconds (timeSub now (trBase r)) in
        if offset < 0 then (False, point)
        else (True, point\<lparr>Recorded := True, OffsetUS := offset\<rparr>))"

fun aggregate_point ::
  "aggregateTraceEvent \<Rightarrow> (TracePoint \<Rightarrow> TracePoint) \<Rightarrow> ACSAggregateTrace \<Rightarrow> ACSAggregateTrace" where
  "aggregate_point traceACSInputStarted f a = a\<lparr>InputStarted := f (InputStarted a)\<rparr>"
| "aggregate_point traceACSFirstRBCOutput f a = a\<lparr>FirstRBCOutput := f (FirstRBCOutput a)\<rparr>"
| "aggregate_point traceACSRBCOutputQuorum f a = a\<lparr>RBCOutputQuorum := f (RBCOutputQuorum a)\<rparr>"
| "aggregate_point traceACSFirstTrueBBA f a = a\<lparr>FirstTrueBBA := f (FirstTrueBBA a)\<rparr>"
| "aggregate_point traceACSTrueBBAQuorum f a = a\<lparr>TrueBBAQuorum := f (TrueBBAQuorum a)\<rparr>"
| "aggregate_point traceACSFalseInputInjected f a = a\<lparr>FalseInputInjected := f (FalseInputInjected a)\<rparr>"
| "aggregate_point traceACSAllBBADecided f a = a\<lparr>AllBBADecided := f (AllBBADecided a)\<rparr>"
| "aggregate_point traceACSTruthyRBCReady f a = a\<lparr>TruthyRBCReady := f (TruthyRBCReady a)\<rparr>"
| "aggregate_point traceACSCoreDecision f a = a\<lparr>CoreDecision := f (CoreDecision a)\<rparr>"

definition recordAggregate :: "time \<Rightarrow> aggregateTraceEvent \<Rightarrow> traceRecorder \<Rightarrow> traceRecorder" where
  "recordAggregate now event r =
     (if \<not> trEnabled r then r
      else r\<lparr>trTrace := (trTrace r)\<lparr>Aggregate :=
        aggregate_point event (\<lambda>p. snd (pointLocked now r p)) (Aggregate (trTrace r))\<rparr>\<rparr>)"

fun rbc_point :: "rbcTraceEvent \<Rightarrow> (TracePoint \<Rightarrow> TracePoint) \<Rightarrow> RBCTrace \<Rightarrow> RBCTrace" where
  "rbc_point traceRBCProofAccepted f e = e\<lparr>ProofAccepted := f (ProofAccepted e)\<rparr>"
| "rbc_point traceRBCEchoSent f e = e\<lparr>EchoSent := f (EchoSent e)\<rparr>"
| "rbc_point traceRBCReadySent f e = e\<lparr>ReadySent := f (ReadySent e)\<rparr>"
| "rbc_point traceRBCDecodeEligible f e = e\<lparr>DecodeEligible := f (DecodeEligible e)\<rparr>"
| "rbc_point traceRBCReconstructionStarted f e =
     e\<lparr>ReconstructionStarted := f (ReconstructionStarted e)\<rparr>"
| "rbc_point traceRBCReconstructionFinished f e =
     e\<lparr>ReconstructionFinished := f (ReconstructionFinished e)\<rparr>"
| "rbc_point traceRBCOutputStored f e = e\<lparr>OutputStored := f (OutputStored e)\<rparr>"

definition put_rbc :: "node_id \<Rightarrow> RBCTrace \<Rightarrow> traceRecorder \<Rightarrow> traceRecorder" where
  "put_rbc pid e r = r\<lparr>trTrace := (trTrace r)\<lparr>RBCs := AList.update pid e (RBCs (trTrace r))\<rparr>\<rparr>"

definition put_bba :: "node_id \<Rightarrow> BBATrace \<Rightarrow> traceRecorder \<Rightarrow> traceRecorder" where
  "put_bba pid e r = r\<lparr>trTrace := (trTrace r)\<lparr>BBAs := AList.update pid e (BBAs (trTrace r))\<rparr>\<rparr>"

definition put_msg :: "ACSMessageSubtype \<Rightarrow> ACSMessageTrace \<Rightarrow> traceRecorder \<Rightarrow> traceRecorder" where
  "put_msg t e r = r\<lparr>trTrace := (trTrace r)\<lparr>Messages := AList.update t e (Messages (trTrace r))\<rparr>\<rparr>"

definition set_transport :: "(ACSTransportTrace \<Rightarrow> ACSTransportTrace) \<Rightarrow> traceRecorder \<Rightarrow> traceRecorder" where
  "set_transport f r = r\<lparr>trTrace := (trTrace r)\<lparr>Transport := f (Transport (trTrace r))\<rparr>\<rparr>"

definition recordRBC :: "time \<Rightarrow> node_id \<Rightarrow> rbcTraceEvent \<Rightarrow> traceRecorder \<Rightarrow> traceRecorder" where
  "recordRBC now pid event r =
     (if \<not> trEnabled r then r
      else case map_of (RBCs (trTrace r)) pid of
        None \<Rightarrow> r
      | Some entry \<Rightarrow> put_rbc pid (rbc_point event (\<lambda>p. snd (pointLocked now r p)) entry) r)"

definition recordRBCReady ::
  "time \<Rightarrow> node_id \<Rightarrow> RBCReadyTrigger \<Rightarrow> nat \<Rightarrow> nat \<Rightarrow> traceRecorder \<Rightarrow> traceRecorder" where
  "recordRBCReady now pid trigger echoCount readyCount r =
     (if \<not> trEnabled r then r
      else case map_of (RBCs (trTrace r)) pid of
        None \<Rightarrow> r
      | Some entry \<Rightarrow>
          if ReadyTrigger entry \<noteq> NoTrigger then r
          else put_rbc pid
            (entry\<lparr>ReadySent := snd (pointLocked now r (ReadySent entry)),
               ReadyTrigger := trigger, ReadyTriggerEchoCount := int echoCount,
               ReadyTriggerReadyCount := int readyCount\<rparr>) r)"

fun bba_event :: "time \<Rightarrow> traceRecorder \<Rightarrow> bbaTraceEvent \<Rightarrow> bool \<Rightarrow> BBATrace \<Rightarrow> BBATrace" where
  "bba_event now r traceBBAInput v e =
     (let (ok, p) = pointLocked now r (InputPoint e) in
      if ok then e\<lparr>InputPoint := p, InputValue := v\<rparr> else e)"
| "bba_event now r traceBBAFirstBinValue v e =
     (let (ok, p) = pointLocked now r (FirstBinValue e) in
      if ok then e\<lparr>FirstBinValue := p, FirstBin := v\<rparr> else e)"
| "bba_event now r traceBBAFirstAux v e =
     (let (ok, p) = pointLocked now r (FirstAux e) in
      if ok then e\<lparr>FirstAux := p, FirstAuxValue := v\<rparr> else e)"
| "bba_event now r traceBBAValidAuxQuorum v e =
     e\<lparr>ValidAuxQuorum := snd (pointLocked now r (ValidAuxQuorum e))\<rparr>"
| "bba_event now r traceBBADecision v e =
     (let (ok, p) = pointLocked now r (DecisionPoint e) in
      if ok then e\<lparr>DecisionPoint := p, DecisionValue := v\<rparr> else e)"
| "bba_event now r traceBBADone v e =
     e\<lparr>DonePoint := snd (pointLocked now r (DonePoint e))\<rparr>"
| "bba_event now r traceBBAEpoch v e = e"

definition recordBBA ::
  "time \<Rightarrow> node_id \<Rightarrow> bbaTraceEvent \<Rightarrow> bool \<Rightarrow> nat \<Rightarrow> traceRecorder \<Rightarrow> traceRecorder" where
  "recordBBA now pid event v epoch r =
     (if \<not> trEnabled r then r
      else if \<not> trStarted r then r
      else case map_of (BBAs (trTrace r)) pid of
        None \<Rightarrow> r
      | Some entry \<Rightarrow>
          let entry' = (if epoch > MaxEpoch entry then entry\<lparr>MaxEpoch := epoch\<rparr> else entry)
          in put_bba pid (bba_event now r event v entry') r)"

definition recordAdapter :: "time \<Rightarrow> adapterTraceEvent \<Rightarrow> traceRecorder \<Rightarrow> traceRecorder" where
  "recordAdapter now event r =
     (if \<not> trEnabled r then r
      else let a = Adapter (trTrace r); f = (\<lambda>p. snd (pointLocked now r p));
        a' = (case event of
            traceCommonSubsetDecoded \<Rightarrow> a\<lparr>CommonSubsetDecoded := f (CommonSubsetDecoded a)\<rparr>
          | traceBlockBodyBuilt \<Rightarrow> a\<lparr>BlockBodyBuilt := f (BlockBodyBuilt a)\<rparr>
          | traceNodeOutputReceived \<Rightarrow> a\<lparr>NodeOutputReceived := f (NodeOutputReceived a)\<rparr>)
      in r\<lparr>trTrace := (trTrace r)\<lparr>Adapter := a'\<rparr>\<rparr>)"

definition recordMessageInbound :: "ACSMessageSubtype \<Rightarrow> int \<Rightarrow> traceRecorder \<Rightarrow> traceRecorder" where
  "recordMessageInbound t sz r =
     (if \<not> trEnabled r then r
      else if \<not> trStarted r then r
      else case map_of (Messages (trTrace r)) t of
        None \<Rightarrow> r
      | Some entry \<Rightarrow>
          put_msg t (entry\<lparr>InboundCount := InboundCount entry + 1,
            InboundBytes := (if sz > 0 then InboundBytes entry + nat sz else InboundBytes entry)\<rparr>) r)"

definition clampUS :: "duration \<Rightarrow> int" where
  "clampUS d = (let us = Microseconds d in if us < 0 then 0 else us)"

definition recordSendPhase :: "duration \<Rightarrow> ACSSendPhaseTrace \<Rightarrow> ACSSendPhaseTrace" where
  "recordSendPhase d p =
     (let us = clampUS d in
      p\<lparr>PhaseCount := PhaseCount p + 1, PhaseTotalUS := PhaseTotalUS p + us,
        PhaseMaxUS := (if us > PhaseMaxUS p then us else PhaseMaxUS p)\<rparr>)"

definition recordCompletedSend :: "ACSSendObservation \<Rightarrow> ACSMessageTrace \<Rightarrow> ACSMessageTrace" where
  "recordCompletedSend obs entry =
     (if ObsErr obs then entry\<lparr>SendFailureCount := SendFailureCount entry + 1\<rparr>
      else let us = clampUS (ObsTotal obs);
        e1 = entry\<lparr>OutboundCount := OutboundCount entry + 1,
          OutboundBytes := (if ObsSize obs > 0 then OutboundBytes entry + nat (ObsSize obs)
                            else OutboundBytes entry),
          SendCount := SendCount entry + 1,
          SendTotalUS := SendTotalUS entry + us,
          SendMaxUS := (if us > SendMaxUS entry then us else SendMaxUS entry),
          EncodePhase := recordSendPhase (ObsEncode obs) (EncodePhase entry),
          QueueWaitPhase := recordSendPhase (ObsQueueWait obs) (QueueWaitPhase entry),
          StreamOpenPhase := recordSendPhase (ObsStreamOpen obs) (StreamOpenPhase entry),
          WritePhase := recordSendPhase (ObsWrite obs) (WritePhase entry),
          FinalizePhase := recordSendPhase (ObsFinalize obs) (FinalizePhase entry)\<rparr>
        in if ObsReused obs then e1\<lparr>StreamReuseCount := StreamReuseCount e1 + 1\<rparr>
           else e1\<lparr>StreamOpenCount := StreamOpenCount e1 + 1\<rparr>)"

definition validTraceWaitReason :: "waitReason \<Rightarrow> bool" where
  "validTraceWaitReason reason \<longleftrightarrow>
     reason = waitForTrueBBAResults \<or> reason = waitForAllBBAResults \<or>
     reason = waitForTruthyRBCOutputs"

definition finishWaitLocked :: "time \<Rightarrow> traceRecorder \<Rightarrow> traceRecorder" where
  "finishWaitLocked now r =
     (if trWaitReason r = NoWait then r
      else let us = Microseconds (timeSub now (trWaitStarted r)); w = Wait (trTrace r);
        w' = (case trWaitReason r of
            waitForTrueBBAResults \<Rightarrow> w\<lparr>TrueBBAQuorumUS := TrueBBAQuorumUS w + us\<rparr>
          | waitForAllBBAResults \<Rightarrow> w\<lparr>AllBBAUS := AllBBAUS w + us\<rparr>
          | waitForTruthyRBCOutputs \<Rightarrow> w\<lparr>TruthyRBCUS := TruthyRBCUS w + us\<rparr>
          | _ \<Rightarrow> w)
        in r\<lparr>trTrace := (trTrace r)\<lparr>Wait := w'\<rparr>, trWaitReason := NoWait,
             trWaitStarted := zeroTime\<rparr>)"

definition transitionWait :: "time \<Rightarrow> waitReason \<Rightarrow> traceRecorder \<Rightarrow> traceRecorder" where
  "transitionWait now reason r =
     (if \<not> trEnabled r \<or> \<not> validTraceWaitReason reason then r
      else if \<not> trStarted r \<or> trWaitReason r = reason then r
      else if now < trBase r \<or> (trWaitStarted r \<noteq> zeroTime \<and> now < trWaitStarted r) then r
      else (finishWaitLocked now r)\<lparr>trWaitReason := reason, trWaitStarted := now\<rparr>)"

definition finishWait :: "time \<Rightarrow> traceRecorder \<Rightarrow> traceRecorder" where
  "finishWait now r =
     (if \<not> trEnabled r then r
      else if \<not> trStarted r \<or> trWaitReason r = NoWait then r
      else if now < trWaitStarted r then r
      else finishWaitLocked now r)"

definition snapshot :: "traceRecorder \<Rightarrow> ACSTrace" where
  "snapshot r = (if \<not> trEnabled r then emptyTrace else trTrace r)"

section \<open>Outbound accounting\<close>

definition msg_entry :: "ACSMessageSubtype \<Rightarrow> traceRecorder \<Rightarrow> ACSMessageTrace" where
  "msg_entry t r = (case map_of (Messages (trTrace r)) t of None \<Rightarrow> emptyMessageTrace | Some e \<Rightarrow> e)"

definition allMessagesTerminalLocked :: "traceRecorder \<Rightarrow> bool" where
  "allMessagesTerminalLocked r =
     list_all (\<lambda>t. TerminalCount (msg_entry t r) = ScheduledCount (msg_entry t r)) acsMessageSubtypes"

text \<open>
  A send token binds one scheduled send to the recorder; \<^verbatim>\<open>sync.Once\<close> is its \<open>tokDone\<close> flag.
  A nil token is \<^term>\<open>None\<close>.
\<close>

record ACSSendToken =
  tokSubtype :: ACSMessageSubtype
  tokDone :: bool

definition beginMessageOutbound ::
  "ACSMessageSubtype \<Rightarrow> traceRecorder \<Rightarrow> ACSSendToken option \<times> traceRecorder" where
  "beginMessageOutbound t r =
     (if \<not> trEnabled r then (None, r)
      else if Sealed (Transport (trTrace r)) then (None, r)
      else case map_of (Messages (trTrace r)) t of
        None \<Rightarrow> (None, r)
      | Some entry \<Rightarrow>
          (Some \<lparr>tokSubtype = t, tokDone = False\<rparr>,
           put_msg t (entry\<lparr>ScheduledCount := ScheduledCount entry + 1\<rparr>) r))"

definition completeMessageOutbound ::
  "ACSMessageSubtype \<Rightarrow> ACSSendObservation \<Rightarrow> traceRecorder \<Rightarrow> traceRecorder" where
  "completeMessageOutbound t obs r =
     (case map_of (Messages (trTrace r)) t of
        None \<Rightarrow> r
      | Some entry \<Rightarrow>
          if TerminalCount entry \<ge> ScheduledCount entry then r
          else let e' = recordCompletedSend obs (entry\<lparr>TerminalCount := TerminalCount entry + 1\<rparr>);
            r' = put_msg t e' r
            in if Sealed (Transport (trTrace r')) \<and> allMessagesTerminalLocked r'
               then set_transport (\<lambda>x. x\<lparr>Finalized := True\<rparr>) r'
               else r')"

definition Complete ::
  "ACSSendObservation \<Rightarrow> ACSSendToken option \<Rightarrow> traceRecorder \<Rightarrow> ACSSendToken option \<times> traceRecorder" where
  "Complete obs token r =
     (case token of
        None \<Rightarrow> (None, r)
      | Some t \<Rightarrow>
          if tokDone t then (Some t, r)
          else (Some (t\<lparr>tokDone := True\<rparr>), completeMessageOutbound (tokSubtype t) obs r))"

definition recordMessageOutbound ::
  "ACSMessageSubtype \<Rightarrow> ACSSendObservation \<Rightarrow> traceRecorder \<Rightarrow> traceRecorder" where
  "recordMessageOutbound t obs r =
     (let (token, r') = beginMessageOutbound t r in snd (Complete obs token r'))"

definition seal_subtype :: "ACSMessageSubtype \<Rightarrow> traceRecorder \<Rightarrow> traceRecorder" where
  "seal_subtype t r =
     (let entry = msg_entry t r in
      put_msg t (entry\<lparr>PendingAtDecision :=
        sub64 (ScheduledCount entry) (TerminalCount entry)\<rparr>) r)"

definition sealMessageOutbound :: "traceRecorder \<Rightarrow> traceRecorder" where
  "sealMessageOutbound r =
     (if \<not> trEnabled r then r
      else if Sealed (Transport (trTrace r)) then r
      else let r1 = fold seal_subtype acsMessageSubtypes r;
        r2 = set_transport (\<lambda>x. x\<lparr>Sealed := True\<rparr>) r1
        in set_transport (\<lambda>x. x\<lparr>Finalized := allMessagesTerminalLocked r2\<rparr>) r2)"

definition traceFinalized :: "traceRecorder \<Rightarrow> bool" where
  "traceFinalized r = (if \<not> trEnabled r then True else Finalized (Transport (trTrace r)))"

section \<open>The calls protocol instances make\<close>

datatype trace_call =
    CallAggregate aggregateTraceEvent
  | CallRBC node_id rbcTraceEvent
  | CallRBCReady node_id RBCReadyTrigger nat nat
  | CallBBA node_id bbaTraceEvent bool nat
  | CallAdapter adapterTraceEvent
  | CallTransitionWait waitReason
  | CallFinishWait

fun apply_call :: "time \<Rightarrow> trace_call \<Rightarrow> traceRecorder \<Rightarrow> traceRecorder" where
  "apply_call now (CallAggregate e) r = recordAggregate now e r"
| "apply_call now (CallRBC p e) r = recordRBC now p e r"
| "apply_call now (CallRBCReady p t ec rc) r = recordRBCReady now p t ec rc r"
| "apply_call now (CallBBA p e v ep) r = recordBBA now p e v ep r"
| "apply_call now (CallAdapter e) r = recordAdapter now e r"
| "apply_call now (CallTransitionWait w) r = transitionWait now w r"
| "apply_call now CallFinishWait r = finishWait now r"

end
