(* ===== verification/Rbc.thy ===== *)
theory Rbc
  imports Trace
begin

text \<open>
  Reliable broadcast: \<^verbatim>\<open>sbc/hbbft/rbc.go\<close>.

  Each instance runs in one goroutine that serves one request at a time, so a handler is a
  function from the instance's state to a status and the new state. The erasure code
  (\<^verbatim>\<open>klauspost/reedsolomon\<close>) and the Merkle tree (\<^verbatim>\<open>NebulousLabs/merkletree\<close>) are third-party
  code: the record \<open>rbc_lib\<close> holds the functions the code calls. Its last field stands for
  what Go leaves open in \<open>tryDecodeValue\<close>: the order in which \<^verbatim>\<open>range\<close> visits the received
  echos. A missing shard is the empty byte string, as in the erasure code's interface.
\<close>

section \<open>Messages, errors, libraries\<close>

record ProofRequest =
  prRootHash :: bytes
  prProof :: "bytes list"
  prIndex :: int
  prLeaves :: int

datatype BroadcastMessage =
    ProofMsg ProofRequest
  | EchoMsg ProofRequest
  | ReadyMsg bytes
  | UnknownBroadcast

datatype rbc_error =
    ProofNotFromProposer node_id node_id
  | ProofMoreThanOnce node_id
  | InvalidProof node_id
  | MultipleEchos node_id node_id
  | InvalidEchoProof node_id node_id
  | MultipleReadys node_id
  | LocalReadyAdmitted node_id
  | InvalidRBCMessage
  | ShardingFailed

record rbc_lib =
  rsNew :: "int \<Rightarrow> int \<Rightarrow> bool"
  rsSplit :: "int \<Rightarrow> int \<Rightarrow> bytes \<Rightarrow> bytes list option"
  rsEncode :: "int \<Rightarrow> int \<Rightarrow> bytes list \<Rightarrow> bytes list option"
  rsReconstruct :: "int \<Rightarrow> int \<Rightarrow> bytes list \<Rightarrow> bytes list option"
  mtProve :: "bytes list \<Rightarrow> nat \<Rightarrow> bytes \<times> bytes list \<times> nat \<times> nat"
  mtVerify :: "bytes \<Rightarrow> bytes list \<Rightarrow> nat \<Rightarrow> nat \<Rightarrow> bool"
  rangeOrder :: "ProofRequest list \<Rightarrow> ProofRequest list"

record RBC =
  rbcConfig :: Config
  rbcProposerID :: node_id
  recvReadys :: "(node_id, bytes) gomap"
  recvEchos :: "(node_id, ProofRequest) gomap"
  numParityShards :: int
  numDataShards :: int
  rbcMessages :: "BroadcastMessage list"
  echoSent :: bool
  readySent :: bool
  outputDecoded :: bool
  rbcOutput :: "bytes option"
  rbcTrace :: "trace_call list"

abbreviation rbcID :: "RBC \<Rightarrow> node_id" where "rbcID r \<equiv> cfgID (rbcConfig r)"
abbreviation rbcN :: "RBC \<Rightarrow> int" where "rbcN r \<equiv> cfgN (rbcConfig r)"
abbreviation rbcF :: "RBC \<Rightarrow> int" where "rbcF r \<equiv> cfgF (rbcConfig r)"

definition newRBC :: "rbc_lib \<Rightarrow> Config \<Rightarrow> node_id \<Rightarrow> RBC option" where
  "newRBC L cfg0 proposerID =
     (let cfg = defaultF cfg0; parityShards = 2 * cfgF cfg; dataShards = cfgN cfg - parityShards in
      if \<not> rsNew L dataShards parityShards then None
      else Some \<lparr>rbcConfig = cfg, rbcProposerID = proposerID, recvReadys = [], recvEchos = [],
        numParityShards = parityShards, numDataShards = dataShards, rbcMessages = [],
        echoSent = False, readySent = False, outputDecoded = False, rbcOutput = None,
        rbcTrace = []\<rparr>)"

section \<open>Shards and proofs\<close>

definition uint64_of :: "int \<Rightarrow> nat" where
  "uint64_of i = nat (i mod 2 ^ 64)"

definition int_of_u64 :: "nat \<Rightarrow> int" where
  "int_of_u64 n = (int n + 2 ^ 63) mod 2 ^ 64 - 2 ^ 63"

definition validateProof :: "rbc_lib \<Rightarrow> ProofRequest \<Rightarrow> bool" where
  "validateProof L req =
     mtVerify L (prRootHash req) (prProof req) (uint64_of (prIndex req)) (uint64_of (prLeaves req))"

definition makeShards :: "rbc_lib \<Rightarrow> int \<Rightarrow> int \<Rightarrow> bytes \<Rightarrow> bytes list option" where
  "makeShards L nd np data =
     (case rsSplit L nd np data of None \<Rightarrow> None | Some shards \<Rightarrow> rsEncode L nd np shards)"

definition proveAt :: "rbc_lib \<Rightarrow> bytes list \<Rightarrow> nat \<Rightarrow> ProofRequest" where
  "proveAt L shards i =
     (let (root, proof, proofIndex, n) = mtProve L shards i in
      \<lparr>prRootHash = root, prProof = proof, prIndex = int_of_u64 proofIndex, prLeaves = int_of_u64 n\<rparr>)"

definition makeProofRequests :: "rbc_lib \<Rightarrow> bytes list \<Rightarrow> ProofRequest list" where
  "makeProofRequests L shards = map (proveAt L shards) [0..<length shards]"

definition makeBroadcastMessages :: "rbc_lib \<Rightarrow> bytes list \<Rightarrow> BroadcastMessage list" where
  "makeBroadcastMessages L shards = map (\<lambda>i. ProofMsg (proveAt L shards i)) [0..<length shards]"

section \<open>Handlers\<close>

definition rbc_log :: "trace_call \<Rightarrow> RBC \<Rightarrow> RBC" where
  "rbc_log c r = r\<lparr>rbcTrace := rbcTrace r @ [c]\<rparr>"

definition countEchos :: "bytes \<Rightarrow> RBC \<Rightarrow> nat" where
  "countEchos hash r = count_where (\<lambda>e. hash = prRootHash e) (recvEchos r)"

definition countReadys :: "bytes \<Rightarrow> RBC \<Rightarrow> nat" where
  "countReadys hash r = count_where (\<lambda>h. hash = h) (recvReadys r)"

text \<open>
  The loop \<^verbatim>\<open>shards[p.Index] = p.Proof[0]\<close> over the sorted proofs; both index expressions
  panic out of range.
\<close>

fun fillShards :: "ProofRequest list \<Rightarrow> bytes list \<Rightarrow> bytes list option" where
  "fillShards [] shards = Some shards"
| "fillShards (p # ps) shards =
     (case prProof p of
        [] \<Rightarrow> None
      | leaf # _ \<Rightarrow>
          if 0 \<le> prIndex p \<and> prIndex p < int (length shards)
          then fillShards ps (shards[nat (prIndex p) := leaf]) else None)"

definition sortProofs :: "rbc_lib \<Rightarrow> ProofRequest list \<Rightarrow> ProofRequest list" where
  "sortProofs L ps = sortSlice (\<lambda>p q. prIndex p < prIndex q) (rangeOrder L ps)"

definition echosFor :: "bytes \<Rightarrow> RBC \<Rightarrow> ProofRequest list" where
  "echosFor hash r = filter (\<lambda>e. hash = prRootHash e) (map snd (recvEchos r))"

text \<open>An empty value leaves the output nil.\<close>

definition storeOutput :: "bytes \<Rightarrow> RBC \<Rightarrow> RBC" where
  "storeOutput value r = r\<lparr>rbcOutput := (if value = [] then None else Some value), outputDecoded := True\<rparr>"

definition tryDecodeValue :: "rbc_lib \<Rightarrow> bytes \<Rightarrow> RBC \<Rightarrow> rbc_error status \<times> RBC" where
  "tryDecodeValue L hash r =
     (if outputDecoded r \<or> int (countReadys hash r) \<le> 2 * rbcF r \<or> int (countEchos hash r) \<le> rbcF r
      then (NoErr, r)
      else
        let r1 = rbc_log (CallRBC (rbcProposerID r) traceRBCDecodeEligible) r;
            prfs = sortProofs L (echosFor hash r1)
        in case fillShards prfs (replicate (nat (numParityShards r1 + numDataShards r1)) []) of
          None \<Rightarrow> (Panic, r1)
        | Some shards \<Rightarrow>
            let r2 = rbc_log (CallRBC (rbcProposerID r) traceRBCReconstructionStarted) r1 in
            (case rsReconstruct L (numDataShards r2) (numParityShards r2) shards of
               None \<Rightarrow> (NoErr, r2)
             | Some full \<Rightarrow>
                 (case makeProofRequests L full of
                    [] \<Rightarrow> (NoErr, r2)
                  | first # _ \<Rightarrow>
                      if hash \<noteq> prRootHash first then (NoErr, r2)
                      else
                        let r3 = rbc_log (CallRBC (rbcProposerID r) traceRBCReconstructionFinished) r2;
                            value = concat (take (nat (numDataShards r3)) full);
                            r4 = storeOutput value r3
                        in (NoErr, rbc_log (CallRBC (rbcProposerID r) traceRBCOutputStored) r4))))"

definition emitReady :: "rbc_lib \<Rightarrow> bytes \<Rightarrow> RBCReadyTrigger \<Rightarrow> RBC \<Rightarrow> rbc_error status \<times> RBC" where
  "emitReady L root trigger r =
     (if readySent r then tryDecodeValue L root r
      else if has_key (recvReadys r) (rbcID r) then (Err (LocalReadyAdmitted (rbcID r)), r)
      else
        let echoCount = countEchos root r; readyCount = countReadys root r;
            r1 = r\<lparr>recvReadys := AList.update (rbcID r) root (recvReadys r), readySent := True\<rparr>;
            r2 = rbc_log (CallRBCReady (rbcProposerID r) trigger echoCount readyCount) r1;
            r3 = r2\<lparr>rbcMessages := rbcMessages r2 @ [ReadyMsg root]\<rparr>
        in tryDecodeValue L root r3)"

definition handleEchoRequest :: "rbc_lib \<Rightarrow> node_id \<Rightarrow> ProofRequest \<Rightarrow> RBC \<Rightarrow> rbc_error status \<times> RBC" where
  "handleEchoRequest L senderID req r =
     (if has_key (recvEchos r) senderID then (Err (MultipleEchos senderID (rbcID r)), r)
      else if \<not> validateProof L req then (Err (InvalidEchoProof senderID (rbcID r)), r)
      else
        let r1 = r\<lparr>recvEchos := AList.update senderID req (recvEchos r)\<rparr> in
        if readySent r1 \<or> int (countEchos (prRootHash req) r1) < rbcN r1 - rbcF r1
        then tryDecodeValue L (prRootHash req) r1
        else emitReady L (prRootHash req) RBCReadyTriggerEchoQuorum r1)"

definition handleReadyRequest :: "rbc_lib \<Rightarrow> node_id \<Rightarrow> bytes \<Rightarrow> RBC \<Rightarrow> rbc_error status \<times> RBC" where
  "handleReadyRequest L senderID root r =
     (if has_key (recvReadys r) senderID then (Err (MultipleReadys senderID), r)
      else
        let r1 = r\<lparr>recvReadys := AList.update senderID root (recvReadys r)\<rparr> in
        if int (countReadys root r1) = rbcF r1 + 1 \<and> \<not> readySent r1
        then emitReady L root RBCReadyTriggerRelay r1
        else tryDecodeValue L root r1)"

definition handleProofRequest :: "rbc_lib \<Rightarrow> node_id \<Rightarrow> ProofRequest \<Rightarrow> RBC \<Rightarrow> rbc_error status \<times> RBC" where
  "handleProofRequest L senderID req r =
     (if senderID \<noteq> rbcProposerID r then (Err (ProofNotFromProposer senderID (rbcProposerID r)), r)
      else if echoSent r then (Err (ProofMoreThanOnce senderID), r)
      else if \<not> validateProof L req then (Err (InvalidProof senderID), r)
      else
        let r1 = rbc_log (CallRBC (rbcProposerID r) traceRBCProofAccepted) r;
            r2 = r1\<lparr>echoSent := True\<rparr>;
            r3 = rbc_log (CallRBC (rbcProposerID r) traceRBCEchoSent) r2;
            r4 = r3\<lparr>rbcMessages := rbcMessages r3 @ [EchoMsg req]\<rparr>
        in handleEchoRequest L (rbcID r4) req r4)"

fun rbc_handleMessage :: "rbc_lib \<Rightarrow> node_id \<Rightarrow> BroadcastMessage \<Rightarrow> RBC \<Rightarrow> rbc_error status \<times> RBC" where
  "rbc_handleMessage L senderID (ProofMsg req) r = handleProofRequest L senderID req r"
| "rbc_handleMessage L senderID (EchoMsg req) r = handleEchoRequest L senderID req r"
| "rbc_handleMessage L senderID (ReadyMsg root) r = handleReadyRequest L senderID root r"
| "rbc_handleMessage L senderID UnknownBroadcast r = (Err InvalidRBCMessage, r)"

text \<open>
  \<^verbatim>\<open>inputValue\<close> returns the requests for the other participants. \<^verbatim>\<open>reqs[0]\<close> panics on an
  empty list of requests.
\<close>

definition rbc_inputValue ::
  "rbc_lib \<Rightarrow> bytes \<Rightarrow> RBC \<Rightarrow> rbc_error status \<times> BroadcastMessage list \<times> RBC" where
  "rbc_inputValue L data r =
     (case makeShards L (numDataShards r) (numParityShards r) data of
        None \<Rightarrow> (Err ShardingFailed, [], r)
      | Some shards \<Rightarrow>
          (case makeBroadcastMessages L shards of
             [] \<Rightarrow> (Panic, [], r)
           | first # rest \<Rightarrow>
               (case first of
                  ProofMsg proof \<Rightarrow>
                    (case handleProofRequest L (rbcID r) proof r of
                       (NoErr, r') \<Rightarrow> (NoErr, rest, r')
                     | (st, r') \<Rightarrow> (st, [], r'))
                | _ \<Rightarrow> (Panic, [], r))))"

definition rbc_takeMessages :: "RBC \<Rightarrow> BroadcastMessage list \<times> RBC" where
  "rbc_takeMessages r = (rbcMessages r, r\<lparr>rbcMessages := []\<rparr>)"

definition rbc_takeOutput :: "RBC \<Rightarrow> bytes option \<times> RBC" where
  "rbc_takeOutput r =
     (case rbcOutput r of Some out \<Rightarrow> (Some out, r\<lparr>rbcOutput := None\<rparr>) | None \<Rightarrow> (None, r))"

record RBCProgress =
  rpEchos :: nat
  rpReadys :: nat
  rpEchoSent :: bool
  rpReadySent :: bool
  rpOutputDecoded :: bool
  rpOutputStored :: bool

definition rbc_progress :: "RBC \<Rightarrow> RBCProgress" where
  "rbc_progress r = \<lparr>rpEchos = length (recvEchos r), rpReadys = length (recvReadys r),
     rpEchoSent = echoSent r, rpReadySent = readySent r, rpOutputDecoded = outputDecoded r,
     rpOutputStored = (rbcOutput r \<noteq> None)\<rparr>"

interpretation rbc_out: take_once rbcOutput rbc_takeOutput
  by unfold_locales (auto simp: rbc_takeOutput_def split: option.splits)

end
