(* ===== verification/Acs.thy ===== *)
theory Acs
  imports Message_Que Rbc Bba
begin

text \<open>
  Asynchronous common subset: \<^verbatim>\<open>sbc/hbbft/acs.go\<close>.

  One instance owns a reliable broadcast and a binary agreement per participant and runs in
  one goroutine. The instance's recorder is shared with its children: the calls a child has
  logged move to the parent's log when the child's call returns (\<open>put_rbc_instance\<close>,
  \<open>put_bba_instance\<close>). The order in which \<^verbatim>\<open>range a.bbaInstances\<close> visits the agreements when it
  hands out the false inputs is the parameter \<open>ord\<close>.
\<close>

section \<open>Messages, errors, state\<close>

datatype ACSPayload =
    AgreementPayload AgreementMessage
  | BroadcastPayload BroadcastMessage
  | UnknownACSPayload

record ACSMessage =
  acsProposerID :: node_id
  acsPayload :: ACSPayload

datatype acs_error =
    NoRBCInstance node_id
  | NoBBAInstance node_id
  | RBCFailed rbc_error
  | BBAFailed bba_error
  | WrongProofCount nat
  | MultipleBBAResults node_id
  | UnknownACSMessage

record ACS =
  acsConfig :: Config
  rbcInstances :: "(node_id, RBC) gomap"
  bbaInstances :: "(node_id, BBA) gomap"
  rbcResults :: "(node_id, bytes) gomap"
  bbaResults :: "(node_id, bool) gomap"
  acsOutput :: "(node_id, bytes) gomap option"
  acsMessageQue :: "ACSMessage messageQue"
  decided :: bool
  acsTrace :: "trace_call list"

abbreviation acsID :: "ACS \<Rightarrow> node_id" where "acsID a \<equiv> cfgID (acsConfig a)"
abbreviation acsN :: "ACS \<Rightarrow> int" where "acsN a \<equiv> cfgN (acsConfig a)"
abbreviation acsF :: "ACS \<Rightarrow> int" where "acsF a \<equiv> cfgF (acsConfig a)"
abbreviation acsNodes :: "ACS \<Rightarrow> node_id list" where "acsNodes a \<equiv> cfgNodes (acsConfig a)"

text \<open>The constructor panics when one of the broadcast instances cannot be created.\<close>

definition newACS :: "rbc_lib \<Rightarrow> Config \<Rightarrow> ACS option" where
  "newACS L cfg0 =
     (let cfg = defaultF cfg0;
          a0 = \<lparr>acsConfig = cfg, rbcInstances = [], bbaInstances = [], rbcResults = [],
            bbaResults = [], acsOutput = None, acsMessageQue = newMessageQue, decided = False,
            acsTrace = []\<rparr>
      in bind_fold (\<lambda>nid a.
           case newRBC L cfg nid of
             None \<Rightarrow> None
           | Some rbc \<Rightarrow> Some (a\<lparr>rbcInstances := AList.update nid rbc (rbcInstances a),
               bbaInstances := AList.update nid (newBBA cfg nid) (bbaInstances a)\<rparr>))
         (cfgNodes cfg) a0)"

section \<open>Queries\<close>

definition countTruthyAgreements :: "ACS \<Rightarrow> nat" where
  "countTruthyAgreements a = count_where (\<lambda>ok. ok) (bbaResults a)"

definition uint64sWithout :: "node_id list \<Rightarrow> node_id \<Rightarrow> node_id list" where
  "uint64sWithout s val = filter (\<lambda>x. x \<noteq> val) s"

text \<open>Whether every proposer decided true has a broadcast result.\<close>

definition truthyHaveRBC :: "ACS \<Rightarrow> bool" where
  "truthyHaveRBC a = list_all (\<lambda>(nid, result). result \<longrightarrow> has_key (rbcResults a) nid) (bbaResults a)"

definition waitingReason :: "ACS \<Rightarrow> waitReason" where
  "waitingReason a =
     (if decided a then NoWait
      else if int (countTruthyAgreements a) < acsN a - acsF a then waitForTrueBBAResults
      else if int (length (bbaResults a)) < acsN a then waitForAllBBAResults
      else if \<not> truthyHaveRBC a then waitForTruthyRBCOutputs
      else readyToComplete)"

definition Done :: "ACS \<Rightarrow> bool" where
  "Done a = (list_all (\<lambda>(nid, bba). bbaDone bba) (bbaInstances a) \<and> que_len (acsMessageQue a) = 0)"

section \<open>Recording, queueing\<close>

definition acs_log :: "trace_call \<Rightarrow> ACS \<Rightarrow> ACS" where
  "acs_log c a = a\<lparr>acsTrace := acsTrace a @ [c]\<rparr>"

definition noteAggregate :: "bool \<Rightarrow> aggregateTraceEvent \<Rightarrow> ACS \<Rightarrow> ACS" where
  "noteAggregate c e a = (if c then acs_log (CallAggregate e) a else a)"

definition recordTraceState :: "ACS \<Rightarrow> ACS" where
  "recordTraceState a =
     (let nf = acsN a - acsF a; truthy = int (countTruthyAgreements a);
          a1 = noteAggregate (length (rbcResults a) > 0) traceACSFirstRBCOutput a;
          a2 = noteAggregate (int (length (rbcResults a)) \<ge> nf) traceACSRBCOutputQuorum a1;
          a3 = noteAggregate (truthy > 0) traceACSFirstTrueBBA a2;
          a4 = noteAggregate (truthy \<ge> nf) traceACSTrueBBAQuorum a3;
          a5 = noteAggregate (int (length (bbaResults a)) = acsN a) traceACSAllBBADecided a4
      in if truthy < nf \<or> int (length (bbaResults a)) < acsN a then a5
         else noteAggregate (truthyHaveRBC a) traceACSTruthyRBCReady a5)"

definition acs_addMessage :: "node_id \<Rightarrow> ACSPayload \<Rightarrow> ACS \<Rightarrow> ACS" where
  "acs_addMessage from msg a =
     a\<lparr>acsMessageQue := fold (\<lambda>nid. que_addMessage \<lparr>acsProposerID = from, acsPayload = msg\<rparr> nid)
          (uint64sWithout (acsNodes a) (acsID a)) (acsMessageQue a)\<rparr>"

text \<open>
  \<^verbatim>\<open>tryCompleteAgreement\<close>. The results are collected in the order of the proposer ids; the
  first one without a broadcast result stops the attempt.
\<close>

fun collectResults :: "node_id list \<Rightarrow> (node_id, bytes) gomap \<Rightarrow> (node_id, bytes) gomap \<Rightarrow> (node_id, bytes) gomap option" where
  "collectResults [] results bc = Some bc"
| "collectResults (nid # nids) results bc =
     (case map_of results nid of
        None \<Rightarrow> None
      | Some val \<Rightarrow> collectResults nids results (AList.update nid val bc))"

definition nodesThatProvidedTrue :: "ACS \<Rightarrow> node_id list" where
  "nodesThatProvidedTrue a = sortSlice (<) (map fst (filter snd (bbaResults a)))"

definition tryCompleteAgreement :: "ACS \<Rightarrow> ACS" where
  "tryCompleteAgreement a0 =
     (let a1 = recordTraceState a0; a = acs_log (CallTransitionWait (waitingReason a1)) a1 in
      if decided a \<or> int (countTruthyAgreements a) < acsN a - acsF a then a
      else if int (length (bbaResults a)) < acsN a then a
      else case collectResults (nodesThatProvidedTrue a) (rbcResults a) [] of
        None \<Rightarrow> a
      | Some bcResults \<Rightarrow>
          acs_log CallFinishWait (acs_log (CallAggregate traceACSCoreDecision)
            (a\<lparr>acsOutput := Some bcResults, decided := True\<rparr>)))"

section \<open>The children\<close>

definition put_rbc_instance :: "node_id \<Rightarrow> RBC \<Rightarrow> ACS \<Rightarrow> ACS" where
  "put_rbc_instance pid r a =
     a\<lparr>rbcInstances := AList.update pid (r\<lparr>rbcTrace := []\<rparr>) (rbcInstances a),
       acsTrace := acsTrace a @ rbcTrace r\<rparr>"

definition put_bba_instance :: "node_id \<Rightarrow> BBA \<Rightarrow> ACS \<Rightarrow> ACS" where
  "put_bba_instance pid b a =
     a\<lparr>bbaInstances := AList.update pid (b\<lparr>bbaTrace := []\<rparr>) (bbaInstances a),
       acsTrace := acsTrace a @ bbaTrace b\<rparr>"

text \<open>Queue what a child produced and consume its output.\<close>

definition drainBBA :: "node_id \<Rightarrow> BBA \<Rightarrow> ACS \<Rightarrow> bool option \<times> ACS" where
  "drainBBA pid b a =
     (let (msgs, b1) = bba_takeMessages b; (out, b2) = bba_takeOutput b1
      in (out, fold (\<lambda>m. acs_addMessage pid (AgreementPayload m)) msgs (put_bba_instance pid b2 a)))"

definition drainRBC :: "node_id \<Rightarrow> RBC \<Rightarrow> ACS \<Rightarrow> bytes option \<times> ACS" where
  "drainRBC pid r a =
     (let (msgs, r1) = rbc_takeMessages r; (out, r2) = rbc_takeOutput r1
      in (out, fold (\<lambda>m. acs_addMessage pid (BroadcastPayload m)) msgs (put_rbc_instance pid r2 a)))"

fun lift_status :: "('a \<Rightarrow> 'b) \<Rightarrow> 'a status \<Rightarrow> 'b status" where
  "lift_status f NoErr = NoErr"
| "lift_status f (Err e) = Err (f e)"
| "lift_status f Panic = Panic"
| "lift_status f Diverge = Diverge"

definition setBBAResult :: "node_id \<Rightarrow> bool \<Rightarrow> ACS \<Rightarrow> ACS" where
  "setBBAResult pid v a = a\<lparr>bbaResults := AList.update pid v (bbaResults a)\<rparr>"

section \<open>Handlers\<close>

text \<open>The loop that provides input 0 to the agreements without input.\<close>

fun falseInputs :: "node_id list \<Rightarrow> bool \<Rightarrow> ACS \<Rightarrow> acs_error status \<times> ACS" where
  "falseInputs [] recorded a = (NoErr, a)"
| "falseInputs (nid # nids) recorded a =
     (case map_of (bbaInstances a) nid of
        None \<Rightarrow> falseInputs nids recorded a
      | Some bba \<Rightarrow>
          if \<not> AcceptInput bba then falseInputs nids recorded a
          else
            let a1 = (if recorded then a else acs_log (CallAggregate traceACSFalseInputInjected) a) in
            (case bba_InputValue False bba of
               (NoErr, bba') \<Rightarrow>
                 let (out, a2) = drainBBA nid bba' a1 in
                 (case out of
                    None \<Rightarrow> falseInputs nids True a2
                  | Some v \<Rightarrow> falseInputs nids True (recordTraceState (setBBAResult nid v a2)))
             | (st, bba') \<Rightarrow> (lift_status BBAFailed st, put_bba_instance nid bba' a1)))"

definition processAgreement ::
  "(node_id list \<Rightarrow> node_id list) \<Rightarrow> node_id \<Rightarrow> (BBA \<Rightarrow> bba_error status \<times> BBA) \<Rightarrow> ACS \<Rightarrow> acs_error status \<times> ACS" where
  "processAgreement ord pid f a =
     (case map_of (bbaInstances a) pid of
        None \<Rightarrow> (Err (NoBBAInstance pid), a)
      | Some bba \<Rightarrow>
          if bbaDone bba then (NoErr, a)
          else
            (case f bba of
               (NoErr, bba') \<Rightarrow>
                 let (out, a1) = drainBBA pid bba' a in
                 (case out of
                    None \<Rightarrow> (NoErr, a1)
                  | Some v \<Rightarrow>
                      if has_key (bbaResults a1) pid then (Err (MultipleBBAResults pid), a1)
                      else
                        let a2 = recordTraceState (setBBAResult pid v a1);
                            (st, a3) = (if v \<and> int (countTruthyAgreements a2) = acsN a2 - acsF a2
                                        then falseInputs (ord (map fst (bbaInstances a2))) False a2
                                        else (NoErr, a2))
                        in (case st of NoErr \<Rightarrow> (NoErr, tryCompleteAgreement a3) | _ \<Rightarrow> (st, a3)))
             | (st, bba') \<Rightarrow> (lift_status BBAFailed st, put_bba_instance pid bba' a)))"

text \<open>What the code does with an agreement whose broadcast has delivered.\<close>

definition inputTrue :: "BBA \<Rightarrow> bba_error status \<times> BBA" where
  "inputTrue bba = (if AcceptInput bba then bba_InputValue True bba else (NoErr, bba))"

definition setRBCResult :: "node_id \<Rightarrow> bytes \<Rightarrow> ACS \<Rightarrow> ACS" where
  "setRBCResult pid v a = a\<lparr>rbcResults := AList.update pid v (rbcResults a)\<rparr>"

definition processBroadcast ::
  "(node_id list \<Rightarrow> node_id list) \<Rightarrow> node_id \<Rightarrow> (RBC \<Rightarrow> rbc_error status \<times> RBC) \<Rightarrow> ACS \<Rightarrow> acs_error status \<times> ACS" where
  "processBroadcast ord pid f a =
     (case map_of (rbcInstances a) pid of
        None \<Rightarrow> (Err (NoRBCInstance pid), a)
      | Some rbc \<Rightarrow>
          (case f rbc of
             (NoErr, rbc') \<Rightarrow>
               let (out, a1) = drainRBC pid rbc' a in
               (case out of
                  None \<Rightarrow> (NoErr, a1)
                | Some v \<Rightarrow>
                    let a2 = recordTraceState (setRBCResult pid v a1) in
                    (case processAgreement ord pid inputTrue a2 of
                       (NoErr, a3) \<Rightarrow> (NoErr, tryCompleteAgreement a3)
                     | (st, a3) \<Rightarrow> (st, a3)))
           | (st, rbc') \<Rightarrow> (lift_status RBCFailed st, put_rbc_instance pid rbc' a)))"

definition handleAgreement ::
  "(node_id list \<Rightarrow> node_id list) \<Rightarrow> node_id \<Rightarrow> node_id \<Rightarrow> AgreementMessage \<Rightarrow> ACS \<Rightarrow> acs_error status \<times> ACS" where
  "handleAgreement ord sid pid msg a = processAgreement ord pid (bba_HandleMessage sid msg) a"

definition handleBroadcast ::
  "rbc_lib \<Rightarrow> (node_id list \<Rightarrow> node_id list) \<Rightarrow> node_id \<Rightarrow> node_id \<Rightarrow> BroadcastMessage \<Rightarrow> ACS \<Rightarrow> acs_error status \<times> ACS" where
  "handleBroadcast L ord sid pid msg a = processBroadcast ord pid (rbc_handleMessage L sid msg) a"

definition acs_handleMessage ::
  "rbc_lib \<Rightarrow> (node_id list \<Rightarrow> node_id list) \<Rightarrow> node_id \<Rightarrow> ACSMessage \<Rightarrow> ACS \<Rightarrow> acs_error status \<times> ACS" where
  "acs_handleMessage L ord senderID msg a =
     (case acsPayload msg of
        AgreementPayload m \<Rightarrow> handleAgreement ord senderID (acsProposerID msg) m a
      | BroadcastPayload m \<Rightarrow> handleBroadcast L ord senderID (acsProposerID msg) m a
      | UnknownACSPayload \<Rightarrow> (Err UnknownACSMessage, a))"

text \<open>
  The proof requests go to the other participants in the order of \<^verbatim>\<open>Nodes\<close>; \<^verbatim>\<open>reqs[i]\<close> panics
  when there are more of them than requests.
\<close>

fun sendProofs :: "node_id \<Rightarrow> node_id list \<Rightarrow> BroadcastMessage list \<Rightarrow> ACSMessage messageQue \<Rightarrow> ACSMessage messageQue option" where
  "sendProofs from [] reqs q = Some q"
| "sendProofs from (nid # nids) [] q = None"
| "sendProofs from (nid # nids) (req # reqs) q =
     sendProofs from nids reqs (que_addMessage \<lparr>acsProposerID = from, acsPayload = BroadcastPayload req\<rparr> nid q)"

definition acs_inputValue ::
  "rbc_lib \<Rightarrow> (node_id list \<Rightarrow> node_id list) \<Rightarrow> bytes \<Rightarrow> ACS \<Rightarrow> acs_error status \<times> ACS" where
  "acs_inputValue L ord data a0 =
     (let a = acs_log (CallTransitionWait waitForTrueBBAResults) (acs_log (CallAggregate traceACSInputStarted) a0) in
      case map_of (rbcInstances a) (acsID a) of
        None \<Rightarrow> (Err (NoRBCInstance (acsID a)), a)
      | Some rbc \<Rightarrow>
          (case rbc_inputValue L data rbc of
             (NoErr, reqs, rbc') \<Rightarrow>
               let a1 = put_rbc_instance (acsID a) rbc' a in
               if int (length reqs) \<noteq> acsN a - 1 then (Err (WrongProofCount (length reqs)), a1)
               else
                 (case sendProofs (acsID a) (uint64sWithout (acsNodes a) (acsID a)) reqs (acsMessageQue a1) of
                    None \<Rightarrow> (Panic, a1)
                  | Some q \<Rightarrow>
                      let (out, a2) = drainRBC (acsID a) (rbc'\<lparr>rbcTrace := []\<rparr>) (a1\<lparr>acsMessageQue := q\<rparr>) in
                      (case out of
                         None \<Rightarrow> (NoErr, a2)
                       | Some v \<Rightarrow>
                           (case processAgreement ord (acsID a) inputTrue
                                   (recordTraceState (setRBCResult (acsID a) v a2)) of
                              (Panic, a3) \<Rightarrow> (Panic, a3)
                            | (Diverge, a3) \<Rightarrow> (Diverge, a3)
                            | (_, a3) \<Rightarrow> (NoErr, a3))))
           | (st, reqs, rbc') \<Rightarrow> (lift_status RBCFailed st, put_rbc_instance (acsID a) rbc' a)))"

definition acs_takeOutput :: "ACS \<Rightarrow> (node_id, bytes) gomap option \<times> ACS" where
  "acs_takeOutput a =
     (case acsOutput a of Some out \<Rightarrow> (Some out, a\<lparr>acsOutput := None\<rparr>) | None \<Rightarrow> (None, a))"

interpretation acs_out: take_once acsOutput acs_takeOutput
  by unfold_locales (auto simp: acs_takeOutput_def split: option.splits)

section \<open>Progress report\<close>

record ACSProgress =
  apDecided :: bool
  apQueuedMessages :: nat
  apRBCOutputs :: nat
  apRBCOutputIDs :: "node_id list"
  apBBAResultCount :: nat
  apBBAResults :: "(node_id, bool) gomap"
  apTruthyBBAResults :: nat
  apTruthyBBAProposerIDs :: "node_id list"
  apWaitingReason :: waitReason
  apRBC :: "(node_id, RBCProgress) gomap"
  apBBA :: "(node_id, BBAProgress) gomap"

definition acs_progress :: "ACS \<Rightarrow> ACSProgress" where
  "acs_progress a =
     \<lparr>apDecided = decided a, apQueuedMessages = que_len (acsMessageQue a),
      apRBCOutputs = length (rbcResults a),
      apRBCOutputIDs = sortSlice (<) (map fst (rbcResults a)),
      apBBAResultCount = length (bbaResults a),
      apBBAResults = bbaResults a,
      apTruthyBBAResults = countTruthyAgreements a,
      apTruthyBBAProposerIDs = sortSlice (<) (map fst (filter snd (bbaResults a))),
      apWaitingReason = waitingReason a,
      apRBC = map (\<lambda>(nid, rbc). (nid, (rbc_progress rbc)\<lparr>rpOutputStored :=
        (if has_key (rbcResults a) nid then True else rpOutputStored (rbc_progress rbc))\<rparr>)) (rbcInstances a),
      apBBA = map (\<lambda>(nid, bba). (nid, bba_progress bba)) (bbaInstances a)\<rparr>"

interpretation node_order: slice_order "(<) :: node_id \<Rightarrow> node_id \<Rightarrow> bool" "\<lambda>nid. nid"
  by unfold_locales simp

end
