(* ===== verification/Acs_Facts.thy ===== *)
theory Acs_Facts
  imports Acs
begin

text \<open>
  What the common subset guarantees locally: when it completes and with which output, that
  completion is final and never missed, and where its messages go.
\<close>

section \<open>Fields the small operations leave alone\<close>

lemma acs_log_fields [frame_simps, simp]:
  "acsConfig (acs_log c a) = acsConfig a" "rbcInstances (acs_log c a) = rbcInstances a"
  "bbaInstances (acs_log c a) = bbaInstances a" "rbcResults (acs_log c a) = rbcResults a"
  "bbaResults (acs_log c a) = bbaResults a" "acsOutput (acs_log c a) = acsOutput a"
  "acsMessageQue (acs_log c a) = acsMessageQue a" "decided (acs_log c a) = decided a"
  by (simp_all add: acs_log_def)

lemma noteAggregate_fields [frame_simps, simp]:
  "acsConfig (noteAggregate c e a) = acsConfig a" "rbcInstances (noteAggregate c e a) = rbcInstances a"
  "bbaInstances (noteAggregate c e a) = bbaInstances a" "rbcResults (noteAggregate c e a) = rbcResults a"
  "bbaResults (noteAggregate c e a) = bbaResults a" "acsOutput (noteAggregate c e a) = acsOutput a"
  "acsMessageQue (noteAggregate c e a) = acsMessageQue a" "decided (noteAggregate c e a) = decided a"
  by (simp_all add: noteAggregate_def)

lemma recordTraceState_fields [frame_simps, simp]:
  "acsConfig (recordTraceState a) = acsConfig a" "rbcInstances (recordTraceState a) = rbcInstances a"
  "bbaInstances (recordTraceState a) = bbaInstances a" "rbcResults (recordTraceState a) = rbcResults a"
  "bbaResults (recordTraceState a) = bbaResults a" "acsOutput (recordTraceState a) = acsOutput a"
  "acsMessageQue (recordTraceState a) = acsMessageQue a" "decided (recordTraceState a) = decided a"
  by (simp_all add: recordTraceState_def Let_def)

lemma addMessage_acs_fields [frame_simps, simp]:
  "acsConfig (acs_addMessage p m a) = acsConfig a" "rbcInstances (acs_addMessage p m a) = rbcInstances a"
  "bbaInstances (acs_addMessage p m a) = bbaInstances a" "rbcResults (acs_addMessage p m a) = rbcResults a"
  "bbaResults (acs_addMessage p m a) = bbaResults a" "acsOutput (acs_addMessage p m a) = acsOutput a"
  "decided (acs_addMessage p m a) = decided a"
  by (simp_all add: acs_addMessage_def)

lemma fold_addMessage_fields [frame_simps, simp]:
  "acsConfig (fold (\<lambda>m. acs_addMessage p (g m)) ms a) = acsConfig a"
  "rbcInstances (fold (\<lambda>m. acs_addMessage p (g m)) ms a) = rbcInstances a"
  "bbaInstances (fold (\<lambda>m. acs_addMessage p (g m)) ms a) = bbaInstances a"
  "rbcResults (fold (\<lambda>m. acs_addMessage p (g m)) ms a) = rbcResults a"
  "bbaResults (fold (\<lambda>m. acs_addMessage p (g m)) ms a) = bbaResults a"
  "acsOutput (fold (\<lambda>m. acs_addMessage p (g m)) ms a) = acsOutput a"
  "decided (fold (\<lambda>m. acs_addMessage p (g m)) ms a) = decided a"
  by (induction ms arbitrary: a) simp_all

lemma put_instance_fields [frame_simps, simp]:
  "acsConfig (put_bba_instance p b a) = acsConfig a" "rbcInstances (put_bba_instance p b a) = rbcInstances a"
  "rbcResults (put_bba_instance p b a) = rbcResults a" "bbaResults (put_bba_instance p b a) = bbaResults a"
  "acsOutput (put_bba_instance p b a) = acsOutput a" "decided (put_bba_instance p b a) = decided a"
  "acsMessageQue (put_bba_instance p b a) = acsMessageQue a"
  "bbaInstances (put_bba_instance p b a) = AList.update p (b\<lparr>bbaTrace := []\<rparr>) (bbaInstances a)"
  "acsConfig (put_rbc_instance p r a) = acsConfig a" "bbaInstances (put_rbc_instance p r a) = bbaInstances a"
  "rbcResults (put_rbc_instance p r a) = rbcResults a" "bbaResults (put_rbc_instance p r a) = bbaResults a"
  "acsOutput (put_rbc_instance p r a) = acsOutput a" "decided (put_rbc_instance p r a) = decided a"
  "acsMessageQue (put_rbc_instance p r a) = acsMessageQue a"
  "rbcInstances (put_rbc_instance p r a) = AList.update p (r\<lparr>rbcTrace := []\<rparr>) (rbcInstances a)"
  by (simp_all add: put_bba_instance_def put_rbc_instance_def)

lemma takeOutput_eq:
  "bba_takeOutput b = (bbaOutput b, b\<lparr>bbaOutput := None\<rparr>)" "rbc_takeOutput r = (rbcOutput r, r\<lparr>rbcOutput := None\<rparr>)"
  by (auto simp: bba_takeOutput_def rbc_takeOutput_def split: option.splits intro!: BBA.equality RBC.equality)

lemma drainBBA_fields [frame_simps, simp]:
  "fst (drainBBA p b a) = bbaOutput b"
  "acsConfig (snd (drainBBA p b a)) = acsConfig a" "rbcInstances (snd (drainBBA p b a)) = rbcInstances a"
  "rbcResults (snd (drainBBA p b a)) = rbcResults a" "bbaResults (snd (drainBBA p b a)) = bbaResults a"
  "acsOutput (snd (drainBBA p b a)) = acsOutput a" "decided (snd (drainBBA p b a)) = decided a"
  "bbaInstances (snd (drainBBA p b a)) =
     AList.update p (b\<lparr>bbaMessages := [], bbaOutput := None, bbaTrace := []\<rparr>) (bbaInstances a)"
  by (simp_all add: drainBBA_def bba_takeMessages_def takeOutput_eq)

lemma drainRBC_fields [frame_simps, simp]:
  "fst (drainRBC p r a) = rbcOutput r"
  "acsConfig (snd (drainRBC p r a)) = acsConfig a" "bbaInstances (snd (drainRBC p r a)) = bbaInstances a"
  "rbcResults (snd (drainRBC p r a)) = rbcResults a" "bbaResults (snd (drainRBC p r a)) = bbaResults a"
  "acsOutput (snd (drainRBC p r a)) = acsOutput a" "decided (snd (drainRBC p r a)) = decided a"
  "rbcInstances (snd (drainRBC p r a)) =
     AList.update p (r\<lparr>rbcMessages := [], rbcOutput := None, rbcTrace := []\<rparr>) (rbcInstances a)"
  by (simp_all add: drainRBC_def rbc_takeMessages_def takeOutput_eq)

lemma setResult_fields [frame_simps, simp]:
  "acsConfig (setBBAResult p v a) = acsConfig a" "rbcInstances (setBBAResult p v a) = rbcInstances a"
  "bbaInstances (setBBAResult p v a) = bbaInstances a" "rbcResults (setBBAResult p v a) = rbcResults a"
  "acsOutput (setBBAResult p v a) = acsOutput a" "decided (setBBAResult p v a) = decided a"
  "acsMessageQue (setBBAResult p v a) = acsMessageQue a"
  "bbaResults (setBBAResult p v a) = AList.update p v (bbaResults a)"
  "acsConfig (setRBCResult p w a) = acsConfig a" "rbcInstances (setRBCResult p w a) = rbcInstances a"
  "bbaInstances (setRBCResult p w a) = bbaInstances a" "bbaResults (setRBCResult p w a) = bbaResults a"
  "acsOutput (setRBCResult p w a) = acsOutput a" "decided (setRBCResult p w a) = decided a"
  "acsMessageQue (setRBCResult p w a) = acsMessageQue a"
  "rbcResults (setRBCResult p w a) = AList.update p w (rbcResults a)"
  by (simp_all add: setBBAResult_def setRBCResult_def)

section \<open>Completion\<close>

text \<open>The condition under which the common subset is complete.\<close>

definition completable :: "ACS \<Rightarrow> bool" where
  "completable a \<longleftrightarrow> acsN a - acsF a \<le> int (countTruthyAgreements a) \<and>
     acsN a \<le> int (length (bbaResults a)) \<and>
     (\<forall>p. map_of (bbaResults a) p = Some True \<longrightarrow> p \<in> keys_of (rbcResults a))"

lemma collectResults_Some:
  "(\<forall>n \<in> set ns. n \<in> keys_of res) \<Longrightarrow>
     \<exists>out. collectResults ns res bc = Some out \<and>
       map_of out = (\<lambda>n. if n \<in> set ns then map_of res n else map_of bc n)"
proof (induction ns arbitrary: bc)
  case Nil
  then show ?case by simp
next
  case (Cons n ns)
  then obtain v where v: "map_of res n = Some v"
    by (metis has_key_def has_key_iff list.set_intros(1) not_Some_eq)
  with Cons show ?case by (fastforce simp: fun_eq_iff)
qed

lemma collectResults_None: "n \<in> set ns \<Longrightarrow> n \<notin> keys_of res \<Longrightarrow> collectResults ns res bc = None"
  by (induction ns arbitrary: bc) (auto split: option.splits dest: map_of_SomeD intro: rev_image_eqI)

lemma truthy_ids: "wf_map (bbaResults a) \<Longrightarrow>
    set (nodesThatProvidedTrue a) = {p. map_of (bbaResults a) p = Some True}"
  by (force simp: nodesThatProvidedTrue_def map_of_eq_Some_iff)

lemma nodesThatProvidedTrue_cong: "bbaResults a = bbaResults b \<Longrightarrow> nodesThatProvidedTrue a = nodesThatProvidedTrue b"
  by (simp add: nodesThatProvidedTrue_def)

lemma tryComplete_fields [frame_simps, simp]:
  "acsConfig (tryCompleteAgreement a) = acsConfig a" "rbcInstances (tryCompleteAgreement a) = rbcInstances a"
  "bbaInstances (tryCompleteAgreement a) = bbaInstances a" "rbcResults (tryCompleteAgreement a) = rbcResults a"
  "bbaResults (tryCompleteAgreement a) = bbaResults a" "acsMessageQue (tryCompleteAgreement a) = acsMessageQue a"
  by (simp_all add: tryCompleteAgreement_def Let_def split: option.splits)

lemma tryComplete_decided:
  "decided a \<Longrightarrow> decided (tryCompleteAgreement a) \<and> acsOutput (tryCompleteAgreement a) = acsOutput a"
  by (simp add: tryCompleteAgreement_def Let_def)

lemma completable_logs [simp]: "completable (acs_log c a) = completable a" "completable (recordTraceState a) = completable a"
  by (simp_all add: completable_def countTruthyAgreements_def)

lemma tryComplete_iff:
  assumes "\<not> decided a" and wf: "wf_map (bbaResults a)"
  shows "decided (tryCompleteAgreement a) \<longleftrightarrow> completable a"
    and "completable a \<Longrightarrow> \<exists>out. acsOutput (tryCompleteAgreement a) = Some out \<and>
      map_of out = (\<lambda>p. if map_of (bbaResults a) p = Some True then map_of (rbcResults a) p else None)"
proof -
  let ?a = "acs_log (CallTransitionWait (waitingReason (recordTraceState a))) (recordTraceState a)"
  have ids: "nodesThatProvidedTrue ?a = nodesThatProvidedTrue a" by (rule nodesThatProvidedTrue_cong) simp
  have cnt: "countTruthyAgreements ?a = countTruthyAgreements a" by (simp add: countTruthyAgreements_def)
  let ?quota = "acsN a - acsF a \<le> int (countTruthyAgreements a) \<and> acsN a \<le> int (length (bbaResults a))"
  have eq: "tryCompleteAgreement a =
      (if \<not> ?quota then ?a
       else case collectResults (nodesThatProvidedTrue a) (rbcResults a) [] of None \<Rightarrow> ?a
         | Some out \<Rightarrow> acs_log CallFinishWait (acs_log (CallAggregate traceACSCoreDecision)
             (?a\<lparr>acsOutput := Some out, decided := True\<rparr>)))"
    using assms(1) by (simp add: tryCompleteAgreement_def Let_def ids [simplified] cnt [simplified] not_less
        flip: not_le split: option.splits)
  show "decided (tryCompleteAgreement a) \<longleftrightarrow> completable a"
  proof (cases ?quota)
    case True
    show ?thesis
    proof (cases "\<forall>p. map_of (bbaResults a) p = Some True \<longrightarrow> p \<in> keys_of (rbcResults a)")
      case all: True
      then obtain out where "collectResults (nodesThatProvidedTrue a) (rbcResults a) [] = Some out"
        using collectResults_Some [of "nodesThatProvidedTrue a" "rbcResults a" "[]"] truthy_ids [OF wf] by auto
      then show ?thesis using True all by (simp add: eq completable_def)
    next
      case False
      then obtain p where "p \<in> set (nodesThatProvidedTrue a)" "p \<notin> keys_of (rbcResults a)"
        using truthy_ids [OF wf] by blast
      then have "collectResults (nodesThatProvidedTrue a) (rbcResults a) [] = None" by (rule collectResults_None)
      then show ?thesis using True False assms(1) by (simp add: eq completable_def)
    qed
  next
    case False
    then show ?thesis using assms(1) by (auto simp: eq completable_def)
  qed
  assume c: "completable a"
  then have "\<forall>n \<in> set (nodesThatProvidedTrue a). n \<in> keys_of (rbcResults a)"
    using truthy_ids [OF wf] by (simp add: completable_def)
  from collectResults_Some [OF this, of "[]"] obtain out where
    out: "collectResults (nodesThatProvidedTrue a) (rbcResults a) [] = Some out"
    "map_of out = (\<lambda>n. if n \<in> set (nodesThatProvidedTrue a) then map_of (rbcResults a) n else map_of [] n)" by blast
  have "acsOutput (tryCompleteAgreement a) = Some out" using c out(1) by (simp add: eq completable_def)
  then show "\<exists>out. acsOutput (tryCompleteAgreement a) = Some out \<and>
      map_of out = (\<lambda>p. if map_of (bbaResults a) p = Some True then map_of (rbcResults a) p else None)"
    using out(2) truthy_ids [OF wf] by auto
qed

section \<open>What every handler keeps\<close>

text \<open>
  \<open>kept a a'\<close>: the configuration is the same, the results stay well-formed maps, a completed
  instance stays completed with the same output, and queued messages go to other participants.
\<close>

definition addressed :: "ACS \<Rightarrow> bool" where
  "addressed a \<longleftrightarrow> (\<forall>m \<in> set (que (acsMessageQue a)). mtTo m \<in> set (acsNodes a) \<and> mtTo m \<noteq> acsID a)"

definition kept :: "ACS \<Rightarrow> ACS \<Rightarrow> bool" where
  "kept a a' \<longleftrightarrow> acsConfig a' = acsConfig a \<and> (wf_map (bbaResults a) \<longrightarrow> wf_map (bbaResults a')) \<and>
     (wf_map (rbcResults a) \<longrightarrow> wf_map (rbcResults a')) \<and>
     (decided a \<longrightarrow> decided a' \<and> acsOutput a' = acsOutput a) \<and> (addressed a \<longrightarrow> addressed a')"

lemma kept_refl [simp, intro]: "kept a a"
  by (simp add: kept_def)

lemma kept_trans: "kept a b \<Longrightarrow> kept b c \<Longrightarrow> kept a c"
  unfolding kept_def by metis

lemma addressed_log [simp]:
  "addressed (acs_log c a) = addressed a" "addressed (recordTraceState a) = addressed a"
  "addressed (put_bba_instance p b a) = addressed a" "addressed (put_rbc_instance p r a) = addressed a"
  "addressed (setBBAResult p v a) = addressed a" "addressed (setRBCResult p w a) = addressed a"
  "addressed (tryCompleteAgreement a) = addressed a"
  by (simp_all add: addressed_def)

lemma addressed_addMessage: "addressed a \<Longrightarrow> addressed (acs_addMessage p m a)"
  by (auto simp: addressed_def acs_addMessage_def mq.push_all uint64sWithout_def)

lemma addressed_fold: "addressed a \<Longrightarrow> addressed (fold (\<lambda>m. acs_addMessage p (g m)) ms a)"
  by (induction ms arbitrary: a) (simp_all add: addressed_addMessage)

lemma kept_small [simp, intro]:
  "kept a (acs_log c a)" "kept a (recordTraceState a)" "kept a (put_bba_instance p b a)"
  "kept a (put_rbc_instance p r a)" "kept a (setBBAResult p v a)" "kept a (setRBCResult p w a)"
  "kept a (tryCompleteAgreement a)"
  using tryComplete_decided [of a] by (simp_all add: kept_def)

lemma kept_drain [simp, intro]: "kept a (snd (drainBBA p b a))" "kept a (snd (drainRBC p r a))"
proof -
  show "kept a (snd (drainBBA p b a))"
    unfolding kept_def
    by (simp, simp add: drainBBA_def bba_takeMessages_def takeOutput_eq addressed_fold)
  show "kept a (snd (drainRBC p r a))"
    unfolding kept_def
    by (simp, simp add: drainRBC_def rbc_takeMessages_def takeOutput_eq addressed_fold)
qed

lemma falseInputs_kept: "kept a (snd (falseInputs ns rec a))"
proof (induction ns rec a rule: falseInputs.induct)
  case (1 rec a)
  then show ?case by simp
next
  case (2 n ns rec a)
  show ?case
  proof (cases "map_of (bbaInstances a) n")
    case None
    then show ?thesis using 2(1) by simp
  next
    case (Some bba)
    let ?a1 = "if rec then a else acs_log (CallAggregate traceACSFalseInputInjected) a"
    have k1: "kept a ?a1" by simp
    obtain st bba' where i: "bba_InputValue False bba = (st, bba')" by force
    obtain out a2 where d: "drainBBA n bba' ?a1 = (out, a2)" by force
    have k2: "kept a a2" using kept_trans [OF k1 kept_drain(1)] d by (metis snd_conv)
    have k3: "kept a (put_bba_instance n bba' ?a1)" using kept_trans [OF k1 kept_small(3)] .
    have k4: "kept a (recordTraceState (setBBAResult n v a2))" for v
      using kept_trans [OF k2 kept_trans [OF kept_small(5) kept_small(2)]] .
    show ?thesis
    proof (cases "AcceptInput bba")
      case False
      then show ?thesis using Some 2(2) [OF Some] by simp
    next
      case acc: True
      show ?thesis
      proof (cases "st = NoErr")
        case True
        have "kept a (snd (falseInputs ns True a2))" if "out = None"
          using 2(3) [OF Some] acc i d that True by (intro kept_trans [OF k2]) auto
        moreover have "kept a (snd (falseInputs ns True (recordTraceState (setBBAResult n v a2))))"
          if "out = Some v" for v
          using 2(4) [OF Some] acc i d that True by (intro kept_trans [OF k4 [of v]]) auto
        ultimately show ?thesis
          using Some acc i d True by (auto simp: Let_def split: option.splits)
      next
        case False
        then show ?thesis using Some acc i k3 by (cases st) (auto simp: Let_def)
      qed
    qed
  qed
qed

lemma processAgreement_kept: "kept a (snd (processAgreement ord p f a))"
proof (cases "map_of (bbaInstances a) p")
  case None
  then show ?thesis by (simp add: processAgreement_def)
next
  case (Some bba)
  obtain st bba' where f: "f bba = (st, bba')" by force
  obtain out a1 where d: "drainBBA p bba' a = (out, a1)" by force
  have k1: "kept a a1" using kept_drain(1) [of a p bba'] d by simp
  have k2: "kept a (recordTraceState (setBBAResult p v a1))" for v
    using kept_trans [OF k1 kept_trans [OF kept_small(5) kept_small(2)]] .
  have k3: "kept a (snd (falseInputs ns rec (recordTraceState (setBBAResult p v a1))))" for ns rec v
    using kept_trans [OF k2 falseInputs_kept] .
  have k4: "kept a (tryCompleteAgreement (recordTraceState (setBBAResult p v a1)))" for v
    using kept_trans [OF k2 kept_small(7)] .
  have k5: "kept a (tryCompleteAgreement (snd (falseInputs ns rec (recordTraceState (setBBAResult p v a1)))))" for ns rec v
    using kept_trans [OF k3 kept_small(7)] .
  show ?thesis
    using Some f d k1 k2 k3 k4 k5
    by (cases st) (auto simp: processAgreement_def Let_def split: option.splits prod.splits status.splits,
        (metis snd_conv)+)
qed

lemma processBroadcast_kept: "kept a (snd (processBroadcast ord p f a))"
proof (cases "map_of (rbcInstances a) p")
  case None
  then show ?thesis by (simp add: processBroadcast_def)
next
  case (Some rbc)
  obtain st rbc' where f: "f rbc = (st, rbc')" by force
  obtain out a1 where d: "drainRBC p rbc' a = (out, a1)" by force
  have k1: "kept a a1" using kept_drain(2) [of a p rbc'] d by simp
  have k2: "kept a (snd (processAgreement ord p inputTrue (recordTraceState (setRBCResult p v a1))))" for v
    using kept_trans [OF kept_trans [OF k1 kept_trans [OF kept_small(6) kept_small(2)]] processAgreement_kept] .
  have k3: "kept a (tryCompleteAgreement (snd (processAgreement ord p inputTrue (recordTraceState (setRBCResult p v a1)))))" for v
    using kept_trans [OF k2 kept_small(7)] .
  show ?thesis
    using Some f d k1 k2 k3
    by (cases st) (auto simp: processBroadcast_def Let_def split: option.splits prod.splits status.splits,
        (metis snd_conv)+)
qed

lemma handleMessage_kept: "kept a (snd (acs_handleMessage L ord sid m a))"
  by (auto simp: acs_handleMessage_def handleAgreement_def handleBroadcast_def processAgreement_kept
      processBroadcast_kept split: ACSPayload.splits)

lemma sendProofs_addressed:
  assumes "sendProofs p ns reqs q = Some q'"
  shows "\<exists>ms. que q' = que q @ ms \<and> map mtTo ms = ns"
  using assms
proof (induction p ns reqs q rule: sendProofs.induct)
  case (3 p n ns req reqs q)
  then obtain ms where "que q' = que (que_addMessage \<lparr>acsProposerID = p, acsPayload = BroadcastPayload req\<rparr> n q) @ ms"
    "map mtTo ms = ns" by auto
  then show ?case by (auto simp: mq.contents_push)
qed auto

lemma kept_queue:
  assumes "sendProofs p (uint64sWithout (acsNodes a) (acsID a)) reqs (acsMessageQue a) = Some q"
  shows "kept a (a\<lparr>acsMessageQue := q\<rparr>)"
proof -
  obtain ms where ms: "que q = que (acsMessageQue a) @ ms" "map mtTo ms = uint64sWithout (acsNodes a) (acsID a)"
    using sendProofs_addressed [OF assms] by blast
  have "mtTo m \<in> set (uint64sWithout (acsNodes a) (acsID a))" if "m \<in> set ms" for m
    using ms(2) that by (metis imageI list.set_map)
  then have "\<forall>m \<in> set ms. mtTo m \<in> set (acsNodes a) \<and> mtTo m \<noteq> acsID a" by (simp add: uint64sWithout_def)
  then show ?thesis using ms(1) by (auto simp: kept_def addressed_def)
qed

lemma inputValue_kept: "kept a (snd (acs_inputValue L ord data a))"
proof -
  let ?a = "acs_log (CallTransitionWait waitForTrueBBAResults) (acs_log (CallAggregate traceACSInputStarted) a)"
  have k0: "kept a ?a" using kept_trans [OF kept_small(1) kept_small(1)] .
  show ?thesis
  proof (cases "map_of (rbcInstances ?a) (acsID a)")
    case None
    then show ?thesis using k0 by (simp add: acs_inputValue_def Let_def)
  next
    case (Some rbc)
    obtain st reqs rbc' where r: "rbc_inputValue L data rbc = (st, reqs, rbc')" by (metis surj_pair)
    let ?a1 = "put_rbc_instance (acsID a) rbc' ?a"
    have k1: "kept a ?a1" using kept_trans [OF k0 kept_small(4)] .
    show ?thesis
    proof (cases "st = NoErr \<and> int (length reqs) = acsN a - 1 \<and>
        sendProofs (acsID a) (uint64sWithout (acsNodes a) (acsID a)) reqs (acsMessageQue a) \<noteq> None")
      case False
      then show ?thesis using Some r k1 by (cases st) (auto simp: acs_inputValue_def Let_def split: option.splits)
    next
      case True
      then obtain q where q: "sendProofs (acsID a) (uint64sWithout (acsNodes a) (acsID a)) reqs (acsMessageQue a) = Some q" by auto
      have k2: "kept a (?a1\<lparr>acsMessageQue := q\<rparr>)" using q by (intro kept_trans [OF k1 kept_queue]) simp
      obtain out a2 where d: "drainRBC (acsID a) (rbc'\<lparr>rbcTrace := []\<rparr>) (?a1\<lparr>acsMessageQue := q\<rparr>) = (out, a2)" by force
      have k3: "kept a a2" using kept_trans [OF k2 kept_drain(2)] d by (metis snd_conv)
      have k4: "kept a (snd (processAgreement ord (acsID a) inputTrue (recordTraceState (setRBCResult (acsID a) v a2))))" for v
        using kept_trans [OF kept_trans [OF k3 kept_trans [OF kept_small(6) kept_small(2)]] processAgreement_kept] .
      show ?thesis
      proof (cases out)
        case None
        then show ?thesis using Some r True q d k3 by (simp add: acs_inputValue_def Let_def)
      next
        case out: (Some v)
        obtain st' a3 where p: "processAgreement ord (acsID a) inputTrue
            (recordTraceState (setRBCResult (acsID a) v a2)) = (st', a3)" by force
        then have "kept a a3" using k4 [of v] by simp
        then show ?thesis
          using Some r True q d out p by (cases st') (simp_all add: acs_inputValue_def Let_def)
      qed
    qed
  qed
qed

section \<open>Completion is never missed\<close>

definition settled :: "ACS \<Rightarrow> bool" where
  "settled a \<longleftrightarrow> decided a \<or> \<not> completable a"

lemma tryComplete_settled: "wf_map (bbaResults a) \<Longrightarrow> settled (tryCompleteAgreement a)"
  using tryComplete_iff(1) [of a] tryComplete_decided [of a]
  by (cases "decided a") (auto simp: settled_def completable_def countTruthyAgreements_def)

lemma settled_same:
  "settled a \<Longrightarrow> decided b = decided a \<Longrightarrow> acsConfig b = acsConfig a \<Longrightarrow> bbaResults b = bbaResults a \<Longrightarrow>
   rbcResults b = rbcResults a \<Longrightarrow> settled b"
  by (simp add: settled_def completable_def countTruthyAgreements_def)

lemma status_case:
  "fst (case fst R of NoErr \<Rightarrow> (NoErr, x) | _ \<Rightarrow> R) = NoErr \<Longrightarrow>
   snd (case fst R of NoErr \<Rightarrow> (NoErr, x) | _ \<Rightarrow> R) = x"
  by (cases "fst R") auto

lemma processAgreement_settled:
  assumes "wf_map (bbaResults a)" and "settled a" and "fst (processAgreement ord p f a) = NoErr"
  shows "settled (snd (processAgreement ord p f a))"
proof (cases "map_of (bbaInstances a) p")
  case None
  then show ?thesis using assms by (simp add: processAgreement_def)
next
  case (Some bba)
  obtain st bba' where f: "f bba = (st, bba')" by force
  obtain out a1 where d: "drainBBA p bba' a = (out, a1)" by force
  have same: "settled a1" "bbaResults a1 = bbaResults a"
    using settled_same [OF assms(2), of a1] drainBBA_fields [of p bba' a] d by auto
  show ?thesis
  proof (cases "bbaDone bba \<or> st \<noteq> NoErr \<or> out = None \<or> p \<in> keys_of (bbaResults a)")
    case True
    then show ?thesis using Some f d same assms
      by (cases st) (auto simp: processAgreement_def Let_def split: option.splits)
  next
    case False
    then obtain v where v: "out = Some v" by auto
    let ?a2 = "recordTraceState (setBBAResult p v a1)"
    let ?r = "if v \<and> int (countTruthyAgreements ?a2) = acsN ?a2 - acsF ?a2
        then falseInputs (ord (map fst (bbaInstances ?a2))) False ?a2 else (NoErr, ?a2)"
    have "kept ?a2 (snd ?r)" using falseInputs_kept by auto
    then have wf: "wf_map (bbaResults (snd ?r))" using assms(1) same(2) by (auto simp: kept_def)
    have eq: "processAgreement ord p f a =
        (case fst ?r of NoErr \<Rightarrow> (NoErr, tryCompleteAgreement (snd ?r)) | _ \<Rightarrow> ?r)"
      using Some f d v False same(2)
      by (auto simp: processAgreement_def Let_def split: prod.splits status.splits)
    show ?thesis using tryComplete_settled [OF wf] assms(3) unfolding eq by (metis status_case)
  qed
qed

section \<open>Properties\<close>

text \<open>
  C6. Completion of the common subset: an undecided instance decides exactly when at least
  \<open>N - F\<close> agreements have decided true, all \<open>N\<close> have decided, and every proposer decided true
  has a broadcast result; its output then maps exactly the proposers decided true to their
  broadcast results.
\<close>

theorem acs_completes_exactly:
  assumes "\<not> decided a" and "wf_map (bbaResults a)"
  shows "(decided (tryCompleteAgreement a) \<longleftrightarrow> completable a) \<and>
    (completable a \<longrightarrow> (\<exists>out. acsOutput (tryCompleteAgreement a) = Some out \<and>
       map_of out = (\<lambda>p. if map_of (bbaResults a) p = Some True then map_of (rbcResults a) p else None)))"
  using tryComplete_iff [OF assms] by blast

definition demo_acs :: ACS where
  "demo_acs = \<lparr>acsConfig = \<lparr>cfgN = 4, cfgF = 1, cfgID = 0, cfgNodes = [0, 1, 2, 3], cfgBatchSize = 0\<rparr>,
     rbcInstances = [], bbaInstances = [(0, newBBA \<lparr>cfgN = 4, cfgF = 1, cfgID = 0, cfgNodes = [0, 1, 2, 3], cfgBatchSize = 0\<rparr> 0)],
     rbcResults = [(2, [5]), (0, [7]), (3, [9])],
     bbaResults = [(3, True), (0, True), (1, False), (2, True)], acsOutput = None,
     acsMessageQue = newMessageQue, decided = False, acsTrace = []\<rparr>"

theorem acs_completes_exactly_witness:
  "decided (tryCompleteAgreement demo_acs) \<and>
   acsOutput (tryCompleteAgreement demo_acs) = Some [(0, [7]), (2, [5]), (3, [9])]"
proof -
  have out: "acsOutput (tryCompleteAgreement demo_acs) = Some [(0, [7]), (2, [5]), (3, [9])]" by code_simp
  have "completable demo_acs"
    by (auto simp: completable_def countTruthyAgreements_def demo_acs_def split: if_splits)
  then show ?thesis using acs_completes_exactly [of demo_acs] out by (simp add: demo_acs_def)
qed

text \<open>
  A completed common subset is final: whatever message or input is handled afterwards,
  the instance stays decided and its stored output is not replaced.
\<close>

theorem acs_decision_final:
  assumes "decided a"
  shows "decided (snd (acs_handleMessage L ord sid m a)) \<and>
    acsOutput (snd (acs_handleMessage L ord sid m a)) = acsOutput a \<and>
    decided (snd (acs_inputValue L ord data a)) \<and> acsOutput (snd (acs_inputValue L ord data a)) = acsOutput a"
  using handleMessage_kept [of a L ord sid m] inputValue_kept [of a L ord data] assms by (simp add: kept_def)

theorem acs_decision_final_witness:
  "\<forall>L. decided (snd (acs_handleMessage L (\<lambda>x. x) 1 \<lparr>acsProposerID = 0, acsPayload = UnknownACSPayload\<rparr>
     (tryCompleteAgreement demo_acs)))"
proof
  fix L
  have "decided (tryCompleteAgreement demo_acs)" by code_simp
  from acs_decision_final [OF this]
  show "decided (snd (acs_handleMessage L (\<lambda>x. x) 1 \<lparr>acsProposerID = 0, acsPayload = UnknownACSPayload\<rparr>
     (tryCompleteAgreement demo_acs)))" by blast
qed



text \<open>
  Messages of the common subset are addressed to the other participants: every message in
  the outgoing queue is for a node of the configuration other than the sender itself, and
  handling a message or an input keeps it so.
\<close>

theorem acs_messages_addressed:
  assumes "addressed a"
  shows "addressed (snd (acs_handleMessage L ord sid m a)) \<and> addressed (snd (acs_inputValue L ord data a))"
  using handleMessage_kept [of a L ord sid m] inputValue_kept [of a L ord data] assms by (simp add: kept_def)

theorem acs_messages_addressed_witness:
  "\<forall>L. addressed (snd (acs_handleMessage L (\<lambda>x. x) 1 \<lparr>acsProposerID = 0, acsPayload = UnknownACSPayload\<rparr> demo_acs))"
proof
  fix L
  have "addressed demo_acs" by (simp add: addressed_def demo_acs_def newMessageQue_def)
  from acs_messages_addressed [OF this]
  show "addressed (snd (acs_handleMessage L (\<lambda>x. x) 1 \<lparr>acsProposerID = 0, acsPayload = UnknownACSPayload\<rparr> demo_acs))"
    by blast
qed

end
