(* ===== verification/Bba_Steps.thy ===== *)
theory Bba_Steps
  imports Bba
begin

text \<open>
  The handlers of \<^verbatim>\<open>bba.go\<close> as runs of small steps.

  \<open>bba_step In Ev\<close> lists the elementary state changes the handlers make, each under the
  condition the code checks before making it; \<open>Ev\<close> is the set of messages the outside has
  handed in. \<open>budget_suffices\<close> shows that the budget of the recursion is always large enough
  and that every call of a handler is a run of such steps, so that properties of the whole
  recursion follow by rule induction over single steps.
\<close>

abbreviation bvalMsg :: "nat \<Rightarrow> bool \<Rightarrow> AgreementMessage" where
  "bvalMsg e v \<equiv> NewAgreementMessage e (BvalRequest v)"

abbreviation auxMsg :: "nat \<Rightarrow> bool \<Rightarrow> AgreementMessage" where
  "auxMsg e v \<equiv> NewAgreementMessage e (AuxRequest v)"

type_synonym evidence = "(node_id \<times> AgreementMessage) set"

definition backed :: "evidence \<Rightarrow> BBA \<Rightarrow> node_id \<Rightarrow> AgreementMessage \<Rightarrow> bool" where
  "backed Ev b sid m \<longleftrightarrow> (sid, m) \<in> Ev \<or> (sid = bbaID b \<and> m \<in> set (bbaMessages b))"

definition auxQuorum :: "BBA \<Rightarrow> bool list \<Rightarrow> bool" where
  "auxQuorum b values \<longleftrightarrow>
     binValues b \<noteq> [] \<and> snd (countOutputs b) = values \<and> bbaN b - bbaF b \<le> int (fst (countOutputs b))"

inductive bba_step :: "bool set \<Rightarrow> evidence \<Rightarrow> BBA \<Rightarrow> BBA \<Rightarrow> bool" for In Ev where
  log: "bba_step In Ev b (bba_log e v ep b)"
| bval: "backed Ev b sid (bvalMsg (epoch b) v) \<Longrightarrow> bba_step In Ev b (admitBval sid v b)"
| relay: "int (countBvals v b) = bbaF b + 1 \<Longrightarrow> \<not> hasSentBval v b \<Longrightarrow>
     bba_step In Ev b (bba_addMessage (bvalMsg (epoch b) v) (b\<lparr>sentBvals := sentBvals b @ [v]\<rparr>))"
| bin_first: "int (countBvals v b) = 2 * bbaF b + 1 \<Longrightarrow> binValues b = [] \<Longrightarrow>
     bba_step In Ev b (bba_addMessage (auxMsg (epoch b) v) (b\<lparr>binValues := [v]\<rparr>))"
| bin_more: "int (countBvals v b) = 2 * bbaF b + 1 \<Longrightarrow> binValues b \<noteq> [] \<Longrightarrow>
     bba_step In Ev b (b\<lparr>binValues := binValues b @ [v]\<rparr>)"
| aux: "backed Ev b sid (auxMsg (epoch b) v) \<Longrightarrow>
     bba_step In Ev b (b\<lparr>recvAux := AList.update sid v (recvAux b)\<rparr>)"
| advance: "auxQuorum b values \<Longrightarrow> \<not> bbaDone b \<Longrightarrow> decision b \<noteq> Some (coin (epoch b)) \<Longrightarrow>
     epoch b + 1 < 2 ^ 32 \<Longrightarrow> bba_step In Ev b (nextEpoch values b)"
| finish: "auxQuorum b values \<Longrightarrow> bbaDone b \<or> decision b = Some (coin (epoch b)) \<Longrightarrow>
     bba_step In Ev b (b\<lparr>bbaDone := True\<rparr>)"
| delay: "(sid, m) \<in> Ev \<Longrightarrow> int (epoch b) < amEpoch m \<Longrightarrow>
     bba_step In Ev b (b\<lparr>delayedMessages := delayedMessages b @ [(sid, m)]\<rparr>)"
| counted: "bba_step In Ev b (b\<lparr>msgCount := k\<rparr>)"
| clear: "bba_step In Ev b (b\<lparr>delayedMessages := []\<rparr>)"
| input: "v \<in> In \<Longrightarrow> epoch b = 0 \<Longrightarrow> estimated b = None \<Longrightarrow>
     bba_step In Ev b (bba_addMessage (bvalMsg 0 v) (b\<lparr>estimated := Some v, sentBvals := sentBvals b @ [v]\<rparr>))"

lemma log_fields [frame_simps, simp]:
  "bbaConfig (bba_log e v ep b) = bbaConfig b" "epoch (bba_log e v ep b) = epoch b"
  "binValues (bba_log e v ep b) = binValues b" "sentBvals (bba_log e v ep b) = sentBvals b"
  "recvBval (bba_log e v ep b) = recvBval b" "recvAux (bba_log e v ep b) = recvAux b"
  "bbaDone (bba_log e v ep b) = bbaDone b" "bbaOutput (bba_log e v ep b) = bbaOutput b"
  "estimated (bba_log e v ep b) = estimated b" "decision (bba_log e v ep b) = decision b"
  "delayedMessages (bba_log e v ep b) = delayedMessages b"
  "bbaMessages (bba_log e v ep b) = bbaMessages b" "msgCount (bba_log e v ep b) = msgCount b"
  by (simp_all add: bba_log_def)

lemma addMessage_fields [frame_simps, simp]:
  "bbaConfig (bba_addMessage m b) = bbaConfig b" "epoch (bba_addMessage m b) = epoch b"
  "binValues (bba_addMessage m b) = binValues b" "sentBvals (bba_addMessage m b) = sentBvals b"
  "recvBval (bba_addMessage m b) = recvBval b" "recvAux (bba_addMessage m b) = recvAux b"
  "bbaDone (bba_addMessage m b) = bbaDone b" "bbaOutput (bba_addMessage m b) = bbaOutput b"
  "estimated (bba_addMessage m b) = estimated b" "decision (bba_addMessage m b) = decision b"
  "delayedMessages (bba_addMessage m b) = delayedMessages b"
  "bbaMessages (bba_addMessage m b) = bbaMessages b @ [m]" "msgCount (bba_addMessage m b) = msgCount b"
  by (simp_all add: bba_addMessage_def)

lemma admitBval_fields [frame_simps, simp]:
  "bbaConfig (admitBval s v b) = bbaConfig b" "epoch (admitBval s v b) = epoch b"
  "binValues (admitBval s v b) = binValues b" "sentBvals (admitBval s v b) = sentBvals b"
  "recvAux (admitBval s v b) = recvAux b"
  "bbaDone (admitBval s v b) = bbaDone b" "bbaOutput (admitBval s v b) = bbaOutput b"
  "estimated (admitBval s v b) = estimated b" "decision (admitBval s v b) = decision b"
  "delayedMessages (admitBval s v b) = delayedMessages b"
  "bbaMessages (admitBval s v b) = bbaMessages b" "msgCount (admitBval s v b) = msgCount b"
  by (simp_all add: admitBval_def)

lemma advanceEpoch_fields [frame_simps, simp]:
  "bbaConfig (advanceEpoch b) = bbaConfig b" "epoch (advanceEpoch b) = inc32 (epoch b)"
  "binValues (advanceEpoch b) = []" "sentBvals (advanceEpoch b) = []"
  "recvBval (advanceEpoch b) = newBvalSet" "recvAux (advanceEpoch b) = []"
  "bbaDone (advanceEpoch b) = bbaDone b" "bbaOutput (advanceEpoch b) = bbaOutput b"
  "estimated (advanceEpoch b) = estimated b" "decision (advanceEpoch b) = decision b"
  "delayedMessages (advanceEpoch b) = delayedMessages b"
  "bbaMessages (advanceEpoch b) = bbaMessages b" "msgCount (advanceEpoch b) = msgCount b"
  by (simp_all add: advanceEpoch_def Let_def bba_log_def)

definition nextEstimate :: "nat \<Rightarrow> bool list \<Rightarrow> bool" where
  "nextEstimate e values = (case values of [v] \<Rightarrow> v | _ \<Rightarrow> coin e)"

definition decides :: "BBA \<Rightarrow> bool list \<Rightarrow> bool" where
  "decides b values \<longleftrightarrow> values = [coin (epoch b)] \<and> decision b = None"

lemma nextEpoch_fields [frame_simps, simp]:
  "bbaConfig (nextEpoch vs b) = bbaConfig b" "epoch (nextEpoch vs b) = inc32 (epoch b)"
  "binValues (nextEpoch vs b) = []" "sentBvals (nextEpoch vs b) = [nextEstimate (epoch b) vs]"
  "recvBval (nextEpoch vs b) = newBvalSet" "recvAux (nextEpoch vs b) = []"
  "bbaDone (nextEpoch vs b) = bbaDone b"
  "bbaOutput (nextEpoch vs b) = (if decides b vs then Some (coin (epoch b)) else bbaOutput b)"
  "estimated (nextEpoch vs b) = Some (nextEstimate (epoch b) vs)"
  "decision (nextEpoch vs b) = (if decides b vs then Some (coin (epoch b)) else decision b)"
  "delayedMessages (nextEpoch vs b) = delayedMessages b"
  "bbaMessages (nextEpoch vs b) = bbaMessages b @ [bvalMsg (inc32 (epoch b)) (nextEstimate (epoch b) vs)]"
  by (auto simp: nextEpoch_def Let_def nextEstimate_def decides_def split: list.splits)

lemma countBvals_admit: "countBvals v (admitBval s v b) \<ge> countBvals v b"
  by (simp add: countBvals_def admitBval_def List.insert_def)


section \<open>The recursion terminates and is a run of steps\<close>

definition hot :: "int set \<Rightarrow> BBA \<Rightarrow> bool" where
  "hot D b \<longleftrightarrow> int (epoch b) \<in> D \<or> (\<exists>j \<in> keys_of (recvAux b). j \<noteq> bbaID b)"

definition pot :: "int set \<Rightarrow> BBA \<Rightarrow> nat" where
  "pot D b = (if hot D b then 1 + card {d \<in> D. d > int (epoch b)} else 0)"

definition ctx :: "int set \<Rightarrow> evidence \<Rightarrow> BBA \<Rightarrow> bool" where
  "ctx D Ev b \<longleftrightarrow> finite D \<and> 2 \<le> bbaN b - bbaF b \<and> wf_map (recvAux b) \<and>
     (\<forall>(s, m) \<in> set (delayedMessages b). (s, m) \<in> Ev \<and> amEpoch m \<in> D) \<and>
     epoch b + pot D b < 2 ^ 32"

definition run_ok :: "bool set \<Rightarrow> int set \<Rightarrow> evidence \<Rightarrow> BBA \<Rightarrow> BBA \<Rightarrow> bool" where
  "run_ok In D Ev b b' \<longleftrightarrow> (bba_step In Ev)\<^sup>*\<^sup>* b b' \<and> ctx D Ev b' \<and> pot D b' \<le> pot D b \<and>
     bbaConfig b' = bbaConfig b"

lemma run_okI: "(bba_step In Ev)\<^sup>*\<^sup>* b b' \<Longrightarrow> ctx D Ev b' \<Longrightarrow> pot D b' \<le> pot D b \<Longrightarrow>
    bbaConfig b' = bbaConfig b \<Longrightarrow> run_ok In D Ev b b'"
  by (simp add: run_ok_def)

lemma run_ok_refl: "ctx D Ev b \<Longrightarrow> run_ok In D Ev b b"
  by (simp add: run_ok_def)

lemma run_ok_trans: "run_ok In D Ev a b \<Longrightarrow> run_ok In D Ev b c \<Longrightarrow> run_ok In D Ev a c"
  unfolding run_ok_def by auto

lemma run_ok_step:
  assumes "bba_step In Ev a b" and "ctx D Ev b" and "pot D b \<le> pot D a" and "bbaConfig b = bbaConfig a"
  shows "run_ok In D Ev a b"
  using assms by (simp add: run_ok_def)

text \<open>Updates that leave epoch, AUX votes, delayed messages and configuration alone.\<close>

definition same_core :: "BBA \<Rightarrow> BBA \<Rightarrow> bool" where
  "same_core a b \<longleftrightarrow> bbaConfig b = bbaConfig a \<and> epoch b = epoch a \<and> recvAux b = recvAux a \<and>
     delayedMessages b = delayedMessages a"

lemma same_core_pot: "same_core a b \<Longrightarrow> pot D b = pot D a"
  by (simp add: same_core_def pot_def hot_def)

lemma same_core_ctx: "same_core a b \<Longrightarrow> ctx D Ev a \<Longrightarrow> ctx D Ev b"
  unfolding ctx_def using same_core_pot [of a b D] by (simp add: same_core_def)

lemma run_ok_core:
  "bba_step In Ev a b \<Longrightarrow> same_core a b \<Longrightarrow> ctx D Ev a \<Longrightarrow> run_ok In D Ev a b"
  by (rule run_ok_step) (auto simp: same_core_pot intro: same_core_ctx, simp add: same_core_def)

lemma run_ok_log: "ctx D Ev b \<Longrightarrow> run_ok In D Ev b (bba_log e v ep b)"
  by (rule run_ok_core) (auto intro: bba_step.log simp: same_core_def)

lemma cold_few_outputs:
  assumes "\<not> hot D b" and "wf_map (recvAux b)"
  shows "fst (countOutputs b) \<le> 1"
proof -
  from assms(1) have sub: "keys_of (recvAux b) \<subseteq> {bbaID b}" by (auto simp: hot_def)
  have "fst (countOutputs b) \<le> length (recvAux b)"
    by (simp add: countOutputs_def Let_def)
  also have "\<dots> = card (keys_of (recvAux b))" using assms(2) by (rule length_wf_map)
  also have "\<dots> \<le> card {bbaID b}" using sub by (intro card_mono) auto
  finally show ?thesis by simp
qed

lemma pot_next:
  assumes h: "hot D b" and fin: "finite D" and lim: "epoch b + 1 < 2 ^ 32"
  shows "pot D (nextEpoch vs b) + 1 \<le> pot D b"
proof -
  have e: "int (inc32 (epoch b)) = int (epoch b) + 1" using lim by (simp add: inc32_eq)
  let ?A = "{d \<in> D. d > int (epoch b)}" and ?B = "{d \<in> D. d > int (epoch b) + 1}"
  have eq: "pot D (nextEpoch vs b) = (if int (epoch b) + 1 \<in> D then 1 + card ?B else 0)"
    unfolding pot_def hot_def by (simp add: e)
  have "int (epoch b) + 1 \<in> D \<Longrightarrow> card ?B < card ?A"
  proof -
    assume "int (epoch b) + 1 \<in> D"
    then have "int (epoch b) + 1 \<in> ?A" and "int (epoch b) + 1 \<notin> ?B" and "?B \<subseteq> ?A" by auto
    then have "?B \<subset> ?A" by blast
    then show ?thesis using fin by (simp add: psubset_card_mono)
  qed
  then show ?thesis unfolding eq using h by (auto simp: pot_def)
qed

lemma ctx_next:
  assumes "ctx D Ev b" and "hot D b" and "epoch b + 1 < 2 ^ 32"
  shows "ctx D Ev (nextEpoch vs b)"
  using assms pot_next [of D b vs] by (auto simp: ctx_def inc32_eq)

lemma update_aux_pot:
  assumes "sid = bbaID b \<or> int (epoch b) \<in> D"
  shows "pot D (b\<lparr>recvAux := AList.update sid v (recvAux b)\<rparr>) = pot D b"
  using assms by (auto simp: pot_def hot_def)

text \<open>The four statements the induction on the budget carries.\<close>

definition bval_ok :: "bool set \<Rightarrow> int set \<Rightarrow> evidence \<Rightarrow> nat \<Rightarrow> bool" where
  "bval_ok In D Ev n \<longleftrightarrow> (\<forall>sid v b. ctx D Ev b \<longrightarrow> backed Ev b sid (bvalMsg (epoch b) v) \<longrightarrow>
     (sid = bbaID b \<or> int (epoch b) \<in> D) \<longrightarrow>
     5 * pot D b + (if hasSentBval v b then 3 else 4) \<le> n \<longrightarrow>
     (\<exists>b'. handleBvalRequest n sid v b = Some b' \<and> run_ok In D Ev b b'))"

definition aux_ok :: "bool set \<Rightarrow> int set \<Rightarrow> evidence \<Rightarrow> nat \<Rightarrow> bool" where
  "aux_ok In D Ev n \<longleftrightarrow> (\<forall>sid v b. ctx D Ev b \<longrightarrow> backed Ev b sid (auxMsg (epoch b) v) \<longrightarrow>
     (sid = bbaID b \<or> int (epoch b) \<in> D) \<longrightarrow> 5 * pot D b + 2 \<le> n \<longrightarrow>
     (\<exists>b'. handleAuxRequest n sid v b = Some b' \<and> run_ok In D Ev b b'))"

definition try_ok :: "bool set \<Rightarrow> int set \<Rightarrow> evidence \<Rightarrow> nat \<Rightarrow> bool" where
  "try_ok In D Ev n \<longleftrightarrow> (\<forall>b. ctx D Ev b \<longrightarrow> 5 * pot D b + 1 \<le> n \<longrightarrow>
     (\<exists>b'. tryOutputAgreement n b = Some b' \<and> run_ok In D Ev b b'))"

definition handle_ok :: "bool set \<Rightarrow> int set \<Rightarrow> evidence \<Rightarrow> nat \<Rightarrow> bool" where
  "handle_ok In D Ev n \<longleftrightarrow> (\<forall>sid m b. ctx D Ev b \<longrightarrow> (sid, m) \<in> Ev \<longrightarrow> amEpoch m \<in> D \<longrightarrow>
     5 * pot D b + 5 \<le> n \<longrightarrow>
     (\<exists>e b'. bba_handle n sid m b = Some (e, b') \<and> run_ok In D Ev b b'))"

lemma aux_ok_Suc: "try_ok In D Ev n \<Longrightarrow> aux_ok In D Ev (Suc n)"
proof (unfold aux_ok_def, intro allI impI)
  fix sid v b
  assume tr: "try_ok In D Ev n" and c: "ctx D Ev b" and ev: "backed Ev b sid (auxMsg (epoch b) v)"
    and own: "sid = bbaID b \<or> int (epoch b) \<in> D" and fuel: "5 * pot D b + 2 \<le> Suc n"
  let ?b1 = "bba_log traceBBAFirstAux v (epoch b) b"
  let ?b2 = "?b1\<lparr>recvAux := AList.update sid v (recvAux ?b1)\<rparr>"
  have r1: "run_ok In D Ev b ?b1" using c by (rule run_ok_log)
  then have c1: "ctx D Ev ?b1" by (simp add: run_ok_def)
  have ev1: "backed Ev ?b1 sid (auxMsg (epoch ?b1) v)" using ev by (simp add: backed_def)
  have p2: "pot D ?b2 = pot D ?b1" using own by (intro update_aux_pot) simp
  have c2: "ctx D Ev ?b2" using c1 p2 by (simp add: ctx_def)
  have r2: "run_ok In D Ev ?b1 ?b2"
    using bba_step.aux [OF ev1] c2 p2 by (intro run_ok_step) simp_all
  have "5 * pot D ?b2 + 1 \<le> n" using fuel p2 r1 by (simp add: run_ok_def)
  with tr c2 obtain b' where b': "tryOutputAgreement n ?b2 = Some b'" "run_ok In D Ev ?b2 b'"
    unfolding try_ok_def by blast
  have "handleAuxRequest (Suc n) sid v b = Some b'" using b'(1) by (simp add: Let_def)
  moreover have "run_ok In D Ev b b'" using r1 r2 b'(2) run_ok_trans by blast
  ultimately show "\<exists>b'. handleAuxRequest (Suc n) sid v b = Some b' \<and> run_ok In D Ev b b'" by blast
qed

lemma bval_ok_Suc:
  assumes aok: "aux_ok In D Ev n" and tok: "try_ok In D Ev n" and bok: "bval_ok In D Ev n"
  shows "bval_ok In D Ev (Suc n)"
proof (unfold bval_ok_def, intro allI impI)
  fix sid v b
  assume c: "ctx D Ev b" and ev: "backed Ev b sid (bvalMsg (epoch b) v)"
    and own: "sid = bbaID b \<or> int (epoch b) \<in> D"
    and fuel: "5 * pot D b + (if hasSentBval v b then 3 else 4) \<le> Suc n"
  let ?b1 = "admitBval sid v b"
  have r1: "run_ok In D Ev b ?b1"
    using bba_step.bval [OF ev] c by (intro run_ok_core) (auto simp: same_core_def)
  then have c1: "ctx D Ev ?b1" and p1: "pot D ?b1 \<le> pot D b" by (auto simp: run_ok_def)
  have fuel1: "5 * pot D ?b1 + 2 \<le> n" using fuel p1 by (auto split: if_splits)
  show "\<exists>b'. handleBvalRequest (Suc n) sid v b = Some b' \<and> run_ok In D Ev b b'"
  proof (cases "int (countBvals v ?b1) = 2 * bbaF ?b1 + 1")
    case True
    note cnt = True
    let ?lg = "bba_log traceBBAFirstBinValue v (epoch ?b1)"
    show ?thesis
    proof (cases "binValues ?b1 = []")
      case True
      let ?b2 = "bba_addMessage (auxMsg (epoch ?b1) v) (?b1\<lparr>binValues := [v]\<rparr>)"
      have r2: "run_ok In D Ev ?b1 ?b2"
        using bba_step.bin_first [OF cnt True] c1 by (intro run_ok_core) (auto simp: same_core_def)
      then have c2: "ctx D Ev ?b2" and p2: "pot D ?b2 \<le> pot D ?b1" by (auto simp: run_ok_def)
      have r3: "run_ok In D Ev ?b2 (?lg ?b2)" using c2 by (rule run_ok_log)
      then have c3: "ctx D Ev (?lg ?b2)" and p3: "pot D (?lg ?b2) \<le> pot D ?b2" by (auto simp: run_ok_def)
      have "backed Ev (?lg ?b2) (bbaID b) (auxMsg (epoch (?lg ?b2)) v)" by (simp add: backed_def)
      moreover have "5 * pot D (?lg ?b2) + 2 \<le> n" using fuel1 p2 p3 by simp
      moreover have "bbaID b = bbaID (?lg ?b2)" by simp
      ultimately obtain b' where b': "handleAuxRequest n (bbaID b) v (?lg ?b2) = Some b'"
          "run_ok In D Ev (?lg ?b2) b'"
        using aok c3 unfolding aux_ok_def by blast
      have "?lg ?b2 = bba_addMessage (auxMsg (epoch b) v) (?lg (?b1\<lparr>binValues := [v]\<rparr>))"
        by (simp add: bba_log_def bba_addMessage_def)
      then have "handleBvalRequest (Suc n) sid v b = Some b'"
        using b'(1) cnt True by (simp add: Let_def)
      moreover have "run_ok In D Ev b b'" using r1 r2 r3 b'(2) run_ok_trans by blast
      ultimately show ?thesis by blast
    next
      case False
      let ?b2 = "?b1\<lparr>binValues := binValues ?b1 @ [v]\<rparr>"
      have r2: "run_ok In D Ev ?b1 ?b2"
        using bba_step.bin_more [OF cnt False] c1 by (intro run_ok_core) (auto simp: same_core_def)
      then have c2: "ctx D Ev ?b2" and p2: "pot D ?b2 \<le> pot D ?b1" by (auto simp: run_ok_def)
      have r3: "run_ok In D Ev ?b2 (?lg ?b2)" using c2 by (rule run_ok_log)
      then have c3: "ctx D Ev (?lg ?b2)" and p3: "pot D (?lg ?b2) \<le> pot D ?b2" by (auto simp: run_ok_def)
      have "5 * pot D (?lg ?b2) + 1 \<le> n" using fuel1 p2 p3 by simp
      then obtain b' where b': "tryOutputAgreement n (?lg ?b2) = Some b'" "run_ok In D Ev (?lg ?b2) b'"
        using tok c3 unfolding try_ok_def by blast
      have "handleBvalRequest (Suc n) sid v b = Some b'"
        using b'(1) cnt False by (simp add: Let_def)
      moreover have "run_ok In D Ev b b'" using r1 r2 r3 b'(2) run_ok_trans by blast
      ultimately show ?thesis by blast
    qed
  next
    case no_bin: False
    show ?thesis
    proof (cases "int (countBvals v ?b1) = bbaF ?b1 + 1 \<and> \<not> hasSentBval v ?b1")
      case True
      let ?b2 = "bba_addMessage (bvalMsg (epoch ?b1) v) (?b1\<lparr>sentBvals := sentBvals ?b1 @ [v]\<rparr>)"
      have r2: "run_ok In D Ev ?b1 ?b2"
        using bba_step.relay [of v ?b1 In Ev] True c1 by (intro run_ok_core) (auto simp: same_core_def)
      then have c2: "ctx D Ev ?b2" and p2: "pot D ?b2 \<le> pot D ?b1" by (auto simp: run_ok_def)
      have "hasSentBval v ?b2" by (simp add: hasSentBval_def)
      moreover have "\<not> hasSentBval v b" using True by (simp add: hasSentBval_def)
      ultimately have "5 * pot D ?b2 + (if hasSentBval v ?b2 then 3 else 4) \<le> n"
        using fuel p1 p2 by simp
      moreover have "backed Ev ?b2 (bbaID b) (bvalMsg (epoch ?b2) v)" by (simp add: backed_def)
      moreover have "bbaID b = bbaID ?b2" by simp
      ultimately obtain b' where b': "handleBvalRequest n (bbaID b) v ?b2 = Some b'" "run_ok In D Ev ?b2 b'"
        using bok c2 unfolding bval_ok_def by blast
      have "handleBvalRequest (Suc n) sid v b = Some b'"
        using b'(1) no_bin True by (simp add: Let_def)
      moreover have "run_ok In D Ev b b'" using r1 r2 b'(2) run_ok_trans by blast
      ultimately show ?thesis by blast
    next
      case False
      then have "handleBvalRequest (Suc n) sid v b = Some ?b1"
        using no_bin by (auto simp: Let_def)
      with r1 show ?thesis by blast
    qed
  qed
qed


lemma delayed_run:
  assumes hok: "handle_ok In D Ev n"
    and "ctx D Ev b" and "5 * pot D b + 5 \<le> n"
    and "\<forall>(s, m) \<in> set ms. (s, m) \<in> Ev \<and> amEpoch m \<in> D"
  shows "\<exists>b'. bind_fold (\<lambda>(sid, msg) s. map_option snd (bba_handle n sid msg s)) ms b = Some b' \<and>
    run_ok In D Ev b b'"
  using assms(2-)
proof (induction ms arbitrary: b)
  case Nil
  then show ?case by (simp add: run_ok_refl)
next
  case (Cons x ms)
  obtain s m where x: "x = (s, m)" by force
  with Cons.prems hok obtain e b1 where b1: "bba_handle n s m b = Some (e, b1)" "run_ok In D Ev b b1"
    unfolding handle_ok_def by fastforce
  then have "ctx D Ev b1" and "5 * pot D b1 + 5 \<le> n" using Cons.prems(2) by (auto simp: run_ok_def)
  with Cons.IH [of b1] Cons.prems(3) obtain b' where
    "bind_fold (\<lambda>(sid, msg) s. map_option snd (bba_handle n sid msg s)) ms b1 = Some b'" "run_ok In D Ev b1 b'"
    by auto
  then show ?case using b1 x run_ok_trans by (auto intro!: exI [of _ b'])
qed

lemma clear_run: "ctx D Ev b \<Longrightarrow> run_ok In D Ev b (b\<lparr>delayedMessages := []\<rparr>)"
proof -
  assume c: "ctx D Ev b"
  have p: "pot D (b\<lparr>delayedMessages := []\<rparr>) = pot D b" by (simp add: pot_def hot_def)
  show ?thesis
    using c p by (intro run_ok_step [OF bba_step.clear]) (auto simp: ctx_def)
qed

lemma quorum_hot: "ctx D Ev b \<Longrightarrow> auxQuorum b vs \<Longrightarrow> hot D b"
  using cold_few_outputs [of D b] by (force simp: ctx_def auxQuorum_def)

lemma try_ok_Suc:
  assumes bok: "bval_ok In D Ev n" and hok: "handle_ok In D Ev n"
  shows "try_ok In D Ev (Suc n)"
proof (unfold try_ok_def, intro allI impI)
  fix b
  assume c: "ctx D Ev b" and fuel: "5 * pot D b + 1 \<le> Suc n"
  obtain lo vs where co: "countOutputs b = (lo, vs)" by force
  show "\<exists>b'. tryOutputAgreement (Suc n) b = Some b' \<and> run_ok In D Ev b b'"
  proof (cases "binValues b = [] \<or> int lo < bbaN b - bbaF b")
    case True
    then have "tryOutputAgreement (Suc n) b = Some b" using co by auto
    then show ?thesis using run_ok_refl [OF c] by blast
  next
    case False
    let ?b1 = "bba_log traceBBAValidAuxQuorum False (epoch b) b"
    have r1: "run_ok In D Ev b ?b1" using c by (rule run_ok_log)
    then have c1: "ctx D Ev ?b1" and p1: "pot D ?b1 \<le> pot D b" by (auto simp: run_ok_def)
    have q1: "auxQuorum ?b1 vs" using False co by (auto simp: auxQuorum_def countOutputs_def)
    show ?thesis
    proof (cases "bbaDone b \<or> decision b = Some (coin (epoch b))")
      case True
      let ?b2 = "?b1\<lparr>bbaDone := True\<rparr>"
      have "run_ok In D Ev ?b1 ?b2"
        using bba_step.finish [OF q1] True c1 by (intro run_ok_core) (auto simp: same_core_def)
      moreover from this have "run_ok In D Ev ?b2 (bba_log traceBBADone False (epoch b) ?b2)"
        by (intro run_ok_log) (simp add: run_ok_def)
      moreover have "tryOutputAgreement (Suc n) b = Some (bba_log traceBBADone False (epoch b) ?b2)"
        using False True co by (auto simp: Let_def)
      ultimately show ?thesis using r1 run_ok_trans by blast
    next
      case False': False
      have h: "hot D ?b1" using c1 q1 by (rule quorum_hot)
      have lim: "epoch ?b1 + 1 < 2 ^ 32"
        using c1 h by (auto simp: ctx_def pot_def)
      let ?b2 = "nextEpoch vs ?b1" and ?v = "nextEstimate (epoch b) vs"
      have c2: "ctx D Ev ?b2" using ctx_next [OF c1 h lim] .
      have p2: "pot D ?b2 + 1 \<le> pot D ?b1"
        using pot_next [OF h _ lim] c1 by (simp add: ctx_def)
      have r2: "run_ok In D Ev ?b1 ?b2"
        using bba_step.advance [OF q1 _ _ lim] False' c2 p2 by (intro run_ok_step) auto
      have "backed Ev ?b2 (bbaID ?b2) (bvalMsg (epoch ?b2) ?v)"
        by (simp add: backed_def)
      moreover have "5 * pot D ?b2 + (if hasSentBval ?v ?b2 then 3 else 4) \<le> n"
        using p1 p2 fuel by auto
      ultimately obtain b3 where b3: "handleBvalRequest n (bbaID ?b2) ?v ?b2 = Some b3" "run_ok In D Ev ?b2 b3"
        using bok c2 unfolding bval_ok_def by blast
      then have c3: "ctx D Ev b3" and p3: "pot D b3 \<le> pot D ?b2" by (auto simp: run_ok_def)
      have "5 * pot D b3 + 5 \<le> n" using p1 p2 p3 fuel by linarith
      moreover have "\<forall>(s, m) \<in> set (delayedMessages b3). (s, m) \<in> Ev \<and> amEpoch m \<in> D"
        using c3 by (simp add: ctx_def)
      ultimately obtain b4 where b4: "bind_fold (\<lambda>(sid, msg) s. map_option snd (bba_handle n sid msg s))
          (delayedMessages b3) b3 = Some b4" "run_ok In D Ev b3 b4"
        using delayed_run [OF hok c3] by blast
      have "run_ok In D Ev b4 (b4\<lparr>delayedMessages := []\<rparr>)"
        using b4(2) by (intro clear_run) (simp add: run_ok_def)
      moreover have "tryOutputAgreement (Suc n) b = Some (b4\<lparr>delayedMessages := []\<rparr>)"
        using False False' co b3(1) b4(1) by (auto simp: Let_def)
      ultimately show ?thesis using r1 r2 b3(2) b4(2) run_ok_trans by blast
    qed
  qed
qed

lemma handle_ok_Suc:
  assumes bok: "bval_ok In D Ev n" and aok: "aux_ok In D Ev n"
  shows "handle_ok In D Ev (Suc n)"
proof (unfold handle_ok_def, intro allI impI)
  fix sid m b
  assume c: "ctx D Ev b" and ev: "(sid, m) \<in> Ev" and d: "amEpoch m \<in> D"
    and fuel: "5 * pot D b + 5 \<le> Suc n"
  consider (ignored) "bbaDone b \<or> amEpoch m < int (epoch b)"
    | (delayed) "\<not> bbaDone b" "amEpoch m > int (epoch b)"
    | (current) "\<not> bbaDone b" "amEpoch m = int (epoch b)" by linarith
  then show "\<exists>e b'. bba_handle (Suc n) sid m b = Some (e, b') \<and> run_ok In D Ev b b'"
  proof cases
    case ignored
    then show ?thesis using run_ok_refl [OF c] by auto
  next
    case delayed
    let ?b1 = "b\<lparr>delayedMessages := delayedMessages b @ [(sid, m)]\<rparr>"
    have p: "pot D ?b1 = pot D b" by (simp add: pot_def hot_def)
    then have "ctx D Ev ?b1" using c ev d by (auto simp: ctx_def)
    then have "run_ok In D Ev b ?b1"
      using bba_step.delay [OF ev delayed(2)] p by (intro run_ok_step) auto
    then show ?thesis using delayed by auto
  next
    case current
    have m: "m = NewAgreementMessage (epoch b) (amMessage m)"
      using current by (simp add: NewAgreementMessage_def)
    then have bk: "backed Ev b sid (NewAgreementMessage (epoch b) (amMessage m))"
      using ev by (simp add: backed_def)
    have "int (epoch b) \<in> D" using d current by simp
    show ?thesis
    proof (cases "amMessage m")
      case (BvalRequest v)
      then have "backed Ev b sid (bvalMsg (epoch b) v)"
        and "5 * pot D b + (if hasSentBval v b then 3 else 4) \<le> n" using bk fuel by auto
      then obtain b' where "handleBvalRequest n sid v b = Some b'" "run_ok In D Ev b b'"
        using bok c \<open>int (epoch b) \<in> D\<close> unfolding bval_ok_def by blast
      then show ?thesis using current BvalRequest by auto
    next
      case (AuxRequest v)
      then have "backed Ev b sid (auxMsg (epoch b) v)" and "5 * pot D b + 2 \<le> n" using bk fuel by auto
      then obtain b' where "handleAuxRequest n sid v b = Some b'" "run_ok In D Ev b b'"
        using aok c \<open>int (epoch b) \<in> D\<close> unfolding aux_ok_def by blast
      then show ?thesis using current AuxRequest by auto
    next
      case UnknownAgreement
      then show ?thesis using current run_ok_refl [OF c] by auto
    qed
  qed
qed

lemma budget_suffices: "bval_ok In D Ev n \<and> aux_ok In D Ev n \<and> try_ok In D Ev n \<and> handle_ok In D Ev n"
proof (induction n)
  case 0
  show ?case by (auto simp: bval_ok_def aux_ok_def try_ok_def handle_ok_def)
next
  case (Suc n)
  then show ?case by (simp add: bval_ok_Suc aux_ok_Suc try_ok_Suc handle_ok_Suc)
qed


section \<open>The entry points\<close>

text \<open>
  A state the entry points meet: votes of distinct senders, and an epoch far enough from the
  end of the \<^verbatim>\<open>uint32\<close> range for every delayed message to complete one epoch.
\<close>

definition ready_for_call :: "BBA \<Rightarrow> bool" where
  "ready_for_call b \<longleftrightarrow> 2 \<le> bbaN b - bbaF b \<and> wf_map (recvAux b) \<and>
     epoch b + length (delayedMessages b) + 3 < 2 ^ 32"

definition delayedEpochs :: "BBA \<Rightarrow> int set" where
  "delayedEpochs b = (amEpoch \<circ> snd) ` set (delayedMessages b)"

lemma call_ctx:
  assumes "ready_for_call b" and "set (delayedMessages b) \<subseteq> Ev"
  shows "ctx (insert d (insert (int (epoch b)) (delayedEpochs b))) Ev b"
    and "pot (insert d (insert (int (epoch b)) (delayedEpochs b))) b \<le> length (delayedMessages b) + 2"
proof -
  let ?D = "insert d (insert (int (epoch b)) (delayedEpochs b))"
  have fin: "finite ?D" by (simp add: delayedEpochs_def)
  have "{x \<in> ?D. x > int (epoch b)} \<subseteq> insert d (delayedEpochs b)" by auto
  then have "card {x \<in> ?D. x > int (epoch b)} \<le> card (insert d (delayedEpochs b))"
    by (intro card_mono) (auto simp: delayedEpochs_def)
  also have "\<dots> \<le> Suc (card (delayedEpochs b))" by (simp add: card_insert_if delayedEpochs_def)
  also have "card (delayedEpochs b) \<le> length (delayedMessages b)"
    unfolding delayedEpochs_def by (metis card_image_le card_length finite_set le_trans)
  finally show p: "pot ?D b \<le> length (delayedMessages b) + 2" by (simp add: pot_def)
  have "(s, m) \<in> set (delayedMessages b) \<Longrightarrow> amEpoch m \<in> delayedEpochs b" for s m
    by (force simp: delayedEpochs_def)
  then show "ctx ?D Ev b" using assms fin p by (auto simp: ctx_def ready_for_call_def)
qed

lemma HandleMessage_run:
  assumes ok: "ready_for_call b" and ev: "insert (sid, m) (set (delayedMessages b)) \<subseteq> Ev"
  obtains e b' where "bba_HandleMessage sid m b = (e, b')" "e = NoErr \<or> e = Err UnknownBBAMessage"
    "(bba_step In Ev)\<^sup>*\<^sup>* (b\<lparr>msgCount := msgCount b + 1\<rparr>) b'" "bbaConfig b' = bbaConfig b" "wf_map (recvAux b')"
proof -
  let ?b = "b\<lparr>msgCount := msgCount b + 1\<rparr>"
  let ?D = "insert (amEpoch m) (insert (int (epoch ?b)) (delayedEpochs ?b))"
  have ok': "ready_for_call ?b" using ok by (simp add: ready_for_call_def)
  have ev': "set (delayedMessages ?b) \<subseteq> Ev" using ev by simp
  have "5 * pot ?D ?b + 5 \<le> bba_fuel ?b"
    using call_ctx(2) [OF ok' ev', of "amEpoch m"] by (simp add: bba_fuel_def)
  then obtain e b' where r: "bba_handle (bba_fuel ?b) sid m ?b = Some (e, b')" "run_ok In ?D Ev ?b b'"
    using budget_suffices [of In ?D Ev "bba_fuel ?b"] call_ctx(1) [OF ok' ev', of "amEpoch m"] ev
    unfolding handle_ok_def by (metis insertI1 insert_subset)
  have "bba_HandleMessage sid m b = (case e of None \<Rightarrow> NoErr | Some x \<Rightarrow> Err x, b')"
    using r(1) by (simp add: bba_HandleMessage_def Let_def split: option.splits)
  moreover have "e = None \<or> e = Some UnknownBBAMessage"
    by (cases e) (simp_all, metis bba_error.exhaust)
  ultimately show ?thesis using r(2) that by (fastforce simp: run_ok_def ctx_def)
qed

lemma InputValue_run:
  assumes ok: "ready_for_call b" and ev: "set (delayedMessages b) \<subseteq> Ev" and inp: "v \<in> In"
  obtains b' where "bba_InputValue v b = (NoErr, b')" "(bba_step In Ev)\<^sup>*\<^sup>* b b'"
    "bbaConfig b' = bbaConfig b" "wf_map (recvAux b')"
proof (cases "AcceptInput b")
  case False
  then have "bba_InputValue v b = (NoErr, b)"
    by (auto simp: bba_InputValue_def bba_inputValue_def AcceptInput_def)
  then show ?thesis using that ok by (auto simp: ready_for_call_def)
next
  case True
  let ?D = "insert 0 (insert (int (epoch b)) (delayedEpochs b))"
  let ?b1 = "bba_log traceBBAInput v (epoch b) b"
  let ?b2 = "bba_addMessage (bvalMsg 0 v) (?b1\<lparr>estimated := Some v, sentBvals := sentBvals ?b1 @ [v]\<rparr>)"
  note c = call_ctx(1) [OF ok ev, of 0] and p = call_ctx(2) [OF ok ev, of 0]
  have r1: "run_ok In ?D Ev b ?b1" using c by (rule run_ok_log)
  then have c1: "ctx ?D Ev ?b1" by (simp add: run_ok_def)
  have r2: "run_ok In ?D Ev ?b1 ?b2"
    using True c1 inp by (intro run_ok_core [OF bba_step.input]) (auto simp: same_core_def AcceptInput_def)
  then have c2: "ctx ?D Ev ?b2" and p2: "pot ?D ?b2 \<le> pot ?D b" using r1 by (auto simp: run_ok_def)
  have e0: "epoch ?b2 = 0" using True by (simp add: AcceptInput_def)
  have "backed Ev ?b2 (bbaID ?b2) (bvalMsg (epoch ?b2) v)" using e0 by (simp add: backed_def)
  moreover have "5 * pot ?D ?b2 + (if hasSentBval v ?b2 then 3 else 4) \<le> bba_fuel b"
    using p p2 by (simp add: bba_fuel_def)
  ultimately obtain b' where b': "handleBvalRequest (bba_fuel b) (bbaID ?b2) v ?b2 = Some b'" "run_ok In ?D Ev ?b2 b'"
    using budget_suffices [of In ?D Ev "bba_fuel b"] c2 unfolding bval_ok_def by blast
  have "bba_InputValue v b = (NoErr, b')"
    using True b'(1) by (simp add: bba_InputValue_def bba_inputValue_def AcceptInput_def Let_def)
  moreover have "run_ok In ?D Ev b b'" using r1 r2 b'(2) run_ok_trans by blast
  ultimately show ?thesis using that by (auto simp: run_ok_def ctx_def)
qed

end
