(* ===== verification/Bba_Agreement.thy ===== *)
theory Bba_Agreement
  imports Bba_Steps
begin

text \<open>
  Agreement and validity of the binary agreement, for the handlers as they are written.

  \<open>bba_reach\<close> is the set of states a network of nodes running \<^verbatim>\<open>bba.go\<close> can get into: the
  nodes in \<open>U - Z\<close> run the code, the nodes in \<open>Z\<close> send what they like, and messages are
  delivered in any order and any number of times, under the identity of the node that sent
  them (the transport authenticates its peers). The invariant speaks about the messages the
  correct nodes have produced so far (\<open>sent\<close>): AUX values are unique per node and epoch,
  every BVAL goes back to an input or to a completed epoch, and a decision goes back to a
  quorum of AUX messages for the coin's value.
\<close>

section \<open>The network\<close>

definition fault_model :: "node_id set \<Rightarrow> node_id set \<Rightarrow> int \<Rightarrow> int \<Rightarrow> bool" where
  "fault_model U Z N F \<longleftrightarrow> finite U \<and> int (card U) = N \<and> Z \<subseteq> U \<and> int (card Z) \<le> F \<and> 3 * F < N"

record bba_net =
  bnNodes :: "node_id \<Rightarrow> BBA"
  bnWire :: evidence

definition deliverable :: "node_id set \<Rightarrow> node_id set \<Rightarrow> evidence \<Rightarrow> evidence" where
  "deliverable U Z W = {(j, m). j \<in> U \<and> (j \<in> Z \<or> (j, m) \<in> W)}"

inductive bba_reach :: "Config \<Rightarrow> node_id \<Rightarrow> node_id set \<Rightarrow> node_id set \<Rightarrow> (node_id \<Rightarrow> bool set) \<Rightarrow> bba_net \<Rightarrow> bool"
  for cfg p U Z inputs where
  init: "bba_reach cfg p U Z inputs \<lparr>bnNodes = (\<lambda>i. newBBA (cfg\<lparr>cfgID := i\<rparr>) p), bnWire = {}\<rparr>"
| deliver: "bba_reach cfg p U Z inputs s \<Longrightarrow> i \<in> U - Z \<Longrightarrow> (j, m) \<in> deliverable U Z (bnWire s) \<Longrightarrow>
    epoch (bnNodes s i) + length (delayedMessages (bnNodes s i)) + 3 < 2 ^ 32 \<Longrightarrow>
    bba_HandleMessage j m (bnNodes s i) = (e, b') \<Longrightarrow>
    bba_reach cfg p U Z inputs (s\<lparr>bnNodes := (bnNodes s)(i := b')\<rparr>)"
| input: "bba_reach cfg p U Z inputs s \<Longrightarrow> i \<in> U - Z \<Longrightarrow> v \<in> inputs i \<Longrightarrow>
    epoch (bnNodes s i) + length (delayedMessages (bnNodes s i)) + 3 < 2 ^ 32 \<Longrightarrow>
    bba_InputValue v (bnNodes s i) = (e, b') \<Longrightarrow>
    bba_reach cfg p U Z inputs (s\<lparr>bnNodes := (bnNodes s)(i := b')\<rparr>)"
| send: "bba_reach cfg p U Z inputs s \<Longrightarrow> i \<in> U - Z \<Longrightarrow> bba_takeMessages (bnNodes s i) = (ms, b') \<Longrightarrow>
    bba_reach cfg p U Z inputs (s\<lparr>bnNodes := (bnNodes s)(i := b'), bnWire := bnWire s \<union> Pair i ` set ms\<rparr>)"
| take_output: "bba_reach cfg p U Z inputs s \<Longrightarrow> i \<in> U - Z \<Longrightarrow> bba_takeOutput (bnNodes s i) = (out, b') \<Longrightarrow>
    bba_reach cfg p U Z inputs (s\<lparr>bnNodes := (bnNodes s)(i := b')\<rparr>)"

section \<open>What the messages sent so far support\<close>

definition seen :: "node_id set \<Rightarrow> node_id set \<Rightarrow> evidence \<Rightarrow> node_id \<Rightarrow> AgreementMessage \<Rightarrow> bool" where
  "seen U Z M j m \<longleftrightarrow> j \<in> U \<and> (j \<in> Z \<or> (j, m) \<in> M)"

definition supported :: "node_id set \<Rightarrow> node_id set \<Rightarrow> evidence \<Rightarrow> nat \<Rightarrow> bool \<Rightarrow> bool" where
  "supported U Z M e v \<longleftrightarrow> (\<exists>k \<in> U - Z. (k, bvalMsg e v) \<in> M)"

definition completed :: "node_id set \<Rightarrow> node_id set \<Rightarrow> int \<Rightarrow> evidence \<Rightarrow> nat \<Rightarrow> bool list \<Rightarrow> bool" where
  "completed U Z q M e vs \<longleftrightarrow> distinct vs \<and> vs \<noteq> [] \<and> (\<forall>x \<in> set vs. supported U Z M e x) \<and>
     (\<exists>Q \<subseteq> U. q \<le> int (card Q) \<and> (\<forall>j \<in> Q. j \<in> Z \<or> (\<exists>x \<in> set vs. (j, auxMsg e x) \<in> M)))"

definition origin :: "node_id set \<Rightarrow> node_id set \<Rightarrow> int \<Rightarrow> (node_id \<Rightarrow> bool set) \<Rightarrow> evidence \<Rightarrow> nat \<Rightarrow> bool \<Rightarrow> bool" where
  "origin U Z q inputs M e w \<longleftrightarrow>
     (case e of 0 \<Rightarrow> \<exists>k \<in> U - Z. w \<in> inputs k
      | Suc e' \<Rightarrow> \<exists>vs. completed U Z q M e' vs \<and> nextEstimate e' vs = w)"

lemma seen_mono: "M \<subseteq> M' \<Longrightarrow> seen U Z M j m \<Longrightarrow> seen U Z M' j m"
  by (auto simp: seen_def)

lemma supported_mono: "M \<subseteq> M' \<Longrightarrow> supported U Z M e v \<Longrightarrow> supported U Z M' e v"
  by (auto simp: supported_def)

lemma completed_mono: "M \<subseteq> M' \<Longrightarrow> completed U Z q M e vs \<Longrightarrow> completed U Z q M' e vs"
  unfolding completed_def by (meson supported_mono subsetD)

lemma origin_mono: "M \<subseteq> M' \<Longrightarrow> origin U Z q inputs M e w \<Longrightarrow> origin U Z q inputs M' e w"
  unfolding origin_def by (cases e) (auto intro: completed_mono)

lemma votes_supported:
  assumes "finite Z" and "int (card Z) \<le> F" and "distinct xs" and "F < int (length xs)"
    and "\<forall>j \<in> set xs. seen U Z M j (bvalMsg e v)"
  shows "supported U Z M e v"
proof -
  have "card Z < card (set xs)" using assms(2-4) by (simp add: distinct_card)
  with assms(1) obtain k where "k \<in> set xs" and "k \<notin> Z" using card_gt_exists_outside by blast
  then show ?thesis using assms(5) by (auto simp: seen_def supported_def)
qed

section \<open>The invariant\<close>

definition votes_inv :: "node_id set \<Rightarrow> node_id set \<Rightarrow> evidence \<Rightarrow> BBA \<Rightarrow> bool" where
  "votes_inv U Z M b \<longleftrightarrow> wf_map (recvAux b) \<and> (\<forall>v. distinct (recvBval b v)) \<and>
     (\<forall>v j. j \<in> set (recvBval b v) \<longrightarrow> seen U Z M j (bvalMsg (epoch b) v)) \<and>
     (\<forall>j x. (j, x) \<in> set (recvAux b) \<longrightarrow> seen U Z M j (auxMsg (epoch b) x)) \<and>
     (\<forall>j m. (j, m) \<in> set (delayedMessages b) \<longrightarrow> seen U Z M j m) \<and>
     (\<forall>v. v \<in> set (binValues b) \<longrightarrow> supported U Z M (epoch b) v)"

definition aux_inv :: "evidence \<Rightarrow> BBA \<Rightarrow> bool" where
  "aux_inv M b \<longleftrightarrow> (\<forall>e x. (bbaID b, auxMsg e x) \<in> M \<longrightarrow>
     e \<le> epoch b \<and> (e = epoch b \<longrightarrow> binValues b \<noteq> [] \<and> hd (binValues b) = x)) \<and>
     (\<forall>e x y. (bbaID b, auxMsg e x) \<in> M \<longrightarrow> (bbaID b, auxMsg e y) \<in> M \<longrightarrow> x = y)"

definition decision_inv :: "node_id set \<Rightarrow> node_id set \<Rightarrow> evidence \<Rightarrow> BBA \<Rightarrow> bool" where
  "decision_inv U Z M b \<longleftrightarrow> (\<forall>v. decision b = Some v \<longrightarrow>
     (\<exists>e < epoch b. coin e = v \<and> completed U Z (bbaN b - bbaF b) M e [v])) \<and>
     (\<forall>v. bbaOutput b = Some v \<longrightarrow> decision b = Some v)"

definition node_inv :: "node_id set \<Rightarrow> node_id set \<Rightarrow> evidence \<Rightarrow> BBA \<Rightarrow> bool" where
  "node_inv U Z M b \<longleftrightarrow> votes_inv U Z M b \<and> aux_inv M b \<and> decision_inv U Z M b"

definition origin_inv :: "node_id set \<Rightarrow> node_id set \<Rightarrow> int \<Rightarrow> (node_id \<Rightarrow> bool set) \<Rightarrow> evidence \<Rightarrow> bool" where
  "origin_inv U Z q inputs M \<longleftrightarrow> (\<forall>i \<in> U - Z. \<forall>e w. (i, bvalMsg e w) \<in> M \<longrightarrow> origin U Z q inputs M e w)"

definition emit :: "evidence \<Rightarrow> BBA \<Rightarrow> evidence" where
  "emit M b = M \<union> Pair (bbaID b) ` set (bbaMessages b)"

lemma votes_inv_mono: "M \<subseteq> M' \<Longrightarrow> votes_inv U Z M b \<Longrightarrow> votes_inv U Z M' b"
  unfolding votes_inv_def by (simp add: seen_mono supported_mono)

lemma decision_inv_mono: "M \<subseteq> M' \<Longrightarrow> decision_inv U Z M b \<Longrightarrow> decision_inv U Z M' b"
  unfolding decision_inv_def by (meson completed_mono)

lemma msg_inj [simp]:
  "NewAgreementMessage e p = NewAgreementMessage e' p' \<longleftrightarrow> e = e' \<and> p = p'"
  by (auto simp: NewAgreementMessage_def)

abbreviation validAux :: "BBA \<Rightarrow> (node_id, bool) gomap" where
  "validAux b \<equiv> filter (\<lambda>(sid, v). v \<in> set (binValues b)) (recvAux b)"

lemma two_values:
  "set ((if False \<in> A then [False] else []) @ (if True \<in> A then [True] else [])) = A"
  "distinct ((if False \<in> A then [False] else []) @ (if True \<in> A then [True] else []))"
  by (auto, (metis (full_types))+)

lemma countOutputs_eq:
  "countOutputs b = (length (validAux b),
     (if False \<in> snd ` set (validAux b) then [False] else []) @
     (if True \<in> snd ` set (validAux b) then [True] else []))"
  by (simp only: countOutputs_def Let_def)

lemma countOutputs_values:
  "set (snd (countOutputs b)) = snd ` set (validAux b)" "distinct (snd (countOutputs b))"
  "fst (countOutputs b) = length (validAux b)"
  unfolding countOutputs_eq snd_conv fst_conv by (rule two_values refl)+

lemma in_snd: "x \<in> snd ` S \<Longrightarrow> (\<And>j. (j, x) \<in> S \<Longrightarrow> thesis) \<Longrightarrow> thesis"
  by force

lemma in_fst: "j \<in> fst ` S \<Longrightarrow> (\<And>x. (j, x) \<in> S \<Longrightarrow> thesis) \<Longrightarrow> thesis"
  by force

lemma completedI:
  assumes "distinct vs" "vs \<noteq> []" "\<And>x. x \<in> set vs \<Longrightarrow> supported U Z M e x" "Q \<subseteq> U" "q \<le> int (card Q)"
    "\<And>j. j \<in> Q \<Longrightarrow> j \<notin> Z \<Longrightarrow> \<exists>x \<in> set vs. (j, auxMsg e x) \<in> M"
  shows "completed U Z q M e vs"
proof -
  have "\<forall>j \<in> Q. j \<in> Z \<or> (\<exists>x \<in> set vs. (j, auxMsg e x) \<in> M)" using assms(6) by (metis (full_types))
  then show ?thesis using assms(1-5) unfolding completed_def by (metis (full_types))
qed

lemma quorum_completed:
  assumes v: "votes_inv U Z M b" and q: "auxQuorum b vs" and pos: "0 < bbaN b - bbaF b"
  shows "completed U Z (bbaN b - bbaF b) M (epoch b) vs"
proof (rule completedI [where Q = "fst ` set (validAux b)"])
  have vs_eq: "vs = snd (countOutputs b)" using q by (simp only: auxQuorum_def)
  have vs: "set vs = snd ` set (validAux b)" "distinct vs"
    unfolding vs_eq by (rule countOutputs_values)+
  have n: "bbaN b - bbaF b \<le> int (length (validAux b))"
    using q by (simp only: auxQuorum_def countOutputs_values(3))
  have wf: "wf_map (validAux b)" using v by (simp add: votes_inv_def distinct_map_filter)
  show "bbaN b - bbaF b \<le> int (card (fst ` set (validAux b)))" using length_wf_map [OF wf] n by simp
  have "validAux b \<noteq> []" using n pos by (metis int_ops(1) list.size(3) not_less)
  then show "vs \<noteq> []" using vs(1) by (metis image_is_empty set_empty)
  show "distinct vs" by (rule vs(2))
  show "supported U Z M (epoch b) x" if xin: "x \<in> set vs" for x
  proof -
    obtain j where "(j, x) \<in> set (validAux b)" using xin [unfolded vs(1)] by (rule in_snd)
    then have "x \<in> set (binValues b)" by simp
    then show ?thesis using v by (simp add: votes_inv_def)
  qed
  show "fst ` set (validAux b) \<subseteq> U" using v by (auto simp: votes_inv_def seen_def)
  fix j
  assume j: "j \<in> fst ` set (validAux b)" "j \<notin> Z"
  then obtain x where jx: "(j, x) \<in> set (validAux b)" using in_fst by metis
  have x: "(j, x) \<in> set (recvAux b)" using jx by simp
  have x2: "x \<in> set vs" using imageI [OF jx, of snd] unfolding vs(1) by simp
  have "seen U Z M j (auxMsg (epoch b) x)" using v x by (simp add: votes_inv_def)
  then show "\<exists>x \<in> set vs. (j, auxMsg (epoch b) x) \<in> M" using x2 j(2) by (auto simp: seen_def)
qed

section \<open>Every step keeps the invariant\<close>

definition accounted :: "evidence \<Rightarrow> BBA \<Rightarrow> bool" where
  "accounted M b \<longleftrightarrow> Pair (bbaID b) ` set (bbaMessages b) \<subseteq> M"

definition justified :: "node_id set \<Rightarrow> node_id set \<Rightarrow> evidence \<Rightarrow> evidence \<Rightarrow> bool" where
  "justified U Z M Ev \<longleftrightarrow> (\<forall>j m. (j, m) \<in> Ev \<longrightarrow> seen U Z M j m)"

lemma step_config: "bba_step In Ev b b' \<Longrightarrow> bbaConfig b' = bbaConfig b"
  by (induction rule: bba_step.induct) auto

lemma emit_same [simp]: "accounted M b \<Longrightarrow> bbaMessages b' = bbaMessages b \<Longrightarrow> bbaConfig b' = bbaConfig b \<Longrightarrow>
    emit M b' = M"
  by (auto simp: accounted_def emit_def)

lemma emit_new: "accounted M b \<Longrightarrow> bbaMessages b' = bbaMessages b @ [m] \<Longrightarrow> bbaConfig b' = bbaConfig b \<Longrightarrow>
    emit M b' = insert (bbaID b, m) M"
  by (auto simp: accounted_def emit_def)

lemma backed_seen:
  "justified U Z M Ev \<Longrightarrow> accounted M b \<Longrightarrow> bbaID b \<in> U \<Longrightarrow> backed Ev b j m \<Longrightarrow> seen U Z M j m"
  by (auto simp: justified_def accounted_def backed_def seen_def)

lemma set_admit [simp]: "set (recvBval (admitBval s v b) w) = (if w = v then insert s (set (recvBval b w)) else set (recvBval b w))"
  by (simp add: admitBval_def)

lemma distinct_admit [simp]: "distinct (recvBval b w) \<Longrightarrow> distinct (recvBval (admitBval s v b) w)"
  by (auto simp: admitBval_def)

lemma admit_votes:
  "votes_inv U Z M b \<Longrightarrow> seen U Z M s (bvalMsg (epoch b) v) \<Longrightarrow> votes_inv U Z M (admitBval s v b)"
  by (auto simp: votes_inv_def)

lemma set_update_cases: "(j, x) \<in> set (AList.update k v m) \<Longrightarrow> (j, x) = (k, v) \<or> (j, x) \<in> set m"
  by (induction m) (auto split: if_splits)

lemma aux_votes:
  "votes_inv U Z M b \<Longrightarrow> seen U Z M s (auxMsg (epoch b) v) \<Longrightarrow>
   votes_inv U Z M (b\<lparr>recvAux := AList.update s v (recvAux b)\<rparr>)"
  by (auto simp: votes_inv_def dest!: set_update_cases)

lemma count_supported:
  assumes "fault_model U Z N F" and "votes_inv U Z M b" and "F < int (countBvals v b)"
  shows "supported U Z M (epoch b) v"
proof (rule votes_supported)
  show "finite Z" using assms(1) by (auto simp: fault_model_def intro: finite_subset)
  show "int (card Z) \<le> F" using assms(1) by (simp add: fault_model_def)
  show "distinct (recvBval b v)" "\<forall>j \<in> set (recvBval b v). seen U Z M j (bvalMsg (epoch b) v)"
    using assms(2) by (auto simp: votes_inv_def)
  show "F < int (length (recvBval b v))" using assms(3) by (simp add: countBvals_def)
qed

lemma F_nonneg: "fault_model U Z N F \<Longrightarrow> 0 \<le> F"
  by (auto simp: fault_model_def)

lemma step_votes:
  assumes "bba_step In Ev b b'" and v: "votes_inv U Z M b" and fm: "fault_model U Z (bbaN b) (bbaF b)"
    and just: "justified U Z M Ev" and acc: "accounted M b" and own: "bbaID b \<in> U"
  shows "votes_inv U Z (emit M b') b'"
proof -
  have mono: "votes_inv U Z M b' \<Longrightarrow> votes_inv U Z (emit M b') b'"
    by (rule votes_inv_mono [rotated]) (auto simp: emit_def)
  have "votes_inv U Z M b'"
    using assms(1)
  proof (cases rule: bba_step.cases)
    case (bval sid w)
    then show ?thesis using admit_votes [OF v] backed_seen [OF just acc own] by simp
  next
    case (aux sid w)
    then show ?thesis using aux_votes [OF v] backed_seen [OF just acc own] by simp
  next
    case (bin_first w)
    have "supported U Z M (epoch b) w"
      using count_supported [OF fm v] F_nonneg [OF fm] bin_first by simp
    then show ?thesis using v bin_first by (auto simp: votes_inv_def)
  next
    case (bin_more w)
    have "supported U Z M (epoch b) w"
      using count_supported [OF fm v] F_nonneg [OF fm] bin_more by simp
    then show ?thesis using v bin_more by (auto simp: votes_inv_def)
  next
    case (advance vs)
    then show ?thesis using v by (simp add: votes_inv_def newBvalSet_def)
  next
    case (delay sid m)
    then show ?thesis using v just by (auto simp: votes_inv_def justified_def)
  qed (use v in \<open>auto simp: votes_inv_def\<close>)
  then show ?thesis by (rule mono)
qed

lemma step_aux:
  assumes "bba_step In Ev b b'" and a: "aux_inv M b" and acc: "accounted M b"
  shows "aux_inv (emit M b') b'"
  using assms(1)
proof (cases rule: bba_step.cases)
  case (bin_first w)
  have e: "emit M b' = insert (bbaID b, auxMsg (epoch b) w) M"
    using emit_new [OF acc] bin_first by simp
  show ?thesis using a bin_first unfolding e by (auto simp: aux_inv_def)
next
  case (advance vs)
  have e: "emit M b' = insert (bbaID b, bvalMsg (inc32 (epoch b)) (nextEstimate (epoch b) vs)) M"
    using emit_new [OF acc] advance by simp
  show ?thesis using a advance unfolding e by (fastforce simp: aux_inv_def inc32_eq)
next
  case (relay w)
  have e: "emit M b' = insert (bbaID b, bvalMsg (epoch b) w) M"
    using emit_new [OF acc] relay by simp
  show ?thesis using a relay unfolding e by (simp add: aux_inv_def)
next
  case (input w)
  have e: "emit M b' = insert (bbaID b, bvalMsg 0 w) M"
    using emit_new [OF acc] input by simp
  show ?thesis using a input unfolding e by (simp add: aux_inv_def)
qed (use a acc in \<open>simp_all add: aux_inv_def\<close>)

lemma step_decision:
  assumes "bba_step In Ev b b'" and d: "decision_inv U Z M b" and v: "votes_inv U Z M b"
    and pos: "0 < bbaN b - bbaF b"
  shows "decision_inv U Z (emit M b') b'"
proof -
  have mono: "decision_inv U Z M b' \<Longrightarrow> decision_inv U Z (emit M b') b'"
    by (rule decision_inv_mono [rotated]) (auto simp: emit_def)
  have "decision_inv U Z M b'"
    using assms(1)
  proof (cases rule: bba_step.cases)
    case (advance vs)
    have c: "completed U Z (bbaN b - bbaF b) M (epoch b) vs"
      using quorum_completed [OF v _ pos] advance by simp
    show ?thesis
    proof (cases "decides b vs")
      case True
      then show ?thesis using advance c d by (auto simp: decision_inv_def decides_def inc32_eq)
    next
      case False
      then have "decision b' = decision b" "bbaOutput b' = bbaOutput b" "epoch b' = Suc (epoch b)"
        "bbaConfig b' = bbaConfig b" using advance by (simp_all add: inc32_eq)
      then show ?thesis using d unfolding decision_inv_def by (metis less_SucI)
    qed
  qed (use d in \<open>auto simp: decision_inv_def\<close>)
  then show ?thesis by (rule mono)
qed

lemma step_origin:
  assumes "bba_step In Ev b b'" and o: "origin_inv U Z (bbaN b - bbaF b) inputs M" and v: "votes_inv U Z M b"
    and fm: "fault_model U Z (bbaN b) (bbaF b)" and acc: "accounted M b"
    and own: "bbaID b \<in> U - Z" and "In \<subseteq> inputs (bbaID b)"
  shows "origin_inv U Z (bbaN b - bbaF b) inputs (emit M b')"
proof -
  let ?q = "bbaN b - bbaF b"
  have pos: "0 < ?q" using fm F_nonneg [OF fm] by (auto simp: fault_model_def)
  have new: "origin_inv U Z ?q inputs (emit M b')"
    if "emit M b' = insert (bbaID b, m) M" and "\<And>e w. m = bvalMsg e w \<Longrightarrow> origin U Z ?q inputs M e w" for m
    using o that unfolding origin_inv_def by (auto intro: origin_mono)
  show ?thesis
    using assms(1)
  proof (cases rule: bba_step.cases)
    case (bin_first w)
    then show ?thesis by (intro new [OF emit_new [OF acc]]) auto
  next
    case (advance vs)
    have "completed U Z ?q M (epoch b) vs" using quorum_completed [OF v _ pos] advance by simp
    then show ?thesis
      using advance by (intro new [OF emit_new [OF acc]]) (auto simp: origin_def inc32_eq intro!: exI [of _ vs])
  next
    case (relay w)
    then have "supported U Z M (epoch b) w" using count_supported [OF fm v] by simp
    then have "origin U Z ?q inputs M (epoch b) w" using o by (auto simp: supported_def origin_inv_def)
    then show ?thesis using relay by (intro new [OF emit_new [OF acc]]) auto
  next
    case (input w)
    then show ?thesis using assms(6,7) by (intro new [OF emit_new [OF acc]]) (auto simp: origin_def intro!: bexI [of _ "bbaID b"])
  qed (use o acc in simp_all)
qed

lemma step_messages: "bba_step In Ev b b' \<Longrightarrow> set (bbaMessages b) \<subseteq> set (bbaMessages b')"
  by (induction rule: bba_step.induct) auto

lemma emit_emit: "set (bbaMessages b) \<subseteq> set (bbaMessages b') \<Longrightarrow> bbaConfig b' = bbaConfig b \<Longrightarrow>
    emit (emit M b) b' = emit M b'"
  by (auto simp: emit_def)

lemma accounted_emit: "accounted (emit M b) b"
  by (auto simp: accounted_def emit_def)

lemma emit_accounted: "accounted M b \<Longrightarrow> emit M b = M"
  by simp

definition sys_inv :: "node_id set \<Rightarrow> node_id set \<Rightarrow> (node_id \<Rightarrow> bool set) \<Rightarrow> evidence \<Rightarrow> BBA \<Rightarrow> bool" where
  "sys_inv U Z inputs M b \<longleftrightarrow> node_inv U Z M b \<and> origin_inv U Z (bbaN b - bbaF b) inputs M"

lemma step_inv:
  assumes st: "bba_step In Ev b b'" and inv: "sys_inv U Z inputs M b"
    and fm: "fault_model U Z (bbaN b) (bbaF b)" and just: "justified U Z M Ev" and acc: "accounted M b"
    and own: "bbaID b \<in> U - Z" and inp: "In \<subseteq> inputs (bbaID b)"
  shows "sys_inv U Z inputs (emit M b') b'"
proof -
  from inv have v: "votes_inv U Z M b" and a: "aux_inv M b" and d: "decision_inv U Z M b"
    and o: "origin_inv U Z (bbaN b - bbaF b) inputs M" by (auto simp: sys_inv_def node_inv_def)
  have pos: "0 < bbaN b - bbaF b" using fm F_nonneg [OF fm] by (auto simp: fault_model_def)
  have "bbaID b \<in> U" using own by simp
  then show ?thesis
    using step_votes [OF st v fm just acc] step_aux [OF st a acc] step_decision [OF st d v pos]
      step_origin [OF st o v fm acc own inp] step_config [OF st]
    by (simp add: sys_inv_def node_inv_def)
qed

lemma justified_mono: "M \<subseteq> M' \<Longrightarrow> justified U Z M Ev \<Longrightarrow> justified U Z M' Ev"
  by (auto simp: justified_def intro: seen_mono)

lemma run_inv:
  assumes "(bba_step In Ev)\<^sup>*\<^sup>* b b'" and inv: "sys_inv U Z inputs M b"
    and fm: "fault_model U Z (bbaN b) (bbaF b)" and just: "justified U Z M Ev" and acc: "accounted M b"
    and own: "bbaID b \<in> U - Z" and inp: "In \<subseteq> inputs (bbaID b)"
  shows "sys_inv U Z inputs (emit M b') b' \<and> bbaConfig b' = bbaConfig b \<and> set (bbaMessages b) \<subseteq> set (bbaMessages b')"
  using assms(1)
proof (induction rule: rtranclp_induct)
  case base
  then show ?case using inv acc by simp
next
  case (step b1 b2)
  let ?M1 = "emit M b1"
  have c1: "bbaConfig b1 = bbaConfig b" and i1: "sys_inv U Z inputs ?M1 b1" using step.IH by auto
  have "justified U Z ?M1 Ev" using just by (rule justified_mono [rotated]) (auto simp: emit_def)
  then have "sys_inv U Z inputs (emit ?M1 b2) b2"
    using step_inv [OF step.hyps(2) i1 _ _ accounted_emit] fm own inp c1 by simp
  moreover have "emit ?M1 b2 = emit M b2"
    using step_messages [OF step.hyps(2)] step_config [OF step.hyps(2)] by (intro emit_emit)
  ultimately show ?case
    using step.IH step_messages [OF step.hyps(2)] step_config [OF step.hyps(2)] by auto
qed

section \<open>The invariant of the network\<close>

definition sent :: "node_id set \<Rightarrow> node_id set \<Rightarrow> bba_net \<Rightarrow> evidence" where
  "sent U Z s = {(i, m). i \<in> U - Z \<and> ((i, m) \<in> bnWire s \<or> m \<in> set (bbaMessages (bnNodes s i)))}"

definition net_inv :: "Config \<Rightarrow> node_id set \<Rightarrow> node_id set \<Rightarrow> (node_id \<Rightarrow> bool set) \<Rightarrow> bba_net \<Rightarrow> bool" where
  "net_inv cfg U Z inputs s \<longleftrightarrow> bnWire s \<subseteq> (U - Z) \<times> UNIV \<and>
     (\<forall>i \<in> U - Z. bbaConfig (bnNodes s i) = defaultF (cfg\<lparr>cfgID := i\<rparr>) \<and> node_inv U Z (sent U Z s) (bnNodes s i)) \<and>
     origin_inv U Z (cfgN cfg - cfgF (defaultF cfg)) inputs (sent U Z s)"

lemma defaultF_ID [simp]: "cfgF (defaultF (cfg\<lparr>cfgID := i\<rparr>)) = cfgF (defaultF cfg)"
  by (simp add: defaultF_def)

lemma aux_inv_other: "bbaID b \<noteq> i \<Longrightarrow> aux_inv (M \<union> Pair i ` X) b = aux_inv M b"
proof -
  assume "bbaID b \<noteq> i"
  then have "(bbaID b, m) \<in> M \<union> Pair i ` X \<longleftrightarrow> (bbaID b, m) \<in> M" for m by auto
  then show ?thesis by (simp only: aux_inv_def)
qed

lemma node_inv_other: "bbaID b \<noteq> i \<Longrightarrow> node_inv U Z M b \<Longrightarrow> node_inv U Z (M \<union> Pair i ` X) b"
  unfolding node_inv_def using aux_inv_other votes_inv_mono decision_inv_mono by (metis sup_ge1)

lemma net_inv_update:
  assumes net: "net_inv cfg U Z inputs s" and i: "i \<in> U - Z" and cfg: "bbaConfig b' = bbaConfig (bnNodes s i)"
    and msgs: "set (bbaMessages (bnNodes s i)) \<subseteq> set (bbaMessages b')"
    and inv: "sys_inv U Z inputs (emit (sent U Z s) b') b'"
  shows "net_inv cfg U Z inputs (s\<lparr>bnNodes := (bnNodes s)(i := b')\<rparr>)"
proof -
  let ?s = "s\<lparr>bnNodes := (bnNodes s)(i := b')\<rparr>"
  have ci: "bbaConfig b' = defaultF (cfg\<lparr>cfgID := i\<rparr>)" using net i cfg by (simp add: net_inv_def)
  have sent': "sent U Z ?s = sent U Z s \<union> Pair i ` set (bbaMessages b')"
    using i msgs by (auto simp: sent_def split: if_splits)
  then have emit': "sent U Z ?s = emit (sent U Z s) b'" by (simp add: emit_def ci)
  have "node_inv U Z (sent U Z ?s) (bnNodes s k)" if "k \<in> U - Z" "k \<noteq> i" for k
    using net that unfolding sent' by (intro node_inv_other) (auto simp: net_inv_def)
  then show ?thesis
    using net inv ci i emit' by (simp add: net_inv_def sys_inv_def)
qed

lemma net_inv_init:
  "net_inv cfg U Z inputs \<lparr>bnNodes = (\<lambda>i. newBBA (cfg\<lparr>cfgID := i\<rparr>) p), bnWire = {}\<rparr>"
  by (simp add: net_inv_def sent_def newBBA_def node_inv_def votes_inv_def aux_inv_def decision_inv_def
      origin_inv_def newBvalSet_def)

lemma deliverable_justified:
  "justified U Z (sent U Z s) (deliverable U Z (bnWire s))" if "bnWire s \<subseteq> (U - Z) \<times> UNIV"
  using that by (auto simp: justified_def deliverable_def seen_def sent_def)

lemma node_facts:
  assumes net: "net_inv cfg U Z inputs s" and i: "i \<in> U - Z"
  shows "sys_inv U Z inputs (sent U Z s) (bnNodes s i)" "accounted (sent U Z s) (bnNodes s i)"
    "bbaN (bnNodes s i) = cfgN cfg" "bbaF (bnNodes s i) = cfgF (defaultF cfg)" "bbaID (bnNodes s i) = i"
    "wf_map (recvAux (bnNodes s i))"
    "justified U Z (sent U Z s) (deliverable U Z (bnWire s) \<union> set (delayedMessages (bnNodes s i)))"
proof -
  show cfg: "bbaN (bnNodes s i) = cfgN cfg" "bbaF (bnNodes s i) = cfgF (defaultF cfg)"
    "bbaID (bnNodes s i) = i" using net i by (auto simp: net_inv_def)
  show "sys_inv U Z inputs (sent U Z s) (bnNodes s i)"
    using net i cfg by (simp add: net_inv_def sys_inv_def)
  show "accounted (sent U Z s) (bnNodes s i)" using i cfg by (auto simp: accounted_def sent_def)
  show "wf_map (recvAux (bnNodes s i))"
    using net i by (auto simp: net_inv_def node_inv_def votes_inv_def)
  show "justified U Z (sent U Z s) (deliverable U Z (bnWire s) \<union> set (delayedMessages (bnNodes s i)))"
    using net i deliverable_justified [of s U Z]
    by (auto simp: net_inv_def node_inv_def votes_inv_def justified_def)
qed

lemma net_inv_run:
  assumes net: "net_inv cfg U Z inputs s" and fm: "fault_model U Z (cfgN cfg) (cfgF (defaultF cfg))"
    and i: "i \<in> U - Z" and inp: "In \<subseteq> inputs i"
    and run: "(bba_step In (deliverable U Z (bnWire s) \<union> set (delayedMessages (bnNodes s i))))\<^sup>*\<^sup>* (bnNodes s i) b'"
  shows "net_inv cfg U Z inputs (s\<lparr>bnNodes := (bnNodes s)(i := b')\<rparr>)"
proof -
  note nf = node_facts [OF net i]
  have "sys_inv U Z inputs (emit (sent U Z s) b') b' \<and> bbaConfig b' = bbaConfig (bnNodes s i) \<and>
      set (bbaMessages (bnNodes s i)) \<subseteq> set (bbaMessages b')"
    using run_inv [OF run nf(1) _ nf(7) nf(2)] fm i inp nf(3-5) by simp
  then show ?thesis using net_inv_update [OF net i] by blast
qed

lemma same_nodes_inv:
  assumes net: "net_inv cfg U Z inputs s" and i: "i \<in> U - Z"
    and "sent U Z s' = sent U Z s" and "bnWire s' \<subseteq> (U - Z) \<times> UNIV" and "bnNodes s' = (bnNodes s)(i := b')"
    and "bbaConfig b' = bbaConfig (bnNodes s i)" and "node_inv U Z (sent U Z s) b'"
  shows "net_inv cfg U Z inputs s'"
  using assms by (simp add: net_inv_def)

lemma reach_inv:
  assumes "bba_reach cfg p U Z inputs s" and fm: "fault_model U Z (cfgN cfg) (cfgF (defaultF cfg))"
    and n: "2 \<le> cfgN cfg"
  shows "net_inv cfg U Z inputs s"
  using assms(1)
proof (induction rule: bba_reach.induct)
  case init
  show ?case by (rule net_inv_init)
next
  case (deliver s i j m e b')
  note nf = node_facts [OF deliver.IH deliver.hyps(2)]
  let ?Ev = "deliverable U Z (bnWire s) \<union> set (delayedMessages (bnNodes s i))" and ?b = "bnNodes s i"
  have rc: "ready_for_call ?b"
    using nf(3,4,6) deliver.hyps(4) n fm F_nonneg [OF fm] by (auto simp: ready_for_call_def fault_model_def)
  have "insert (j, m) (set (delayedMessages ?b)) \<subseteq> ?Ev" using deliver.hyps(3) by auto
  from HandleMessage_run [OF rc this, of "{}"] deliver.hyps(5)
  have "(bba_step {} ?Ev)\<^sup>*\<^sup>* (?b\<lparr>msgCount := msgCount ?b + 1\<rparr>) b'" by (metis prod.inject)
  then have "(bba_step {} ?Ev)\<^sup>*\<^sup>* ?b b'" using bba_step.counted by (metis converse_rtranclp_into_rtranclp)
  then show ?case using net_inv_run [OF deliver.IH fm deliver.hyps(2), of "{}"] by simp
next
  case (input s i v e b')
  note nf = node_facts [OF input.IH input.hyps(2)]
  let ?Ev = "deliverable U Z (bnWire s) \<union> set (delayedMessages (bnNodes s i))" and ?b = "bnNodes s i"
  have rc: "ready_for_call ?b"
    using nf(3,4,6) input.hyps(4) n fm F_nonneg [OF fm] by (auto simp: ready_for_call_def fault_model_def)
  from InputValue_run [OF rc, of ?Ev v "{v}"] input.hyps(5)
  have "(bba_step {v} ?Ev)\<^sup>*\<^sup>* ?b b'" by (metis Un_upper2 insertI1 prod.inject)
  then show ?case using net_inv_run [OF input.IH fm input.hyps(2), of "{v}"] input.hyps(3) by simp
next
  case (send s i ms b')
  then have b': "b' = bnNodes s i\<lparr>bbaMessages := []\<rparr>" "ms = bbaMessages (bnNodes s i)"
    by (auto simp: bba_takeMessages_def)
  show ?case
  proof (rule same_nodes_inv [OF send.IH send.hyps(2), where b' = b'])
    let ?s = "s\<lparr>bnNodes := (bnNodes s)(i := b'), bnWire := bnWire s \<union> Pair i ` set ms\<rparr>"
    show "sent U Z ?s = sent U Z s" using send.hyps(2) b' by (auto simp: sent_def split: if_splits)
    show "bnWire ?s \<subseteq> (U - Z) \<times> UNIV" using send.IH send.hyps(2) by (auto simp: net_inv_def)
    have "node_inv U Z (sent U Z s) (bnNodes s i)" using send.IH send.hyps(2) by (simp add: net_inv_def)
    then show "node_inv U Z (sent U Z s) b'"
      unfolding b' by (simp add: node_inv_def votes_inv_def aux_inv_def decision_inv_def)
  qed (simp_all add: b')
next
  case (take_output s i out b')
  then have b': "b' = bnNodes s i\<lparr>bbaOutput := None\<rparr>"
    by (auto simp: bba_takeOutput_def split: option.splits)
  show ?case
  proof (rule same_nodes_inv [OF take_output.IH take_output.hyps(2), where b' = b'])
    let ?s = "s\<lparr>bnNodes := (bnNodes s)(i := b')\<rparr>"
    show "sent U Z ?s = sent U Z s" using take_output.hyps(2) b' by (auto simp: sent_def split: if_splits)
    show "bnWire ?s \<subseteq> (U - Z) \<times> UNIV" using take_output.IH by (auto simp: net_inv_def)
    have "node_inv U Z (sent U Z s) (bnNodes s i)" using take_output.IH take_output.hyps(2) by (simp add: net_inv_def)
    then show "node_inv U Z (sent U Z s) b'"
      unfolding b' by (simp add: node_inv_def votes_inv_def aux_inv_def decision_inv_def)
  qed (simp_all add: b')
qed

section \<open>Agreement and validity\<close>

definition aux_unique :: "node_id set \<Rightarrow> node_id set \<Rightarrow> evidence \<Rightarrow> bool" where
  "aux_unique U Z M \<longleftrightarrow>
     (\<forall>i \<in> U - Z. \<forall>e x y. (i, auxMsg e x) \<in> M \<longrightarrow> (i, auxMsg e y) \<in> M \<longrightarrow> x = y)"

lemma supported_origin: "origin_inv U Z q inputs M \<Longrightarrow> supported U Z M e w \<Longrightarrow> origin U Z q inputs M e w"
  by (auto simp: supported_def origin_inv_def)

lemma completed_quorum:
  "completed U Z q M e vs \<Longrightarrow>
   \<exists>Q. Q \<subseteq> U \<and> q \<le> int (card Q) \<and> (\<forall>j. j \<in> Q \<longrightarrow> j \<notin> Z \<longrightarrow> (\<exists>x \<in> set vs. (j, auxMsg e x) \<in> M))"
  unfolding completed_def by metis

lemma quorums_share_aux:
  assumes fm: "fault_model U Z N F" and "completed U Z (N - F) M e [v]" and "completed U Z (N - F) M e vs"
    and uniq: "aux_unique U Z M"
  shows "v \<in> set vs"
proof -
  from completed_quorum [OF assms(2)] obtain Q where Q: "Q \<subseteq> U" "N - F \<le> int (card Q)"
    "\<forall>j. j \<in> Q \<longrightarrow> j \<notin> Z \<longrightarrow> (\<exists>x \<in> set [v]. (j, auxMsg e x) \<in> M)" by (elim exE conjE)
  from completed_quorum [OF assms(3)] obtain R where R: "R \<subseteq> U" "N - F \<le> int (card R)"
    "\<forall>j. j \<in> R \<longrightarrow> j \<notin> Z \<longrightarrow> (\<exists>x \<in> set vs. (j, auxMsg e x) \<in> M)" by (elim exE conjE)
  have U: "finite U" "Z \<subseteq> U" using fm by (auto simp: fault_model_def)
  have "card U + card Z < card Q + card R" using fm Q(2) R(2) by (auto simp: fault_model_def)
  then obtain j where j: "j \<in> Q" "j \<in> R" "j \<notin> Z"
    using quorum_intersect [OF U(1) Q(1) R(1) U(2)] by blast
  obtain x where x: "x \<in> set vs" "(j, auxMsg e x) \<in> M" using R(3) j by blast
  have v: "(j, auxMsg e v) \<in> M" using Q(3) j by simp
  have "j \<in> U - Z" using j Q(1) by blast
  then have "x = v" using uniq x(2) v unfolding aux_unique_def by blast
  then show ?thesis using x by simp
qed

lemma nextEstimate_mem: "v \<in> set vs \<Longrightarrow> coin e = v \<Longrightarrow> nextEstimate e vs = v"
  by (cases vs rule: remdups_adj.cases) (auto simp: nextEstimate_def)

lemma completed_single:
  assumes "completed U Z q M e vs" and "\<And>w. supported U Z M e w \<Longrightarrow> w = v"
  shows "vs = [v]"
proof -
  have "distinct vs" "vs \<noteq> []" "\<forall>x \<in> set vs. x = v" using assms by (auto simp: completed_def)
  then show ?thesis by (cases vs rule: remdups_adj.cases) auto
qed

lemma lock_after_decision:
  assumes fm: "fault_model U Z N F" and d: "completed U Z (N - F) M e [v]" and cn: "coin e = v"
    and oi: "origin_inv U Z (N - F) inputs M" and uniq: "aux_unique U Z M"
  shows "supported U Z M (Suc (e + n)) w \<Longrightarrow> w = v"
proof (induction n arbitrary: w)
  case 0
  then obtain vs where vs: "completed U Z (N - F) M e vs" "nextEstimate e vs = w"
    using supported_origin [OF oi] by (fastforce simp: origin_def)
  then show ?case using quorums_share_aux [OF fm d vs(1) uniq] cn nextEstimate_mem by blast
next
  case (Suc n)
  then obtain vs where vs: "completed U Z (N - F) M (Suc (e + n)) vs" "nextEstimate (Suc (e + n)) vs = w"
    using supported_origin [OF oi] by (fastforce simp: origin_def)
  then show ?case using completed_single [OF vs(1) Suc.IH] by (simp add: nextEstimate_def)
qed

lemma decided_equal:
  assumes fm: "fault_model U Z N F" and oi: "origin_inv U Z (N - F) inputs M" and uniq: "aux_unique U Z M"
    and "completed U Z (N - F) M e [v]" "coin e = v" "completed U Z (N - F) M e' [v']" "coin e' = v'" "e \<le> e'"
  shows "v = v'"
proof (cases "e = e'")
  case True
  then show ?thesis using assms by simp
next
  case False
  then obtain n where n: "e' = Suc (e + n)" using \<open>e \<le> e'\<close> by (metis add_Suc_right le_imp_less_or_eq less_imp_Suc_add)
  have "supported U Z M e' v'" using assms(6) by (simp add: completed_def)
  then show ?thesis using lock_after_decision [OF fm assms(4,5) oi uniq] n by simp
qed

lemma unanimous_supported:
  assumes oi: "origin_inv U Z q inputs M" and inp: "\<And>k. k \<in> U - Z \<Longrightarrow> inputs k \<subseteq> {v}"
  shows "supported U Z M e w \<Longrightarrow> w = v"
proof (induction e arbitrary: w)
  case 0
  then have "\<exists>k \<in> U - Z. w \<in> inputs k" using supported_origin [OF oi] by (fastforce simp: origin_def)
  then show ?case using inp by blast
next
  case (Suc e)
  then obtain vs where vs: "completed U Z q M e vs" "nextEstimate e vs = w"
    using supported_origin [OF oi] by (fastforce simp: origin_def)
  then show ?case using completed_single [OF vs(1) Suc.IH] by (simp add: nextEstimate_def)
qed

lemma reach_aux_unique:
  assumes "net_inv cfg U Z inputs s"
  shows "aux_unique U Z (sent U Z s)"
  unfolding aux_unique_def
proof (intro ballI)
  fix i
  assume i: "i \<in> U - Z"
  then have "aux_inv (sent U Z s) (bnNodes s i)" using assms by (simp add: net_inv_def node_inv_def)
  then show "\<forall>e x y. (i, auxMsg e x) \<in> sent U Z s \<longrightarrow> (i, auxMsg e y) \<in> sent U Z s \<longrightarrow> x = y"
    unfolding aux_inv_def node_facts(5) [OF assms i] by (rule conjunct2)
qed

lemma reach_decision:
  assumes "net_inv cfg U Z inputs s" and "i \<in> U - Z" and "decision (bnNodes s i) = Some v"
  obtains e where "coin e = v" "completed U Z (cfgN cfg - cfgF (defaultF cfg)) (sent U Z s) e [v]"
proof -
  have "decision_inv U Z (sent U Z s) (bnNodes s i)" using assms(1,2) by (simp add: net_inv_def node_inv_def)
  then show ?thesis
    using assms(3) that node_facts(3,4) [OF assms(1,2)] by (auto simp: decision_inv_def)
qed

section \<open>Executing a schedule\<close>

datatype bba_action = Deliver node_id node_id AgreementMessage | Input node_id bool | Send node_id

definition in_range :: "BBA \<Rightarrow> bool" where
  "in_range b \<longleftrightarrow> int (epoch b) + int (length (delayedMessages b)) + 3 < 4294967296"

fun exec_action :: "node_id list \<Rightarrow> node_id list \<Rightarrow> bba_action \<Rightarrow> (node_id \<Rightarrow> BBA) \<times> (node_id \<times> AgreementMessage) list \<Rightarrow>
    ((node_id \<Rightarrow> BBA) \<times> (node_id \<times> AgreementMessage) list) option" where
  "exec_action C Z (Deliver i j m) (ns, w) =
     (if i \<in> set C \<and> (j \<in> set Z \<or> j \<in> set C \<and> (j, m) \<in> set w) \<and> in_range (ns i)
      then Some (ns(i := snd (bba_HandleMessage j m (ns i))), w) else None)"
| "exec_action C Z (Input i v) (ns, w) =
     (if i \<in> set C \<and> in_range (ns i) then Some (ns(i := snd (bba_InputValue v (ns i))), w) else None)"
| "exec_action C Z (Send i) (ns, w) =
     (if i \<in> set C
      then Some (ns(i := snd (bba_takeMessages (ns i))), w @ map (Pair i) (fst (bba_takeMessages (ns i)))) else None)"

lemma in_range_iff: "in_range b \<longleftrightarrow> epoch b + length (delayedMessages b) + 3 < 2 ^ 32"
proof -
  have "(2::nat) ^ 32 = 4294967296" by simp
  then show ?thesis unfolding in_range_def by linarith
qed

lemma exec_action_reach:
  assumes "exec_action C Z a (ns, w) = Some (ns', w')" and dis: "set C \<inter> set Z = {}"
    and "bba_reach cfg p (set C \<union> set Z) (set Z) inputs \<lparr>bnNodes = ns, bnWire = set w\<rparr>"
    and inp: "\<And>i v. a = Input i v \<Longrightarrow> v \<in> inputs i"
  shows "bba_reach cfg p (set C \<union> set Z) (set Z) inputs \<lparr>bnNodes = ns', bnWire = set w'\<rparr>"
proof (cases a)
  case (Deliver i j m)
  let ?s = "\<lparr>bnNodes = ns, bnWire = set w\<rparr>"
  have "i \<in> set C \<union> set Z - set Z" "(j, m) \<in> deliverable (set C \<union> set Z) (set Z) (bnWire ?s)"
    "epoch (bnNodes ?s i) + length (delayedMessages (bnNodes ?s i)) + 3 < 2 ^ 32"
    using assms(1) dis Deliver by (auto simp: deliverable_def in_range_iff split: if_splits)
  from bba_reach.deliver [OF assms(3) this surjective_pairing]
  show ?thesis using assms(1) Deliver by (auto split: if_splits)
next
  case (Input i v)
  let ?s = "\<lparr>bnNodes = ns, bnWire = set w\<rparr>"
  have "i \<in> set C \<union> set Z - set Z" "v \<in> inputs i"
    "epoch (bnNodes ?s i) + length (delayedMessages (bnNodes ?s i)) + 3 < 2 ^ 32"
    using assms(1) dis inp Input by (auto simp: in_range_iff split: if_splits)
  from bba_reach.input [OF assms(3) this surjective_pairing]
  show ?thesis using assms(1) Input by (auto split: if_splits)
next
  case (Send i)
  have "i \<in> set C \<union> set Z - set Z" using assms(1) dis Send by (auto split: if_splits)
  from bba_reach.send [OF assms(3) this surjective_pairing]
  show ?thesis using assms(1) Send by (auto split: if_splits)
qed

lemma exec_reach:
  assumes "bind_fold (exec_action C Z) as (ns, w) = Some (ns', w')" and dis: "set C \<inter> set Z = {}"
    and "bba_reach cfg p (set C \<union> set Z) (set Z) inputs \<lparr>bnNodes = ns, bnWire = set w\<rparr>"
    and inp: "\<forall>i v. Input i v \<in> set as \<longrightarrow> v \<in> inputs i"
  shows "bba_reach cfg p (set C \<union> set Z) (set Z) inputs \<lparr>bnNodes = ns', bnWire = set w'\<rparr>"
  using assms(1,3,4)
proof (induction as arbitrary: ns w)
  case Nil
  then show ?case by simp
next
  case (Cons a as)
  then obtain ns1 w1 where "exec_action C Z a (ns, w) = Some (ns1, w1)"
    "bind_fold (exec_action C Z) as (ns1, w1) = Some (ns', w')" by (auto split: option.splits)
  then show ?case
    using Cons.IH exec_action_reach [OF _ dis Cons.prems(2), of a] Cons.prems(3) by (metis list.set_intros)
qed

text \<open>
  A schedule for four nodes, of which node 3 is faulty and sends conflicting votes; nodes 0
  and 1 decide.
\<close>

definition demo_cfg :: Config where
  "demo_cfg = \<lparr>cfgN = 4, cfgF = 0, cfgID = 0, cfgNodes = [0, 1, 2, 3], cfgBatchSize = 0\<rparr>"

definition demo_schedule :: "bba_action list" where
  "demo_schedule =
     [Input 0 True, Input 1 True, Input 2 True, Send 0, Send 1, Send 2,
      Deliver 0 3 (bvalMsg 0 False), Deliver 0 1 (bvalMsg 0 True), Deliver 0 2 (bvalMsg 0 True),
      Deliver 1 0 (bvalMsg 0 True), Deliver 1 3 (bvalMsg 0 True),
      Deliver 2 0 (bvalMsg 0 True), Deliver 2 1 (bvalMsg 0 True), Send 0, Send 1, Send 2,
      Deliver 0 3 (auxMsg 0 False), Deliver 0 1 (auxMsg 0 True), Deliver 0 2 (auxMsg 0 True),
      Deliver 1 3 (auxMsg 0 True), Deliver 1 0 (auxMsg 0 True)]"

definition demo_start :: "(node_id \<Rightarrow> BBA) \<times> (node_id \<times> AgreementMessage) list" where
  "demo_start = (\<lambda>i. newBBA (demo_cfg\<lparr>cfgID := i\<rparr>) 0, [])"

definition demo_end :: "(node_id \<Rightarrow> BBA) \<times> (node_id \<times> AgreementMessage) list" where
  "demo_end = the (bind_fold (exec_action [0, 1, 2] [3]) demo_schedule demo_start)"

lemma demo_runs:
  "bind_fold (exec_action [0, 1, 2] [3]) demo_schedule demo_start \<noteq> None \<and>
   decision (fst demo_end 0) = Some True \<and> decision (fst demo_end 1) = Some True"
  by code_simp


definition demo_state :: bba_net where
  "demo_state = \<lparr>bnNodes = fst demo_end, bnWire = set (snd demo_end)\<rparr>"

lemma demo_reach: "bba_reach demo_cfg 0 {0, 1, 2, 3} {3} (\<lambda>_. {True}) demo_state"
proof -
  obtain ns w where e: "bind_fold (exec_action [0, 1, 2] [3]) demo_schedule demo_start = Some (ns, w)"
    using demo_runs by auto
  have d: "demo_state = \<lparr>bnNodes = ns, bnWire = set w\<rparr>" unfolding demo_state_def demo_end_def e by simp
  have "bba_reach demo_cfg 0 {0, 1, 2, 3} {3} (\<lambda>_. {True})
      \<lparr>bnNodes = (\<lambda>i. newBBA (demo_cfg\<lparr>cfgID := i\<rparr>) 0), bnWire = {}\<rparr>"
    by (rule bba_reach.init)
  moreover have "\<forall>i v. Input i v \<in> set demo_schedule \<longrightarrow> v \<in> {True}"
    by (auto simp: demo_schedule_def)
  ultimately show ?thesis
    unfolding d using exec_reach [OF e [unfolded demo_start_def], of demo_cfg 0 "\<lambda>_. {True}"]
    by (simp add: insert_commute)
qed

lemma demo_faults: "fault_model {0, 1, 2, 3} {3} (cfgN demo_cfg) (cfgF (defaultF demo_cfg))" "2 \<le> cfgN demo_cfg"
  by (simp_all add: fault_model_def demo_cfg_def defaultF_def)

lemma demo_decisions: "decision (bnNodes demo_state 0) = Some True" "decision (bnNodes demo_state 1) = Some True"
  using demo_runs by (simp_all add: demo_state_def)

section \<open>Properties\<close>

text \<open>
  C1. Agreement of the binary consensus: with at most \<open>F\<close> faulty nodes out of \<open>N > 3F\<close>, no
  two correct nodes decide different values, whatever the faulty nodes send and in whatever
  order messages are delivered.
\<close>

theorem bba_agreement:
  assumes "bba_reach cfg p U Z inputs s" and "fault_model U Z (cfgN cfg) (cfgF (defaultF cfg))" and "2 \<le> cfgN cfg"
    and "i \<in> U - Z" and "decision (bnNodes s i) = Some v"
    and "j \<in> U - Z" and "decision (bnNodes s j) = Some w"
  shows "v = w"
proof -
  note inv = reach_inv [OF assms(1-3)]
  have oi: "origin_inv U Z (cfgN cfg - cfgF (defaultF cfg)) inputs (sent U Z s)" using inv by (simp add: net_inv_def)
  obtain e where e: "coin e = v" "completed U Z (cfgN cfg - cfgF (defaultF cfg)) (sent U Z s) e [v]"
    using reach_decision [OF inv assms(4,5)] .
  obtain e' where e': "coin e' = w" "completed U Z (cfgN cfg - cfgF (defaultF cfg)) (sent U Z s) e' [w]"
    using reach_decision [OF inv assms(6,7)] .
  note eq = decided_equal [OF assms(2) oi reach_aux_unique [OF inv]]
  show ?thesis using eq [OF e(2,1) e'(2,1)] eq [OF e'(2,1) e(2,1)] by (cases "e \<le> e'") auto
qed

theorem bba_agreement_witness:
  "decision (bnNodes demo_state 0) = Some True \<and> decision (bnNodes demo_state 1) = Some True \<and> True = True"
  using bba_agreement [OF demo_reach demo_faults(1) demo_faults(2) _ demo_decisions(1) _ demo_decisions(2)]
    demo_decisions by simp

text \<open>
  C12. Validity of the binary consensus: if every correct node that is given an input is given
  the value \<open>v\<close>, then no correct node decides anything else.
\<close>

theorem bba_validity:
  assumes "bba_reach cfg p U Z inputs s" and "fault_model U Z (cfgN cfg) (cfgF (defaultF cfg))" and "2 \<le> cfgN cfg"
    and "\<And>k. k \<in> U - Z \<Longrightarrow> inputs k \<subseteq> {v}"
    and "i \<in> U - Z" and "decision (bnNodes s i) = Some w"
  shows "w = v"
proof -
  note inv = reach_inv [OF assms(1-3)]
  have oi: "origin_inv U Z (cfgN cfg - cfgF (defaultF cfg)) inputs (sent U Z s)" using inv by (simp add: net_inv_def)
  obtain e where e: "coin e = w" "completed U Z (cfgN cfg - cfgF (defaultF cfg)) (sent U Z s) e [w]"
    using reach_decision [OF inv assms(5,6)] .
  have "supported U Z (sent U Z s) e w" using e(2) by (simp add: completed_def)
  then show ?thesis using unanimous_supported [OF oi assms(4)] by blast
qed

theorem bba_validity_witness: "decision (bnNodes demo_state 1) = Some True \<and> True = True"
  using bba_validity [OF demo_reach demo_faults(1) demo_faults(2) _ _ demo_decisions(2)] demo_decisions by simp

text \<open>
  C23. The mutual recursion of the handlers ends: while the epoch is far enough from the end of
  the \<^verbatim>\<open>uint32\<close> range for every delayed message to complete one epoch, handling a message
  returns (with an error exactly for a payload of unknown type at the current epoch), and
  handing in an input returns without error.
\<close>

theorem bba_calls_return:
  assumes "2 \<le> bbaN b - bbaF b" and "wf_map (recvAux b)"
    and "epoch b + length (delayedMessages b) + 3 < 2 ^ 32"
  shows "fst (bba_HandleMessage sid m b) =
      (if \<not> bbaDone b \<and> amEpoch m = int (epoch b) \<and> amMessage m = UnknownAgreement
       then Err UnknownBBAMessage else NoErr) \<and>
    fst (bba_InputValue v b) = NoErr"
proof -
  have rc: "ready_for_call b" using assms by (simp add: ready_for_call_def)
  obtain e b' where h: "bba_HandleMessage sid m b = (e, b')" "e = NoErr \<or> e = Err UnknownBBAMessage"
    using HandleMessage_run [OF rc subset_UNIV, of sid m "{}"] by metis
  have err: "bba_handle (Suc n) sid m b0 = Some (Some x, b1) \<longleftrightarrow>
      x = UnknownBBAMessage \<and> b1 = b0 \<and> \<not> bbaDone b0 \<and> amEpoch m = int (epoch b0) \<and> amMessage m = UnknownAgreement"
    for n b0 b1 x by (cases "amMessage m") (auto simp: map_option_case split: option.splits)
  obtain n where n: "bba_fuel (b\<lparr>msgCount := msgCount b + 1\<rparr>) = Suc n" by (simp add: bba_fuel_def)
  have "fst (bba_HandleMessage sid m b) = Err UnknownBBAMessage \<longleftrightarrow>
      \<not> bbaDone b \<and> amEpoch m = int (epoch b) \<and> amMessage m = UnknownAgreement"
  proof -
    let ?b = "b\<lparr>msgCount := msgCount b + 1\<rparr>"
    have "fst (bba_HandleMessage sid m b) = Err UnknownBBAMessage \<longleftrightarrow>
        (\<exists>b1. bba_handle (Suc n) sid m ?b = Some (Some UnknownBBAMessage, b1))"
      unfolding bba_HandleMessage_def Let_def n
      by (auto simp del: bba_handle.simps split: option.splits)
    then show ?thesis using err [of n ?b UnknownBBAMessage] by simp
  qed
  moreover have "fst (bba_InputValue v b) = NoErr"
    using InputValue_run [OF rc subset_UNIV, of v "{v}"] by (metis fst_conv insertI1)
  ultimately show ?thesis using h by auto
qed

theorem bba_calls_return_witness:
  "fst (bba_HandleMessage 1 (bvalMsg 0 True) (newBBA demo_cfg 0)) = NoErr"
  using bba_calls_return [of "newBBA demo_cfg 0" 1 "bvalMsg 0 True"]
  by (simp add: newBBA_def demo_cfg_def defaultF_def NewAgreementMessage_def)

lemma step_decided: "bba_step In Ev b b' \<Longrightarrow> decision b = Some v \<Longrightarrow> decision b' = Some v"
  by (induction rule: bba_step.induct) (auto simp: decides_def)

lemma run_decided: "(bba_step In Ev)\<^sup>*\<^sup>* b b' \<Longrightarrow> decision b = Some v \<Longrightarrow> decision b' = Some v"
  by (induction rule: rtranclp_induct) (auto intro: step_decided)

text \<open>
  A decision is final: no message and no input handed to a node that has decided \<open>v\<close>
  changes its decision.
\<close>

theorem bba_decision_final:
  assumes "2 \<le> bbaN b - bbaF b" and "wf_map (recvAux b)"
    and "epoch b + length (delayedMessages b) + 3 < 2 ^ 32" and "decision b = Some v"
  shows "decision (snd (bba_HandleMessage sid m b)) = Some v \<and> decision (snd (bba_InputValue w b)) = Some v"
proof -
  have rc: "ready_for_call b" using assms by (simp add: ready_for_call_def)
  obtain e b1 where h: "bba_HandleMessage sid m b = (e, b1)"
    "(bba_step {} UNIV)\<^sup>*\<^sup>* (b\<lparr>msgCount := msgCount b + 1\<rparr>) b1"
    using HandleMessage_run [OF rc subset_UNIV, of sid m "{}"] by metis
  obtain b2 where i: "bba_InputValue w b = (NoErr, b2)" "(bba_step {w} UNIV)\<^sup>*\<^sup>* b b2"
    using InputValue_run [OF rc subset_UNIV, of w "{w}"] by (metis insertI1)
  show ?thesis using h i run_decided assms(4) by fastforce
qed

theorem bba_decision_final_witness:
  "decision (snd (bba_HandleMessage 2 (bvalMsg 1 False) (fst demo_end 0))) = Some True"
proof -
  have "2 \<le> bbaN (fst demo_end 0) - bbaF (fst demo_end 0) \<and> wf_map (recvAux (fst demo_end 0)) \<and>
      int (epoch (fst demo_end 0)) + int (length (delayedMessages (fst demo_end 0))) < 10"
    by code_simp
  then show ?thesis using bba_decision_final [of "fst demo_end 0" True 2 "bvalMsg 1 False"] demo_runs by auto
qed


end
