(* ===== verification/Rbc_Agreement.thy ===== *)
theory Rbc_Agreement
  imports Rbc Bba_Agreement
begin

text \<open>
  Agreement and validity of the reliable broadcast, for the handlers as they are written.

  The proof follows the pattern of the binary agreement: the handlers are runs of small
  steps (\<open>rbc_step\<close>), \<open>rbc_reach\<close> is the set of states a network of nodes running
  \<^verbatim>\<open>rbc.go\<close> can get into, and the invariant speaks about the messages the correct nodes have
  produced: one echo and one ready per node, every ready backed by a quorum of echos, every
  echo of a correct proposer's proof, every output backed by a quorum of echos for its root.
\<close>

section \<open>The handlers as runs of small steps\<close>

type_synonym rbc_evidence = "(node_id \<times> BroadcastMessage) set"

definition rbacked :: "rbc_evidence \<Rightarrow> RBC \<Rightarrow> node_id \<Rightarrow> BroadcastMessage \<Rightarrow> bool" where
  "rbacked Ev r sid m \<longleftrightarrow> (sid, m) \<in> Ev \<or> (sid = rbcID r \<and> m \<in> set (rbcMessages r))"

definition rootOf :: "rbc_lib \<Rightarrow> bytes list \<Rightarrow> bytes" where
  "rootOf L shards = prRootHash (proveAt L shards 0)"

inductive rbc_step :: "rbc_lib \<Rightarrow> rbc_evidence \<Rightarrow> RBC \<Rightarrow> RBC \<Rightarrow> bool" for L Ev where
  log: "rbc_step L Ev r (rbc_log c r)"
| echo_in: "rbacked Ev r sid (EchoMsg q) \<Longrightarrow> sid \<notin> keys_of (recvEchos r) \<Longrightarrow> validateProof L q \<Longrightarrow>
    rbc_step L Ev r (r\<lparr>recvEchos := AList.update sid q (recvEchos r)\<rparr>)"
| ready_in: "rbacked Ev r sid (ReadyMsg h) \<Longrightarrow> sid \<notin> keys_of (recvReadys r) \<Longrightarrow>
    rbc_step L Ev r (r\<lparr>recvReadys := AList.update sid h (recvReadys r)\<rparr>)"
| echo_out: "(rbcProposerID r, ProofMsg q) \<in> Ev \<Longrightarrow> \<not> echoSent r \<Longrightarrow> validateProof L q \<Longrightarrow>
    rbc_step L Ev r (r\<lparr>echoSent := True, rbcMessages := rbcMessages r @ [EchoMsg q]\<rparr>)"
| ready_out: "\<not> readySent r \<Longrightarrow> rbcID r \<notin> keys_of (recvReadys r) \<Longrightarrow>
    rbcN r - rbcF r \<le> int (countEchos h r) \<or> rbcF r + 1 \<le> int (countReadys h r) \<Longrightarrow>
    rbc_step L Ev r (r\<lparr>recvReadys := AList.update (rbcID r) h (recvReadys r), readySent := True,
      rbcMessages := rbcMessages r @ [ReadyMsg h]\<rparr>)"
| decode: "\<not> outputDecoded r \<Longrightarrow> 2 * rbcF r < int (countReadys h r) \<Longrightarrow> rbcF r < int (countEchos h r) \<Longrightarrow>
    rootOf L full = h \<Longrightarrow> full \<noteq> [] \<Longrightarrow>
    rbc_step L Ev r (storeOutput (concat (take (nat (numDataShards r)) full)) r)"

lemma rbc_log_fields [frame_simps, simp]:
  "rbcConfig (rbc_log c r) = rbcConfig r" "rbcProposerID (rbc_log c r) = rbcProposerID r"
  "recvReadys (rbc_log c r) = recvReadys r" "recvEchos (rbc_log c r) = recvEchos r"
  "numParityShards (rbc_log c r) = numParityShards r" "numDataShards (rbc_log c r) = numDataShards r"
  "rbcMessages (rbc_log c r) = rbcMessages r" "echoSent (rbc_log c r) = echoSent r"
  "readySent (rbc_log c r) = readySent r" "outputDecoded (rbc_log c r) = outputDecoded r"
  "rbcOutput (rbc_log c r) = rbcOutput r"
  by (simp_all add: rbc_log_def)

lemma storeOutput_fields [frame_simps, simp]:
  "rbcConfig (storeOutput v r) = rbcConfig r" "rbcProposerID (storeOutput v r) = rbcProposerID r"
  "recvReadys (storeOutput v r) = recvReadys r" "recvEchos (storeOutput v r) = recvEchos r"
  "numDataShards (storeOutput v r) = numDataShards r" "numParityShards (storeOutput v r) = numParityShards r"
  "rbcMessages (storeOutput v r) = rbcMessages r" "echoSent (storeOutput v r) = echoSent r"
  "readySent (storeOutput v r) = readySent r"
  "rbcOutput (storeOutput v r) = (if v = [] then None else Some v)"
  by (simp_all add: storeOutput_def)

lemma counts_log [simp]: "countReadys h (rbc_log c r) = countReadys h r" "countEchos h (rbc_log c r) = countEchos h r"
  "echosFor h (rbc_log c r) = echosFor h r"
  by (simp_all add: countReadys_def countEchos_def echosFor_def)

lemma makeProofRequests_Cons:
  "makeProofRequests L full = first # rest \<Longrightarrow> full \<noteq> [] \<and> prRootHash first = rootOf L full"
  by (cases full) (auto simp: makeProofRequests_def rootOf_def upt_rec)

abbreviation rsteps where "rsteps L Ev \<equiv> (rbc_step L Ev)\<^sup>*\<^sup>*"

lemma rsteps_logged: "rsteps L Ev r r' \<Longrightarrow> rsteps L Ev r (rbc_log c r')"
  by (rule rtranclp.rtrancl_into_rtrancl) (auto intro: rbc_step.log)

lemma tryDecode_run: "rsteps L Ev r (snd (tryDecodeValue L h r))"
proof (cases "outputDecoded r \<or> int (countReadys h r) \<le> 2 * rbcF r \<or> int (countEchos h r) \<le> rbcF r")
  case True
  then show ?thesis by (auto simp: tryDecodeValue_def)
next
  case False
  let ?r1 = "rbc_log (CallRBC (rbcProposerID r) traceRBCDecodeEligible) r"
  let ?r2 = "rbc_log (CallRBC (rbcProposerID r) traceRBCReconstructionStarted) ?r1"
  let ?r3 = "rbc_log (CallRBC (rbcProposerID r) traceRBCReconstructionFinished) ?r2"
  have logs: "rsteps L Ev r ?r1" "rsteps L Ev r ?r2" "rsteps L Ev r ?r3" by (intro rsteps_logged rtranclp.rtrancl_refl)+
  have store: "rsteps L Ev r (rbc_log c (storeOutput (concat (take (nat (numDataShards r)) full)) ?r3))"
    if "rootOf L full = h" "full \<noteq> []" for c full
    using logs(3) rbc_step.decode [of ?r3 h L full Ev] False that
    by (intro rsteps_logged) (simp add: rtranclp.rtrancl_into_rtrancl)
  show ?thesis
    using False logs store
    by (auto simp: tryDecodeValue_def Let_def dest: makeProofRequests_Cons split: option.splits list.splits)
qed

lemma emitReady_run:
  assumes "rbcN r - rbcF r \<le> int (countEchos h r) \<or> rbcF r + 1 \<le> int (countReadys h r)"
  shows "rsteps L Ev r (snd (emitReady L h trig r))"
proof -
  let ?r1 = "r\<lparr>recvReadys := AList.update (rbcID r) h (recvReadys r), readySent := True, rbcMessages := rbcMessages r @ [ReadyMsg h]\<rparr>"
  let ?r2 = "rbc_log (CallRBCReady (rbcProposerID r) trig (countEchos h r) (countReadys h r)) ?r1"
  consider "readySent r" | "\<not> readySent r" "rbcID r \<in> keys_of (recvReadys r)"
    | (emit) "\<not> readySent r" "rbcID r \<notin> keys_of (recvReadys r)" by blast
  then show ?thesis
  proof cases
    case emit
    have e: "emitReady L h trig r = tryDecodeValue L h ?r2"
      using emit by (simp add: emitReady_def Let_def)
        (rule arg_cong [where f = "tryDecodeValue L h"], rule RBC.equality, simp_all add: rbc_log_def)
    have "rbc_step L Ev r ?r1" using rbc_step.ready_out [OF emit assms] .
    moreover have "rbc_step L Ev ?r1 ?r2" by (rule rbc_step.log)
    ultimately have "rsteps L Ev r ?r2" by (meson converse_rtranclp_into_rtranclp r_into_rtranclp)
    then show ?thesis unfolding e using tryDecode_run rtranclp_trans by metis
  qed (simp_all add: emitReady_def tryDecode_run)
qed

lemma handleEcho_run:
  assumes "rbacked Ev r sid (EchoMsg q)"
  shows "rsteps L Ev r (snd (handleEchoRequest L sid q r))"
proof (cases "sid \<in> keys_of (recvEchos r) \<or> \<not> validateProof L q")
  case True
  then show ?thesis by (auto simp: handleEchoRequest_def)
next
  case False
  let ?r1 = "r\<lparr>recvEchos := AList.update sid q (recvEchos r)\<rparr>"
  have st: "rbc_step L Ev r ?r1" using rbc_step.echo_in [OF assms] False by simp
  have "rsteps L Ev ?r1 (snd (handleEchoRequest L sid q r))"
    using False tryDecode_run [of L Ev ?r1] emitReady_run [of ?r1 "prRootHash q" L Ev]
    by (auto simp: handleEchoRequest_def Let_def)
  with st show ?thesis by (rule converse_rtranclp_into_rtranclp)
qed

lemma handleReady_run:
  assumes "rbacked Ev r sid (ReadyMsg h)"
  shows "rsteps L Ev r (snd (handleReadyRequest L sid h r))"
proof (cases "sid \<in> keys_of (recvReadys r)")
  case True
  then show ?thesis by (auto simp: handleReadyRequest_def)
next
  case False
  let ?r1 = "r\<lparr>recvReadys := AList.update sid h (recvReadys r)\<rparr>"
  have st: "rbc_step L Ev r ?r1" using rbc_step.ready_in [OF assms] False by simp
  have "rsteps L Ev ?r1 (snd (handleReadyRequest L sid h r))"
    using False tryDecode_run [of L Ev ?r1] emitReady_run [of ?r1 h L Ev]
    by (auto simp: handleReadyRequest_def Let_def)
  with st show ?thesis by (rule converse_rtranclp_into_rtranclp)
qed

lemma handleProof_run:
  assumes "(sid, ProofMsg q) \<in> Ev"
  shows "rsteps L Ev r (snd (handleProofRequest L sid q r))"
proof (cases "sid \<noteq> rbcProposerID r \<or> echoSent r \<or> \<not> validateProof L q")
  case True
  then show ?thesis by (auto simp: handleProofRequest_def)
next
  case False
  let ?r1 = "rbc_log (CallRBC (rbcProposerID r) traceRBCEchoSent) (rbc_log (CallRBC (rbcProposerID r) traceRBCProofAccepted) r)"
  let ?r2 = "?r1\<lparr>echoSent := True, rbcMessages := rbcMessages ?r1 @ [EchoMsg q]\<rparr>"
  have eq: "handleProofRequest L sid q r = handleEchoRequest L (rbcID ?r2) q ?r2"
    using False by (simp add: handleProofRequest_def Let_def)
      (rule arg_cong [where f = "handleEchoRequest L (rbcID r) q"], rule RBC.equality, simp_all add: rbc_log_def)
  have "rsteps L Ev r ?r1" by (intro rsteps_logged rtranclp.rtrancl_refl)
  moreover have "rbc_step L Ev ?r1 ?r2" using rbc_step.echo_out [of ?r1 q Ev L] False assms by simp
  moreover have "rsteps L Ev ?r2 (snd (handleEchoRequest L (rbcID ?r2) q ?r2))"
    by (rule handleEcho_run) (simp add: rbacked_def)
  ultimately show ?thesis unfolding eq
    by (rule rtranclp_trans [OF rtranclp.rtrancl_into_rtrancl])
qed

lemma rbc_handle_run: "(sid, m) \<in> Ev \<Longrightarrow> rsteps L Ev r (snd (rbc_handleMessage L sid m r))"
  by (cases m) (auto simp: rbacked_def intro: handleProof_run handleEcho_run handleReady_run)

lemma rbc_input_run:
  assumes "\<And>q. q \<in> set (makeProofRequests L shards) \<Longrightarrow> (rbcID r, ProofMsg q) \<in> Ev"
    and "makeShards L (numDataShards r) (numParityShards r) data = Some shards"
  shows "rsteps L Ev r (snd (snd (rbc_inputValue L data r)))"
proof (cases shards)
  case Nil
  then show ?thesis using assms(2) by (simp add: rbc_inputValue_def makeBroadcastMessages_def)
next
  case (Cons s ss)
  have mem: "(rbcID r, ProofMsg (proveAt L shards 0)) \<in> Ev"
    using assms(1) [of "proveAt L shards 0"] Cons by (simp add: makeProofRequests_def del: upt_Suc)
  have "makeBroadcastMessages L shards = ProofMsg (proveAt L shards 0) # map (\<lambda>i. ProofMsg (proveAt L shards i)) [1..<length shards]"
    using Cons by (simp add: makeBroadcastMessages_def upt_rec)
  then have "snd (snd (rbc_inputValue L data r)) = snd (handleProofRequest L (rbcID r) (proveAt L shards 0) r)"
    using assms(2) by (simp add: rbc_inputValue_def split: prod.splits status.splits)
  then show ?thesis using handleProof_run [OF mem] by simp
qed


section \<open>The network\<close>

record rbc_net =
  rnNodes :: "node_id \<Rightarrow> RBC"
  rnWire :: rbc_evidence
  rnOut :: "(node_id \<times> bytes) set"

text \<open>
  \<open>inputs\<close> are the values the proposer may be given. A proof request for another participant
  is on the wire once \<^verbatim>\<open>InputValue\<close> has returned it.
\<close>

definition rdeliverable :: "node_id set \<Rightarrow> node_id set \<Rightarrow> rbc_evidence \<Rightarrow> rbc_evidence" where
  "rdeliverable U Z W = {(j, m). j \<in> U \<and> (j \<in> Z \<or> (j, m) \<in> W)}"

inductive rbc_reach :: "rbc_lib \<Rightarrow> Config \<Rightarrow> node_id \<Rightarrow> node_id set \<Rightarrow> node_id set \<Rightarrow> bytes set \<Rightarrow> rbc_net \<Rightarrow> bool"
  for L cfg p U Z inputs where
  init: "(\<And>i. newRBC L (cfg\<lparr>cfgID := i\<rparr>) p = Some (rnNodes s i)) \<Longrightarrow> rnWire s = {} \<Longrightarrow> rnOut s = {} \<Longrightarrow>
    rbc_reach L cfg p U Z inputs s"
| deliver: "rbc_reach L cfg p U Z inputs s \<Longrightarrow> i \<in> U - Z \<Longrightarrow> (j, m) \<in> rdeliverable U Z (rnWire s) \<Longrightarrow>
    rbc_handleMessage L j m (rnNodes s i) = (e, r') \<Longrightarrow>
    rbc_reach L cfg p U Z inputs (s\<lparr>rnNodes := (rnNodes s)(i := r')\<rparr>)"
| input: "rbc_reach L cfg p U Z inputs s \<Longrightarrow> i \<in> U - Z \<Longrightarrow> data \<in> inputs \<Longrightarrow>
    rbc_inputValue L data (rnNodes s i) = (e, ms, r') \<Longrightarrow>
    rbc_reach L cfg p U Z inputs (s\<lparr>rnNodes := (rnNodes s)(i := r'), rnWire := rnWire s \<union> Pair i ` set ms\<rparr>)"
| send: "rbc_reach L cfg p U Z inputs s \<Longrightarrow> i \<in> U - Z \<Longrightarrow> rbc_takeMessages (rnNodes s i) = (ms, r') \<Longrightarrow>
    rbc_reach L cfg p U Z inputs (s\<lparr>rnNodes := (rnNodes s)(i := r'), rnWire := rnWire s \<union> Pair i ` set ms\<rparr>)"
| take_output: "rbc_reach L cfg p U Z inputs s \<Longrightarrow> i \<in> U - Z \<Longrightarrow> rbc_takeOutput (rnNodes s i) = (out, r') \<Longrightarrow>
    rbc_reach L cfg p U Z inputs (s\<lparr>rnNodes := (rnNodes s)(i := r'),
      rnOut := rnOut s \<union> (case out of None \<Rightarrow> {} | Some v \<Rightarrow> {(i, v)})\<rparr>)"

definition delivered :: "rbc_net \<Rightarrow> node_id \<Rightarrow> bytes \<Rightarrow> bool" where
  "delivered s i v \<longleftrightarrow> rbcOutput (rnNodes s i) = Some v \<or> (i, v) \<in> rnOut s"

section \<open>Quorums of echos\<close>

definition rseen :: "node_id set \<Rightarrow> node_id set \<Rightarrow> rbc_evidence \<Rightarrow> node_id \<Rightarrow> BroadcastMessage \<Rightarrow> bool" where
  "rseen U Z M j m \<longleftrightarrow> j \<in> U \<and> (j \<in> Z \<or> (j, m) \<in> M)"

definition echoQuorum :: "node_id set \<Rightarrow> node_id set \<Rightarrow> int \<Rightarrow> rbc_evidence \<Rightarrow> bytes \<Rightarrow> bool" where
  "echoQuorum U Z q M h \<longleftrightarrow> (\<exists>Q \<subseteq> U. q \<le> int (card Q) \<and>
     (\<forall>j \<in> Q. j \<in> Z \<or> (\<exists>pr. prRootHash pr = h \<and> (j, EchoMsg pr) \<in> M)))"

definition genuine :: "rbc_lib \<Rightarrow> int \<Rightarrow> int \<Rightarrow> bytes set \<Rightarrow> ProofRequest \<Rightarrow> bool" where
  "genuine L nd np inputs pr \<longleftrightarrow>
     (\<exists>data \<in> inputs. \<exists>shards. makeShards L nd np data = Some shards \<and> pr \<in> set (makeProofRequests L shards))"

definition outputOf :: "rbc_lib \<Rightarrow> node_id set \<Rightarrow> node_id set \<Rightarrow> int \<Rightarrow> int \<Rightarrow> rbc_evidence \<Rightarrow> bytes \<Rightarrow> bool" where
  "outputOf L U Z q nd M v \<longleftrightarrow> (\<exists>full. full \<noteq> [] \<and> echoQuorum U Z q M (rootOf L full) \<and> v = concat (take (nat nd) full))"

lemma rseen_mono: "M \<subseteq> M' \<Longrightarrow> rseen U Z M j m \<Longrightarrow> rseen U Z M' j m"
  by (auto simp: rseen_def)

lemma echoQuorum_mono: "M \<subseteq> M' \<Longrightarrow> echoQuorum U Z q M h \<Longrightarrow> echoQuorum U Z q M' h"
  unfolding echoQuorum_def by (meson subsetD)

lemma outputOf_mono: "M \<subseteq> M' \<Longrightarrow> outputOf L U Z q nd M v \<Longrightarrow> outputOf L U Z q nd M' v"
  unfolding outputOf_def by (metis echoQuorum_mono)

section \<open>The invariant\<close>

definition recv_inv :: "node_id set \<Rightarrow> node_id set \<Rightarrow> rbc_evidence \<Rightarrow> RBC \<Rightarrow> bool" where
  "recv_inv U Z M r \<longleftrightarrow> wf_map (recvEchos r) \<and> wf_map (recvReadys r) \<and>
     (\<forall>j q. (j, q) \<in> set (recvEchos r) \<longrightarrow> rseen U Z M j (EchoMsg q)) \<and>
     (\<forall>j h. (j, h) \<in> set (recvReadys r) \<longrightarrow> rseen U Z M j (ReadyMsg h))"

definition own_inv :: "rbc_evidence \<Rightarrow> RBC \<Rightarrow> bool" where
  "own_inv M r \<longleftrightarrow>
     (\<forall>q. (rbcID r, EchoMsg q) \<in> M \<longrightarrow> echoSent r) \<and>
     (\<forall>q q'. (rbcID r, EchoMsg q) \<in> M \<longrightarrow> (rbcID r, EchoMsg q') \<in> M \<longrightarrow> q = q') \<and>
     (\<forall>h. (rbcID r, ReadyMsg h) \<in> M \<longrightarrow> readySent r) \<and>
     (\<forall>h h'. (rbcID r, ReadyMsg h) \<in> M \<longrightarrow> (rbcID r, ReadyMsg h') \<in> M \<longrightarrow> h = h')"

definition out_inv :: "rbc_lib \<Rightarrow> node_id set \<Rightarrow> node_id set \<Rightarrow> rbc_evidence \<Rightarrow> RBC \<Rightarrow> bool" where
  "out_inv L U Z M r \<longleftrightarrow>
     (\<forall>v. rbcOutput r = Some v \<longrightarrow> outputOf L U Z (rbcN r - rbcF r) (numDataShards r) M v)"

definition ready_origin :: "node_id set \<Rightarrow> node_id set \<Rightarrow> int \<Rightarrow> rbc_evidence \<Rightarrow> bool" where
  "ready_origin U Z q M \<longleftrightarrow> (\<forall>i \<in> U - Z. \<forall>h. (i, ReadyMsg h) \<in> M \<longrightarrow> echoQuorum U Z q M h)"

definition echo_origin :: "node_id set \<Rightarrow> node_id set \<Rightarrow> node_id \<Rightarrow> (ProofRequest \<Rightarrow> bool) \<Rightarrow> rbc_evidence \<Rightarrow> bool" where
  "echo_origin U Z p G M \<longleftrightarrow>
     (\<forall>i \<in> U - Z. \<forall>q. (i, EchoMsg q) \<in> M \<longrightarrow> p \<in> Z \<or> G q) \<and>
     (\<forall>q. (p, ProofMsg q) \<in> M \<longrightarrow> p \<notin> Z \<longrightarrow> G q)"


definition remit :: "rbc_evidence \<Rightarrow> RBC \<Rightarrow> rbc_evidence" where
  "remit M r = M \<union> Pair (rbcID r) ` set (rbcMessages r)"

definition raccounted :: "rbc_evidence \<Rightarrow> RBC \<Rightarrow> bool" where
  "raccounted M r \<longleftrightarrow> Pair (rbcID r) ` set (rbcMessages r) \<subseteq> M"

definition rjustified :: "node_id set \<Rightarrow> node_id set \<Rightarrow> node_id \<Rightarrow> (ProofRequest \<Rightarrow> bool) \<Rightarrow> rbc_evidence \<Rightarrow> rbc_evidence \<Rightarrow> bool" where
  "rjustified U Z p G M Ev \<longleftrightarrow>
     (\<forall>j q. (j, EchoMsg q) \<in> Ev \<longrightarrow> rseen U Z M j (EchoMsg q)) \<and>
     (\<forall>j h. (j, ReadyMsg h) \<in> Ev \<longrightarrow> rseen U Z M j (ReadyMsg h)) \<and>
     (\<forall>q. (p, ProofMsg q) \<in> Ev \<longrightarrow> p \<in> Z \<or> G q)"

definition rbc_fixed :: "RBC \<Rightarrow> RBC \<Rightarrow> bool" where
  "rbc_fixed r r' \<longleftrightarrow> rbcConfig r' = rbcConfig r \<and> rbcProposerID r' = rbcProposerID r \<and>
     numDataShards r' = numDataShards r \<and> numParityShards r' = numParityShards r \<and>
     set (rbcMessages r) \<subseteq> set (rbcMessages r')"

lemma rstep_fixed: "rbc_step L Ev r r' \<Longrightarrow> rbc_fixed r r'"
  by (induction rule: rbc_step.induct) (auto simp: rbc_fixed_def)

lemma remit_same [simp]: "raccounted M r \<Longrightarrow> rbcMessages r' = rbcMessages r \<Longrightarrow> rbcConfig r' = rbcConfig r \<Longrightarrow> remit M r' = M"
  by (auto simp: raccounted_def remit_def)

lemma remit_new: "raccounted M r \<Longrightarrow> rbcMessages r' = rbcMessages r @ [m] \<Longrightarrow> rbcConfig r' = rbcConfig r \<Longrightarrow>
    remit M r' = insert (rbcID r, m) M"
  by (auto simp: raccounted_def remit_def)

lemma rbacked_rseen:
  assumes "rjustified U Z p G M Ev" "raccounted M r" "rbcID r \<in> U" "rbacked Ev r j m" "m = EchoMsg q \<or> m = ReadyMsg h"
  shows "rseen U Z M j m"
  using assms by (auto simp: rjustified_def raccounted_def rbacked_def rseen_def)

lemma update_fresh_set: "k \<notin> keys_of m \<Longrightarrow> set (AList.update k v m) = insert (k, v) (set m)"
  by (simp add: update_fresh)

lemma recv_inv_mono: "M \<subseteq> M' \<Longrightarrow> recv_inv U Z M r \<Longrightarrow> recv_inv U Z M' r"
  unfolding recv_inv_def by (simp add: rseen_mono)

lemma echo_count_quorum:
  assumes "recv_inv U Z M r" and "q \<le> int (countEchos h r)"
  shows "echoQuorum U Z q M h"
proof -
  let ?E = "filter (\<lambda>(k, e). h = prRootHash e) (recvEchos r)"
  have wf: "wf_map ?E" using assms(1) by (simp add: recv_inv_def distinct_map_filter)
  have c: "card (keys_of ?E) = countEchos h r"
    using length_wf_map [OF wf] by (simp add: countEchos_def count_where_def)
  have "keys_of ?E \<subseteq> U" using assms(1) by (auto simp: recv_inv_def rseen_def)
  moreover have "\<forall>j \<in> keys_of ?E. j \<in> Z \<or> (\<exists>pr. prRootHash pr = h \<and> (j, EchoMsg pr) \<in> M)"
  proof
    fix j
    assume "j \<in> keys_of ?E"
    then obtain e where e: "(j, e) \<in> set ?E" by (rule in_fst)
    then have "rseen U Z M j (EchoMsg e)" "prRootHash e = h" using assms(1) by (auto simp: recv_inv_def)
    then show "j \<in> Z \<or> (\<exists>pr. prRootHash pr = h \<and> (j, EchoMsg pr) \<in> M)" by (auto simp: rseen_def)
  qed
  ultimately show ?thesis unfolding echoQuorum_def using assms(2) c by (intro exI [of _ "keys_of ?E"]) simp
qed

lemma ready_count_origin:
  assumes r: "recv_inv U Z M r" and o: "ready_origin U Z q M" and fm: "fault_model U Z N F" and n: "F < int (countReadys h r)"
  shows "echoQuorum U Z q M h"
proof -
  let ?R = "filter (\<lambda>(k, e). h = e) (recvReadys r)"
  have wf: "wf_map ?R" using r by (simp add: recv_inv_def distinct_map_filter)
  have c: "card (keys_of ?R) = countReadys h r"
    using length_wf_map [OF wf] by (simp add: countReadys_def count_where_def)
  have "finite Z" "int (card Z) \<le> F" using fm by (auto simp: fault_model_def intro: finite_subset)
  then have "finite Z" "card Z < card (keys_of ?R)" using n c by linarith+
  then obtain j where j: "j \<in> keys_of ?R" "j \<notin> Z" using card_gt_exists_outside by blast
  from j(1) obtain e where "(j, e) \<in> set ?R" by (rule in_fst)
  then have "rseen U Z M j (ReadyMsg h)" using r by (auto simp: recv_inv_def)
  then show ?thesis using j(2) o by (auto simp: rseen_def ready_origin_def)
qed

definition rbc_inv :: "rbc_lib \<Rightarrow> node_id set \<Rightarrow> node_id set \<Rightarrow> (ProofRequest \<Rightarrow> bool) \<Rightarrow> rbc_evidence \<Rightarrow> RBC \<Rightarrow> bool" where
  "rbc_inv L U Z G M r \<longleftrightarrow> recv_inv U Z M r \<and> own_inv M r \<and> out_inv L U Z M r"

definition rbc_global :: "node_id set \<Rightarrow> node_id set \<Rightarrow> node_id \<Rightarrow> int \<Rightarrow> (ProofRequest \<Rightarrow> bool) \<Rightarrow> rbc_evidence \<Rightarrow> bool" where
  "rbc_global U Z p q G M \<longleftrightarrow> ready_origin U Z q M \<and> echo_origin U Z p G M"

lemma out_inv_mono: "M \<subseteq> M' \<Longrightarrow> out_inv L U Z M r \<Longrightarrow> out_inv L U Z M' r"
  unfolding out_inv_def by (meson outputOf_mono)

lemma origin_insert:
  assumes "rbc_global U Z p q G M"
    and "\<And>h. m = ReadyMsg h \<Longrightarrow> echoQuorum U Z q M h" and "\<And>pr. m = EchoMsg pr \<Longrightarrow> p \<in> Z \<or> G pr"
    and "\<And>pr. m \<noteq> ProofMsg pr"
  shows "rbc_global U Z p q G (insert (i, m) M)"
  using assms echoQuorum_mono [of M "insert (i, m) M" U Z q]
  unfolding rbc_global_def ready_origin_def echo_origin_def by blast

lemma rstep_inv:
  assumes st: "rbc_step L Ev r r'" and inv: "rbc_inv L U Z G M r"
    and glob: "rbc_global U Z (rbcProposerID r) (rbcN r - rbcF r) G M"
    and fm: "fault_model U Z (rbcN r) (rbcF r)" and just: "rjustified U Z (rbcProposerID r) G M Ev"
    and acc: "raccounted M r" and own: "rbcID r \<in> U - Z"
  shows "rbc_inv L U Z G (remit M r') r' \<and> rbc_global U Z (rbcProposerID r) (rbcN r - rbcF r) G (remit M r')"
proof -
  from inv have rv: "recv_inv U Z M r" and ow: "own_inv M r" and ou: "out_inv L U Z M r" by (auto simp: rbc_inv_def)
  have u: "rbcID r \<in> U" using own by simp
  have F: "0 \<le> rbcF r" using fm by (rule F_nonneg)
  show ?thesis
    using st
  proof (cases rule: rbc_step.cases)
    case (log c)
    then show ?thesis using rv ow ou glob acc by (simp add: rbc_inv_def recv_inv_def own_inv_def out_inv_def)
  next
    case (echo_in sid q)
    have "rseen U Z M sid (EchoMsg q)" using rbacked_rseen [OF just acc u echo_in(2)] by blast
    then show ?thesis
      using rv ow ou glob acc echo_in
      by (auto simp: rbc_inv_def recv_inv_def own_inv_def out_inv_def update_fresh_set)
  next
    case (ready_in sid h)
    have "rseen U Z M sid (ReadyMsg h)" using rbacked_rseen [OF just acc u ready_in(2)] by blast
    then show ?thesis
      using rv ow ou glob acc ready_in
      by (auto simp: rbc_inv_def recv_inv_def own_inv_def out_inv_def update_fresh_set)
  next
    case (echo_out q)
    have e: "remit M r' = insert (rbcID r, EchoMsg q) M" using remit_new [OF acc] echo_out by simp
    have "rbcProposerID r \<in> Z \<or> G q" using just echo_out by (auto simp: rjustified_def)
    then have g: "rbc_global U Z (rbcProposerID r) (rbcN r - rbcF r) G (remit M r')"
      unfolding e by (intro origin_insert [OF glob]) auto
    have "recv_inv U Z (remit M r') r" "out_inv L U Z (remit M r') r"
      using recv_inv_mono [OF _ rv] out_inv_mono [OF _ ou] e by blast+
    then show ?thesis using g ow echo_out unfolding e
      by (auto simp: rbc_inv_def recv_inv_def own_inv_def out_inv_def)
  next
    case (ready_out h)
    have e: "remit M r' = insert (rbcID r, ReadyMsg h) M" using remit_new [OF acc] ready_out by simp
    have "echoQuorum U Z (rbcN r - rbcF r) M h"
      using ready_out(4) echo_count_quorum [OF rv] ready_count_origin [OF rv _ fm, of _ h] glob
      by (auto simp: rbc_global_def)
    then have g: "rbc_global U Z (rbcProposerID r) (rbcN r - rbcF r) G (remit M r')"
      unfolding e by (intro origin_insert [OF glob]) auto
    have "recv_inv U Z (remit M r') r" "out_inv L U Z (remit M r') r"
      using recv_inv_mono [OF _ rv] out_inv_mono [OF _ ou] e by blast+
    moreover have "rseen U Z (remit M r') (rbcID r) (ReadyMsg h)" using u e by (simp add: rseen_def)
    ultimately show ?thesis using g ow ready_out unfolding e
      by (auto simp: rbc_inv_def recv_inv_def own_inv_def out_inv_def update_fresh_set)
  next
    case (decode h full)
    have "echoQuorum U Z (rbcN r - rbcF r) M h"
      using ready_count_origin [OF rv _ fm] glob decode F by (auto simp: rbc_global_def)
    then have "outputOf L U Z (rbcN r - rbcF r) (numDataShards r) M (concat (take (nat (numDataShards r)) full))"
      using decode by (auto simp: outputOf_def)
    then show ?thesis using rv ow glob acc decode
      by (auto simp: rbc_inv_def recv_inv_def own_inv_def out_inv_def)
  qed
qed


lemma remit_remit: "rbc_fixed r r' \<Longrightarrow> remit (remit M r) r' = remit M r'"
  by (auto simp: remit_def rbc_fixed_def)

lemma rjustified_mono: "M \<subseteq> M' \<Longrightarrow> rjustified U Z p G M Ev \<Longrightarrow> rjustified U Z p G M' Ev"
  unfolding rjustified_def by (simp add: rseen_mono)

lemma rbc_fixed_trans: "rbc_fixed a b \<Longrightarrow> rbc_fixed b c \<Longrightarrow> rbc_fixed a c"
  by (auto simp: rbc_fixed_def)

lemma rrun_inv:
  assumes "rsteps L Ev r r'" and inv: "rbc_inv L U Z G M r"
    and glob: "rbc_global U Z (rbcProposerID r) (rbcN r - rbcF r) G M"
    and fm: "fault_model U Z (rbcN r) (rbcF r)" and just: "rjustified U Z (rbcProposerID r) G M Ev"
    and acc: "raccounted M r" and own: "rbcID r \<in> U - Z"
  shows "rbc_fixed r r' \<and> rbc_inv L U Z G (remit M r') r' \<and>
    rbc_global U Z (rbcProposerID r) (rbcN r - rbcF r) G (remit M r')"
  using assms(1)
proof (induction rule: rtranclp_induct)
  case base
  then show ?case using inv glob acc by (simp add: rbc_fixed_def)
next
  case (step r1 r2)
  let ?M1 = "remit M r1"
  have fx: "rbc_fixed r r1" "rbc_fixed r1 r2" using step.IH rstep_fixed [OF step.hyps(2)] by auto
  have "rjustified U Z (rbcProposerID r) G ?M1 Ev" using just by (rule rjustified_mono [rotated]) (auto simp: remit_def)
  moreover have "raccounted ?M1 r1" by (auto simp: raccounted_def remit_def)
  ultimately have "rbc_inv L U Z G (remit ?M1 r2) r2 \<and>
      rbc_global U Z (rbcProposerID r) (rbcN r - rbcF r) G (remit ?M1 r2)"
    using rstep_inv [OF step.hyps(2), of U Z G ?M1] step.IH fm own fx(1) by (simp add: rbc_fixed_def)
  then show ?case using remit_remit [OF fx(2)] rbc_fixed_trans [OF fx] by simp
qed

section \<open>The invariant of the network\<close>

definition rsent :: "node_id set \<Rightarrow> node_id set \<Rightarrow> rbc_net \<Rightarrow> rbc_evidence" where
  "rsent U Z s = {(i, m). i \<in> U - Z \<and> ((i, m) \<in> rnWire s \<or> m \<in> set (rbcMessages (rnNodes s i)))}"

definition rbc_shape :: "Config \<Rightarrow> node_id \<Rightarrow> node_id \<Rightarrow> RBC \<Rightarrow> bool" where
  "rbc_shape cfg p i r \<longleftrightarrow> rbcConfig r = defaultF (cfg\<lparr>cfgID := i\<rparr>) \<and> rbcProposerID r = p \<and>
     numParityShards r = 2 * cfgF (defaultF cfg) \<and> numDataShards r = cfgN cfg - 2 * cfgF (defaultF cfg)"

definition rbc_genuine :: "rbc_lib \<Rightarrow> Config \<Rightarrow> bytes set \<Rightarrow> ProofRequest \<Rightarrow> bool" where
  "rbc_genuine L cfg inputs =
     genuine L (cfgN cfg - 2 * cfgF (defaultF cfg)) (2 * cfgF (defaultF cfg)) inputs"

definition rnet_inv :: "rbc_lib \<Rightarrow> Config \<Rightarrow> node_id \<Rightarrow> node_id set \<Rightarrow> node_id set \<Rightarrow> bytes set \<Rightarrow> rbc_net \<Rightarrow> bool" where
  "rnet_inv L cfg p U Z inputs s \<longleftrightarrow> rnWire s \<subseteq> (U - Z) \<times> UNIV \<and>
     (\<forall>i \<in> U - Z. rbc_shape cfg p i (rnNodes s i) \<and> rbc_inv L U Z (rbc_genuine L cfg inputs) (rsent U Z s) (rnNodes s i)) \<and>
     rbc_global U Z p (cfgN cfg - cfgF (defaultF cfg)) (rbc_genuine L cfg inputs) (rsent U Z s) \<and>
     (\<forall>i v. (i, v) \<in> rnOut s \<longrightarrow>
       outputOf L U Z (cfgN cfg - cfgF (defaultF cfg)) (cfgN cfg - 2 * cfgF (defaultF cfg)) (rsent U Z s) v)"

lemma rbc_inv_other:
  assumes "rbcID r \<noteq> i" and "rbc_inv L U Z G M r"
  shows "rbc_inv L U Z G (M \<union> Pair i ` X) r"
proof -
  have "(rbcID r, m) \<in> M \<union> Pair i ` X \<longleftrightarrow> (rbcID r, m) \<in> M" for m using assms(1) by auto
  then have "own_inv (M \<union> Pair i ` X) r = own_inv M r" by (simp only: own_inv_def)
  then show ?thesis
    using assms(2) recv_inv_mono [of M "M \<union> Pair i ` X"] out_inv_mono [of M "M \<union> Pair i ` X"]
    by (simp add: rbc_inv_def)
qed

lemma rnet_facts:
  assumes net: "rnet_inv L cfg p U Z inputs s" and i: "i \<in> U - Z"
  shows "rbc_shape cfg p i (rnNodes s i)" "rbc_inv L U Z (rbc_genuine L cfg inputs) (rsent U Z s) (rnNodes s i)"
    "rbcN (rnNodes s i) = cfgN cfg" "rbcF (rnNodes s i) = cfgF (defaultF cfg)" "rbcID (rnNodes s i) = i"
    "rbcProposerID (rnNodes s i) = p" "raccounted (rsent U Z s) (rnNodes s i)"
    "rbc_global U Z p (cfgN cfg - cfgF (defaultF cfg)) (rbc_genuine L cfg inputs) (rsent U Z s)"
proof -
  show sh: "rbc_shape cfg p i (rnNodes s i)" "rbc_inv L U Z (rbc_genuine L cfg inputs) (rsent U Z s) (rnNodes s i)"
    and "rbc_global U Z p (cfgN cfg - cfgF (defaultF cfg)) (rbc_genuine L cfg inputs) (rsent U Z s)"
    using net i by (auto simp: rnet_inv_def)
  show "rbcN (rnNodes s i) = cfgN cfg" "rbcF (rnNodes s i) = cfgF (defaultF cfg)" and id: "rbcID (rnNodes s i) = i"
    and "rbcProposerID (rnNodes s i) = p" using sh(1) by (auto simp: rbc_shape_def)
  show "raccounted (rsent U Z s) (rnNodes s i)" using i id by (auto simp: raccounted_def rsent_def)
qed

lemma rdeliverable_justified:
  assumes net: "rnet_inv L cfg p U Z inputs s"
  shows "rjustified U Z p (rbc_genuine L cfg inputs) (rsent U Z s) (rdeliverable U Z (rnWire s))"
  using net unfolding rnet_inv_def rbc_global_def echo_origin_def rjustified_def rdeliverable_def rseen_def rsent_def
  by blast

text \<open>A run of steps at one node, after which proof requests \<open>P\<close> of that node go on the wire.\<close>

lemma rnet_inv_run:
  assumes net: "rnet_inv L cfg p U Z inputs s" and fm: "fault_model U Z (cfgN cfg) (cfgF (defaultF cfg))"
    and i: "i \<in> U - Z" and run: "rsteps L Ev (rnNodes s i) r'"
    and just: "rjustified U Z p (rbc_genuine L cfg inputs) (rsent U Z s) Ev"
    and P: "\<And>m. m \<in> P \<Longrightarrow> \<exists>q. m = ProofMsg q \<and> rbc_genuine L cfg inputs q"
  shows "rnet_inv L cfg p U Z inputs (s\<lparr>rnNodes := (rnNodes s)(i := r'), rnWire := rnWire s \<union> Pair i ` P\<rparr>)"
proof -
  let ?s = "s\<lparr>rnNodes := (rnNodes s)(i := r'), rnWire := rnWire s \<union> Pair i ` P\<rparr>"
  let ?G = "rbc_genuine L cfg inputs" and ?M = "rsent U Z s" and ?q = "cfgN cfg - cfgF (defaultF cfg)"
  note nf = rnet_facts [OF net i]
  have r: "rbc_fixed (rnNodes s i) r' \<and> rbc_inv L U Z ?G (remit ?M r') r' \<and> rbc_global U Z p ?q ?G (remit ?M r')"
    using rrun_inv [OF run nf(2)] nf fm just i by simp
  then have sh: "rbc_shape cfg p i r'" using nf(1) by (simp add: rbc_fixed_def rbc_shape_def)
  then have id: "rbcID r' = i" by (simp add: rbc_shape_def)
  have sent': "rsent U Z ?s = ?M \<union> Pair i ` (set (rbcMessages r') \<union> P)"
    using i r by (auto simp: rsent_def rbc_fixed_def split: if_splits)
  then have sub: "?M \<subseteq> rsent U Z ?s" by blast
  have eqM: "rsent U Z ?s = remit ?M r' \<union> Pair i ` P" using sent' id by (auto simp: remit_def)
  have noP: "(j, EchoMsg q) \<in> rsent U Z ?s \<longleftrightarrow> (j, EchoMsg q) \<in> remit ?M r'"
    "(j, ReadyMsg h) \<in> rsent U Z ?s \<longleftrightarrow> (j, ReadyMsg h) \<in> remit ?M r'" for j q h
    unfolding eqM using P by auto
  have "own_inv (rsent U Z ?s) r'" using r unfolding rbc_inv_def own_inv_def noP by blast
  then have inv': "rbc_inv L U Z ?G (rsent U Z ?s) r'"
    using r recv_inv_mono [of "remit ?M r'" "rsent U Z ?s"] out_inv_mono [of "remit ?M r'" "rsent U Z ?s"] eqM
    by (simp add: rbc_inv_def)
  have glob: "rbc_global U Z p ?q ?G (rsent U Z ?s)"
    unfolding rbc_global_def
  proof
    show "ready_origin U Z ?q (rsent U Z ?s)"
      using r echoQuorum_mono [of "remit ?M r'" "rsent U Z ?s"] eqM noP(2)
      by (simp add: rbc_global_def ready_origin_def)
    show "echo_origin U Z p ?G (rsent U Z ?s)"
      using r P unfolding rbc_global_def echo_origin_def noP eqM by blast
  qed
  have "rbc_inv L U Z ?G (rsent U Z ?s) (rnNodes s k)" if "k \<in> U - Z" "k \<noteq> i" for k
    using rnet_facts(2,5) [OF net that(1)] that unfolding sent' by (intro rbc_inv_other) auto
  then show ?thesis
    unfolding rnet_inv_def using net inv' sh glob i outputOf_mono [OF sub] by (auto simp: rnet_inv_def)
qed


lemma input_messages:
  assumes "rbc_inputValue L data r = (e, ms, r')" and "m \<in> set ms"
  shows "\<exists>shards q. makeShards L (numDataShards r) (numParityShards r) data = Some shards \<and>
    m = ProofMsg q \<and> q \<in> set (makeProofRequests L shards)"
proof -
  obtain shards where sh: "makeShards L (numDataShards r) (numParityShards r) data = Some shards"
    using assms by (auto simp: rbc_inputValue_def split: option.splits)
  have "m \<in> set (makeBroadcastMessages L shards)"
    using assms sh by (auto simp: rbc_inputValue_def split: list.splits BroadcastMessage.splits status.splits prod.splits)
  then show ?thesis using sh by (auto simp: makeBroadcastMessages_def makeProofRequests_def)
qed

lemma rnet_inv_same:
  assumes net: "rnet_inv L cfg p U Z inputs s" and i: "i \<in> U - Z"
    and "rsent U Z s' = rsent U Z s" and "rnWire s' \<subseteq> (U - Z) \<times> UNIV" and "rnNodes s' = (rnNodes s)(i := r')"
    and "rbc_shape cfg p i r'" and "rbc_inv L U Z (rbc_genuine L cfg inputs) (rsent U Z s) r'"
    and "\<And>k v. (k, v) \<in> rnOut s' \<Longrightarrow> (k, v) \<in> rnOut s \<or> rbcOutput (rnNodes s i) = Some v"
  shows "rnet_inv L cfg p U Z inputs s'"
proof -
  have "outputOf L U Z (cfgN cfg - cfgF (defaultF cfg)) (cfgN cfg - 2 * cfgF (defaultF cfg)) (rsent U Z s) v"
    if "rbcOutput (rnNodes s i) = Some v" for v
    using rnet_facts(1-4) [OF net i] that by (auto simp: rbc_inv_def out_inv_def rbc_shape_def)
  then have "outputOf L U Z (cfgN cfg - cfgF (defaultF cfg)) (cfgN cfg - 2 * cfgF (defaultF cfg)) (rsent U Z s) v"
    if "(k, v) \<in> rnOut s'" for k v
    using assms(8) [OF that] net by (auto simp: rnet_inv_def)
  then show ?thesis using assms(1-7) by (simp add: rnet_inv_def)
qed

lemma newRBC_shape:
  "newRBC L (cfg\<lparr>cfgID := i\<rparr>) p = Some r \<Longrightarrow> rbc_shape cfg p i r \<and> rbcMessages r = [] \<and> recvEchos r = [] \<and>
     recvReadys r = [] \<and> rbcOutput r = None"
  by (auto simp: newRBC_def Let_def rbc_shape_def split: if_splits)

lemma rreach_inv:
  assumes "rbc_reach L cfg p U Z inputs s" and fm: "fault_model U Z (cfgN cfg) (cfgF (defaultF cfg))"
  shows "rnet_inv L cfg p U Z inputs s"
  using assms(1)
proof (induction rule: rbc_reach.induct)
  case (init s)
  have n: "rbc_shape cfg p i (rnNodes s i) \<and> rbcMessages (rnNodes s i) = [] \<and> recvEchos (rnNodes s i) = [] \<and>
      recvReadys (rnNodes s i) = [] \<and> rbcOutput (rnNodes s i) = None" for i
    using newRBC_shape [OF init(1)] .
  then have "rsent U Z s = {}" using init by (auto simp: rsent_def)
  then show ?case using n init
    by (simp add: rnet_inv_def rbc_inv_def recv_inv_def own_inv_def out_inv_def rbc_global_def ready_origin_def echo_origin_def)
next
  case (deliver s i j m e r')
  have "rsteps L (rdeliverable U Z (rnWire s)) (rnNodes s i) r'"
    using rbc_handle_run [OF deliver.hyps(3)] deliver.hyps(4) by (metis snd_conv)
  from rnet_inv_run [OF deliver.IH fm deliver.hyps(2) this rdeliverable_justified [OF deliver.IH], of "{}"]
  show ?case by simp
next
  case (input s i data e ms r')
  let ?r = "rnNodes s i" and ?G = "rbc_genuine L cfg inputs"
  note nf = rnet_facts [OF input.IH input.hyps(2)]
  show ?case
  proof (cases "makeShards L (numDataShards ?r) (numParityShards ?r) data")
    case None
    then have "r' = ?r" "ms = []" using input.hyps(4) by (auto simp: rbc_inputValue_def)
    then show ?thesis using input.IH by (simp add: rnet_inv_def rsent_def)
  next
    case (Some shards)
    have gen: "?G q" if "q \<in> set (makeProofRequests L shards)" for q
      using Some that input.hyps(3) nf(1) by (auto simp: rbc_genuine_def genuine_def rbc_shape_def)
    let ?Ev = "rdeliverable U Z (rnWire s) \<union> (\<lambda>q. (i, ProofMsg q)) ` set (makeProofRequests L shards)"
    have "rjustified U Z p ?G (rsent U Z s) ?Ev"
      using rdeliverable_justified [OF input.IH] gen unfolding rjustified_def by blast
    moreover have "rsteps L ?Ev ?r r'"
      using rbc_input_run [of L shards ?r ?Ev data] Some input.hyps(4) nf(5) by auto
    moreover have "\<exists>q. m = ProofMsg q \<and> ?G q" if "m \<in> set ms" for m
      using input_messages [OF input.hyps(4) that] Some gen by auto
    ultimately show ?thesis by (intro rnet_inv_run [OF input.IH fm input.hyps(2)])
  qed
next
  case (send s i ms r')
  then have r': "r' = rnNodes s i\<lparr>rbcMessages := []\<rparr>" "ms = rbcMessages (rnNodes s i)"
    by (auto simp: rbc_takeMessages_def)
  note nf = rnet_facts [OF send.IH send.hyps(2)]
  let ?s = "s\<lparr>rnNodes := (rnNodes s)(i := r'), rnWire := rnWire s \<union> Pair i ` set ms\<rparr>"
  show ?case
  proof (rule rnet_inv_same [OF send.IH send.hyps(2), where r' = r'])
    show "rsent U Z ?s = rsent U Z s" using send.hyps(2) r' by (auto simp: rsent_def split: if_splits)
    show "rnWire ?s \<subseteq> (U - Z) \<times> UNIV" using send.IH send.hyps(2) by (auto simp: rnet_inv_def)
  qed (use nf(1,2) r' in \<open>simp_all add: rbc_shape_def rbc_inv_def recv_inv_def own_inv_def out_inv_def\<close>)
next
  case (take_output s i out r')
  have r': "r' = rnNodes s i\<lparr>rbcOutput := None\<rparr>" "out = rbcOutput (rnNodes s i)"
    using take_output.hyps(3) by (auto simp: rbc_takeOutput_def split: option.splits)
  note nf = rnet_facts [OF take_output.IH take_output.hyps(2)]
  let ?s = "s\<lparr>rnNodes := (rnNodes s)(i := r'), rnOut := rnOut s \<union> (case out of None \<Rightarrow> {} | Some v \<Rightarrow> {(i, v)})\<rparr>"
  show ?case
  proof (rule rnet_inv_same [OF take_output.IH take_output.hyps(2), where r' = r'])
    show "rsent U Z ?s = rsent U Z s" using take_output.hyps(2) r' by (auto simp: rsent_def split: if_splits)
    show "rnWire ?s \<subseteq> (U - Z) \<times> UNIV" using take_output.IH by (auto simp: rnet_inv_def)
    show "(k, v) \<in> rnOut ?s \<Longrightarrow> (k, v) \<in> rnOut s \<or> rbcOutput (rnNodes s i) = Some v" for k v
      using r' by (auto split: option.splits)
  qed (use nf(1,2) r' in \<open>simp_all add: rbc_shape_def rbc_inv_def recv_inv_def own_inv_def out_inv_def\<close>)
qed

section \<open>Agreement and validity\<close>

lemma echoQuorum_unique:
  assumes fm: "fault_model U Z N F" and "echoQuorum U Z (N - F) M h" and "echoQuorum U Z (N - F) M h'"
    and uniq: "\<And>i q q'. i \<in> U - Z \<Longrightarrow> (i, EchoMsg q) \<in> M \<Longrightarrow> (i, EchoMsg q') \<in> M \<Longrightarrow> q = q'"
  shows "h = h'"
proof -
  from assms(2) obtain Q where Q: "Q \<subseteq> U" "N - F \<le> int (card Q)"
    "\<forall>j \<in> Q. j \<in> Z \<or> (\<exists>pr. prRootHash pr = h \<and> (j, EchoMsg pr) \<in> M)" unfolding echoQuorum_def by blast
  from assms(3) obtain R where R: "R \<subseteq> U" "N - F \<le> int (card R)"
    "\<forall>j \<in> R. j \<in> Z \<or> (\<exists>pr. prRootHash pr = h' \<and> (j, EchoMsg pr) \<in> M)" unfolding echoQuorum_def by blast
  have U: "finite U" "Z \<subseteq> U" using fm by (auto simp: fault_model_def)
  have "card U + card Z < card Q + card R" using fm Q(2) R(2) by (auto simp: fault_model_def)
  then obtain j where j: "j \<in> Q" "j \<in> R" "j \<notin> Z"
    using quorum_intersect [OF U(1) Q(1) R(1) U(2)] by blast
  then obtain q q' where "prRootHash q = h" "(j, EchoMsg q) \<in> M" "prRootHash q' = h'" "(j, EchoMsg q') \<in> M"
    using Q(3) R(3) by blast
  then show ?thesis using uniq [of j q q'] j Q(1) by blast
qed

lemma delivered_output:
  assumes "rnet_inv L cfg p U Z inputs s" and "i \<in> U - Z" and "delivered s i v"
  shows "outputOf L U Z (cfgN cfg - cfgF (defaultF cfg)) (cfgN cfg - 2 * cfgF (defaultF cfg)) (rsent U Z s) v"
  using assms rnet_facts(1-4) [OF assms(1,2)]
  by (auto simp: delivered_def rnet_inv_def rbc_inv_def out_inv_def rbc_shape_def)

lemma echo_unique:
  assumes "rnet_inv L cfg p U Z inputs s" and "i \<in> U - Z" and "(i, EchoMsg q) \<in> rsent U Z s" and "(i, EchoMsg q') \<in> rsent U Z s"
  shows "q = q'"
proof -
  have "own_inv (rsent U Z s) (rnNodes s i)" using rnet_facts(2) [OF assms(1,2)] by (simp add: rbc_inv_def)
  then show ?thesis using assms(3,4) rnet_facts(5) [OF assms(1,2)] by (simp add: own_inv_def)
qed

section \<open>Executing a schedule\<close>

datatype rbc_action = RDeliver node_id node_id BroadcastMessage | RInput node_id bytes | RSend node_id

fun exec_rbc :: "rbc_lib \<Rightarrow> node_id list \<Rightarrow> node_id list \<Rightarrow> rbc_action \<Rightarrow>
    (node_id \<Rightarrow> RBC) \<times> (node_id \<times> BroadcastMessage) list \<Rightarrow> ((node_id \<Rightarrow> RBC) \<times> (node_id \<times> BroadcastMessage) list) option" where
  "exec_rbc L C Z (RDeliver i j m) (ns, w) =
     (if i \<in> set C \<and> (j \<in> set Z \<or> j \<in> set C \<and> (j, m) \<in> set w)
      then Some (ns(i := snd (rbc_handleMessage L j m (ns i))), w) else None)"
| "exec_rbc L C Z (RInput i data) (ns, w) =
     (if i \<in> set C
      then Some (ns(i := snd (snd (rbc_inputValue L data (ns i)))), w @ map (Pair i) (fst (snd (rbc_inputValue L data (ns i)))))
      else None)"
| "exec_rbc L C Z (RSend i) (ns, w) =
     (if i \<in> set C
      then Some (ns(i := snd (rbc_takeMessages (ns i))), w @ map (Pair i) (fst (rbc_takeMessages (ns i)))) else None)"

lemma exec_rbc_step:
  assumes "exec_rbc L C Z a (ns, w) = Some (ns', w')" and dis: "set C \<inter> set Z = {}"
    and inp: "\<And>i d. a = RInput i d \<Longrightarrow> d \<in> inputs"
    and reach: "rbc_reach L cfg p (set C \<union> set Z) (set Z) inputs \<lparr>rnNodes = ns, rnWire = set w, rnOut = {}\<rparr>"
  shows "rbc_reach L cfg p (set C \<union> set Z) (set Z) inputs \<lparr>rnNodes = ns', rnWire = set w', rnOut = {}\<rparr>"
proof (cases a)
  case (RDeliver i j m)
  have "i \<in> set C \<union> set Z - set Z"
    "(j, m) \<in> rdeliverable (set C \<union> set Z) (set Z) (rnWire \<lparr>rnNodes = ns, rnWire = set w, rnOut = {}\<rparr>)"
    using assms(1) dis RDeliver by (auto simp: rdeliverable_def split: if_splits)
  from rbc_reach.deliver [OF reach this surjective_pairing]
  show ?thesis using assms(1) RDeliver by (auto split: if_splits)
next
  case (RInput i d)
  have i: "i \<in> set C \<union> set Z - set Z" using assms(1) dis RInput by (auto split: if_splits)
  obtain e ms r' where r: "rbc_inputValue L d (ns i) = (e, ms, r')" by (metis surj_pair)
  have "ns' = ns(i := r')" "w' = w @ map (Pair i) ms" using assms(1) RInput r by (auto split: if_splits)
  then show ?thesis using rbc_reach.input [OF reach i inp [OF RInput]] r by simp
next
  case (RSend i)
  have i: "i \<in> set C \<union> set Z - set Z" using assms(1) dis RSend by (auto split: if_splits)
  obtain ms r' where r: "rbc_takeMessages (ns i) = (ms, r')" by (metis surj_pair)
  have "ns' = ns(i := r')" "w' = w @ map (Pair i) ms" using assms(1) RSend r by (auto split: if_splits)
  then show ?thesis using rbc_reach.send [OF reach i] r by simp
qed

lemma exec_rbc_reach:
  assumes "bind_fold (exec_rbc L C Z) as (ns, w) = Some (ns', w')" and dis: "set C \<inter> set Z = {}"
    and "\<forall>i d. RInput i d \<in> set as \<longrightarrow> d \<in> inputs"
    and "rbc_reach L cfg p (set C \<union> set Z) (set Z) inputs \<lparr>rnNodes = ns, rnWire = set w, rnOut = {}\<rparr>"
  shows "rbc_reach L cfg p (set C \<union> set Z) (set Z) inputs \<lparr>rnNodes = ns', rnWire = set w', rnOut = {}\<rparr>"
  using assms(1,3,4)
proof (induction as arbitrary: ns w)
  case Nil
  then show ?case by simp
next
  case (Cons a as)
  then obtain ns1 w1 where s1: "exec_rbc L C Z a (ns, w) = Some (ns1, w1)"
    "bind_fold (exec_rbc L C Z) as (ns1, w1) = Some (ns', w')" by (auto split: option.splits)
  have "rbc_reach L cfg p (set C \<union> set Z) (set Z) inputs \<lparr>rnNodes = ns1, rnWire = set w1, rnOut = {}\<rparr>"
    using exec_rbc_step [OF s1(1) dis _ Cons.prems(3)] Cons.prems(2) by auto
  then show ?case using Cons.IH [OF s1(2)] Cons.prems(2) by simp
qed

text \<open>
  An instance of the libraries that has the documented properties: the root of a tree is an
  injective encoding of its leaves, a proof carries the leaf and the leaves, data shards come
  first. A schedule of four nodes, node 3 faulty, in which nodes 0 and 1 deliver.
\<close>

fun demo_root :: "bytes list \<Rightarrow> bytes" where
  "demo_root [] = []"
| "demo_root (s # ss) = concat (map (\<lambda>b. [1, b]) s) @ 0 # demo_root ss"

definition demo_lib :: rbc_lib where
  "demo_lib = \<lparr>rsNew = (\<lambda>nd np. 0 < nd \<and> 0 \<le> np),
     rsSplit = (\<lambda>nd np d. if nd \<le> 0 then None else Some (d # replicate (nat nd - 1) [0])),
     rsEncode = (\<lambda>nd np ss. Some (ss @ replicate (nat np) [0])),
     rsReconstruct = (\<lambda>nd np ss. if [] \<in> set ss then None else Some ss),
     mtProve = (\<lambda>ss i. (demo_root ss, ss ! i # ss, i, length ss)),
     mtVerify = (\<lambda>root pr i n. case pr of [] \<Rightarrow> False
       | leaf # ss \<Rightarrow> demo_root ss = root \<and> n = length ss \<and> i < n \<and> ss ! i = leaf),
     rangeOrder = (\<lambda>ps. ps)\<rparr>"

lemma demo_root_split:
  "concat (map (\<lambda>b. [1, b]) s) @ 0 # x = concat (map (\<lambda>b. [1, b]) s') @ (0 :: byte) # x' \<Longrightarrow> s = s' \<and> x = x'"
proof (induction s arbitrary: s')
  case Nil
  then show ?case by (cases s') auto
next
  case (Cons b s)
  then show ?case by (cases s') auto
qed

lemma demo_root_inj: "demo_root a = demo_root b \<Longrightarrow> a = b"
proof (induction a arbitrary: b)
  case Nil
  then show ?case by (cases b) auto
next
  case (Cons s a)
  note IH = Cons.IH and prems = Cons.prems
  show ?case
  proof (cases b)
    case Nil
    then show ?thesis using prems by simp
  next
    case (Cons s' b')
    then have "s = s' \<and> demo_root a = demo_root b'" using prems by (intro demo_root_split) simp
    then show ?thesis using IH Cons by simp
  qed
qed

lemma demo_lib_laws:
  "inj (rootOf demo_lib)"
  "prRootHash (proveAt demo_lib shards k) = rootOf demo_lib shards"
  "makeShards demo_lib nd np d = Some shards' \<Longrightarrow> \<exists>n. concat (take (nat nd) shards') = d @ replicate n 0"
proof -
  show "inj (rootOf demo_lib)"
    by (rule injI) (simp add: rootOf_def proveAt_def demo_lib_def demo_root_inj)
  show "prRootHash (proveAt demo_lib shards k) = rootOf demo_lib shards"
    by (simp add: rootOf_def proveAt_def demo_lib_def)
  have rep: "concat (replicate n [0 :: byte]) = replicate n 0" for n by (induction n) auto
  assume "makeShards demo_lib nd np d = Some shards'"
  then have "shards' = (d # replicate (nat nd - 1) [0]) @ replicate (nat np) [0]" "0 < nd"
    by (auto simp: makeShards_def demo_lib_def split: if_splits)
  then have "concat (take (nat nd) shards') = d @ replicate (nat nd - 1) 0"
    by (cases "nat nd") (auto simp: rep)
  then show "\<exists>n. concat (take (nat nd) shards') = d @ replicate n 0" by blast
qed

definition demo_proof :: "nat \<Rightarrow> ProofRequest" where
  "demo_proof k = proveAt demo_lib [[7], [0], [0], [0]] k"

definition demo_rbc_schedule :: "rbc_action list" where
  "demo_rbc_schedule =
     [RInput 0 [7], RDeliver 1 0 (ProofMsg (demo_proof 1)), RDeliver 2 0 (ProofMsg (demo_proof 2)),
      RSend 0, RSend 1, RSend 2,
      RDeliver 0 1 (EchoMsg (demo_proof 1)), RDeliver 0 2 (EchoMsg (demo_proof 2)),
      RDeliver 0 3 (EchoMsg (demo_proof 3)),
      RDeliver 1 0 (EchoMsg (demo_proof 0)), RDeliver 1 2 (EchoMsg (demo_proof 2)),
      RDeliver 1 3 (EchoMsg (demo_proof 3)), RSend 0, RSend 1,
      RDeliver 0 1 (ReadyMsg (rootOf demo_lib [[7], [0], [0], [0]])),
      RDeliver 0 3 (ReadyMsg (rootOf demo_lib [[7], [0], [0], [0]])),
      RDeliver 1 0 (ReadyMsg (rootOf demo_lib [[7], [0], [0], [0]])),
      RDeliver 1 3 (ReadyMsg (rootOf demo_lib [[7], [0], [0], [0]]))]"

definition demo_rbc_start :: "(node_id \<Rightarrow> RBC) \<times> (node_id \<times> BroadcastMessage) list" where
  "demo_rbc_start = (\<lambda>i. the (newRBC demo_lib (demo_cfg\<lparr>cfgID := i\<rparr>) 0), [])"

definition demo_rbc_end :: "(node_id \<Rightarrow> RBC) \<times> (node_id \<times> BroadcastMessage) list" where
  "demo_rbc_end = the (bind_fold (exec_rbc demo_lib [0, 1, 2] [3]) demo_rbc_schedule demo_rbc_start)"

definition demo_rbc_state :: rbc_net where
  "demo_rbc_state = \<lparr>rnNodes = fst demo_rbc_end, rnWire = set (snd demo_rbc_end), rnOut = {}\<rparr>"

lemma demo_rbc_runs:
  "bind_fold (exec_rbc demo_lib [0, 1, 2] [3]) demo_rbc_schedule demo_rbc_start \<noteq> None \<and>
   rbcOutput (fst demo_rbc_end 0) = Some [7, 0] \<and> rbcOutput (fst demo_rbc_end 1) = Some [7, 0]"
  by code_simp

lemma demo_rbc_reach: "rbc_reach demo_lib demo_cfg 0 {0, 1, 2, 3} {3} {[7]} demo_rbc_state"
proof -
  obtain ns w where e: "bind_fold (exec_rbc demo_lib [0, 1, 2] [3]) demo_rbc_schedule demo_rbc_start = Some (ns, w)"
    using demo_rbc_runs by auto
  have d: "demo_rbc_state = \<lparr>rnNodes = ns, rnWire = set w, rnOut = {}\<rparr>"
    unfolding demo_rbc_state_def demo_rbc_end_def e by simp
  have "newRBC demo_lib (demo_cfg\<lparr>cfgID := i\<rparr>) 0 = Some (fst demo_rbc_start i)" for i
    by (simp add: demo_rbc_start_def newRBC_def demo_lib_def demo_cfg_def defaultF_def Let_def)
  then have "rbc_reach demo_lib demo_cfg 0 {0, 1, 2, 3} {3} {[7]}
      \<lparr>rnNodes = fst demo_rbc_start, rnWire = {}, rnOut = {}\<rparr>"
    by (intro rbc_reach.init) simp_all
  moreover have "\<forall>i d. RInput i d \<in> set demo_rbc_schedule \<longrightarrow> d \<in> {[7]}" by (auto simp: demo_rbc_schedule_def)
  ultimately show ?thesis
    unfolding d using exec_rbc_reach [of demo_lib "[0, 1, 2]" "[3]" demo_rbc_schedule "fst demo_rbc_start" "[]" ns w "{[7]}" demo_cfg 0]
      e by (simp add: demo_rbc_start_def insert_commute)
qed

lemma demo_delivered: "delivered demo_rbc_state 0 [7, 0]" "delivered demo_rbc_state 1 [7, 0]"
  using demo_rbc_runs by (simp_all add: delivered_def demo_rbc_state_def)

section \<open>Properties\<close>

text \<open>
  C2. Agreement of the reliable broadcast: with at most \<open>F\<close> faulty nodes out of \<open>N > 3F\<close>
  (the proposer possibly among them) no two correct nodes output different values, provided
  the Merkle root determines the leaves (collision resistance of the tree's hash).
\<close>

theorem rbc_agreement:
  assumes "rbc_reach L cfg p U Z inputs s" and "fault_model U Z (cfgN cfg) (cfgF (defaultF cfg))"
    and root_binding: "inj (rootOf L)"
    and "i \<in> U - Z" and "delivered s i v" and "j \<in> U - Z" and "delivered s j w"
  shows "v = w"
proof -
  note inv = rreach_inv [OF assms(1,2)]
  let ?q = "cfgN cfg - cfgF (defaultF cfg)" and ?nd = "cfgN cfg - 2 * cfgF (defaultF cfg)"
  obtain f where f: "echoQuorum U Z ?q (rsent U Z s) (rootOf L f)" "v = concat (take (nat ?nd) f)"
    using delivered_output [OF inv assms(4,5)] by (auto simp: outputOf_def)
  obtain g where g: "echoQuorum U Z ?q (rsent U Z s) (rootOf L g)" "w = concat (take (nat ?nd) g)"
    using delivered_output [OF inv assms(6,7)] by (auto simp: outputOf_def)
  have "rootOf L f = rootOf L g" using echoQuorum_unique [OF assms(2) f(1) g(1)] echo_unique [OF inv] by blast
  then show ?thesis using root_binding f(2) g(2) by (auto dest: injD)
qed

theorem rbc_agreement_witness:
  "delivered demo_rbc_state 0 [7, 0] \<and> delivered demo_rbc_state 1 [7, 0] \<and> [7, 0] = ([7, 0] :: bytes)"
  using rbc_agreement [OF demo_rbc_reach demo_faults(1) demo_lib_laws(1) _ demo_delivered(1) _ demo_delivered(2)]
    demo_delivered by simp

text \<open>
  C13. Validity of the reliable broadcast: if a correct proposer is given \<open>data\<close>, every correct
  node that outputs a value outputs \<open>data\<close> followed by the zero padding of the erasure code.
  The hypotheses on the libraries: the root determines the leaves, every proof of one tree
  carries the same root, and the code is systematic with zero padding.
\<close>

theorem rbc_validity:
  assumes "rbc_reach L cfg p U Z {data} s" and fm: "fault_model U Z (cfgN cfg) (cfgF (defaultF cfg))"
    and root_binding: "inj (rootOf L)"
    and same_root: "\<And>shards k. k < length shards \<Longrightarrow> prRootHash (proveAt L shards k) = rootOf L shards"
    and systematic: "\<And>nd np d shards. makeShards L nd np d = Some shards \<Longrightarrow>
      \<exists>n. concat (take (nat nd) shards) = d @ replicate n 0"
    and "p \<in> U - Z" and "i \<in> U - Z" and "delivered s i v"
  shows "\<exists>n. v = data @ replicate n 0"
proof -
  note inv = rreach_inv [OF assms(1,2)]
  let ?q = "cfgN cfg - cfgF (defaultF cfg)" and ?nd = "cfgN cfg - 2 * cfgF (defaultF cfg)"
  obtain f where f: "echoQuorum U Z ?q (rsent U Z s) (rootOf L f)" "v = concat (take (nat ?nd) f)"
    using delivered_output [OF inv assms(7,8)] by (auto simp: outputOf_def)
  then obtain Q where Q: "Q \<subseteq> U" "?q \<le> int (card Q)"
    "\<forall>j \<in> Q. j \<in> Z \<or> (\<exists>pr. prRootHash pr = rootOf L f \<and> (j, EchoMsg pr) \<in> rsent U Z s)"
    unfolding echoQuorum_def by blast
  have "finite Z" "card Z < card Q" using fm Q(2) by (auto simp: fault_model_def intro: finite_subset)
  then obtain j where j: "j \<in> Q" "j \<notin> Z" using card_gt_exists_outside by blast
  then obtain pr where pr: "prRootHash pr = rootOf L f" "(j, EchoMsg pr) \<in> rsent U Z s" using Q(3) by blast
  have "echo_origin U Z p (rbc_genuine L cfg {data}) (rsent U Z s)"
    using inv by (simp add: rnet_inv_def rbc_global_def)
  then have "rbc_genuine L cfg {data} pr" using pr(2) j Q(1) assms(6) unfolding echo_origin_def by blast
  then obtain shards where sh: "makeShards L ?nd (2 * cfgF (defaultF cfg)) data = Some shards" "pr \<in> set (makeProofRequests L shards)"
    by (auto simp: rbc_genuine_def genuine_def)
  then have "prRootHash pr = rootOf L shards" using same_root by (auto simp: makeProofRequests_def)
  then have "f = shards" using pr(1) root_binding by (auto dest: injD)
  then show ?thesis using systematic [OF sh(1)] f(2) by simp
qed

theorem rbc_validity_witness: "\<exists>n. ([7, 0] :: bytes) = [7] @ replicate n 0"
  using rbc_validity [OF demo_rbc_reach demo_faults(1) demo_lib_laws(1) demo_lib_laws(2) demo_lib_laws(3) _ _ demo_delivered(2)]
  by simp

lemma fillShards_None:
  "fillShards ps shards = None \<longleftrightarrow>
     (\<exists>p \<in> set ps. prProof p = [] \<or> prIndex p < 0 \<or> int (length shards) \<le> prIndex p)"
  by (induction ps arbitrary: shards) (auto split: list.splits)

text \<open>
  C29. Decoding panics exactly when one of the stored echos for the selected root has an empty
  proof or an index outside the shard list. \<^verbatim>\<open>validateProof\<close> only checks the proof against the
  leaf count the message itself claims, so an index of \<open>N\<close> or more passes it whenever the tree
  of a faulty proposer has more than \<open>N\<close> leaves.
\<close>

theorem rbc_decode_panics:
  assumes "\<not> outputDecoded r" and "2 * rbcF r < int (countReadys h r)" and "rbcF r < int (countEchos h r)"
    and "\<And>ps. set (rangeOrder L ps) = set ps" and "0 \<le> numParityShards r + numDataShards r"
  shows "fst (tryDecodeValue L h r) = Panic \<longleftrightarrow>
    (\<exists>j e. (j, e) \<in> set (recvEchos r) \<and> prRootHash e = h \<and>
       (prProof e = [] \<or> prIndex e < 0 \<or> numParityShards r + numDataShards r \<le> prIndex e))"
proof -
  let ?n = "numParityShards r + numDataShards r"
  have prfs: "set (sortProofs L (echosFor h r)) = {e. \<exists>j. (j, e) \<in> set (recvEchos r) \<and> prRootHash e = h}"
    using assms(4) by (force simp: sortProofs_def echosFor_def)
  have "fst (tryDecodeValue L h r) = Panic \<longleftrightarrow>
      fillShards (sortProofs L (echosFor h r)) (replicate (nat ?n) []) = None"
    using assms(1-3) by (auto simp: tryDecodeValue_def Let_def split: option.splits list.splits)
  then show ?thesis using assms(5) prfs by (auto simp: fillShards_None)
qed

text \<open>Node 0 of four, three readys and two echos for a root whose tree has five leaves.\<close>

definition demo_big_tree :: "bytes list" where
  "demo_big_tree = [[1], [2], [3], [4], [5]]"

definition demo_crash_state :: RBC where
  "demo_crash_state =
     (let r0 = the (newRBC demo_lib demo_cfg 3); h = rootOf demo_lib demo_big_tree in
      fold (\<lambda>(j, m) r. snd (rbc_handleMessage demo_lib j m r))
        [(3, ProofMsg (proveAt demo_lib demo_big_tree 0)), (1, ReadyMsg h), (3, ReadyMsg h),
         (2, EchoMsg (proveAt demo_lib demo_big_tree 4))] r0)"

theorem rbc_decode_panics_witness:
  "fst (rbc_handleMessage demo_lib 2 (EchoMsg (proveAt demo_lib demo_big_tree 4))
     (demo_crash_state\<lparr>recvEchos := AList.delete 2 (recvEchos demo_crash_state)\<rparr>)) = Panic \<and>
   fst (tryDecodeValue demo_lib (rootOf demo_lib demo_big_tree) demo_crash_state) = Panic"
proof -
  have st: "\<not> outputDecoded demo_crash_state \<and>
      2 * rbcF demo_crash_state < int (countReadys (rootOf demo_lib demo_big_tree) demo_crash_state) \<and>
      rbcF demo_crash_state < int (countEchos (rootOf demo_lib demo_big_tree) demo_crash_state) \<and>
      numParityShards demo_crash_state + numDataShards demo_crash_state = 4 \<and>
      (2, proveAt demo_lib demo_big_tree 4) \<in> set (recvEchos demo_crash_state) \<and>
      prRootHash (proveAt demo_lib demo_big_tree 4) = rootOf demo_lib demo_big_tree \<and>
      prIndex (proveAt demo_lib demo_big_tree 4) = 4"
    by code_simp
  have "fst (rbc_handleMessage demo_lib 2 (EchoMsg (proveAt demo_lib demo_big_tree 4))
     (demo_crash_state\<lparr>recvEchos := AList.delete 2 (recvEchos demo_crash_state)\<rparr>)) = Panic"
    by code_simp
  moreover have "fst (tryDecodeValue demo_lib (rootOf demo_lib demo_big_tree) demo_crash_state) = Panic"
  proof (subst rbc_decode_panics)
    show "set (rangeOrder demo_lib ps) = set ps" for ps by (simp add: demo_lib_def)
    show "\<exists>j e. (j, e) \<in> set (recvEchos demo_crash_state) \<and> prRootHash e = rootOf demo_lib demo_big_tree \<and>
        (prProof e = [] \<or> prIndex e < 0 \<or> numParityShards demo_crash_state + numDataShards demo_crash_state \<le> prIndex e)"
      using st by (intro exI [of _ 2] exI [of _ "proveAt demo_lib demo_big_tree 4"]) simp
  qed (use st in simp_all)
  ultimately show ?thesis by simp
qed

section \<open>Rejected messages\<close>

definition own_slots :: "RBC \<Rightarrow> bool" where
  "own_slots r \<longleftrightarrow> (readySent r \<or> rbcID r \<notin> keys_of (recvReadys r)) \<and>
     (echoSent r \<or> rbcID r \<notin> keys_of (recvEchos r)) \<and>
     (\<forall>q. EchoMsg q \<in> set (rbcMessages r) \<longrightarrow> echoSent r) \<and>
     (\<forall>h. ReadyMsg h \<in> set (rbcMessages r) \<longrightarrow> readySent r)"

lemma step_own_slots: "rbc_step L {(sid, m)} r r' \<Longrightarrow> sid \<noteq> rbcID r \<Longrightarrow> own_slots r \<Longrightarrow> own_slots r'"
  by (induction rule: rbc_step.induct) (auto simp: own_slots_def rbacked_def)

lemma run_own_slots:
  assumes "rsteps L {(sid, m)} r r'" and "sid \<noteq> rbcID r" and "own_slots r"
  shows "own_slots r' \<and> rbcID r' = rbcID r"
  using assms(1)
proof (induction rule: rtranclp_induct)
  case base
  then show ?case using assms by simp
next
  case (step r1 r2)
  then show ?case using step_own_slots [OF step.hyps(2)] rstep_fixed [OF step.hyps(2)] assms(2)
    by (auto simp: rbc_fixed_def)
qed

lemma tryDecode_no_error: "fst (tryDecodeValue L h r) \<noteq> Err e"
  by (auto simp: tryDecodeValue_def Let_def split: option.splits list.splits)

lemma emitReady_no_error:
  "readySent r \<or> rbcID r \<notin> keys_of (recvReadys r) \<Longrightarrow> fst (emitReady L h trig r) \<noteq> Err e"
  using tryDecode_no_error by (auto simp: emitReady_def Let_def)

lemma handleEcho_error:
  assumes "fst (handleEchoRequest L sid q r) = Err e" and "readySent r \<or> rbcID r \<notin> keys_of (recvReadys r)"
  shows "snd (handleEchoRequest L sid q r) = r \<and> (sid \<in> keys_of (recvEchos r) \<or> \<not> validateProof L q)"
proof -
  have "fst (emitReady L h trig (r\<lparr>recvEchos := m\<rparr>)) \<noteq> Err e" for h trig m
    using assms(2) by (intro emitReady_no_error) simp
  then show ?thesis using assms(1) tryDecode_no_error
    by (auto simp: handleEchoRequest_def Let_def split: if_splits)
qed

text \<open>
  Rejected broadcast messages change nothing: starting from a fresh instance, a message of
  another node that is answered with an error leaves the instance exactly as it was, and the
  condition this rests on (a node's own slots are filled by its own echo and ready only) is
  kept by every message.
\<close>

theorem rbc_errors_atomic:
  assumes "own_slots r" and "sid \<noteq> rbcID r"
  shows "own_slots (snd (rbc_handleMessage L sid m r)) \<and>
    (fst (rbc_handleMessage L sid m r) = Err e \<longrightarrow> snd (rbc_handleMessage L sid m r) = r)"
proof
  show "own_slots (snd (rbc_handleMessage L sid m r))"
    using run_own_slots [OF rbc_handle_run assms(2,1)] by blast
  have slots: "readySent r \<or> rbcID r \<notin> keys_of (recvReadys r)" "echoSent r \<or> rbcID r \<notin> keys_of (recvEchos r)"
    using assms(1) by (auto simp: own_slots_def)
  show "fst (rbc_handleMessage L sid m r) = Err e \<longrightarrow> snd (rbc_handleMessage L sid m r) = r"
  proof (cases m)
    case (ProofMsg q)
    show ?thesis
    proof (cases "sid \<noteq> rbcProposerID r \<or> echoSent r \<or> \<not> validateProof L q")
      case True
      then show ?thesis using ProofMsg by (auto simp: handleProofRequest_def)
    next
      case False
      then have "fst (handleEchoRequest L (rbcID r) q r') \<noteq> Err e"
        if "recvEchos r' = recvEchos r" "recvReadys r' = recvReadys r" "readySent r' = readySent r" "rbcConfig r' = rbcConfig r" for r'
        using handleEcho_error [of L "rbcID r" q r' e] slots that by auto
      then show ?thesis using ProofMsg False by (simp add: handleProofRequest_def Let_def)
    qed
  next
    case (EchoMsg q)
    then show ?thesis using handleEcho_error [of L sid q r e] slots(1) by auto
  next
    case (ReadyMsg h)
    have "fst (emitReady L h trig (r\<lparr>recvReadys := AList.update sid h (recvReadys r)\<rparr>)) \<noteq> Err e" for trig
      using slots(1) assms(2) by (intro emitReady_no_error) auto
    then show ?thesis using ReadyMsg tryDecode_no_error
      by (auto simp: handleReadyRequest_def Let_def split: if_splits)
  qed simp
qed

theorem rbc_errors_atomic_witness:
  "own_slots demo_crash_state \<and>
   fst (rbc_handleMessage demo_lib 1 (ReadyMsg []) demo_crash_state) = Err (MultipleReadys 1) \<and>
   snd (rbc_handleMessage demo_lib 1 (ReadyMsg []) demo_crash_state) = demo_crash_state"
proof -
  have st: "rbcMessages demo_crash_state =
      [EchoMsg (proveAt demo_lib demo_big_tree 0), ReadyMsg (rootOf demo_lib demo_big_tree)] \<and>
      echoSent demo_crash_state \<and> readySent demo_crash_state \<and> rbcID demo_crash_state = 0 \<and>
      fst (rbc_handleMessage demo_lib 1 (ReadyMsg []) demo_crash_state) = Err (MultipleReadys 1)"
    by code_simp
  then have "own_slots demo_crash_state" by (simp add: own_slots_def)
  then show ?thesis
    using rbc_errors_atomic [of demo_crash_state 1 demo_lib "ReadyMsg []" "MultipleReadys 1"] st by simp
qed

end
