(* ===== verification/Trace_Facts.thy ===== *)
theory Trace_Facts
  imports Trace
begin

text \<open>
  What the recorder guarantees: a recorded point never moves, a disabled recorder never
  changes, and the outbound accounting balances, so that a sealed slot becomes final exactly
  when every scheduled send has ended.
\<close>

section \<open>Points are written once\<close>

fun aggregate_get :: "aggregateTraceEvent \<Rightarrow> ACSAggregateTrace \<Rightarrow> TracePoint" where
  "aggregate_get traceACSInputStarted a = InputStarted a"
| "aggregate_get traceACSFirstRBCOutput a = FirstRBCOutput a"
| "aggregate_get traceACSRBCOutputQuorum a = RBCOutputQuorum a"
| "aggregate_get traceACSFirstTrueBBA a = FirstTrueBBA a"
| "aggregate_get traceACSTrueBBAQuorum a = TrueBBAQuorum a"
| "aggregate_get traceACSFalseInputInjected a = FalseInputInjected a"
| "aggregate_get traceACSAllBBADecided a = AllBBADecided a"
| "aggregate_get traceACSTruthyRBCReady a = TruthyRBCReady a"
| "aggregate_get traceACSCoreDecision a = CoreDecision a"

fun rbc_get :: "rbcTraceEvent \<Rightarrow> RBCTrace \<Rightarrow> TracePoint" where
  "rbc_get traceRBCProofAccepted e = ProofAccepted e"
| "rbc_get traceRBCEchoSent e = EchoSent e"
| "rbc_get traceRBCReadySent e = ReadySent e"
| "rbc_get traceRBCDecodeEligible e = DecodeEligible e"
| "rbc_get traceRBCReconstructionStarted e = ReconstructionStarted e"
| "rbc_get traceRBCReconstructionFinished e = ReconstructionFinished e"
| "rbc_get traceRBCOutputStored e = OutputStored e"

definition bba_points :: "BBATrace \<Rightarrow> (TracePoint \<times> bool) list" where
  "bba_points e = [(InputPoint e, InputValue e), (FirstBinValue e, FirstBin e), (FirstAux e, FirstAuxValue e),
     (ValidAuxQuorum e, False), (DecisionPoint e, DecisionValue e), (DonePoint e, False)]"

text \<open>\<open>extends t t'\<close>: every point recorded in \<open>t\<close> is in \<open>t'\<close> as it was, with its value.\<close>

definition extends :: "ACSTrace \<Rightarrow> ACSTrace \<Rightarrow> bool" where
  "extends t t' \<longleftrightarrow>
     (\<forall>e. Recorded (aggregate_get e (Aggregate t)) \<longrightarrow> aggregate_get e (Aggregate t') = aggregate_get e (Aggregate t)) \<and>
     (\<forall>p x. map_of (RBCs t) p = Some x \<longrightarrow> (\<exists>y. map_of (RBCs t') p = Some y \<and>
        (\<forall>e. Recorded (rbc_get e x) \<longrightarrow> rbc_get e y = rbc_get e x) \<and>
        (ReadyTrigger x \<noteq> NoTrigger \<longrightarrow> ReadyTrigger y = ReadyTrigger x))) \<and>
     (\<forall>p x. map_of (BBAs t) p = Some x \<longrightarrow> (\<exists>y. map_of (BBAs t') p = Some y \<and> MaxEpoch x \<le> MaxEpoch y \<and>
        list_all2 (\<lambda>a b. Recorded (fst a) \<longrightarrow> b = a) (bba_points x) (bba_points y)))"

lemma pointLocked_recorded: "Recorded p \<Longrightarrow> pointLocked now r p = (False, p)"
  by (simp add: pointLocked_def)

lemma aggregate_point_get:
  "aggregate_get e (aggregate_point e' f a) = (if e = e' then f (aggregate_get e a) else aggregate_get e a)"
  by (cases e; cases e') simp_all

lemma rbc_point_get: "rbc_get e (rbc_point e' f a) = (if e = e' then f (rbc_get e a) else rbc_get e a)"
  by (cases e; cases e') simp_all

lemma rbc_point_trigger [simp]: "ReadyTrigger (rbc_point e f a) = ReadyTrigger a"
  by (cases e) simp_all

lemma extends_refl [simp]: "extends t t"
  by (auto simp: extends_def list_all2_same)

lemma extends_aggregate:
  assumes "Aggregate t' = aggregate_point e (\<lambda>p. snd (pointLocked now r p)) (Aggregate t)" "RBCs t' = RBCs t" "BBAs t' = BBAs t"
  shows "extends t t'"
  using assms by (auto simp: extends_def aggregate_point_get pointLocked_recorded list_all2_same)

lemma extends_rbc:
  assumes "map_of (RBCs t) p = Some x" "RBCs t' = AList.update p y (RBCs t)" "Aggregate t' = Aggregate t" "BBAs t' = BBAs t"
    and "\<forall>e. Recorded (rbc_get e x) \<longrightarrow> rbc_get e y = rbc_get e x"
    and "ReadyTrigger x \<noteq> NoTrigger \<longrightarrow> ReadyTrigger y = ReadyTrigger x"
  shows "extends t t'"
  using assms by (auto simp: extends_def list_all2_same)

lemma extends_bba:
  assumes "map_of (BBAs t) p = Some x" "BBAs t' = AList.update p y (BBAs t)" "Aggregate t' = Aggregate t" "RBCs t' = RBCs t"
    and "MaxEpoch x \<le> MaxEpoch y" and "list_all2 (\<lambda>a b. Recorded (fst a) \<longrightarrow> b = a) (bba_points x) (bba_points y)"
  shows "extends t t'"
  using assms by (auto simp: extends_def list_all2_same)

lemma extends_same: "Aggregate t' = Aggregate t \<Longrightarrow> RBCs t' = RBCs t \<Longrightarrow> BBAs t' = BBAs t \<Longrightarrow> extends t t'"
  by (auto simp: extends_def list_all2_same)

lemma bba_event_points:
  "list_all2 (\<lambda>a b. Recorded (fst a) \<longrightarrow> b = a) (bba_points x) (bba_points (bba_event now r e v x))"
  "MaxEpoch (bba_event now r e v x) = MaxEpoch x"
  by (cases e; auto simp: bba_points_def pointLocked_def Let_def split: prod.splits if_splits)+

lemma bba_points_epoch [simp]: "bba_points (x\<lparr>MaxEpoch := k\<rparr>) = bba_points x"
  by (simp add: bba_points_def)

lemma recordRBC_extends: "extends (trTrace r) (trTrace (recordRBC now p e r))"
  by (auto simp: recordRBC_def put_rbc_def rbc_point_get pointLocked_recorded split: option.splits
      intro!: extends_rbc [of _ p])

lemma recordRBCReady_extends: "extends (trTrace r) (trTrace (recordRBCReady now p t ec rc r))"
proof -
  have "rbc_get e (x\<lparr>ReadySent := q, ReadyTrigger := t, ReadyTriggerEchoCount := int ec, ReadyTriggerReadyCount := int rc\<rparr>) =
      (if e = traceRBCReadySent then q else rbc_get e x)" for e x q
    by (cases e) simp_all
  then show ?thesis
    by (auto simp: recordRBCReady_def put_rbc_def pointLocked_recorded split: option.splits intro!: extends_rbc [of _ p])
qed

lemma recordBBA_extends: "extends (trTrace r) (trTrace (recordBBA now p e v ep r))"
proof -
  have "extends (trTrace r) (trTrace (put_bba p (bba_event now r e v (x\<lparr>MaxEpoch := k\<rparr>)) r))"
    if "map_of (BBAs (trTrace r)) p = Some x" "MaxEpoch x \<le> k" for x k
    using that bba_event_points [where x = "x\<lparr>MaxEpoch := k\<rparr>" and now = now and r = r and e = e and v = v]
    by (intro extends_bba [of _ p x]) (auto simp: put_bba_def)
  note step = this
  show ?thesis
  proof (cases "trEnabled r \<and> trStarted r \<and> map_of (BBAs (trTrace r)) p \<noteq> None")
    case False
    then show ?thesis by (auto simp: recordBBA_def split: option.splits)
  next
    case True
    then obtain x where x: "map_of (BBAs (trTrace r)) p = Some x" by auto
    have "recordBBA now p e v ep r = put_bba p (bba_event now r e v (x\<lparr>MaxEpoch := max ep (MaxEpoch x)\<rparr>)) r"
      using True x by (simp add: recordBBA_def Let_def max_def not_less)
    then show ?thesis using step [OF x, of "max ep (MaxEpoch x)"] by simp
  qed
qed

lemma finishWaitLocked_points:
  "Aggregate (trTrace (finishWaitLocked now r)) = Aggregate (trTrace r)" "RBCs (trTrace (finishWaitLocked now r)) = RBCs (trTrace r)"
  "BBAs (trTrace (finishWaitLocked now r)) = BBAs (trTrace r)"
  by (simp_all add: finishWaitLocked_def Let_def)

lemma apply_call_extends: "extends (trTrace r) (trTrace (apply_call now c r))"
proof (cases c)
  case (CallAggregate e)
  then show ?thesis by (auto simp: recordAggregate_def intro!: extends_aggregate)
next
  case (CallTransitionWait w)
  then show ?thesis by (auto simp: transitionWait_def finishWaitLocked_points intro!: extends_same)
next
  case CallFinishWait
  then show ?thesis by (auto simp: finishWait_def finishWaitLocked_points intro!: extends_same)
next
  case (CallAdapter e)
  then show ?thesis by (auto simp: recordAdapter_def Let_def intro!: extends_same)
qed (simp_all add: recordRBC_extends recordRBCReady_extends recordBBA_extends)

section \<open>Outbound accounting\<close>

text \<open>
  Per subtype: no more ends than starts, every end is a success or a failure, and every
  success has used a new or a reused stream. A sealed recorder is final exactly when nothing is
  pending; only a sealed recorder is final.
\<close>

definition balanced :: "ACSMessageTrace \<Rightarrow> bool" where
  "balanced e \<longleftrightarrow> TerminalCount e \<le> ScheduledCount e \<and> OutboundCount e + SendFailureCount e = TerminalCount e \<and>
     SendCount e = OutboundCount e \<and> StreamOpenCount e + StreamReuseCount e = OutboundCount e"

definition accounting :: "traceRecorder \<Rightarrow> bool" where
  "accounting r \<longleftrightarrow> trEnabled r \<and> (\<forall>t \<in> set acsMessageSubtypes. map_of (Messages (trTrace r)) t \<noteq> None) \<and>
     (\<forall>t. map_of (Messages (trTrace r)) t \<noteq> None \<longrightarrow> t \<in> set acsMessageSubtypes) \<and>
     (\<forall>t. balanced (msg_entry t r)) \<and>
     Finalized (Transport (trTrace r)) = (Sealed (Transport (trTrace r)) \<and> allMessagesTerminalLocked r)"

lemma balanced_empty: "balanced emptyMessageTrace"
  by (simp add: balanced_def emptyMessageTrace_def)

lemma msg_entry_put: "msg_entry t (put_msg u e r) = (if t = u then e else msg_entry t r)"
  by (simp add: msg_entry_def put_msg_def)

lemma put_msg_fields [simp]:
  "trEnabled (put_msg u e r) = trEnabled r" "trStarted (put_msg u e r) = trStarted r"
  "Transport (trTrace (put_msg u e r)) = Transport (trTrace r)"
  "map_of (Messages (trTrace (put_msg u e r))) = (map_of (Messages (trTrace r)))(u \<mapsto> e)"
  by (simp_all add: put_msg_def)

lemma set_transport_fields [simp]:
  "msg_entry t (set_transport f r) = msg_entry t r" "trEnabled (set_transport f r) = trEnabled r"
  "Messages (trTrace (set_transport f r)) = Messages (trTrace r)"
  "Transport (trTrace (set_transport f r)) = f (Transport (trTrace r))"
  "allMessagesTerminalLocked (set_transport f r) = allMessagesTerminalLocked r"
  by (simp_all add: set_transport_def msg_entry_def allMessagesTerminalLocked_def)

lemma msg_entry_some: "map_of (Messages (trTrace r)) t = Some e \<Longrightarrow> msg_entry t r = e"
  by (simp add: msg_entry_def)

lemma allTerminal_iff:
  "allMessagesTerminalLocked r \<longleftrightarrow> (\<forall>t \<in> set acsMessageSubtypes. TerminalCount (msg_entry t r) = ScheduledCount (msg_entry t r))"
  by (simp add: allMessagesTerminalLocked_def list_all_iff)

lemma completed_balanced:
  assumes "balanced e" and "TerminalCount e < ScheduledCount e"
  shows "balanced (recordCompletedSend obs (e\<lparr>TerminalCount := TerminalCount e + 1\<rparr>))"
    and "TerminalCount (recordCompletedSend obs (e\<lparr>TerminalCount := TerminalCount e + 1\<rparr>)) = TerminalCount e + 1"
    and "ScheduledCount (recordCompletedSend obs (e\<lparr>TerminalCount := TerminalCount e + 1\<rparr>)) = ScheduledCount e"
  using assms by (auto simp: balanced_def recordCompletedSend_def Let_def)

lemma begin_accounting:
  assumes "accounting r"
  shows "accounting (snd (beginMessageOutbound t r))"
proof (cases "Sealed (Transport (trTrace r)) \<or> map_of (Messages (trTrace r)) t = None")
  case True
  then have "snd (beginMessageOutbound t r) = r" by (auto simp: beginMessageOutbound_def split: option.splits)
  then show ?thesis using assms by simp
next
  case False
  then obtain e where e: "map_of (Messages (trTrace r)) t = Some e" by auto
  have "trEnabled r" using assms by (simp add: accounting_def)
  then have eq: "snd (beginMessageOutbound t r) = put_msg t (e\<lparr>ScheduledCount := ScheduledCount e + 1\<rparr>) r"
    using False e by (simp add: beginMessageOutbound_def)
  have "balanced e" using assms msg_entry_some [OF e] by (auto simp: accounting_def)
  then have "balanced (e\<lparr>ScheduledCount := ScheduledCount e + 1\<rparr>)" by (simp add: balanced_def)
  then show ?thesis using assms False unfolding eq by (simp add: accounting_def msg_entry_put)
qed

lemma complete_accounting:
  assumes acc: "accounting r"
  shows "accounting (completeMessageOutbound t obs r)"
proof (cases "map_of (Messages (trTrace r)) t")
  case None
  then show ?thesis using acc by (simp add: completeMessageOutbound_def)
next
  case (Some e)
  let ?e = "recordCompletedSend obs (e\<lparr>TerminalCount := TerminalCount e + 1\<rparr>)" and ?r = "put_msg t (recordCompletedSend obs (e\<lparr>TerminalCount := TerminalCount e + 1\<rparr>)) r"
  have b: "balanced e" using acc msg_entry_some [OF Some] by (auto simp: accounting_def)
  show ?thesis
  proof (cases "TerminalCount e < ScheduledCount e")
    case False
    then show ?thesis using acc Some by (simp add: completeMessageOutbound_def)
  next
    case True
    have t: "t \<in> set acsMessageSubtypes" using acc Some by (auto simp: accounting_def)
    then have "\<not> allMessagesTerminalLocked r" using True msg_entry_some [OF Some] by (auto simp: allTerminal_iff intro!: bexI [of _ t])
    then have nf: "\<not> Finalized (Transport (trTrace r))" using acc by (simp add: accounting_def)
    have "balanced (msg_entry u ?r)" for u
      using acc completed_balanced(1) [OF b True] by (simp add: accounting_def msg_entry_put)
    then show ?thesis using acc nf t Some True
      by (auto simp: completeMessageOutbound_def Let_def accounting_def split: if_splits)
  qed
qed

lemma seal_fold:
  "map_of (Messages (trTrace (fold seal_subtype ts r))) t =
     (if t \<in> set ts then Some ((msg_entry t r)\<lparr>PendingAtDecision :=
        sub64 (ScheduledCount (msg_entry t r)) (TerminalCount (msg_entry t r))\<rparr>) else map_of (Messages (trTrace r)) t)"
  "trEnabled (fold seal_subtype ts r) = trEnabled r" "Transport (trTrace (fold seal_subtype ts r)) = Transport (trTrace r)"
proof (induction ts arbitrary: r)
  case (Cons u ts)
  case 1
  show ?case using Cons(1) [of "seal_subtype u r"] by (auto simp: seal_subtype_def Let_def msg_entry_put)
next
  case (Cons u ts)
  case 2
  show ?case using Cons(2) [of "seal_subtype u r"] by (simp add: seal_subtype_def Let_def)
next
  case (Cons u ts)
  case 3
  show ?case using Cons(3) [of "seal_subtype u r"] by (simp add: seal_subtype_def Let_def)
qed simp_all

lemma seal_accounting:
  assumes acc: "accounting r" and unsealed: "\<not> Sealed (Transport (trTrace r))"
  shows "accounting (sealMessageOutbound r) \<and> Sealed (Transport (trTrace (sealMessageOutbound r))) \<and>
    (\<forall>t. ScheduledCount (msg_entry t (sealMessageOutbound r)) = ScheduledCount (msg_entry t r) \<and>
         TerminalCount (msg_entry t (sealMessageOutbound r)) = TerminalCount (msg_entry t r))"
proof -
  let ?r1 = "fold seal_subtype acsMessageSubtypes r" and ?s = "sealMessageOutbound r"
  have en: "trEnabled r" using acc by (simp add: accounting_def)
  have eq: "?s = set_transport (\<lambda>x. x\<lparr>Finalized := allMessagesTerminalLocked ?r1\<rparr>)
      (set_transport (\<lambda>x. x\<lparr>Sealed := True\<rparr>) ?r1)"
    using en unsealed by (simp add: sealMessageOutbound_def Let_def)
  have me: "msg_entry t ?s = msg_entry t ?r1" for t unfolding eq by simp
  have pend: "msg_entry t ?r1 = (if t \<in> set acsMessageSubtypes then (msg_entry t r)\<lparr>PendingAtDecision :=
        sub64 (ScheduledCount (msg_entry t r)) (TerminalCount (msg_entry t r))\<rparr> else msg_entry t r)" for t
    by (simp add: msg_entry_def [of t ?r1] seal_fold) (simp add: msg_entry_def)
  have counts: "ScheduledCount (msg_entry t ?s) = ScheduledCount (msg_entry t r)"
    "TerminalCount (msg_entry t ?s) = TerminalCount (msg_entry t r)" "balanced (msg_entry t ?s)" for t
    unfolding me pend using acc by (simp_all add: accounting_def balanced_def)
  have "\<forall>t. map_of (Messages (trTrace ?s)) t \<noteq> None \<longleftrightarrow> t \<in> set acsMessageSubtypes"
    using acc unfolding eq by (auto simp: seal_fold accounting_def)
  moreover have "trEnabled ?s" "Sealed (Transport (trTrace ?s))"
    "Finalized (Transport (trTrace ?s)) = allMessagesTerminalLocked ?s"
    unfolding eq using en by (simp_all add: seal_fold)
  ultimately show ?thesis using counts by (simp add: accounting_def)
qed

lemma new_accounting: "accounting (newTraceRecorder nodes True)"
proof -
  have m: "Messages (trTrace (newTraceRecorder nodes True)) = map (\<lambda>t. (t, emptyMessageTrace)) acsMessageSubtypes"
    by (simp add: newTraceRecorder_def acsMessageSubtypes_def)
  have me: "msg_entry t (newTraceRecorder nodes True) = emptyMessageTrace" for t
    unfolding msg_entry_def m by (auto simp: acsMessageSubtypes_def)
  show ?thesis
    unfolding accounting_def me allTerminal_iff m
    by (auto simp: balanced_empty newTraceRecorder_def emptyTrace_def acsMessageSubtypes_def)
qed

lemma complete_counts:
  assumes acc: "accounting r"
  shows "ScheduledCount (msg_entry u (completeMessageOutbound t obs r)) = ScheduledCount (msg_entry u r) \<and>
    TerminalCount (msg_entry u (completeMessageOutbound t obs r)) =
      (if u = t \<and> t \<in> set acsMessageSubtypes then min (ScheduledCount (msg_entry u r)) (TerminalCount (msg_entry u r) + 1)
       else TerminalCount (msg_entry u r)) \<and>
    Sealed (Transport (trTrace (completeMessageOutbound t obs r))) = Sealed (Transport (trTrace r))"
proof (cases "map_of (Messages (trTrace r)) t")
  case None
  then have "t \<notin> set acsMessageSubtypes" using acc by (auto simp: accounting_def)
  then show ?thesis using None by (simp add: completeMessageOutbound_def)
next
  case (Some e)
  have e: "msg_entry t r = e" using Some by (rule msg_entry_some)
  have t: "t \<in> set acsMessageSubtypes" using acc Some by (auto simp: accounting_def)
  have bal: "balanced e" using acc e by (auto simp: accounting_def)
  show ?thesis
  proof (cases "TerminalCount e < ScheduledCount e")
    case True
    then show ?thesis
      using Some e t bal completed_balanced(2,3) [of e obs]
      by (auto simp: completeMessageOutbound_def Let_def msg_entry_put)
  next
    case False
    then show ?thesis using Some e t bal by (simp add: completeMessageOutbound_def balanced_def)
  qed
qed

lemma complete_all:
  assumes "accounting r"
  shows "accounting (fold (\<lambda>(t, obs). completeMessageOutbound t obs) cs r) \<and>
    (\<forall>t \<in> set acsMessageSubtypes.
      ScheduledCount (msg_entry t (fold (\<lambda>(t, obs). completeMessageOutbound t obs) cs r)) = ScheduledCount (msg_entry t r) \<and>
      TerminalCount (msg_entry t (fold (\<lambda>(t, obs). completeMessageOutbound t obs) cs r)) =
        min (ScheduledCount (msg_entry t r)) (TerminalCount (msg_entry t r) + count_list (map fst cs) t)) \<and>
    Sealed (Transport (trTrace (fold (\<lambda>(t, obs). completeMessageOutbound t obs) cs r))) = Sealed (Transport (trTrace r))"
  using assms
proof (induction cs arbitrary: r)
  case Nil
  then show ?case by (auto simp: accounting_def balanced_def)
next
  case (Cons c cs)
  obtain t obs where c: "c = (t, obs)" by force
  have acc: "accounting (completeMessageOutbound t obs r)" using Cons.prems by (rule complete_accounting)
  show ?case
    using Cons.IH [OF acc] complete_counts [OF Cons.prems, of _ t obs] c by auto
qed

section \<open>Properties\<close>

text \<open>
  Recorded points never move: whatever call the protocol makes on the recorder, every
  aggregate, broadcast and agreement point that has been recorded keeps its offset and the value
  recorded with it, the trigger of a ready is kept, and the highest epoch never decreases.
\<close>

theorem trace_points_write_once: "extends (trTrace r) (trTrace (apply_call now c r))"
  by (rule apply_call_extends)

text \<open>
  The outbound accounting balances: starting from a new enabled recorder, scheduling,
  completing and sealing sends keeps, per subtype, no more ends than starts, every end counted
  once as a success or a failure, every success with one stream, and the slot final exactly
  when it is sealed with nothing pending.
\<close>

theorem trace_accounting_balances:
  assumes "accounting r"
  shows "accounting (snd (beginMessageOutbound t r)) \<and> accounting (completeMessageOutbound t obs r) \<and>
    accounting (sealMessageOutbound r) \<and> accounting (newTraceRecorder nodes True)"
proof -
  have "accounting (sealMessageOutbound r)"
  proof (cases "Sealed (Transport (trTrace r))")
    case True
    then show ?thesis using assms by (simp add: sealMessageOutbound_def)
  next
    case False
    then show ?thesis using seal_accounting [OF assms] by simp
  qed
  then show ?thesis using begin_accounting complete_accounting new_accounting assms by simp
qed

theorem trace_accounting_balances_witness:
  "accounting (sealMessageOutbound (newTraceRecorder [0, 1] True))"
  using trace_accounting_balances [OF new_accounting, of undefined "[0, 1]" undefined "[0, 1]"] by blast

text \<open>
  A sealed slot becomes final: once every send that was pending when the slot was sealed has
  completed, successfully or not and in whatever order, the recorder reports the slot final.
\<close>

theorem trace_finalizes:
  assumes "accounting r" and "Sealed (Transport (trTrace r))"
    and "\<And>t. t \<in> set acsMessageSubtypes \<Longrightarrow>
      ScheduledCount (msg_entry t r) - TerminalCount (msg_entry t r) \<le> count_list (map fst cs) t"
  shows "traceFinalized (fold (\<lambda>(t, obs). completeMessageOutbound t obs) cs r)"
proof -
  let ?r = "fold (\<lambda>(t, obs). completeMessageOutbound t obs) cs r"
  note all = complete_all [OF assms(1), of cs]
  have "TerminalCount (msg_entry t ?r) = ScheduledCount (msg_entry t ?r)" if "t \<in> set acsMessageSubtypes" for t
    using all assms(3) [OF that] that by (auto simp: min_def)
  then have "allMessagesTerminalLocked ?r" by (simp add: allTerminal_iff)
  then show ?thesis using all assms(2) by (simp add: accounting_def traceFinalized_def)
qed

definition demo_obs :: ACSSendObservation where
  "demo_obs = \<lparr>ObsSize = 10, ObsTotal = 5000, ObsEncode = 1, ObsQueueWait = 1, ObsStreamOpen = 1, ObsWrite = 1,
     ObsFinalize = 1, ObsReused = False, ObsErr = False\<rparr>"

theorem trace_finalizes_witness:
  "traceFinalized (completeMessageOutbound ACSMessageEcho demo_obs
     (sealMessageOutbound (snd (beginMessageOutbound ACSMessageEcho (newTraceRecorder [0] True)))))"
proof -
  let ?r = "snd (beginMessageOutbound ACSMessageEcho (newTraceRecorder [0] True))"
  have acc: "accounting ?r" using begin_accounting [OF new_accounting] .
  have un: "\<not> Sealed (Transport (trTrace ?r))" by code_simp
  have pend: "\<forall>t \<in> set acsMessageSubtypes. ScheduledCount (msg_entry t (sealMessageOutbound ?r)) -
      TerminalCount (msg_entry t (sealMessageOutbound ?r)) \<le> count_list (map fst [(ACSMessageEcho, demo_obs)]) t" by code_simp
  show ?thesis
    using trace_finalizes [of "sealMessageOutbound ?r" "[(ACSMessageEcho, demo_obs)]"] seal_accounting [OF acc un] pend by simp
qed

end
