(* ===== verification/Go_Bytes.thy ===== *)
theory Go_Bytes
  imports Prelude
begin

text \<open>
  The parts of Go's standard library for strings and bytes that the components use: case
  folding and trimming of ASCII strings, decimal and hexadecimal conversions
  (\<^verbatim>\<open>strconv\<close>, \<^verbatim>\<open>math/big\<close>, \<^verbatim>\<open>encoding/hex\<close>), big-endian numbers
  (\<^verbatim>\<open>encoding/binary\<close>) and length-prefixed fields, with the round trips of the conversions.
\<close>

section \<open>Strings\<close>

definition is_ascii :: "string \<Rightarrow> bool" where
  "is_ascii s = list_all (\<lambda>c. of_char c < (128 :: nat)) s"

definition lowerChar :: "char \<Rightarrow> char" where
  "lowerChar c = (let n = of_char c :: nat in if 65 \<le> n \<and> n \<le> 90 then char_of (n + 32) else c)"

definition ToLower :: "(string \<Rightarrow> string) \<Rightarrow> string \<Rightarrow> string" where
  "ToLower uni s = (if is_ascii s then map lowerChar s else uni s)"

definition isSpace :: "char \<Rightarrow> bool" where
  "isSpace c = (let n = of_char c :: nat in n = 32 \<or> (9 \<le> n \<and> n \<le> 13))"

definition TrimSpace :: "(string \<Rightarrow> string) \<Rightarrow> string \<Rightarrow> string" where
  "TrimSpace uni s =
     (if is_ascii s then rev (dropWhile isSpace (rev (dropWhile isSpace s))) else uni s)"

definition TrimPrefix :: "string \<Rightarrow> string \<Rightarrow> string" where
  "TrimPrefix s p = (if take (length p) s = p then drop (length p) s else s)"

definition digitOf :: "char \<Rightarrow> nat option" where
  "digitOf c = (let n = of_char c :: nat in if 48 \<le> n \<and> n \<le> 57 then Some (n - 48) else None)"

fun parseDigits :: "nat \<Rightarrow> string \<Rightarrow> nat option" where
  "parseDigits acc [] = Some acc"
| "parseDigits acc (c # cs) =
     (case digitOf c of None \<Rightarrow> None | Some d \<Rightarrow> parseDigits (acc * 10 + d) cs)"

text \<open>\<^verbatim>\<open>big.Int.SetString(raw, 10)\<close>: an optional sign and at least one digit.\<close>

definition SetString10 :: "string \<Rightarrow> int option" where
  "SetString10 raw =
     (let (neg, digits) = (case raw of
          [] \<Rightarrow> (False, [])
        | c # cs \<Rightarrow> if c = CHR ''-'' then (True, cs) else if c = CHR ''+'' then (False, cs) else (False, raw))
      in if digits = [] then None
         else map_option (\<lambda>n. if neg then - int n else int n) (parseDigits 0 digits))"

definition hexDigit :: "nat \<Rightarrow> char" where
  "hexDigit n = (if n < 10 then char_of (48 + n) else char_of (87 + n))"

definition hexEncode :: "bytes \<Rightarrow> string" where
  "hexEncode bs = concat (map (\<lambda>b. [hexDigit (unat b div 16), hexDigit (unat b mod 16)]) bs)"

section \<open>Big-endian numbers\<close>

fun beBytes :: "nat \<Rightarrow> bytes" where
  "beBytes n = (if n < 256 then [of_nat n] else beBytes (n div 256) @ [of_nat (n mod 256)])"

declare beBytes.simps [simp del]

definition beNat :: "bytes \<Rightarrow> nat" where
  "beNat bs = foldl (\<lambda>acc b. acc * 256 + unat b) 0 bs"

lemma beBytes_len: "n < 256 ^ k \<Longrightarrow> 0 < k \<Longrightarrow> length (beBytes n) \<le> k"
proof (induction n arbitrary: k rule: beBytes.induct)
  case (1 n)
  show ?case
  proof (cases "n < 256")
    case True
    then show ?thesis using 1(3) by (simp add: beBytes.simps [of n])
  next
    case False
    obtain k' where k: "k = Suc k'" using 1(3) by (cases k) auto
    have "n div 256 < 256 ^ k'" using 1(2) k by (simp add: less_mult_imp_div_less mult.commute)
    moreover have "0 < k'" using 1(2) k False by (cases k') auto
    ultimately have "length (beBytes (n div 256)) \<le> k'" using 1(1) [OF False] by blast
    then show ?thesis using False k by (simp add: beBytes.simps [of n])
  qed
qed

lemma beBytes_nonempty: "0 < length (beBytes n)"
  by (simp add: beBytes.simps [of n])

lemma unat_of_byte: "n < 256 \<Longrightarrow> unat (of_nat n :: byte) = n"
  by (simp add: unat_of_nat)

lemma beNat_snoc: "beNat (bs @ [b]) = beNat bs * 256 + unat b"
  by (simp add: beNat_def)

lemma beNat_beBytes: "beNat (beBytes n) = n"
proof (induction n rule: beBytes.induct)
  case (1 n)
  show ?case
  proof (cases "n < 256")
    case True
    then show ?thesis by (simp add: beBytes.simps [of n] beNat_def unat_of_byte)
  next
    case False
    have "unat (of_nat (n mod 256) :: byte) = n mod 256" by (rule unat_of_byte) simp
    then show ?thesis using 1 False by (simp add: beBytes.simps [of n] beNat_snoc)
  qed
qed


text \<open>\<^verbatim>\<open>binary.Write\<close> and \<^verbatim>\<open>binary.Read\<close> of a \<^verbatim>\<open>uint64\<close> in big-endian order.\<close>

primrec beFixed :: "nat \<Rightarrow> nat \<Rightarrow> bytes" where
  "beFixed 0 n = []"
| "beFixed (Suc k) n = beFixed k (n div 256) @ [of_nat (n mod 256)]"

abbreviation be64 :: "nat \<Rightarrow> bytes" where
  "be64 \<equiv> beFixed 8"

definition readUint64 :: "bytes \<Rightarrow> (nat \<times> bytes) option" where
  "readUint64 bs = (if length bs < 8 then None else Some (beNat (take 8 bs), drop 8 bs))"

lemma length_beFixed [simp]: "length (beFixed k n) = k"
  by (induction k arbitrary: n) auto

lemma unat_byte_mod [simp]: "unat (of_nat (n mod 256) :: byte) = n mod 256"
  by (rule unat_of_byte) simp

lemma beNat_beFixed: "n < 256 ^ k \<Longrightarrow> beNat (beFixed k n) = n"
proof (induction k arbitrary: n)
  case (Suc k)
  then have "n div 256 < 256 ^ k" by (simp add: less_mult_imp_div_less mult.commute)
  then show ?case using Suc.IH by (simp add: beNat_snoc)
qed (simp add: beNat_def)

lemma beNat_be64: "n < 2 ^ 64 \<Longrightarrow> beNat (be64 n) = n"
  by (rule beNat_beFixed) simp

lemma readUint64_be64: "n < 2 ^ 64 \<Longrightarrow> readUint64 (be64 n @ rest) = Some (n, rest)"
  by (simp add: readUint64_def beNat_be64)

section \<open>Decimal numbers\<close>

fun showNat :: "nat \<Rightarrow> string" where
  "showNat n = (if n < 10 then [char_of (48 + n)] else showNat (n div 10) @ [char_of (48 + n mod 10)])"

declare showNat.simps [simp del]

definition showInt :: "int \<Rightarrow> string" where
  "showInt n = (if n < 0 then CHR ''-'' # showNat (nat (- n)) else showNat (nat n))"

definition showBool :: "bool \<Rightarrow> string" where
  "showBool b = (if b then ''true'' else ''false'')"

fun joinWith :: "string \<Rightarrow> string list \<Rightarrow> string" where
  "joinWith sep [] = []"
| "joinWith sep [x] = x"
| "joinWith sep (x # y # ys) = x @ sep @ joinWith sep (y # ys)"

definition strBytes :: "string \<Rightarrow> bytes" where
  "strBytes s = map (\<lambda>c. of_nat (of_char c)) s"

section \<open>Hexadecimal\<close>

definition fromHexChar :: "char \<Rightarrow> nat option" where
  "fromHexChar c =
     (let n = of_char c :: nat in
      if 48 \<le> n \<and> n \<le> 57 then Some (n - 48)
      else if 97 \<le> n \<and> n \<le> 102 then Some (n - 87)
      else if 65 \<le> n \<and> n \<le> 70 then Some (n - 55)
      else None)"

text \<open>\<^verbatim>\<open>hex.DecodeString\<close>; \<^term>\<open>None\<close> for an odd length or a byte that is not a digit.\<close>

fun hexDecode :: "string \<Rightarrow> bytes option" where
  "hexDecode [] = Some []"
| "hexDecode [c] = None"
| "hexDecode (c # d # cs) =
     (case (fromHexChar c, fromHexChar d) of
        (Some h, Some l) \<Rightarrow> map_option (\<lambda>bs. of_nat (16 * h + l) # bs) (hexDecode cs)
      | _ \<Rightarrow> None)"

lemma fromHexChar_hexDigit [simp]: "n < 16 \<Longrightarrow> fromHexChar (hexDigit n) = Some n"
  by (simp add: fromHexChar_def hexDigit_def Let_def)

lemma hexDecode_encode [simp]: "hexDecode (hexEncode bs) = Some bs"
proof (induction bs)
  case (Cons b bs)
  have "unat b < 256" using unsigned_less [of b, where 'a=nat] by simp
  then have "unat b div 16 < 16" "unat b mod 16 < 16" by auto
  then show ?case using Cons by (simp add: hexEncode_def)
qed (simp add: hexEncode_def)

section \<open>A budget of 64-bit words\<close>

text \<open>The test \<^verbatim>\<open>cost > limit - used\<close> that guards an addition keeps the sum exact and within the limit.\<close>

lemma budget_fits:
  fixes used cost limit :: "64 word"
  assumes "used \<le> limit" and "\<not> cost > limit - used"
  shows "used + cost \<le> limit" and "unat (used + cost) = unat used + unat cost" and "used \<le> used + cost"
proof -
  have fits: "unat cost + unat used \<le> unat limit"
    using assms by (auto simp: word_le_nat_alt word_less_nat_alt unat_sub_if')
  then show sum: "unat (used + cost) = unat used + unat cost"
    using unsigned_less [of limit, where 'a=nat] by (auto simp: unat_word_ariths)
  show "used + cost \<le> limit" "used \<le> used + cost" using fits sum by (simp_all add: word_le_nat_alt)
qed

lemma budget_exceeded:
  fixes used cost limit :: "64 word"
  assumes "used \<le> limit" and "cost > limit - used"
  shows "unat limit < unat used + unat cost"
  using assms by (auto simp: word_le_nat_alt word_less_nat_alt unat_sub_if')

end
