(* ===== verification/Mempool_Il.thy ===== *)
theory Mempool_Il
  imports Go_Bytes
begin

text \<open>
  The mempool sidecar that proposes inclusion lists: \<^verbatim>\<open>mempool-il/internal/mempool\<close> (types,
  store, classifier, the poll of the reader) and \<^verbatim>\<open>mempool-il/internal/inclusion\<close> (the list
  builder).

  A pointer to a \<^verbatim>\<open>big.Int\<close> is an optional integer. SHA-256, go-ethereum's \<^verbatim>\<open>HexToHash\<close>, the
  iteration order of the store's map and the Unicode cases of the string functions are the
  parameter record \<open>mp_env\<close>.
\<close>

section \<open>Transactions\<close>

datatype TxKind = TxKindUnset | TxKindPlaintext | TxKindPlaceholder | OtherKind string

primrec kindString :: "TxKind \<Rightarrow> string" where
  "kindString TxKindUnset = ''''"
| "kindString TxKindPlaintext = ''plaintext''"
| "kindString TxKindPlaceholder = ''placeholder''"
| "kindString (OtherKind s) = s"

record PlaceholderData =
  pdCommitmentHex :: string
  pdRequestedGas :: "64 word"
  pdEncryptedPayloadHex :: string
  pdEncryptedPayloadHash :: string
  pdCalldataBytes :: int

record Transaction =
  txHash :: string
  txFrom :: string
  txTo :: string
  txNonce :: nat
  txGas :: "64 word"
  txInput :: string
  txRawTx :: string
  txGasPriceWei :: "int option"
  txMaxFeePerGasWei :: "int option"
  txMaxPriorityFeeWei :: "int option"
  txKind :: TxKind
  txPlaceholder :: "PlaceholderData option"
  txIsQueued :: bool
  txEffectiveFeePerGasW :: "int option"
  txTargetTxHash :: string
  txTargetTxType :: nat
  txTargetTxSizeBytes :: int
  txEncryptedPayloadHex :: string
  txEncryptedPayloadHash :: string
  txPlaceholderTxHash :: string
  txPlaceholderTxRaw :: string
  txPlaceholderCalldataBytes :: int
  txPlaceholderGasEstimate :: "64 word"

definition EffectiveFeePerGas :: "Transaction \<Rightarrow> int" where
  "EffectiveFeePerGas t =
     (case txEffectiveFeePerGasW t of
        Some w \<Rightarrow> w
      | None \<Rightarrow>
          (case txMaxFeePerGasWei t of
             Some m \<Rightarrow> if m > 0 then m else (case txGasPriceWei t of Some p \<Rightarrow> p | None \<Rightarrow> 0)
           | None \<Rightarrow> (case txGasPriceWei t of Some p \<Rightarrow> p | None \<Rightarrow> 0)))"

record mp_env =
  mpSha256 :: "bytes \<Rightarrow> bytes"
  mpHexToHash :: "string \<Rightarrow> bytes"
  mpUniLower :: "string \<Rightarrow> string"
  mpUniTrim :: "string \<Rightarrow> string"
  mpRange :: "Transaction list \<Rightarrow> Transaction list"

section \<open>The classifier\<close>

definition placeholderSelector :: bytes where
  "placeholderSelector = [0x70, 0x68, 0x6c, 0x64]"

definition mp_hashHex :: "mp_env \<Rightarrow> bytes \<Rightarrow> string" where
  "mp_hashHex E data = hexEncode (mpSha256 E data)"

datatype calldata_error = EmptyCalldata | InvalidHex | CalldataTooShort | NotPlaceholder | GasTooLarge

definition ParsePlaceholderCalldata :: "mp_env \<Rightarrow> string \<Rightarrow> calldata_error + PlaceholderData" where
  "ParsePlaceholderCalldata E input =
     (let hexInput = TrimPrefix (ToLower (mpUniLower E) (TrimSpace (mpUniTrim E) input)) ''0x'' in
      if length hexInput = 0 then Inl EmptyCalldata
      else case hexDecode hexInput of
        None \<Rightarrow> Inl InvalidHex
      | Some b \<Rightarrow>
          if length b \<le> 68 then Inl CalldataTooShort
          else if take 4 b \<noteq> placeholderSelector then Inl NotPlaceholder
          else
            let commitment = take 32 (drop 4 b); gas = beNat (take 32 (drop 36 b)) in
            if \<not> gas < 2 ^ 64 then Inl GasTooLarge
            else Inr \<lparr>pdCommitmentHex = ''0x'' @ hexEncode commitment, pdRequestedGas = of_nat gas,
              pdEncryptedPayloadHex = ''0x'' @ hexEncode (drop 68 b),
              pdEncryptedPayloadHash = ''0x'' @ mp_hashHex E (drop 68 b),
              pdCalldataBytes = int (length b)\<rparr>)"

definition ClassifyAndParse :: "mp_env \<Rightarrow> Transaction \<Rightarrow> Transaction" where
  "ClassifyAndParse E tx0 =
     (let tx = tx0\<lparr>txKind := TxKindPlaintext, txPlaceholder := None\<rparr> in
      case ParsePlaceholderCalldata E (txInput tx) of
        Inl _ \<Rightarrow> tx
      | Inr p \<Rightarrow>
          let tx1 = tx\<lparr>txKind := TxKindPlaceholder, txPlaceholder := Some p,
                txTargetTxHash := pdCommitmentHex p, txEncryptedPayloadHex := pdEncryptedPayloadHex p,
                txEncryptedPayloadHash := pdEncryptedPayloadHash p, txPlaceholderTxHash := txHash tx,
                txPlaceholderCalldataBytes := pdCalldataBytes p\<rparr>
          in if pdRequestedGas p > 0 then tx1\<lparr>txGas := pdRequestedGas p\<rparr> else tx1)"

text \<open>The producer of such calldata, in \<^verbatim>\<open>replay_placeholder.go\<close>.\<close>

definition mockPlaceholderSelector :: bytes where
  "mockPlaceholderSelector = [0x70, 0x68, 0x6c, 0x64]"

definition buildPlaceholderCalldata :: "mp_env \<Rightarrow> string \<Rightarrow> 64 word \<Rightarrow> bytes \<Rightarrow> bytes" where
  "buildPlaceholderCalldata E targetHash requestedGas encryptedPayload =
     mockPlaceholderSelector @ mpHexToHash E targetHash @ beFixed 32 (unat requestedGas) @ encryptedPayload"

section \<open>The store\<close>

record Store =
  stByID :: "(string, Transaction) gomap"

record Snapshot =
  snTransactions :: "Transaction list"
  snCount :: int
  snHash :: string

definition NewStore :: Store where
  "NewStore = \<lparr>stByID = []\<rparr>"

definition ReplaceAll :: "Transaction list \<Rightarrow> Store \<Rightarrow> Store" where
  "ReplaceAll txs s = s\<lparr>stByID := fold (\<lambda>tx m. AList.update (txHash tx) tx m) txs []\<rparr>"

definition storeLess :: "Transaction \<Rightarrow> Transaction \<Rightarrow> bool" where
  "storeLess a b =
     (if txFrom a \<noteq> txFrom b then txFrom a < txFrom b
      else if txNonce a \<noteq> txNonce b then txNonce a < txNonce b
      else txHash a < txHash b)"

definition snapshotLine :: "Transaction \<Rightarrow> string" where
  "snapshotLine tx = joinWith ''|'' [txHash tx, txFrom tx, showNat (txNonce tx), showNat (unat (txGas tx)),
     kindString (txKind tx), showInt (EffectiveFeePerGas tx), showBool (txIsQueued tx)]"

definition store_Snapshot :: "mp_env \<Rightarrow> Store \<Rightarrow> Snapshot" where
  "store_Snapshot E s =
     (let arr = sortSlice storeLess (mpRange E (map snd (stByID s)));
          h = mpSha256 E (strBytes (joinWith [CHR 0x0A] (map snapshotLine arr)))
      in \<lparr>snTransactions = arr, snCount = int (length arr), snHash = ''0x'' @ hexEncode h\<rparr>)"

text \<open>One poll of the reader: on an error the store keeps its content.\<close>

definition PollOnce :: "Transaction list option \<Rightarrow> Store \<Rightarrow> bool \<times> Store" where
  "PollOnce fetched s =
     (case fetched of
        None \<Rightarrow> (False, s)
      | Some txs \<Rightarrow> (True, ReplaceAll txs s))"

section \<open>The inclusion-list builder\<close>

record BuilderConfig =
  MaxTransactions :: int
  MaxGas :: "64 word"

record Item =
  itHash :: string
  itFrom :: string
  itNonce :: nat
  itGas :: "64 word"
  itKind :: string
  itEffectiveFeePerGW :: string
  itPlaceholderEnvelopeHex :: string
  itEncryptedPayloadHex :: string
  itEncryptedPayloadHash :: string
  itTargetTxHash :: string
  itTargetTxType :: nat
  itTargetTxSizeBytes :: int
  itPlaceholderTxHash :: string
  itPlaceholderCalldataBytes :: int
  itPlaceholderGasEstimate :: "64 word"

record ItemList =
  liItems :: "Item list"
  liCount :: int
  liTotalGas :: "64 word"
  liHash :: string

definition NewBuilder :: "BuilderConfig \<Rightarrow> BuilderConfig" where
  "NewBuilder cfg0 =
     (let cfg1 = (if MaxTransactions cfg0 \<le> 0 then cfg0\<lparr>MaxTransactions := 128\<rparr> else cfg0)
      in if MaxGas cfg1 = 0 then cfg1\<lparr>MaxGas := 15000000\<rparr> else cfg1)"

text \<open>The loop that drops empty and repeated transactions; \<open>seen\<close> is its map.\<close>

fun dedup :: "string list \<Rightarrow> Transaction list \<Rightarrow> Transaction list" where
  "dedup seen [] = []"
| "dedup seen (tx # txs) =
     (if txHash tx = [] \<or> txGas tx = 0 then dedup seen txs
      else if txHash tx \<in> set seen then dedup seen txs
      else tx # dedup (txHash tx # seen) txs)"

definition feeLess :: "Transaction \<Rightarrow> Transaction \<Rightarrow> bool" where
  "feeLess a b =
     (if EffectiveFeePerGas a \<noteq> EffectiveFeePerGas b then EffectiveFeePerGas a > EffectiveFeePerGas b
      else if txFrom a \<noteq> txFrom b then txFrom a < txFrom b
      else if txNonce a \<noteq> txNonce b then txNonce a < txNonce b
      else txHash a < txHash b)"

definition toItem :: "Transaction \<Rightarrow> Item" where
  "toItem tx = \<lparr>itHash = txHash tx, itFrom = txFrom tx, itNonce = txNonce tx, itGas = txGas tx,
     itKind = kindString (txKind tx), itEffectiveFeePerGW = showInt (EffectiveFeePerGas tx),
     itPlaceholderEnvelopeHex = (if txKind tx = TxKindPlaceholder then TrimPrefix (txInput tx) ''0x'' else ''''),
     itEncryptedPayloadHex = txEncryptedPayloadHex tx, itEncryptedPayloadHash = txEncryptedPayloadHash tx,
     itTargetTxHash = txTargetTxHash tx, itTargetTxType = txTargetTxType tx,
     itTargetTxSizeBytes = txTargetTxSizeBytes tx, itPlaceholderTxHash = txPlaceholderTxHash tx,
     itPlaceholderCalldataBytes = txPlaceholderCalldataBytes tx,
     itPlaceholderGasEstimate = txPlaceholderGasEstimate tx\<rparr>"

text \<open>The selection loop: \<open>break\<close> when the list is full, \<open>continue\<close> when the gas does not fit.\<close>

fun takeItems :: "int \<Rightarrow> 64 word \<Rightarrow> Transaction list \<Rightarrow> Transaction list \<Rightarrow> 64 word \<Rightarrow> Transaction list \<times> 64 word" where
  "takeItems maxTxs maxGas [] items gas = (items, gas)"
| "takeItems maxTxs maxGas (tx # txs) items gas =
     (if int (length items) \<ge> maxTxs then (items, gas)
      else if txGas tx > maxGas - gas then takeItems maxTxs maxGas txs items gas
      else takeItems maxTxs maxGas txs (items @ [tx]) (gas + txGas tx))"

definition itemLine :: "Item \<Rightarrow> string" where
  "itemLine it = joinWith ''|'' [itHash it, itFrom it, showNat (itNonce it), showNat (unat (itGas it)),
     itKind it, itEffectiveFeePerGW it]"

definition candidates_of :: "bool \<Rightarrow> Snapshot \<Rightarrow> Transaction list" where
  "candidates_of sortByFee sn =
     (let cands = dedup [] (snTransactions sn) in if sortByFee then sortSlice feeLess cands else cands)"

definition build :: "mp_env \<Rightarrow> BuilderConfig \<Rightarrow> Snapshot \<Rightarrow> bool \<Rightarrow> ItemList" where
  "build E cfg sn sortByFee =
     (let (chosen, totalGas) = takeItems (MaxTransactions cfg) (MaxGas cfg) (candidates_of sortByFee sn) [] 0;
          items = map toItem chosen;
          h = mpSha256 E (strBytes (joinWith [CHR 0x0A] (map itemLine items)))
      in \<lparr>liItems = items, liCount = int (length items), liTotalGas = totalGas, liHash = ''0x'' @ hexEncode h\<rparr>)"

definition Build :: "mp_env \<Rightarrow> BuilderConfig \<Rightarrow> Snapshot \<Rightarrow> ItemList" where
  "Build E cfg sn = build E cfg sn True"

definition BuildOrdered :: "mp_env \<Rightarrow> BuilderConfig \<Rightarrow> Snapshot \<Rightarrow> ItemList" where
  "BuildOrdered E cfg sn = build E cfg sn False"

section \<open>The comparators are orders\<close>

interpretation store_order: slice_order storeLess "\<lambda>t. (txFrom t, txNonce t, txHash t)"
  by unfold_locales (auto simp: storeLess_def less_prod_def)

interpretation fee_order: slice_order feeLess "\<lambda>t. (- EffectiveFeePerGas t, txFrom t, txNonce t, txHash t)"
  by unfold_locales (auto simp: feeLess_def less_prod_def)

section \<open>Selection\<close>

lemma takeItems_prefix:
  "\<exists>ys. fst (takeItems m g txs items gas) = items @ ys \<and> subseq ys txs"
proof (induction txs arbitrary: items gas)
  case (Cons tx txs)
  obtain ys where ys: "fst (takeItems m g txs items gas) = items @ ys" "subseq ys txs" using Cons by metis
  obtain zs where zs: "fst (takeItems m g txs (items @ [tx]) (gas + txGas tx)) = (items @ [tx]) @ zs" "subseq zs txs"
    using Cons by metis
  show ?case
  proof (cases "int (length items) \<ge> m \<or> txGas tx > g - gas")
    case True
    then show ?thesis using ys by (cases "int (length items) \<ge> m") (auto intro: exI [of _ ys])
  next
    case False
    then show ?thesis using zs by (intro exI [of _ "tx # zs"]) auto
  qed
qed simp

lemma takeItems_length: "int (length items) \<le> max 0 m \<Longrightarrow> int (length (fst (takeItems m g txs items gas))) \<le> max 0 m"
  by (induction txs arbitrary: items gas) auto

lemma takeItems_gas:
  assumes "gas \<le> g" and "unat gas = sum_list (map (unat \<circ> txGas) items)"
  shows "snd (takeItems m g txs items gas) \<le> g \<and>
    unat (snd (takeItems m g txs items gas)) = sum_list (map (unat \<circ> txGas) (fst (takeItems m g txs items gas)))"
  using assms
proof (induction txs arbitrary: items gas)
  case (Cons tx txs)
  show ?case
  proof (cases "int (length items) \<ge> m \<or> txGas tx > g - gas")
    case True
    then show ?thesis using Cons by auto
  next
    case False
    then have eq: "takeItems m g (tx # txs) items gas = takeItems m g txs (items @ [tx]) (gas + txGas tx)" by simp
    have fits: "gas + txGas tx \<le> g" "unat (gas + txGas tx) = unat gas + unat (txGas tx)"
      using budget_fits [of gas g "txGas tx"] Cons.prems(1) False by auto
    show ?thesis unfolding eq by (rule Cons.IH) (use fits Cons.prems(2) in simp_all)
  qed
qed simp

text \<open>What is left out would not fit: the gas used only grows along the loop.\<close>

lemma takeItems_mono:
  assumes "gas \<le> g"
  shows "gas \<le> snd (takeItems m g txs items gas)"
  using assms
proof (induction txs arbitrary: items gas)
  case (Cons tx txs)
  show ?case
  proof (cases "int (length items) \<ge> m \<or> txGas tx > g - gas")
    case True
    then show ?thesis using Cons by auto
  next
    case False
    then have eq: "takeItems m g (tx # txs) items gas = takeItems m g txs (items @ [tx]) (gas + txGas tx)" by simp
    have fits: "gas + txGas tx \<le> g" "gas \<le> gas + txGas tx"
      using budget_fits [of gas g "txGas tx"] Cons.prems(1) False by auto
    show ?thesis unfolding eq using Cons.IH [OF fits(1), of "items @ [tx]"] fits(2) by order
  qed
qed simp

lemma takeItems_maximal:
  assumes "gas \<le> g" and "tx \<in> set txs" and "tx \<notin> set (fst (takeItems m g txs items gas))"
  shows "m \<le> int (length (fst (takeItems m g txs items gas))) \<or>
    unat g < unat (snd (takeItems m g txs items gas)) + unat (txGas tx)"
  using assms
proof (induction txs arbitrary: items gas)
  case (Cons y ys)
  consider (full) "int (length items) \<ge> m" | (skip) "int (length items) < m" "txGas y > g - gas"
    | (add) "int (length items) < m" "\<not> txGas y > g - gas" by linarith
  then show ?case
  proof cases
    case full
    then show ?thesis by simp
  next
    case skip
    then have eq: "takeItems m g (y # ys) items gas = takeItems m g ys items gas" by simp
    have "unat g < unat (snd (takeItems m g ys items gas)) + unat (txGas y)"
      using budget_exceeded [OF Cons.prems(1) skip(2)] takeItems_mono [OF Cons.prems(1), of m ys items]
      by (simp add: word_le_nat_alt)
    then show ?thesis using Cons eq by (cases "tx = y") auto
  next
    case add
    then have eq: "takeItems m g (y # ys) items gas = takeItems m g ys (items @ [y]) (gas + txGas y)" by simp
    have le: "gas + txGas y \<le> g" using budget_fits(1) [OF Cons.prems(1) add(2)] .
    have "y \<in> set (fst (takeItems m g ys (items @ [y]) (gas + txGas y)))"
      using takeItems_prefix [of m g ys "items @ [y]" "gas + txGas y"] by auto
    then show ?thesis using Cons.IH [OF le, of "items @ [y]"] Cons.prems eq by auto
  qed
qed simp

section \<open>Candidates\<close>

lemma dedup_set:
  "tx \<in> set (dedup seen txs) \<Longrightarrow> tx \<in> set txs \<and> txHash tx \<noteq> [] \<and> txGas tx \<noteq> 0 \<and> txHash tx \<notin> set seen"
  by (induction seen txs rule: dedup.induct) (auto split: if_splits)

lemma dedup_distinct: "distinct (map txHash (dedup seen txs))"
  by (induction seen txs rule: dedup.induct) (auto dest: dedup_set)

lemma dedup_filter:
  assumes "distinct (map txHash txs)" and "txHash ` set txs \<inter> set seen = {}"
  shows "dedup seen txs = filter (\<lambda>t. txHash t \<noteq> [] \<and> txGas t \<noteq> 0) txs"
  using assms by (induction seen txs rule: dedup.induct) auto

lemma candidates_set: "set (candidates_of b sn) = set (dedup [] (snTransactions sn))"
  by (simp add: candidates_of_def Let_def)

lemma candidates_distinct_hash: "distinct (map txHash (candidates_of b sn))"
proof -
  have "mset (candidates_of b sn) = mset (dedup [] (snTransactions sn))" by (simp add: candidates_of_def Let_def)
  then have "mset (map txHash (candidates_of b sn)) = mset (map txHash (dedup [] (snTransactions sn)))" by (metis mset_map)
  then show ?thesis using dedup_distinct mset_eq_imp_distinct_iff by blast
qed

abbreviation chosen_txs :: "BuilderConfig \<Rightarrow> Snapshot \<Rightarrow> bool \<Rightarrow> Transaction list" where
  "chosen_txs cfg sn b \<equiv> fst (takeItems (MaxTransactions cfg) (MaxGas cfg) (candidates_of b sn) [] 0)"

lemma build_fields:
  "liItems (build E cfg sn b) = map toItem (chosen_txs cfg sn b)"
  "liCount (build E cfg sn b) = int (length (liItems (build E cfg sn b)))"
  "liTotalGas (build E cfg sn b) = snd (takeItems (MaxTransactions cfg) (MaxGas cfg) (candidates_of b sn) [] 0)"
  by (simp_all add: build_def split_beta Let_def)

lemma chosen_subseq: "subseq (chosen_txs cfg sn b) (candidates_of b sn)"
  using takeItems_prefix [of "MaxTransactions cfg" "MaxGas cfg" "candidates_of b sn" "[]" 0] by auto

lemma toItem_hash [simp]: "itHash (toItem tx) = txHash tx"
  and toItem_gas [simp]: "itGas (toItem tx) = txGas tx"
  by (simp_all add: toItem_def)

section \<open>The store\<close>

definition last_per_hash :: "Transaction list \<Rightarrow> Transaction set" where
  "last_per_hash txs = {tx. \<exists>before after. txs = before @ tx # after \<and> txHash tx \<notin> txHash ` set after}"

lemma last_per_hash_snoc: "last_per_hash (txs @ [tx]) = insert tx {t \<in> last_per_hash txs. txHash t \<noteq> txHash tx}"
proof (rule set_eqI)
  fix t
  show "t \<in> last_per_hash (txs @ [tx]) \<longleftrightarrow> t \<in> insert tx {t \<in> last_per_hash txs. txHash t \<noteq> txHash tx}"
  proof
    assume "t \<in> last_per_hash (txs @ [tx])"
    then obtain bs as where s: "txs @ [tx] = bs @ t # as" "txHash t \<notin> txHash ` set as" by (auto simp: last_per_hash_def)
    then show "t \<in> insert tx {t \<in> last_per_hash txs. txHash t \<noteq> txHash tx}"
      by (cases as rule: rev_cases) (auto simp: last_per_hash_def)
  next
    assume "t \<in> insert tx {t \<in> last_per_hash txs. txHash t \<noteq> txHash tx}"
    then consider "t = tx" | bs as where "txs = bs @ t # as" "txHash t \<notin> txHash ` set as" "txHash t \<noteq> txHash tx"
      by (auto simp: last_per_hash_def)
    then show "t \<in> last_per_hash (txs @ [tx])"
      by cases (fastforce simp: last_per_hash_def)+
  qed
qed

definition store_ok :: "(string, Transaction) gomap \<Rightarrow> bool" where
  "store_ok m \<longleftrightarrow> wf_map m \<and> (\<forall>(k, t) \<in> set m. txHash t = k)"

lemma store_fold:
  "store_ok (fold (\<lambda>tx m. AList.update (txHash tx) tx m) txs []) \<and>
   snd ` set (fold (\<lambda>tx m. AList.update (txHash tx) tx m) txs []) = last_per_hash txs"
proof (induction txs rule: rev_induct)
  case Nil
  then show ?case by (simp add: store_ok_def last_per_hash_def)
next
  case (snoc tx txs)
  let ?m = "fold (\<lambda>tx m. AList.update (txHash tx) tx m) txs []"
  have ok: "store_ok ?m" and img: "snd ` set ?m = last_per_hash txs" using snoc by auto
  have set: "set (AList.update (txHash tx) tx ?m) = insert (txHash tx, tx) {(k, t) \<in> set ?m. k \<noteq> txHash tx}"
    using ok by (simp add: store_ok_def set_update_wf)
  have "wf_map ?m" "\<And>k t. (k, t) \<in> set ?m \<Longrightarrow> txHash t = k" using ok by (auto simp: store_ok_def)
  then have "store_ok (AList.update (txHash tx) tx ?m)"
    unfolding store_ok_def set by (intro conjI update_wf) auto
  moreover have "snd ` set (AList.update (txHash tx) tx ?m) = insert tx {t \<in> snd ` set ?m. txHash t \<noteq> txHash tx}"
    unfolding set using \<open>\<And>k t. (k, t) \<in> set ?m \<Longrightarrow> txHash t = k\<close> by (auto simp: image_iff; metis snd_conv)
  ultimately show ?case by (simp add: img last_per_hash_snoc)
qed


lemma snapshot_set:
  assumes "\<And>xs. mset (mpRange E xs) = mset xs"
  shows "set (snTransactions (store_Snapshot E (ReplaceAll txs s))) = last_per_hash txs"
proof -
  have "set (mpRange E xs) = set xs" for xs using assms [of xs] by (metis set_mset_mset)
  then show ?thesis using store_fold [of txs] by (simp add: store_Snapshot_def ReplaceAll_def Let_def)
qed

lemma store_hash_inj: "inj_on (\<lambda>t. (txFrom t, txNonce t, txHash t)) (last_per_hash txs)"
proof (rule inj_onI)
  fix x y
  let ?m = "fold (\<lambda>tx m. AList.update (txHash tx) tx m) txs []"
  assume xy: "x \<in> last_per_hash txs" "y \<in> last_per_hash txs" and "(txFrom x, txNonce x, txHash x) = (txFrom y, txNonce y, txHash y)"
  then have h: "txHash y = txHash x" by simp
  have entry: "(txHash t, t) \<in> set ?m" if "t \<in> last_per_hash txs" for t
    using store_fold [of txs] that by (fastforce simp: store_ok_def)
  have "(txHash x, x) \<in> set ?m" "(txHash x, y) \<in> set ?m" using entry [OF xy(1)] entry [OF xy(2)] h by simp_all
  moreover have "wf_map ?m" using store_fold [of txs] by (simp add: store_ok_def)
  ultimately show "x = y" by (rule eq_key_imp_eq_value [rotated])
qed

section \<open>Placeholder calldata\<close>

lemma hexDigit_lower [simp]: "n < 16 \<Longrightarrow> lowerChar (hexDigit n) = hexDigit n"
  by (simp add: lowerChar_def hexDigit_def Let_def)

lemma hexDigit_ascii [simp]: "n < 16 \<Longrightarrow> of_char (hexDigit n) < (128 :: nat)"
  by (simp add: hexDigit_def)

lemma hexDigit_not_space [simp]: "n < 16 \<Longrightarrow> \<not> isSpace (hexDigit n)"
  by (simp add: hexDigit_def isSpace_def Let_def)

lemma byte_nibbles: "unat (b :: byte) div 16 < 16" "unat (b :: byte) mod 16 < 16"
proof -
  have "unat b < 256" using unsigned_less [of b, where 'a=nat] by simp
  then show "unat b div 16 < 16" "unat b mod 16 < 16" by auto
qed

lemma hexEncode_chars: "c \<in> set (hexEncode bs) \<Longrightarrow> \<exists>n < 16. c = hexDigit n"
proof -
  assume "c \<in> set (hexEncode bs)"
  then obtain b where "c = hexDigit (unat (b :: byte) div 16) \<or> c = hexDigit (unat b mod 16)"
    by (auto simp: hexEncode_def)
  then show ?thesis using byte_nibbles [of b] by blast
qed

lemma dropWhile_none: "(\<And>c. c \<in> set s \<Longrightarrow> \<not> P c) \<Longrightarrow> dropWhile P s = s"
  by (cases s) auto

lemma calldata_normal: "TrimPrefix (ToLower u (TrimSpace v (''0x'' @ hexEncode bs))) ''0x'' = hexEncode bs"
proof -
  let ?s = "''0x'' @ hexEncode bs"
  have asc: "is_ascii ?s" using hexEncode_chars [of _ bs] by (fastforce simp: is_ascii_def list_all_iff)
  have "\<not> isSpace c" if "c \<in> set ?s" for c
    using that hexEncode_chars [of c bs] by (auto simp: isSpace_def [of "CHR ''0''"] isSpace_def [of "CHR ''x''"])
  then have "dropWhile isSpace ?s = ?s" "dropWhile isSpace (rev ?s) = rev ?s" by (metis dropWhile_none set_rev)+
  then have trim: "TrimSpace v ?s = ?s" using asc by (simp add: TrimSpace_def del: append.simps rev_append)
  have "lowerChar c = c" if "c \<in> set ?s" for c
    using that hexEncode_chars [of c bs] by (auto simp: lowerChar_def [of "CHR ''0''"] lowerChar_def [of "CHR ''x''"])
  then have "ToLower u ?s = ?s" using asc by (simp add: ToLower_def map_idI del: append.simps)
  then show ?thesis unfolding trim by (simp add: TrimPrefix_def)
qed

section \<open>Properties\<close>

text \<open>
  C27. Bounds of a proposed inclusion list: at most the configured number of items; the total
  gas is the exact sum of the items' gas (the \<^verbatim>\<open>uint64\<close> subtraction and addition never wrap)
  and within the limit; the hashes are distinct; every item is the image of a transaction of
  the snapshot that has a hash and a gas limit.
\<close>

theorem inclusion_list_bounds:
  "liCount (build E cfg sn b) \<le> max 0 (MaxTransactions cfg) \<and>
   liTotalGas (build E cfg sn b) \<le> MaxGas cfg \<and>
   unat (liTotalGas (build E cfg sn b)) = sum_list (map (unat \<circ> itGas) (liItems (build E cfg sn b))) \<and>
   distinct (map itHash (liItems (build E cfg sn b))) \<and>
   set (liItems (build E cfg sn b)) \<subseteq> toItem ` {tx \<in> set (snTransactions sn). txHash tx \<noteq> [] \<and> txGas tx \<noteq> 0}"
proof (intro conjI)
  let ?m = "MaxTransactions cfg" and ?g = "MaxGas cfg" and ?c = "candidates_of b sn"
  show "liCount (build E cfg sn b) \<le> max 0 ?m"
    using takeItems_length [of "[]" ?m ?g ?c 0] by (simp add: build_fields)
  have g: "snd (takeItems ?m ?g ?c [] 0) \<le> ?g \<and>
      unat (snd (takeItems ?m ?g ?c [] 0)) = sum_list (map (unat \<circ> txGas) (fst (takeItems ?m ?g ?c [] 0)))"
    by (rule takeItems_gas) simp_all
  then show "liTotalGas (build E cfg sn b) \<le> ?g" by (simp add: build_fields)
  show "unat (liTotalGas (build E cfg sn b)) = sum_list (map (unat \<circ> itGas) (liItems (build E cfg sn b)))"
    using g by (simp add: build_fields comp_def)
  show "distinct (map itHash (liItems (build E cfg sn b)))"
    using subseq_keeps [OF chosen_subseq, where f = txHash] candidates_distinct_hash
    by (simp add: build_fields comp_def)
  show "set (liItems (build E cfg sn b)) \<subseteq> toItem ` {tx \<in> set (snTransactions sn). txHash tx \<noteq> [] \<and> txGas tx \<noteq> 0}"
    using subseq_keeps [OF chosen_subseq, of cfg b sn] dedup_set [of _ "[]" "snTransactions sn"]
    by (fastforce simp: build_fields candidates_set)
qed

definition demo_mp_env :: mp_env where
  "demo_mp_env = \<lparr>mpSha256 = (\<lambda>bs. take 2 bs), mpHexToHash = (\<lambda>_. replicate 32 7), mpUniLower = (\<lambda>s. s),
     mpUniTrim = (\<lambda>s. s), mpRange = rev\<rparr>"

definition demo_tx :: "string \<Rightarrow> 64 word \<Rightarrow> int \<Rightarrow> Transaction" where
  "demo_tx h g fee = \<lparr>txHash = h, txFrom = ''a'', txTo = [], txNonce = 0, txGas = g, txInput = [], txRawTx = [],
     txGasPriceWei = Some fee, txMaxFeePerGasWei = None, txMaxPriorityFeeWei = None, txKind = TxKindPlaintext,
     txPlaceholder = None, txIsQueued = False, txEffectiveFeePerGasW = None, txTargetTxHash = [], txTargetTxType = 0,
     txTargetTxSizeBytes = 0, txEncryptedPayloadHex = [], txEncryptedPayloadHash = [], txPlaceholderTxHash = [],
     txPlaceholderTxRaw = [], txPlaceholderCalldataBytes = 0, txPlaceholderGasEstimate = 0\<rparr>"

definition demo_cfg_il :: BuilderConfig where
  "demo_cfg_il = \<lparr>MaxTransactions = 5, MaxGas = 100\<rparr>"

definition demo_sn :: "Transaction list \<Rightarrow> Snapshot" where
  "demo_sn txs = \<lparr>snTransactions = txs, snCount = int (length txs), snHash = []\<rparr>"

text \<open>
  The selection is maximal: a candidate is left out only when the list is full or when its
  gas does not fit in what the chosen items leave of the limit.
\<close>

theorem inclusion_list_maximal:
  assumes "tx \<in> set (candidates_of b sn)" and "toItem tx \<notin> set (liItems (build E cfg sn b))"
  shows "MaxTransactions cfg \<le> liCount (build E cfg sn b) \<or>
    unat (MaxGas cfg) < unat (liTotalGas (build E cfg sn b)) + unat (txGas tx)"
proof -
  have "tx \<notin> set (chosen_txs cfg sn b)" using assms(2) by (auto simp: build_fields)
  from takeItems_maximal [OF _ assms(1) this] show ?thesis by (simp add: build_fields)
qed

theorem inclusion_list_maximal_witness:
  "unat (MaxGas demo_cfg_il) <
   unat (liTotalGas (build demo_mp_env demo_cfg_il (demo_sn [demo_tx ''x'' 70 9, demo_tx ''y'' 40 3, demo_tx ''z'' 20 1]) True)) +
   unat (txGas (demo_tx ''y'' 40 3))"
proof -
  let ?sn = "demo_sn [demo_tx ''x'' 70 9, demo_tx ''y'' 40 3, demo_tx ''z'' 20 1]"
  let ?b = "build demo_mp_env demo_cfg_il ?sn True"
  have c: "demo_tx ''y'' 40 3 \<in> set (candidates_of True ?sn)"
    by (simp add: candidates_set demo_sn_def) (simp add: demo_tx_def)
  have h: "map itHash (liItems ?b) = [''x'', ''z'']" by code_simp
  have "''y'' \<notin> set (map itHash (liItems ?b))" unfolding h by simp
  moreover have "itHash (toItem (demo_tx ''y'' 40 3)) = ''y''" by (simp add: demo_tx_def)
  ultimately have n: "toItem (demo_tx ''y'' 40 3) \<notin> set (liItems ?b)" using imageI [of "toItem (demo_tx ''y'' 40 3)" "set (liItems ?b)" itHash] by auto
  have "liCount ?b = 2" using arg_cong [OF h, of length] by (simp add: build_fields)
  then show ?thesis using inclusion_list_maximal [OF c n] by (simp add: demo_cfg_il_def)
qed

text \<open>
  \<^verbatim>\<open>Build\<close> does not depend on the order of the transactions: when no hash occurs twice, any
  permutation of the snapshot gives the same list, gas total and hash.
\<close>

theorem build_order_independent:
  assumes "mset (snTransactions sn) = mset (snTransactions sn')" and "distinct (map txHash (snTransactions sn))"
  shows "Build E cfg sn = Build E cfg sn'"
proof -
  have d': "distinct (map txHash (snTransactions sn'))"
    using assms by (metis mset_map mset_eq_imp_distinct_iff)
  let ?p = "\<lambda>t. txHash t \<noteq> [] \<and> txGas t \<noteq> 0"
  have eq: "dedup [] (snTransactions sn) = filter ?p (snTransactions sn)"
    "dedup [] (snTransactions sn') = filter ?p (snTransactions sn')"
    using dedup_filter assms(2) d' by simp_all
  have "inj_on txHash (set (snTransactions sn))" using assms(2) by (simp add: distinct_map)
  then have inj: "inj_on (\<lambda>t. (- EffectiveFeePerGas t, txFrom t, txNonce t, txHash t)) (set (filter ?p (snTransactions sn)))"
    by (auto simp: inj_on_def)
  have "sortSlice feeLess (filter ?p (snTransactions sn)) = sortSlice feeLess (filter ?p (snTransactions sn'))"
    by (rule fee_order.permutation_invariant [OF _ inj]) (simp add: assms(1))
  then show ?thesis by (simp add: Build_def build_def candidates_of_def eq Let_def)
qed

theorem build_order_independent_witness:
  "Build demo_mp_env demo_cfg_il (demo_sn [demo_tx ''x'' 70 9, demo_tx ''y'' 40 3]) =
   Build demo_mp_env demo_cfg_il (demo_sn [demo_tx ''y'' 40 3, demo_tx ''x'' 70 9])"
  by (rule build_order_independent) (simp_all add: demo_tx_def demo_sn_def)

text \<open>
  A snapshot after a successful poll holds, for every hash, the last transaction fetched
  under it and nothing of the old content; it is sorted and does not depend on the iteration
  order of the store's map. After a failed poll the store is as before.
\<close>

theorem snapshot_content:
  assumes "\<And>xs. mset (mpRange E xs) = mset xs"
  shows "set (snTransactions (store_Snapshot E (snd (PollOnce (Some txs) s)))) = last_per_hash txs \<and>
    sorted_wrt (\<lambda>a b. \<not> storeLess b a) (snTransactions (store_Snapshot E (snd (PollOnce (Some txs) s)))) \<and>
    store_Snapshot E (snd (PollOnce (Some txs) s)) =
      store_Snapshot (E\<lparr>mpRange := (\<lambda>xs. xs)\<rparr>) (snd (PollOnce (Some txs) s)) \<and>
    snd (PollOnce None s) = s"
proof (intro conjI)
  let ?m = "fold (\<lambda>tx m. AList.update (txHash tx) tx m) txs []"
  have poll: "snd (PollOnce (Some txs) s) = ReplaceAll txs s" by (simp add: PollOnce_def)
  have m: "stByID (ReplaceAll txs s) = ?m" by (simp add: ReplaceAll_def)
  show "set (snTransactions (store_Snapshot E (snd (PollOnce (Some txs) s)))) = last_per_hash txs"
    unfolding poll by (rule snapshot_set [OF assms])
  have "slice_sorted storeLess (mpRange E (map snd ?m)) (sortSlice storeLess (mpRange E (map snd ?m)))"
    by (rule store_order.computes_sorted)
  then show "sorted_wrt (\<lambda>a b. \<not> storeLess b a) (snTransactions (store_Snapshot E (snd (PollOnce (Some txs) s))))"
    unfolding poll by (simp add: store_Snapshot_def m Let_def slice_sorted_def)
  have "set (mpRange E (map snd ?m)) = set (map snd ?m)" by (rule mset_eq_setD) (rule assms)
  then have "set (mpRange E (map snd ?m)) = last_per_hash txs" using store_fold [of txs] by simp
  then have "sortSlice storeLess (mpRange E (map snd ?m)) = sortSlice storeLess (map snd ?m)"
    by (intro store_order.permutation_invariant) (simp_all add: assms store_hash_inj)
  then show "store_Snapshot E (snd (PollOnce (Some txs) s)) =
      store_Snapshot (E\<lparr>mpRange := (\<lambda>xs. xs)\<rparr>) (snd (PollOnce (Some txs) s))"
    unfolding poll by (simp add: store_Snapshot_def m Let_def)
  show "snd (PollOnce None s) = s" by (simp add: PollOnce_def)
qed

theorem snapshot_content_witness:
  "set (snTransactions (store_Snapshot demo_mp_env
     (snd (PollOnce (Some [demo_tx ''x'' 1 1, demo_tx ''y'' 2 1, demo_tx ''x'' 3 1]) NewStore)))) =
   last_per_hash [demo_tx ''x'' 1 1, demo_tx ''y'' 2 1, demo_tx ''x'' 3 1]"
proof -
  have "mset (mpRange demo_mp_env xs) = mset xs" for xs by (simp add: demo_mp_env_def)
  from snapshot_content [OF this] show ?thesis by blast
qed

text \<open>
  Placeholder calldata round trip: what \<^verbatim>\<open>buildPlaceholderCalldata\<close> writes is classified as a
  placeholder that carries the target hash, the requested gas and the encrypted payload; a
  payload of no bytes is refused.
\<close>

theorem placeholder_roundtrip:
  assumes "length (mpHexToHash E targetHash) = 32"
  shows "ParsePlaceholderCalldata E (''0x'' @ hexEncode (buildPlaceholderCalldata E targetHash gas payload)) =
    (if payload = [] then Inl CalldataTooShort
     else Inr \<lparr>pdCommitmentHex = ''0x'' @ hexEncode (mpHexToHash E targetHash), pdRequestedGas = gas,
       pdEncryptedPayloadHex = ''0x'' @ hexEncode payload, pdEncryptedPayloadHash = ''0x'' @ mp_hashHex E payload,
       pdCalldataBytes = int (68 + length payload)\<rparr>)"
proof -
  let ?b = "buildPlaceholderCalldata E targetHash gas payload"
  have len: "length ?b = 68 + length payload"
    using assms by (simp add: buildPlaceholderCalldata_def mockPlaceholderSelector_def)
  have parts: "take 4 ?b = placeholderSelector" "take 32 (drop 4 ?b) = mpHexToHash E targetHash"
    "take 32 (drop 36 ?b) = beFixed 32 (unat gas)" "drop 68 ?b = payload"
    using assms by (simp_all add: buildPlaceholderCalldata_def mockPlaceholderSelector_def placeholderSelector_def)
  have small: "unat gas < 2 ^ 64" using unsigned_less [of gas, where 'a=nat] by simp
  then have "beNat (beFixed 32 (unat gas)) = unat gas" by (intro beNat_beFixed) simp
  moreover have "hexEncode ?b \<noteq> []" using len by (cases ?b) (auto simp: hexEncode_def)
  ultimately show ?thesis
    using small unfolding ParsePlaceholderCalldata_def calldata_normal
    by (simp add: Let_def parts len del: of_nat_add)
qed

theorem placeholder_roundtrip_witness:
  "ParsePlaceholderCalldata demo_mp_env (''0x'' @ hexEncode (buildPlaceholderCalldata demo_mp_env ''ab'' 21000 [])) =
     Inl CalldataTooShort \<and>
   (\<exists>p. ParsePlaceholderCalldata demo_mp_env (''0x'' @ hexEncode (buildPlaceholderCalldata demo_mp_env ''ab'' 21000 [1, 2])) =
     Inr p \<and> pdRequestedGas p = 21000 \<and> pdEncryptedPayloadHex p = ''0x0102'')"
proof -
  have len: "length (mpHexToHash demo_mp_env ''ab'') = 32" by (simp add: demo_mp_env_def)
  have h: "''0x'' @ hexEncode [1, 2] = ''0x0102''" by code_simp
  show ?thesis using placeholder_roundtrip [OF len, of 21000 "[]"] placeholder_roundtrip [OF len, of 21000 "[1, 2]"] h by simp
qed

end
