(* ===== verification/Bloc_Slot.thy ===== *)
theory Bloc_Slot
  imports Acs_Facts Go_Bytes
begin

text \<open>
  The slot adapter on top of the common subset: \<^verbatim>\<open>sbc/hbbft/bloc_slot.go\<close>.

  A candidate batch travels through the common subset in the wire format of \<^verbatim>\<open>encoding/gob\<close>:
  a length-prefixed message holding the type id of \<^verbatim>\<open>[]byte\<close>, a zero field delta and the
  counted bytes. \<open>encodeCandidateBatch\<close> and \<open>decodeCandidateBatch\<close> write that format out. A
  stream whose first non-empty message is not a \<^verbatim>\<open>[]byte\<close> value (type definitions, other
  types) is handed to the parameter \<open>gobOther\<close>. The reliable broadcast appends zero padding to
  what it delivers; the decoder stops after the first value, so the padding is not read.

  The recorder of the slot is a field here: after each call into the common subset the calls
  it has logged are applied, each with the next reading of the clock \<open>clk\<close>. The block builder
  and the post-agreement hook are supplied by the owner (\<open>slot_hooks\<close>), as is the gob encoding
  of the default block body. Only non-nil receivers are modelled.
\<close>

section \<open>The gob encoding of a byte slice\<close>

definition gobUint :: "nat \<Rightarrow> bytes" where
  "gobUint n = (if n \<le> 127 then [of_nat n] else of_nat (256 - length (beBytes n)) # beBytes n)"

text \<open>The inverse; \<^term>\<open>None\<close> for a truncated or over-long count.\<close>

definition ungobUint :: "bytes \<Rightarrow> (nat \<times> bytes) option" where
  "ungobUint bs =
     (case bs of
        [] \<Rightarrow> None
      | b # rest \<Rightarrow>
          if unat b \<le> 127 then Some (unat b, rest)
          else let n = 256 - unat b in
            if 8 < n \<or> length rest < n then None
            else Some (beNat (take n rest), drop n rest))"

definition gobTooBig :: int where
  "gobTooBig = 1073741824"

definition encodeCandidateBatch :: "bytes \<Rightarrow> bytes option" where
  "encodeCandidateBatch batch =
     (let message = 10 # 0 # gobUint (length batch) @ batch in
      if int (length message) > gobTooBig then None
      else Some (gobUint (length message) @ message))"

text \<open>One message of a gob stream that holds a value of type \<^verbatim>\<open>[]byte\<close>.\<close>

definition ungobBytes :: "bytes \<Rightarrow> bytes option" where
  "ungobBytes body =
     (case ungobUint body of
        None \<Rightarrow> None
      | Some (delta, rest) \<Rightarrow>
          if delta \<noteq> 0 then None
          else (case ungobUint rest of
            None \<Rightarrow> None
          | Some (n, rest') \<Rightarrow>
              if length rest' < n \<or> gobTooBig \<le> int n then None else Some (take n rest')))"

text \<open>Empty messages are skipped; the first non-empty one decides.\<close>

function decodeCandidateBatch :: "(bytes \<Rightarrow> bytes option) \<Rightarrow> bytes \<Rightarrow> bytes option" where
  "decodeCandidateBatch gobOther stream =
     (case ungobUint stream of
        None \<Rightarrow> None
      | Some (nbytes, rest) \<Rightarrow>
          if gobTooBig \<le> int nbytes then None
          else if nbytes = 0 then decodeCandidateBatch gobOther rest
          else if length rest < nbytes then None
          else case take nbytes rest of
            [] \<Rightarrow> None
          | t # body \<Rightarrow> if t = 10 then ungobBytes body else gobOther stream)"
  by pat_completeness auto

lemma ungobUint_shorter: "ungobUint bs = Some (n, rest) \<Longrightarrow> length rest < length bs"
  by (cases bs) (auto simp: ungobUint_def Let_def split: if_splits)

termination decodeCandidateBatch
  by (relation "measure (\<lambda>(g, s). length s)") (auto dest: ungobUint_shorter)

section \<open>Slot data\<close>

record SlotMessage =
  smSlot :: nat
  smPayload :: "ACSMessage option"

record AcceptedBatch =
  abProposerID :: node_id
  abBatch :: bytes

record 'd SlotOutput =
  soSlot :: nat
  soCommonSubset :: "(node_id, bytes) gomap"
  soOrderedBatches :: "AcceptedBatch list"
  soBlockBody :: bytes
  soDecryptionResult :: "'d option"
  soACSTrace :: ACSTrace

datatype slot_error =
    NilSlotMessage
  | WrongSlot nat nat
  | ACSFailed acs_error
  | NilProvider
  | ProviderFailed
  | EncodeFailed
  | DecodeFailed node_id
  | BuilderFailed
  | PostAgreementFailed

record 'd slot_hooks =
  hkBuilder :: "(nat \<Rightarrow> AcceptedBatch list \<Rightarrow> bytes option) option"
  hkPost :: "('d SlotOutput \<Rightarrow> 'd option) option"
  hkEncodeSlotBlockBody :: "nat \<Rightarrow> AcceptedBatch list \<Rightarrow> bytes option"

record slot_env =
  envRBC :: rbc_lib
  envOrd :: "node_id list \<Rightarrow> node_id list"
  envGobOther :: "bytes \<Rightarrow> bytes option"
  envClock :: "nat \<Rightarrow> time"

record 'd SlotACS =
  saConfig :: Config
  saSlot :: nat
  saACS :: ACS
  saHooks :: "'d slot_hooks"
  saOutput :: "'d SlotOutput option"
  saTrace :: traceRecorder
  saReadings :: nat

definition NewSlotACS :: "slot_env \<Rightarrow> Config \<Rightarrow> nat \<Rightarrow> bool \<Rightarrow> 'd slot_hooks \<Rightarrow> 'd SlotACS option" where
  "NewSlotACS env cfg slot traceEnabled hooks =
     (case newACS (envRBC env) cfg of
        None \<Rightarrow> None
      | Some acs \<Rightarrow>
          Some \<lparr>saConfig = cfg, saSlot = slot, saACS = acs, saHooks = hooks, saOutput = None,
            saTrace = newTraceRecorder (cfgNodes cfg) traceEnabled, saReadings = 0\<rparr>)"

section \<open>Recording\<close>

definition slot_record :: "slot_env \<Rightarrow> trace_call \<Rightarrow> 'd SlotACS \<Rightarrow> 'd SlotACS" where
  "slot_record env c s =
     s\<lparr>saTrace := apply_call (envClock env (saReadings s)) c (saTrace s), saReadings := saReadings s + 1\<rparr>"

definition slot_flush :: "slot_env \<Rightarrow> 'd SlotACS \<Rightarrow> 'd SlotACS" where
  "slot_flush env s =
     fold (slot_record env) (acsTrace (saACS s)) (s\<lparr>saACS := (saACS s)\<lparr>acsTrace := []\<rparr>\<rparr>)"

definition BeginTrace :: "time \<Rightarrow> 'd SlotACS \<Rightarrow> 'd SlotACS" where
  "BeginTrace proposalReady s = s\<lparr>saTrace := begin_trace proposalReady (saTrace s)\<rparr>"

definition slot_Trace :: "'d SlotACS \<Rightarrow> ACSTrace" where
  "slot_Trace s = snapshot (saTrace s)"

definition MarkNodeOutputReceived :: "slot_env \<Rightarrow> 'd SlotACS \<Rightarrow> 'd SlotACS" where
  "MarkNodeOutputReceived env s = slot_record env (CallAdapter traceNodeOutputReceived) s"

definition RecordACSInbound :: "ACSMessageSubtype \<Rightarrow> int \<Rightarrow> 'd SlotACS \<Rightarrow> 'd SlotACS" where
  "RecordACSInbound t sz s = s\<lparr>saTrace := recordMessageInbound t sz (saTrace s)\<rparr>"

definition BeginACSOutbound :: "ACSMessageSubtype \<Rightarrow> 'd SlotACS \<Rightarrow> ACSSendToken option \<times> 'd SlotACS" where
  "BeginACSOutbound t s =
     (let (token, r) = beginMessageOutbound t (saTrace s) in (token, s\<lparr>saTrace := r\<rparr>))"

definition SealACSOutbound :: "'d SlotACS \<Rightarrow> 'd SlotACS" where
  "SealACSOutbound s = s\<lparr>saTrace := sealMessageOutbound (saTrace s)\<rparr>"

definition TraceFinalized :: "'d SlotACS \<Rightarrow> bool" where
  "TraceFinalized s = traceFinalized (saTrace s)"

definition RecordACSOutbound :: "ACSMessageSubtype \<Rightarrow> ACSSendObservation \<Rightarrow> 'd SlotACS \<Rightarrow> 'd SlotACS" where
  "RecordACSOutbound t obs s =
     (let (token, s') = BeginACSOutbound t s in s'\<lparr>saTrace := snd (Complete obs token (saTrace s'))\<rparr>)"

section \<open>Building the output\<close>

text \<open>The first batch that cannot be decoded ends the loop.\<close>

fun decodeCommonSubset ::
  "(bytes \<Rightarrow> bytes option) \<Rightarrow> (node_id, bytes) gomap \<Rightarrow> slot_error + (node_id, bytes) gomap" where
  "decodeCommonSubset g [] = Inr []"
| "decodeCommonSubset g ((pid, batch) # rest) =
     (case decodeCandidateBatch g batch of
        None \<Rightarrow> Inl (DecodeFailed pid)
      | Some plain \<Rightarrow>
          (case decodeCommonSubset g rest of
             Inl e \<Rightarrow> Inl e
           | Inr decoded \<Rightarrow> Inr ((pid, plain) # decoded)))"

definition orderedBatches :: "(node_id, bytes) gomap \<Rightarrow> AcceptedBatch list" where
  "orderedBatches sub =
     map (\<lambda>nid. \<lparr>abProposerID = nid, abBatch = the (map_of sub nid)\<rparr>)
       (sortSlice (<) (map fst sub))"

definition maybeBuildOutput :: "slot_env \<Rightarrow> 'd SlotACS \<Rightarrow> slot_error status \<times> 'd SlotACS" where
  "maybeBuildOutput env s =
     (if saOutput s \<noteq> None then (NoErr, s)
      else
        let (sub, acs') = acs_takeOutput (saACS s); s1 = s\<lparr>saACS := acs'\<rparr> in
        case sub of
          None \<Rightarrow> (NoErr, s1)
        | Some m \<Rightarrow>
            if m = [] then (NoErr, s1)
            else (case decodeCommonSubset (envGobOther env) m of
               Inl e \<Rightarrow> (Err e, s1)
             | Inr decodedSubset \<Rightarrow>
                 let s2 = slot_record env (CallAdapter traceCommonSubsetDecoded) s1;
                     ordered = orderedBatches decodedSubset;
                     builder = (case hkBuilder (saHooks s2) of
                                  None \<Rightarrow> hkEncodeSlotBlockBody (saHooks s2) | Some f \<Rightarrow> f)
                 in (case builder (saSlot s2) ordered of
                      None \<Rightarrow> (Err BuilderFailed, s2)
                    | Some blockBody \<Rightarrow>
                        let s3 = slot_record env (CallAdapter traceBlockBodyBuilt) s2;
                            out = \<lparr>soSlot = saSlot s3, soCommonSubset = decodedSubset,
                              soOrderedBatches = ordered, soBlockBody = blockBody,
                              soDecryptionResult = None, soACSTrace = snapshot (saTrace s3)\<rparr>
                        in (case hkPost (saHooks s3) of
                             None \<Rightarrow> (NoErr, s3\<lparr>saOutput := Some out\<rparr>)
                           | Some post \<Rightarrow>
                               (case post out of
                                  None \<Rightarrow> (Err PostAgreementFailed, s3)
                                | Some res \<Rightarrow>
                                    (NoErr, s3\<lparr>saOutput := Some (out\<lparr>soDecryptionResult := Some res\<rparr>)\<rparr>))))))"

section \<open>Operations\<close>

definition after_acs ::
  "slot_env \<Rightarrow> acs_error status \<times> ACS \<Rightarrow> 'd SlotACS \<Rightarrow> slot_error status \<times> 'd SlotACS" where
  "after_acs env r s =
     (let s1 = slot_flush env (s\<lparr>saACS := snd r\<rparr>) in
      case fst r of
        NoErr \<Rightarrow> maybeBuildOutput env s1
      | st \<Rightarrow> (lift_status ACSFailed st, s1))"

definition InputBatch :: "slot_env \<Rightarrow> bytes \<Rightarrow> 'd SlotACS \<Rightarrow> slot_error status \<times> 'd SlotACS" where
  "InputBatch env batch s =
     (case encodeCandidateBatch batch of
        None \<Rightarrow> (Err EncodeFailed, s)
      | Some encodedBatch \<Rightarrow>
          after_acs env (acs_inputValue (envRBC env) (envOrd env) encodedBatch (saACS s)) s)"

text \<open>The provider is \<^term>\<open>None\<close> for nil; a call of it may fail.\<close>

definition InputFromProvider ::
  "slot_env \<Rightarrow> (nat \<Rightarrow> bytes option) option \<Rightarrow> 'd SlotACS \<Rightarrow> slot_error status \<times> 'd SlotACS" where
  "InputFromProvider env provider s =
     (case provider of
        None \<Rightarrow> (Err NilProvider, s)
      | Some candidateBatch \<Rightarrow>
          (case candidateBatch (saSlot s) of
             None \<Rightarrow> (Err ProviderFailed, s)
           | Some batch \<Rightarrow> InputBatch env batch s))"

definition slot_HandleMessage ::
  "slot_env \<Rightarrow> node_id \<Rightarrow> SlotMessage option \<Rightarrow> 'd SlotACS \<Rightarrow> slot_error status \<times> 'd SlotACS" where
  "slot_HandleMessage env senderID msg s =
     (case msg of
        None \<Rightarrow> (Err NilSlotMessage, s)
      | Some m \<Rightarrow>
          (case smPayload m of
             None \<Rightarrow> (Err NilSlotMessage, s)
           | Some payload \<Rightarrow>
               if smSlot m \<noteq> saSlot s then (Err (WrongSlot (smSlot m) (saSlot s)), s)
               else after_acs env (acs_handleMessage (envRBC env) (envOrd env) senderID payload (saACS s)) s))"

definition slot_Messages :: "'d SlotACS \<Rightarrow> SlotMessage MessageTuple list \<times> 'd SlotACS" where
  "slot_Messages s =
     (let (msgs, q) = que_messages (acsMessageQue (saACS s)) in
      (map (\<lambda>m. \<lparr>mtTo = mtTo m, mtPayload = \<lparr>smSlot = saSlot s, smPayload = Some (mtPayload m)\<rparr>\<rparr>) msgs,
       s\<lparr>saACS := (saACS s)\<lparr>acsMessageQue := q\<rparr>\<rparr>))"

record SlotProgress =
  spSlot :: nat
  spACS :: ACSProgress

definition slot_Progress :: "'d SlotACS \<Rightarrow> SlotProgress" where
  "slot_Progress s = \<lparr>spSlot = saSlot s, spACS = acs_progress (saACS s)\<rparr>"

definition slot_takeOutput :: "'d SlotACS \<Rightarrow> 'd SlotOutput option \<times> 'd SlotACS" where
  "slot_takeOutput s = (saOutput s, s\<lparr>saOutput := None\<rparr>)"

interpretation slot_out: take_once saOutput slot_takeOutput
  by unfold_locales (simp_all add: slot_takeOutput_def)

section \<open>Facts about the encoding\<close>

lemma ungob_gobUint: "n < 256 ^ 8 \<Longrightarrow> ungobUint (gobUint n @ rest) = Some (n, rest)"
proof (cases "n \<le> 127")
  case True
  then show ?thesis by (simp add: ungobUint_def gobUint_def unat_of_byte)
next
  case False
  assume "n < 256 ^ 8"
  then have len: "length (beBytes n) \<le> 8" "0 < length (beBytes n)"
    using beBytes_len [of n 8] beBytes_nonempty by auto
  have "unat (of_nat (256 - length (beBytes n)) :: byte) = 256 - length (beBytes n)"
    using len by (intro unat_of_byte) simp
  then show ?thesis using False len by (simp add: ungobUint_def gobUint_def Let_def beNat_beBytes)
qed

lemma small_uint: "int n \<le> gobTooBig \<Longrightarrow> n < 256 ^ 8"
  by (simp add: gobTooBig_def)

lemma decode_encode:
  assumes "encodeCandidateBatch batch = Some enc" and "int (length enc) < gobTooBig"
  shows "decodeCandidateBatch g (enc @ pad) = Some batch"
proof -
  let ?m = "10 # 0 # gobUint (length batch) @ batch"
  have enc: "enc = gobUint (length ?m) @ ?m" and small: "int (length ?m) \<le> gobTooBig"
    using assms(1) by (auto simp: encodeCandidateBatch_def Let_def split: if_splits)
  have nb: "int (length ?m) < gobTooBig" "int (length batch) < gobTooBig" using assms(2) enc by auto
  have u1: "ungobUint (enc @ pad) = Some (length ?m, ?m @ pad)"
    unfolding enc using ungob_gobUint [OF small_uint [OF small]] by simp
  have u2: "ungobUint (gobUint (length batch) @ batch) = Some (length batch, batch)"
    using nb by (intro ungob_gobUint small_uint) simp
  have u0: "ungobUint (0 # xs) = Some (0, xs)" for xs by (simp add: ungobUint_def)
  have body: "ungobBytes (0 # gobUint (length batch) @ batch) = Some batch"
    using nb by (simp add: ungobBytes_def u0 u2)
  show ?thesis
    by (subst decodeCandidateBatch.simps) (use nb u1 body in \<open>simp add: take_Cons'\<close>)
qed

section \<open>Facts about the order of the batches\<close>

lemma orderedBatches_ids: "map abProposerID (orderedBatches sub) = sort (map fst sub)"
  by (simp add: orderedBatches_def comp_def node_order.sort_is_key)

lemma orderedBatches_content:
  assumes "map_of sub = map_of sub'" and "wf_map sub" and "wf_map sub'"
  shows "orderedBatches sub = orderedBatches sub'"
proof -
  have "set (map fst sub) = set (map fst sub')"
    using assms(1) by (metis dom_map_of_conv_image_fst list.set_map)
  then have "mset (map fst sub) = mset (map fst sub')"
    using assms(2,3) by (metis set_eq_iff_mset_eq_distinct)
  then have "sortSlice (<) (map fst sub) = sortSlice (<) (map fst sub')"
    by (rule node_order.permutation_invariant) simp
  then show ?thesis using assms(1) by (simp add: orderedBatches_def)
qed

lemma decodeCommonSubset_Inr:
  "decodeCommonSubset g m = Inr d \<Longrightarrow>
   map fst d = map fst m \<and> (\<forall>p b. map_of m p = Some b \<longrightarrow> map_of d p = decodeCandidateBatch g b)"
  by (induction g m arbitrary: d rule: decodeCommonSubset.induct)
    (auto split: option.splits sum.splits simp del: decodeCandidateBatch.simps)

lemma decodeCommonSubset_Inl:
  "(\<exists>e. decodeCommonSubset g m = Inl e) \<longleftrightarrow> (\<exists>(p, b) \<in> set m. decodeCandidateBatch g b = None)"
  by (induction g m rule: decodeCommonSubset.induct)
    (auto split: option.splits sum.splits simp del: decodeCandidateBatch.simps)

lemma decodeCommonSubset_map:
  assumes "decodeCommonSubset g m = Inr d"
  shows "map_of d = (\<lambda>p. case map_of m p of None \<Rightarrow> None | Some b \<Rightarrow> decodeCandidateBatch g b)"
proof
  fix p
  show "map_of d p = (case map_of m p of None \<Rightarrow> None | Some b \<Rightarrow> decodeCandidateBatch g b)"
  proof (cases "map_of m p")
    case None
    then have "p \<notin> set (map fst d)" using decodeCommonSubset_Inr [OF assms] by (simp add: map_of_eq_None_iff)
    then have "map_of d p = None" by (simp add: map_of_eq_None_iff)
    then show ?thesis using None by (simp only: option.case)
  next
    case (Some b)
    then show ?thesis using decodeCommonSubset_Inr [OF assms] by simp
  qed
qed

section \<open>Frames\<close>

lemma slot_record_fields [frame_simps, simp]:
  "saConfig (slot_record env c s) = saConfig s" "saSlot (slot_record env c s) = saSlot s"
  "saACS (slot_record env c s) = saACS s" "saHooks (slot_record env c s) = saHooks s"
  "saOutput (slot_record env c s) = saOutput s"
  by (simp_all add: slot_record_def)

lemma slot_fold_fields [frame_simps, simp]:
  "saSlot (fold (slot_record env) cs s) = saSlot s" "saACS (fold (slot_record env) cs s) = saACS s"
  "saHooks (fold (slot_record env) cs s) = saHooks s" "saOutput (fold (slot_record env) cs s) = saOutput s"
  by (induction cs arbitrary: s) simp_all

lemma slot_flush_fields [frame_simps, simp]:
  "saSlot (slot_flush env s) = saSlot s" "saACS (slot_flush env s) = (saACS s)\<lparr>acsTrace := []\<rparr>"
  "saHooks (slot_flush env s) = saHooks s" "saOutput (slot_flush env s) = saOutput s"
  by (simp_all add: slot_flush_def)

section \<open>A slot that has lost its output\<close>

definition lost :: "'d SlotACS \<Rightarrow> bool" where
  "lost s \<longleftrightarrow> decided (saACS s) \<and> acsOutput (saACS s) = None \<and> saOutput s = None"

lemma maybeBuildOutput_lost: "lost s \<Longrightarrow> lost (snd (maybeBuildOutput env s))"
  by (simp add: lost_def maybeBuildOutput_def acs_takeOutput_def)

lemma after_acs_lost:
  assumes "lost s" and "kept (saACS s) (snd r)"
  shows "lost (snd (after_acs env r s))"
proof -
  have "lost (slot_flush env (s\<lparr>saACS := snd r\<rparr>))" using assms by (simp add: lost_def kept_def)
  then show ?thesis using maybeBuildOutput_lost by (auto simp: after_acs_def Let_def split: status.splits)
qed

lemma HandleMessage_lost: "lost s \<Longrightarrow> lost (snd (slot_HandleMessage env sid m s))"
  using after_acs_lost [OF _ handleMessage_kept] by (auto simp: slot_HandleMessage_def split: option.splits)

lemma InputBatch_lost: "lost s \<Longrightarrow> lost (snd (InputBatch env batch s))"
  using after_acs_lost [OF _ inputValue_kept] by (auto simp: InputBatch_def split: option.splits)

lemma messages_lost: "lost s \<Longrightarrow> lost (fold (\<lambda>(sid, m) s. snd (slot_HandleMessage env sid m s)) ms s)"
  by (induction ms arbitrary: s) (auto intro: HandleMessage_lost)

section \<open>Properties\<close>

text \<open>
  Round trip of a candidate batch: decoding what \<^verbatim>\<open>encodeCandidateBatch\<close> wrote returns the
  batch, whatever bytes follow it; so the zero padding of the reliable broadcast is harmless.
\<close>

theorem slot_batch_roundtrip:
  assumes "encodeCandidateBatch batch = Some enc" and "int (length enc) < gobTooBig"
  shows "decodeCandidateBatch g (enc @ pad) = Some batch"
  using assms by (rule decode_encode)

theorem slot_batch_roundtrip_witness:
  "encodeCandidateBatch [1, 2, 3] = Some [6, 10, 0, 3, 1, 2, 3] \<and>
   decodeCandidateBatch (\<lambda>_. None) ([6, 10, 0, 3, 1, 2, 3] @ [0, 0, 0]) = Some [1, 2, 3]"
proof -
  have e: "encodeCandidateBatch [1, 2, 3] = Some [6, 10, 0, 3, 1, 2, 3]" by code_simp
  show ?thesis using slot_batch_roundtrip [OF e, of "\<lambda>_. None" "[0, 0, 0]"] e by (simp add: gobTooBig_def)
qed

text \<open>
  What an emitted slot output contains: the common subset the agreement produced, each
  batch decoded, the batches ordered by proposer id, and the body the block builder made of
  exactly these batches.
\<close>

theorem slot_output_content:
  assumes "saOutput s = None" and "maybeBuildOutput env s = (st, s')" and "saOutput s' = Some out"
    and "acsOutput (saACS s) = Some m" and "wf_map m"
  shows "st = NoErr \<and> soSlot out = saSlot s \<and>
    map_of (soCommonSubset out) = (\<lambda>p. case map_of m p of None \<Rightarrow> None | Some b \<Rightarrow> decodeCandidateBatch (envGobOther env) b) \<and>
    map abProposerID (soOrderedBatches out) = sort (map fst m) \<and>
    (\<forall>b \<in> set (soOrderedBatches out). map_of (soCommonSubset out) (abProposerID b) = Some (abBatch b)) \<and>
    (case hkBuilder (saHooks s) of None \<Rightarrow> hkEncodeSlotBlockBody (saHooks s) | Some f \<Rightarrow> f)
      (saSlot s) (soOrderedBatches out) = Some (soBlockBody out)"
proof -
  obtain d where d: "decodeCommonSubset (envGobOther env) m = Inr d" and
    st: "st = NoErr" "soSlot out = saSlot s" "soCommonSubset out = d" "soOrderedBatches out = orderedBatches d"
    "(case hkBuilder (saHooks s) of None \<Rightarrow> hkEncodeSlotBlockBody (saHooks s) | Some f \<Rightarrow> f)
      (saSlot s) (orderedBatches d) = Some (soBlockBody out)"
    using assms(1-4)
    by (auto simp: maybeBuildOutput_def acs_takeOutput_def Let_def split: if_splits sum.splits option.splits)
  have keys: "map fst d = map fst m" using decodeCommonSubset_Inr [OF d] by simp
  have "map_of d (abProposerID b) = Some (abBatch b)" if bin: "b \<in> set (orderedBatches d)" for b
  proof -
    obtain p where p: "p \<in> set (map fst d)" "b = \<lparr>abProposerID = p, abBatch = the (map_of d p)\<rparr>"
      using bin by (auto simp: orderedBatches_def)
    then have "map_of d p \<noteq> None" by (simp add: map_of_eq_None_iff)
    then show ?thesis using p(2) by auto
  qed
  then show ?thesis
    using st decodeCommonSubset_map [OF d] orderedBatches_ids [of d] keys by simp
qed

definition demo_hooks :: "nat slot_hooks" where
  "demo_hooks = \<lparr>hkBuilder = Some (\<lambda>slot bs. Some (concat (map abBatch bs))), hkPost = None,
     hkEncodeSlotBlockBody = (\<lambda>_ _. None)\<rparr>"

definition demo_env :: slot_env where
  "demo_env = \<lparr>envRBC = \<lparr>rsNew = (\<lambda>_ _. True), rsSplit = (\<lambda>_ _ _. None), rsEncode = (\<lambda>_ _ _. None),
       rsReconstruct = (\<lambda>_ _ _. None), mtProve = (\<lambda>_ _. ([], [], 0, 0)), mtVerify = (\<lambda>_ _ _ _. False),
       rangeOrder = (\<lambda>ps. ps)\<rparr>,
     envOrd = (\<lambda>x. x), envGobOther = (\<lambda>_. None), envClock = int\<rparr>"

definition demo_slot :: "(node_id, bytes) gomap \<Rightarrow> nat SlotACS" where
  "demo_slot m = \<lparr>saConfig = acsConfig demo_acs, saSlot = 9,
     saACS = demo_acs\<lparr>acsOutput := Some m, decided := True\<rparr>, saHooks = demo_hooks, saOutput = None,
     saTrace = newTraceRecorder [0, 1, 2, 3] False, saReadings = 0\<rparr>"

definition demo_subset :: "(node_id, bytes) gomap" where
  "demo_subset = [(2, [4, 10, 0, 1, 5, 0]), (0, [4, 10, 0, 1, 7])]"

theorem slot_output_content_witness:
  "\<exists>s' out. maybeBuildOutput demo_env (demo_slot demo_subset) = (NoErr, s') \<and> saOutput s' = Some out \<and>
     map abProposerID (soOrderedBatches out) = sort [2, 0] \<and> soBlockBody out = [7, 5]"
proof -
  let ?s = "demo_slot demo_subset"
  have run: "fst (maybeBuildOutput demo_env ?s) = NoErr \<and>
      map_option soBlockBody (saOutput (snd (maybeBuildOutput demo_env ?s))) = Some [7, 5]" by code_simp
  then obtain s' out where s': "maybeBuildOutput demo_env ?s = (NoErr, s')" "saOutput s' = Some out" "soBlockBody out = [7, 5]"
    by (metis (no_types, lifting) map_option_eq_Some prod.collapse)
  have "map abProposerID (soOrderedBatches out) = sort (map fst demo_subset)"
    using slot_output_content [OF _ s'(1,2), of demo_subset] by (simp add: demo_slot_def demo_subset_def)
  then show ?thesis using s' by (simp add: demo_subset_def)
qed

text \<open>
  The order of the batches does not depend on the iteration order of the agreed map: two
  nodes whose common subsets have the same content (in whatever order) build the same list.
\<close>

theorem slot_order_deterministic:
  assumes "map_of sub = map_of sub'" and "wf_map sub" and "wf_map sub'"
  shows "orderedBatches sub = orderedBatches sub' \<and> sorted (map abProposerID (orderedBatches sub))"
  using orderedBatches_content [OF assms] orderedBatches_ids [of sub] by simp

theorem slot_order_deterministic_witness:
  "orderedBatches [(2, [5]), (0, [7])] = orderedBatches [(0, [7]), (2, [5])] \<and>
   sorted (map abProposerID (orderedBatches [(2, [5]), (0, [7])]))"
  by (rule slot_order_deterministic) (auto simp: fun_eq_iff)



end
