(* ===== verification/Inclusion_Merge.thy ===== *)
theory Inclusion_Merge
  imports Go_Bytes
begin

text \<open>
  The deterministic merge of agreed inclusion lists:
  \<^verbatim>\<open>bloc-node/internal/app/inclusion/merge.go\<close> and \<^verbatim>\<open>types.go\<close>.

  Strings are byte strings compared bytewise, as Go compares them. Gas is a \<^verbatim>\<open>uint64\<close> word.
  SHA-256 and the JSON encodings that are hashed are the parameter record \<open>merge_env\<close>, as are
  \<^verbatim>\<open>strings.ToLower\<close> and \<^verbatim>\<open>strings.TrimSpace\<close> on strings with a byte outside ASCII (where Go
  consults its Unicode tables); on ASCII strings they are written out. \<open>rangeCands\<close> is the
  order in which \<^verbatim>\<open>range unique\<close> visits the candidates.
\<close>

section \<open>Data\<close>

record EncryptedPlaceholder =
  epHash :: string
  epCiphertext :: bytes
  epGas :: "64 word"
  epEffectiveFeePerGasWei :: string
  epFrom :: string
  epNonce :: nat
  epKind :: string

record InclusionList =
  ilSlot :: nat
  ilOperatorID :: nat
  ilItems :: "EncryptedPlaceholder list"
  ilHash :: string

record AgreedInclusionSet =
  asSlot :: nat
  asLists :: "InclusionList list"
  asHash :: string
  asTotalItems :: nat

record MergedEncryptedSet =
  msSlot :: nat
  msItems :: "EncryptedPlaceholder list"
  msHash :: string
  msSelectedGas :: "64 word"
  msSkippedItems :: int

record BlockspaceConfig =
  MaxDecryptedGas :: "64 word"
  MaxDecryptedTxs :: int
  DefaultTxGas :: "64 word"

record mergeCandidate =
  mcItem :: EncryptedPlaceholder
  mcFee :: int

record merge_env =
  meSha256 :: "bytes \<Rightarrow> bytes"
  meJsonList :: "nat \<times> nat \<times> EncryptedPlaceholder list \<Rightarrow> bytes"
  meJsonSet :: "nat \<times> InclusionList list \<Rightarrow> bytes"
  meJsonMerged :: "nat \<times> EncryptedPlaceholder list \<times> 64 word \<Rightarrow> bytes"
  meUniLower :: "string \<Rightarrow> string"
  meUniTrim :: "string \<Rightarrow> string"
  meRangeCands :: "mergeCandidate list \<Rightarrow> mergeCandidate list"

section \<open>Identities\<close>

definition hashHex :: "merge_env \<Rightarrow> bytes \<Rightarrow> string" where
  "hashHex E data = hexEncode (meSha256 E data)"

definition HashInclusionList :: "merge_env \<Rightarrow> InclusionList \<Rightarrow> string" where
  "HashInclusionList E l = hashHex E (meJsonList E (ilSlot l, ilOperatorID l, ilItems l))"

definition listLess :: "InclusionList \<Rightarrow> InclusionList \<Rightarrow> bool" where
  "listLess a b = (if ilHash a \<noteq> ilHash b then ilHash a < ilHash b else ilOperatorID a < ilOperatorID b)"

definition NewAgreedSet :: "merge_env \<Rightarrow> nat \<Rightarrow> InclusionList list \<Rightarrow> AgreedInclusionSet" where
  "NewAgreedSet E slot ils =
     (let canonicalLists = sortSlice listLess (map (\<lambda>l. l\<lparr>ilHash := HashInclusionList E l\<rparr>) ils);
          total = sum_list (map (\<lambda>l. length (ilItems l)) canonicalLists)
      in \<lparr>asSlot = slot, asLists = canonicalLists, asHash = hashHex E (meJsonSet E (slot, canonicalLists)),
          asTotalItems = total\<rparr>)"

definition hashMergedSet :: "merge_env \<Rightarrow> MergedEncryptedSet \<Rightarrow> string" where
  "hashMergedSet E m = hashHex E (meJsonMerged E (msSlot m, msItems m, msSelectedGas m))"

section \<open>Normalisation\<close>

definition parseBigInt :: "merge_env \<Rightarrow> string \<Rightarrow> int option" where
  "parseBigInt E raw0 =
     (let t = TrimSpace (meUniTrim E) raw0; raw = (if t = [] then ''0'' else t) in
      case SetString10 raw of
        None \<Rightarrow> None
      | Some out \<Rightarrow> if out < 0 then None else Some out)"

definition claimedHash :: "merge_env \<Rightarrow> EncryptedPlaceholder \<Rightarrow> string" where
  "claimedHash E item = TrimPrefix (ToLower (meUniLower E) (epHash item)) ''0x''"

definition normalizePlaceholder :: "merge_env \<Rightarrow> EncryptedPlaceholder \<Rightarrow> (EncryptedPlaceholder \<times> int) option" where
  "normalizePlaceholder E item0 =
     (if epCiphertext item0 = [] \<or> epGas item0 = 0 then None
      else case parseBigInt E (epEffectiveFeePerGasWei item0) of
        None \<Rightarrow> None
      | Some fee \<Rightarrow>
          let computedHash = hashHex E (epCiphertext item0);
              item = (if epHash item0 = [] then item0\<lparr>epHash := computedHash\<rparr> else item0);
              normalizedHash = claimedHash E item
          in if normalizedHash \<noteq> computedHash then None
             else
               let i1 = item\<lparr>epHash := normalizedHash, epFrom := ToLower (meUniLower E) (epFrom item)\<rparr>;
                   i2 = (if epKind i1 = [] then i1\<lparr>epKind := ''placeholder''\<rparr> else i1);
                   i3 = (if epEffectiveFeePerGasWei i2 = [] then i2\<lparr>epEffectiveFeePerGasWei := ''0''\<rparr> else i2)
               in Some (i3, fee))"

definition placeholdersEqual :: "EncryptedPlaceholder \<Rightarrow> EncryptedPlaceholder \<Rightarrow> bool" where
  "placeholdersEqual l r \<longleftrightarrow> epHash l = epHash r \<and> epCiphertext l = epCiphertext r \<and> epGas l = epGas r \<and>
     epEffectiveFeePerGasWei l = epEffectiveFeePerGasWei r \<and> epFrom l = epFrom r \<and> epNonce l = epNonce r \<and>
     epKind l = epKind r"

section \<open>The merge\<close>

type_synonym merge_maps =
  "(string, mergeCandidate) gomap \<times> (string, EncryptedPlaceholder) gomap"

text \<open>One round of the loop over the items: the maps \<^verbatim>\<open>unique\<close> and \<^verbatim>\<open>validated\<close>.\<close>

definition mergeItem :: "merge_env \<Rightarrow> EncryptedPlaceholder \<Rightarrow> merge_maps \<Rightarrow> merge_maps" where
  "mergeItem E item maps =
     (let (unique, validated) = maps; claimed = claimedHash E item in
      if claimed \<noteq> [] \<and> (case map_of validated claimed of None \<Rightarrow> False | Some prior \<Rightarrow> placeholdersEqual prior item)
      then maps
      else case normalizePlaceholder E item of
        None \<Rightarrow> maps
      | Some (normalized, fee) \<Rightarrow>
          if has_key unique (epHash normalized) then maps
          else (AList.update (epHash normalized) \<lparr>mcItem = normalized, mcFee = fee\<rparr> unique,
                AList.update (epHash normalized) item validated))"

definition candLess :: "mergeCandidate \<Rightarrow> mergeCandidate \<Rightarrow> bool" where
  "candLess a b =
     (if mcFee a \<noteq> mcFee b then mcFee a > mcFee b
      else let l = mcItem a; r = mcItem b in
        if epFrom l \<noteq> epFrom r then epFrom l < epFrom r
        else if epNonce l \<noteq> epNonce r then epNonce l < epNonce r
        else epHash l < epHash r)"

definition sortCandidates :: "mergeCandidate list \<Rightarrow> mergeCandidate list" where
  "sortCandidates cands = sortSlice candLess cands"

definition EffectiveMaxDecryptedTxs :: "BlockspaceConfig \<Rightarrow> int \<Rightarrow> int" where
  "EffectiveMaxDecryptedTxs bs bmax =
     (if bmax \<le> 0 then 0
      else if MaxDecryptedTxs bs \<le> 0 \<or> MaxDecryptedTxs bs > bmax then bmax
      else MaxDecryptedTxs bs)"

text \<open>The selection loop; \<open>break\<close> when the list is full, \<open>continue\<close> when the gas does not fit.\<close>

fun selectItems :: "int \<Rightarrow> 64 word \<Rightarrow> mergeCandidate list \<Rightarrow> EncryptedPlaceholder list \<Rightarrow> 64 word \<Rightarrow>
    EncryptedPlaceholder list \<times> 64 word" where
  "selectItems maxTxs maxGas [] selected gas = (selected, gas)"
| "selectItems maxTxs maxGas (c # cs) selected gas =
     (if int (length selected) \<ge> maxTxs then (selected, gas)
      else if maxGas > 0 \<and> epGas (mcItem c) > maxGas - gas then selectItems maxTxs maxGas cs selected gas
      else selectItems maxTxs maxGas cs (selected @ [mcItem c]) (gas + epGas (mcItem c)))"

definition mergeCandidates :: "merge_env \<Rightarrow> InclusionList list \<Rightarrow> mergeCandidate list" where
  "mergeCandidates E ils = map snd (fst (fold (mergeItem E) (concat (map ilItems ils)) ([], [])))"

definition Merge :: "merge_env \<Rightarrow> nat \<Rightarrow> InclusionList list \<Rightarrow> BlockspaceConfig \<Rightarrow> int \<Rightarrow> MergedEncryptedSet" where
  "Merge E slot ils bs bmax =
     (let candidates = sortCandidates (meRangeCands E (mergeCandidates E ils));
          (selected, selectedGas) =
            selectItems (EffectiveMaxDecryptedTxs bs bmax) (MaxDecryptedGas bs) candidates [] 0;
          merged = \<lparr>msSlot = slot, msItems = selected, msHash = [], msSelectedGas = selectedGas,
            msSkippedItems = int (length candidates) - int (length selected)\<rparr>
      in merged\<lparr>msHash := hashMergedSet E merged\<rparr>)"

definition EncryptedHashes :: "EncryptedPlaceholder list \<Rightarrow> string list" where
  "EncryptedHashes items = map epHash items"

section \<open>The comparators are orders\<close>

definition candKey :: "mergeCandidate \<Rightarrow> int \<times> string \<times> nat \<times> string" where
  "candKey c = (- mcFee c, epFrom (mcItem c), epNonce (mcItem c), epHash (mcItem c))"

interpretation cand_order: slice_order candLess candKey
  by unfold_locales (auto simp: candLess_def candKey_def Let_def less_prod_def)

interpretation list_order: slice_order listLess "\<lambda>l. (ilHash l, ilOperatorID l)"
  by unfold_locales (auto simp: listLess_def less_prod_def)

section \<open>The candidates\<close>

text \<open>
  After any number of rounds: the keys of \<^verbatim>\<open>unique\<close> are distinct, every entry sits under the hash
  of its ciphertext and is the normal form of one of the items seen.
\<close>

definition merge_inv :: "merge_env \<Rightarrow> EncryptedPlaceholder set \<Rightarrow> merge_maps \<Rightarrow> bool" where
  "merge_inv E seen maps \<longleftrightarrow> wf_map (fst maps) \<and>
     (\<forall>h c. (h, c) \<in> set (fst maps) \<longrightarrow> h = epHash (mcItem c) \<and>
        (\<exists>i \<in> seen. normalizePlaceholder E i = Some (mcItem c, mcFee c)))"

lemma normalize_hash:
  "normalizePlaceholder E i = Some (n, fee) \<Longrightarrow> epHash n = hashHex E (epCiphertext n) \<and> epCiphertext n = epCiphertext i \<and>
     epGas n = epGas i \<and> epGas n \<noteq> 0 \<and> epCiphertext n \<noteq> [] \<and> 0 \<le> fee"
  by (auto simp: normalizePlaceholder_def parseBigInt_def Let_def split: if_splits option.splits)

lemma mergeItem_inv:
  assumes "merge_inv E S maps"
  shows "merge_inv E (insert i S) (mergeItem E i maps)"
proof -
  obtain u v where m: "maps = (u, v)" by force
  have weak: "merge_inv E (insert i S) maps" using assms unfolding merge_inv_def by blast
  show ?thesis
  proof (cases "mergeItem E i maps = maps")
    case True
    then show ?thesis using weak by simp
  next
    case False
    then obtain n fee where n: "normalizePlaceholder E i = Some (n, fee)" "epHash n \<notin> keys_of u"
      "mergeItem E i maps = (AList.update (epHash n) \<lparr>mcItem = n, mcFee = fee\<rparr> u, AList.update (epHash n) i v)"
      by (auto simp: mergeItem_def m Let_def split: if_splits option.splits prod.splits)
    then show ?thesis using weak unfolding n(3) by (auto simp: merge_inv_def m update_fresh)
  qed
qed

lemma fold_merge_inv: "merge_inv E S maps \<Longrightarrow> merge_inv E (set is \<union> S) (fold (mergeItem E) is maps)"
proof (induction "is" arbitrary: S maps)
  case Nil
  then show ?case by simp
next
  case (Cons i "is")
  then show ?case using Cons.IH [OF mergeItem_inv [OF Cons.prems, of i]] by simp
qed

lemma candidates_inv:
  "merge_inv E (set (concat (map ilItems ils))) (fold (mergeItem E) (concat (map ilItems ils)) ([], []))"
  using fold_merge_inv [of E "{}" "([], [])" "concat (map ilItems ils)"] by (simp add: merge_inv_def)

lemma candidates_facts:
  assumes "c \<in> set (mergeCandidates E ils)"
  obtains l i where "l \<in> set ils" "i \<in> set (ilItems l)" "normalizePlaceholder E i = Some (mcItem c, mcFee c)"
proof -
  obtain h where "(h, c) \<in> set (fst (fold (mergeItem E) (concat (map ilItems ils)) ([], [])))"
    using assms by (auto simp: mergeCandidates_def)
  then have "\<exists>i \<in> set (concat (map ilItems ils)). normalizePlaceholder E i = Some (mcItem c, mcFee c)"
    using candidates_inv [of E ils] unfolding merge_inv_def by blast
  then show thesis using that by auto
qed

lemma candidates_distinct: "distinct (map (epHash \<circ> mcItem) (mergeCandidates E ils))"
proof -
  let ?u = "fst (fold (mergeItem E) (concat (map ilItems ils)) ([], []))"
  have inv: "wf_map ?u" "\<And>h c. (h, c) \<in> set ?u \<Longrightarrow> h = epHash (mcItem c)"
    using candidates_inv [of E ils] by (auto simp: merge_inv_def)
  have "map (epHash \<circ> mcItem) (mergeCandidates E ils) = map fst ?u"
    unfolding mergeCandidates_def map_map by (intro map_cong refl) (auto dest: inv(2))
  then show ?thesis using inv(1) by simp
qed

lemma candidates_key_inj: "inj_on candKey (set (mergeCandidates E ils))"
  using candidates_distinct [of E ils] by (auto simp: candKey_def distinct_map inj_on_def)

section \<open>The selection\<close>

lemma selectItems_prefix:
  "\<exists>ys. fst (selectItems maxTxs maxGas cs sel gas) = sel @ map mcItem ys \<and> subseq ys cs"
proof (induction maxTxs maxGas cs sel gas rule: selectItems.induct)
  case (1 maxTxs maxGas sel gas)
  then show ?case by auto
next
  case (2 maxTxs maxGas c cs sel gas)
  show ?case
  proof (cases "int (length sel) \<ge> maxTxs")
    case True
    then show ?thesis by auto
  next
    case False
    show ?thesis
    proof (cases "maxGas > 0 \<and> epGas (mcItem c) > maxGas - gas")
      case True
      then show ?thesis using 2(1) [OF False True] False by (auto intro: list_emb_Cons)
    next
      case skip: False
      obtain ys where "fst (selectItems maxTxs maxGas cs (sel @ [mcItem c]) (gas + epGas (mcItem c))) =
          (sel @ [mcItem c]) @ map mcItem ys" "subseq ys cs" using 2(2) [OF False skip] by blast
      then show ?thesis using False skip by (intro exI [of _ "c # ys"]) auto
    qed
  qed
qed

lemma selectItems_length: "0 \<le> maxTxs \<Longrightarrow> int (length sel) \<le> maxTxs \<Longrightarrow>
    int (length (fst (selectItems maxTxs maxGas cs sel gas))) \<le> maxTxs"
  by (induction maxTxs maxGas cs sel gas rule: selectItems.induct) auto

lemma selectItems_gas:
  assumes "maxGas > 0" and "gas \<le> maxGas" and "unat gas = sum_list (map (unat \<circ> epGas) sel)"
  shows "snd (selectItems maxTxs maxGas cs sel gas) \<le> maxGas \<and>
    unat (snd (selectItems maxTxs maxGas cs sel gas)) =
      sum_list (map (unat \<circ> epGas) (fst (selectItems maxTxs maxGas cs sel gas)))"
  using assms
proof (induction maxTxs maxGas cs sel gas rule: selectItems.induct)
  case (1 maxTxs maxGas sel gas)
  then show ?case by simp
next
  case (2 maxTxs maxGas c cs sel gas)
  show ?case
  proof (cases "int (length sel) \<ge> maxTxs")
    case True
    then show ?thesis using 2 by simp
  next
    case False
    show ?thesis
    proof (cases "epGas (mcItem c) > maxGas - gas")
      case True
      then show ?thesis using 2 False by simp
    next
      case fits: False
      let ?g = "epGas (mcItem c)"
      have "gas + ?g \<le> maxGas" "unat (gas + ?g) = unat gas + unat ?g"
        using budget_fits(1,2) [OF 2(4) fits] by auto
      then show ?thesis using 2 False fits by simp
    qed
  qed
qed

section \<open>Properties\<close>

text \<open>
  The agreed set does not depend on the order in which the accepted lists are exposed: two
  permutations of the same lists give the same canonical set, provided the identity hash is
  collision-free on the content of these lists.
\<close>

theorem agreed_set_order_independent:
  assumes "mset ls = mset ls'"
    and collision_free: "\<And>a b. a \<in> set ls \<Longrightarrow> b \<in> set ls \<Longrightarrow> HashInclusionList E a = HashInclusionList E b \<Longrightarrow>
      ilSlot a = ilSlot b \<and> ilOperatorID a = ilOperatorID b \<and> ilItems a = ilItems b"
  shows "NewAgreedSet E slot ls = NewAgreedSet E slot ls'"
proof -
  let ?h = "\<lambda>l. l\<lparr>ilHash := HashInclusionList E l\<rparr>"
  have same: "mset (map ?h ls) = mset (map ?h ls')" using assms(1) by simp
  have "inj_on (\<lambda>l. (ilHash l, ilOperatorID l)) (set (map ?h ls))"
  proof (rule inj_onI)
    fix x y
    assume "x \<in> set (map ?h ls)" "y \<in> set (map ?h ls)" and key: "(ilHash x, ilOperatorID x) = (ilHash y, ilOperatorID y)"
    then obtain a b where ab: "a \<in> set ls" "x = ?h a" "b \<in> set ls" "y = ?h b" by auto
    then have "HashInclusionList E a = HashInclusionList E b" using key by simp
    from collision_free [OF ab(1,3) this] show "x = y" using key ab(2,4) by (intro InclusionList.equality) simp_all
  qed
  from list_order.permutation_invariant [OF same this]
  show ?thesis by (simp add: NewAgreedSet_def Let_def)
qed

definition demo_merge_env :: merge_env where
  "demo_merge_env = \<lparr>meSha256 = (\<lambda>d. d), meJsonList = (\<lambda>(s, op, items). [of_nat (length items)]),
     meJsonSet = (\<lambda>(s, ls). []), meJsonMerged = (\<lambda>(s, items, g). []), meUniLower = (\<lambda>s. s), meUniTrim = (\<lambda>s. s),
     meRangeCands = (\<lambda>cs. cs)\<rparr>"

definition demo_item :: "byte \<Rightarrow> 64 word \<Rightarrow> string \<Rightarrow> EncryptedPlaceholder" where
  "demo_item b gas fee = \<lparr>epHash = [], epCiphertext = [b], epGas = gas, epEffectiveFeePerGasWei = fee, epFrom = ''A'',
     epNonce = 0, epKind = []\<rparr>"

definition demo_lists :: "InclusionList list" where
  "demo_lists = [\<lparr>ilSlot = 1, ilOperatorID = 2, ilItems = [demo_item 16 50 ''7'', demo_item 32 80 '' 9''], ilHash = []\<rparr>,
     \<lparr>ilSlot = 1, ilOperatorID = 1, ilItems = [demo_item 16 50 ''7'', demo_item 48 30 ''3''], ilHash = []\<rparr>]"


theorem agreed_set_order_independent_witness:
  "NewAgreedSet (demo_merge_env\<lparr>meJsonList := (\<lambda>(s, op, items). [of_nat op])\<rparr>) 1 demo_lists =
   NewAgreedSet (demo_merge_env\<lparr>meJsonList := (\<lambda>(s, op, items). [of_nat op])\<rparr>) 1 (rev demo_lists)"
proof (rule agreed_set_order_independent)
  let ?E = "demo_merge_env\<lparr>meJsonList := (\<lambda>(s, op, items). [of_nat op])\<rparr>"
  fix a b
  assume "a \<in> set demo_lists" "b \<in> set demo_lists" "HashInclusionList ?E a = HashInclusionList ?E b"
  then show "ilSlot a = ilSlot b \<and> ilOperatorID a = ilOperatorID b \<and> ilItems a = ilItems b"
    by (auto simp: demo_lists_def HashInclusionList_def hashHex_def demo_merge_env_def hexEncode_def hexDigit_def)
qed simp

lemma range_normal_form:
  assumes "\<And>cs. mset (meRangeCands E cs) = mset cs"
  shows "sortCandidates (meRangeCands E (mergeCandidates E ls)) = sortCandidates (mergeCandidates E ls)"
  unfolding sortCandidates_def
  by (rule cand_order.permutation_invariant [symmetric]) (simp_all add: assms candidates_key_inj)

lemma mergeCandidates_range: "mergeCandidates (E\<lparr>meRangeCands := f\<rparr>) ls = mergeCandidates E ls"
proof -
  have parts: "parseBigInt (E\<lparr>meRangeCands := f\<rparr>) = parseBigInt E" "claimedHash (E\<lparr>meRangeCands := f\<rparr>) = claimedHash E"
    "hashHex (E\<lparr>meRangeCands := f\<rparr>) = hashHex E" "meUniLower (E\<lparr>meRangeCands := f\<rparr>) = meUniLower E"
    by (simp_all add: fun_eq_iff parseBigInt_def claimedHash_def hashHex_def)
  have n: "normalizePlaceholder (E\<lparr>meRangeCands := f\<rparr>) = normalizePlaceholder E"
    unfolding fun_eq_iff normalizePlaceholder_def parts by (intro allI refl)
  have "mergeItem (E\<lparr>meRangeCands := f\<rparr>) = mergeItem E"
    unfolding fun_eq_iff mergeItem_def n parts by (intro allI refl)
  then show ?thesis by (simp add: mergeCandidates_def)
qed

text \<open>
  The merged set does not depend on the iteration order of the map of unique candidates:
  whatever order \<^verbatim>\<open>range\<close> uses, the result is the same, hash included.
\<close>

theorem merge_iteration_independent:
  assumes "\<And>cs. mset (meRangeCands E cs) = mset cs"
  shows "Merge E slot ls bs bmax = Merge (E\<lparr>meRangeCands := (\<lambda>cs. cs)\<rparr>) slot ls bs bmax"
  unfolding Merge_def by (simp add: range_normal_form [OF assms] mergeCandidates_range hashMergedSet_def hashHex_def)

theorem merge_iteration_independent_witness:
  "Merge (demo_merge_env\<lparr>meRangeCands := rev\<rparr>) 1 demo_lists \<lparr>MaxDecryptedGas = 100, MaxDecryptedTxs = 0, DefaultTxGas = 0\<rparr> 5 =
   Merge (demo_merge_env\<lparr>meRangeCands := rev\<rparr>\<lparr>meRangeCands := (\<lambda>cs. cs)\<rparr>) 1 demo_lists
     \<lparr>MaxDecryptedGas = 100, MaxDecryptedTxs = 0, DefaultTxGas = 0\<rparr> 5"
  by (rule merge_iteration_independent) simp

lemma merge_parts:
  assumes perm: "\<And>cs. mset (meRangeCands E cs) = mset cs"
  obtains ys where "msItems (Merge E slot ls bs bmax) = map mcItem ys" "subseq ys (sortCandidates (mergeCandidates E ls))"
    "msItems (Merge E slot ls bs bmax) = fst (selectItems (EffectiveMaxDecryptedTxs bs bmax) (MaxDecryptedGas bs)
       (sortCandidates (mergeCandidates E ls)) [] 0)"
    "msSelectedGas (Merge E slot ls bs bmax) = snd (selectItems (EffectiveMaxDecryptedTxs bs bmax) (MaxDecryptedGas bs)
       (sortCandidates (mergeCandidates E ls)) [] 0)"
proof -
  obtain ys where ys: "fst (selectItems (EffectiveMaxDecryptedTxs bs bmax) (MaxDecryptedGas bs)
      (sortCandidates (mergeCandidates E ls)) [] 0) = [] @ map mcItem ys" "subseq ys (sortCandidates (mergeCandidates E ls))"
    using selectItems_prefix by blast
  obtain sel g where "selectItems (EffectiveMaxDecryptedTxs bs bmax) (MaxDecryptedGas bs)
      (sortCandidates (mergeCandidates E ls)) [] 0 = (sel, g)" by force
  then show thesis
    by (intro that [of ys]) (use ys in \<open>simp_all add: Merge_def range_normal_form [OF perm] Let_def\<close>)
qed

text \<open>
  What a merged set contains: at most the effective number of transactions, no ciphertext
  hash twice, every item the normal form of an item of one of the lists, with the hash of its
  own ciphertext and positive gas.
\<close>

theorem merge_content:
  assumes "\<And>cs. mset (meRangeCands E cs) = mset cs"
  shows "int (length (msItems (Merge E slot ls bs bmax))) \<le> EffectiveMaxDecryptedTxs bs bmax \<and>
    distinct (EncryptedHashes (msItems (Merge E slot ls bs bmax))) \<and>
    (\<forall>x \<in> set (msItems (Merge E slot ls bs bmax)).
       epHash x = hashHex E (epCiphertext x) \<and> epGas x \<noteq> 0 \<and>
       (\<exists>l \<in> set ls. \<exists>i \<in> set (ilItems l). \<exists>fee. normalizePlaceholder E i = Some (x, fee)))"
proof -
  let ?m = "Merge E slot ls bs bmax"
  obtain ys where ys: "msItems ?m = map mcItem ys" "subseq ys (sortCandidates (mergeCandidates E ls))"
    "msItems ?m = fst (selectItems (EffectiveMaxDecryptedTxs bs bmax) (MaxDecryptedGas bs)
       (sortCandidates (mergeCandidates E ls)) [] 0)" using merge_parts [OF assms] by metis
  have "0 \<le> EffectiveMaxDecryptedTxs bs bmax" by (simp add: EffectiveMaxDecryptedTxs_def)
  then have len: "int (length (msItems ?m)) \<le> EffectiveMaxDecryptedTxs bs bmax"
    unfolding ys(3) by (intro selectItems_length) simp_all
  have "distinct (map (epHash \<circ> mcItem) (sortCandidates (mergeCandidates E ls)))"
    using candidates_distinct [of E ls]
    by (metis mset_eq_imp_distinct_iff mset_map mset_sortSlice sortCandidates_def)
  then have dist: "distinct (EncryptedHashes (msItems ?m))"
    using subseq_keeps [OF ys(2), of "epHash \<circ> mcItem"] unfolding EncryptedHashes_def ys(1) by simp
  have "epHash x = hashHex E (epCiphertext x) \<and> epGas x \<noteq> 0 \<and>
      (\<exists>l \<in> set ls. \<exists>i \<in> set (ilItems l). \<exists>fee. normalizePlaceholder E i = Some (x, fee))"
    if x: "x \<in> set (msItems ?m)" for x
  proof -
    obtain c where c: "c \<in> set (mergeCandidates E ls)" "x = mcItem c"
      using x ys(1) subseq_keeps [OF ys(2)] by (auto simp: sortCandidates_def)
    obtain l i where "l \<in> set ls" "i \<in> set (ilItems l)" "normalizePlaceholder E i = Some (x, mcFee c)"
      using candidates_facts [OF c(1)] c(2) by metis
    then show ?thesis using normalize_hash by blast
  qed
  then show ?thesis using len dist by blast
qed

definition demo_space :: BlockspaceConfig where
  "demo_space = \<lparr>MaxDecryptedGas = 100, MaxDecryptedTxs = 0, DefaultTxGas = 0\<rparr>"

theorem merge_content_witness:
  "EncryptedHashes (msItems (Merge demo_merge_env 1 demo_lists demo_space 5)) = [''20''] \<and>
   distinct (EncryptedHashes (msItems (Merge demo_merge_env 1 demo_lists demo_space 5)))"
proof -
  have "EncryptedHashes (msItems (Merge demo_merge_env 1 demo_lists demo_space 5)) = [''20'']" by code_simp
  then show ?thesis using merge_content [of demo_merge_env 1 demo_lists demo_space 5] by (simp add: demo_merge_env_def)
qed

text \<open>
  C10. Gas accounting of the merge: with a gas limit, the selected gas is the exact sum of the
  items' gas (the \<^verbatim>\<open>uint64\<close> sum does not wrap) and stays within the limit.
\<close>

theorem merge_gas_bound:
  assumes "\<And>cs. mset (meRangeCands E cs) = mset cs" and "MaxDecryptedGas bs > 0"
  shows "msSelectedGas (Merge E slot ls bs bmax) \<le> MaxDecryptedGas bs \<and>
    unat (msSelectedGas (Merge E slot ls bs bmax)) = sum_list (map (unat \<circ> epGas) (msItems (Merge E slot ls bs bmax)))"
proof -
  let ?m = "Merge E slot ls bs bmax"
  obtain ys where ys: "msItems ?m = map mcItem ys" "subseq ys (sortCandidates (mergeCandidates E ls))"
    "msItems ?m = fst (selectItems (EffectiveMaxDecryptedTxs bs bmax) (MaxDecryptedGas bs)
       (sortCandidates (mergeCandidates E ls)) [] 0)"
    "msSelectedGas ?m = snd (selectItems (EffectiveMaxDecryptedTxs bs bmax) (MaxDecryptedGas bs)
       (sortCandidates (mergeCandidates E ls)) [] 0)" using merge_parts [OF assms(1)] by metis
  show ?thesis unfolding ys(3,4) using assms(2) by (intro selectItems_gas) simp_all
qed

theorem merge_gas_bound_witness:
  "msSelectedGas (Merge demo_merge_env 1 demo_lists demo_space 5) = 80 \<and>
   msSelectedGas (Merge demo_merge_env 1 demo_lists demo_space 5) \<le> 100"
proof -
  have "msSelectedGas (Merge demo_merge_env 1 demo_lists demo_space 5) = 80" by code_simp
  then show ?thesis using merge_gas_bound [of demo_merge_env demo_space 1 demo_lists 5]
    by (simp add: demo_merge_env_def demo_space_def)
qed

end
