(* ===== verification/Bte_Crypto.thy ===== *)
theory Bte_Crypto
  imports Go_Bytes
begin

text \<open>
  Batched threshold encryption: \<^verbatim>\<open>bte/btd-impl-main/prf/prf.go\<close>, \<^verbatim>\<open>elgamal/elgamal.go\<close>,
  \<^verbatim>\<open>curves/curves.go\<close> and \<^verbatim>\<open>be/btd.go\<close>.

  The curve library (kyber) is the parameter record \<open>suite\<close>: the scalars are a field, the
  points of the three groups are commutative groups (\<^verbatim>\<open>Add\<close>, \<^verbatim>\<open>Sub\<close>, \<^verbatim>\<open>Null\<close> are \<open>+\<close>, \<open>-\<close>,
  \<open>0\<close>), and scalar multiplication, the pairing, the encodings of points and scalars, hashing
  and the Shamir routines of \<^verbatim>\<open>kyber/share\<close> are its fields. What kyber documents of them
  is stated by \<open>pairing_laws\<close> and \<open>sharing_laws\<close>. Everything drawn from a random stream
  is an argument. Group elements are compared by the equality of the groups.
\<close>

record ('s, 'a, 'b, 'c) suite =
  g1Mul :: "'s \<Rightarrow> 'a \<Rightarrow> 'a"
  g2Mul :: "'s \<Rightarrow> 'b \<Rightarrow> 'b"
  gtMul :: "'s \<Rightarrow> 'c \<Rightarrow> 'c"
  g1Base :: 'a
  g2Base :: 'b
  suPair :: "'a \<Rightarrow> 'b \<Rightarrow> 'c"
  g1Marshal :: "'a \<Rightarrow> bytes option"
  g2Marshal :: "'b \<Rightarrow> bytes option"
  gtMarshal :: "'c \<Rightarrow> bytes option"
  scMarshal :: "'s \<Rightarrow> bytes option"
  g1Unmarshal :: "bytes \<Rightarrow> 'a option"
  g2Unmarshal :: "bytes \<Rightarrow> 'b option"
  gtUnmarshal :: "bytes \<Rightarrow> 'c option"
  scUnmarshal :: "bytes \<Rightarrow> 's option"
  scSetBytes :: "bytes \<Rightarrow> 's"
  suHash :: "bytes \<Rightarrow> bytes"
  suSha256 :: "bytes \<Rightarrow> bytes"
  shPriShares :: "'s list \<Rightarrow> nat \<Rightarrow> (nat \<times> 's) list"
  shRecoverCommit :: "(nat \<times> 'a) list \<Rightarrow> nat \<Rightarrow> nat \<Rightarrow> 'a option"

datatype bte_error =
    IndexOutOfDomain int
  | PuncturedIndexOutOfDomain int
  | SameIndex int
  | ProofFailed int
  | TooManyCiphertexts
  | DuplicateCiphertextIndex int
  | MarshalFailed
  | RecoverFailed
  | InvalidPRFSetup
  | MissingCRSPoint nat nat
  | CRSFieldTooLarge int
  | BadCRSMagic
  | BadCRSVersion nat
  | BadCRSSuite
  | BadCRSDomain nat
  | TruncatedCRS
  | BadCRSPoint
  | TrailingCRSBytes nat
  | BMaxNotPositive

section \<open>The suite\<close>

definition GTBase :: "('s, 'a, 'b, 'c) suite \<Rightarrow> 'c" where
  "GTBase S = suPair S (g1Base S) (g2Base S)"

definition PickGT :: "('s, 'a, 'b, 'c) suite \<Rightarrow> 's \<Rightarrow> 'c" where
  "PickGT S r = gtMul S r (GTBase S)"

section \<open>The puncturable PRF\<close>

record ('s, 'a, 'b, 'c) PRF =
  prfXi :: "'s list"
  prfZi :: "'s list"
  prfG2zi :: "'b list"
  prfGTzi :: "'c list"
  prfG1xi :: "'a list"
  prfG2zixj :: "(nat \<times> nat, 'b) gomap"
  prfB :: int

definition crossPoint :: "('s::field, 'a, 'b, 'c) suite \<Rightarrow> 's list \<Rightarrow> 's list \<Rightarrow> nat \<Rightarrow> nat \<Rightarrow> (nat \<times> nat) \<times> 'b" where
  "crossPoint S xi zi i j = ((i, j), g2Mul S (zi ! i / xi ! j) (g2Base S))"

definition crossRow :: "('s::field, 'a, 'b, 'c) suite \<Rightarrow> nat \<Rightarrow> 's list \<Rightarrow> 's list \<Rightarrow> nat \<Rightarrow> ((nat \<times> nat) \<times> 'b) list" where
  "crossRow S B xi zi i = map (crossPoint S xi zi i) [0..<B]"

text \<open>The rows worker \<open>p\<close> of the parallel setup computes.\<close>

definition setupPAR :: nat where
  "setupPAR = 16"

definition workerStart :: "nat \<Rightarrow> nat \<Rightarrow> nat" where
  "workerStart B p = p * (B div setupPAR)"

definition workerEnd :: "nat \<Rightarrow> nat \<Rightarrow> nat" where
  "workerEnd B p = (if p = setupPAR - 1 then B else (p + 1) * (B div setupPAR))"

definition putAll :: "('k \<times> 'v) list \<Rightarrow> ('k, 'v) gomap \<Rightarrow> ('k, 'v) gomap" where
  "putAll kvs m = fold (\<lambda>(k, v). AList.update k v) kvs m"

definition PRFSetup ::
  "('s::field, 'a, 'b, 'c) suite \<Rightarrow> nat \<Rightarrow> bool \<Rightarrow> 's list \<Rightarrow> 's list \<Rightarrow> ('s, 'a, 'b, 'c) PRF" where
  "PRFSetup S B par xi zi =
     (let setup = \<lparr>prfXi = xi, prfZi = zi,
            prfG2zi = map (\<lambda>z. g2Mul S z (g2Base S)) zi,
            prfGTzi = map (\<lambda>z. gtMul S z (GTBase S)) zi,
            prfG1xi = map (\<lambda>x. g1Mul S x (g1Base S)) xi,
            prfG2zixj = [], prfB = int B\<rparr>
      in if \<not> par
         then setup\<lparr>prfG2zixj := putAll (concat (map (crossRow S B xi zi) [0..<B])) []\<rparr>
         else
           let buffer = map (\<lambda>p. concat (map (crossRow S B xi zi) [workerStart B p..<workerEnd B p])) [0..<setupPAR]
           in setup\<lparr>prfG2zixj := fold putAll buffer []\<rparr>)"

definition scalarFromSeed :: "('s, 'a, 'b, 'c) suite \<Rightarrow> bytes \<Rightarrow> string \<Rightarrow> nat \<Rightarrow> 's" where
  "scalarFromSeed S seed domain i =
     scSetBytes S (suSha256 S (strBytes ''bte-prf-seed-v1'' @ seed @ strBytes domain @ be64 i))"

definition PRFSetupFromSeed :: "('s::field, 'a, 'b, 'c) suite \<Rightarrow> nat \<Rightarrow> bytes \<Rightarrow> ('s, 'a, 'b, 'c) PRF" where
  "PRFSetupFromSeed S B seed =
     (let xi = map (scalarFromSeed S seed ''xi'') [0..<B]; zi = map (scalarFromSeed S seed ''zi'') [0..<B] in
      \<lparr>prfXi = xi, prfZi = zi,
       prfG2zi = map (\<lambda>z. g2Mul S z (g2Base S)) zi,
       prfGTzi = map (\<lambda>z. gtMul S z (GTBase S)) zi,
       prfG1xi = map (\<lambda>x. g1Mul S x (g1Base S)) xi,
       prfG2zixj = putAll (concat (map (crossRow S B xi zi) [0..<B])) [], prfB = int B\<rparr>)"

definition prf_SumKeys :: "'s::field list \<Rightarrow> 's" where
  "prf_SumKeys ks = foldl (+) 0 ks"

definition Puncture :: "('s, 'a, 'b, 'c) suite \<Rightarrow> ('s, 'a, 'b, 'c) PRF \<Rightarrow> 's \<Rightarrow> int \<Rightarrow> bte_error + 'a" where
  "Puncture S f k i =
     (if i < 0 \<or> i \<ge> prfB f then Inl (IndexOutOfDomain i) else Inr (g1Mul S k (prfG1xi f ! nat i)))"

definition prf_Eval :: "('s, 'a, 'b, 'c) suite \<Rightarrow> ('s, 'a, 'b, 'c) PRF \<Rightarrow> 's \<Rightarrow> int \<Rightarrow> bte_error + 'c" where
  "prf_Eval S f k i =
     (if i < 0 \<or> i \<ge> prfB f then Inl (IndexOutOfDomain i) else Inr (gtMul S k (prfGTzi f ! nat i)))"

text \<open>A missing entry of the map is a nil point, on which the pairing panics; \<open>PEval\<close> is \<^term>\<open>None\<close> then.\<close>

definition PEval :: "('s, 'a, 'b, 'c) suite \<Rightarrow> ('s, 'a, 'b, 'c) PRF \<Rightarrow> 'a \<Rightarrow> int \<Rightarrow> int \<Rightarrow> (bte_error + 'c) option" where
  "PEval S f kp pi i =
     (if i < 0 \<or> i \<ge> prfB f then Some (Inl (IndexOutOfDomain i))
      else if pi < 0 \<or> pi \<ge> prfB f then Some (Inl (PuncturedIndexOutOfDomain pi))
      else if pi = i then Some (Inl (SameIndex i))
      else map_option (\<lambda>crselem. Inr (suPair S kp crselem)) (map_of (prfG2zixj f) (nat i, nat pi)))"

definition ExpEval :: "('s, 'a, 'b, 'c) suite \<Rightarrow> ('s, 'a, 'b, 'c) PRF \<Rightarrow> 'a \<Rightarrow> int \<Rightarrow> bte_error + 'c" where
  "ExpEval S f K i =
     (if i < 0 \<or> i \<ge> prfB f then Inl (IndexOutOfDomain i) else Inr (suPair S K (prfG2zi f ! nat i)))"

section \<open>ElGamal with a shared key\<close>

record ('s, 'a) ElGamal =
  egPK :: 'a
  egShares :: "(nat \<times> 's) list"
  egN :: nat
  egT :: nat

record 'a egCT =
  egA :: 'a
  egB :: 'a

definition NullEGct :: "'a::ab_group_add egCT" where
  "NullEGct = \<lparr>egA = 0, egB = 0\<rparr>"

definition AddCT :: "'a::ab_group_add egCT \<Rightarrow> 'a egCT \<Rightarrow> 'a egCT" where
  "AddCT a b = \<lparr>egA = egA a + egA b, egB = egB a + egB b\<rparr>"

definition eg_Sum :: "'a::ab_group_add egCT list \<Rightarrow> 'a egCT" where
  "eg_Sum cs = foldl AddCT NullEGct cs"

text \<open>
  \<^verbatim>\<open>KeyGen\<close> draws the coefficients of the sharing polynomial, the secret key first; the public key
  is the commitment to that coefficient.
\<close>

definition eg_KeyGen ::
  "('s, 'a, 'b, 'c) suite \<Rightarrow> nat \<Rightarrow> nat \<Rightarrow> 's list \<Rightarrow> ('s, 'a) ElGamal \<Rightarrow> ('s, 'a) ElGamal" where
  "eg_KeyGen S n t coeffs e =
     e\<lparr>egShares := shPriShares S coeffs n, egPK := g1Mul S (hd coeffs) (g1Base S), egN := n, egT := t\<rparr>"

definition eg_Enc :: "('s, 'a::ab_group_add, 'b, 'c) suite \<Rightarrow> 'a \<Rightarrow> 'a \<Rightarrow> 's \<Rightarrow> 'a egCT" where
  "eg_Enc S pk m u = \<lparr>egA = g1Mul S u (g1Base S), egB = g1Mul S u pk + m\<rparr>"

definition PDecWithShare :: "('s, 'a, 'b, 'c) suite \<Rightarrow> 'a egCT \<Rightarrow> nat \<times> 's \<Rightarrow> nat \<times> 'a" where
  "PDecWithShare S c s = (fst s, g1Mul S (snd s) (egA c))"

definition eg_Combine ::
  "('s, 'a::ab_group_add, 'b, 'c) suite \<Rightarrow> ('s, 'a) ElGamal \<Rightarrow> 'a egCT \<Rightarrow> (nat \<times> 'a) list \<Rightarrow> bte_error + 'a" where
  "eg_Combine S e c shares =
     and_then (or_error (shRecoverCommit S shares (egT e) (egN e)) RecoverFailed) (\<lambda>s. Inr (egB c - s))"

definition eg_Dec :: "('s, 'a::ab_group_add, 'b, 'c) suite \<Rightarrow> 's \<Rightarrow> 'a egCT \<Rightarrow> 'a" where
  "eg_Dec S sk c = egB c - g1Mul S sk (egA c)"

section \<open>Batched threshold encryption\<close>

record ('s, 'a) CTProof =
  piAp :: 'a
  piBp :: 'a
  piYp :: 'a
  piKHat :: 's
  piUHat :: 's

record ('s, 'a, 'c) CT =
  ctI :: int
  ctGamma :: 'c
  ctKp :: 'a
  ctC :: "'a egCT"
  ctPi :: "('s, 'a) CTProof"

record ('s, 'a, 'b, 'c) BTD =
  btdSuite :: "('s, 'a, 'b, 'c) suite"
  btdPRF :: "('s, 'a, 'b, 'c) PRF"
  btdEG :: "('s, 'a) ElGamal"
  btdB :: int
  btdT :: nat
  btdN :: nat

definition newElGamal :: "('s, 'a::ab_group_add) ElGamal" where
  "newElGamal = \<lparr>egPK = 0, egShares = [], egN = 0, egT = 0\<rparr>"

definition NewBTD :: "('s::field, 'a::ab_group_add, 'b, 'c) suite \<Rightarrow> nat \<Rightarrow> 's list \<Rightarrow> 's list \<Rightarrow> ('s, 'a, 'b, 'c) BTD" where
  "NewBTD S B xi zi =
     \<lparr>btdSuite = S, btdPRF = PRFSetup S B True xi zi, btdEG = newElGamal, btdB = int B, btdT = 0, btdN = 0\<rparr>"

definition NewBTDFromSeed :: "('s::field, 'a::ab_group_add, 'b, 'c) suite \<Rightarrow> nat \<Rightarrow> bytes \<Rightarrow> ('s, 'a, 'b, 'c) BTD" where
  "NewBTDFromSeed S B seed =
     \<lparr>btdSuite = S, btdPRF = PRFSetupFromSeed S B seed, btdEG = newElGamal, btdB = int B, btdT = 0, btdN = 0\<rparr>"

definition KeyGen :: "nat \<Rightarrow> nat \<Rightarrow> 's list \<Rightarrow> ('s, 'a, 'b, 'c) BTD \<Rightarrow> ('s, 'a, 'b, 'c) BTD" where
  "KeyGen n t coeffs b = b\<lparr>btdEG := eg_KeyGen (btdSuite b) n t coeffs (btdEG b), btdT := t, btdN := n\<rparr>"

text \<open>The challenge of the proof; the callers have checked the index.\<close>

definition SHash ::
  "('s, 'a, 'b, 'c) BTD \<Rightarrow> 'a \<Rightarrow> ('s, 'a, 'c) CT \<Rightarrow> 'a \<Rightarrow> 'a \<Rightarrow> 'a \<Rightarrow> bte_error + 's" where
  "SHash b pk c Ap Bp yp =
     (let S = btdSuite b; g1 = (\<lambda>p. or_error (g1Marshal S p) MarshalFailed) in
      and_then (each g1 [pk, prfG1xi (btdPRF b) ! nat (ctI c), Ap, Bp, yp]) (\<lambda>before.
      and_then (or_error (gtMarshal S (ctGamma c)) MarshalFailed) (\<lambda>gamma.
      and_then (each g1 [ctKp c, egA (ctC c), egB (ctC c)]) (\<lambda>after.
      Inr (scSetBytes S (suHash S (strBytes (''bte-capsule-v2:B='' @ showInt (btdB b)) @ concat before @
        strBytes (showInt (ctI c)) @ gamma @ concat after)))))))"

definition VerifyCT :: "('s, 'a::ab_group_add, 'b, 'c) BTD \<Rightarrow> ('s, 'a, 'c) CT \<Rightarrow> bte_error + bool" where
  "VerifyCT b ct =
     (if ctI ct < 0 \<or> ctI ct \<ge> btdB b then Inl (IndexOutOfDomain (ctI ct))
      else
        let S = btdSuite b; pk = egPK (btdEG b); p = ctPi ct in
        and_then (SHash b pk ct (piAp p) (piBp p) (piYp p)) (\<lambda>h.
          if g1Mul S (piUHat p) (g1Base S) \<noteq> piAp p + g1Mul S h (egA (ctC ct)) then Inr False
          else if g1Mul S (piUHat p) pk + g1Mul S (piKHat p) (g1Base S) \<noteq> piBp p + g1Mul S h (egB (ctC ct)) then Inr False
          else if g1Mul S (piKHat p) (prfG1xi (btdPRF b) ! nat (ctI ct)) \<noteq> piYp p + g1Mul S h (ctKp ct) then Inr False
          else Inr True))"

definition BTD_Enc ::
  "('s::field, 'a::ab_group_add, 'b, 'c::ab_group_add) BTD \<Rightarrow> 'a \<Rightarrow> int \<Rightarrow> 'c \<Rightarrow> 's \<Rightarrow> 's \<Rightarrow> 's \<Rightarrow> 's \<Rightarrow>
   bte_error + ('s, 'a, 'c) CT" where
  "BTD_Enc b pk i m k u uN kN =
     (let S = btdSuite b; f = btdPRF b in
      and_then (Puncture S f k i) (\<lambda>kp.
      let egct = eg_Enc S pk (g1Mul S k (g1Base S)) u in
      and_then (prf_Eval S f k i) (\<lambda>pad.
      let gamma = pad + m;
          Ap = g1Mul S uN (g1Base S);
          Bp = g1Mul S uN (egPK (btdEG b)) + g1Mul S kN (g1Base S);
          yp = g1Mul S kN (prfG1xi f ! nat i);
          ct = \<lparr>ctI = i, ctGamma = gamma, ctKp = kp, ctC = egct,
            ctPi = \<lparr>piAp = 0, piBp = 0, piYp = 0, piKHat = 0, piUHat = 0\<rparr>\<rparr>
      in and_then (SHash b pk ct Ap Bp yp) (\<lambda>h.
         Inr (ct\<lparr>ctPi := \<lparr>piAp = Ap, piBp = Bp, piYp = yp, piKHat = kN + k * h, piUHat = uN + u * h\<rparr>\<rparr>)))))"

fun validateDistinctIndices :: "int list \<Rightarrow> ('s, 'a, 'c) CT list \<Rightarrow> bte_error + unit" where
  "validateDistinctIndices seen [] = Inr ()"
| "validateDistinctIndices seen (ct # cts) =
     (if ctI ct \<in> set seen then Inl (DuplicateCiphertextIndex (ctI ct))
      else validateDistinctIndices (ctI ct # seen) cts)"

fun sumEGFrom :: "('s, 'a::ab_group_add, 'b, 'c) BTD \<Rightarrow> bool \<Rightarrow> 'a egCT \<Rightarrow> ('s, 'a, 'c) CT list \<Rightarrow> bte_error + 'a egCT" where
  "sumEGFrom b verify acc [] = Inr acc"
| "sumEGFrom b verify acc (ct # cts) =
     (if verify
      then and_then (VerifyCT b ct) (\<lambda>ok.
        if \<not> ok then Inl (ProofFailed (ctI ct)) else sumEGFrom b verify (AddCT acc (ctC ct)) cts)
      else sumEGFrom b verify (AddCT acc (ctC ct)) cts)"

definition SumEGCt :: "('s, 'a::ab_group_add, 'b, 'c) BTD \<Rightarrow> ('s, 'a, 'c) CT list \<Rightarrow> bool \<Rightarrow> bte_error + 'a egCT" where
  "SumEGCt b cts verify = sumEGFrom b verify NullEGct cts"

definition BatchDecWithShare ::
  "('s, 'a::ab_group_add, 'b, 'c) BTD \<Rightarrow> ('s, 'a, 'c) CT list \<Rightarrow> nat \<times> 's \<Rightarrow> bool \<Rightarrow> bte_error + (nat \<times> 'a)" where
  "BatchDecWithShare b cts sk verify =
     and_then (ensure (int (length cts) \<le> btdB b) TooManyCiphertexts) (\<lambda>_.
     and_then (validateDistinctIndices [] cts) (\<lambda>_.
     and_then (SumEGCt b cts verify) (\<lambda>C.
     Inr (PDecWithShare (btdSuite b) C sk))))"

text \<open>\<^verbatim>\<open>PDec\<close> indexes the shares; an operator outside them panics (\<^term>\<open>None\<close>).\<close>

definition BatchDec ::
  "('s, 'a::ab_group_add, 'b, 'c) BTD \<Rightarrow> ('s, 'a, 'c) CT list \<Rightarrow> nat \<Rightarrow> bool \<Rightarrow> (bte_error + (nat \<times> 'a)) option" where
  "BatchDec b cts i verify =
     (case and_then (ensure (int (length cts) \<le> btdB b) TooManyCiphertexts) (\<lambda>_.
           and_then (validateDistinctIndices [] cts) (\<lambda>_. SumEGCt b cts verify)) of
        Inl e \<Rightarrow> Some (Inl e)
      | Inr C \<Rightarrow> if i < length (egShares (btdEG b))
                then Some (Inr (PDecWithShare (btdSuite b) C (egShares (btdEG b) ! i))) else None)"

text \<open>
  The loops of \<^verbatim>\<open>BatchCombineMessages\<close>. The counter counts pairings; \<^term>\<open>None\<close> is the panic of
  \<^verbatim>\<open>PEval\<close>.
\<close>

fun sumPEvals ::
  "('s, 'a, 'b, 'c::ab_group_add) BTD \<Rightarrow> int \<Rightarrow> ('s, 'a, 'c) CT list \<Rightarrow> 'c \<Rightarrow> nat \<Rightarrow> ((bte_error + 'c) \<times> nat) option" where
  "sumPEvals b i [] acc cnt = Some (Inr acc, cnt)"
| "sumPEvals b i (ct # cts) acc cnt =
     (if ctI ct = i then sumPEvals b i cts acc cnt
      else case PEval (btdSuite b) (btdPRF b) (ctKp ct) (ctI ct) i of
        None \<Rightarrow> None
      | Some (Inl e) \<Rightarrow> Some (Inl e, cnt + 1)
      | Some (Inr peval) \<Rightarrow> sumPEvals b i cts (acc + peval) (cnt + 1))"

fun decryptAll ::
  "('s, 'a, 'b, 'c::ab_group_add) BTD \<Rightarrow> 'a \<Rightarrow> ('s, 'a, 'c) CT list \<Rightarrow> ('s, 'a, 'c) CT list \<Rightarrow> 'c list \<Rightarrow> nat \<Rightarrow>
   ((bte_error + 'c list) \<times> nat) option" where
  "decryptAll b K all [] msgs cnt = Some (Inr msgs, cnt)"
| "decryptAll b K all (ct # cts) msgs cnt =
     (case ExpEval (btdSuite b) (btdPRF b) K (ctI ct) of
        Inl e \<Rightarrow> Some (Inl e, cnt + 1)
      | Inr prfKi \<Rightarrow>
          (case sumPEvals b (ctI ct) all 0 (cnt + 1) of
             None \<Rightarrow> None
           | Some (Inl e, cnt') \<Rightarrow> Some (Inl e, cnt')
           | Some (Inr s, cnt') \<Rightarrow> decryptAll b K all cts (msgs @ [(ctGamma ct + s) - prfKi]) cnt'))"

definition BatchCombineMessages ::
  "('s, 'a::ab_group_add, 'b, 'c::ab_group_add) BTD \<Rightarrow> ('s, 'a, 'c) CT list \<Rightarrow> (nat \<times> 'a) list \<Rightarrow> bool \<Rightarrow>
   ((bte_error + 'c list) \<times> nat) option" where
  "BatchCombineMessages b cts d verify =
     (case and_then (ensure (int (length cts) \<le> btdB b) TooManyCiphertexts) (\<lambda>_.
           and_then (validateDistinctIndices [] cts) (\<lambda>_.
           and_then (SumEGCt b cts verify) (\<lambda>C. eg_Combine (btdSuite b) (btdEG b) C d))) of
        Inl e \<Rightarrow> Some (Inl e, 0)
      | Inr K \<Rightarrow> decryptAll b K cts cts [] 0)"

definition BatchCombine ::
  "('s, 'a::ab_group_add, 'b, 'c::ab_group_add) BTD \<Rightarrow> ('s, 'a, 'c) CT list \<Rightarrow> (nat \<times> 'a) list \<Rightarrow> bool \<Rightarrow>
   (nat \<times> bte_error option) option" where
  "BatchCombine b cts d verify =
     map_option (\<lambda>(r, cnt). (cnt, case r of Inl e \<Rightarrow> Some e | Inr _ \<Rightarrow> None)) (BatchCombineMessages b cts d verify)"

section \<open>The public setup on the wire\<close>

definition publicCRSMagic :: bytes where
  "publicCRSMagic = strBytes ''BLOCPRF'' @ [0]"

definition publicCRSVersion :: nat where
  "publicCRSVersion = 1"

definition maxCRSPointBytes :: nat where
  "maxCRSPointBytes = 1048576"

definition writeCRSBytes :: "bytes \<Rightarrow> bte_error + bytes" where
  "writeCRSBytes encoded =
     (if length encoded > maxCRSPointBytes then Inl (CRSFieldTooLarge (int (length encoded)))
      else Inr (beFixed 4 (length encoded) @ encoded))"

definition writeCRSPoint :: "('p \<Rightarrow> bytes option) \<Rightarrow> 'p \<Rightarrow> bte_error + bytes" where
  "writeCRSPoint marshal point = and_then (or_error (marshal point) MarshalFailed) writeCRSBytes"

definition MarshalPublicBinary ::
  "('s, 'a, 'b, 'c) suite \<Rightarrow> ('s, 'a, 'b, 'c) PRF \<Rightarrow> string \<Rightarrow> bte_error + bytes" where
  "MarshalPublicBinary S f suiteID =
     and_then (ensure (prfB f > 0) InvalidPRFSetup) (\<lambda>_.
     and_then (writeCRSBytes (strBytes suiteID)) (\<lambda>sid.
     and_then (each (writeCRSPoint (g1Marshal S)) (prfG1xi f)) (\<lambda>g1s.
     and_then (each (writeCRSPoint (g2Marshal S)) (prfG2zi f)) (\<lambda>g2s.
     and_then (each (\<lambda>(i, j). and_then (or_error (map_of (prfG2zixj f) (i, j)) (MissingCRSPoint i j))
                 (writeCRSPoint (g2Marshal S)))
               (List.product [0..<nat (prfB f)] [0..<nat (prfB f)])) (\<lambda>cross.
     Inr (publicCRSMagic @ beFixed 4 publicCRSVersion @ sid @ beFixed 4 (nat (prfB f) mod 2 ^ 32) @
       concat g1s @ concat g2s @ concat cross))))))"

definition readN :: "nat \<Rightarrow> bytes \<Rightarrow> bte_error + (bytes \<times> bytes)" where
  "readN n r = (if length r < n then Inl TruncatedCRS else Inr (take n r, drop n r))"

definition readUint32 :: "bytes \<Rightarrow> bte_error + (nat \<times> bytes)" where
  "readUint32 r = and_then (readN 4 r) (\<lambda>(b, r'). Inr (beNat b, r'))"

definition readCRSBytes :: "bytes \<Rightarrow> bte_error + (bytes \<times> bytes)" where
  "readCRSBytes r =
     and_then (readUint32 r) (\<lambda>(size, r').
       if size > maxCRSPointBytes \<or> size > length r' then Inl (CRSFieldTooLarge (int size))
       else readN size r')"

definition readCRSPoint :: "(bytes \<Rightarrow> 'p option) \<Rightarrow> bytes \<Rightarrow> bte_error + ('p \<times> bytes)" where
  "readCRSPoint unmarshal r =
     and_then (readCRSBytes r) (\<lambda>(encoded, r').
     and_then (or_error (unmarshal encoded) BadCRSPoint) (\<lambda>p. Inr (p, r')))"

primrec readCRSPoints :: "(bytes \<Rightarrow> 'p option) \<Rightarrow> nat \<Rightarrow> bytes \<Rightarrow> bte_error + ('p list \<times> bytes)" where
  "readCRSPoints unmarshal 0 r = Inr ([], r)"
| "readCRSPoints unmarshal (Suc n) r =
     and_then (readCRSPoint unmarshal r) (\<lambda>(p, r').
     and_then (readCRSPoints unmarshal n r') (\<lambda>(ps, r''). Inr (p # ps, r'')))"

definition PRFSetupFromPublic ::
  "('s, 'a, 'b, 'c) suite \<Rightarrow> string \<Rightarrow> int \<Rightarrow> bytes \<Rightarrow> bte_error + ('s, 'a, 'b, 'c) PRF" where
  "PRFSetupFromPublic S expectedSuiteID expectedB encoded =
     and_then (readN (length publicCRSMagic) encoded) (\<lambda>(magic, r0).
     and_then (ensure (magic = publicCRSMagic) BadCRSMagic) (\<lambda>_.
     and_then (readUint32 r0) (\<lambda>(version, r1).
     and_then (ensure (version = publicCRSVersion) (BadCRSVersion version)) (\<lambda>_.
     and_then (readCRSBytes r1) (\<lambda>(suiteID, r2).
     and_then (ensure (suiteID = strBytes expectedSuiteID) BadCRSSuite) (\<lambda>_.
     and_then (readUint32 r2) (\<lambda>(domain, r3).
     and_then (ensure (expectedB > 0 \<and> expectedB < 2 ^ 32 \<and> int domain = expectedB) (BadCRSDomain domain)) (\<lambda>_.
     let B = nat expectedB in
     and_then (readCRSPoints (g1Unmarshal S) B r3) (\<lambda>(g1xi, r4).
     and_then (readCRSPoints (g2Unmarshal S) B r4) (\<lambda>(g2zi, r5).
     and_then (readCRSPoints (g2Unmarshal S) (B * B) r5) (\<lambda>(cross, r6).
     and_then (ensure (r6 = []) (TrailingCRSBytes (length r6))) (\<lambda>_.
     Inr \<lparr>prfXi = [], prfZi = [], prfG2zi = g2zi, prfGTzi = map (suPair S (g1Base S)) g2zi, prfG1xi = g1xi,
       prfG2zixj = putAll (zip (List.product [0..<B] [0..<B]) cross) [], prfB = expectedB\<rparr>))))))))))))"

definition GeneratePublicCRS :: "('s::field, 'a, 'b, 'c) suite \<Rightarrow> string \<Rightarrow> int \<Rightarrow> 's list \<Rightarrow> 's list \<Rightarrow> bte_error + bytes" where
  "GeneratePublicCRS S suiteID B xi zi =
     (if B \<le> 0 then Inl BMaxNotPositive else MarshalPublicBinary S (PRFSetup S (nat B) True xi zi) suiteID)"

definition NewBTDFromPublicCRS ::
  "('s, 'a::ab_group_add, 'b, 'c) suite \<Rightarrow> string \<Rightarrow> int \<Rightarrow> bytes \<Rightarrow> bte_error + ('s, 'a, 'b, 'c) BTD" where
  "NewBTDFromPublicCRS S suiteID B encoded =
     and_then (PRFSetupFromPublic S suiteID B encoded) (\<lambda>setup.
       Inr \<lparr>btdSuite = S, btdPRF = setup, btdEG = newElGamal, btdB = B, btdT = 0, btdN = 0\<rparr>)"

end
