(* ===== verification/Cluster.thy ===== *)
theory Cluster
  imports Bte_Crypto
begin

text \<open>
  The cluster API of batched threshold encryption: \<^verbatim>\<open>bte/btd-impl-main/be/cluster.go\<close>.

  The key derivation and the AEAD of the hybrid encryption are the parameter record \<open>hybrid\<close>
  (HKDF-SHA256 reading 32 bytes, then AES-256-GCM: neither fails for a key of 32 bytes).
  \<open>alphaOf\<close> writes \<^verbatim>\<open>math.Ceil(2 * math.Sqrt(n))\<close> with exact integers, which is what the
  floating-point expression computes for lengths below \<open>2 ^ 50\<close>. A point that the Go
  code can hold as nil (the value of a received share) is an option.
\<close>

record hybrid =
  hyHKDF :: "bytes \<Rightarrow> bytes \<Rightarrow> bytes"
  hySeal :: "bytes \<Rightarrow> bytes \<Rightarrow> bytes \<Rightarrow> bytes \<Rightarrow> bytes"
  hyOpen :: "bytes \<Rightarrow> bytes \<Rightarrow> bytes \<Rightarrow> bytes \<Rightarrow> bytes option"

datatype cl_error =
    EmptyBatch
  | BatchTooLarge int
  | CiphertextIndexOutOfDomain int
  | PayloadTooShort int
  | NoCollisionFreeSubBatch int
  | DuplicateIndexInSubBatch int nat
  | SubBatchIdOutOfRange int
  | AttemptsNotPositive
  | AttemptLimitCount
  | ShareBatchMismatch int
  | ShareOperatorOutOfRange int
  | NilShare int
  | ShareIndexMismatch int int
  | DuplicateShare int int
  | NotEnoughShares nat nat
  | AttemptBudgetExhausted nat
  | AttemptLimitExhausted int
  | NoValidSubset
  | UnsupportedVersion bytes
  | ShortRead
  | SizeExceedsRemaining nat
  | TrailingBytes nat
  | BadPoint
  | AeadFailed
  | CapsuleFailed bte_error
  | InvalidThreshold int int
  | TooFewShares
  | InvalidPrivateShare
  | AtCiphertext nat cl_error
  | AtSubBatch nat cl_error

section \<open>Data\<close>

record ('s, 'a, 'c) Ciphertext =
  cxCapsule :: "('s, 'a, 'c) CT"
  cxEncryptedTx :: bytes

record 'a DecryptionShare =
  dsOperatorID :: int
  dsBatchID :: bytes
  dsSubBatchID :: int
  dsShare :: "(nat \<times> 'a option) option"

record ('s, 'a, 'c) BatchItem =
  biOriginalPosition :: nat
  biCiphertext :: "('s, 'a, 'c) Ciphertext"

record ('s, 'a, 'c) BatchPlan =
  bpBatchID :: bytes
  bpAlpha :: nat
  bpSubBatches :: "('s, 'a, 'c) BatchItem list list"

record ('s, 'a, 'c) DecodedBatch =
  dbCiphertexts :: "('s, 'a, 'c) Ciphertext list"
  dbBatchID :: bytes

type_synonym PlaintextResult = "cl_error + bytes"

record positionedPlaintextResult =
  ppPosition :: nat
  ppResult :: PlaintextResult

record CombineOptions =
  MaxAttemptsPerSubBatch :: int
  AttemptLimitsBySubBatch :: "int list option"

record ('s, 'a, 'b, 'c) ClusterBTE =
  clVersion :: string
  clSuiteID :: string
  clBMax :: int
  clN :: int
  clPK :: 'a
  clShares :: "(int \<times> nat \<times> 's) list"
  clBtd :: "('s, 'a, 'b, 'c) BTD"
  clHybrid :: hybrid

abbreviation itemIndex :: "('s, 'a, 'c) BatchItem \<Rightarrow> int" where
  "itemIndex it \<equiv> ctI (cxCapsule (biCiphertext it))"

definition LibraryVersion :: string where
  "LibraryVersion = ''bte-tx-v2''"

definition defaultSuiteID :: string where
  "defaultSuiteID = ''BLS12-381-kilic''"

section \<open>Construction\<close>

definition withPK :: "'a \<Rightarrow> ('s, 'a, 'b, 'c) BTD \<Rightarrow> ('s, 'a, 'b, 'c) BTD" where
  "withPK pk b = b\<lparr>btdEG := (btdEG b)\<lparr>egPK := pk\<rparr>\<rparr>"

definition NewClusterBTE ::
  "hybrid \<Rightarrow> ('s, 'a, 'b, 'c) BTD \<Rightarrow> 'a \<Rightarrow> (nat \<times> 's) list \<Rightarrow> ('s, 'a, 'b, 'c) ClusterBTE" where
  "NewClusterBTE hy b pk shares =
     \<lparr>clVersion = LibraryVersion, clSuiteID = defaultSuiteID, clBMax = btdB b, clN = btdB b, clPK = pk,
      clShares = map (\<lambda>s. (int (fst s), s)) shares, clBtd = withPK pk b, clHybrid = hy\<rparr>"

fun checkPriShares :: "int \<Rightarrow> nat list \<Rightarrow> (nat \<times> 's option) option list \<Rightarrow> cl_error + (nat \<times> 's) list" where
  "checkPriShares n seen [] = Inr []"
| "checkPriShares n seen (None # ss) = Inl InvalidPrivateShare"
| "checkPriShares n seen (Some (i, None) # ss) = Inl InvalidPrivateShare"
| "checkPriShares n seen (Some (i, Some v) # ss) =
     (if int i \<ge> n \<or> i \<in> set seen then Inl InvalidPrivateShare
      else and_then (checkPriShares n (i # seen) ss) (\<lambda>rest. Inr ((i, v) # rest)))"

definition NewClusterBTEFromShares ::
  "hybrid \<Rightarrow> ('s, 'a, 'b, 'c) BTD \<Rightarrow> 'a \<Rightarrow> (nat \<times> 's option) option list \<Rightarrow> int \<Rightarrow> int \<Rightarrow>
   cl_error + ('s, 'a, 'b, 'c) ClusterBTE" where
  "NewClusterBTEFromShares hy b pk shares n t =
     (if n \<le> 0 \<or> t \<le> 0 \<or> t > n then Inl (InvalidThreshold n t)
      else if int (length shares) < t then Inl TooFewShares
      else and_then (checkPriShares n [] shares) (\<lambda>good.
        Inr (NewClusterBTE hy (b\<lparr>btdT := nat t, btdN := nat n\<rparr>) pk good)))"

definition NewNode ::
  "hybrid \<Rightarrow> ('s, 'a, 'b, 'c) BTD \<Rightarrow> 'a \<Rightarrow> int \<times> nat \<times> 's \<Rightarrow> nat \<Rightarrow> nat \<Rightarrow> ('s, 'a, 'b, 'c) ClusterBTE" where
  "NewNode hy b pk sk n t =
     \<lparr>clVersion = LibraryVersion, clSuiteID = defaultSuiteID, clBMax = btdB b, clN = btdB b, clPK = pk,
      clShares = [sk], clBtd = (withPK pk b)\<lparr>btdT := t, btdN := n\<rparr>, clHybrid = hy\<rparr>"

section \<open>Wire format\<close>

definition writeBytes :: "bytes \<Rightarrow> bytes" where
  "writeBytes data = be64 (length data) @ data"

definition readBytes :: "bytes \<Rightarrow> cl_error + (bytes \<times> bytes)" where
  "readBytes r =
     and_then (or_error (readUint64 r) ShortRead) (\<lambda>(size, r').
       if size > length r' then Inl (SizeExceedsRemaining size) else Inr (take size r', drop size r'))"

definition int64_of :: "nat \<Rightarrow> int" where
  "int64_of n = (if n < 2 ^ 63 then int n else int n - 2 ^ 64)"

definition CT_MarshalBinary :: "('s, 'a, 'b, 'c) suite \<Rightarrow> ('s, 'a, 'c) CT \<Rightarrow> bte_error + bytes" where
  "CT_MarshalBinary S ct =
     (let enc = (\<lambda>m. and_then (or_error m MarshalFailed) (\<lambda>e. Inr (writeBytes e))) in
      and_then (each enc [gtMarshal S (ctGamma ct), g1Marshal S (ctKp ct), g1Marshal S (egA (ctC ct)),
        g1Marshal S (egB (ctC ct)), g1Marshal S (piAp (ctPi ct)), g1Marshal S (piBp (ctPi ct)),
        g1Marshal S (piYp (ctPi ct)), scMarshal S (piKHat (ctPi ct)), scMarshal S (piUHat (ctPi ct))]) (\<lambda>parts.
      Inr (be64 (nat (ctI ct mod 2 ^ 64)) @ concat parts)))"

definition readPoint :: "(bytes \<Rightarrow> 'p option) \<Rightarrow> bytes \<Rightarrow> cl_error + ('p \<times> bytes)" where
  "readPoint u r =
     and_then (readBytes r) (\<lambda>(e, r'). and_then (or_error (u e) BadPoint) (\<lambda>p. Inr (p, r')))"

definition UnmarshalCT :: "('s, 'a, 'b, 'c) suite \<Rightarrow> bytes \<Rightarrow> cl_error + ('s, 'a, 'c) CT" where
  "UnmarshalCT S data =
     and_then (or_error (readUint64 data) ShortRead) (\<lambda>(index, r0).
     and_then (readPoint (gtUnmarshal S) r0) (\<lambda>(gamma, r1).
     and_then (readPoint (g1Unmarshal S) r1) (\<lambda>(kp, r2).
     and_then (readPoint (g1Unmarshal S) r2) (\<lambda>(a, r3).
     and_then (readPoint (g1Unmarshal S) r3) (\<lambda>(b, r4).
     and_then (readPoint (g1Unmarshal S) r4) (\<lambda>(ap, r5).
     and_then (readPoint (g1Unmarshal S) r5) (\<lambda>(bp, r6).
     and_then (readPoint (g1Unmarshal S) r6) (\<lambda>(yp, r7).
     and_then (readPoint (scUnmarshal S) r7) (\<lambda>(khat, r8).
     and_then (readPoint (scUnmarshal S) r8) (\<lambda>(uhat, r9).
     and_then (ensure (r9 = []) (TrailingBytes (length r9))) (\<lambda>_.
     Inr \<lparr>ctI = int64_of index, ctGamma = gamma, ctKp = kp, ctC = \<lparr>egA = a, egB = b\<rparr>,
       ctPi = \<lparr>piAp = ap, piBp = bp, piYp = yp, piKHat = khat, piUHat = uhat\<rparr>\<rparr>)))))))))))"

definition Ciphertext_MarshalBinary :: "('s, 'a, 'b, 'c) suite \<Rightarrow> ('s, 'a, 'c) Ciphertext \<Rightarrow> cl_error + bytes" where
  "Ciphertext_MarshalBinary S ct =
     (case CT_MarshalBinary S (cxCapsule ct) of
        Inl e \<Rightarrow> Inl (CapsuleFailed e)
      | Inr capsule \<Rightarrow> Inr (strBytes LibraryVersion @ writeBytes capsule @ writeBytes (cxEncryptedTx ct)))"

definition aeadNonceSize :: nat where
  "aeadNonceSize = 12"

definition aeadTagSize :: nat where
  "aeadTagSize = 16"

definition validateAEADPayloadShape :: "bytes \<Rightarrow> cl_error + unit" where
  "validateAEADPayloadShape encryptedTx =
     ensure (aeadNonceSize + aeadTagSize \<le> length encryptedTx) (PayloadTooShort (int (length encryptedTx)))"

definition validateCiphertext :: "('s, 'a, 'b, 'c) ClusterBTE \<Rightarrow> ('s, 'a, 'c) Ciphertext \<Rightarrow> cl_error + unit" where
  "validateCiphertext c ct =
     (if ctI (cxCapsule ct) < 0 \<or> ctI (cxCapsule ct) \<ge> clN c
      then Inl (CiphertextIndexOutOfDomain (ctI (cxCapsule ct)))
      else validateAEADPayloadShape (cxEncryptedTx ct))"

definition UnmarshalCiphertext :: "('s, 'a, 'b, 'c) ClusterBTE \<Rightarrow> bytes \<Rightarrow> cl_error + ('s, 'a, 'c) Ciphertext" where
  "UnmarshalCiphertext c data =
     (let n = length LibraryVersion in
      if length data < n then Inl ShortRead
      else if take n data \<noteq> strBytes LibraryVersion then Inl (UnsupportedVersion (take n data))
      else
        and_then (readBytes (drop n data)) (\<lambda>(capsuleBytes, r1).
        and_then (UnmarshalCT (btdSuite (clBtd c)) capsuleBytes) (\<lambda>capsule.
        and_then (readBytes r1) (\<lambda>(encryptedTx, r2).
        and_then (ensure (r2 = []) (TrailingBytes (length r2))) (\<lambda>_.
        let decoded = \<lparr>cxCapsule = capsule, cxEncryptedTx = encryptedTx\<rparr> in
        and_then (validateCiphertext c decoded) (\<lambda>_. Inr decoded))))))"

section \<open>Hybrid encryption\<close>

definition hybridKeyDomain :: string where
  "hybridKeyDomain = ''bloc-hybrid-key-v2''"

definition hybridAADDomain :: string where
  "hybridAADDomain = ''bloc-hybrid-aad-v2''"

definition batchIDDomain :: string where
  "batchIDDomain = ''bloc-batch-v2''"

definition digestCapsule :: "('s, 'a, 'b, 'c) suite \<Rightarrow> ('s, 'a, 'c) CT \<Rightarrow> cl_error + bytes" where
  "digestCapsule S capsule =
     (case CT_MarshalBinary S capsule of Inl e \<Rightarrow> Inl (CapsuleFailed e) | Inr encoded \<Rightarrow> Inr (suSha256 S encoded))"

text \<open>The key of the AEAD.\<close>

definition aeadFromGT :: "('s, 'a, 'b, 'c) suite \<Rightarrow> hybrid \<Rightarrow> 'c \<Rightarrow> bytes \<Rightarrow> cl_error + bytes" where
  "aeadFromGT S hy secret capsuleDigest =
     and_then (or_error (gtMarshal S secret) (CapsuleFailed MarshalFailed)) (\<lambda>secretBytes.
     Inr (hyHKDF hy secretBytes (strBytes hybridKeyDomain @ capsuleDigest)))"

definition hybridAAD :: "bytes \<Rightarrow> bytes" where
  "hybridAAD capsuleDigest = strBytes hybridAADDomain @ capsuleDigest"

record 's tx_randomness =
  trSecret :: 's
  trK :: 's
  trU :: 's
  trUN :: 's
  trKN :: 's
  trNonce :: bytes

definition EncryptTx ::
  "('s::field, 'a::ab_group_add, 'b, 'c::ab_group_add) ClusterBTE \<Rightarrow> bytes \<Rightarrow> int \<Rightarrow> 's tx_randomness \<Rightarrow>
   cl_error + ('s, 'a, 'c) Ciphertext" where
  "EncryptTx c rawTx index r =
     (let S = btdSuite (clBtd c); capsuleSecret = PickGT S (trSecret r) in
      case BTD_Enc (clBtd c) (clPK c) index capsuleSecret (trK r) (trU r) (trUN r) (trKN r) of
        Inl e \<Rightarrow> Inl (CapsuleFailed e)
      | Inr capsule \<Rightarrow>
          and_then (digestCapsule S capsule) (\<lambda>capsuleDigest.
          and_then (aeadFromGT S (clHybrid c) capsuleSecret capsuleDigest) (\<lambda>key.
          Inr \<lparr>cxCapsule = capsule,
            cxEncryptedTx = trNonce r @ hySeal (clHybrid c) key (trNonce r) rawTx (hybridAAD capsuleDigest)\<rparr>)))"

definition decryptTx :: "('s, 'a, 'b, 'c) suite \<Rightarrow> hybrid \<Rightarrow> 'c \<Rightarrow> ('s, 'a, 'c) Ciphertext \<Rightarrow> cl_error + bytes" where
  "decryptTx S hy secret ct =
     and_then (validateAEADPayloadShape (cxEncryptedTx ct)) (\<lambda>_.
     and_then (digestCapsule S (cxCapsule ct)) (\<lambda>capsuleDigest.
     and_then (aeadFromGT S hy secret capsuleDigest) (\<lambda>key.
     or_error (hyOpen hy key (take aeadNonceSize (cxEncryptedTx ct)) (drop aeadNonceSize (cxEncryptedTx ct))
       (hybridAAD capsuleDigest)) AeadFailed)))"

section \<open>Planning\<close>

definition computeBatchIDFromEncoded :: "('s, 'a, 'b, 'c) suite \<Rightarrow> bytes list \<Rightarrow> bytes" where
  "computeBatchIDFromEncoded S encoded =
     suSha256 S (strBytes batchIDDomain @ concat (map (\<lambda>raw. be64 (length raw) @ raw) encoded))"

definition computeBatchID :: "('s, 'a, 'b, 'c) suite \<Rightarrow> ('s, 'a, 'c) Ciphertext list \<Rightarrow> cl_error + bytes" where
  "computeBatchID S cts =
     and_then (each (Ciphertext_MarshalBinary S) cts) (\<lambda>encoded. Inr (computeBatchIDFromEncoded S encoded))"

text \<open>The least \<open>a\<close> with \<open>4 n \<le> a\<^sup>2\<close>, searched upwards.\<close>

function ceilTwoSqrtFrom :: "nat \<Rightarrow> nat \<Rightarrow> nat" where
  "ceilTwoSqrtFrom n a = (if 4 * n \<le> a * a then a else ceilTwoSqrtFrom n (Suc a))"
  by pat_completeness auto
termination
proof (relation "measure (\<lambda>(n, a). 4 * n - a)")
  fix n a :: nat
  assume "\<not> 4 * n \<le> a * a"
  moreover have "a \<le> a * a" by (cases a) auto
  ultimately have "a < 4 * n" by linarith
  then show "((n, Suc a), n, a) \<in> measure (\<lambda>(n, a). 4 * n - a)" by simp
qed simp

declare ceilTwoSqrtFrom.simps [simp del]

definition countIndex :: "('s, 'a, 'c) Ciphertext list \<Rightarrow> int \<Rightarrow> nat" where
  "countIndex cts i = length (filter (\<lambda>ct. ctI (cxCapsule ct) = i) cts)"

definition alphaOf :: "('s, 'a, 'c) Ciphertext list \<Rightarrow> nat" where
  "alphaOf cts =
     (let alpha0 = ceilTwoSqrtFrom (length cts) 0;
          alpha1 = (if alpha0 < 1 then 1 else alpha0);
          alpha2 = fold (\<lambda>ct alpha. if countIndex cts (ctI (cxCapsule ct)) > alpha
                                  then countIndex cts (ctI (cxCapsule ct)) else alpha) cts alpha1
      in if alpha2 > length cts then length cts else alpha2)"

fun seenTwice :: "int list \<Rightarrow> ('s, 'a, 'c) BatchItem list \<Rightarrow> int option" where
  "seenTwice seen [] = None"
| "seenTwice seen (it # its) = (if itemIndex it \<in> set seen then Some (itemIndex it) else seenTwice (itemIndex it # seen) its)"

fun validateSubBatchesFrom :: "nat \<Rightarrow> ('s, 'a, 'c) BatchItem list list \<Rightarrow> cl_error + unit" where
  "validateSubBatchesFrom k [] = Inr ()"
| "validateSubBatchesFrom k (sb # sbs) =
     (case seenTwice [] sb of
        Some idx \<Rightarrow> Inl (DuplicateIndexInSubBatch idx k)
      | None \<Rightarrow> validateSubBatchesFrom (Suc k) sbs)"

definition validateSubBatchIndices :: "('s, 'a, 'c) BatchItem list list \<Rightarrow> cl_error + unit" where
  "validateSubBatchIndices sbs = validateSubBatchesFrom 0 sbs"

text \<open>The sub-batch with the fewest items among those that do not hold the index; the first on a tie.\<close>

definition selectSubBatch :: "('s, 'a, 'c) BatchItem list list \<Rightarrow> int list list \<Rightarrow> int \<Rightarrow> nat option" where
  "selectSubBatch sbs seen index =
     fold (\<lambda>k selected.
        if index \<in> set (seen ! k) then selected
        else case selected of
          None \<Rightarrow> Some k
        | Some s \<Rightarrow> if length (sbs ! k) < length (sbs ! s) then Some k else Some s)
       [0..<length sbs] None"

fun arrangeItems ::
  "('s, 'a, 'c) BatchItem list list \<Rightarrow> int list list \<Rightarrow> ('s, 'a, 'c) BatchItem list \<Rightarrow>
   cl_error + ('s, 'a, 'c) BatchItem list list" where
  "arrangeItems sbs seen [] = Inr sbs"
| "arrangeItems sbs seen (it # its) =
     (case selectSubBatch sbs seen (itemIndex it) of
        None \<Rightarrow> Inl (NoCollisionFreeSubBatch (itemIndex it))
      | Some s \<Rightarrow> arrangeItems (sbs[s := sbs ! s @ [it]]) (seen[s := itemIndex it # seen ! s]) its)"

definition arrangeCollisionFree ::
  "('s, 'a, 'c) BatchItem list \<Rightarrow> nat \<Rightarrow> cl_error + ('s, 'a, 'c) BatchItem list list" where
  "arrangeCollisionFree items alpha = arrangeItems (replicate alpha []) (replicate alpha []) items"

definition itemsOf :: "('s, 'a, 'c) Ciphertext list \<Rightarrow> ('s, 'a, 'c) BatchItem list" where
  "itemsOf cts = map (\<lambda>(i, ct). \<lparr>biOriginalPosition = i, biCiphertext = ct\<rparr>) (enumerate 0 cts)"

definition itemLess :: "('s, 'a, 'c) Ciphertext list \<Rightarrow> ('s, 'a, 'c) BatchItem \<Rightarrow> ('s, 'a, 'c) BatchItem \<Rightarrow> bool" where
  "itemLess cts a b =
     (let ci = countIndex cts (itemIndex a); cj = countIndex cts (itemIndex b) in
      if ci \<noteq> cj then ci > cj else biOriginalPosition a < biOriginalPosition b)"

definition roundRobin :: "nat \<Rightarrow> 'x list \<Rightarrow> 'x list list" where
  "roundRobin alpha items =
     fold (\<lambda>(i, it) sbs. sbs[i mod alpha := sbs ! (i mod alpha) @ [it]]) (enumerate 0 items) (replicate alpha [])"

definition arrangeBatch ::
  "('s, 'a, 'b, 'c) ClusterBTE \<Rightarrow> ('s, 'a, 'c) Ciphertext list \<Rightarrow> cl_error + (nat \<times> ('s, 'a, 'c) BatchItem list list)" where
  "arrangeBatch c cts =
     (if cts = [] then Inl EmptyBatch
      else if int (length cts) > clBMax c then Inl (BatchTooLarge (int (length cts)))
      else and_then (each (validateCiphertext c) cts) (\<lambda>_.
        let alpha = alphaOf cts; items = sortSlice (itemLess cts) (itemsOf cts); sbs = roundRobin alpha items in
        case validateSubBatchIndices sbs of
          Inr _ \<Rightarrow> Inr (alpha, sbs)
        | Inl _ \<Rightarrow>
            and_then (arrangeCollisionFree items alpha) (\<lambda>sbs'.
            and_then (validateSubBatchIndices sbs') (\<lambda>_. Inr (alpha, sbs')))))"

definition PlanBatch ::
  "('s, 'a, 'b, 'c) ClusterBTE \<Rightarrow> ('s, 'a, 'c) Ciphertext list \<Rightarrow> cl_error + ('s, 'a, 'c) BatchPlan" where
  "PlanBatch c cts =
     and_then (arrangeBatch c cts) (\<lambda>(alpha, sbs).
     and_then (computeBatchID (btdSuite (clBtd c)) cts) (\<lambda>batchID.
     Inr \<lparr>bpBatchID = batchID, bpAlpha = alpha, bpSubBatches = sbs\<rparr>))"

definition DecodeBatch :: "('s, 'a, 'b, 'c) ClusterBTE \<Rightarrow> bytes list \<Rightarrow> cl_error + ('s, 'a, 'c) DecodedBatch" where
  "DecodeBatch c encoded =
     (if int (length encoded) > clBMax c then Inl (BatchTooLarge (int (length encoded)))
      else and_then (each (\<lambda>(i, raw). case UnmarshalCiphertext c raw of Inl e \<Rightarrow> Inl (AtCiphertext i e) | Inr ct \<Rightarrow> Inr ct)
          (enumerate 0 encoded)) (\<lambda>cts.
        Inr \<lparr>dbCiphertexts = cts, dbBatchID = computeBatchIDFromEncoded (btdSuite (clBtd c)) encoded\<rparr>))"

definition PlanDecodedBatch ::
  "('s, 'a, 'b, 'c) ClusterBTE \<Rightarrow> ('s, 'a, 'c) DecodedBatch \<Rightarrow> cl_error + ('s, 'a, 'c) BatchPlan" where
  "PlanDecodedBatch c decoded =
     and_then (arrangeBatch c (dbCiphertexts decoded)) (\<lambda>(alpha, sbs).
     Inr \<lparr>bpBatchID = dbBatchID decoded, bpAlpha = alpha, bpSubBatches = sbs\<rparr>)"

definition DecodeAndPlanBatch ::
  "('s, 'a, 'b, 'c) ClusterBTE \<Rightarrow> bytes list \<Rightarrow> cl_error + (('s, 'a, 'c) Ciphertext list \<times> ('s, 'a, 'c) BatchPlan)" where
  "DecodeAndPlanBatch c encoded =
     and_then (DecodeBatch c encoded) (\<lambda>decoded.
     and_then (PlanDecodedBatch c decoded) (\<lambda>plan. Inr (dbCiphertexts decoded, plan)))"

section \<open>Shares\<close>

definition capsulesFromItems :: "('s, 'a, 'c) BatchItem list \<Rightarrow> ('s, 'a, 'c) CT list" where
  "capsulesFromItems items = map (cxCapsule \<circ> biCiphertext) items"

definition MakeShare ::
  "('s, 'a::ab_group_add, 'b, 'c) ClusterBTE \<Rightarrow> int \<times> nat \<times> 's \<Rightarrow> ('s, 'a, 'c) BatchPlan \<Rightarrow> int \<Rightarrow>
   cl_error + 'a DecryptionShare" where
  "MakeShare c sk plan subBatchID =
     (if subBatchID < 0 \<or> subBatchID \<ge> int (length (bpSubBatches plan)) then Inl (SubBatchIdOutOfRange subBatchID)
      else case BatchDecWithShare (clBtd c) (capsulesFromItems (bpSubBatches plan ! nat subBatchID)) (snd sk) True of
        Inl e \<Rightarrow> Inl (CapsuleFailed e)
      | Inr (i, v) \<Rightarrow>
          Inr \<lparr>dsOperatorID = fst sk, dsBatchID = bpBatchID plan, dsSubBatchID = subBatchID, dsShare = Some (i, Some v)\<rparr>)"

section \<open>Threshold subsets\<close>

text \<open>
  One turn of the loop of \<^verbatim>\<open>forEachShareCombination\<close>: the next subset in lexicographic order, or
  \<^term>\<open>None\<close> after the last.
\<close>

definition nextCombination :: "nat \<Rightarrow> nat \<Rightarrow> nat list \<Rightarrow> nat list option" where
  "nextCombination n k indices =
     (case find (\<lambda>i. indices ! i \<noteq> i + n - k) (rev [0..<k]) of
        None \<Rightarrow> None
      | Some i \<Rightarrow> Some (fold (\<lambda>j ind. ind[j := ind ! (j - 1) + 1]) [Suc i..<k] (indices[i := indices ! i + 1])))"

text \<open>The loop with a budget of iterations; \<^term>\<open>None\<close> when the budget is exhausted or the callback panics.\<close>

primrec visitCombinations ::
  "nat \<Rightarrow> nat \<Rightarrow> nat \<Rightarrow> (nat list \<Rightarrow> 'st \<Rightarrow> (bool \<times> 'st) option) \<Rightarrow> nat list \<Rightarrow> 'st \<Rightarrow> 'st option" where
  "visitCombinations 0 n k fn indices st = None"
| "visitCombinations (Suc fuel) n k fn indices st =
     (case fn indices st of
        None \<Rightarrow> None
      | Some (stop, st') \<Rightarrow>
          if stop then Some st'
          else case nextCombination n k indices of
            None \<Rightarrow> Some st'
          | Some indices' \<Rightarrow> visitCombinations fuel n k fn indices' st')"

definition forEachShareCombination ::
  "nat \<Rightarrow> nat \<Rightarrow> (nat list \<Rightarrow> 'st \<Rightarrow> (bool \<times> 'st) option) \<Rightarrow> 'st \<Rightarrow> 'st option" where
  "forEachShareCombination n k fn st =
     (if k = 0 \<or> k > n then Some st else visitCombinations (n choose k) n k fn [0..<k] st)"

section \<open>Combining\<close>

definition plaintextResultsFromMessages ::
  "('s, 'a, 'b, 'c) suite \<Rightarrow> hybrid \<Rightarrow> ('s, 'a, 'c) BatchItem list \<Rightarrow> 'c list \<Rightarrow> positionedPlaintextResult list" where
  "plaintextResultsFromMessages S hy items msgs =
     map (\<lambda>(it, msg). \<lparr>ppPosition = biOriginalPosition it, ppResult = decryptTx S hy msg (biCiphertext it)\<rparr>) (zip items msgs)"

record combine_state =
  cbFirstErr :: "cl_error option"
  cbOut :: "positionedPlaintextResult list option"
  cbAttempts :: nat

text \<open>The callback: one attempt with the shares a subset selects.\<close>

definition combineAttempt ::
  "('s, 'a::ab_group_add, 'b, 'c::ab_group_add) ClusterBTE \<Rightarrow> ('s, 'a, 'c) BatchItem list \<Rightarrow> (nat \<times> 'a) list \<Rightarrow> int \<Rightarrow>
   nat list \<Rightarrow> combine_state \<Rightarrow> (bool \<times> combine_state) option" where
  "combineAttempt c items shares maxAttempts indices st =
     (if int (cbAttempts st) \<ge> maxAttempts then Some (True, st)
      else
        let st1 = st\<lparr>cbAttempts := cbAttempts st + 1\<rparr>;
            note_err = (\<lambda>e. if cbFirstErr st1 = None then st1\<lparr>cbFirstErr := Some e\<rparr> else st1)
        in case BatchCombineMessages (clBtd c) (capsulesFromItems items) (map (\<lambda>i. shares ! i) indices) True of
             None \<Rightarrow> None
           | Some (Inl e, _) \<Rightarrow> Some (False, note_err (CapsuleFailed e))
           | Some (Inr msgs, _) \<Rightarrow>
               let results = plaintextResultsFromMessages (btdSuite (clBtd c)) (clHybrid c) items msgs in
               (case find (\<lambda>p. case ppResult p of Inl _ \<Rightarrow> True | Inr _ \<Rightarrow> False) results of
                  Some p \<Rightarrow> (case ppResult p of Inl e \<Rightarrow> Some (False, note_err e) | Inr _ \<Rightarrow> Some (False, st1))
                | None \<Rightarrow> Some (True, st1\<lparr>cbOut := Some results\<rparr>)))"

definition combineSubBatch ::
  "('s, 'a::ab_group_add, 'b, 'c::ab_group_add) ClusterBTE \<Rightarrow> ('s, 'a, 'c) BatchItem list \<Rightarrow> (nat \<times> 'a) list \<Rightarrow> int \<Rightarrow>
   ((cl_error + positionedPlaintextResult list) \<times> nat) option" where
  "combineSubBatch c items shares maxAttempts =
     (case forEachShareCombination (length shares) (btdT (clBtd c)) (combineAttempt c items shares maxAttempts)
             \<lparr>cbFirstErr = None, cbOut = None, cbAttempts = 0\<rparr> of
        None \<Rightarrow> None
      | Some st \<Rightarrow>
          (case cbOut st of
             Some out \<Rightarrow> Some (Inr out, cbAttempts st)
           | None \<Rightarrow>
               if int (cbAttempts st) \<ge> maxAttempts then Some (Inl (AttemptLimitExhausted maxAttempts), cbAttempts st)
               else (case cbFirstErr st of
                 Some e \<Rightarrow> Some (Inl e, cbAttempts st)
               | None \<Rightarrow> Some (Inl NoValidSubset, cbAttempts st))))"

definition planSize :: "('s, 'a, 'c) BatchPlan \<Rightarrow> nat" where
  "planSize plan = fold (\<lambda>it m. if biOriginalPosition it + 1 > m then biOriginalPosition it + 1 else m)
     (concat (bpSubBatches plan)) 0"

text \<open>The first loop of \<^verbatim>\<open>CombineSharesBounded\<close>: the checks on the shares, and their grouping by sub-batch.\<close>

type_synonym 'a share_groups = "(int \<times> nat \<times> 'a) list"

fun groupShares ::
  "('s, 'a, 'b, 'c) ClusterBTE \<Rightarrow> ('s, 'a, 'c) BatchPlan \<Rightarrow> 'a DecryptionShare list \<Rightarrow> 'a share_groups \<Rightarrow>
   cl_error + 'a share_groups" where
  "groupShares c plan [] groups = Inr groups"
| "groupShares c plan (d # ds) groups =
     (if dsBatchID d \<noteq> bpBatchID plan then Inl (ShareBatchMismatch (dsOperatorID d))
      else if dsSubBatchID d < 0 \<or> dsSubBatchID d \<ge> int (length (bpSubBatches plan))
        then Inl (SubBatchIdOutOfRange (dsSubBatchID d))
      else if dsOperatorID d < 0 \<or> dsOperatorID d \<ge> int (btdN (clBtd c)) then Inl (ShareOperatorOutOfRange (dsOperatorID d))
      else case dsShare d of
        None \<Rightarrow> Inl (NilShare (dsOperatorID d))
      | Some (_, None) \<Rightarrow> Inl (NilShare (dsOperatorID d))
      | Some (i, Some v) \<Rightarrow>
          if int i \<noteq> dsOperatorID d then Inl (ShareIndexMismatch (int i) (dsOperatorID d))
          else if (dsSubBatchID d, i) \<in> (\<lambda>(s, j, _). (s, j)) ` set groups
            then Inl (DuplicateShare (dsOperatorID d) (dsSubBatchID d))
          else groupShares c plan ds (groups @ [(dsSubBatchID d, i, v)]))"

definition sharesOf :: "'a share_groups \<Rightarrow> nat \<Rightarrow> (nat \<times> 'a) list" where
  "sharesOf groups k = sortSlice (\<lambda>a b. fst a < fst b) (map snd (filter (\<lambda>g. fst g = int k) groups))"

definition placeResults :: "positionedPlaintextResult list \<Rightarrow> PlaintextResult option list \<Rightarrow> PlaintextResult option list" where
  "placeResults out results = fold (\<lambda>p rs. rs[ppPosition p := Some (ppResult p)]) out results"

text \<open>
  The second loop, over the sub-batches. An entry of the result that no sub-batch wrote is
  \<^term>\<open>None\<close>, Go's zero value.
\<close>

fun combineAll ::
  "('s, 'a::ab_group_add, 'b, 'c::ab_group_add) ClusterBTE \<Rightarrow> CombineOptions \<Rightarrow> 'a share_groups \<Rightarrow> nat \<Rightarrow>
   ('s, 'a, 'c) BatchItem list list \<Rightarrow> nat list \<Rightarrow> PlaintextResult option list \<Rightarrow>
   ((cl_error + PlaintextResult option list) \<times> nat list) option" where
  "combineAll c opts groups k [] attempts results = Some (Inr results, attempts)"
| "combineAll c opts groups k (items # sbs) attempts results =
     (let subShares = sharesOf groups k;
          limit = (case AttemptLimitsBySubBatch opts of None \<Rightarrow> MaxAttemptsPerSubBatch opts | Some ls \<Rightarrow> ls ! k) in
      if length subShares < btdT (clBtd c) then Some (Inl (NotEnoughShares k (length subShares)), attempts)
      else if limit < 1 then Some (Inl (AttemptBudgetExhausted k), attempts)
      else case combineSubBatch c items subShares limit of
        None \<Rightarrow> None
      | Some (Inl e, n) \<Rightarrow> Some (Inl (AtSubBatch k e), attempts[k := n])
      | Some (Inr out, n) \<Rightarrow> combineAll c opts groups (Suc k) sbs (attempts[k := n]) (placeResults out results))"

definition CombineSharesBounded ::
  "('s, 'a::ab_group_add, 'b, 'c::ab_group_add) ClusterBTE \<Rightarrow> ('s, 'a, 'c) BatchPlan \<Rightarrow> 'a DecryptionShare list \<Rightarrow> CombineOptions \<Rightarrow>
   ((cl_error + PlaintextResult option list) \<times> nat list) option" where
  "CombineSharesBounded c plan shares opts =
     (let stats = replicate (length (bpSubBatches plan)) 0 in
      if MaxAttemptsPerSubBatch opts < 1 then Some (Inl AttemptsNotPositive, stats)
      else if (case AttemptLimitsBySubBatch opts of None \<Rightarrow> False | Some ls \<Rightarrow> length ls \<noteq> length (bpSubBatches plan))
        then Some (Inl AttemptLimitCount, stats)
      else case groupShares c plan shares [] of
        Inl e \<Rightarrow> Some (Inl e, stats)
      | Inr groups \<Rightarrow>
          combineAll c opts groups 0 (bpSubBatches plan) stats (replicate (planSize plan) None))"

definition defaultMaxCombineAttemptsPerSubBatch :: int where
  "defaultMaxCombineAttemptsPerSubBatch = 256"

definition CombineShares ::
  "('s, 'a::ab_group_add, 'b, 'c::ab_group_add) ClusterBTE \<Rightarrow> ('s, 'a, 'c) BatchPlan \<Rightarrow> 'a DecryptionShare list \<Rightarrow>
   (cl_error + PlaintextResult option list) option" where
  "CombineShares c plan shares =
     map_option fst (CombineSharesBounded c plan shares
       \<lparr>MaxAttemptsPerSubBatch = defaultMaxCombineAttemptsPerSubBatch, AttemptLimitsBySubBatch = None\<rparr>)"

end
