(* ===== verification/Node_Config.thy ===== *)
theory Node_Config
  imports Inclusion_Merge Cluster
begin

text \<open>
  Configuration and proposal source of an operator node: the configuration types of
  \<^verbatim>\<open>bloc-node/internal/app/types.go\<close>, the defaults and checks of \<^verbatim>\<open>config.go\<close>, the hex helpers of
  \<^verbatim>\<open>crypto.go\<close>, the protobuf form of an inclusion list (\<^verbatim>\<open>inclusion/proto.go\<close>) and the provider of
  the node's own proposal (\<^verbatim>\<open>provider.go\<close>).

  The protobuf runtime, the JSON decoder and the HTTP client are the parameters \<open>list_wire\<close> and
  \<open>provider_env\<close>; the file reading around the decoded configuration is not modelled.
\<close>

section \<open>Types\<close>

record DiagnosticsConfig =
  dcACSTrace :: bool

record ResourceLimits =
  MaxProposalBytes :: int
  MaxEnvelopeBytes :: int
  MaxCombineAttemptsPerSubBatch :: int
  explicitZeroProposal :: bool
  explicitZeroEnvelope :: bool
  explicitZeroCombineAttempts :: bool

record NodeConfig =
  ncID :: nat
  ncHTTPAddr :: string
  ncHTTPListenAddr :: string
  ncHTTPAdvertiseURL :: string
  ncP2PAddr :: string
  ncP2PListenAddr :: string
  ncP2PAdvertiseAddr :: string
  ncP2PPeerID :: string

record ProviderConfig =
  pcMode :: string
  pcMempoolURL :: string
  pcMempoolTimeoutMS :: int
  pcExpectedPublicConfigID :: string
  pcExpectedPlaintextMasterID :: string
  pcExpectedEncryptedCorpusID :: string
  pcExpectedEncryptedPrefixSetIDs :: "(string, string) gomap"
  pcRequireExactCount :: bool

record NetworkConfig =
  nwMode :: string
  nwStreamMode :: string

record ConfigFile =
  cfVersion :: string
  cfClusterID :: string
  cfBMax :: int
  cfN :: int
  cfThreshold :: int
  cfSlot :: nat
  cfCRSFile :: string
  cfCRSSHA256 :: string
  cfNodes :: "NodeConfig list"
  cfPublicKeyHex :: string
  cfBlockspace :: BlockspaceConfig
  cfProvider :: ProviderConfig
  cfNetwork :: NetworkConfig
  cfLimits :: ResourceLimits
  cfDiagnostics :: DiagnosticsConfig
  cfCRSBytes :: bytes

datatype node_error =
    BadMaxProposalBytes
  | BadMaxEnvelopeBytes
  | EnvelopeHeadroomTooSmall
  | BadMaxCombineAttempts
  | NegativeMempoolTimeout
  | MempoolTimeoutTooLarge
  | ExactModeNeedsIDs
  | ExactModeNeedsPrefixes
  | UnsupportedNetworkMode string
  | BadStreamMode string
  | EmptyHexPayload
  | InvalidHexPayload
  | UnknownProvider string
  | MempoolURLMissing
  | MempoolFetchFailed
  | MempoolStatus nat
  | MempoolBadJSON
  | ProvenanceOmitted
  | UnsupportedSchema string
  | WrongWireVersion string
  | WrongMempoolSlot nat
  | WrongRequestedCount int
  | InvalidCounts
  | WrongPublicConfigID string
  | UnexpectedPublicConfigID string
  | UnexpectedMasterID string
  | UnexpectedCorpusID string
  | UnexpectedPrefixID string
  | ItemDecodeFailed string node_error
  | WrongReturnedCount int
  | AboveProposalLimit nat
  | NotExactCount nat
  | TooManyProposalItems int
  | ProposalTooLarge int
  | ListEncodeFailed
  | ListDecodeFailed

section \<open>Defaults and checks\<close>

definition defaultMaxProposalBytes :: int where "defaultMaxProposalBytes = 8388608"
definition defaultMaxEnvelopeBytes :: int where "defaultMaxEnvelopeBytes = 16777216"
definition defaultMaxCombineAttempts :: int where "defaultMaxCombineAttempts = 256"
definition absoluteMaxProposalBytes :: int where "absoluteMaxProposalBytes = 33554432"
definition absoluteMaxEnvelopeBytes :: int where "absoluteMaxEnvelopeBytes = 67108864"
definition absoluteMaxCombineAttempts :: int where "absoluteMaxCombineAttempts = 4096"
definition minimumEnvelopeHeadroomBytes :: int where "minimumEnvelopeHeadroomBytes = 65536"
definition defaultMempoolTimeoutMS :: int where "defaultMempoolTimeoutMS = 2000"
definition maximumMempoolTimeoutMS :: int where "maximumMempoolTimeoutMS = (2 ^ 63 - 1) div 1000000"

definition defaultResourceLimits :: ResourceLimits where
  "defaultResourceLimits = \<lparr>MaxProposalBytes = defaultMaxProposalBytes, MaxEnvelopeBytes = defaultMaxEnvelopeBytes,
     MaxCombineAttemptsPerSubBatch = defaultMaxCombineAttempts, explicitZeroProposal = False, explicitZeroEnvelope = False,
     explicitZeroCombineAttempts = False\<rparr>"

definition normalizeNetworkConfig :: "NetworkConfig \<Rightarrow> NetworkConfig" where
  "normalizeNetworkConfig nw =
     (let nw1 = (if nwMode nw = [] then nw\<lparr>nwMode := ''libp2p''\<rparr> else nw) in
      if nwStreamMode nw1 = [] then nw1\<lparr>nwStreamMode := ''fresh''\<rparr> else nw1)"

definition validateNetworkConfig :: "NetworkConfig \<Rightarrow> node_error + unit" where
  "validateNetworkConfig nw =
     and_then (ensure (nwMode nw = ''libp2p'') (UnsupportedNetworkMode (nwMode nw))) (\<lambda>_.
       ensure (nwStreamMode nw \<in> {''fresh'', ''persistent'', ''persistent-lanes''}) (BadStreamMode (nwStreamMode nw)))"

definition normalizeProviderConfig :: "ProviderConfig \<Rightarrow> ProviderConfig" where
  "normalizeProviderConfig p =
     (let p1 = (if pcMode p = [] then p\<lparr>pcMode := ''direct''\<rparr> else p) in
      if pcMempoolTimeoutMS p1 = 0 then p1\<lparr>pcMempoolTimeoutMS := defaultMempoolTimeoutMS\<rparr> else p1)"

definition validateProviderConfig :: "ProviderConfig \<Rightarrow> node_error + unit" where
  "validateProviderConfig p =
     and_then (ensure (0 \<le> pcMempoolTimeoutMS p) NegativeMempoolTimeout) (\<lambda>_.
     and_then (ensure (pcMempoolTimeoutMS p \<le> maximumMempoolTimeoutMS) MempoolTimeoutTooLarge) (\<lambda>_.
     if pcRequireExactCount p then
       and_then (ensure (pcExpectedPublicConfigID p \<noteq> [] \<and> pcExpectedPlaintextMasterID p \<noteq> [] \<and>
         pcExpectedEncryptedCorpusID p \<noteq> []) ExactModeNeedsIDs) (\<lambda>_.
       ensure (pcExpectedEncryptedPrefixSetIDs p \<noteq> []) ExactModeNeedsPrefixes)
     else Inr ()))"

definition validateResourceLimits :: "ResourceLimits \<Rightarrow> node_error + unit" where
  "validateResourceLimits l =
     and_then (ensure (0 < MaxProposalBytes l \<and> MaxProposalBytes l \<le> absoluteMaxProposalBytes) BadMaxProposalBytes) (\<lambda>_.
     and_then (ensure (0 < MaxEnvelopeBytes l \<and> MaxEnvelopeBytes l \<le> absoluteMaxEnvelopeBytes) BadMaxEnvelopeBytes) (\<lambda>_.
     and_then (ensure (MaxProposalBytes l + minimumEnvelopeHeadroomBytes \<le> MaxEnvelopeBytes l) EnvelopeHeadroomTooSmall) (\<lambda>_.
     ensure (1 \<le> MaxCombineAttemptsPerSubBatch l \<and> MaxCombineAttemptsPerSubBatch l \<le> absoluteMaxCombineAttempts)
       BadMaxCombineAttempts)))"

definition normalizeNodeConfig :: "NodeConfig \<Rightarrow> NodeConfig" where
  "normalizeNodeConfig n0 =
     (let n1 = (if ncHTTPListenAddr n0 = [] then n0\<lparr>ncHTTPListenAddr := ncHTTPAddr n0\<rparr> else n0);
          n2 = (if ncHTTPAddr n1 = [] then n1\<lparr>ncHTTPAddr := ncHTTPListenAddr n1\<rparr> else n1);
          n3 = (if ncHTTPAdvertiseURL n2 = [] \<and> ncHTTPAddr n2 \<noteq> []
                then n2\<lparr>ncHTTPAdvertiseURL := ''http://'' @ ncHTTPAddr n2\<rparr> else n2);
          n4 = (if ncP2PListenAddr n3 = [] then n3\<lparr>ncP2PListenAddr := ncP2PAddr n3\<rparr> else n3);
          n5 = (if ncP2PAddr n4 = [] then n4\<lparr>ncP2PAddr := ncP2PListenAddr n4\<rparr> else n4)
      in if ncP2PAdvertiseAddr n5 = [] then n5\<lparr>ncP2PAdvertiseAddr := ncP2PAddr n5\<rparr> else n5)"

definition httpListenAddr :: "NodeConfig \<Rightarrow> string" where
  "httpListenAddr n = (if ncHTTPListenAddr n \<noteq> [] then ncHTTPListenAddr n else ncHTTPAddr n)"

definition httpAdvertiseURL :: "NodeConfig \<Rightarrow> string" where
  "httpAdvertiseURL n =
     (if ncHTTPAdvertiseURL n \<noteq> [] then ncHTTPAdvertiseURL n
      else if ncHTTPAddr n = [] then [] else ''http://'' @ ncHTTPAddr n)"

definition p2pListenAddr :: "NodeConfig \<Rightarrow> string" where
  "p2pListenAddr n = (if ncP2PListenAddr n \<noteq> [] then ncP2PListenAddr n else ncP2PAddr n)"

definition p2pAdvertiseAddr :: "NodeConfig \<Rightarrow> string" where
  "p2pAdvertiseAddr n = (if ncP2PAdvertiseAddr n \<noteq> [] then ncP2PAdvertiseAddr n else ncP2PAddr n)"

definition normalizeLimits :: "ResourceLimits \<Rightarrow> ResourceLimits" where
  "normalizeLimits l0 =
     (let l1 = (if MaxProposalBytes l0 = 0 \<and> \<not> explicitZeroProposal l0
                then l0\<lparr>MaxProposalBytes := MaxProposalBytes defaultResourceLimits\<rparr> else l0);
          l2 = (if MaxEnvelopeBytes l1 = 0 \<and> \<not> explicitZeroEnvelope l1
                then l1\<lparr>MaxEnvelopeBytes := MaxEnvelopeBytes defaultResourceLimits\<rparr> else l1)
      in if MaxCombineAttemptsPerSubBatch l2 = 0 \<and> \<not> explicitZeroCombineAttempts l2
         then l2\<lparr>MaxCombineAttemptsPerSubBatch := MaxCombineAttemptsPerSubBatch defaultResourceLimits\<rparr> else l2)"

definition normalizeConfig :: "ConfigFile \<Rightarrow> ConfigFile" where
  "normalizeConfig cfg =
     (let c1 = (if DefaultTxGas (cfBlockspace cfg) = 0
                then cfg\<lparr>cfBlockspace := (cfBlockspace cfg)\<lparr>DefaultTxGas := 21000\<rparr>\<rparr> else cfg)
      in c1\<lparr>cfProvider := normalizeProviderConfig (cfProvider c1), cfNetwork := normalizeNetworkConfig (cfNetwork c1),
            cfLimits := normalizeLimits (cfLimits c1), cfNodes := map normalizeNodeConfig (cfNodes c1)\<rparr>)"

text \<open>The decoded JSON of the limits: an omitted field is \<^term>\<open>None\<close>.\<close>

definition limits_UnmarshalJSON :: "int option \<Rightarrow> int option \<Rightarrow> int option \<Rightarrow> ResourceLimits \<Rightarrow> ResourceLimits" where
  "limits_UnmarshalJSON mp me mc l0 =
     (let l1 = (case mp of None \<Rightarrow> l0 | Some v \<Rightarrow> l0\<lparr>MaxProposalBytes := v, explicitZeroProposal := v = 0\<rparr>);
          l2 = (case me of None \<Rightarrow> l1 | Some v \<Rightarrow> l1\<lparr>MaxEnvelopeBytes := v, explicitZeroEnvelope := v = 0\<rparr>)
      in case mc of None \<Rightarrow> l2 | Some v \<Rightarrow> l2\<lparr>MaxCombineAttemptsPerSubBatch := v, explicitZeroCombineAttempts := v = 0\<rparr>)"

text \<open>The checks \<^verbatim>\<open>readConfig\<close> and \<^verbatim>\<open>newNode\<close> apply, in their order.\<close>

definition checkConfig :: "ConfigFile \<Rightarrow> node_error + unit" where
  "checkConfig cfg =
     and_then (validateResourceLimits (cfLimits cfg)) (\<lambda>_.
     and_then (validateProviderConfig (cfProvider cfg)) (\<lambda>_.
     validateNetworkConfig (cfNetwork cfg)))"

section \<open>Hex helpers\<close>

definition validNonNegativeDecimal :: "merge_env \<Rightarrow> string \<Rightarrow> bool" where
  "validNonNegativeDecimal E raw0 =
     (let t = TrimSpace (meUniTrim E) raw0; raw = (if t = [] then ''0'' else t) in
      case SetString10 raw of None \<Rightarrow> False | Some out \<Rightarrow> 0 \<le> out)"

text \<open>The first byte decides: a hex digit means hex, anything else raw bytes.\<close>

definition decodeHexMaybe :: "merge_env \<Rightarrow> string \<Rightarrow> node_error + bytes" where
  "decodeHexMaybe E s0 =
     (let s1 = TrimSpace (meUniTrim E) (TrimPrefix s0 ''0x'') in
      if s1 = [] then Inl EmptyHexPayload
      else
        let s = (if odd (length s1) then CHR ''0'' # s1 else s1) in
        if fromHexChar (hd s) = None then Inr (strBytes s)
        else or_error (hexDecode s) InvalidHexPayload)"

definition decodeHexStrict :: "merge_env \<Rightarrow> string \<Rightarrow> node_error + bytes" where
  "decodeHexStrict E s0 =
     (let s1 = TrimSpace (meUniTrim E) (TrimPrefix s0 ''0x'') in
      if s1 = [] then Inl EmptyHexPayload
      else or_error (hexDecode (if odd (length s1) then CHR ''0'' # s1 else s1)) InvalidHexPayload)"

definition marshalPointHex :: "('s, 'a, 'b, 'c) suite \<Rightarrow> 'a \<Rightarrow> string option" where
  "marshalPointHex S p = map_option hexEncode (g1Marshal S p)"

definition unmarshalPointHex :: "('s, 'a, 'b, 'c) suite \<Rightarrow> string \<Rightarrow> 'a option" where
  "unmarshalPointHex S h =
     (case hexDecode (TrimPrefix h ''0x'') of None \<Rightarrow> None | Some b \<Rightarrow> g1Unmarshal S b)"

definition marshalScalarHex :: "('s, 'a, 'b, 'c) suite \<Rightarrow> 's \<Rightarrow> string option" where
  "marshalScalarHex S v = map_option hexEncode (scMarshal S v)"

definition unmarshalScalarHex :: "('s, 'a, 'b, 'c) suite \<Rightarrow> string \<Rightarrow> 's option" where
  "unmarshalScalarHex S h =
     (case hexDecode (TrimPrefix h ''0x'') of None \<Rightarrow> None | Some b \<Rightarrow> scUnmarshal S b)"

section \<open>Inclusion lists on the wire\<close>

text \<open>
  The generated protobuf messages; an element of a repeated message field can be nil in Go
  (\<^term>\<open>None\<close>). Marshalling fails for a string field that is not UTF-8.
\<close>

record pb_EncryptedPlaceholder =
  pbHash :: string
  pbCiphertext :: bytes
  pbGas :: "64 word"
  pbEffectiveFeePerGasWei :: string
  pbFrom :: string
  pbNonce :: nat
  pbKind :: string

record pb_InclusionList =
  pbSlot :: nat
  pbOperatorId :: nat
  pbItems :: "pb_EncryptedPlaceholder option list"

record list_wire =
  lwMarshal :: "pb_InclusionList \<Rightarrow> bytes option"
  lwUnmarshal :: "bytes \<Rightarrow> pb_InclusionList option"

definition toProtoEncryptedPlaceholder :: "EncryptedPlaceholder \<Rightarrow> pb_EncryptedPlaceholder" where
  "toProtoEncryptedPlaceholder item = \<lparr>pbHash = epHash item, pbCiphertext = epCiphertext item, pbGas = epGas item,
     pbEffectiveFeePerGasWei = epEffectiveFeePerGasWei item, pbFrom = epFrom item, pbNonce = epNonce item,
     pbKind = epKind item\<rparr>"

definition fromProtoEncryptedPlaceholder :: "pb_EncryptedPlaceholder option \<Rightarrow> node_error + EncryptedPlaceholder" where
  "fromProtoEncryptedPlaceholder item0 =
     (case item0 of
        None \<Rightarrow> Inl ListDecodeFailed
      | Some item \<Rightarrow>
          if pbCiphertext item = [] then Inl ListDecodeFailed
          else Inr \<lparr>epHash = pbHash item, epCiphertext = pbCiphertext item, epGas = pbGas item,
            epEffectiveFeePerGasWei = pbEffectiveFeePerGasWei item, epFrom = pbFrom item, epNonce = pbNonce item,
            epKind = pbKind item\<rparr>)"

definition EncodeList :: "list_wire \<Rightarrow> InclusionList \<Rightarrow> node_error + bytes" where
  "EncodeList W l =
     or_error (lwMarshal W \<lparr>pbSlot = ilSlot l, pbOperatorId = ilOperatorID l,
       pbItems = map (Some \<circ> toProtoEncryptedPlaceholder) (ilItems l)\<rparr>) ListEncodeFailed"

definition DecodeList :: "list_wire \<Rightarrow> bytes \<Rightarrow> node_error + InclusionList" where
  "DecodeList W data =
     and_then (or_error (lwUnmarshal W data) ListDecodeFailed) (\<lambda>msg.
     and_then (ensure (pbSlot msg \<noteq> 0) ListDecodeFailed) (\<lambda>_.
     and_then (each fromProtoEncryptedPlaceholder (pbItems msg)) (\<lambda>items.
     Inr \<lparr>ilSlot = pbSlot msg, ilOperatorID = pbOperatorId msg, ilItems = items, ilHash = []\<rparr>)))"

section \<open>The provider of the node's proposal\<close>

record remote_item =
  riHash :: string
  riEncryptedPayloadHex :: string
  riCiphertextHex :: string
  riPlaceholderEnvelopeHex :: string
  riGas :: "64 word"
  riEffectiveFeePerGasWei :: string
  riFrom :: string
  riNonce :: nat
  riKind :: string

record remote_list =
  rlSchemaVersion :: string
  rlCiphertextWireVersion :: string
  rlPublicConfigID :: string
  rlPlaintextMasterCorpusID :: string
  rlEncryptedCorpusID :: string
  rlEncryptedPrefixSetID :: string
  rlSlot :: nat
  rlRequestedCount :: int
  rlAvailableCount :: int
  rlReturnedCount :: int
  rlItems :: "remote_item list"

text \<open>The HTTP client (\<^term>\<open>None\<close> when the request or reading its body fails) and the JSON decoder.\<close>

record provider_env =
  peGet :: "string \<Rightarrow> (nat \<times> bytes) option"
  peJson :: "bytes \<Rightarrow> remote_list option"

definition validateProposalBounds :: "int \<Rightarrow> int \<Rightarrow> ConfigFile \<Rightarrow> node_error + unit" where
  "validateProposalBounds itemCount encodedBytes cfg =
     and_then (ensure (itemCount \<le> cfBMax cfg) (TooManyProposalItems itemCount)) (\<lambda>_.
     ensure (encodedBytes \<le> MaxProposalBytes (cfLimits cfg)) (ProposalTooLarge encodedBytes))"

definition validateProviderProposal :: "list_wire \<Rightarrow> ConfigFile \<Rightarrow> InclusionList \<Rightarrow> node_error + InclusionList" where
  "validateProviderProposal W cfg l =
     and_then (EncodeList W l) (\<lambda>encoded.
     and_then (validateProposalBounds (int (length (ilItems l))) (int (length encoded)) cfg) (\<lambda>_. Inr l))"

definition trimRightSlash :: "string \<Rightarrow> string" where
  "trimRightSlash s = rev (dropWhile (\<lambda>c. c = CHR ''/'') (rev s))"

definition mempoolRequestURL :: "ProviderConfig \<Rightarrow> nat \<Rightarrow> int \<Rightarrow> string" where
  "mempoolRequestURL p slot proposalLimit =
     (let u = trimRightSlash (pcMempoolURL p) @ ''/inclusion-list?slot='' @ showNat slot in
      if 0 < proposalLimit then u @ ''&limit='' @ showInt proposalLimit else u)"

text \<open>The provenance checks on a response that declares a corpus schema.\<close>

definition checkProvenance :: "ProviderConfig \<Rightarrow> string \<Rightarrow> nat \<Rightarrow> int \<Rightarrow> remote_list \<Rightarrow> node_error + unit" where
  "checkProvenance p publicConfigID slot proposalLimit r =
     and_then (ensure (rlSchemaVersion r = ''bloc-encrypted-corpus-v1'') (UnsupportedSchema (rlSchemaVersion r))) (\<lambda>_.
     and_then (ensure (rlCiphertextWireVersion r = LibraryVersion) (WrongWireVersion (rlCiphertextWireVersion r))) (\<lambda>_.
     and_then (ensure (rlSlot r = slot) (WrongMempoolSlot (rlSlot r))) (\<lambda>_.
     and_then (ensure (\<not> (0 < proposalLimit \<and> rlRequestedCount r \<noteq> proposalLimit)) (WrongRequestedCount (rlRequestedCount r))) (\<lambda>_.
     and_then (ensure (rlReturnedCount r \<le> rlAvailableCount r \<and> 0 \<le> rlReturnedCount r) InvalidCounts) (\<lambda>_.
     and_then (ensure (publicConfigID = [] \<or> rlPublicConfigID r = publicConfigID) (WrongPublicConfigID (rlPublicConfigID r))) (\<lambda>_.
     and_then (ensure (pcExpectedPublicConfigID p = [] \<or> rlPublicConfigID r = pcExpectedPublicConfigID p)
       (UnexpectedPublicConfigID (rlPublicConfigID r))) (\<lambda>_.
     and_then (ensure (pcExpectedPlaintextMasterID p = [] \<or> rlPlaintextMasterCorpusID r = pcExpectedPlaintextMasterID p)
       (UnexpectedMasterID (rlPlaintextMasterCorpusID r))) (\<lambda>_.
     and_then (ensure (pcExpectedEncryptedCorpusID p = [] \<or> rlEncryptedCorpusID r = pcExpectedEncryptedCorpusID p)
       (UnexpectedCorpusID (rlEncryptedCorpusID r))) (\<lambda>_.
     if 0 < proposalLimit then
       (case map_of (pcExpectedEncryptedPrefixSetIDs p) (showInt proposalLimit) of
          None \<Rightarrow> Inr ()
        | Some want \<Rightarrow> ensure (want = [] \<or> rlEncryptedPrefixSetID r = want) (UnexpectedPrefixID (rlEncryptedPrefixSetID r)))
     else Inr ())))))))))"

text \<open>One item of the response: \<^term>\<open>Inr None\<close> when it is skipped.\<close>

definition remotePayload :: "merge_env \<Rightarrow> remote_item \<Rightarrow> node_error + bytes option" where
  "remotePayload E it =
     (if riEncryptedPayloadHex it \<noteq> [] then and_then (decodeHexStrict E (riEncryptedPayloadHex it)) (Inr \<circ> Some)
      else if riCiphertextHex it \<noteq> [] then and_then (decodeHexStrict E (riCiphertextHex it)) (Inr \<circ> Some)
      else if riPlaceholderEnvelopeHex it \<noteq> [] then and_then (decodeHexMaybe E (riPlaceholderEnvelopeHex it)) (Inr \<circ> Some)
      else Inr None)"

definition remoteItem :: "merge_env \<Rightarrow> remote_item \<Rightarrow> node_error + EncryptedPlaceholder option" where
  "remoteItem E it =
     (if riKind it \<noteq> [] \<and> riKind it \<noteq> ''placeholder'' then Inr None
      else case remotePayload E it of
        Inl e \<Rightarrow> Inl (ItemDecodeFailed (riHash it) e)
      | Inr None \<Rightarrow> Inr None
      | Inr (Some payload) \<Rightarrow>
          Inr (Some \<lparr>epHash = hashHex E payload, epCiphertext = payload, epGas = riGas it,
            epEffectiveFeePerGasWei = (if riEffectiveFeePerGasWei it = [] then ''0'' else riEffectiveFeePerGasWei it),
            epFrom = ToLower (meUniLower E) (riFrom it), epNonce = riNonce it,
            epKind = (if riKind it = [] then ''placeholder'' else riKind it)\<rparr>))"

definition fetchMempoolInclusionList ::
  "merge_env \<Rightarrow> provider_env \<Rightarrow> ConfigFile \<Rightarrow> string \<Rightarrow> nat \<Rightarrow> nat \<Rightarrow> int \<Rightarrow> node_error + InclusionList" where
  "fetchMempoolInclusionList E P cfg publicConfigID slot selfID proposalLimit =
     (let p = cfProvider cfg in
      and_then (ensure (pcMempoolURL p \<noteq> []) MempoolURLMissing) (\<lambda>_.
      and_then (or_error (peGet P (mempoolRequestURL p slot proposalLimit)) MempoolFetchFailed) (\<lambda>(status, body).
      and_then (ensure (status div 100 = 2) (MempoolStatus status)) (\<lambda>_.
      and_then (or_error (peJson P (take 8388608 body)) MempoolBadJSON) (\<lambda>r.
      and_then (ensure (\<not> ((pcExpectedPublicConfigID p \<noteq> [] \<or> pcExpectedPlaintextMasterID p \<noteq> [] \<or>
          pcExpectedEncryptedCorpusID p \<noteq> [] \<or> pcRequireExactCount p) \<and> rlSchemaVersion r = [])) ProvenanceOmitted) (\<lambda>_.
      and_then (if rlSchemaVersion r \<noteq> [] then checkProvenance p publicConfigID slot proposalLimit r else Inr ()) (\<lambda>_.
      and_then (each (remoteItem E) (rlItems r)) (\<lambda>found.
      let items = List.map_filter (\<lambda>x. x) found in
      and_then (ensure (\<not> (rlSchemaVersion r \<noteq> [] \<and> rlReturnedCount r \<noteq> int (length items))) (WrongReturnedCount (rlReturnedCount r))) (\<lambda>_.
      and_then (ensure (\<not> (0 < proposalLimit \<and> int (length items) > proposalLimit)) (AboveProposalLimit (length items))) (\<lambda>_.
      and_then (ensure (\<not> (pcRequireExactCount p \<and> 0 < proposalLimit \<and> int (length items) \<noteq> proposalLimit)) (NotExactCount (length items))) (\<lambda>_.
      let l = \<lparr>ilSlot = slot, ilOperatorID = selfID, ilItems = items, ilHash = []\<rparr> in
      Inr (l\<lparr>ilHash := HashInclusionList E l\<rparr>))))))))))))"

definition buildInclusionList ::
  "merge_env \<Rightarrow> list_wire \<Rightarrow> provider_env \<Rightarrow> ConfigFile \<Rightarrow> string \<Rightarrow> nat \<Rightarrow> nat \<Rightarrow> int \<Rightarrow> EncryptedPlaceholder list \<Rightarrow>
   node_error + InclusionList" where
  "buildInclusionList E W P cfg publicConfigID slot selfID proposalLimit pending =
     (if pcMode (cfProvider cfg) = [] \<or> pcMode (cfProvider cfg) = ''direct'' then
        let l = \<lparr>ilSlot = slot, ilOperatorID = selfID, ilItems = pending, ilHash = []\<rparr> in
        validateProviderProposal W cfg (l\<lparr>ilHash := HashInclusionList E l\<rparr>)
      else if pcMode (cfProvider cfg) = ''mempool-http'' then
        and_then (fetchMempoolInclusionList E P cfg publicConfigID slot selfID proposalLimit) (validateProviderProposal W cfg)
      else Inl (UnknownProvider (pcMode (cfProvider cfg))))"

section \<open>Facts\<close>

lemma default_limits_valid: "validateResourceLimits defaultResourceLimits = Inr ()"
  by (simp add: validateResourceLimits_def defaultResourceLimits_def defaultMaxProposalBytes_def defaultMaxEnvelopeBytes_def
    defaultMaxCombineAttempts_def absoluteMaxProposalBytes_def absoluteMaxEnvelopeBytes_def absoluteMaxCombineAttempts_def
    minimumEnvelopeHeadroomBytes_def)

text \<open>A raw transaction of an odd number of bytes is prefixed with a zero digit, so it is no longer raw.\<close>

lemma decode_maybe_odd_raw:
  "decodeHexMaybe E ''hello'' = Inl InvalidHexPayload" "decodeHexMaybe E ''halo'' = Inr (strBytes ''halo'')"
  by (simp_all add: decodeHexMaybe_def TrimPrefix_def TrimSpace_def is_ascii_def isSpace_def fromHexChar_def Let_def)

lemma hexDecode_nonempty: "hexDecode s = Some bs \<Longrightarrow> s \<noteq> [] \<Longrightarrow> bs \<noteq> []"
  by (induction s rule: hexDecode.induct) (auto split: option.splits)

lemma decodeHex_nonempty:
  "decodeHexStrict E s = Inr bs \<Longrightarrow> bs \<noteq> []" "decodeHexMaybe E s = Inr bs \<Longrightarrow> bs \<noteq> []"
  by (auto simp: decodeHexStrict_def decodeHexMaybe_def Let_def strBytes_def dest: hexDecode_nonempty split: if_splits)

lemma remoteItem_sound:
  assumes "remoteItem E it = Inr (Some x)"
  shows "epCiphertext x \<noteq> [] \<and> epHash x = hashHex E (epCiphertext x) \<and> epKind x = ''placeholder''"
proof -
  from assms obtain payload where p: "remotePayload E it = Inr (Some payload)" "epCiphertext x = payload"
    "epHash x = hashHex E payload" "epKind x = ''placeholder''"
    by (auto simp: remoteItem_def split: if_splits sum.splits option.splits)
  from p(1) have "payload \<noteq> []"
    by (auto simp: remotePayload_def dest: decodeHex_nonempty split: if_splits)
  with p show ?thesis by simp
qed

lemma map_filter_each:
  "each f xs = Inr found \<Longrightarrow> y \<in> set (List.map_filter (\<lambda>x. x) found) \<Longrightarrow> \<exists>x \<in> set xs. f x = Inr (Some y)"
proof (induction xs arbitrary: found)
  case (Cons x xs)
  then show ?case by (auto simp: List.map_filter_simps split: option.splits)
qed (simp add: List.map_filter_simps)

lemma fetched_list:
  assumes "fetchMempoolInclusionList E P cfg pid slot self limit = Inr l"
  shows "ilSlot l = slot" "ilOperatorID l = self" "ilHash l = HashInclusionList E l"
    "\<forall>x \<in> set (ilItems l). epCiphertext x \<noteq> [] \<and> epHash x = hashHex E (epCiphertext x) \<and> epKind x = ''placeholder''"
    "0 < limit \<Longrightarrow> int (length (ilItems l)) \<le> limit"
    "0 < limit \<Longrightarrow> pcRequireExactCount (cfProvider cfg) \<Longrightarrow> int (length (ilItems l)) = limit"
  using assms
  by (auto simp: fetchMempoolInclusionList_def Let_def HashInclusionList_def dest!: map_filter_each remoteItem_sound)

lemma decode_encoded:
  assumes "\<And>m b. lwMarshal W m = Some b \<Longrightarrow> lwUnmarshal W b = Some m" and "EncodeList W l = Inr b"
  shows "DecodeList W b =
    (if ilSlot l \<noteq> 0 \<and> (\<forall>x \<in> set (ilItems l). epCiphertext x \<noteq> []) then Inr (l\<lparr>ilHash := []\<rparr>) else Inl ListDecodeFailed)"
proof -
  have un: "lwUnmarshal W b = Some \<lparr>pbSlot = ilSlot l, pbOperatorId = ilOperatorID l,
      pbItems = map (Some \<circ> toProtoEncryptedPlaceholder) (ilItems l)\<rparr>"
    using assms by (auto simp: EncodeList_def)
  have "each fromProtoEncryptedPlaceholder (map (Some \<circ> toProtoEncryptedPlaceholder) xs) =
      (if \<forall>x \<in> set xs. epCiphertext x \<noteq> [] then Inr xs else Inl ListDecodeFailed)" for xs
    by (induction xs) (auto simp: fromProtoEncryptedPlaceholder_def toProtoEncryptedPlaceholder_def)
  with un show ?thesis by (cases "ilSlot l = 0") (auto simp: DecodeList_def)
qed

section \<open>Properties\<close>

text \<open>
  Inclusion lists on the wire: for a protobuf runtime that reads back what it wrote, a list that was
  encoded decodes to itself without its hash exactly when its slot is not zero and no item has
  an empty ciphertext; otherwise every decoder refuses it.
\<close>

theorem list_wire_roundtrip:
  assumes "\<And>m b. lwMarshal W m = Some b \<Longrightarrow> lwUnmarshal W b = Some m" and "EncodeList W l = Inr b"
  shows "DecodeList W b =
    (if ilSlot l \<noteq> 0 \<and> (\<forall>x \<in> set (ilItems l). epCiphertext x \<noteq> []) then Inr (l\<lparr>ilHash := []\<rparr>) else Inl ListDecodeFailed)"
  using assms by (rule decode_encoded)

definition demo_sealed :: EncryptedPlaceholder where
  "demo_sealed = \<lparr>epHash = ''ab'', epCiphertext = [171], epGas = 21000, epEffectiveFeePerGasWei = ''0'', epFrom = [], epNonce = 3,
     epKind = ''placeholder''\<rparr>"

definition demo_pb :: pb_InclusionList where
  "demo_pb = \<lparr>pbSlot = 7, pbOperatorId = 1, pbItems = [Some (toProtoEncryptedPlaceholder demo_sealed)]\<rparr>"

definition demo_wire :: list_wire where
  "demo_wire = \<lparr>lwMarshal = (\<lambda>m. if m = demo_pb then Some [1] else None),
     lwUnmarshal = (\<lambda>b. if b = [1] then Some demo_pb else None)\<rparr>"

lemma demo_wire_law: "lwMarshal demo_wire m = Some b \<Longrightarrow> lwUnmarshal demo_wire b = Some m"
  by (auto simp: demo_wire_def split: if_splits)

lemma demo_encoded: "EncodeList demo_wire \<lparr>ilSlot = 7, ilOperatorID = 1, ilItems = [demo_sealed], ilHash = h\<rparr> = Inr [1]"
  by (simp add: EncodeList_def demo_wire_def demo_pb_def)

theorem list_wire_roundtrip_witness:
  "DecodeList demo_wire [1] = Inr \<lparr>ilSlot = 7, ilOperatorID = 1, ilItems = [demo_sealed], ilHash = []\<rparr>"
  using list_wire_roundtrip [OF demo_wire_law demo_encoded [of "''x''"]] by (simp add: demo_sealed_def)


definition demo_provider :: ProviderConfig where
  "demo_provider = \<lparr>pcMode = ''mempool-http'', pcMempoolURL = ''http://m/'', pcMempoolTimeoutMS = 5, pcExpectedPublicConfigID = [],
     pcExpectedPlaintextMasterID = [], pcExpectedEncryptedCorpusID = [], pcExpectedEncryptedPrefixSetIDs = [],
     pcRequireExactCount = False\<rparr>"

definition demo_config :: ConfigFile where
  "demo_config = \<lparr>cfVersion = ''bloc-cluster-v3'', cfClusterID = ''c'', cfBMax = 4, cfN = 4, cfThreshold = 2, cfSlot = 7, cfCRSFile = [],
     cfCRSSHA256 = [], cfNodes = [], cfPublicKeyHex = [],
     cfBlockspace = \<lparr>MaxDecryptedGas = 0, MaxDecryptedTxs = 0, DefaultTxGas = 21000\<rparr>, cfProvider = demo_provider,
     cfNetwork = \<lparr>nwMode = ''libp2p'', nwStreamMode = ''fresh''\<rparr>, cfLimits = defaultResourceLimits,
     cfDiagnostics = \<lparr>dcACSTrace = False\<rparr>, cfCRSBytes = []\<rparr>"

definition demo_remote :: remote_list where
  "demo_remote = \<lparr>rlSchemaVersion = [], rlCiphertextWireVersion = [], rlPublicConfigID = [], rlPlaintextMasterCorpusID = [],
     rlEncryptedCorpusID = [], rlEncryptedPrefixSetID = [], rlSlot = 7, rlRequestedCount = 0, rlAvailableCount = 1,
     rlReturnedCount = 1, rlItems = [\<lparr>riHash = ''h'', riEncryptedPayloadHex = ''0xab'', riCiphertextHex = [],
       riPlaceholderEnvelopeHex = [], riGas = 21000, riEffectiveFeePerGasWei = [], riFrom = [], riNonce = 3, riKind = []\<rparr>,
       \<lparr>riHash = ''g'', riEncryptedPayloadHex = [], riCiphertextHex = [],
       riPlaceholderEnvelopeHex = [], riGas = 21000, riEffectiveFeePerGasWei = [], riFrom = [], riNonce = 3, riKind = ''plaintext''\<rparr>]\<rparr>"

definition demo_provider_env :: provider_env where
  "demo_provider_env = \<lparr>peGet = (\<lambda>u. if u = ''http://m/inclusion-list?slot=7&limit=2'' then Some (200, [9]) else None),
     peJson = (\<lambda>b. if b = [9] then Some demo_remote else None)\<rparr>"

lemma demo_built:
  "\<exists>l. buildInclusionList demo_merge_env demo_wire demo_provider_env demo_config [] 7 1 2 [] = Inr l \<and> ilItems l = [demo_sealed]"
proof -
  have url: "mempoolRequestURL demo_provider 7 2 = ''http://m/inclusion-list?slot=7&limit=2''" by code_simp
  have it: "each (remoteItem demo_merge_env) (rlItems demo_remote) = Inr [Some demo_sealed, None]"
    by code_simp
  have h: "\<exists>h. fetchMempoolInclusionList demo_merge_env demo_provider_env demo_config [] 7 1 2 =
      Inr \<lparr>ilSlot = 7, ilOperatorID = 1, ilItems = [demo_sealed], ilHash = h\<rparr>"
    unfolding fetchMempoolInclusionList_def using url it
    by (simp add: Let_def demo_config_def demo_provider_env_def List.map_filter_simps) (simp add: demo_provider_def demo_remote_def)
  then show ?thesis using demo_encoded
    by (auto simp: buildInclusionList_def validateProviderProposal_def validateProposalBounds_def demo_config_def demo_provider_def
      defaultResourceLimits_def defaultMaxProposalBytes_def)
qed


end
