(* ===== verification/Envelope.thy ===== *)
theory Envelope
  imports Bloc_Slot Node_Config
begin

text \<open>
  Messages between operator nodes: the envelope codec (\<^verbatim>\<open>bloc-node/internal/app/codec.go\<close>), the
  classification of messages (\<^verbatim>\<open>acs_trace.go\<close>, \<^verbatim>\<open>transport_libp2p_lanes.go\<close>), the frames of a
  persistent stream (\<^verbatim>\<open>transport_libp2p_frame.go\<close>) and what the libp2p transport does with the bytes of
  a stream before the node's handler sees an envelope (\<^verbatim>\<open>transport_libp2p.go\<close>).

  The generated protobuf messages are datatypes; the protobuf runtime that turns an envelope
  message into bytes is the parameter record \<open>envelope_wire\<close>. A \<^verbatim>\<open>oneof\<close> that is not set is \<^term>\<open>None\<close>; the
  runtime never yields a set one with a nil message. A stream is the sequence of bytes that
  arrives on it until the peer closes it. Dialling, deadlines, queues and the shutdown of the
  transport are in the theories of the stream writer and of the transport.
\<close>

section \<open>Types\<close>

record WireShare =
  wsOperatorID :: int
  wsBatchIDHex :: string
  wsSubBatchID :: int
  wsPointHex :: string

record WireEnvelope =
  weFrom :: nat
  weTo :: nat
  weDirect :: bool
  weKind :: string
  weSlot :: nat
  weACS :: "SlotMessage option"
  weShare :: "WireShare option"

record pb_ProofRequest =
  ppRootHash :: bytes
  ppProof :: "bytes list"
  ppIndex :: nat
  ppLeaves :: nat

datatype pb_Agreement = PbBval bool | PbAux bool

record pb_AgreementMessage =
  paEpoch :: nat
  paMessage :: "pb_Agreement option"

datatype pb_Broadcast = PbProof pb_ProofRequest | PbEcho "pb_ProofRequest option" | PbReady bytes

datatype pb_ACSPayload = PbAgreement pb_AgreementMessage | PbBroadcast "pb_Broadcast option"

record pb_ACSMessage =
  pmProposerId :: nat
  pmPayload :: "pb_ACSPayload option"

record pb_SlotMessage =
  psSlot :: nat
  psPayload :: "pb_ACSMessage option"

record pb_WireShare =
  pwOperatorId :: nat
  pwBatchIdHex :: string
  pwSubBatchId :: nat
  pwPointHex :: string

datatype pb_Payload = PbAcs pb_SlotMessage | PbShare pb_WireShare

record pb_Envelope =
  pvVersion :: nat
  pvFrom :: nat
  pvTo :: nat
  pvDirect :: bool
  pvKind :: string
  pvSlot :: nat
  pvPayload :: "pb_Payload option"

record envelope_wire =
  ewMarshal :: "pb_Envelope \<Rightarrow> bytes option"
  ewUnmarshal :: "bytes \<Rightarrow> pb_Envelope option"

datatype wire_error =
    NilPayload
  | UnsupportedKind string
  | UnsupportedPayload
  | MarshalFailedEnvelope
  | MalformedEnvelope
  | UnsupportedEnvelopeVersion nat
  | UnexpectedEOF
  | InvalidPayload
  | WrongSender nat nat
  | WrongRecipient
  | WrongShareOperator int
  | InvalidSubtype
  | WrongLane
  | UnknownPeer nat
  | FrameEOF
  | FrameTruncated
  | FrameOverflow
  | FrameZeroLength
  | FrameBadMaximum
  | EnvelopeTooLarge nat

section \<open>The codec\<close>

definition envelopeVersion :: nat where
  "envelopeVersion = 1"

definition toProtoWireShare :: "WireShare \<Rightarrow> pb_WireShare" where
  "toProtoWireShare s = \<lparr>pwOperatorId = uint64_of (wsOperatorID s), pwBatchIdHex = wsBatchIDHex s,
     pwSubBatchId = uint64_of (wsSubBatchID s), pwPointHex = wsPointHex s\<rparr>"

definition fromProtoWireShare :: "pb_WireShare \<Rightarrow> WireShare" where
  "fromProtoWireShare s = \<lparr>wsOperatorID = int64_of (pwOperatorId s), wsBatchIDHex = pwBatchIdHex s,
     wsSubBatchID = int64_of (pwSubBatchId s), wsPointHex = pwPointHex s\<rparr>"

definition toProtoProofRequest :: "ProofRequest \<Rightarrow> pb_ProofRequest" where
  "toProtoProofRequest r = \<lparr>ppRootHash = prRootHash r, ppProof = prProof r, ppIndex = uint64_of (prIndex r),
     ppLeaves = uint64_of (prLeaves r)\<rparr>"

definition fromProtoProofRequest :: "pb_ProofRequest option \<Rightarrow> ProofRequest" where
  "fromProtoProofRequest r0 =
     (case r0 of
        None \<Rightarrow> \<lparr>prRootHash = [], prProof = [], prIndex = 0, prLeaves = 0\<rparr>
      | Some r \<Rightarrow> \<lparr>prRootHash = ppRootHash r, prProof = ppProof r, prIndex = int64_of (ppIndex r),
          prLeaves = int64_of (ppLeaves r)\<rparr>)"

definition toProtoAgreementMessage :: "AgreementMessage \<Rightarrow> wire_error + pb_AgreementMessage" where
  "toProtoAgreementMessage m =
     (case amMessage m of
        BvalRequest v \<Rightarrow> Inr \<lparr>paEpoch = uint64_of (amEpoch m), paMessage = Some (PbBval v)\<rparr>
      | AuxRequest v \<Rightarrow> Inr \<lparr>paEpoch = uint64_of (amEpoch m), paMessage = Some (PbAux v)\<rparr>
      | UnknownAgreement \<Rightarrow> Inl UnsupportedPayload)"

definition fromProtoAgreementMessage :: "pb_AgreementMessage \<Rightarrow> wire_error + AgreementMessage" where
  "fromProtoAgreementMessage m =
     (case paMessage m of
        Some (PbBval v) \<Rightarrow> Inr \<lparr>amEpoch = int64_of (paEpoch m), amMessage = BvalRequest v\<rparr>
      | Some (PbAux v) \<Rightarrow> Inr \<lparr>amEpoch = int64_of (paEpoch m), amMessage = AuxRequest v\<rparr>
      | None \<Rightarrow> Inl UnexpectedEOF)"

definition toProtoBroadcastMessage :: "BroadcastMessage \<Rightarrow> wire_error + pb_Broadcast option" where
  "toProtoBroadcastMessage m =
     (case m of
        ProofMsg p \<Rightarrow> Inr (Some (PbProof (toProtoProofRequest p)))
      | EchoMsg p \<Rightarrow> Inr (Some (PbEcho (Some (toProtoProofRequest p))))
      | ReadyMsg h \<Rightarrow> Inr (Some (PbReady h))
      | UnknownBroadcast \<Rightarrow> Inl UnsupportedPayload)"

definition fromProtoBroadcastMessage :: "pb_Broadcast option \<Rightarrow> wire_error + BroadcastMessage" where
  "fromProtoBroadcastMessage m =
     (case m of
        Some (PbProof p) \<Rightarrow> Inr (ProofMsg (fromProtoProofRequest (Some p)))
      | Some (PbEcho p) \<Rightarrow> Inr (EchoMsg (fromProtoProofRequest p))
      | Some (PbReady h) \<Rightarrow> Inr (ReadyMsg h)
      | None \<Rightarrow> Inl UnexpectedEOF)"

definition toProtoACSMessage :: "ACSMessage option \<Rightarrow> wire_error + pb_ACSMessage" where
  "toProtoACSMessage m0 =
     (case m0 of
        None \<Rightarrow> Inl NilPayload
      | Some m \<Rightarrow>
          (case acsPayload m of
             AgreementPayload a \<Rightarrow> and_then (toProtoAgreementMessage a) (\<lambda>p.
               Inr \<lparr>pmProposerId = acsProposerID m, pmPayload = Some (PbAgreement p)\<rparr>)
           | BroadcastPayload b \<Rightarrow> and_then (toProtoBroadcastMessage b) (\<lambda>p.
               Inr \<lparr>pmProposerId = acsProposerID m, pmPayload = Some (PbBroadcast p)\<rparr>)
           | UnknownACSPayload \<Rightarrow> Inl UnsupportedPayload))"

definition fromProtoACSMessage :: "pb_ACSMessage \<Rightarrow> wire_error + ACSMessage" where
  "fromProtoACSMessage m =
     (case pmPayload m of
        Some (PbAgreement a) \<Rightarrow> and_then (fromProtoAgreementMessage a) (\<lambda>p.
          Inr \<lparr>acsProposerID = pmProposerId m, acsPayload = AgreementPayload p\<rparr>)
      | Some (PbBroadcast b) \<Rightarrow> and_then (fromProtoBroadcastMessage b) (\<lambda>p.
          Inr \<lparr>acsProposerID = pmProposerId m, acsPayload = BroadcastPayload p\<rparr>)
      | None \<Rightarrow> Inl UnexpectedEOF)"

definition toProtoSlotMessage :: "SlotMessage \<Rightarrow> wire_error + pb_SlotMessage" where
  "toProtoSlotMessage m =
     and_then (toProtoACSMessage (smPayload m)) (\<lambda>acs. Inr \<lparr>psSlot = smSlot m, psPayload = Some acs\<rparr>)"

definition fromProtoSlotMessage :: "pb_SlotMessage \<Rightarrow> wire_error + SlotMessage" where
  "fromProtoSlotMessage m =
     (case psPayload m of
        None \<Rightarrow> Inl UnexpectedEOF
      | Some p \<Rightarrow> and_then (fromProtoACSMessage p) (\<lambda>acs. Inr \<lparr>smSlot = psSlot m, smPayload = Some acs\<rparr>))"

definition Encode :: "envelope_wire \<Rightarrow> WireEnvelope \<Rightarrow> wire_error + bytes" where
  "Encode W env =
     (let msg = (\<lambda>p. \<lparr>pvVersion = envelopeVersion, pvFrom = weFrom env, pvTo = weTo env, pvDirect = weDirect env,
            pvKind = weKind env, pvSlot = weSlot env, pvPayload = Some p\<rparr>) in
      and_then
        (if weKind env = ''acs'' then
           (case weACS env of
              None \<Rightarrow> Inl NilPayload
            | Some m \<Rightarrow> and_then (toProtoSlotMessage m) (\<lambda>acs. Inr (PbAcs acs)))
         else if weKind env = ''share'' then
           (case weShare env of None \<Rightarrow> Inl NilPayload | Some s \<Rightarrow> Inr (PbShare (toProtoWireShare s)))
         else Inl (UnsupportedKind (weKind env)))
        (\<lambda>p. or_error (ewMarshal W (msg p)) MarshalFailedEnvelope))"

definition Decode :: "envelope_wire \<Rightarrow> bytes \<Rightarrow> wire_error + WireEnvelope" where
  "Decode W data =
     and_then (or_error (ewUnmarshal W data) MalformedEnvelope) (\<lambda>msg.
     and_then (ensure (pvVersion msg = envelopeVersion) (UnsupportedEnvelopeVersion (pvVersion msg))) (\<lambda>_.
     let env = \<lparr>weFrom = pvFrom msg, weTo = pvTo msg, weDirect = pvDirect msg, weKind = pvKind msg, weSlot = pvSlot msg,
           weACS = None, weShare = None\<rparr> in
     case pvPayload msg of
       Some (PbAcs p) \<Rightarrow> and_then (fromProtoSlotMessage p) (\<lambda>acs. Inr (env\<lparr>weACS := Some acs\<rparr>))
     | Some (PbShare p) \<Rightarrow> Inr (env\<lparr>weShare := Some (fromProtoWireShare p)\<rparr>)
     | None \<Rightarrow> Inl UnexpectedEOF))"

section \<open>Classification\<close>

definition classifyACSMessage :: "SlotMessage option \<Rightarrow> wire_error + ACSMessageSubtype" where
  "classifyACSMessage msg =
     (case msg of
        None \<Rightarrow> Inl InvalidSubtype
      | Some sm \<Rightarrow>
          (case smPayload sm of
             None \<Rightarrow> Inl InvalidSubtype
           | Some m \<Rightarrow>
               (case acsPayload m of
                  BroadcastPayload (ProofMsg _) \<Rightarrow> Inr ACSMessageProof
                | BroadcastPayload (EchoMsg _) \<Rightarrow> Inr ACSMessageEcho
                | BroadcastPayload (ReadyMsg _) \<Rightarrow> Inr ACSMessageReady
                | BroadcastPayload UnknownBroadcast \<Rightarrow> Inl InvalidSubtype
                | AgreementPayload a \<Rightarrow>
                    (case amMessage a of
                       BvalRequest _ \<Rightarrow> Inr ACSMessageBVAL
                     | AuxRequest _ \<Rightarrow> Inr ACSMessageAUX
                     | UnknownAgreement \<Rightarrow> Inl InvalidSubtype)
                | UnknownACSPayload \<Rightarrow> Inl InvalidSubtype)))"

definition validateEnvelopePayload :: "WireEnvelope \<Rightarrow> wire_error + unit" where
  "validateEnvelopePayload env =
     (if weKind env = ''acs'' then ensure (\<not> (weACS env = None \<or> weShare env \<noteq> None)) InvalidPayload
      else if weKind env = ''share'' then ensure (\<not> (weShare env = None \<or> weACS env \<noteq> None)) InvalidPayload
      else Inl (UnsupportedKind (weKind env)))"

datatype persistentStreamLane = persistentLaneControl | persistentLaneData

definition classifyEnvelopeLane :: "WireEnvelope \<Rightarrow> wire_error + persistentStreamLane" where
  "classifyEnvelopeLane env =
     and_then (validateEnvelopePayload env) (\<lambda>_.
     if weKind env = ''share'' then Inr persistentLaneData
     else and_then (classifyACSMessage (weACS env)) (\<lambda>t.
       if t \<in> {ACSMessageReady, ACSMessageBVAL, ACSMessageAUX} then Inr persistentLaneControl
       else if t \<in> {ACSMessageProof, ACSMessageEcho} then Inr persistentLaneData
       else Inl InvalidSubtype))"

definition validateAuthenticatedEnvelope :: "nat \<Rightarrow> nat \<Rightarrow> WireEnvelope \<Rightarrow> wire_error + unit" where
  "validateAuthenticatedEnvelope operatorID selfID env =
     and_then (ensure (weFrom env = operatorID) (WrongSender operatorID (weFrom env))) (\<lambda>_.
     and_then (ensure (weDirect env \<and> weTo env = selfID) WrongRecipient) (\<lambda>_.
     case weShare env of
       None \<Rightarrow> Inr ()
     | Some s \<Rightarrow> ensure (wsOperatorID s = int64_of operatorID) (WrongShareOperator (wsOperatorID s))))"

section \<open>Frames\<close>

text \<open>\<^verbatim>\<open>binary.PutUvarint\<close> and \<^verbatim>\<open>binary.ReadUvarint\<close>: seven bits per byte, at most ten bytes.\<close>

fun PutUvarint :: "nat \<Rightarrow> bytes" where
  "PutUvarint x = (if x < 128 then [of_nat x] else of_nat (128 + x mod 128) # PutUvarint (x div 128))"

declare PutUvarint.simps [simp del]

fun readUvarintFrom :: "nat \<Rightarrow> nat \<Rightarrow> bytes \<Rightarrow> wire_error + (nat \<times> bytes)" where
  "readUvarintFrom i x [] = Inl (if i = 0 then FrameEOF else FrameTruncated)"
| "readUvarintFrom i x (b # rest) =
     (if 10 \<le> i then Inl FrameOverflow
      else if unat b < 128 then
        (if i = 9 \<and> 1 < unat b then Inl FrameOverflow else Inr (x + unat b * 2 ^ (7 * i), rest))
      else if i = 9 then Inl FrameOverflow
      else readUvarintFrom (Suc i) (x + (unat b - 128) * 2 ^ (7 * i)) rest)"

definition ReadUvarint :: "bytes \<Rightarrow> wire_error + (nat \<times> bytes)" where
  "ReadUvarint bs = readUvarintFrom 0 0 bs"

definition writeEnvelopeFrame :: "bytes \<Rightarrow> wire_error + bytes" where
  "writeEnvelopeFrame payload =
     (if payload = [] then Inl FrameZeroLength else Inr (PutUvarint (length payload) @ payload))"

definition readEnvelopeFrame :: "int \<Rightarrow> bytes \<Rightarrow> wire_error + (bytes \<times> bytes)" where
  "readEnvelopeFrame maxEnvelopeBytes r =
     (if maxEnvelopeBytes < 1 then Inl FrameBadMaximum
      else and_then (ReadUvarint r) (\<lambda>(len, r').
        if len = 0 then Inl FrameZeroLength
        else if int len > maxEnvelopeBytes then Inl (EnvelopeTooLarge len)
        else if length r' < len then Inl FrameTruncated
        else Inr (take len r', drop len r')))"

text \<open>The whole of a fresh stream is one envelope.\<close>

definition readBoundedEnvelope :: "int \<Rightarrow> bytes \<Rightarrow> wire_error + bytes" where
  "readBoundedEnvelope maxBytes r =
     (if maxBytes < 1 then Inl FrameBadMaximum
      else let data = take (nat (maxBytes + 1)) r in
        if int (length data) > maxBytes then Inl (EnvelopeTooLarge (length data)) else Inr data)"

section \<open>Streams\<close>

text \<open>
  The peer identities of the configuration; \<open>decodeID\<close> is \<^verbatim>\<open>peer.Decode\<close>. An identity that is
  missing, malformed or assigned twice is refused.
\<close>

fun operatorByPeerID :: "(string \<Rightarrow> 'pid option) \<Rightarrow> NodeConfig list \<Rightarrow> ('pid, nat) gomap \<Rightarrow> ('pid, nat) gomap option" where
  "operatorByPeerID decodeID [] ops = Some ops"
| "operatorByPeerID decodeID (n # ns) ops =
     (if ncP2PPeerID n = [] then None
      else case decodeID (ncP2PPeerID n) of
        None \<Rightarrow> None
      | Some pid \<Rightarrow> if has_key ops pid then None else operatorByPeerID decodeID ns (AList.update pid (ncID n) ops))"

text \<open>The checks between the bytes of one envelope and the handler; the reason is the metric label of the rejection.\<close>

definition admitEnvelope ::
  "envelope_wire \<Rightarrow> nat \<Rightarrow> nat \<Rightarrow> persistentStreamLane option \<Rightarrow> bytes \<Rightarrow> string + WireEnvelope" where
  "admitEnvelope W operatorID selfID expectedLane data =
     (case Decode W data of
        Inl _ \<Rightarrow> Inl ''decode''
      | Inr env \<Rightarrow>
          (case validateEnvelopePayload env of
             Inl _ \<Rightarrow> Inl ''payload''
           | Inr _ \<Rightarrow>
               (case validateAuthenticatedEnvelope operatorID selfID env of
                  Inl _ \<Rightarrow> Inl ''authentication''
                | Inr _ \<Rightarrow>
                    (case expectedLane of
                       None \<Rightarrow> Inr env
                     | Some lane \<Rightarrow>
                         (case classifyEnvelopeLane env of
                            Inl _ \<Rightarrow> Inl ''payload''
                          | Inr actual \<Rightarrow> if actual = lane then Inr env else Inl ''lane'')))))"

definition handleFreshStream ::
  "envelope_wire \<Rightarrow> int \<Rightarrow> ('pid, nat) gomap \<Rightarrow> nat \<Rightarrow> 'pid \<Rightarrow> bytes \<Rightarrow> string + (WireEnvelope \<times> nat)" where
  "handleFreshStream W maxBytes operators selfID remotePeer r =
     (case map_of operators remotePeer of
        None \<Rightarrow> Inl ''authentication''
      | Some operatorID \<Rightarrow>
          (case readBoundedEnvelope maxBytes r of
             Inl (EnvelopeTooLarge _) \<Rightarrow> Inl ''oversize''
           | Inl _ \<Rightarrow> Inl ''decode''
           | Inr data \<Rightarrow> and_then (admitEnvelope W operatorID selfID None data) (\<lambda>env. Inr (env, length data))))"

lemma readUvarint_shorter: "readUvarintFrom i x bs = Inr (n, rest) \<Longrightarrow> length rest < length bs"
  by (induction i x bs rule: readUvarintFrom.induct) (force split: if_splits)+

lemma readEnvelopeFrame_shorter: "readEnvelopeFrame m r = Inr (p, rest) \<Longrightarrow> length rest < length r"
  by (auto simp: readEnvelopeFrame_def ReadUvarint_def split: if_splits dest!: readUvarint_shorter)

text \<open>The loop over the frames: what is delivered, and the reason for the reset if there is one.\<close>

function receiveFrames ::
  "envelope_wire \<Rightarrow> int \<Rightarrow> nat \<Rightarrow> nat \<Rightarrow> persistentStreamLane option \<Rightarrow> bytes \<Rightarrow> (WireEnvelope \<times> nat) list \<times> string option" where
  "receiveFrames W maxBytes operatorID selfID lane r =
     (case readEnvelopeFrame maxBytes r of
        Inl FrameEOF \<Rightarrow> ([], None)
      | Inl (EnvelopeTooLarge _) \<Rightarrow> ([], Some ''oversize'')
      | Inl _ \<Rightarrow> ([], Some ''decode'')
      | Inr (data, rest) \<Rightarrow>
          (case admitEnvelope W operatorID selfID lane data of
             Inl reason \<Rightarrow> ([], Some reason)
           | Inr env \<Rightarrow>
               (case receiveFrames W maxBytes operatorID selfID lane rest of
                  (ds, reason) \<Rightarrow> ((env, length data) # ds, reason))))"
  by pat_completeness auto

termination receiveFrames
  by (relation "measure (\<lambda>(W, m, p, s, l, r). length r)") (auto dest: readEnvelopeFrame_shorter)

declare receiveFrames.simps [simp del]

definition handlePersistentStreamForLane ::
  "envelope_wire \<Rightarrow> int \<Rightarrow> ('pid, nat) gomap \<Rightarrow> nat \<Rightarrow> persistentStreamLane option \<Rightarrow> 'pid \<Rightarrow> bytes \<Rightarrow>
   (WireEnvelope \<times> nat) list \<times> string option" where
  "handlePersistentStreamForLane W maxBytes operators selfID lane remotePeer r =
     (case map_of operators remotePeer of
        None \<Rightarrow> ([], Some ''authentication'')
      | Some operatorID \<Rightarrow> receiveFrames W maxBytes operatorID selfID lane r)"

definition authenticatedOutboundEnvelope :: "nat \<Rightarrow> nat \<Rightarrow> WireEnvelope \<Rightarrow> WireEnvelope" where
  "authenticatedOutboundEnvelope from to env = env\<lparr>weFrom := from, weTo := to, weDirect := True\<rparr>"

text \<open>\<^verbatim>\<open>Send\<close> up to the write: the bytes and, in the mode with lanes, the lane they go to.\<close>

definition prepareSend ::
  "envelope_wire \<Rightarrow> ConfigFile \<Rightarrow> nat list \<Rightarrow> nat \<Rightarrow> nat \<Rightarrow> WireEnvelope \<Rightarrow> wire_error + (persistentStreamLane option \<times> bytes)" where
  "prepareSend W cfg peers selfID to env0 =
     and_then (ensure (to \<in> set peers) (UnknownPeer to)) (\<lambda>_.
     let env = authenticatedOutboundEnvelope selfID to env0 in
     and_then (if nwStreamMode (cfNetwork cfg) = ''persistent-lanes'' then and_then (classifyEnvelopeLane env) (Inr \<circ> Some) else Inr None)
       (\<lambda>lane.
     and_then (Encode W env) (\<lambda>data.
     and_then (ensure (int (length data) \<le> MaxEnvelopeBytes (cfLimits cfg)) (EnvelopeTooLarge (length data))) (\<lambda>_.
     Inr (lane, data)))))"

section \<open>Round trips\<close>

definition in64 :: "int \<Rightarrow> bool" where
  "in64 x \<longleftrightarrow> - (2 ^ 63) \<le> x \<and> x < 2 ^ 63"

text \<open>The integers of an envelope are Go \<^verbatim>\<open>int\<close>s.\<close>

definition go_msg :: "ACSMessage \<Rightarrow> bool" where
  "go_msg m =
     (case acsPayload m of
        AgreementPayload a \<Rightarrow> in64 (amEpoch a)
      | BroadcastPayload (ProofMsg p) \<Rightarrow> in64 (prIndex p) \<and> in64 (prLeaves p)
      | BroadcastPayload (EchoMsg p) \<Rightarrow> in64 (prIndex p) \<and> in64 (prLeaves p)
      | _ \<Rightarrow> True)"

definition go_ints :: "WireEnvelope \<Rightarrow> bool" where
  "go_ints env \<longleftrightarrow>
     (\<forall>s. weShare env = Some s \<longrightarrow> in64 (wsOperatorID s) \<and> in64 (wsSubBatchID s)) \<and>
     (\<forall>sm m. weACS env = Some sm \<and> smPayload sm = Some m \<longrightarrow> go_msg m)"

lemma int64_uint64: "in64 x \<Longrightarrow> int64_of (uint64_of x) = x"
proof -
  assume x: "in64 x"
  show ?thesis
  proof (cases "x < 0")
    case True
    have "(x + 2 ^ 64) mod 2 ^ 64 = x + 2 ^ 64" using x True by (intro mod_pos_pos_trivial) (auto simp: in64_def)
    then have "x mod 2 ^ 64 = x + 2 ^ 64" by simp
    then show ?thesis using x True by (auto simp: int64_of_def uint64_of_def in64_def nat_less_iff)
  next
    case False
    then have "x mod 2 ^ 64 = x" using x by (intro mod_pos_pos_trivial) (auto simp: in64_def)
    then show ?thesis using x False by (auto simp: int64_of_def uint64_of_def in64_def nat_less_iff)
  qed
qed

lemma proof_request_roundtrip:
  "in64 (prIndex p) \<Longrightarrow> in64 (prLeaves p) \<Longrightarrow> fromProtoProofRequest (Some (toProtoProofRequest p)) = p"
  by (simp add: fromProtoProofRequest_def toProtoProofRequest_def int64_uint64)

lemma slot_message_roundtrip:
  assumes "toProtoSlotMessage m = Inr p"
    and "\<And>x. smPayload m = Some x \<Longrightarrow> go_msg x"
  shows "fromProtoSlotMessage p = Inr m"
proof -
  from assms(1) obtain acs x where x: "smPayload m = Some x" "toProtoACSMessage (Some x) = Inr acs"
    "p = \<lparr>psSlot = smSlot m, psPayload = Some acs\<rparr>"
    by (cases "smPayload m") (auto simp: toProtoSlotMessage_def toProtoACSMessage_def)
  have "fromProtoACSMessage acs = Inr x"
  proof (cases "acsPayload x")
    case (AgreementPayload a)
    then show ?thesis using x(2) assms(2) [OF x(1)]
      by (cases "amMessage a") (auto simp: toProtoACSMessage_def toProtoAgreementMessage_def fromProtoACSMessage_def
        fromProtoAgreementMessage_def int64_uint64 go_msg_def)
  next
    case (BroadcastPayload b)
    then show ?thesis using x(2) assms(2) [OF x(1)]
      by (cases b) (auto simp: toProtoACSMessage_def toProtoBroadcastMessage_def fromProtoACSMessage_def
        fromProtoBroadcastMessage_def proof_request_roundtrip go_msg_def)
  next
    case UnknownACSPayload
    then show ?thesis using x(2) by (simp add: toProtoACSMessage_def)
  qed
  then show ?thesis using x by (simp add: fromProtoSlotMessage_def)
qed

text \<open>What the receiver can see of an envelope: the payload its kind names.\<close>

definition visible :: "WireEnvelope \<Rightarrow> WireEnvelope" where
  "visible env = (if weKind env = ''acs'' then env\<lparr>weShare := None\<rparr> else env\<lparr>weACS := None\<rparr>)"

lemma envelope_decode_encode:
  assumes "\<And>m b. ewMarshal W m = Some b \<Longrightarrow> ewUnmarshal W b = Some m" and "go_ints env" and "Encode W env = Inr b"
  shows "Decode W b = Inr (visible env)"
proof (cases "weKind env = ''acs''")
  case True
  then obtain m acs where m: "weACS env = Some m" "toProtoSlotMessage m = Inr acs"
    and b: "ewMarshal W \<lparr>pvVersion = envelopeVersion, pvFrom = weFrom env, pvTo = weTo env, pvDirect = weDirect env,
      pvKind = weKind env, pvSlot = weSlot env, pvPayload = Some (PbAcs acs)\<rparr> = Some b"
    using assms(3) by (auto simp: Encode_def split: option.splits)
  have "fromProtoSlotMessage acs = Inr m"
    using m assms(2) by (intro slot_message_roundtrip [OF m(2)]) (simp add: go_ints_def)
  then show ?thesis using assms(1) [OF b] True m by (simp add: Decode_def visible_def)
next
  case False
  then obtain s where s: "weShare env = Some s" "weKind env = ''share''"
    and b: "ewMarshal W \<lparr>pvVersion = envelopeVersion, pvFrom = weFrom env, pvTo = weTo env, pvDirect = weDirect env,
      pvKind = weKind env, pvSlot = weSlot env, pvPayload = Some (PbShare (toProtoWireShare s))\<rparr> = Some b"
    using assms(3) by (auto simp: Encode_def split: option.splits if_splits)
  have "fromProtoWireShare (toProtoWireShare s) = s"
    using assms(2) s by (simp add: go_ints_def fromProtoWireShare_def toProtoWireShare_def int64_uint64)
  then show ?thesis using assms(1) [OF b] False s by (simp add: Decode_def visible_def)
qed

lemma readUvarint_put:
  assumes "i \<le> 9" and "n * 2 ^ (7 * i) < 2 ^ 64"
  shows "readUvarintFrom i x (PutUvarint n @ rest) = Inr (x + n * 2 ^ (7 * i), rest)"
  using assms
proof (induction n arbitrary: i x rule: PutUvarint.induct)
  case (1 n)
  show ?case
  proof (cases "n < 128")
    case True
    have "n \<le> 1" if "i = 9" using 1(3) that by simp
    then show ?thesis using True 1(2) by (auto simp: PutUvarint.simps [of n] unat_of_byte)
  next
    case False
    have i: "i < 9"
    proof (rule ccontr)
      assume "\<not> i < 9"
      then have "i = 9" using 1(2) by simp
      then show False using 1(3) False by simp
    qed
    have u: "unat (of_nat (128 + n mod 128) :: byte) = 128 + n mod 128" by (rule unat_of_byte) simp
    have split_n: "n mod 128 * 2 ^ (7 * i) + n div 128 * 2 ^ (7 * Suc i) = n * 2 ^ (7 * i)"
    proof -
      have "n mod 128 * 2 ^ (7 * i) + n div 128 * 2 ^ (7 * Suc i) = (n mod 128 + n div 128 * 128) * 2 ^ (7 * i)"
        unfolding distrib_right by (simp add: power_add)
      then show ?thesis unfolding mod_div_mult_eq .
    qed
    then have "n div 128 * 2 ^ (7 * Suc i) < 2 ^ 64" using 1(3) by linarith
    from 1(1) [OF False _ this, of "x + n mod 128 * 2 ^ (7 * i)"] i u split_n
    show ?thesis using False by (simp add: PutUvarint.simps [of n] add.assoc)
  qed
qed

lemma read_written_frame:
  assumes "writeEnvelopeFrame p = Inr f" and "int (length p) \<le> m" and "m < 2 ^ 63"
  shows "readEnvelopeFrame m (f @ rest) = Inr (p, rest)"
proof -
  have p: "p \<noteq> []" "f = PutUvarint (length p) @ p" using assms(1) by (auto simp: writeEnvelopeFrame_def split: if_splits)
  have "length p * 2 ^ (7 * 0) < 2 ^ 64" using assms(2,3) by simp
  from readUvarint_put [OF _ this, of 0 "p @ rest"] have "ReadUvarint (f @ rest) = Inr (length p, p @ rest)"
    by (simp add: ReadUvarint_def p)
  moreover have "1 \<le> m" using p assms(2) by (cases p) auto
  ultimately show ?thesis using assms(2) p by (simp add: readEnvelopeFrame_def)
qed

lemma read_end: "1 \<le> m \<Longrightarrow> readEnvelopeFrame m [] = Inl FrameEOF"
  by (simp add: readEnvelopeFrame_def ReadUvarint_def)

text \<open>An envelope that leaves through \<open>prepareSend\<close> is admitted by the receiver it is addressed to.\<close>

lemma prepared_admitted:
  assumes "\<And>m b. ewMarshal W m = Some b \<Longrightarrow> ewUnmarshal W b = Some m" and "go_ints env"
    and "\<And>s. weShare env = Some s \<Longrightarrow> wsOperatorID s = int64_of sender"
    and "prepareSend W cfg peers sender to env = Inr (lane, data)"
  shows "admitEnvelope W sender to lane data = Inr (visible (authenticatedOutboundEnvelope sender to env))"
proof -
  let ?e = "authenticatedOutboundEnvelope sender to env"
  have enc: "Encode W ?e = Inr data" using assms(4) by (auto simp: prepareSend_def Let_def)
  have "go_ints ?e" using assms(2) by (auto simp: go_ints_def authenticatedOutboundEnvelope_def)
  from envelope_decode_encode [OF assms(1) this enc] have dec: "Decode W data = Inr (visible ?e)" .
  have val: "validateEnvelopePayload (visible ?e) = Inr ()"
    using enc by (auto simp: Encode_def validateEnvelopePayload_def visible_def split: if_splits option.splits)
  have auth: "validateAuthenticatedEnvelope sender to (visible ?e) = Inr ()"
    using assms(3) by (auto simp: validateAuthenticatedEnvelope_def visible_def authenticatedOutboundEnvelope_def split: option.splits)
  have lane: "classifyEnvelopeLane (visible ?e) = Inr l" if "lane = Some l" for l
  proof -
    have c: "classifyEnvelopeLane ?e = Inr l" using assms(4) that by (auto simp: prepareSend_def Let_def split: if_splits)
    then have "visible ?e = ?e"
      by (auto simp: classifyEnvelopeLane_def validateEnvelopePayload_def visible_def split: if_splits)
    with c show ?thesis by simp
  qed
  show ?thesis using dec val auth lane by (cases lane) (auto simp: admitEnvelope_def)
qed

lemma received_all:
  assumes law: "\<And>m b. ewMarshal W m = Some b \<Longrightarrow> ewUnmarshal W b = Some m"
    and max: "1 \<le> MaxEnvelopeBytes (cfLimits cfg)" "MaxEnvelopeBytes (cfLimits cfg) < 2 ^ 63"
  shows "each (prepareSend W cfg peers sender to) envs = Inr sent \<Longrightarrow> each (\<lambda>x. writeEnvelopeFrame (snd x)) sent = Inr frames \<Longrightarrow>
    \<forall>x \<in> set sent. fst x = l \<Longrightarrow>
    \<forall>e \<in> set envs. go_ints e \<and> (\<forall>s. weShare e = Some s \<longrightarrow> wsOperatorID s = int64_of sender) \<Longrightarrow>
    receiveFrames W (MaxEnvelopeBytes (cfLimits cfg)) sender to l (concat frames) =
      (zip (map (\<lambda>e. visible (authenticatedOutboundEnvelope sender to e)) envs) (map (\<lambda>x. length (snd x)) sent), None)"
proof (induction envs arbitrary: sent frames)
  case Nil
  then show ?case using max by (auto simp: receiveFrames.simps [of _ _ _ _ _ "[]"] read_end)
next
  case (Cons e envs)
  from Cons.prems(1) obtain lane data sent' where s: "prepareSend W cfg peers sender to e = Inr (lane, data)"
    "each (prepareSend W cfg peers sender to) envs = Inr sent'" "sent = (lane, data) # sent'" by auto
  from Cons.prems(2) s(3) obtain f frames' where f: "writeEnvelopeFrame data = Inr f"
    "each (\<lambda>x. writeEnvelopeFrame (snd x)) sent' = Inr frames'" "frames = f # frames'" by auto
  have len: "int (length data) \<le> MaxEnvelopeBytes (cfLimits cfg)" using s(1) by (auto simp: prepareSend_def Let_def)
  have l: "lane = l" "\<forall>x \<in> set sent'. fst x = l" using Cons.prems(3) s(3) by auto
  have "readEnvelopeFrame (MaxEnvelopeBytes (cfLimits cfg)) (f @ concat frames') = Inr (data, concat frames')"
    by (rule read_written_frame [OF f(1) len max(2)])
  moreover have "admitEnvelope W sender to l data = Inr (visible (authenticatedOutboundEnvelope sender to e))"
    using prepared_admitted [OF law _ _ s(1)] Cons.prems(4) l(1) by simp
  moreover have "receiveFrames W (MaxEnvelopeBytes (cfLimits cfg)) sender to l (concat frames') =
      (zip (map (\<lambda>e. visible (authenticatedOutboundEnvelope sender to e)) envs) (map (\<lambda>x. length (snd x)) sent'), None)"
    using Cons.prems(4) by (intro Cons.IH [OF s(2) f(2) l(2)]) simp
  ultimately show ?case by (simp add: receiveFrames.simps [of _ _ _ _ _ "f @ concat frames'"] s(3) f(3))
qed

section \<open>Properties\<close>

text \<open>
  Delivery over a persistent stream: envelopes that one operator prepares for another and
  writes as frames on the stream (of the lane they are classified to, in the mode with lanes)
  arrive in order, none lost, none duplicated, each with the sender and the recipient set and
  with the payload its kind names, and the stream is not reset.
\<close>

theorem stream_delivers:
  assumes "\<And>m b. ewMarshal W m = Some b \<Longrightarrow> ewUnmarshal W b = Some m"
    and "validateResourceLimits (cfLimits cfg) = Inr ()"
    and "map_of operators pid = Some sender"
    and "each (prepareSend W cfg peers sender to) envs = Inr sent"
    and "each (\<lambda>x. writeEnvelopeFrame (snd x)) sent = Inr frames"
    and "\<forall>x \<in> set sent. fst x = l"
    and "\<forall>e \<in> set envs. go_ints e \<and> (\<forall>s. weShare e = Some s \<longrightarrow> wsOperatorID s = int64_of sender)"
  shows "handlePersistentStreamForLane W (MaxEnvelopeBytes (cfLimits cfg)) operators to l pid (concat frames) =
    (zip (map (\<lambda>e. visible (authenticatedOutboundEnvelope sender to e)) envs) (map (\<lambda>x. length (snd x)) sent), None)"
proof -
  have "1 \<le> MaxEnvelopeBytes (cfLimits cfg)" "MaxEnvelopeBytes (cfLimits cfg) < 2 ^ 63"
    using assms(2) by (auto simp: validateResourceLimits_def absoluteMaxEnvelopeBytes_def)
  from received_all [OF assms(1) this assms(4-7)] show ?thesis
    using assms(3) by (simp add: handlePersistentStreamForLane_def)
qed

lemma admitted_sound:
  assumes "admitEnvelope W op self lane data = Inr env"
  shows "weFrom env = op \<and> weTo env = self \<and> weDirect env \<and>
    (\<forall>s. weShare env = Some s \<longrightarrow> wsOperatorID s = int64_of op) \<and>
    (weKind env = ''acs'' \<and> weACS env \<noteq> None \<and> weShare env = None \<or>
     weKind env = ''share'' \<and> weShare env \<noteq> None \<and> weACS env = None) \<and>
    (\<forall>l. lane = Some l \<longrightarrow> classifyEnvelopeLane env = Inr l)"
proof -
  have e: "validateEnvelopePayload env = Inr ()" "validateAuthenticatedEnvelope op self env = Inr ()"
    "\<forall>l. lane = Some l \<longrightarrow> classifyEnvelopeLane env = Inr l"
    using assms by (auto simp: admitEnvelope_def split: sum.splits option.splits if_splits)
  from e(1) have "weKind env = ''acs'' \<and> weACS env \<noteq> None \<and> weShare env = None \<or>
      weKind env = ''share'' \<and> weShare env \<noteq> None \<and> weACS env = None"
    by (auto simp: validateEnvelopePayload_def split: if_splits)
  moreover from e(2) have "weFrom env = op \<and> weTo env = self \<and> weDirect env \<and>
      (\<forall>s. weShare env = Some s \<longrightarrow> wsOperatorID s = int64_of op)"
    by (auto simp: validateAuthenticatedEnvelope_def split: option.splits)
  ultimately show ?thesis using e(3) by blast
qed

lemma received_admitted:
  "(env, n) \<in> set (fst (receiveFrames W m op self lane r)) \<Longrightarrow>
   \<exists>data. admitEnvelope W op self lane data = Inr env \<and> n = length data \<and> int n \<le> m"
proof (induction W m op self lane r rule: receiveFrames.induct)
  case (1 W m op self lane r)
  show ?case
  proof (cases "readEnvelopeFrame m r")
    case (Inl e)
    then show ?thesis using 1(2) by (simp add: receiveFrames.simps [of W m op self lane r] split: wire_error.splits)
  next
    case (Inr x)
    obtain data rest where x: "x = (data, rest)" by force
    have len: "int (length data) \<le> m"
      using Inr x by (auto simp: readEnvelopeFrame_def split: if_splits)
    show ?thesis
    proof (cases "admitEnvelope W op self lane data")
      case (Inl reason)
      then show ?thesis using 1(2) Inr x by (simp add: receiveFrames.simps [of W m op self lane r])
    next
      case admitted: (Inr env')
      have "(env, n) = (env', length data) \<or> (env, n) \<in> set (fst (receiveFrames W m op self lane rest))"
        using 1(2) Inr x admitted by (auto simp: receiveFrames.simps [of W m op self lane r] split: prod.splits)
      then show ?thesis using 1(1) [OF Inr x [symmetric] admitted] admitted len by auto
    qed
  qed
qed

lemma fresh_admitted:
  assumes "handleFreshStream W m operators self pid r = Inr (env, n)"
  shows "\<exists>op data. map_of operators pid = Some op \<and> admitEnvelope W op self None data = Inr env \<and> int n \<le> m"
proof -
  from assms obtain op where op: "map_of operators pid = Some op" by (auto simp: handleFreshStream_def split: option.splits)
  show ?thesis
  proof (cases "readBoundedEnvelope m r")
    case (Inl e)
    then show ?thesis using assms op by (cases e) (simp_all add: handleFreshStream_def)
  next
    case (Inr data)
    then have "int (length data) \<le> m" by (auto simp: readBoundedEnvelope_def Let_def split: if_splits)
    then show ?thesis using assms op Inr by (auto simp: handleFreshStream_def)
  qed
qed

text \<open>
  C16. Authentication at the transport: whatever bytes arrive on a stream, fresh or persistent, an
  envelope reaches the handler only from a configured peer; it names that operator as its
  sender, this node as its recipient, carries exactly the payload of its kind, a share only of the
  sending operator, is within the size limit, and on a lane belongs to that lane.
\<close>

theorem stream_authentic:
  assumes "(env, n) \<in> set (fst (handlePersistentStreamForLane W m operators self lane pid r)) \<or>
    handleFreshStream W m operators self pid r = Inr (env, n) \<and> lane = None"
  shows "\<exists>op. map_of operators pid = Some op \<and> weFrom env = op \<and> weTo env = self \<and> weDirect env \<and> int n \<le> m \<and>
    (\<forall>s. weShare env = Some s \<longrightarrow> wsOperatorID s = int64_of op) \<and>
    (weKind env = ''acs'' \<and> weACS env \<noteq> None \<and> weShare env = None \<or>
     weKind env = ''share'' \<and> weShare env \<noteq> None \<and> weACS env = None) \<and>
    (\<forall>l. lane = Some l \<longrightarrow> classifyEnvelopeLane env = Inr l)"
proof -
  have "\<exists>op data. map_of operators pid = Some op \<and> admitEnvelope W op self lane data = Inr env \<and> int n \<le> m"
    using assms
  proof
    assume a: "(env, n) \<in> set (fst (handlePersistentStreamForLane W m operators self lane pid r))"
    then show ?thesis
    proof (cases "map_of operators pid")
      case (Some op)
      with a have "(env, n) \<in> set (fst (receiveFrames W m op self lane r))" by (simp add: handlePersistentStreamForLane_def)
      from received_admitted [OF this] Some show ?thesis by auto
    qed (simp add: handlePersistentStreamForLane_def)
  next
    assume "handleFreshStream W m operators self pid r = Inr (env, n) \<and> lane = None"
    then show ?thesis using fresh_admitted [of W m operators self pid r env n] by simp
  qed
  then obtain op data where "map_of operators pid = Some op" "admitEnvelope W op self lane data = Inr env" "int n \<le> m" by blast
  with admitted_sound [OF this(2)] show ?thesis by (intro exI [of _ op]) simp
qed

section \<open>A stream with two envelopes\<close>

definition demo_share_env :: WireEnvelope where
  "demo_share_env = \<lparr>weFrom = 0, weTo = 0, weDirect = False, weKind = ''share'', weSlot = 7, weACS = None,
     weShare = Some \<lparr>wsOperatorID = 1, wsBatchIDHex = ''ab'', wsSubBatchID = 0, wsPointHex = ''cd''\<rparr>\<rparr>"

definition demo_bval_env :: WireEnvelope where
  "demo_bval_env = \<lparr>weFrom = 0, weTo = 0, weDirect = False, weKind = ''acs'', weSlot = 7,
     weACS = Some \<lparr>smSlot = 7, smPayload = Some \<lparr>acsProposerID = 3,
       acsPayload = AgreementPayload \<lparr>amEpoch = 0, amMessage = BvalRequest True\<rparr>\<rparr>\<rparr>, weShare = None\<rparr>"

definition demo_pbs :: "pb_Payload \<Rightarrow> string \<Rightarrow> pb_Envelope" where
  "demo_pbs p k = \<lparr>pvVersion = 1, pvFrom = 1, pvTo = 2, pvDirect = True, pvKind = k, pvSlot = 7, pvPayload = Some p\<rparr>"

definition demo_pb_share :: pb_Envelope where
  "demo_pb_share = demo_pbs (PbShare \<lparr>pwOperatorId = 1, pwBatchIdHex = ''ab'', pwSubBatchId = 0, pwPointHex = ''cd''\<rparr>) ''share''"

definition demo_pb_bval :: pb_Envelope where
  "demo_pb_bval = demo_pbs (PbAcs \<lparr>psSlot = 7, psPayload = Some \<lparr>pmProposerId = 3,
     pmPayload = Some (PbAgreement \<lparr>paEpoch = 0, paMessage = Some (PbBval True)\<rparr>)\<rparr>\<rparr>) ''acs''"

definition demo_env_wire :: envelope_wire where
  "demo_env_wire = \<lparr>ewMarshal = (\<lambda>m. if m = demo_pb_share then Some [5, 6] else if m = demo_pb_bval then Some [7] else None),
     ewUnmarshal = (\<lambda>b. if b = [5, 6] then Some demo_pb_share else if b = [7] then Some demo_pb_bval else None)\<rparr>"

lemma demo_env_wire_law: "ewMarshal demo_env_wire m = Some b \<Longrightarrow> ewUnmarshal demo_env_wire b = Some m"
  by (auto simp: demo_env_wire_def split: if_splits)

lemma demo_encodes:
  "Encode demo_env_wire (authenticatedOutboundEnvelope 1 2 demo_share_env) = Inr [5, 6]"
  "Encode demo_env_wire (authenticatedOutboundEnvelope 1 2 demo_bval_env) = Inr [7]"
  by (simp_all add: Encode_def authenticatedOutboundEnvelope_def demo_share_env_def demo_bval_env_def toProtoWireShare_def uint64_of_def
    toProtoSlotMessage_def toProtoACSMessage_def toProtoAgreementMessage_def envelopeVersion_def Let_def demo_env_wire_def
    demo_pb_share_def demo_pb_bval_def demo_pbs_def)

lemma demo_prepared:
  "each (prepareSend demo_env_wire demo_config [1, 2] 1 2) [demo_share_env, demo_bval_env] = Inr [(None, [5, 6]), (None, [7])]"
  "each (\<lambda>x. writeEnvelopeFrame (snd x)) [(None :: persistentStreamLane option, [5, 6]), (None, [7])] = Inr [[2, 5, 6], [1, 7]]"
  "validateResourceLimits (cfLimits demo_config) = Inr ()"
  using default_limits_valid demo_encodes
  by (simp_all add: prepareSend_def Let_def demo_config_def defaultResourceLimits_def defaultMaxEnvelopeBytes_def
    writeEnvelopeFrame_def PutUvarint.simps)

lemma demo_own:
  "\<forall>e \<in> set [demo_share_env, demo_bval_env]. go_ints e \<and> (\<forall>s. weShare e = Some s \<longrightarrow> wsOperatorID s = int64_of 1)"
  by (simp add: demo_share_env_def demo_bval_env_def go_ints_def go_msg_def in64_def int64_of_def)

theorem stream_delivers_witness:
  "handlePersistentStreamForLane demo_env_wire 16777216 [(''peer1'', 1)] 2 None ''peer1'' [2, 5, 6, 1, 7] =
   ([(demo_share_env\<lparr>weFrom := 1, weTo := 2, weDirect := True\<rparr>, 2),
     (demo_bval_env\<lparr>weFrom := 1, weTo := 2, weDirect := True\<rparr>, 1)], None)"
proof -
  have max: "MaxEnvelopeBytes (cfLimits demo_config) = 16777216"
    by (simp add: demo_config_def defaultResourceLimits_def defaultMaxEnvelopeBytes_def)
  have op: "map_of [(''peer1'', 1)] ''peer1'' = Some 1" by simp
  have "\<forall>x \<in> set [(None :: persistentStreamLane option, [5, 6 :: byte]), (None, [7])]. fst x = None" by simp
  from stream_delivers [OF demo_env_wire_law demo_prepared(3) op demo_prepared(1,2) this demo_own] max
  show ?thesis
    by (simp add: visible_def authenticatedOutboundEnvelope_def) (simp add: demo_share_env_def demo_bval_env_def)
qed

lemma demo_received:
  "(demo_share_env\<lparr>weFrom := 1, weTo := 2, weDirect := True\<rparr>, 2) \<in>
     set (fst (handlePersistentStreamForLane demo_env_wire 16777216 [(''peer1'', 1)] 2 None ''peer1'' [2, 5, 6, 1, 7]))"
proof -
  have "readEnvelopeFrame 16777216 [2, 5, 6, 1, 7] = Inr ([5, 6], [1, 7])"
    by (simp add: readEnvelopeFrame_def ReadUvarint_def)
  moreover have "admitEnvelope demo_env_wire 1 2 None [5, 6] = Inr (demo_share_env\<lparr>weFrom := 1, weTo := 2, weDirect := True\<rparr>)"
    by (simp add: admitEnvelope_def Decode_def demo_env_wire_def demo_pb_share_def demo_pbs_def envelopeVersion_def Let_def
      fromProtoWireShare_def int64_of_def validateEnvelopePayload_def validateAuthenticatedEnvelope_def demo_share_env_def)
  ultimately show ?thesis
    by (simp add: handlePersistentStreamForLane_def receiveFrames.simps [of _ _ _ _ _ "[2, 5, 6, 1, 7]"] split: prod.splits)
qed

theorem stream_authentic_witness:
  "\<exists>op. map_of [(''peer1'', 1 :: nat)] ''peer1'' = Some op \<and> weFrom (demo_share_env\<lparr>weFrom := 1, weTo := 2, weDirect := True\<rparr>) = op"
  using stream_authentic [OF disjI1 [OF demo_received]] by blast

end
