(* ===== verification/Bte_Correct.thy ===== *)
theory Bte_Correct
  imports Complex_Main Bte_Crypto
begin

text \<open>
  Correctness of batched threshold encryption: what the curve library is relied on for, the
  public setup and its round trip, completeness of the proof attached to a ciphertext, and the
  decryption of a batch from any threshold of shares.
\<close>

section \<open>What the library provides\<close>

definition scalar_laws :: "('s::field \<Rightarrow> 'p::ab_group_add \<Rightarrow> 'p) \<Rightarrow> bool" where
  "scalar_laws mul \<longleftrightarrow>
     (\<forall>s t p. mul (s + t) p = mul s p + mul t p) \<and> (\<forall>s p q. mul s (p + q) = mul s p + mul s q) \<and>
     (\<forall>s t p. mul s (mul t p) = mul (s * t) p)"

definition pairing_laws :: "('s::field, 'a::ab_group_add, 'b::ab_group_add, 'c::ab_group_add) suite \<Rightarrow> bool" where
  "pairing_laws S \<longleftrightarrow>
     scalar_laws (g1Mul S) \<and> scalar_laws (g2Mul S) \<and> scalar_laws (gtMul S) \<and>
     (\<forall>p q r. suPair S (p + q) r = suPair S p r + suPair S q r) \<and>
     (\<forall>s t p q. suPair S (g1Mul S s p) (g2Mul S t q) = gtMul S (s * t) (suPair S p q)) \<and>
     (\<forall>t p q. suPair S p (g2Mul S t q) = gtMul S t (suPair S p q))"

text \<open>
  The shares carry the indices below their number, and any threshold of the shares of a secret
  recovers the multiple of a point by the secret.
\<close>

definition sharing_laws :: "('s, 'a, 'b, 'c) suite \<Rightarrow> bool" where
  "sharing_laws S \<longleftrightarrow>
     (\<forall>coeffs n. fst ` set (shPriShares S coeffs n) \<subseteq> {..<n}) \<and>
     (\<forall>coeffs n sel P. coeffs \<noteq> [] \<and> length sel = length coeffs \<and> distinct (map fst sel) \<and>
        set sel \<subseteq> set (shPriShares S coeffs n) \<longrightarrow>
        shRecoverCommit S (map (\<lambda>(i, v). (i, g1Mul S v P)) sel) (length coeffs) n = Some (g1Mul S (hd coeffs) P))"

text \<open>Points whose encoding is short enough and decodes to the point again.\<close>

definition encodable :: "('p \<Rightarrow> bytes option) \<Rightarrow> (bytes \<Rightarrow> 'p option) \<Rightarrow> 'p \<Rightarrow> bool" where
  "encodable m u p \<longleftrightarrow> (\<exists>e. m p = Some e \<and> length e \<le> maxCRSPointBytes \<and> u e = Some p)"

definition crs_encodable :: "('s, 'a, 'b, 'c) suite \<Rightarrow> ('s, 'a, 'b, 'c) PRF \<Rightarrow> bool" where
  "crs_encodable S f \<longleftrightarrow>
     (\<forall>p \<in> set (prfG1xi f). encodable (g1Marshal S) (g1Unmarshal S) p) \<and>
     (\<forall>p \<in> set (prfG2zi f). encodable (g2Marshal S) (g2Unmarshal S) p) \<and>
     (\<forall>p \<in> ran (map_of (prfG2zixj f)). encodable (g2Marshal S) (g2Unmarshal S) p)"

lemma scalar_zero: "scalar_laws mul \<Longrightarrow> mul 0 p = 0"
  unfolding scalar_laws_def by (metis add.right_neutral add_left_cancel)

lemma scalar_zero_point: "scalar_laws mul \<Longrightarrow> mul s 0 = 0"
  unfolding scalar_laws_def by (metis add.right_neutral add_left_cancel)

lemma scalar_sum: "scalar_laws mul \<Longrightarrow> mul (sum_list ss) p = sum_list (map (\<lambda>s. mul s p) ss)"
  by (induction ss) (simp_all add: scalar_zero, simp add: scalar_laws_def)

lemma scalar_sum_points: "scalar_laws mul \<Longrightarrow> mul s (sum_list ps) = sum_list (map (mul s) ps)"
  by (induction ps) (simp_all add: scalar_zero_point, simp add: scalar_laws_def)

lemma pairing_lawsD:
  assumes "pairing_laws S"
  shows "scalar_laws (g1Mul S)" "scalar_laws (g2Mul S)" "scalar_laws (gtMul S)"
    "suPair S (p + q) r = suPair S p r + suPair S q r"
    "suPair S (g1Mul S s p) (g2Mul S t q') = gtMul S (s * t) (suPair S p q')"
    "suPair S p (g2Mul S t q') = gtMul S t (suPair S p q')"
  using assms by (auto simp: pairing_laws_def)

section \<open>The public setup\<close>

text \<open>
  A setup is well formed when its points are multiples of the bases by some trapdoors; the
  trapdoors themselves need not be stored.
\<close>

definition crs_for :: "('s::field, 'a, 'b, 'c) suite \<Rightarrow> 's list \<Rightarrow> 's list \<Rightarrow> ('s, 'a, 'b, 'c) PRF \<Rightarrow> bool" where
  "crs_for S xi zi f \<longleftrightarrow>
     length xi = length zi \<and> 0 \<notin> set xi \<and> prfB f = int (length zi) \<and>
     prfG1xi f = map (\<lambda>x. g1Mul S x (g1Base S)) xi \<and> prfG2zi f = map (\<lambda>z. g2Mul S z (g2Base S)) zi \<and>
     prfGTzi f = map (\<lambda>z. gtMul S z (GTBase S)) zi \<and>
     (\<forall>i < length zi. \<forall>j < length zi. map_of (prfG2zixj f) (i, j) = Some (g2Mul S (zi ! i / xi ! j) (g2Base S)))"

lemma map_of_putAll: "map_of (putAll kvs m) k = (case map_of (rev kvs) k of None \<Rightarrow> map_of m k | Some v \<Rightarrow> Some v)"
  unfolding putAll_def
  by (induction kvs arbitrary: m) (auto simp: map_add_def split: option.splits)

lemma putAll_append: "putAll (xs @ ys) m = putAll ys (putAll xs m)"
  by (simp add: putAll_def)

lemma fold_putAll: "fold putAll xss m = putAll (concat xss) m"
  by (induction xss arbitrary: m) (simp_all add: putAll_append putAll_def)

lemma worker_ranges: "concat (map (\<lambda>p. [workerStart B p..<workerEnd B p]) [0..<setupPAR]) = [0..<B]"
proof -
  let ?q = "B div 16"
  have q: "15 * ?q \<le> B" by simp
  have "concat (map (\<lambda>p. [p * ?q..<(p + 1) * ?q]) [0..<n]) = [0..<n * ?q]" for n
  proof (induction n)
    case (Suc n)
    have "[0..<Suc n * ?q] = [0..<n * ?q] @ [n * ?q..<n * ?q + ?q]"
      by (metis add.commute le0 mult_Suc upt_add_eq_append)
    then show ?case using Suc by (simp add: add.commute)
  qed simp
  from this [of 15] have "concat (map (\<lambda>p. [workerStart B p..<workerEnd B p]) [0..<15]) = [0..<15 * ?q]"
    by (simp add: workerStart_def workerEnd_def setupPAR_def upt_conv_Cons)
  moreover have "[0..<setupPAR] = [0..<15] @ [15]" by (simp add: setupPAR_def upt_conv_Cons)
  moreover have "[workerStart B 15..<workerEnd B 15] = [15 * ?q..<B]" by (simp add: workerStart_def workerEnd_def setupPAR_def)
  moreover have "[0..<B] = [0..<15 * ?q] @ [15 * ?q..<B]" using q by (metis le_add_diff_inverse upt_add_eq_append le0)
  ultimately show ?thesis by simp
qed

lemma concat_map_concat: "concat (map (\<lambda>p. concat (map f (g p))) ps) = concat (map f (concat (map g ps)))"
  by (induction ps) simp_all

lemma setup_parallel_rows:
  "fold putAll (map (\<lambda>p. concat (map row [workerStart B p..<workerEnd B p])) [0..<setupPAR]) [] =
   putAll (concat (map row [0..<B])) []"
proof -
  have "concat (map (\<lambda>p. concat (map row [workerStart B p..<workerEnd B p])) [0..<setupPAR]) =
      concat (map row (concat (map (\<lambda>p. [workerStart B p..<workerEnd B p]) [0..<setupPAR])))"
    by (rule concat_map_concat)
  then show ?thesis by (simp only: fold_putAll worker_ranges)
qed

lemma cross_keys: "map fst (concat (map (crossRow S B xi zi) [0..<n])) = List.product [0..<n] [0..<B]"
  by (induction n) (simp_all add: crossRow_def crossPoint_def comp_def product_concat_map)

lemma cross_lookup:
  assumes "i < B" and "j < B"
  shows "map_of (putAll (concat (map (crossRow S B xi zi) [0..<B])) []) (i, j) = Some (g2Mul S (zi ! i / xi ! j) (g2Base S))"
proof -
  let ?kvs = "concat (map (crossRow S B xi zi) [0..<B])"
  have "distinct (map fst ?kvs)" unfolding cross_keys by (simp add: distinct_product)
  then have "distinct (map fst (rev ?kvs))" by (simp add: rev_map [symmetric])
  moreover have "((i, j), g2Mul S (zi ! i / xi ! j) (g2Base S)) \<in> set (rev ?kvs)"
    using assms by (auto simp: crossRow_def crossPoint_def intro!: bexI [of _ i] image_eqI [of _ _ j])
  ultimately have "map_of (rev ?kvs) (i, j) = Some (g2Mul S (zi ! i / xi ! j) (g2Base S))" by (rule map_of_is_SomeI)
  then show ?thesis by (simp add: map_of_putAll)
qed

lemma setup_crs:
  assumes "length xi = B" and "length zi = B" and "0 \<notin> set xi"
  shows "crs_for S xi zi (PRFSetup S B par xi zi)"
  using assms cross_lookup [of _ B _ S xi zi]
  by (cases par) (simp_all add: crs_for_def PRFSetup_def Let_def setup_parallel_rows)

lemma seed_crs:
  assumes "0 \<notin> scalarFromSeed S seed ''xi'' ` {..<B}"
  shows "crs_for S (map (scalarFromSeed S seed ''xi'') [0..<B]) (map (scalarFromSeed S seed ''zi'') [0..<B])
    (PRFSetupFromSeed S B seed)"
  using assms cross_lookup [of _ B _ S "map (scalarFromSeed S seed ''xi'') [0..<B]" "map (scalarFromSeed S seed ''zi'') [0..<B]"]
  by (auto simp: crs_for_def PRFSetupFromSeed_def Let_def image_iff)

section \<open>Ciphertexts\<close>

lemma SHash_proof_irrelevant [simp]: "SHash b pk (c\<lparr>ctPi := q\<rparr>) Ap Bp yp = SHash b pk c Ap Bp yp"
  by (simp add: SHash_def)

record ('s, 'c) enc_input =
  inI :: int
  inM :: 'c
  inK :: 's
  inU :: 's
  inUN :: 's
  inKN :: 's

definition encOf :: "('s::field, 'a::ab_group_add, 'b, 'c::ab_group_add) BTD \<Rightarrow> 'a \<Rightarrow> ('s, 'c) enc_input \<Rightarrow> bte_error + ('s, 'a, 'c) CT" where
  "encOf b pk r = BTD_Enc b pk (inI r) (inM r) (inK r) (inU r) (inUN r) (inKN r)"

lemma enc_parts:
  assumes "encOf b pk r = Inr ct" and "crs_for (btdSuite b) xi zi (btdPRF b)" and "pairing_laws (btdSuite b)"
  shows "0 \<le> inI r" "inI r < int (length zi)" "ctI ct = inI r"
    "ctC ct = eg_Enc (btdSuite b) pk (g1Mul (btdSuite b) (inK r) (g1Base (btdSuite b))) (inU r)"
    "ctKp ct = g1Mul (btdSuite b) (inK r * xi ! nat (inI r)) (g1Base (btdSuite b))"
    "ctGamma ct = gtMul (btdSuite b) (inK r * zi ! nat (inI r)) (GTBase (btdSuite b)) + inM r"
proof -
  have dom: "0 \<le> inI r" "inI r < prfB (btdPRF b)"
    using assms(1) by (auto simp: encOf_def BTD_Enc_def Let_def Puncture_def split: if_splits)
  then show "0 \<le> inI r" "inI r < int (length zi)" using assms(2) by (auto simp: crs_for_def)
  then have n: "nat (inI r) < length zi" by simp
  have laws: "g1Mul (btdSuite b) s (g1Mul (btdSuite b) s' p) = g1Mul (btdSuite b) (s * s') p"
    "gtMul (btdSuite b) s (gtMul (btdSuite b) s' q) = gtMul (btdSuite b) (s * s') q" for s s' p q
    using assms(3) by (auto simp: pairing_laws_def scalar_laws_def)
  show "ctI ct = inI r"
    "ctC ct = eg_Enc (btdSuite b) pk (g1Mul (btdSuite b) (inK r) (g1Base (btdSuite b))) (inU r)"
    "ctKp ct = g1Mul (btdSuite b) (inK r * xi ! nat (inI r)) (g1Base (btdSuite b))"
    "ctGamma ct = gtMul (btdSuite b) (inK r * zi ! nat (inI r)) (GTBase (btdSuite b)) + inM r"
    using assms(1,2) dom n
    by (auto simp: encOf_def BTD_Enc_def Let_def Puncture_def prf_Eval_def crs_for_def laws split: if_splits)
qed

text \<open>The proof attached to an honest ciphertext verifies.\<close>

lemma enc_verifies:
  assumes enc: "encOf b (egPK (btdEG b)) r = Inr ct" and "prfB (btdPRF b) = btdB b" and "pairing_laws (btdSuite b)"
  shows "VerifyCT b ct = Inr True"
proof -
  let ?S = "btdSuite b" and ?pk = "egPK (btdEG b)" and ?x = "prfG1xi (btdPRF b) ! nat (inI r)"
  have laws: "g1Mul ?S s (g1Mul ?S s' p) = g1Mul ?S (s * s') p" "g1Mul ?S s (p + q) = g1Mul ?S s p + g1Mul ?S s q"
    "g1Mul ?S (s + s') p = g1Mul ?S s p + g1Mul ?S s' p" for s s' p q
    using assms(3) by (auto simp: pairing_laws_def scalar_laws_def)
  let ?ct = "\<lparr>ctI = inI r, ctGamma = ctGamma ct, ctKp = g1Mul ?S (inK r) ?x,
      ctC = eg_Enc ?S ?pk (g1Mul ?S (inK r) (g1Base ?S)) (inU r),
      ctPi = \<lparr>piAp = 0, piBp = 0, piYp = 0, piKHat = 0, piUHat = 0\<rparr>\<rparr>"
  obtain h where dom: "0 \<le> inI r" "inI r < prfB (btdPRF b)"
    and h: "SHash b ?pk ?ct (g1Mul ?S (inUN r) (g1Base ?S)) (g1Mul ?S (inUN r) ?pk + g1Mul ?S (inKN r) (g1Base ?S))
      (g1Mul ?S (inKN r) ?x) = Inr h"
    and ct: "ct = ?ct\<lparr>ctPi := \<lparr>piAp = g1Mul ?S (inUN r) (g1Base ?S),
        piBp = g1Mul ?S (inUN r) ?pk + g1Mul ?S (inKN r) (g1Base ?S), piYp = g1Mul ?S (inKN r) ?x,
        piKHat = inKN r + inK r * h, piUHat = inUN r + inU r * h\<rparr>\<rparr>"
    using enc by (auto simp: encOf_def BTD_Enc_def Let_def Puncture_def prf_Eval_def split: if_splits)
  have "VerifyCT b (?ct\<lparr>ctPi := \<lparr>piAp = g1Mul ?S (inUN r) (g1Base ?S),
        piBp = g1Mul ?S (inUN r) ?pk + g1Mul ?S (inKN r) (g1Base ?S), piYp = g1Mul ?S (inKN r) ?x,
        piKHat = inKN r + inK r * h, piUHat = inUN r + inU r * h\<rparr>\<rparr>) = Inr True"
    using dom assms(2) h
    by (simp add: VerifyCT_def Let_def eg_Enc_def laws mult.commute add.assoc add.left_commute del: CT.update_convs(5))
  then show ?thesis using ct by simp
qed

lemma sumEG_verified:
  assumes "\<And>ct. ct \<in> set cts \<Longrightarrow> VerifyCT b ct = Inr True"
  shows "sumEGFrom b v acc cts =
    Inr \<lparr>egA = egA acc + sum_list (map (egA \<circ> ctC) cts), egB = egB acc + sum_list (map (egB \<circ> ctC) cts)\<rparr>"
  using assms by (induction cts arbitrary: acc) (auto simp: AddCT_def add.assoc)

lemma distinct_indices: "validateDistinctIndices seen cts = Inr () \<longleftrightarrow> distinct (map ctI cts) \<and> set (map ctI cts) \<inter> set seen = {}"
  by (induction seen cts rule: validateDistinctIndices.induct) auto

section \<open>Decryption of a batch\<close>

text \<open>An honest batch: ciphertexts encrypted under the key of the instance, with distinct indices.\<close>

definition honest_batch ::
  "('s::field, 'a::ab_group_add, 'b, 'c::ab_group_add) BTD \<Rightarrow> ('s, 'c) enc_input list \<Rightarrow> ('s, 'a, 'c) CT list \<Rightarrow> bool" where
  "honest_batch b rs cts \<longleftrightarrow> each (encOf b (egPK (btdEG b))) rs = Inr cts \<and> distinct (map inI rs)"

lemma honest_indices:
  assumes "honest_batch b rs cts" and "crs_for (btdSuite b) xi zi (btdPRF b)" and "pairing_laws (btdSuite b)"
  shows "map ctI cts = map inI rs"
  using assms enc_parts(3) [OF _ assms(2,3)]
  by (auto simp: honest_batch_def each_Inr_iff list_all2_conv_all_nth intro!: nth_equalityI)

lemma PEval_honest:
  assumes "encOf b pk r = Inr ct" and crs: "crs_for (btdSuite b) xi zi (btdPRF b)" and laws: "pairing_laws (btdSuite b)"
    and i: "0 \<le> i" "i < int (length zi)" "inI r \<noteq> i"
  shows "PEval (btdSuite b) (btdPRF b) (ctKp ct) (ctI ct) i =
    Some (Inr (gtMul (btdSuite b) (inK r * zi ! nat i) (GTBase (btdSuite b))))"
proof -
  note parts = enc_parts [OF assms(1) crs laws]
  have j: "nat (inI r) < length zi" "nat i < length zi" using parts(1,2) i by auto
  have "xi ! nat (inI r) \<noteq> 0" using crs j(1) by (metis crs_for_def nth_mem)
  then have "inK r * xi ! nat (inI r) * (zi ! nat i / xi ! nat (inI r)) = inK r * zi ! nat i" by simp
  then show ?thesis
    using crs j i parts by (simp add: PEval_def crs_for_def pairing_lawsD(5) [OF laws] GTBase_def)
qed

lemma sumPEvals_honest:
  assumes "list_all2 (\<lambda>r ct. encOf b pk r = Inr ct) rs cts" and crs: "crs_for (btdSuite b) xi zi (btdPRF b)"
    and laws: "pairing_laws (btdSuite b)" and i: "0 \<le> i" "i < int (length zi)"
  shows "sumPEvals b i cts acc cnt =
    Some (Inr (acc + sum_list (map (\<lambda>r. gtMul (btdSuite b) (inK r * zi ! nat i) (GTBase (btdSuite b)))
            (filter (\<lambda>r. inI r \<noteq> i) rs))),
          cnt + length (filter (\<lambda>r. inI r \<noteq> i) rs))"
  using assms(1)
proof (induction rs cts arbitrary: acc cnt rule: list_all2_induct)
  case (Cons r rs ct cts)
  have "ctI ct = inI r" using enc_parts(3) [OF Cons.hyps(1) crs laws] .
  then show ?case
    using Cons PEval_honest [OF Cons.hyps(1) crs laws i] by (cases "inI r = i") (simp_all add: add.assoc)
qed simp

lemma sum_list_remove_one:
  fixes g :: "'x \<Rightarrow> 'c::ab_group_add"
  assumes "distinct (map f rs)" and "r \<in> set rs"
  shows "sum_list (map g rs) = g r + sum_list (map g (filter (\<lambda>x. f x \<noteq> f r) rs))"
    and "length rs = Suc (length (filter (\<lambda>x. f x \<noteq> f r) rs))"
proof -
  have m: "mset rs = add_mset r (mset (filter (\<lambda>x. f x \<noteq> f r) rs))"
    using assms
  proof (induction rs)
    case (Cons y ys)
    show ?case
    proof (cases "y = r")
      case True
      then have "filter (\<lambda>x. f x \<noteq> f r) ys = ys" using Cons.prems by (auto simp: filter_id_conv image_iff)
      then show ?thesis using True by simp
    next
      case False
      then have "f y \<noteq> f r" using Cons.prems by auto
      then show ?thesis using Cons False by simp
    qed
  qed simp
  have "sum_list (map g rs) = sum_mset (image_mset g (mset rs))" by (simp flip: sum_mset_sum_list)
  then show "sum_list (map g rs) = g r + sum_list (map g (filter (\<lambda>x. f x \<noteq> f r) rs))"
    unfolding m by (simp flip: sum_mset_sum_list)
  show "length rs = Suc (length (filter (\<lambda>x. f x \<noteq> f r) rs))" using arg_cong [OF m, of size] by (simp del: mset_filter)
qed

lemma decryptAll_honest:
  assumes all: "honest_batch b rs cts" and crs: "crs_for (btdSuite b) xi zi (btdPRF b)" and laws: "pairing_laws (btdSuite b)"
    and K: "K = g1Mul (btdSuite b) (sum_list (map inK rs)) (g1Base (btdSuite b))"
    and sub: "list_all2 (\<lambda>r ct. encOf b (egPK (btdEG b)) r = Inr ct) rs' cts'" "set rs' \<subseteq> set rs"
  shows "decryptAll b K cts cts' msgs cnt = Some (Inr (msgs @ map inM rs'), cnt + length rs' * length rs)"
  using sub
proof (induction rs' cts' arbitrary: msgs cnt rule: list_all2_induct)
  case (Cons r rs' ct cts')
  let ?S = "btdSuite b" and ?z = "zi ! nat (inI r)" and ?g = "\<lambda>x. gtMul (btdSuite b) (inK x * zi ! nat (inI r)) (GTBase (btdSuite b))"
  have r: "r \<in> set rs" "distinct (map inI rs)" using Cons.prems all by (auto simp: honest_batch_def)
  note parts = enc_parts [OF Cons.hyps(1) crs laws]
  have ind: "nat (inI r) < length zi" using parts(1,2) by auto
  have exp: "ExpEval ?S (btdPRF b) K (ctI ct) = Inr (sum_list (map ?g rs))"
  proof -
    have "suPair ?S K (g2Mul ?S ?z (g2Base ?S)) = gtMul ?S (sum_list (map inK rs) * ?z) (GTBase ?S)"
      by (simp add: K pairing_lawsD(5) [OF laws] GTBase_def)
    also have "\<dots> = sum_list (map ?g rs)"
      using scalar_sum [OF pairing_lawsD(3) [OF laws], of "map (\<lambda>x. inK x * ?z) rs"]
      by (simp add: sum_list_mult_const [symmetric] comp_def)
    finally show ?thesis using crs ind parts by (simp add: ExpEval_def crs_for_def)
  qed
  have sm: "sumPEvals b (ctI ct) cts 0 (cnt + 1) =
      Some (Inr (sum_list (map ?g (filter (\<lambda>x. inI x \<noteq> inI r) rs))), cnt + 1 + length (filter (\<lambda>x. inI x \<noteq> inI r) rs))"
    using sumPEvals_honest [OF _ crs laws, of "egPK (btdEG b)" rs cts "inI r" 0 "cnt + 1"] all parts
    by (simp add: honest_batch_def each_Inr_iff)
  have g: "ctGamma ct = ?g r + inM r" using parts by simp
  note rem = sum_list_remove_one [OF r(2,1)]
  have msg: "ctGamma ct + sum_list (map ?g (filter (\<lambda>x. inI x \<noteq> inI r) rs)) - sum_list (map ?g rs) = inM r"
    unfolding g rem(1) [of ?g] by (simp add: algebra_simps)
  have "decryptAll b K cts (ct # cts') msgs cnt = decryptAll b K cts cts' (msgs @ [inM r]) (cnt + length rs)"
    using exp sm msg rem(2) by simp
  then show ?case using Cons by (simp add: add.assoc)
qed simp

lemma honest_short:
  assumes "honest_batch b rs cts" and "crs_for (btdSuite b) xi zi (btdPRF b)" and "pairing_laws (btdSuite b)"
  shows "length cts \<le> length zi" and "distinct (map ctI cts)"
proof -
  have ind: "map ctI cts = map inI rs" by (rule honest_indices [OF assms])
  then show d: "distinct (map ctI cts)" using assms(1) by (simp add: honest_batch_def)
  have "set (map ctI cts) \<subseteq> {0..<int (length zi)}"
  proof
    fix i
    assume "i \<in> set (map ctI cts)"
    then obtain r where "r \<in> set rs" "i = inI r" unfolding ind by auto
    moreover obtain ct where "encOf b (egPK (btdEG b)) r = Inr ct"
      using assms(1) \<open>r \<in> set rs\<close> by (auto simp: honest_batch_def each_Inr_iff list_all2_conv_all_nth in_set_conv_nth)
    ultimately show "i \<in> {0..<int (length zi)}" using enc_parts(1,2) [OF _ assms(2,3)] by auto
  qed
  then have "card (set (map ctI cts)) \<le> card {0..<int (length zi)}" by (intro card_mono) auto
  then show "length cts \<le> length zi" using distinct_card [OF d] by simp
qed

lemma honest_sum:
  assumes "honest_batch b rs cts" and "crs_for (btdSuite b) xi zi (btdPRF b)" and "pairing_laws (btdSuite b)"
    and "prfB (btdPRF b) = btdB b"
  shows "SumEGCt b cts True =
    Inr \<lparr>egA = g1Mul (btdSuite b) (sum_list (map inU rs)) (g1Base (btdSuite b)),
      egB = g1Mul (btdSuite b) (sum_list (map inU rs)) (egPK (btdEG b)) +
        g1Mul (btdSuite b) (sum_list (map inK rs)) (g1Base (btdSuite b))\<rparr>"
proof -
  let ?S = "btdSuite b" and ?pk = "egPK (btdEG b)"
  note laws = pairing_lawsD(1) [OF assms(3)]
  have all: "list_all2 (\<lambda>r ct. encOf b ?pk r = Inr ct) rs cts" using assms(1) by (simp add: honest_batch_def each_Inr_iff)
  have "VerifyCT b ct = Inr True" if "ct \<in> set cts" for ct
  proof -
    from all that obtain r where "encOf b ?pk r = Inr ct" by (auto simp: in_set_conv_nth list_all2_conv_all_nth)
    then show ?thesis by (rule enc_verifies [OF _ assms(4,3)])
  qed
  from sumEG_verified [OF this] have sum: "SumEGCt b cts True =
      Inr \<lparr>egA = sum_list (map (egA \<circ> ctC) cts), egB = sum_list (map (egB \<circ> ctC) cts)\<rparr>"
    by (simp add: SumEGCt_def NullEGct_def)
  have c: "map ctC cts = map (\<lambda>r. eg_Enc ?S ?pk (g1Mul ?S (inK r) (g1Base ?S)) (inU r)) rs"
    using all enc_parts(4) [OF _ assms(2,3)] by (auto simp: list_all2_conv_all_nth intro!: nth_equalityI)
  have "map (egA \<circ> ctC) cts = map (\<lambda>u. g1Mul ?S u (g1Base ?S)) (map inU rs)"
    using arg_cong [OF c, of "map egA"] by (simp add: eg_Enc_def comp_def)
  then have A: "sum_list (map (egA \<circ> ctC) cts) = g1Mul ?S (sum_list (map inU rs)) (g1Base ?S)"
    by (simp only: scalar_sum [OF laws])
  have "map (egB \<circ> ctC) cts = map (\<lambda>r. g1Mul ?S (inU r) ?pk + g1Mul ?S (inK r) (g1Base ?S)) rs"
    using arg_cong [OF c, of "map egB"] by (simp add: eg_Enc_def comp_def)
  then have B: "sum_list (map (egB \<circ> ctC) cts) =
      g1Mul ?S (sum_list (map inU rs)) ?pk + g1Mul ?S (sum_list (map inK rs)) (g1Base ?S)"
    by (simp add: sum_list_addf scalar_sum [OF laws] comp_def)
  show ?thesis unfolding sum A B ..
qed

text \<open>Every share of an honest batch is a multiple of the same point, whoever computes it.\<close>

lemma share_of_batch:
  assumes "honest_batch b rs cts" and "crs_for (btdSuite b) xi zi (btdPRF b)" and "pairing_laws (btdSuite b)"
    and "prfB (btdPRF b) = btdB b"
  shows "BatchDecWithShare b cts (i, v) True =
    Inr (i, g1Mul (btdSuite b) v (g1Mul (btdSuite b) (sum_list (map inU rs)) (g1Base (btdSuite b))))"
proof -
  have "int (length cts) \<le> btdB b" using honest_short(1) [OF assms(1-3)] assms(2,4) by (simp add: crs_for_def)
  moreover have "validateDistinctIndices [] cts = Inr ()"
    using honest_short(2) [OF assms(1-3)] by (simp add: distinct_indices)
  ultimately show ?thesis
    using honest_sum [OF assms] by (simp add: BatchDecWithShare_def PDecWithShare_def)
qed

text \<open>Combining any threshold of the shares of a batch.\<close>

lemma combine_honest:
  assumes "pairing_laws (btdSuite b0)" and "sharing_laws (btdSuite b0)" and "crs_for (btdSuite b0) xi zi (btdPRF b0)"
    and "prfB (btdPRF b0) = btdB b0" and "coeffs \<noteq> []" and b: "b = KeyGen n (length coeffs) coeffs b0"
    and batch: "honest_batch b rs cts"
    and "length sel = length coeffs" and "distinct (map fst sel)" and "set sel \<subseteq> set (egShares (btdEG b))"
  shows "BatchCombineMessages b cts (map (\<lambda>(i, v). (i, g1Mul (btdSuite b) v
      (g1Mul (btdSuite b) (sum_list (map inU rs)) (g1Base (btdSuite b))))) sel) True =
    Some (Inr (map inM rs), length rs * length rs)"
proof -
  let ?S = "btdSuite b" and ?u = "sum_list (map inU rs)" and ?P = "g1Mul (btdSuite b) (sum_list (map inU rs)) (g1Base (btdSuite b))"
  have S: "?S = btdSuite b0" "btdPRF b = btdPRF b0" "btdB b = btdB b0" by (simp_all add: b KeyGen_def)
  have pk: "egPK (btdEG b) = g1Mul ?S (hd coeffs) (g1Base ?S)" "egT (btdEG b) = length coeffs" "egN (btdEG b) = n"
    "egShares (btdEG b) = shPriShares ?S coeffs n"
    by (simp_all add: b KeyGen_def eg_KeyGen_def)
  have laws: "pairing_laws ?S" "crs_for ?S xi zi (btdPRF b)" "prfB (btdPRF b) = btdB b"
    using assms(1,3,4) S by simp_all
  have mulc: "g1Mul ?S s (g1Mul ?S s' p) = g1Mul ?S s' (g1Mul ?S s p)" for s s' p
    using laws(1) by (simp add: pairing_laws_def scalar_laws_def mult.commute)
  let ?d = "map (\<lambda>(i, v). (i, g1Mul ?S v ?P)) sel"
  have "shRecoverCommit ?S ?d (length coeffs) n = Some (g1Mul ?S (hd coeffs) ?P)"
    using assms(2,5,8-10) pk S by (simp add: sharing_laws_def)
  then have "eg_Combine ?S (btdEG b) \<lparr>egA = ?P, egB = g1Mul ?S ?u (egPK (btdEG b)) +
      g1Mul ?S (sum_list (map inK rs)) (g1Base ?S)\<rparr> ?d = Inr (g1Mul ?S (sum_list (map inK rs)) (g1Base ?S))"
    using mulc by (simp add: eg_Combine_def pk)
  then have "BatchCombineMessages b cts ?d True =
      decryptAll b (g1Mul ?S (sum_list (map inK rs)) (g1Base ?S)) cts cts [] 0"
    using honest_short [OF batch laws(2,1)] honest_sum [OF batch laws(2,1,3)] laws(2,3) distinct_indices [of "[]" cts]
    by (simp add: BatchCombineMessages_def crs_for_def)
  also have "\<dots> = Some (Inr (map inM rs), length rs * length rs)"
    using decryptAll_honest [OF batch laws(2,1) refl, of rs cts] batch by (simp add: honest_batch_def each_Inr_iff)
  finally show ?thesis .
qed

section \<open>Properties of the scheme\<close>

text \<open>
  C7. Batched threshold decryption is correct: after \<^verbatim>\<open>KeyGen\<close> with a threshold \<open>t\<close>, for any batch of
  ciphertexts encrypted at distinct indices, any \<open>t\<close> holders of key shares obtain their
  decryption shares without an error, and combining these returns exactly the encrypted
  messages in order, with a number of pairings quadratic in the size of the batch.
\<close>

theorem batch_decryption_correct:
  assumes "pairing_laws (btdSuite b0)" and "sharing_laws (btdSuite b0)" and "crs_for (btdSuite b0) xi zi (btdPRF b0)"
    and "prfB (btdPRF b0) = btdB b0" and "coeffs \<noteq> []"
    and "honest_batch (KeyGen n (length coeffs) coeffs b0) rs cts"
    and "length sel = length coeffs" and "distinct (map fst sel)"
    and "set sel \<subseteq> set (egShares (btdEG (KeyGen n (length coeffs) coeffs b0)))"
  shows "\<exists>d. each (\<lambda>s. BatchDecWithShare (KeyGen n (length coeffs) coeffs b0) cts s True) sel = Inr d \<and>
    BatchCombineMessages (KeyGen n (length coeffs) coeffs b0) cts d True =
      Some (Inr (map inM rs), length rs * length rs)"
proof -
  define b where "b = KeyGen n (length coeffs) coeffs b0"
  let ?d = "map (\<lambda>(i, v). (i, g1Mul (btdSuite b) v (g1Mul (btdSuite b) (sum_list (map inU rs)) (g1Base (btdSuite b))))) sel"
  have S: "btdSuite b = btdSuite b0" "btdPRF b = btdPRF b0" "btdB b = btdB b0" by (simp_all add: b_def KeyGen_def)
  have laws: "pairing_laws (btdSuite b)" "crs_for (btdSuite b) xi zi (btdPRF b)" "prfB (btdPRF b) = btdB b" "honest_batch b rs cts"
    using assms S by (simp_all flip: b_def)
  have "each (\<lambda>s. BatchDecWithShare b cts s True) sel = Inr ?d"
    by (rule each_map) (auto simp: share_of_batch [OF laws(4,2,1,3)] split: prod.splits)
  moreover have "BatchCombineMessages b cts ?d True = Some (Inr (map inM rs), length rs * length rs)"
    using assms by (intro combine_honest [OF _ _ _ _ _ b_def laws(4)]) (simp_all flip: b_def)
  ultimately show ?thesis unfolding b_def by blast
qed

definition demo_suite :: "(rat, rat, rat, rat) suite" where
  "demo_suite = \<lparr>g1Mul = (*), g2Mul = (*), gtMul = (*), g1Base = 1, g2Base = 1, suPair = (*),
     g1Marshal = (\<lambda>_. Some []), g2Marshal = (\<lambda>_. Some []), gtMarshal = (\<lambda>_. Some []), scMarshal = (\<lambda>_. Some []),
     g1Unmarshal = (\<lambda>_. None), g2Unmarshal = (\<lambda>_. None), gtUnmarshal = (\<lambda>_. None), scUnmarshal = (\<lambda>_. None),
     scSetBytes = (\<lambda>bs. of_nat (length bs)), suHash = (\<lambda>bs. take 4 bs), suSha256 = (\<lambda>bs. take 4 bs),
     shPriShares = (\<lambda>coeffs n. map (\<lambda>i. (i, hd coeffs)) [0..<n]),
     shRecoverCommit = (\<lambda>shares t n. map_option snd (if shares = [] then None else Some (hd shares)))\<rparr>"

definition demo_btd :: "(rat, rat, rat, rat) BTD" where
  "demo_btd = NewBTD demo_suite 2 [3, 5] [7, 11]"

definition demo_rs :: "(rat, rat) enc_input list" where
  "demo_rs = [\<lparr>inI = 1, inM = 100, inK = 2, inU = 3, inUN = 4, inKN = 5\<rparr>,
     \<lparr>inI = 0, inM = 200, inK = 6, inU = 7, inUN = 8, inKN = 9\<rparr>]"

lemma demo_suite_laws: "pairing_laws demo_suite" "sharing_laws demo_suite"
proof -
  show "pairing_laws demo_suite" by (simp add: pairing_laws_def scalar_laws_def demo_suite_def algebra_simps)
  show "sharing_laws demo_suite"
    unfolding sharing_laws_def
  proof (intro conjI allI impI)
    show "fst ` set (shPriShares demo_suite coeffs n) \<subseteq> {..<n}" for coeffs n by (auto simp: demo_suite_def)
  next
    fix coeffs :: "rat list" and n sel P
    assume a: "coeffs \<noteq> [] \<and> length sel = length coeffs \<and> distinct (map fst sel) \<and> set sel \<subseteq> set (shPriShares demo_suite coeffs n)"
    then obtain s sel' where "sel = s # sel'" by (cases sel) auto
    then show "shRecoverCommit demo_suite (map (\<lambda>(i, v). (i, g1Mul demo_suite v P)) sel) (length coeffs) n =
        Some (g1Mul demo_suite (hd coeffs) P)"
      using a by (auto simp: demo_suite_def)
  qed
qed

theorem batch_decryption_correct_witness:
  "\<exists>cts d. each (encOf (KeyGen 3 2 [13, 17] demo_btd) 13) demo_rs = Inr cts \<and>
    BatchCombineMessages (KeyGen 3 2 [13, 17] demo_btd) cts d True = Some (Inr [100, 200], 4)"
proof -
  let ?b = "KeyGen 3 2 [13, 17] demo_btd"
  have crs: "crs_for (btdSuite demo_btd) [3, 5] [7, 11] (btdPRF demo_btd)"
    using setup_crs [of "[3, 5]" 2 "[7, 11]" demo_suite True] by (simp add: demo_btd_def NewBTD_def)
  have pk: "egPK (btdEG ?b) = 13" by (simp add: KeyGen_def eg_KeyGen_def demo_btd_def NewBTD_def demo_suite_def)
  obtain cts where cts: "each (encOf ?b 13) demo_rs = Inr cts"
    by (auto simp: demo_rs_def encOf_def BTD_Enc_def Puncture_def prf_Eval_def SHash_def Let_def KeyGen_def demo_btd_def
      NewBTD_def PRFSetup_def demo_suite_def)
  have h: "honest_batch (KeyGen 3 (length [13, 17::rat]) [13, 17] demo_btd) demo_rs cts"
  proof -
    have two: "length [13, 17::rat] = 2" by simp
    show ?thesis unfolding two honest_batch_def pk using cts by (simp add: demo_rs_def)
  qed
  have suite: "btdSuite demo_btd = demo_suite" "prfB (btdPRF demo_btd) = btdB demo_btd"
    by (simp_all add: demo_btd_def NewBTD_def PRFSetup_def)
  have sh: "set [(2, 13), (0, 13)] \<subseteq> set (egShares (btdEG (KeyGen 3 (length [13, 17::rat]) [13, 17] demo_btd)))"
    by (simp add: KeyGen_def eg_KeyGen_def suite) (simp add: demo_suite_def)
  have "\<exists>d. each (\<lambda>s. BatchDecWithShare (KeyGen 3 (length [13, 17::rat]) [13, 17] demo_btd) cts s True) [(2, 13), (0, 13)] = Inr d \<and>
      BatchCombineMessages (KeyGen 3 (length [13, 17::rat]) [13, 17] demo_btd) cts d True =
        Some (Inr (map inM demo_rs), length demo_rs * length demo_rs)"
    using demo_suite_laws suite by (intro batch_decryption_correct [OF _ _ crs _ _ h _ _ sh]) simp_all
  then obtain d where d: "BatchCombineMessages (KeyGen 3 (length [13, 17::rat]) [13, 17] demo_btd) cts d True =
        Some (Inr (map inM demo_rs), length demo_rs * length demo_rs)" by blast
  have "map inM demo_rs = [100, 200]" "length demo_rs * length demo_rs = 4" "length [13, 17::rat] = 2"
    by (simp_all add: demo_rs_def)
  from d [unfolded this] cts show ?thesis by blast
qed

section \<open>Round trip of the public setup\<close>

lemma readCRSBytes_write:
  assumes "length e \<le> maxCRSPointBytes"
  shows "readCRSBytes (beFixed 4 (length e) @ e @ rest) = Inr (e, rest)"
proof -
  have "length e < 256 ^ 4" using assms by (simp add: maxCRSPointBytes_def)
  then show ?thesis
    using assms by (simp add: readCRSBytes_def readUint32_def readN_def beNat_beFixed)
qed

lemma point_write_read:
  assumes "encodable m u p"
  shows "\<exists>w. writeCRSPoint m p = Inr w \<and> (\<forall>rest. readCRSPoint u (w @ rest) = Inr (p, rest))"
proof -
  obtain e where e: "m p = Some e" "length e \<le> maxCRSPointBytes" "u e = Some p"
    using assms unfolding encodable_def by blast
  show ?thesis using e readCRSBytes_write [OF e(2)]
    by (intro exI [of _ "beFixed 4 (length e) @ e"]) (simp add: writeCRSPoint_def writeCRSBytes_def readCRSPoint_def)
qed

lemma points_write_read:
  assumes "\<And>p. p \<in> set ps \<Longrightarrow> encodable m u p"
  shows "\<exists>ws. each (writeCRSPoint m) ps = Inr ws \<and>
    (\<forall>rest. readCRSPoints u (length ps) (concat ws @ rest) = Inr (ps, rest))"
  using assms
proof (induction ps)
  case (Cons p ps)
  have "\<exists>ws. each (writeCRSPoint m) ps = Inr ws \<and>
      (\<forall>rest. readCRSPoints u (length ps) (concat ws @ rest) = Inr (ps, rest))"
    by (rule Cons.IH) (simp add: Cons.prems)
  then obtain ws where ws: "each (writeCRSPoint m) ps = Inr ws"
    "\<And>rest. readCRSPoints u (length ps) (concat ws @ rest) = Inr (ps, rest)" by blast
  obtain w where w: "writeCRSPoint m p = Inr w" "\<And>rest. readCRSPoint u (w @ rest) = Inr (p, rest)"
    using point_write_read [OF Cons.prems [of p]] by auto
  show ?case using ws w by (intro exI [of _ "w # ws"]) simp
qed simp

lemma cross_write:
  assumes "crs_for S xi zi f"
  shows "each (\<lambda>(i, j). and_then (or_error (map_of (prfG2zixj f) (i, j)) (MissingCRSPoint i j)) (writeCRSPoint m))
      (List.product [0..<length zi] [0..<length zi]) =
    each (writeCRSPoint m) (map (\<lambda>(i, j). g2Mul S (zi ! i / xi ! j) (g2Base S)) (List.product [0..<length zi] [0..<length zi]))"
proof -
  have all: "each (\<lambda>(i, j). and_then (or_error (map_of (prfG2zixj f) (i, j)) (MissingCRSPoint i j)) (writeCRSPoint m)) ks =
      each (writeCRSPoint m) (map (\<lambda>(i, j). g2Mul S (zi ! i / xi ! j) (g2Base S)) ks)"
    if "set ks \<subseteq> {..<length zi} \<times> {..<length zi}" for ks
    using that assms by (induction ks) (auto simp: crs_for_def)
  show ?thesis by (rule all) auto
qed

lemma cross_read:
  assumes "i < B" and "j < B"
  shows "map_of (putAll (zip (List.product [0..<B] [0..<B]) (map g (List.product [0..<B] [0..<B]))) []) (i, j) = Some (g (i, j))"
proof -
  let ?ks = "List.product [0..<B] [0..<B]"
  have z: "zip ?ks (map g ?ks) = map (\<lambda>k. (k, g k)) ?ks" by (simp add: zip_map2 map_zip_map2 zip_same_conv_map)
  have "distinct (map fst (rev (map (\<lambda>k. (k, g k)) ?ks)))" by (simp add: rev_map comp_def distinct_product)
  moreover have "((i, j), g (i, j)) \<in> set (rev (map (\<lambda>k. (k, g k)) ?ks))" using assms by auto
  ultimately have "map_of (rev (map (\<lambda>k. (k, g k)) ?ks)) (i, j) = Some (g (i, j))" by (rule map_of_is_SomeI)
  then show ?thesis unfolding z by (simp add: map_of_putAll)
qed

text \<open>
  The parallel setup equals the sequential one: the sixteen workers compute every cross
  element exactly once, whatever the size of the domain.
\<close>

theorem prf_setup_parallel_same: "PRFSetup S B True xi zi = PRFSetup S B False xi zi"
  by (simp add: PRFSetup_def Let_def setup_parallel_rows)

text \<open>
  Round trip of the public setup: a well-formed setup is serialised without an error, and
  what is read back is a well-formed setup for the same trapdoors that no longer contains them.
\<close>

theorem crs_roundtrip:
  assumes "crs_encodable S f" and "pairing_laws S" and "crs_for S xi zi f"
    and "0 < prfB f" and "prfB f < 2 ^ 32" and "length suiteID \<le> maxCRSPointBytes"
  shows "\<exists>enc f'. MarshalPublicBinary S f suiteID = Inr enc \<and> PRFSetupFromPublic S suiteID (prfB f) enc = Inr f' \<and>
    crs_for S xi zi f' \<and> prfXi f' = [] \<and> prfZi f' = []"
proof -
  let ?B = "length zi" and ?g = "\<lambda>(i, j). g2Mul S (zi ! i / xi ! j) (g2Base S)"
  let ?ks = "List.product [0..<length zi] [0..<length zi]"
  note crs = assms(3) [unfolded crs_for_def]
  have B: "prfB f = int ?B" "nat (prfB f) = ?B" "?B < 2 ^ 32" using crs assms(5) by auto
  obtain w1 where w1: "each (writeCRSPoint (g1Marshal S)) (prfG1xi f) = Inr w1"
    "\<And>rest. readCRSPoints (g1Unmarshal S) ?B (concat w1 @ rest) = Inr (prfG1xi f, rest)"
    using points_write_read [of "prfG1xi f" "g1Marshal S" "g1Unmarshal S"] assms(1) crs by (auto simp: crs_encodable_def)
  obtain w2 where w2: "each (writeCRSPoint (g2Marshal S)) (prfG2zi f) = Inr w2"
    "\<And>rest. readCRSPoints (g2Unmarshal S) ?B (concat w2 @ rest) = Inr (prfG2zi f, rest)"
    using points_write_read [of "prfG2zi f" "g2Marshal S" "g2Unmarshal S"] assms(1) crs by (auto simp: crs_encodable_def)
  obtain w3 where w3: "each (writeCRSPoint (g2Marshal S)) (map ?g ?ks) = Inr w3"
    "\<And>rest. readCRSPoints (g2Unmarshal S) (?B * ?B) (concat w3 @ rest) = Inr (map ?g ?ks, rest)"
  proof -
    have "?g k \<in> ran (map_of (prfG2zixj f))" if "k \<in> set ?ks" for k using that crs by (auto intro!: ranI [where a = k])
    then have "encodable (g2Marshal S) (g2Unmarshal S) p" if "p \<in> set (map ?g ?ks)" for p
      using that assms(1) unfolding crs_encodable_def by (metis (no_types, lifting) imageE list.set_map)
    from points_write_read [of "map ?g ?ks", OF this] obtain ws where "each (writeCRSPoint (g2Marshal S)) (map ?g ?ks) = Inr ws"
      "\<And>rest. readCRSPoints (g2Unmarshal S) (length (map ?g ?ks)) (concat ws @ rest) = Inr (map ?g ?ks, rest)" by blast
    then show ?thesis using that [of ws] by simp
  qed
  define sid where "sid = strBytes suiteID"
  have sid: "length sid \<le> maxCRSPointBytes" using assms(6) by (simp add: sid_def strBytes_def)
  let ?enc = "publicCRSMagic @ beFixed 4 publicCRSVersion @ (beFixed 4 (length sid) @ sid) @ beFixed 4 ?B @ concat w1 @ concat w2 @ concat w3"
  have enc: "MarshalPublicBinary S f suiteID = Inr ?enc"
    using assms(4) w1(1) w2(1) w3(1) sid B by (simp add: MarshalPublicBinary_def writeCRSBytes_def cross_write [OF assms(3)] flip: sid_def)
  let ?f = "\<lparr>prfXi = [], prfZi = [], prfG2zi = prfG2zi f, prfGTzi = map (suPair S (g1Base S)) (prfG2zi f),
      prfG1xi = prfG1xi f, prfG2zixj = putAll (zip ?ks (map ?g ?ks)) [], prfB = prfB f\<rparr>"
  have r32: "readUint32 (beFixed 4 n @ rest) = Inr (n, rest)" if "n < 2 ^ 32" for n rest
    using that by (simp add: readUint32_def readN_def beNat_beFixed)
  have "PRFSetupFromPublic S suiteID (prfB f) ?enc = Inr ?f"
    using assms(4,5) w1(2) w2(2) w3(2) [of "[]"] B readCRSBytes_write [OF sid] r32 [of publicCRSVersion] r32 [of ?B]
    by (simp add: PRFSetupFromPublic_def Let_def readN_def publicCRSVersion_def flip: sid_def)
  moreover have "crs_for S xi zi ?f"
    using crs cross_read [of _ ?B _ ?g] by (simp add: crs_for_def pairing_lawsD(6) [OF assms(2)] GTBase_def)
  ultimately show ?thesis using enc by (intro exI [of _ ?enc] exI [of _ ?f]) simp
qed

definition demo_codec_suite :: "(rat, rat, rat, rat) suite" where
  "demo_codec_suite = demo_suite\<lparr>
     g1Marshal := (\<lambda>q. Some [of_int \<lfloor>q\<rfloor>]), g1Unmarshal := (\<lambda>e. case e of [x] \<Rightarrow> Some (of_nat (unat x)) | _ \<Rightarrow> None),
     g2Marshal := (\<lambda>q. Some [of_int \<lfloor>q\<rfloor>]), g2Unmarshal := (\<lambda>e. case e of [x] \<Rightarrow> Some (of_nat (unat x)) | _ \<Rightarrow> None)\<rparr>"

theorem crs_roundtrip_witness:
  "\<exists>enc f'. MarshalPublicBinary demo_codec_suite (PRFSetup demo_codec_suite 2 True [1, 1] [7, 11]) ''demo'' = Inr enc \<and>
    PRFSetupFromPublic demo_codec_suite ''demo'' 2 enc = Inr f' \<and> crs_for demo_codec_suite [1, 1] [7, 11] f'"
proof -
  let ?S = demo_codec_suite and ?f = "PRFSetup demo_codec_suite 2 True [1, 1] [7, 11]"
  have laws: "pairing_laws ?S" by (simp add: pairing_laws_def scalar_laws_def demo_codec_suite_def demo_suite_def algebra_simps)
  have crs: "crs_for ?S [1, 1] [7, 11] ?f" by (rule setup_crs) simp_all
  have ok: "encodable (g1Marshal ?S) (g1Unmarshal ?S) p" "encodable (g2Marshal ?S) (g2Unmarshal ?S) p"
    if "p \<in> {1, 7, 11}" for p
    using that by (auto simp: encodable_def demo_codec_suite_def maxCRSPointBytes_def)
  have pts: "prfG1xi ?f = [1, 1]" "prfG2zi ?f = [7, 11]"
    by (simp_all add: PRFSetup_def Let_def demo_codec_suite_def demo_suite_def)
  have "ran (map_of (prfG2zixj ?f)) \<subseteq> {1, 7, 11}"
  proof -
    have f: "prfG2zixj ?f = putAll (concat (map (crossRow ?S 2 [1, 1] [7, 11]) [0..<2])) []"
      by (simp add: PRFSetup_def Let_def setup_parallel_rows)
    show ?thesis unfolding f
      by (auto simp: ran_def map_of_putAll crossRow_def crossPoint_def demo_codec_suite_def demo_suite_def upt_conv_Cons
        split: option.splits if_splits)
  qed
  then have enc: "crs_encodable ?S ?f" using ok pts by (auto simp: crs_encodable_def)
  have B: "prfB ?f = 2" by (simp add: PRFSetup_def Let_def)
  show ?thesis using crs_roundtrip [OF enc laws crs, of "''demo''"] B by (auto simp: maxCRSPointBytes_def)
qed

end
