(* ===== verification/Cluster_Plan.thy ===== *)
theory Cluster_Plan
  imports Bte_Correct Cluster
begin

text \<open>
  The arrangement of a batch into sub-batches: it never fails on a valid batch, loses and
  duplicates no ciphertext, and no sub-batch holds two ciphertexts with the same index, which
  is what the batched decryption needs.
\<close>

section \<open>Distribution over a list of lists\<close>

lemma mset_concat_update:
  "k < length xss \<Longrightarrow> mset (concat (xss[k := xss ! k @ [x]])) = add_mset x (mset (concat xss))"
proof (induction xss arbitrary: k)
  case (Cons xs xss)
  then show ?case by (cases k) auto
qed simp

lemma roundRobin_aux:
  assumes "0 < alpha"
  shows "length (fold (\<lambda>(i, it) sbs. sbs[i mod alpha := sbs ! (i mod alpha) @ [it]]) ps sbs) = length sbs \<and>
    (length sbs = alpha \<longrightarrow>
     mset (concat (fold (\<lambda>(i, it) sbs. sbs[i mod alpha := sbs ! (i mod alpha) @ [it]]) ps sbs)) =
       mset (concat sbs) + mset (map snd ps))"
proof (induction ps arbitrary: sbs)
  case (Cons p ps)
  obtain i it where p: "p = (i, it)" by (cases p)
  have "i mod alpha < alpha" using assms by simp
  then show ?case using Cons [of "sbs[i mod alpha := sbs ! (i mod alpha) @ [it]]"] p by (auto simp: mset_concat_update)
qed simp

lemma roundRobin_content:
  assumes "0 < alpha"
  shows "length (roundRobin alpha items) = alpha" "mset (concat (roundRobin alpha items)) = mset items"
  using roundRobin_aux [OF assms, of "enumerate 0 items" "replicate alpha []"]
  by (simp_all add: roundRobin_def)

section \<open>Validation\<close>

lemma seenTwice_None: "seenTwice seen its = None \<longleftrightarrow> distinct (map itemIndex its) \<and> set (map itemIndex its) \<inter> set seen = {}"
  by (induction seen its rule: seenTwice.induct) auto

lemma validateFrom_Inr: "validateSubBatchesFrom k sbs = Inr () \<longleftrightarrow> (\<forall>sb \<in> set sbs. distinct (map itemIndex sb))"
proof (induction k sbs rule: validateSubBatchesFrom.induct)
  case (2 k sb sbs)
  show ?case using 2 seenTwice_None [of "[]" sb] by (cases "seenTwice [] sb") auto
qed simp

lemma validate_Inr: "validateSubBatchIndices sbs = Inr u \<longleftrightarrow> (\<forall>sb \<in> set sbs. distinct (map itemIndex sb))"
  by (cases u) (simp add: validateSubBatchIndices_def validateFrom_Inr)

section \<open>The collision-free arrangement\<close>

definition arranged :: "('s, 'a, 'c) BatchItem list list \<Rightarrow> int list list \<Rightarrow> bool" where
  "arranged sbs seen \<longleftrightarrow> length seen = length sbs \<and>
     (\<forall>k < length sbs. set (seen ! k) = set (map itemIndex (sbs ! k)) \<and> distinct (map itemIndex (sbs ! k)))"

lemma select_fold:
  "fold (\<lambda>k selected.
      if index \<in> set (seen ! k) then selected
      else case selected of None \<Rightarrow> Some k
        | Some s \<Rightarrow> if length (sbs ! k) < length (sbs ! s) then Some k else Some s) ks sel = r \<Longrightarrow>
   (\<And>s. sel = Some s \<Longrightarrow> P s) \<Longrightarrow> (\<And>k. k \<in> set ks \<Longrightarrow> index \<notin> set (seen ! k) \<Longrightarrow> P k) \<Longrightarrow>
   (case r of None \<Rightarrow> sel = None \<and> (\<forall>k \<in> set ks. index \<in> set (seen ! k)) | Some s \<Rightarrow> P s)"
proof (induction ks arbitrary: sel)
  case (Cons k ks)
  show ?case
  proof (cases "index \<in> set (seen ! k)")
    case True
    then show ?thesis using Cons.IH [of sel] Cons.prems by (auto split: option.splits)
  next
    case False
    let ?sel = "case sel of None \<Rightarrow> Some k | Some s \<Rightarrow> if length (sbs ! k) < length (sbs ! s) then Some k else Some s"
    have "P s" if "?sel = Some s" for s
      using that Cons.prems(2) Cons.prems(3) [of k] False by (auto split: option.splits if_splits)
    moreover have "?sel \<noteq> None" by (auto split: option.splits)
    ultimately show ?thesis using Cons.IH [of ?sel] Cons.prems False by (auto split: option.splits)
  qed
qed (auto split: option.splits)

lemma select_Some:
  assumes "selectSubBatch sbs seen index = Some s"
  shows "s < length sbs \<and> index \<notin> set (seen ! s)"
  using select_fold [of index seen sbs "[0..<length sbs]" None "Some s" "\<lambda>s. s < length sbs \<and> index \<notin> set (seen ! s)"] assms
  by (simp add: selectSubBatch_def)

lemma select_None:
  assumes "selectSubBatch sbs seen index = None" and "k < length sbs"
  shows "index \<in> set (seen ! k)"
  using select_fold [of index seen sbs "[0..<length sbs]" None None "\<lambda>_. True"] assms
  by (simp add: selectSubBatch_def)

lemma all_hold_count:
  assumes "\<And>sb. sb \<in> set sbs \<Longrightarrow> \<exists>it \<in> set sb. f it = i"
  shows "length sbs \<le> length (filter (\<lambda>it. f it = i) (concat sbs))"
  using assms
proof (induction sbs)
  case (Cons sb sbs)
  then have "filter (\<lambda>it. f it = i) sb \<noteq> []" by (auto simp: filter_empty_conv)
  then have "1 \<le> length (filter (\<lambda>it. f it = i) sb)" by (cases "filter (\<lambda>it. f it = i) sb") auto
  moreover have "length sbs \<le> length (filter (\<lambda>it. f it = i) (concat sbs))" using Cons by simp
  ultimately show ?case by simp
qed simp

lemma arranged_step:
  assumes "arranged sbs seen" and "s < length sbs" and "itemIndex it \<notin> set (seen ! s)"
  shows "arranged (sbs[s := sbs ! s @ [it]]) (seen[s := itemIndex it # seen ! s])"
  using assms by (auto simp: arranged_def nth_list_update)

lemma arrangeItems_total:
  assumes "arranged sbs seen"
    and "\<And>i. length (filter (\<lambda>it. itemIndex it = i) (concat sbs @ its)) \<le> length sbs"
  shows "\<exists>sbs' seen'. arrangeItems sbs seen its = Inr sbs' \<and> arranged sbs' seen' \<and> length sbs' = length sbs \<and>
    mset (concat sbs') = mset (concat sbs) + mset its"
  using assms
proof (induction its arbitrary: sbs seen)
  case (Cons it its)
  have "selectSubBatch sbs seen (itemIndex it) \<noteq> None"
  proof
    assume none: "selectSubBatch sbs seen (itemIndex it) = None"
    have "length sbs \<le> length (filter (\<lambda>x. itemIndex x = itemIndex it) (concat sbs))"
    proof (rule all_hold_count)
      fix sb
      assume "sb \<in> set sbs"
      then obtain k where "k < length sbs" "sb = sbs ! k" by (auto simp: in_set_conv_nth)
      then have "itemIndex it \<in> itemIndex ` set sb"
        using select_None [OF none, of k] Cons.prems(1) by (simp add: arranged_def)
      then show "\<exists>x \<in> set sb. itemIndex x = itemIndex it" by force
    qed
    then show False using Cons.prems(2) [of "itemIndex it"] by simp
  qed
  then obtain s where s: "selectSubBatch sbs seen (itemIndex it) = Some s" by blast
  let ?sbs = "sbs[s := sbs ! s @ [it]]" and ?seen = "seen[s := itemIndex it # seen ! s]"
  have sl: "s < length sbs" "itemIndex it \<notin> set (seen ! s)" using select_Some [OF s] by auto
  have m: "mset (concat ?sbs) = add_mset it (mset (concat sbs))" using sl(1) by (rule mset_concat_update)
  have "length (filter (\<lambda>x. itemIndex x = i) (concat ?sbs @ its)) = length (filter (\<lambda>x. itemIndex x = i) (concat sbs @ it # its))" for i
  proof -
    have "size (filter_mset (\<lambda>x. itemIndex x = i) (mset (concat ?sbs @ its))) =
        size (filter_mset (\<lambda>x. itemIndex x = i) (mset (concat sbs @ it # its)))"
      using m by (simp del: mset_concat)
    then show ?thesis by (metis mset_filter size_mset)
  qed
  then have "\<exists>sbs' seen'. arrangeItems ?sbs ?seen its = Inr sbs' \<and> arranged sbs' seen' \<and> length sbs' = length ?sbs \<and>
      mset (concat sbs') = mset (concat ?sbs) + mset its"
    using Cons.prems(2) by (intro Cons.IH arranged_step [OF Cons.prems(1) sl]) simp
  then show ?case using s m by simp
qed auto

section \<open>The number of sub-batches\<close>

lemma fold_max_ge: "(m::nat) \<le> fold (\<lambda>x a. if f x > a then f x else a) xs m"
  by (induction xs arbitrary: m) (auto intro: order_trans [OF less_imp_le])

lemma fold_max_mem: "x \<in> set xs \<Longrightarrow> (f x :: nat) \<le> fold (\<lambda>x a. if f x > a then f x else a) xs m"
proof (induction xs arbitrary: m)
  case (Cons y ys)
  show ?case
  proof (cases "x = y")
    case True
    have "f x \<le> (if f y > m then f y else m)" using True by auto
    then show ?thesis using fold_max_ge [of "if f y > m then f y else m" f ys] by simp
  next
    case False
    then show ?thesis using Cons by simp
  qed
qed simp

lemma alpha_pos: "cts \<noteq> [] \<Longrightarrow> 0 < alphaOf cts"
  unfolding alphaOf_def Let_def
  using fold_max_ge [of "if ceilTwoSqrtFrom (length cts) 0 < 1 then 1 else ceilTwoSqrtFrom (length cts) 0"
      "\<lambda>ct. countIndex cts (ctI (cxCapsule ct))" cts]
  by (cases cts) (auto split: if_splits)

lemma alpha_le: "alphaOf cts \<le> length cts"
  by (simp add: alphaOf_def Let_def)

lemma alpha_count: "countIndex cts i \<le> alphaOf cts"
proof (cases "countIndex cts i = 0")
  case False
  then obtain ct where ct: "ct \<in> set cts" "ctI (cxCapsule ct) = i"
    by (auto simp: countIndex_def filter_empty_conv)
  have le: "countIndex cts i \<le> length cts" by (simp add: countIndex_def)
  have "countIndex cts (ctI (cxCapsule ct)) \<le> fold (\<lambda>ct alpha. if countIndex cts (ctI (cxCapsule ct)) > alpha
      then countIndex cts (ctI (cxCapsule ct)) else alpha) cts m" for m
    using fold_max_mem [OF ct(1), of "\<lambda>ct. countIndex cts (ctI (cxCapsule ct))" m] .
  then show ?thesis using le ct(2) unfolding alphaOf_def Let_def by auto
qed simp

section \<open>Properties\<close>

lemma itemsOf_index: "map itemIndex (itemsOf cts) = map (\<lambda>ct. ctI (cxCapsule ct)) cts"
  by (rule nth_equalityI) (simp_all add: itemsOf_def nth_enumerate_eq)

lemma itemsOf_count: "length (filter (\<lambda>it. itemIndex it = i) (itemsOf cts)) = countIndex cts i"
proof -
  have "length (filter (\<lambda>it. itemIndex it = i) (itemsOf cts)) = length (filter (\<lambda>j. j = i) (map itemIndex (itemsOf cts)))"
    by (simp add: filter_map comp_def)
  then show ?thesis unfolding itemsOf_index by (simp add: countIndex_def filter_map comp_def)
qed

lemma arrangeBatch_spec:
  assumes "cts \<noteq> []" and "int (length cts) \<le> clBMax c" and "\<And>ct. ct \<in> set cts \<Longrightarrow> validateCiphertext c ct = Inr ()"
  shows "\<exists>sbs. arrangeBatch c cts = Inr (alphaOf cts, sbs) \<and> length sbs = alphaOf cts \<and>
    mset (concat sbs) = mset (itemsOf cts) \<and> (\<forall>sb \<in> set sbs. distinct (map itemIndex sb))"
proof -
  let ?items = "sortSlice (itemLess cts) (itemsOf cts)" and ?a = "alphaOf cts"
  have valid: "each (validateCiphertext c) cts = Inr (map (\<lambda>_. ()) cts)" using assms(3) by (intro each_map) auto
  note rr = roundRobin_content [OF alpha_pos [OF assms(1)], of ?items]
  show ?thesis
  proof (cases "validateSubBatchIndices (roundRobin ?a ?items)")
    case (Inr u)
    then have "\<forall>sb \<in> set (roundRobin ?a ?items). distinct (map itemIndex sb)" by (simp add: validate_Inr)
    then show ?thesis using assms(1,2) valid rr Inr by (intro exI [of _ "roundRobin ?a ?items"]) (simp add: arrangeBatch_def Let_def)
  next
    case (Inl e)
    have "length (filter (\<lambda>it. itemIndex it = i) (concat (replicate ?a []) @ ?items)) \<le> length (replicate ?a [])" for i
    proof -
      have "length (filter (\<lambda>it. itemIndex it = i) ?items) = length (filter (\<lambda>it. itemIndex it = i) (itemsOf cts))"
        by (metis mset_filter mset_sortSlice size_mset)
      then show ?thesis using alpha_count [of cts i] by (simp add: itemsOf_count)
    qed
    moreover have "arranged (replicate ?a []) (replicate ?a [])" by (simp add: arranged_def)
    ultimately obtain sbs seen where sbs: "arrangeCollisionFree ?items ?a = Inr sbs" "arranged sbs seen" "length sbs = ?a"
      "mset (concat sbs) = mset ?items"
      using arrangeItems_total [of "replicate ?a []" "replicate ?a []" ?items] by (auto simp: arrangeCollisionFree_def)
    have d: "\<forall>sb \<in> set sbs. distinct (map itemIndex sb)" using sbs(2) by (auto simp: arranged_def in_set_conv_nth)
    then have "validateSubBatchIndices sbs = Inr ()" by (simp add: validate_Inr)
    then show ?thesis using assms(1,2) valid Inl sbs d by (auto simp: arrangeBatch_def Let_def)
  qed
qed

text \<open>
  C24. Planning a valid batch never fails: the sub-batches hold exactly the ciphertexts of the
  batch with their positions, none lost and none twice, no sub-batch has two ciphertexts at the
  same index, and there are no more sub-batches than ciphertexts.
\<close>

theorem arrange_batch_total:
  assumes "cts \<noteq> []" and "int (length cts) \<le> clBMax c" and "\<And>ct. ct \<in> set cts \<Longrightarrow> validateCiphertext c ct = Inr ()"
  shows "\<exists>sbs. arrangeBatch c cts = Inr (alphaOf cts, sbs) \<and> length sbs = alphaOf cts \<and> alphaOf cts \<le> length cts \<and>
    mset (concat sbs) = mset (itemsOf cts) \<and> (\<forall>sb \<in> set sbs. distinct (map itemIndex sb))"
  using arrangeBatch_spec [OF assms] alpha_le by blast

definition demo_capsule :: "int \<Rightarrow> (rat, rat, rat) CT" where
  "demo_capsule i = \<lparr>ctI = i, ctGamma = 0, ctKp = 0, ctC = \<lparr>egA = 0, egB = 0\<rparr>,
     ctPi = \<lparr>piAp = 0, piBp = 0, piYp = 0, piKHat = 0, piUHat = 0\<rparr>\<rparr>"

definition demo_batch :: "(rat, rat, rat) Ciphertext list" where
  "demo_batch = map (\<lambda>i. \<lparr>cxCapsule = demo_capsule i, cxEncryptedTx = replicate 28 0\<rparr>) [1, 1, 2, 1, 3]"

definition demo_hybrid :: hybrid where
  "demo_hybrid = \<lparr>hyHKDF = (\<lambda>s info. s @ info), hySeal = (\<lambda>k n p a. p @ replicate 16 0),
     hyOpen = (\<lambda>k n s a. if drop (length s - 16) s = replicate 16 0 then Some (take (length s - 16) s) else None)\<rparr>"

definition demo_cluster :: "(rat, rat, rat, rat) ClusterBTE" where
  "demo_cluster = NewNode demo_hybrid (NewBTD demo_suite 8 [1, 2, 3, 4, 5, 6, 7, 8] [2, 3, 5, 7, 11, 13, 17, 19]) 13 (0, 0, 13) 3 2"

theorem arrange_batch_total_witness:
  "\<exists>sbs. arrangeBatch demo_cluster demo_batch = Inr (alphaOf demo_batch, sbs) \<and>
    (\<forall>sb \<in> set sbs. distinct (map itemIndex sb))"
proof -
  have "\<exists>sbs. arrangeBatch demo_cluster demo_batch = Inr (alphaOf demo_batch, sbs) \<and> length sbs = alphaOf demo_batch \<and>
      alphaOf demo_batch \<le> length demo_batch \<and> mset (concat sbs) = mset (itemsOf demo_batch) \<and>
      (\<forall>sb \<in> set sbs. distinct (map itemIndex sb))"
    by (rule arrange_batch_total)
      (auto simp: demo_batch_def demo_capsule_def validateCiphertext_def validateAEADPayloadShape_def demo_cluster_def
        NewNode_def NewBTD_def aeadNonceSize_def aeadTagSize_def)
  then show ?thesis by blast
qed

end
