(* ===== verification/Cluster_Subsets.thy ===== *)
theory Cluster_Subsets
  imports Cluster
begin

text \<open>
  The enumeration of threshold subsets in \<^verbatim>\<open>forEachShareCombination\<close> against a reference
  definition: the loop visits the subsets of the given size in lexicographic order, each once,
  and stops after the last, so its iterations are bounded by a binomial coefficient.
\<close>

primrec combinations :: "'x list \<Rightarrow> nat \<Rightarrow> 'x list list" where
  "combinations [] k = (if k = 0 then [[]] else [])"
| "combinations (x # xs) k = (if k = 0 then [[]] else map ((#) x) (combinations xs (k - 1)) @ combinations xs k)"

lemma combinations_0 [simp]: "combinations xs 0 = [[]]"
  by (cases xs) auto

lemma combinations_length: "length (combinations xs k) = length xs choose k"
proof (induction xs arbitrary: k)
  case Nil
  then show ?case by (cases k) auto
next
  case (Cons x xs)
  then show ?case by (cases k) auto
qed

lemma combinations_subseq: "set (combinations xs k) = {ys. subseq ys xs \<and> length ys = k}"
proof (induction xs arbitrary: k)
  case Nil
  then show ?case by auto
next
  case (Cons x xs)
  show ?case
  proof (cases k)
    case (Suc m)
    have "{ys. subseq ys (x # xs) \<and> length ys = Suc m} = (#) x ` {ys. subseq ys xs \<and> length ys = m} \<union> {ys. subseq ys xs \<and> length ys = Suc m}"
    proof (intro set_eqI iffI)
      fix ys
      assume "ys \<in> {ys. subseq ys (x # xs) \<and> length ys = Suc m}"
      then show "ys \<in> (#) x ` {ys. subseq ys xs \<and> length ys = m} \<union> {ys. subseq ys xs \<and> length ys = Suc m}"
        by (cases ys) (auto split: if_splits)
    qed (auto intro: list_emb_Cons)
    then show ?thesis using Cons Suc by simp
  qed auto
qed

lemma combinations_distinct: "distinct xs \<Longrightarrow> distinct (combinations xs k)"
proof (induction xs arbitrary: k)
  case (Cons x xs)
  have "x \<notin> set ys" if "ys \<in> set (combinations xs k)" for ys
    using that Cons.prems subseq_keeps [of ys xs id] by (auto simp: combinations_subseq)
  then have "set (map ((#) x) (combinations xs (k - 1))) \<inter> set (combinations xs k) = {}" by fastforce
  then show ?case using Cons by (auto simp: distinct_map inj_on_def)
qed simp

section \<open>One step of the loop\<close>

text \<open>The step written over the list from its end.\<close>

fun succ_comb :: "nat \<Rightarrow> nat list \<Rightarrow> nat list option" where
  "succ_comb n [] = None"
| "succ_comb n (x # xs) =
     (case succ_comb n xs of
        Some ys \<Rightarrow> Some (x # ys)
      | None \<Rightarrow> if x + length (x # xs) = n then None else Some [Suc x..<Suc x + length (x # xs)])"

lemma fill_after: "i \<le> m \<Longrightarrow> m \<le> k \<Longrightarrow> length ind = k \<Longrightarrow> i < k \<Longrightarrow>
  fold (\<lambda>j ind. ind[j := ind ! (j - 1) + 1]) [Suc i..<m] ind =
    take (Suc i) ind @ map (\<lambda>j. ind ! i + (j - i)) [Suc i..<m] @ drop (max (Suc i) m) ind"
proof (induction m)
  case (Suc m)
  show ?case
  proof (cases "Suc i \<le> m")
    case False
    then have "m = i \<or> Suc m = i" using Suc.prems by auto
    then show ?thesis using Suc.prems by auto
  next
    case True
    let ?g = "fold (\<lambda>j ind. ind[j := ind ! (j - 1) + 1]) [Suc i..<m] ind"
    let ?tl = "map (\<lambda>j. ind ! i + (j - i)) [Suc i..<m]"
    have g: "?g = take (Suc i) ind @ ?tl @ drop m ind" using Suc True by (simp add: max_def)
    have len: "length (take (Suc i) ind @ ?tl) = m" using True Suc.prems by simp
    have prev: "?g ! (m - 1) = ind ! i + (m - 1 - i)"
    proof (cases "m - 1 = i")
      case True
      then show ?thesis unfolding g using Suc.prems by (simp add: nth_append)
    next
      case False
      then show ?thesis unfolding g using True Suc.prems by (auto simp: nth_append)
    qed
    have "drop m ind = ind ! m # drop (Suc m) ind" using Suc.prems by (simp add: Cons_nth_drop_Suc)
    then have "?g[m := v] = take (Suc i) ind @ ?tl @ v # drop (Suc m) ind" for v
      unfolding g using len by (metis append.assoc list_update_length)
    moreover have "Suc (ind ! i + (m - 1 - i)) = ind ! i + (m - i)" using True by simp
    ultimately show ?thesis using True prev by (simp add: max_def)
  qed
qed simp

lemma find_append: "find P (xs @ ys) = (case find P xs of None \<Rightarrow> find P ys | Some x \<Rightarrow> Some x)"
  by (induction xs) auto

lemma find_map: "find P (map f xs) = map_option f (find (P \<circ> f) xs)"
  by (induction xs) auto

lemma find_cong: "(\<And>x. x \<in> set xs \<Longrightarrow> P x = Q x) \<Longrightarrow> find P xs = find Q xs"
  by (induction xs) auto

lemma succ_comb_find:
  "succ_comb n xs = (case find (\<lambda>i. xs ! i + (length xs - i) \<noteq> n) (rev [0..<length xs]) of
     None \<Rightarrow> None | Some i \<Rightarrow> Some (take i xs @ [Suc (xs ! i)..<Suc (xs ! i) + (length xs - i)]))"
proof (induction xs)
  case (Cons x xs)
  have upt: "rev [0..<length (x # xs)] = map Suc (rev [0..<length xs]) @ [0]"
    by (simp add: map_Suc_upt upt_conv_Cons rev_map [symmetric] del: upt_Suc)
  show ?case unfolding upt using Cons by (simp add: find_append find_map comp_def split: option.splits)
qed simp

lemma nextCombination_succ:
  assumes "length ind = k" and "k \<le> n"
  shows "nextCombination n k ind = succ_comb n ind"
proof -
  have same: "find (\<lambda>i. ind ! i \<noteq> i + n - k) (rev [0..<k]) = find (\<lambda>i. ind ! i + (length ind - i) \<noteq> n) (rev [0..<length ind])"
    unfolding assms(1) by (rule find_cong) (use assms in auto)
  show ?thesis
  proof (cases "find (\<lambda>i. ind ! i + (length ind - i) \<noteq> n) (rev [0..<length ind])")
    case None
    then show ?thesis unfolding nextCombination_def succ_comb_find same by simp
  next
    case (Some i)
    then have i: "i < k" using assms(1) by (auto simp: find_Some_iff rev_nth)
    let ?ind = "ind[i := ind ! i + 1]"
    have "fold (\<lambda>j ind. ind[j := ind ! (j - 1) + 1]) [Suc i..<k] ?ind =
        take (Suc i) ?ind @ map (\<lambda>j. ?ind ! i + (j - i)) [Suc i..<k]"
      using fill_after [of i k k ?ind] assms i by (simp add: max_def)
    also have "take (Suc i) ?ind = take i ind @ [Suc (ind ! i)]" using i assms by (simp add: take_Suc_conv_app_nth)
    also have "map (\<lambda>j. ?ind ! i + (j - i)) [Suc i..<k] = [Suc (Suc (ind ! i))..<Suc (ind ! i) + (k - i)]"
      using i assms by (intro nth_equalityI) (auto simp: nth_upt simp del: upt_Suc)
    finally have "fold (\<lambda>j ind. ind[j := ind ! (j - 1) + 1]) [Suc i..<k] ?ind =
        take i ind @ [Suc (ind ! i)..<Suc (ind ! i) + (k - i)]"
      using i by (simp add: upt_conv_Cons del: upt_Suc)
    then show ?thesis using Some unfolding nextCombination_def succ_comb_find same by (simp add: assms(1))
  qed
qed

section \<open>The sequence of subsets\<close>

abbreviation combs :: "nat \<Rightarrow> nat \<Rightarrow> nat \<Rightarrow> nat list list" where
  "combs lo n k \<equiv> combinations [lo..<n] k"

definition chained :: "nat \<Rightarrow> nat list list \<Rightarrow> bool" where
  "chained n cs \<longleftrightarrow> (\<forall>j. Suc j < length cs \<longrightarrow> succ_comb n (cs ! j) = Some (cs ! Suc j))"

lemma chained_append:
  assumes "chained n xs" and "chained n ys" and "xs \<noteq> []" and "ys \<noteq> []" and "succ_comb n (last xs) = Some (hd ys)"
  shows "chained n (xs @ ys)"
  unfolding chained_def
proof (intro allI impI)
  fix j
  assume j: "Suc j < length (xs @ ys)"
  consider "Suc j < length xs" | "Suc j = length xs" | "length xs \<le> j" by linarith
  then show "succ_comb n ((xs @ ys) ! j) = Some ((xs @ ys) ! Suc j)"
  proof cases
    case 1
    then show ?thesis using assms(1) by (simp add: chained_def nth_append)
  next
    case 2
    then have "(xs @ ys) ! j = last xs" using assms(3) by (simp add: nth_append last_conv_nth flip: 2)
    moreover have "(xs @ ys) ! Suc j = hd ys" using 2 assms(4) by (simp add: nth_append hd_conv_nth)
    ultimately show ?thesis using assms(5) by simp
  next
    case 3
    then have "Suc (j - length xs) < length ys" "Suc j - length xs = Suc (j - length xs)" using j by auto
    then show ?thesis using 3 assms(2) by (simp add: chained_def nth_append)
  qed
qed

lemma chained_map: "chained n cs \<Longrightarrow> chained n (map ((#) x) cs)"
  by (simp add: chained_def)

lemma combs_empty:
  assumes "n < lo + k" and "k \<noteq> 0"
  shows "combs lo n k = []"
proof -
  have "n - lo choose k = 0" using assms by (intro binomial_eq_0) linarith
  then have "length (combs lo n k) = 0" unfolding combinations_length by simp
  then show ?thesis by simp
qed

lemma succ_top: "k \<le> n \<Longrightarrow> succ_comb n [n - k..<n] = None"
proof -
  assume "k \<le> n"
  then have "find (\<lambda>i. [n - k..<n] ! i + (length [n - k..<n] - i) \<noteq> n) (rev [0..<length [n - k..<n]]) = None"
    by (auto simp: find_None_iff)
  then show ?thesis unfolding succ_comb_find by simp
qed

lemma combs_ends:
  assumes "lo + k \<le> n"
  shows "combs lo n k \<noteq> [] \<and> hd (combs lo n k) = [lo..<lo + k] \<and> last (combs lo n k) = [n - k..<n]"
  using assms
proof (induction "n - lo" arbitrary: lo k)
  case (Suc m)
  show ?case
  proof (cases k)
    case (Suc k')
    have lo: "lo < n" using Suc.hyps(2) by simp
    have c: "combs lo n k = map ((#) lo) (combs (Suc lo) n k') @ combs (Suc lo) n k"
      using lo Suc by (simp add: upt_conv_Cons)
    have in1: "combs (Suc lo) n k' \<noteq> []" "hd (combs (Suc lo) n k') = [Suc lo..<Suc lo + k']" "last (combs (Suc lo) n k') = [n - k'..<n]"
      using Suc.hyps(1) [of "Suc lo" k'] Suc.hyps(2) Suc.prems Suc by auto
    have hd: "hd (combs lo n k) = [lo..<lo + k]"
      unfolding c using in1 Suc by (simp add: hd_map upt_conv_Cons)
    show ?thesis
    proof (cases "Suc lo + k \<le> n")
      case True
      then have "combs (Suc lo) n k \<noteq> []" "last (combs (Suc lo) n k) = [n - k..<n]"
        using Suc.hyps(1) [of "Suc lo" k] Suc.hyps(2) by auto
      then show ?thesis using c hd by simp
    next
      case False
      then have "combs (Suc lo) n k = []"
        using Suc by (intro combs_empty) linarith+
      moreover have n: "n = Suc lo + k'" using False Suc.prems Suc lo by linarith
      then have "lo = n - k" "lo # [n - k'..<n] = [lo..<n]" using Suc by (auto simp: upt_conv_Cons)
      ultimately show ?thesis using c hd in1 by (simp add: last_map)
    qed
  qed simp
qed simp

lemma combs_chained: "lo + k \<le> n \<Longrightarrow> chained n (combs lo n k)"
proof (induction "n - lo" arbitrary: lo k)
  case 0
  then have "k = 0" by simp
  then show ?case by (simp add: chained_def)
next
  case (Suc m)
  show ?case
  proof (cases k)
    case 0
    then show ?thesis by (simp add: chained_def)
  next
    case (Suc k')
    have lo: "lo < n" using Suc.hyps(2) by simp
    have c: "combs lo n k = map ((#) lo) (combs (Suc lo) n k') @ combs (Suc lo) n k"
      using lo Suc by (simp add: upt_conv_Cons)
    have k': "Suc lo + k' \<le> n" using Suc.prems Suc by simp
    have ch: "chained n (map ((#) lo) (combs (Suc lo) n k'))"
      using Suc.hyps k' by (intro chained_map) simp
    note ends = combs_ends [OF k']
    show ?thesis
    proof (cases "Suc lo + k \<le> n")
      case True
      have l: "last (map ((#) lo) (combs (Suc lo) n k')) = lo # [n - k'..<n]" using ends by (simp add: last_map)
      have none: "succ_comb n [n - k'..<n] = None"
        using k' by (intro succ_top) simp
      have "succ_comb n (lo # [n - k'..<n]) = Some [Suc lo..<Suc lo + k]"
        using none True Suc k' by (simp del: upt_Suc)
      then show ?thesis
        unfolding c using chained_append [OF ch, of "combs (Suc lo) n k"] Suc.hyps True ends combs_ends [OF True] l by simp
    next
      case False
      then have "combs (Suc lo) n k = []" using Suc by (intro combs_empty) linarith+
      then show ?thesis using c ch by simp
    qed
  qed
qed

lemma succ_last: "k \<le> n \<Longrightarrow> succ_comb n (last (combs 0 n k)) = None"
  using combs_ends [of 0 k n] succ_top by simp

section \<open>The loop\<close>

text \<open>Running the callback over a list of subsets until it stops.\<close>

fun run_over :: "(nat list \<Rightarrow> 'st \<Rightarrow> (bool \<times> 'st) option) \<Rightarrow> nat list list \<Rightarrow> 'st \<Rightarrow> 'st option" where
  "run_over fn [] st = Some st"
| "run_over fn (c # cs) st =
     (case fn c st of None \<Rightarrow> None | Some (stop, st') \<Rightarrow> if stop then Some st' else run_over fn cs st')"

lemma visit_run:
  assumes "chained n cs" and "cs \<noteq> []" and "succ_comb n (last cs) = None" and "\<And>c. c \<in> set cs \<Longrightarrow> length c = k" and "k \<le> n"
  shows "visitCombinations (length cs) n k fn (hd cs) st = run_over fn cs st"
  using assms
proof (induction cs arbitrary: st)
  case (Cons c cs)
  have next_c: "nextCombination n k c = succ_comb n c" using Cons.prems(4,5) by (intro nextCombination_succ) auto
  show ?case
  proof (cases cs)
    case Nil
    then show ?thesis using next_c Cons.prems(3) by (auto split: option.splits prod.splits)
  next
    case (Cons d ds)
    have "succ_comb n c = Some d" using Cons.prems(1) Cons by (auto simp: chained_def)
    moreover have "chained n cs"
      unfolding chained_def
    proof (intro allI impI)
      fix j
      assume "Suc j < length cs"
      then show "succ_comb n (cs ! j) = Some (cs ! Suc j)"
        using Cons.prems(1) by (auto simp: chained_def dest: spec [of _ "Suc j"])
    qed
    then have "visitCombinations (length cs) n k fn (hd cs) st' = run_over fn cs st'" for st'
      using Cons.prems Cons.IH Cons by simp
    ultimately show ?thesis using next_c Cons by (auto split: option.splits prod.splits)
  qed
qed simp

lemma forEach_run:
  assumes "k \<noteq> 0" and "k \<le> n"
  shows "forEachShareCombination n k fn st = run_over fn (combs 0 n k) st"
proof -
  note ends = combs_ends [of 0 k n] and len = combinations_length [of "[0..<n]" k]
  have "visitCombinations (length (combs 0 n k)) n k fn (hd (combs 0 n k)) st = run_over fn (combs 0 n k) st"
    using combs_chained [of 0 k n] ends succ_last [of k n] assms by (intro visit_run) (auto simp: combinations_subseq)
  then show ?thesis using assms ends len by (simp add: forEachShareCombination_def)
qed

end
