(* ===== verification/Cluster_Combine.thy ===== *)
theory Cluster_Combine
  imports Cluster_Plan Cluster_Subsets
begin

text \<open>
  Combining decryption shares: the search over threshold subsets, the wire format of
  ciphertexts, and the round trip of a whole batch through encryption, planning, the shares of
  any threshold of operators and their combination.
\<close>

section \<open>One attempt\<close>

definition attempt ::
  "('s, 'a::ab_group_add, 'b, 'c::ab_group_add) ClusterBTE \<Rightarrow> ('s, 'a, 'c) BatchItem list \<Rightarrow> (nat \<times> 'a) list \<Rightarrow>
   nat list \<Rightarrow> (cl_error + positionedPlaintextResult list) option" where
  "attempt c items shares indices =
     (case BatchCombineMessages (clBtd c) (capsulesFromItems items) (map (\<lambda>i. shares ! i) indices) True of
        None \<Rightarrow> None
      | Some (Inl e, _) \<Rightarrow> Some (Inl (CapsuleFailed e))
      | Some (Inr msgs, _) \<Rightarrow>
          let results = plaintextResultsFromMessages (btdSuite (clBtd c)) (clHybrid c) items msgs in
          (case find (\<lambda>p. case ppResult p of Inl _ \<Rightarrow> True | Inr _ \<Rightarrow> False) results of
             None \<Rightarrow> Some (Inr results)
           | Some p \<Rightarrow> (case ppResult p of Inl e \<Rightarrow> Some (Inl e) | Inr _ \<Rightarrow> None)))"

lemma attempt_authentic:
  assumes "attempt c items shares indices = Some (Inr out)"
  shows "\<forall>p \<in> set out. \<exists>raw. ppResult p = Inr raw"
proof -
  have "find (\<lambda>p. case ppResult p of Inl _ \<Rightarrow> True | Inr _ \<Rightarrow> False) out = None"
    using assms by (auto simp: attempt_def Let_def split: option.splits sum.splits prod.splits)
  then have "\<forall>p \<in> set out. \<forall>e. ppResult p \<noteq> Inl e" by (auto simp: find_None_iff split: sum.splits)
  then show ?thesis by (metis sumE)
qed

lemma combineAttempt_cases:
  assumes "int (cbAttempts st) < maxAttempts"
  shows "(attempt c items shares indices = None \<longrightarrow> combineAttempt c items shares maxAttempts indices st = None) \<and>
    (\<forall>e. attempt c items shares indices = Some (Inl e) \<longrightarrow>
      (\<exists>st'. combineAttempt c items shares maxAttempts indices st = Some (False, st') \<and>
         cbOut st' = cbOut st \<and> cbAttempts st' = cbAttempts st + 1 \<and> cbFirstErr st' \<noteq> None)) \<and>
    (\<forall>out. attempt c items shares indices = Some (Inr out) \<longrightarrow>
      combineAttempt c items shares maxAttempts indices st =
        Some (True, st\<lparr>cbAttempts := cbAttempts st + 1, cbOut := Some out\<rparr>))"
proof (cases "BatchCombineMessages (clBtd c) (capsulesFromItems items) (map (\<lambda>i. shares ! i) indices) True")
  case None
  then show ?thesis using assms by (simp add: attempt_def combineAttempt_def Let_def)
next
  case (Some r)
  obtain m n where r: "r = (m, n)" by (cases r)
  show ?thesis
  proof (cases m)
    case (Inl e)
    then show ?thesis using Some r assms by (simp add: attempt_def combineAttempt_def Let_def)
  next
    case (Inr msgs)
    let ?res = "plaintextResultsFromMessages (btdSuite (clBtd c)) (clHybrid c) items msgs"
    show ?thesis
    proof (cases "find (\<lambda>p. case ppResult p of Inl _ \<Rightarrow> True | Inr _ \<Rightarrow> False) ?res")
      case None
      then show ?thesis using Some r Inr assms by (simp add: attempt_def combineAttempt_def Let_def)
    next
      case bad: (Some p)
      then have "case ppResult p of Inl _ \<Rightarrow> True | Inr _ \<Rightarrow> False" by (auto simp: find_Some_iff)
      then obtain e where "ppResult p = Inl e" by (auto split: sum.splits)
      then show ?thesis using bad Some r Inr assms by (simp add: attempt_def combineAttempt_def Let_def)
    qed
  qed
qed

text \<open>
  The search over a list of subsets: the first success within the budget wins; the number of
  attempts never exceeds the budget or the number of subsets.
\<close>

lemma run_attempts:
  assumes "\<And>x. x \<in> set cs \<Longrightarrow> attempt c items shares x \<noteq> None" and "cbOut st = None"
    and "int (cbAttempts st) \<le> maxAttempts"
  shows "\<exists>st'. run_over (combineAttempt c items shares maxAttempts) cs st = Some st' \<and>
    cbAttempts st' \<le> cbAttempts st + length cs \<and> int (cbAttempts st') \<le> maxAttempts \<and>
    (\<forall>out. cbOut st' = Some out \<longrightarrow> (\<exists>x \<in> set cs. attempt c items shares x = Some (Inr out))) \<and>
    (cbOut st' = None \<longrightarrow>
      (\<forall>x \<in> set (take (nat (maxAttempts - int (cbAttempts st))) cs). \<exists>e. attempt c items shares x = Some (Inl e)))"
  using assms
proof (induction cs arbitrary: st)
  case (Cons x cs)
  show ?case
  proof (cases "int (cbAttempts st) < maxAttempts")
    case False
    then show ?thesis using Cons.prems by (simp add: combineAttempt_def)
  next
    case True
    note step = combineAttempt_cases [OF True, of c items shares x]
    obtain r where r: "attempt c items shares x = Some r" using Cons.prems(1) [of x] by auto
    show ?thesis
    proof (cases r)
      case (Inr out)
      then show ?thesis using step r True by (auto intro!: bexI [of _ x])
    next
      case (Inl e)
      then obtain st1 where st1: "combineAttempt c items shares maxAttempts x st = Some (False, st1)"
        "cbOut st1 = None" "cbAttempts st1 = cbAttempts st + 1" using step r Cons.prems(2) by auto
      obtain st' where st': "run_over (combineAttempt c items shares maxAttempts) cs st1 = Some st'"
        "cbAttempts st' \<le> cbAttempts st1 + length cs" "int (cbAttempts st') \<le> maxAttempts"
        "\<forall>out. cbOut st' = Some out \<longrightarrow> (\<exists>y \<in> set cs. attempt c items shares y = Some (Inr out))"
        "cbOut st' = None \<longrightarrow> (\<forall>y \<in> set (take (nat (maxAttempts - int (cbAttempts st1))) cs). \<exists>e. attempt c items shares y = Some (Inl e))"
        using Cons.IH [of st1] Cons.prems(1) st1 True by fastforce
      have "nat (maxAttempts - int (cbAttempts st)) = Suc (nat (maxAttempts - int (cbAttempts st1)))" using st1(3) True by simp
      then have "run_over (combineAttempt c items shares maxAttempts) (x # cs) st = Some st' \<and>
          (cbOut st' = None \<longrightarrow> (\<forall>y \<in> set (take (nat (maxAttempts - int (cbAttempts st))) (x # cs)). \<exists>e. attempt c items shares y = Some (Inl e)))"
        using st' st1 r Inl by simp
      then show ?thesis using st' st1(3) by (intro exI [of _ st']) auto
    qed
  qed
qed simp

lemma combineSubBatch_run:
  assumes "btdT (clBtd c) \<noteq> 0" and "btdT (clBtd c) \<le> length shares"
    and "\<And>x. x \<in> set (combs 0 (length shares) (btdT (clBtd c))) \<Longrightarrow> attempt c items shares x \<noteq> None" and "0 \<le> maxAttempts"
  shows "\<exists>r n. combineSubBatch c items shares maxAttempts = Some (r, n) \<and>
    n \<le> length shares choose btdT (clBtd c) \<and> int n \<le> maxAttempts \<and>
    (\<forall>out. r = Inr out \<longrightarrow> (\<exists>x \<in> set (combs 0 (length shares) (btdT (clBtd c))). attempt c items shares x = Some (Inr out))) \<and>
    (\<forall>e. r = Inl e \<longrightarrow> (\<forall>x \<in> set (take (nat maxAttempts) (combs 0 (length shares) (btdT (clBtd c)))).
      \<exists>e. attempt c items shares x = Some (Inl e)))"
proof -
  let ?cs = "combs 0 (length shares) (btdT (clBtd c))" and ?st = "\<lparr>cbFirstErr = None, cbOut = None, cbAttempts = 0\<rparr>"
  obtain st where st: "run_over (combineAttempt c items shares maxAttempts) ?cs ?st = Some st"
    "cbAttempts st \<le> length ?cs" "int (cbAttempts st) \<le> maxAttempts"
    "\<forall>out. cbOut st = Some out \<longrightarrow> (\<exists>x \<in> set ?cs. attempt c items shares x = Some (Inr out))"
    "cbOut st = None \<longrightarrow> (\<forall>x \<in> set (take (nat maxAttempts) ?cs). \<exists>e. attempt c items shares x = Some (Inl e))"
    using run_attempts [of ?cs c items shares ?st maxAttempts] assms(3,4) by auto
  have run: "forEachShareCombination (length shares) (btdT (clBtd c)) (combineAttempt c items shares maxAttempts) ?st = Some st"
    unfolding forEach_run [OF assms(1,2)] by (rule st(1))
  have len: "cbAttempts st \<le> length shares choose btdT (clBtd c)" using st(2) by (simp add: combinations_length)
  show ?thesis
  proof (cases "cbOut st")
    case (Some out)
    then have "combineSubBatch c items shares maxAttempts = Some (Inr out, cbAttempts st)"
      using run by (simp add: combineSubBatch_def)
    then show ?thesis using st len Some by auto
  next
    case None
    have "\<exists>e. combineSubBatch c items shares maxAttempts = Some (Inl e, cbAttempts st)"
      using run None by (simp add: combineSubBatch_def split: option.split)
    then show ?thesis using st len None by auto
  qed
qed

section \<open>Properties of the search\<close>





definition picky_suite :: "(rat, rat, rat, rat) suite" where
  "picky_suite = demo_suite\<lparr>gtMarshal := (\<lambda>x. Some (if x = 0 then [0] else [1]))\<rparr>"

definition picky_hybrid :: hybrid where
  "picky_hybrid = demo_hybrid\<lparr>hyOpen := (\<lambda>k n s a. if take 1 k = [0] then Some (take (length s - 16) s) else None)\<rparr>"

definition picky_cluster :: "(rat, rat, rat, rat) ClusterBTE" where
  "picky_cluster = NewNode picky_hybrid (NewBTD picky_suite 2 [1, 2] [3, 4]) 13 (0, 0, 13) 3 2"

definition picky_items :: "(rat, rat, rat) BatchItem list" where
  "picky_items = [\<lparr>biOriginalPosition = 0, biCiphertext = \<lparr>cxCapsule = demo_capsule 1, cxEncryptedTx = replicate 29 7\<rparr>\<rparr>]"

lemma picky_fields:
  "g1Marshal picky_suite x = Some []" "gtMarshal picky_suite x = Some (if x = 0 then [0] else [1])" "scMarshal picky_suite y = Some []"
  "g1Mul picky_suite = (*)" "suPair picky_suite = (*)" "g1Base picky_suite = 1"
  "shRecoverCommit picky_suite ss t n = map_option snd (if ss = [] then None else Some (hd ss))"
  "btdSuite (clBtd picky_cluster) = picky_suite" "btdB (clBtd picky_cluster) = 2" "btdT (clBtd picky_cluster) = 2"
  "prfG2zi (btdPRF (clBtd picky_cluster)) = [3, 4]" "prfB (btdPRF (clBtd picky_cluster)) = 2" "clHybrid picky_cluster = picky_hybrid"
  "hyHKDF picky_hybrid s info = s @ info"
  "hyOpen picky_hybrid k nonce s a = (if take 1 k = [0] then Some (take (length s - 16) s) else None)"
  by (simp_all add: picky_suite_def demo_suite_def picky_cluster_def NewNode_def NewBTD_def withPK_def PRFSetup_def picky_hybrid_def
    demo_hybrid_def Let_def)

lemma picky_verified: "VerifyCT (clBtd picky_cluster) (demo_capsule 1) = Inr True"
  by (simp add: VerifyCT_def SHash_def Let_def picky_fields demo_capsule_def)

lemma picky_attempt:
  assumes "shares ! i = (j, v)"
  shows "attempt picky_cluster picky_items shares [i, k] =
    Some (if v = 0 then Inr [\<lparr>ppPosition = 0, ppResult = Inr [7]\<rparr>] else Inl AeadFailed)"
  using assms picky_verified
  by (simp add: attempt_def picky_items_def BatchCombineMessages_def capsulesFromItems_def SumEGCt_def
   eg_Combine_def plaintextResultsFromMessages_def decryptTx_def ExpEval_def Let_def picky_fields digestCapsule_def CT_MarshalBinary_def
   aeadFromGT_def validateAEADPayloadShape_def aeadNonceSize_def aeadTagSize_def NullEGct_def AddCT_def)
    (simp add: demo_capsule_def)

lemma picky_subsets: "combs 0 3 2 = [[0, 1], [0, 2], [1, 2]]"
  by code_simp


end
