(* ===== verification/Node_State.thy ===== *)
theory Node_State
  imports Envelope Cluster_Combine
begin

text \<open>
  The state of an operator node, and its table of decryption shares:
  \<^verbatim>\<open>bloc-node/internal/app/types.go\<close> and the functions of \<^verbatim>\<open>node.go\<close> that run under the slot's mutex
  to admit, prune and hand out shares.

  The Go type \<^verbatim>\<open>Node\<close> embeds the state of the active slot; here the record of the node extends the
  record of the slot. A clock reading is a \<open>time\<close>, the zero time is \<^term>\<open>None\<close>; the Unix time
  shown for a reading is the parameter \<open>neUnix\<close>. The Prometheus counters (\<^verbatim>\<open>observability\<close>, nil
  unless the node exports metrics) and the log lines are not modelled: nothing reads them back.
\<close>

section \<open>Types\<close>

text \<open>No post-agreement hook is installed by a node, so the decryption result of its slots is of type \<^typ>\<open>unit\<close>.\<close>

datatype slotPhase = slotPrepared | slotRunning | slotCompleted | slotFailed

record SlotFailure =
  sfSlot :: nat
  sfReason :: string
  sfFailedAtUnixNano :: int

record EthereumTxSummary =
  esHash :: string
  esFrom :: string
  esTo :: string
  esNonce :: nat
  esGas :: nat
  esEffectiveFeePerGasWei :: string
  esChainID :: string
  esType :: nat
  esSizeBytes :: int

record MaterializedTransactionSet =
  mtSlot :: nat
  mtAgreedSetHash :: string
  mtMergedSetHash :: string
  mtSelectedGas :: "64 word"
  mtEncryptedHashes :: "string list"
  mtPlaintextHashes :: "string list"
  mtEthereumTxHashes :: "string list"
  mtEthereumTxs :: "EthereumTxSummary option list"
  mtPlaintextsHex :: "string list"

record metricTimes =
  tmSlotStart :: "time option"
  tmProposalReady :: "time option"
  tmAcsDecision :: "time option"
  tmAcsOutputDecoded :: "time option"
  tmAgreedSetDone :: "time option"
  tmMergeDone :: "time option"
  tmCiphertextsDecoded :: "time option"
  tmPlanDone :: "time option"
  tmShareGenerationStart :: "time option"
  tmSharesDone :: "time option"
  tmThreshold :: "time option"
  tmCombineDone :: "time option"
  tmMaterialized :: "time option"

record Metrics =
  mxSubmittedTxs :: int
  mxSubmittedBytes :: int
  mxProposalTxs :: int
  mxProposalHash :: string
  mxAgreedLists :: int
  mxAgreedSetHash :: string
  mxAgreedCiphertexts :: int
  mxMergedSetHash :: string
  mxSelectedCiphertexts :: int
  mxSkippedCiphertexts :: int
  mxSelectedGas :: "64 word"
  mxMaxDecryptedGas :: "64 word"
  mxMaxDecryptedTxs :: int
  mxSubBatches :: int
  mxSharesGenerated :: int
  mxSharesAccepted :: int
  mxSharesRejected :: int
  mxShareSubsetAttempts :: int
  mxCombineAttempts :: int
  mxSharesNeededPerSub :: int
  mxOutboundMessages :: "(string, int) gomap"
  mxInboundMessages :: "(string, int) gomap"
  mxOutboundBytes :: "(string, int) gomap"
  mxInboundBytes :: "(string, int) gomap"
  mxSlotStartUnixNano :: int
  mxProposalReadyUnixNano :: int
  mxACSDecisionUnixNano :: int
  mxPlanDoneUnixNano :: int
  mxShareGenerationStartUnixNano :: int
  mxSharesDoneUnixNano :: int
  mxFirstShareUnixNano :: int
  mxThresholdUnixNano :: int
  mxCombineDoneUnixNano :: int
  mxMaterializedUnixNano :: int
  mxProposalPreparationUS :: int
  mxACSUS :: int
  mxMergePlanUS :: int
  mxACSOutputDecodeUS :: int
  mxAgreedSetUS :: int
  mxMergeUS :: int
  mxCiphertextDecodeUS :: int
  mxBatchPlanUS :: int
  mxShareGenerationUS :: int
  mxThresholdWaitUS :: int
  mxCombineUS :: int
  mxMaterializationUS :: int
  mxCommitToPlaintextUS :: int
  mxTotalSlotUS :: int
  mxMetricsFinalized :: bool
  mxACSMS :: int
  mxPlanMS :: int
  mxShareGenerationMS :: int
  mxCommitToPlaintextMS :: int
  mxTotalSlotMS :: int

record Result =
  rsSlot :: nat
  rsNodeID :: nat
  rsBatchID :: string
  rsCiphertexts :: nat
  rsPlaintexts :: "string list"
  rsMaterialized :: MaterializedTransactionSet
  rsLatencyMS :: int
  rsMetrics :: Metrics
  rsACSTrace :: ACSTrace

record FaultConfig =
  OmitProposal :: bool
  WithholdShare :: bool
  CorruptShare :: bool

record 'a retainedShare =
  rtValue :: "'a DecryptionShare"
  rtEncoded :: bytes

record 'a operatorShareCandidates =
  ocBatchID :: bytes
  ocBatchSet :: bool
  ocShares :: "(int, 'a retainedShare) gomap"

record ('s, 'a, 'c) slotState =
  ssId :: nat
  ssProposalLimit :: int
  ssPhase :: slotPhase
  ssSlot :: "unit SlotACS"
  ssStarted :: bool
  ssPending :: "EncryptedPlaceholder list"
  ssSeenPending :: "string list"
  ssPlan :: "('s, 'a, 'c) BatchPlan"
  ssMaterial :: MaterializedTransactionSet
  ssPlanned :: bool
  ssShareGenerationDone :: bool
  ssCombineInFlight :: bool
  ssShareVersion :: nat
  ssShareCandidates :: "(int, 'a operatorShareCandidates) gomap"
  ssCombineAttemptsLeft :: "int list"
  ssResult :: "Result option"
  ssFailure :: "SlotFailure option"
  ssMetrics :: Metrics
  ssMetricTimes :: metricTimes
  ssACSTrace :: ACSTrace

record ('s, 'a, 'b, 'c) Node = "('s, 'a, 'c) slotState" +
  ndCfg :: ConfigFile
  ndSelf :: nat
  ndNodeIDs :: "nat list"
  ndPeers :: "nat list"
  ndCluster :: "('s, 'a, 'b, 'c) ClusterBTE"
  ndSecret :: "int \<times> nat \<times> 's"
  ndPublicConfigID :: string
  ndFaults :: FaultConfig
  ndLastSlot :: nat
  ndCompletedSlots :: nat
  ndFailedSlots :: nat

text \<open>The libraries and services around the node.\<close>

record node_env =
  neSlotEnv :: slot_env
  neMergeEnv :: merge_env
  neListWire :: list_wire
  neProviderEnv :: provider_env
  neEncodeBlockBody :: "nat \<Rightarrow> AcceptedBatch list \<Rightarrow> bytes option"
  neUnix :: "time \<Rightarrow> int"
  neEthParse :: "bytes \<Rightarrow> string + EthereumTxSummary"
  neErrText :: "cl_error \<Rightarrow> string"

type_synonym ('s, 'a, 'b, 'c) node_fun = "('s, 'a, 'b, 'c) Node \<Rightarrow> ('s, 'a, 'b, 'c) Node"

section \<open>Metrics\<close>

definition on_metrics :: "(Metrics \<Rightarrow> Metrics) \<Rightarrow> ('s, 'a, 'b, 'c) node_fun" where
  "on_metrics f n = n\<lparr>ssMetrics := f (ssMetrics n)\<rparr>"

definition on_times :: "(metricTimes \<Rightarrow> metricTimes) \<Rightarrow> ('s, 'a, 'b, 'c) node_fun" where
  "on_times f n = n\<lparr>ssMetricTimes := f (ssMetricTimes n)\<rparr>"

definition durationUS :: "time option \<Rightarrow> time option \<Rightarrow> int" where
  "durationUS start end' =
     (case (start, end') of
        (Some a, Some b) \<Rightarrow> if b < a then 0 else (b - a) div 1000
      | _ \<Rightarrow> 0)"

definition refreshMetrics :: "metricTimes \<Rightarrow> Metrics \<Rightarrow> Metrics" where
  "refreshMetrics t m0 =
     (let m = m0\<lparr>
        mxProposalPreparationUS := durationUS (tmSlotStart t) (tmProposalReady t),
        mxACSUS := durationUS (tmProposalReady t) (tmAcsDecision t),
        mxMergePlanUS := durationUS (tmAcsDecision t) (tmPlanDone t),
        mxACSOutputDecodeUS := durationUS (tmAcsDecision t) (tmAcsOutputDecoded t),
        mxAgreedSetUS := durationUS (tmAcsOutputDecoded t) (tmAgreedSetDone t),
        mxMergeUS := durationUS (tmAgreedSetDone t) (tmMergeDone t),
        mxCiphertextDecodeUS := durationUS (tmMergeDone t) (tmCiphertextsDecoded t),
        mxBatchPlanUS := durationUS (tmCiphertextsDecoded t) (tmPlanDone t),
        mxShareGenerationUS := durationUS (tmShareGenerationStart t) (tmSharesDone t),
        mxThresholdWaitUS := durationUS (tmPlanDone t) (tmThreshold t),
        mxCombineUS := durationUS (tmThreshold t) (tmCombineDone t),
        mxMaterializationUS := durationUS (tmCombineDone t) (tmMaterialized t),
        mxCommitToPlaintextUS := durationUS (tmAcsDecision t) (tmMaterialized t),
        mxTotalSlotUS := durationUS (tmSlotStart t) (tmMaterialized t),
        mxMetricsFinalized := tmMaterialized t \<noteq> None \<and> tmSharesDone t \<noteq> None\<rparr>
      in m\<lparr>
        mxACSMS := mxACSUS m div 1000,
        mxPlanMS := mxMergePlanUS m div 1000,
        mxShareGenerationMS := mxShareGenerationUS m div 1000,
        mxCommitToPlaintextMS := mxCommitToPlaintextUS m div 1000,
        mxTotalSlotMS := mxTotalSlotUS m div 1000\<rparr>)"

definition refreshMetricsLocked :: "('s, 'a, 'b, 'c) node_fun" where
  "refreshMetricsLocked n = on_metrics (refreshMetrics (ssMetricTimes n)) n"

definition bump :: "string \<Rightarrow> int \<Rightarrow> (string, int) gomap \<Rightarrow> (string, int) gomap" where
  "bump k d m = AList.update k ((case map_of m k of None \<Rightarrow> 0 | Some v \<Rightarrow> v) + d) m"

definition recordInbound :: "string \<Rightarrow> int \<Rightarrow> ('s, 'a, 'b, 'c) node_fun" where
  "recordInbound kind sz = on_metrics (\<lambda>m. m\<lparr>mxInboundMessages := bump kind 1 (mxInboundMessages m),
     mxInboundBytes := bump kind sz (mxInboundBytes m)\<rparr>)"

definition recordOutbound :: "string \<Rightarrow> int \<Rightarrow> ('s, 'a, 'b, 'c) node_fun" where
  "recordOutbound kind sz = on_metrics (\<lambda>m. m\<lparr>mxOutboundMessages := bump kind 1 (mxOutboundMessages m),
     mxOutboundBytes := bump kind sz (mxOutboundBytes m)\<rparr>)"

definition recordShareRejectedLocked :: "('s, 'a, 'b, 'c) node_fun" where
  "recordShareRejectedLocked = on_metrics (\<lambda>m. m\<lparr>mxSharesRejected := mxSharesRejected m + 1\<rparr>)"

section \<open>The share table\<close>

datatype share_error =
    ShareNotConfigured int
  | BatchIDLength nat
  | BatchIDHex
  | SubBatchRange int
  | PointLength nat
  | PointHexInvalid
  | ShareNil int
  | ShareIndex int
  | ShareMarshal int
  | ShareBatch int
  | ShareOtherBatch int
  | ShareConflict int int
  | ShareCapacity

definition retainedShareCountLocked :: "('s, 'a, 'b, 'c) Node \<Rightarrow> nat" where
  "retainedShareCountLocked n = sum_list (map (\<lambda>(op, c). length (ocShares c)) (ssShareCandidates n))"

definition configuredOperator :: "('s, 'a, 'b, 'c) Node \<Rightarrow> int \<Rightarrow> bool" where
  "configuredOperator n op \<longleftrightarrow> uint64_of op \<in> set (ndPeers n) \<and> 0 \<le> op"

definition rejectShare :: "share_error \<Rightarrow> ('s, 'a, 'b, 'c) Node \<Rightarrow> (share_error + unit) \<times> ('s, 'a, 'b, 'c) Node" where
  "rejectShare e n = (Inl e, recordShareRejectedLocked n)"

definition candidatesOf :: "('s, 'a, 'b, 'c) Node \<Rightarrow> int \<Rightarrow> 'a operatorShareCandidates" where
  "candidatesOf n op =
     (case map_of (ssShareCandidates n) op of
        None \<Rightarrow> \<lparr>ocBatchID = replicate 32 0, ocBatchSet = False, ocShares = []\<rparr> | Some c \<Rightarrow> c)"

definition putCandidates :: "int \<Rightarrow> 'a operatorShareCandidates \<Rightarrow> ('s, 'a, 'b, 'c) node_fun" where
  "putCandidates op c n = n\<lparr>ssShareCandidates := AList.update op c (ssShareCandidates n)\<rparr>"

definition withShare :: "'a DecryptionShare \<Rightarrow> bytes \<Rightarrow> 'a operatorShareCandidates \<Rightarrow> 'a operatorShareCandidates" where
  "withShare d encoded c = c\<lparr>ocBatchID := dsBatchID d, ocBatchSet := True,
     ocShares := AList.update (dsSubBatchID d) \<lparr>rtValue = d, rtEncoded = encoded\<rparr> (ocShares c)\<rparr>"

definition noteAccepted :: "node_env \<Rightarrow> time \<Rightarrow> 'a DecryptionShare \<Rightarrow> ('s, 'a, 'b, 'c) node_fun" where
  "noteAccepted E now d n =
     on_metrics (\<lambda>m. m\<lparr>mxSharesAccepted := mxSharesAccepted m + 1,
       mxSharesGenerated := (if dsOperatorID d = int64_of (ndSelf n) then mxSharesGenerated m + 1 else mxSharesGenerated m),
       mxFirstShareUnixNano := (if mxFirstShareUnixNano m = 0 then neUnix E now else mxFirstShareUnixNano m)\<rparr>) n"

text \<open>The part of \<^verbatim>\<open>addShare\<close> under the mutex: the share \<open>d\<close> passed the checks on its own fields.\<close>

definition addShareLocked ::
  "node_env \<Rightarrow> time \<Rightarrow> 'a DecryptionShare \<Rightarrow> bytes \<Rightarrow> ('s, 'a, 'b, 'c) Node \<Rightarrow> (share_error + unit) \<times> ('s, 'a, 'b, 'c) Node" where
  "addShareLocked E now d encoded n =
     (if ssPlanned n \<and> dsBatchID d \<noteq> bpBatchID (ssPlan n) then rejectShare (ShareBatch (dsOperatorID d)) n
      else if ssPlanned n \<and> dsSubBatchID d \<ge> int (length (bpSubBatches (ssPlan n))) then rejectShare (SubBatchRange (dsSubBatchID d)) n
      else
        let cands = candidatesOf n (dsOperatorID d); n0 = putCandidates (dsOperatorID d) cands n in
        if ocBatchSet cands \<and> ocBatchID cands \<noteq> dsBatchID d then rejectShare (ShareOtherBatch (dsOperatorID d)) n0
        else case map_of (ocShares cands) (dsSubBatchID d) of
          Some existing \<Rightarrow>
            if rtEncoded existing = encoded then (Inr (), n0)
            else rejectShare (ShareConflict (dsOperatorID d) (dsSubBatchID d)) n0
        | None \<Rightarrow>
            let c1 = withShare d encoded cands; n1 = putCandidates (dsOperatorID d) c1 n0 in
            if int (retainedShareCountLocked n1) > cfN (ndCfg n1) * cfBMax (ndCfg n1)
            then rejectShare ShareCapacity
              (putCandidates (dsOperatorID d) (c1\<lparr>ocShares := AList.delete (dsSubBatchID d) (ocShares c1)\<rparr>) n1)
            else (Inr (), noteAccepted E now d (n1\<lparr>ssShareVersion := ssShareVersion n1 + 1\<rparr>)))"

definition addShare ::
  "node_env \<Rightarrow> time \<Rightarrow> 'a DecryptionShare \<Rightarrow> ('s, 'a, 'b, 'c) Node \<Rightarrow> (share_error + unit) \<times> ('s, 'a, 'b, 'c) Node" where
  "addShare E now d n =
     (if \<not> configuredOperator n (dsOperatorID d) then rejectShare (ShareNotConfigured (dsOperatorID d)) n
      else case dsShare d of
        None \<Rightarrow> rejectShare (ShareNil (dsOperatorID d)) n
      | Some (_, None) \<Rightarrow> rejectShare (ShareNil (dsOperatorID d)) n
      | Some (i, Some v) \<Rightarrow>
          if int i \<noteq> dsOperatorID d then rejectShare (ShareIndex (int i)) n
          else if dsSubBatchID d < 0 \<or> dsSubBatchID d \<ge> cfBMax (ndCfg n) then rejectShare (SubBatchRange (dsSubBatchID d)) n
          else case g1Marshal (btdSuite (clBtd (ndCluster n))) v of
            None \<Rightarrow> rejectShare (ShareMarshal (dsOperatorID d)) n
          | Some encoded \<Rightarrow> addShareLocked E now d encoded n)"

text \<open>
  \<^verbatim>\<open>pointSize\<close> is the encoded size of a point of the group. The conversions to \<^verbatim>\<open>uint32\<close> of an
  operator id and to 32 bytes of the batch id are written out.
\<close>

definition addWireShare ::
  "node_env \<Rightarrow> nat \<Rightarrow> time \<Rightarrow> WireShare \<Rightarrow> ('s, 'a, 'b, 'c) Node \<Rightarrow> (share_error + unit) \<times> ('s, 'a, 'b, 'c) Node" where
  "addWireShare E pointSize now w n =
     (if \<not> configuredOperator n (wsOperatorID w) then rejectShare (ShareNotConfigured (wsOperatorID w)) n
      else if length (wsBatchIDHex w) \<noteq> 64 then rejectShare (BatchIDLength (length (wsBatchIDHex w))) n
      else case hexDecode (wsBatchIDHex w) of
        None \<Rightarrow> rejectShare BatchIDHex n
      | Some batchID \<Rightarrow>
          if wsSubBatchID w < 0 \<or> wsSubBatchID w \<ge> cfBMax (ndCfg n) then rejectShare (SubBatchRange (wsSubBatchID w)) n
          else if length (wsPointHex w) \<noteq> pointSize * 2 then rejectShare (PointLength (length (wsPointHex w))) n
          else case unmarshalPointHex (btdSuite (clBtd (ndCluster n))) (wsPointHex w) of
            None \<Rightarrow> rejectShare PointHexInvalid n
          | Some point \<Rightarrow>
              addShare E now \<lparr>dsOperatorID = wsOperatorID w, dsBatchID = take 32 (batchID @ replicate 32 0),
                dsSubBatchID = wsSubBatchID w,
                dsShare = Some (nat (wsOperatorID w mod 2 ^ 32), Some point)\<rparr> n)"

definition retainedSharesLocked :: "('s, 'a, 'b, 'c) Node \<Rightarrow> 'a DecryptionShare list" where
  "retainedSharesLocked n =
     concat (map (\<lambda>operatorID.
       case map_of (ssShareCandidates n) (int64_of operatorID) of
         None \<Rightarrow> []
       | Some cands \<Rightarrow> map (\<lambda>k. rtValue (the (map_of (ocShares cands) k))) (sortSlice (<) (map fst (ocShares cands))))
       (ndNodeIDs n))"

definition pruneShareCandidatesLocked :: "('s, 'a, 'c) BatchPlan \<Rightarrow> ('s, 'a, 'b, 'c) node_fun" where
  "pruneShareCandidatesLocked plan n =
     n\<lparr>ssShareCandidates :=
       map (\<lambda>(op, c). (op, c\<lparr>ocShares := filter (\<lambda>(k, _). 0 \<le> k \<and> k < int (length (bpSubBatches plan))) (ocShares c)\<rparr>))
         (filter (\<lambda>(op, c). ocBatchSet c \<and> ocBatchID c = bpBatchID plan) (ssShareCandidates n))\<rparr>"

definition marshalShare :: "('s, 'a, 'b, 'c) Node \<Rightarrow> 'a DecryptionShare \<Rightarrow> WireShare option" where
  "marshalShare n d =
     (case dsShare d of
        Some (_, Some v) \<Rightarrow>
          map_option (\<lambda>h. \<lparr>wsOperatorID = dsOperatorID d, wsBatchIDHex = hexEncode (dsBatchID d), wsSubBatchID = dsSubBatchID d,
            wsPointHex = h\<rparr>) (marshalPointHex (btdSuite (clBtd (ndCluster n))) v)
      | _ \<Rightarrow> None)"

definition corruptHex :: "string \<Rightarrow> string" where
  "corruptHex s = (case s of [] \<Rightarrow> [] | c # cs \<Rightarrow> if c = CHR ''0'' then CHR ''1'' # cs else CHR ''0'' # cs)"

definition hasThresholdPerSubBatch :: "'a DecryptionShare list \<Rightarrow> ('s, 'a, 'c) BatchPlan \<Rightarrow> int \<Rightarrow> bool" where
  "hasThresholdPerSubBatch shares plan threshold \<longleftrightarrow>
     (\<forall>i < length (bpSubBatches plan).
        threshold \<le> int (length (remdups (map dsOperatorID (filter (\<lambda>d. dsSubBatchID d = int i) shares)))))"

definition matchingSharesForPlan :: "'a DecryptionShare list \<Rightarrow> ('s, 'a, 'c) BatchPlan \<Rightarrow> 'a DecryptionShare list \<times> nat" where
  "matchingSharesForPlan shares plan =
     (let good = (\<lambda>d. dsBatchID d = bpBatchID plan \<and> 0 \<le> dsSubBatchID d \<and> dsSubBatchID d < int (length (bpSubBatches plan)))
      in (filter good shares, length (filter (\<lambda>d. \<not> good d) shares)))"

section \<open>Combination attempts\<close>

record ('s, 'a, 'c) combine_attempt =
  caPlan :: "('s, 'a, 'c) BatchPlan"
  caMaterial :: MaterializedTransactionSet
  caShares :: "'a DecryptionShare list"
  caShareVersion :: nat
  caAttemptLimits :: "int list"

definition claimCombine :: "('s, 'a, 'b, 'c) Node \<Rightarrow> ('s, 'a, 'c) combine_attempt option \<times> ('s, 'a, 'b, 'c) Node" where
  "claimCombine n =
     (if ssResult n \<noteq> None \<or> ssFailure n \<noteq> None \<or> \<not> ssPlanned n \<or> \<not> ssShareGenerationDone n \<or> ssCombineInFlight n
      then (None, n)
      else
        let shares = retainedSharesLocked n in
        if \<not> hasThresholdPerSubBatch shares (ssPlan n) (cfThreshold (ndCfg n)) then (None, n)
        else if \<exists>i < length (bpSubBatches (ssPlan n)). i \<ge> length (ssCombineAttemptsLeft n) \<or> ssCombineAttemptsLeft n ! i \<le> 0
          then (None, n)
        else if shares = [] then (None, n)
        else
          (Some \<lparr>caPlan = ssPlan n, caMaterial = ssMaterial n, caShares = shares, caShareVersion = ssShareVersion n,
             caAttemptLimits = ssCombineAttemptsLeft n\<rparr>,
           on_metrics (\<lambda>m. m\<lparr>mxCombineAttempts := mxCombineAttempts m + 1\<rparr>) (n\<lparr>ssCombineInFlight := True\<rparr>)))"

text \<open>The budget of a sub-batch never becomes negative.\<close>

definition spend :: "int list \<Rightarrow> nat list \<Rightarrow> int list" where
  "spend left stats = map (\<lambda>i. if i < length stats then max 0 (left ! i - int (stats ! i)) else left ! i) [0..<length left]"

definition recordCombineStats :: "nat list \<Rightarrow> ('s, 'a, 'b, 'c) node_fun" where
  "recordCombineStats stats n =
     on_metrics (\<lambda>m. m\<lparr>mxShareSubsetAttempts := mxShareSubsetAttempts m + int (sum_list stats)\<rparr>)
       (n\<lparr>ssCombineAttemptsLeft := spend (ssCombineAttemptsLeft n) stats\<rparr>)"

definition finishFailedCombine :: "nat \<Rightarrow> ('s, 'a, 'b, 'c) Node \<Rightarrow> bool \<times> ('s, 'a, 'b, 'c) Node" where
  "finishFailedCombine attemptVersion n =
     (ssResult n = None \<and> ssFailure n = None \<and> ssShareVersion n > attemptVersion, n\<lparr>ssCombineInFlight := False\<rparr>)"

text \<open>The options with which an attempt calls \<^verbatim>\<open>CombineSharesBounded\<close>, and the call.\<close>

definition runCombine ::
  "('s, 'a::ab_group_add, 'b, 'c::ab_group_add) Node \<Rightarrow> ('s, 'a, 'c) combine_attempt \<Rightarrow>
   ((cl_error + PlaintextResult option list) \<times> nat list) option" where
  "runCombine n a =
     CombineSharesBounded (ndCluster n) (caPlan a) (caShares a)
       \<lparr>MaxAttemptsPerSubBatch = MaxCombineAttemptsPerSubBatch (cfLimits (ndCfg n)),
        AttemptLimitsBySubBatch = (if caAttemptLimits a = [] then None else Some (caAttemptLimits a))\<rparr>"

end
