(* ===== verification/Node.thy ===== *)
theory Node
  imports Node_State
begin

text \<open>
  The operator node: \<^verbatim>\<open>bloc-node/internal/app/node.go\<close>. A slot is prepared, collects transactions,
  proposes its inclusion list to the common subset, and from the decided lists computes one
  batch plan, exchanges decryption shares and combines them into the transactions of the slot.

  A handler is a function from the node to the messages it schedules and the new node. The
  goroutine that sends a scheduled message is the separate operation \<open>sendEnvelopeTracked\<close>,
  applied to what the transport reports. Handlers take the clock readings they use as a function
  \<open>clk\<close>. A panic is \<^term>\<open>None\<close>. The HTTP layer is modelled by the status code it answers with.
\<close>

section \<open>Slots\<close>

definition zeroTimes :: metricTimes where
  "zeroTimes = \<lparr>tmSlotStart = None, tmProposalReady = None, tmAcsDecision = None, tmAcsOutputDecoded = None, tmAgreedSetDone = None,
     tmMergeDone = None, tmCiphertextsDecoded = None, tmPlanDone = None, tmShareGenerationStart = None, tmSharesDone = None,
     tmThreshold = None, tmCombineDone = None, tmMaterialized = None\<rparr>"

definition newMetrics :: "ConfigFile \<Rightarrow> Metrics" where
  "newMetrics cfg = \<lparr>mxSubmittedTxs = 0, mxSubmittedBytes = 0, mxProposalTxs = 0, mxProposalHash = [], mxAgreedLists = 0,
     mxAgreedSetHash = [], mxAgreedCiphertexts = 0, mxMergedSetHash = [], mxSelectedCiphertexts = 0, mxSkippedCiphertexts = 0,
     mxSelectedGas = 0, mxMaxDecryptedGas = MaxDecryptedGas (cfBlockspace cfg),
     mxMaxDecryptedTxs = EffectiveMaxDecryptedTxs (cfBlockspace cfg) (cfBMax cfg), mxSubBatches = 0, mxSharesGenerated = 0,
     mxSharesAccepted = 0, mxSharesRejected = 0, mxShareSubsetAttempts = 0, mxCombineAttempts = 0,
     mxSharesNeededPerSub = cfThreshold cfg, mxOutboundMessages = [], mxInboundMessages = [], mxOutboundBytes = [],
     mxInboundBytes = [], mxSlotStartUnixNano = 0, mxProposalReadyUnixNano = 0, mxACSDecisionUnixNano = 0, mxPlanDoneUnixNano = 0,
     mxShareGenerationStartUnixNano = 0, mxSharesDoneUnixNano = 0, mxFirstShareUnixNano = 0, mxThresholdUnixNano = 0,
     mxCombineDoneUnixNano = 0, mxMaterializedUnixNano = 0, mxProposalPreparationUS = 0, mxACSUS = 0, mxMergePlanUS = 0,
     mxACSOutputDecodeUS = 0, mxAgreedSetUS = 0, mxMergeUS = 0, mxCiphertextDecodeUS = 0, mxBatchPlanUS = 0,
     mxShareGenerationUS = 0, mxThresholdWaitUS = 0, mxCombineUS = 0, mxMaterializationUS = 0, mxCommitToPlaintextUS = 0,
     mxTotalSlotUS = 0, mxMetricsFinalized = False, mxACSMS = 0, mxPlanMS = 0, mxShareGenerationMS = 0,
     mxCommitToPlaintextMS = 0, mxTotalSlotMS = 0\<rparr>"

definition zeroMaterial :: MaterializedTransactionSet where
  "zeroMaterial = \<lparr>mtSlot = 0, mtAgreedSetHash = [], mtMergedSetHash = [], mtSelectedGas = 0, mtEncryptedHashes = [],
     mtPlaintextHashes = [], mtEthereumTxHashes = [], mtEthereumTxs = [], mtPlaintextsHex = []\<rparr>"

definition zeroPlan :: "('s, 'a, 'c) BatchPlan" where
  "zeroPlan = \<lparr>bpBatchID = replicate 32 0, bpAlpha = 0, bpSubBatches = []\<rparr>"

text \<open>\<^term>\<open>None\<close> when the constructor of the common subset panics.\<close>

definition newSlotStateWithLimit ::
  "node_env \<Rightarrow> ConfigFile \<Rightarrow> nat \<Rightarrow> nat list \<Rightarrow> nat \<Rightarrow> int \<Rightarrow> ('s, 'a, 'c) slotState option" where
  "newSlotStateWithLimit E cfg selfID nodeIDs slotID proposalLimit =
     map_option (\<lambda>slot.
       \<lparr>ssId = slotID, ssProposalLimit = proposalLimit, ssPhase = slotPrepared, ssSlot = slot, ssStarted = False, ssPending = [],
        ssSeenPending = [], ssPlan = zeroPlan, ssMaterial = zeroMaterial, ssPlanned = False, ssShareGenerationDone = False,
        ssCombineInFlight = False, ssShareVersion = 0, ssShareCandidates = [], ssCombineAttemptsLeft = [], ssResult = None,
        ssFailure = None, ssMetrics = newMetrics cfg, ssMetricTimes = zeroTimes, ssACSTrace = emptyTrace\<rparr>)
     (NewSlotACS (neSlotEnv E)
       \<lparr>cfgN = cfN cfg, cfgF = (cfN cfg - 1) sdiv 3, cfgID = selfID, cfgNodes = nodeIDs, cfgBatchSize = cfBMax cfg\<rparr>
       slotID (dcACSTrace (cfDiagnostics cfg))
       \<lparr>hkBuilder = None, hkPost = None, hkEncodeSlotBlockBody = neEncodeBlockBody E\<rparr>)"

definition newSlotState :: "node_env \<Rightarrow> ConfigFile \<Rightarrow> nat \<Rightarrow> nat list \<Rightarrow> nat \<Rightarrow> ('s, 'a, 'c) slotState option" where
  "newSlotState E cfg selfID nodeIDs slotID = newSlotStateWithLimit E cfg selfID nodeIDs slotID 0"

datatype prepare_error =
    ProposalLimitRange int
  | SlotNotGreater nat nat
  | SlotBusy nat slotPhase
  | TracePending nat

definition installSlot :: "node_env \<Rightarrow> nat \<Rightarrow> int \<Rightarrow> ('s, 'a, 'b, 'c) Node \<Rightarrow> ('s, 'a, 'b, 'c) Node option" where
  "installSlot E slotID proposalLimit n =
     (let cfg = (ndCfg n)\<lparr>cfSlot := slotID\<rparr> in
      map_option (\<lambda>st. slotState.extend st (slotState.more (n\<lparr>ndCfg := cfg, ndLastSlot := slotID\<rparr>)))
        (newSlotStateWithLimit E cfg (ndSelf n) (ndNodeIDs n) slotID proposalLimit))"

definition prepareSlotWithLimit ::
  "node_env \<Rightarrow> nat \<Rightarrow> int \<Rightarrow> ('s, 'a, 'b, 'c) Node \<Rightarrow> ((prepare_error + unit) \<times> ('s, 'a, 'b, 'c) Node) option" where
  "prepareSlotWithLimit E slotID proposalLimit n =
     (if proposalLimit < 0 \<or> proposalLimit > cfBMax (ndCfg n) then Some (Inl (ProposalLimitRange proposalLimit), n)
      else if slotID = ssId n \<and> ssPhase n = slotPrepared \<and> ssProposalLimit n = 0 \<and> proposalLimit > 0
        then Some (Inr (), n\<lparr>ssProposalLimit := proposalLimit\<rparr>)
      else if slotID \<le> ndLastSlot n then Some (Inl (SlotNotGreater slotID (ndLastSlot n)), n)
      else if ssPhase n \<noteq> slotCompleted \<and> ssPhase n \<noteq> slotFailed then Some (Inl (SlotBusy (ssId n) (ssPhase n)), n)
      else if ssPhase n = slotCompleted \<and> dcACSTrace (cfDiagnostics (ndCfg n)) \<and> \<not> TraceFinalized (ssSlot n)
        then Some (Inl (TracePending (ssId n)), n)
      else map_option (\<lambda>n'. (Inr (), n')) (installSlot E slotID proposalLimit n))"

definition prepareSlot :: "node_env \<Rightarrow> nat \<Rightarrow> ('s, 'a, 'b, 'c) Node \<Rightarrow> ((prepare_error + unit) \<times> ('s, 'a, 'b, 'c) Node) option" where
  "prepareSlot E slotID n = prepareSlotWithLimit E slotID 0 n"

definition normalizeFailureReason :: "string \<Rightarrow> string" where
  "normalizeFailureReason reason =
     (if reason \<in> {''proposal'', ''acs'', ''decode'', ''planning'', ''share'', ''combine''} then reason else ''unknown'')"

definition markSlotFailed :: "node_env \<Rightarrow> time \<Rightarrow> string \<Rightarrow> ('s, 'a, 'b, 'c) node_fun" where
  "markSlotFailed E failedAt reason n =
     (if ssResult n \<noteq> None \<or> ssFailure n \<noteq> None then n
      else n\<lparr>ssFailure := Some \<lparr>sfSlot = ssId n, sfReason = normalizeFailureReason reason, sfFailedAtUnixNano = neUnix E failedAt\<rparr>,
        ssPhase := slotFailed, ndFailedSlots := ndFailedSlots n + 1\<rparr>)"

section \<open>Submitted transactions\<close>

record SubmitTxRequest =
  srRawTx :: string
  srGas :: "64 word"
  srEffectiveFeePerGasWei :: string
  srFrom :: string
  srNonce :: nat
  srKind :: string

definition parseUint64 :: "string \<Rightarrow> nat option" where
  "parseUint64 raw =
     (if raw = [] then None
      else case parseDigits 0 raw of None \<Rightarrow> None | Some v \<Rightarrow> if v < 2 ^ 64 then Some v else None)"

text \<open>The \<^verbatim>\<open>slot\<close> parameter of a request: absent (empty) or the active slot.\<close>

definition validateRequestedSlotLocked :: "string \<Rightarrow> ('s, 'a, 'b, 'c) Node \<Rightarrow> bool" where
  "validateRequestedSlotLocked raw n \<longleftrightarrow> raw = [] \<or> parseUint64 raw = Some (ssId n)"

text \<open>
  \<^verbatim>\<open>/tx\<close>. \<open>json\<close> is \<^term>\<open>None\<close> unless the request declares JSON; then it is the decoder, which fills
  the fields the body mentions. \<open>r\<close> is the randomness of the encryption.
\<close>

definition handleSubmitTx ::
  "node_env \<Rightarrow> string \<Rightarrow> (SubmitTxRequest \<Rightarrow> bytes \<Rightarrow> SubmitTxRequest option) option \<Rightarrow> bytes \<Rightarrow> 's tx_randomness \<Rightarrow>
   ('s::field, 'a::ab_group_add, 'b, 'c::ab_group_add) Node \<Rightarrow> nat \<times> ('s, 'a, 'b, 'c) Node" where
  "handleSubmitTx E slotParam json body0 r n =
     (let M = neMergeEnv E; body = take 2097152 body0;
          req0 = \<lparr>srRawTx = [], srGas = DefaultTxGas (cfBlockspace (ndCfg n)), srEffectiveFeePerGasWei = ''0'', srFrom = [],
            srNonce = 0, srKind = ''placeholder''\<rparr> in
      if \<not> validateRequestedSlotLocked slotParam n then (409, n)
      else if ssPhase n \<noteq> slotPrepared then (409, n)
      else case (case json of
             None \<Rightarrow> Some (req0, body)
           | Some dec \<Rightarrow> (case dec req0 body of
               None \<Rightarrow> None
             | Some req \<Rightarrow> (case decodeHexMaybe M (srRawTx req) of Inl _ \<Rightarrow> None | Inr raw \<Rightarrow> Some (req, raw)))) of
        None \<Rightarrow> (400, n)
      | Some (req1, raw) \<Rightarrow>
          let req2 = (if srGas req1 = 0 then req1\<lparr>srGas := DefaultTxGas (cfBlockspace (ndCfg n))\<rparr> else req1);
              req3 = (if srKind req2 = [] then req2\<lparr>srKind := ''placeholder''\<rparr> else req2);
              req = (if srEffectiveFeePerGasWei req3 = [] then req3\<lparr>srEffectiveFeePerGasWei := ''0''\<rparr> else req3) in
          if \<not> validNonNegativeDecimal M (srEffectiveFeePerGasWei req) then (400, n)
          else
            let index = int (length (ssPending n)) mod cfBMax (ndCfg n) in
            case EncryptTx (ndCluster n) raw index r of
              Inl _ \<Rightarrow> (400, n)
            | Inr ct \<Rightarrow>
                (case Ciphertext_MarshalBinary (btdSuite (clBtd (ndCluster n))) ct of
                   Inl _ \<Rightarrow> (500, n)
                 | Inr encoded \<Rightarrow>
                     let hash = hashHex M encoded;
                         item = \<lparr>epHash = hash, epCiphertext = encoded, epGas = srGas req,
                           epEffectiveFeePerGasWei = srEffectiveFeePerGasWei req, epFrom = ToLower (meUniLower M) (srFrom req),
                           epNonce = srNonce req, epKind = srKind req\<rparr>
                     in if hash \<in> set (ssSeenPending n) then (200, n)
                        else if int (length (ssPending n)) \<ge> cfBMax (ndCfg n) then (413, n)
                        else
                          let candidateItems = ssPending n @ [item] in
                          (case EncodeList (neListWire E) \<lparr>ilSlot = ssId n, ilOperatorID = ndSelf n, ilItems = candidateItems, ilHash = []\<rparr> of
                             Inl _ \<Rightarrow> (500, n)
                           | Inr candidateEncoded \<Rightarrow>
                               if int (length candidateEncoded) > MaxProposalBytes (cfLimits (ndCfg n)) then (413, n)
                               else (200, on_metrics (\<lambda>m. m\<lparr>mxSubmittedTxs := mxSubmittedTxs m + 1,
                                   mxSubmittedBytes := mxSubmittedBytes m + int (length raw)\<rparr>)
                                 (n\<lparr>ssPending := candidateItems, ssSeenPending := hash # ssSeenPending n\<rparr>)))))"

section \<open>Driving the common subset\<close>

record pendingEnvelope =
  peTo :: nat
  peEnvelope :: WireEnvelope
  peTraceToken :: "ACSSendToken option"

datatype step_error =
    StepFailed slot_error
  | StepPanicked
  | ClassifyFailed

definition zeroObservation :: "bool \<Rightarrow> ACSSendObservation" where
  "zeroObservation err = \<lparr>ObsSize = 0, ObsTotal = 0, ObsEncode = 0, ObsQueueWait = 0, ObsStreamOpen = 0, ObsWrite = 0, ObsFinalize = 0,
     ObsReused = False, ObsErr = err\<rparr>"

definition completeToken :: "ACSSendObservation \<Rightarrow> ACSSendToken option \<Rightarrow> unit SlotACS \<Rightarrow> unit SlotACS" where
  "completeToken obs token s = s\<lparr>saTrace := snd (Complete obs token (saTrace s))\<rparr>"

fun collectACSMessagesFrom ::
  "nat \<Rightarrow> nat \<Rightarrow> SlotMessage MessageTuple list \<Rightarrow> pendingEnvelope list \<Rightarrow> unit SlotACS \<Rightarrow>
   (step_error + pendingEnvelope list) \<times> unit SlotACS" where
  "collectACSMessagesFrom selfID slotID [] out s = (Inr out, s)"
| "collectACSMessagesFrom selfID slotID (msg # msgs) out s =
     (case classifyACSMessage (Some (mtPayload msg)) of
        Inl _ \<Rightarrow> (Inl ClassifyFailed, fold (\<lambda>e. completeToken (zeroObservation True) (peTraceToken e)) out s)
      | Inr subtype \<Rightarrow>
          (case BeginACSOutbound subtype s of
             (token, s') \<Rightarrow>
               collectACSMessagesFrom selfID slotID msgs
                 (out @ [\<lparr>peTo = mtTo msg,
                    peEnvelope = \<lparr>weFrom = selfID, weTo = 0, weDirect = False, weKind = ''acs'', weSlot = slotID,
                      weACS = Some (mtPayload msg), weShare = None\<rparr>, peTraceToken = token\<rparr>]) s'))"

definition collectACSMessages ::
  "nat \<Rightarrow> nat \<Rightarrow> unit SlotACS \<Rightarrow> (step_error + pendingEnvelope list) \<times> unit SlotACS" where
  "collectACSMessages selfID slotID s =
     (let (msgs, s1) = slot_Messages s in collectACSMessagesFrom selfID slotID msgs [] s1)"

text \<open>One transition of the common subset with its messages and its output.\<close>

definition stepACS ::
  "(unit SlotACS \<Rightarrow> slot_error status \<times> unit SlotACS) \<Rightarrow> ('s, 'a, 'b, 'c) Node \<Rightarrow>
   (step_error + unit SlotOutput option \<times> pendingEnvelope list) \<times> ('s, 'a, 'b, 'c) Node" where
  "stepACS step n =
     (case step (ssSlot n) of
        (Err e, s) \<Rightarrow> (Inl (StepFailed e), n\<lparr>ssSlot := s\<rparr>)
      | (Panic, s) \<Rightarrow> (Inl StepPanicked, n\<lparr>ssSlot := s\<rparr>)
      | (Diverge, s) \<Rightarrow> (Inl StepPanicked, n\<lparr>ssSlot := s\<rparr>)
      | (NoErr, s) \<Rightarrow>
          (case collectACSMessages (ndSelf n) (ssId n) s of
             (Inl e, s1) \<Rightarrow> (Inl e, n\<lparr>ssSlot := s1\<rparr>)
           | (Inr messages, s1) \<Rightarrow>
               (case slot_takeOutput s1 of
                  (out, s2) \<Rightarrow>
                    (Inr (out, messages), n\<lparr>ssSlot := (case out of None \<Rightarrow> s2 | Some _ \<Rightarrow> SealACSOutbound s2)\<rparr>))))"

definition captureACSTrace :: "node_env \<Rightarrow> ('s, 'a, 'b, 'c) node_fun" where
  "captureACSTrace E n =
     (let s = MarkNodeOutputReceived (neSlotEnv E) (ssSlot n) in n\<lparr>ssSlot := s, ssACSTrace := slot_Trace s\<rparr>)"

text \<open>
  What the transport reports for a message that was scheduled. A message of an earlier slot is
  not sent; its token belongs to the recorder of that slot, which the node no longer has.
\<close>

definition sendEnvelopeTracked ::
  "WireEnvelope \<Rightarrow> ACSSendToken option \<Rightarrow> ACSSendObservation \<Rightarrow> ('s, 'a, 'b, 'c) node_fun" where
  "sendEnvelopeTracked env token obs n =
     (if weSlot env \<noteq> ssId n then n
      else
        let n1 = (if ObsErr obs then n else recordOutbound (weKind env) (ObsSize obs) n)
        in n1\<lparr>ssSlot := completeToken obs token (ssSlot n1)\<rparr>)"

section \<open>From the decision to the plan\<close>

datatype list_error =
    AcceptedUndecodable nat
  | AcceptedWrongSlot nat nat
  | AcceptedWrongOperator nat nat

definition decodeAcceptedLists :: "list_wire \<Rightarrow> nat \<Rightarrow> AcceptedBatch list \<Rightarrow> list_error + InclusionList list" where
  "decodeAcceptedLists W expectedSlot batches =
     each (\<lambda>accepted.
       case DecodeList W (abBatch accepted) of
         Inl _ \<Rightarrow> Inl (AcceptedUndecodable (abProposerID accepted))
       | Inr l \<Rightarrow>
           if ilSlot l \<noteq> expectedSlot then Inl (AcceptedWrongSlot (abProposerID accepted) (ilSlot l))
           else if ilOperatorID l \<noteq> abProposerID accepted then Inl (AcceptedWrongOperator (abProposerID accepted) (ilOperatorID l))
           else Inr l) batches"

text \<open>The metrics both outcomes of the decision record.\<close>

definition recordDecision ::
  "node_env \<Rightarrow> (nat \<Rightarrow> time) \<Rightarrow> time \<Rightarrow> AgreedInclusionSet \<Rightarrow> MergedEncryptedSet \<Rightarrow> ('s, 'a, 'b, 'c) node_fun" where
  "recordDecision E clk planAt agreed merged n =
     on_metrics (\<lambda>m. m\<lparr>mxACSDecisionUnixNano := neUnix E (clk 0), mxPlanDoneUnixNano := neUnix E planAt,
         mxShareGenerationStartUnixNano := neUnix E planAt, mxAgreedLists := int (length (asLists agreed)),
         mxAgreedSetHash := asHash agreed, mxAgreedCiphertexts := int (asTotalItems agreed), mxMergedSetHash := msHash merged,
         mxSelectedCiphertexts := int (length (msItems merged)), mxSkippedCiphertexts := msSkippedItems merged,
         mxSelectedGas := msSelectedGas merged\<rparr>)
      (on_times (\<lambda>t. t\<lparr>tmAcsDecision := Some (clk 0), tmAcsOutputDecoded := Some (clk 1), tmAgreedSetDone := Some (clk 2),
         tmMergeDone := Some (clk 3), tmCiphertextsDecoded := Some (clk 4), tmPlanDone := Some planAt,
         tmShareGenerationStart := Some planAt\<rparr>) n)"

text \<open>The critical section of \<^verbatim>\<open>handleACSOutput\<close> that installs the plan.\<close>

definition installPlan ::
  "node_env \<Rightarrow> (nat \<Rightarrow> time) \<Rightarrow> ('s, 'a, 'c) BatchPlan \<Rightarrow> AgreedInclusionSet \<Rightarrow> MergedEncryptedSet \<Rightarrow> ('s, 'a, 'b, 'c) node_fun" where
  "installPlan E clk plan agreed merged n =
     (if ssPlanned n \<or> ssFailure n \<noteq> None then n
      else
        let n1 = pruneShareCandidatesLocked plan (n\<lparr>ssPlan := plan\<rparr>);
            n2 = n1\<lparr>ssCombineAttemptsLeft :=
                   replicate (length (bpSubBatches plan)) (MaxCombineAttemptsPerSubBatch (cfLimits (ndCfg n))),
                 ssMaterial := zeroMaterial\<lparr>mtSlot := ssId n, mtAgreedSetHash := asHash agreed, mtMergedSetHash := msHash merged,
                   mtSelectedGas := msSelectedGas merged, mtEncryptedHashes := EncryptedHashes (msItems merged)\<rparr>,
                 ssPlanned := True\<rparr>
        in refreshMetricsLocked (on_metrics (\<lambda>m. m\<lparr>mxSubBatches := int (length (bpSubBatches plan))\<rparr>)
             (recordDecision E clk (clk 5) agreed merged n2)))"

definition finishEmptyMaterializedSet ::
  "node_env \<Rightarrow> (nat \<Rightarrow> time) \<Rightarrow> AgreedInclusionSet \<Rightarrow> MergedEncryptedSet \<Rightarrow> ('s, 'a, 'b, 'c) node_fun" where
  "finishEmptyMaterializedSet E clk agreed merged n =
     (if ssResult n \<noteq> None \<or> ssFailure n \<noteq> None \<or> ssPlanned n then n
      else
        let doneAt = clk 4;
            n1 = on_times (\<lambda>t. t\<lparr>tmSharesDone := Some doneAt, tmThreshold := Some doneAt, tmCombineDone := Some doneAt,
                   tmMaterialized := Some (clk 5)\<rparr>) (recordDecision E clk doneAt agreed merged (n\<lparr>ssPlanned := True\<rparr>));
            n2 = n1\<lparr>ssMaterial := zeroMaterial\<lparr>mtSlot := ssId n, mtAgreedSetHash := asHash agreed, mtMergedSetHash := msHash merged,
                   mtSelectedGas := msSelectedGas merged, mtEncryptedHashes := EncryptedHashes (msItems merged)\<rparr>\<rparr>;
            n3 = refreshMetricsLocked (on_metrics (\<lambda>m. m\<lparr>mxSharesDoneUnixNano := neUnix E doneAt, mxThresholdUnixNano := neUnix E doneAt,
                   mxCombineDoneUnixNano := neUnix E doneAt, mxMaterializedUnixNano := neUnix E (clk 5), mxSelectedCiphertexts := 0\<rparr>) n2)
        in n3\<lparr>ssResult := Some \<lparr>rsSlot = ssId n, rsNodeID = ndSelf n, rsBatchID = [], rsCiphertexts = 0, rsPlaintexts = [],
              rsMaterialized = ssMaterial n3, rsLatencyMS = mxTotalSlotMS (ssMetrics n3), rsMetrics = ssMetrics n3,
              rsACSTrace = ssACSTrace n3\<rparr>,
            ssPhase := slotCompleted, ndCompletedSlots := ndCompletedSlots n + 1\<rparr>)"

section \<open>Combination\<close>

definition plaintextEntry :: "node_env \<Rightarrow> PlaintextResult option \<Rightarrow> string \<times> string \<times> string \<times> EthereumTxSummary option" where
  "plaintextEntry E r =
     (case (case r of None \<Rightarrow> Inr [] | Some x \<Rightarrow> x) of
        Inl e \<Rightarrow> (''ERROR:'' @ neErrText E e, [], [], None)
      | Inr raw \<Rightarrow>
          (case neEthParse E raw of
             Inl err \<Rightarrow> (''ERROR:invalid ethereum transaction:'' @ err, hashHex (neMergeEnv E) raw, [], None)
           | Inr tx \<Rightarrow> (''0x'' @ hexEncode raw, hashHex (neMergeEnv E) raw, esHash tx, Some tx)))"

definition completeCombine ::
  "node_env \<Rightarrow> (nat \<Rightarrow> time) \<Rightarrow> ('s, 'a, 'c) combine_attempt \<Rightarrow> PlaintextResult option list \<Rightarrow> ('s, 'a, 'b, 'c) node_fun" where
  "completeCombine E clk a results n0 =
     (let entries = map (plaintextEntry E) results;
          material = (caMaterial a)\<lparr>mtPlaintextsHex := map fst entries, mtPlaintextHashes := map (fst \<circ> snd) entries,
            mtEthereumTxHashes := map (fst \<circ> snd \<circ> snd) entries, mtEthereumTxs := map (snd \<circ> snd \<circ> snd) entries\<rparr>;
          n = n0\<lparr>ssCombineInFlight := False\<rparr>
      in if ssResult n = None \<and> ssFailure n = None then
           let n1 = on_times (\<lambda>t. t\<lparr>tmThreshold := Some (clk 0), tmCombineDone := Some (clk 1), tmMaterialized := Some (clk 2)\<rparr>) n;
               n2 = refreshMetricsLocked (on_metrics (\<lambda>m. m\<lparr>mxThresholdUnixNano := neUnix E (clk 0),
                      mxCombineDoneUnixNano := neUnix E (clk 1), mxMaterializedUnixNano := neUnix E (clk 2)\<rparr>) n1)
           in n2\<lparr>ssResult := Some \<lparr>rsSlot = ssId n, rsNodeID = ndSelf n, rsBatchID = hexEncode (bpBatchID (caPlan a)),
                  rsCiphertexts = length results, rsPlaintexts = map fst entries, rsMaterialized = material,
                  rsLatencyMS = mxTotalSlotMS (ssMetrics n2), rsMetrics = ssMetrics n2, rsACSTrace = ssACSTrace n2\<rparr>,
                ssPhase := slotCompleted, ndCompletedSlots := ndCompletedSlots n + 1\<rparr>
         else n)"

text \<open>One round of \<^verbatim>\<open>tryCombine\<close>; the flag says whether it calls itself again.\<close>

definition tryCombineOnce ::
  "node_env \<Rightarrow> (nat \<Rightarrow> time) \<Rightarrow> ('s, 'a::ab_group_add, 'b, 'c::ab_group_add) Node \<Rightarrow> (bool \<times> ('s, 'a, 'b, 'c) Node) option" where
  "tryCombineOnce E clk n =
     (case claimCombine n of
        (None, n1) \<Rightarrow> Some (False, n1)
      | (Some a, n1) \<Rightarrow>
          (case runCombine n1 a of
             None \<Rightarrow> None
           | Some (r, stats) \<Rightarrow>
               let n2 = recordCombineStats stats n1 in
               (case r of
                  Inl _ \<Rightarrow> Some (finishFailedCombine (caShareVersion a) n2)
                | Inr results \<Rightarrow> Some (False, completeCombine E clk a results n2))))"

primrec tryCombine ::
  "node_env \<Rightarrow> (nat \<Rightarrow> time) \<Rightarrow> nat \<Rightarrow> ('s, 'a::ab_group_add, 'b, 'c::ab_group_add) Node \<Rightarrow> ('s, 'a, 'b, 'c) Node option" where
  "tryCombine E clk 0 n = None"
| "tryCombine E clk (Suc fuel) n =
     (case tryCombineOnce E clk n of
        None \<Rightarrow> None
      | Some (retry, n') \<Rightarrow> if retry then tryCombine E clk fuel n' else Some n')"

section \<open>Handlers\<close>

text \<open>The loop that makes this node's shares: \<^term>\<open>False\<close> when the handler returned from inside the loop.\<close>

fun makeShares ::
  "node_env \<Rightarrow> time \<Rightarrow> ('s, 'a::ab_group_add, 'c) BatchPlan \<Rightarrow> nat list \<Rightarrow> pendingEnvelope list \<Rightarrow> ('s, 'a, 'b, 'c) Node \<Rightarrow>
   bool \<times> pendingEnvelope list \<times> ('s, 'a, 'b, 'c) Node" where
  "makeShares E now plan [] sent n = (True, sent, n)"
| "makeShares E now plan (k # ks) sent n =
     (if WithholdShare (ndFaults n) then makeShares E now plan ks sent n
      else case MakeShare (ndCluster n) (ndSecret n) plan (int k) of
        Inl _ \<Rightarrow> (False, sent, markSlotFailed E now ''share'' n)
      | Inr d \<Rightarrow>
          (case addShare E now d n of
             (Inl _, n1) \<Rightarrow> (False, sent, n1)
           | (Inr _, n1) \<Rightarrow>
               (case marshalShare n1 d of
                  None \<Rightarrow> (False, sent, markSlotFailed E now ''share'' n1)
                | Some w0 \<Rightarrow>
                    let w = (if CorruptShare (ndFaults n1) then w0\<lparr>wsPointHex := corruptHex (wsPointHex w0)\<rparr> else w0) in
                    makeShares E now plan ks
                      (sent @ map (\<lambda>p. \<lparr>peTo = p, peEnvelope = \<lparr>weFrom = ndSelf n1, weTo = 0, weDirect = False, weKind = ''share'',
                          weSlot = ssId n1, weACS = None, weShare = Some w\<rparr>, peTraceToken = None\<rparr>)
                        (filter (\<lambda>p. p \<noteq> ndSelf n1) (ndNodeIDs n1))) n1)))"

definition finishShareGeneration :: "node_env \<Rightarrow> time \<Rightarrow> ('s, 'a, 'b, 'c) node_fun" where
  "finishShareGeneration E now n =
     (let n1 = refreshMetricsLocked (on_metrics (\<lambda>m. m\<lparr>mxSharesDoneUnixNano := neUnix E now\<rparr>)
            (on_times (\<lambda>t. t\<lparr>tmSharesDone := Some now\<rparr>) (n\<lparr>ssShareGenerationDone := True\<rparr>)))
      in n1\<lparr>ssResult := map_option (\<lambda>r. r\<lparr>rsMetrics := ssMetrics n1\<rparr>) (ssResult n1)\<rparr>)"

text \<open>The outcome of the decision, computed before the critical section.\<close>

datatype ('s, 'a, 'c) decision =
    DecisionFails string
  | DecisionEmpty AgreedInclusionSet MergedEncryptedSet
  | DecisionPlans AgreedInclusionSet MergedEncryptedSet "('s, 'a, 'c) BatchPlan"

definition decide :: "node_env \<Rightarrow> ('s, 'a, 'b, 'c) Node \<Rightarrow> unit SlotOutput \<Rightarrow> ('s, 'a, 'c) decision" where
  "decide E n out =
     (case decodeAcceptedLists (neListWire E) (ssId n) (soOrderedBatches out) of
        Inl _ \<Rightarrow> DecisionFails ''decode''
      | Inr ils \<Rightarrow>
          let agreed = NewAgreedSet (neMergeEnv E) (ssId n) ils;
              merged = Merge (neMergeEnv E) (ssId n) ils (cfBlockspace (ndCfg n)) (cfBMax (ndCfg n)) in
          (case DecodeBatch (ndCluster n) (map epCiphertext (msItems merged)) of
             Inl _ \<Rightarrow> DecisionFails ''decode''
           | Inr decoded \<Rightarrow>
               if dbCiphertexts decoded = [] then DecisionEmpty agreed merged
               else (case PlanDecodedBatch (ndCluster n) decoded of
                 Inl _ \<Rightarrow> DecisionFails ''planning''
               | Inr plan \<Rightarrow> DecisionPlans agreed merged plan)))"

definition handleACSOutput ::
  "node_env \<Rightarrow> (nat \<Rightarrow> time) \<Rightarrow> unit SlotOutput option \<Rightarrow> ('s, 'a::ab_group_add, 'b, 'c::ab_group_add) Node \<Rightarrow>
   (pendingEnvelope list \<times> ('s, 'a, 'b, 'c) Node) option" where
  "handleACSOutput E clk out n =
     (case out of
        None \<Rightarrow> Some ([], n)
      | Some o' \<Rightarrow>
          if soSlot o' \<noteq> ssId n then Some ([], markSlotFailed E (clk 0) ''decode'' n)
          else
            let n1 = captureACSTrace E n in
            (case decide E n1 o' of
               DecisionFails reason \<Rightarrow> Some ([], markSlotFailed E (clk 1) reason n1)
             | DecisionEmpty agreed merged \<Rightarrow> Some ([], finishEmptyMaterializedSet E clk agreed merged n1)
             | DecisionPlans agreed merged plan \<Rightarrow>
                 if ssPlanned n1 \<or> ssFailure n1 \<noteq> None then Some ([], n1)
                 else
                   (case makeShares E (clk 6) plan [0..<length (bpSubBatches plan)] [] (installPlan E clk plan agreed merged n1) of
                      (False, sent, n2) \<Rightarrow> Some (sent, n2)
                    | (True, sent, n2) \<Rightarrow>
                        map_option (\<lambda>n3. (sent, n3)) (tryCombine E (\<lambda>i. clk (8 + i)) 1 (finishShareGeneration E (clk 7) n2)))))"

datatype start_error =
    AlreadyFailed nat
  | AlreadyCompleted nat
  | ProposalRefused node_error
  | ConsensusFailed step_error

text \<open>The proposal of a slot: built, emptied when the fault says so, encoded and checked against the bounds.\<close>

definition prepareProposal :: "node_env \<Rightarrow> ('s, 'a, 'b, 'c) Node \<Rightarrow> node_error + (InclusionList \<times> bytes)" where
  "prepareProposal E n =
     and_then (buildInclusionList (neMergeEnv E) (neListWire E) (neProviderEnv E) (ndCfg n) (ndPublicConfigID n)
         (ssId n) (ndSelf n) (ssProposalLimit n) (ssPending n)) (\<lambda>l0.
       let l = (if OmitProposal (ndFaults n)
                then (let l1 = l0\<lparr>ilItems := []\<rparr> in l1\<lparr>ilHash := HashInclusionList (neMergeEnv E) l1\<rparr>) else l0) in
       and_then (EncodeList (neListWire E) l) (\<lambda>enc.
       and_then (validateProposalBounds (int (length (ilItems l))) (int (length enc)) (ndCfg n)) (\<lambda>_. Inr (l, enc))))"

definition recordProposal :: "node_env \<Rightarrow> (nat \<Rightarrow> time) \<Rightarrow> InclusionList \<Rightarrow> ('s, 'a, 'b, 'c) node_fun" where
  "recordProposal E clk l n =
     (let n1 = refreshMetricsLocked (on_metrics (\<lambda>m. m\<lparr>mxSlotStartUnixNano := neUnix E (clk 0),
            mxProposalReadyUnixNano := neUnix E (clk 1), mxProposalTxs := int (length (ilItems l)), mxProposalHash := ilHash l\<rparr>)
          (on_times (\<lambda>t. t\<lparr>tmSlotStart := Some (clk 0), tmProposalReady := Some (clk 1)\<rparr>) n))
      in n1\<lparr>ssSlot := BeginTrace (clk 1) (ssSlot n1)\<rparr>)"

text \<open>\<^verbatim>\<open>startOnce\<close>: a second call does nothing and returns nil.\<close>

definition startConsensus ::
  "node_env \<Rightarrow> (nat \<Rightarrow> time) \<Rightarrow> ('s, 'a::ab_group_add, 'b, 'c::ab_group_add) Node \<Rightarrow>
   ((start_error + unit) \<times> pendingEnvelope list \<times> ('s, 'a, 'b, 'c) Node) option" where
  "startConsensus E clk n00 =
     (if ssStarted n00 then Some (Inr (), [], n00)
      else
        let n = n00\<lparr>ssStarted := True\<rparr> in
        (case ssFailure n of
           Some f \<Rightarrow> Some (Inl (AlreadyFailed (sfSlot f)), [], n)
         | None \<Rightarrow>
        (case ssResult n of
           Some r \<Rightarrow> Some (Inl (AlreadyCompleted (rsSlot r)), [], n)
         | None \<Rightarrow>
            let n1 = n\<lparr>ssPhase := slotRunning\<rparr>
            in (case prepareProposal E n1 of
                 Inl e \<Rightarrow> Some (Inl (ProposalRefused e), [], markSlotFailed E (clk 0) ''proposal'' n1)
               | Inr (l, encodedList) \<Rightarrow>
                   (case stepACS (InputBatch (neSlotEnv E) encodedList) (recordProposal E clk l n1) of
                        (Inl StepPanicked, _) \<Rightarrow> None
                      | (Inl e, n4) \<Rightarrow> Some (Inl (ConsensusFailed e), [], markSlotFailed E (clk 2) ''acs'' n4)
                      | (Inr (out, msgs), n4) \<Rightarrow>
                          map_option (\<lambda>(sent, n5). (Inr (), msgs @ sent, n5)) (handleACSOutput E (\<lambda>i. clk (3 + i)) out n4))))))"

definition handleEnvelope ::
  "node_env \<Rightarrow> nat \<Rightarrow> (nat \<Rightarrow> time) \<Rightarrow> WireEnvelope \<Rightarrow> int \<Rightarrow> ('s, 'a::ab_group_add, 'b, 'c::ab_group_add) Node \<Rightarrow>
   (pendingEnvelope list \<times> ('s, 'a, 'b, 'c) Node) option" where
  "handleEnvelope E pointSize clk env sz n =
     (if weDirect env \<and> weTo env \<noteq> ndSelf n then Some ([], n)
      else if weSlot env \<noteq> ssId n then Some ([], n)
      else
        let n1 = recordInbound (weKind env) sz n in
        if weKind env = ''acs'' then
          (case weACS env of
             None \<Rightarrow> Some ([], n1)
           | Some msg \<Rightarrow>
               let n2 = (case classifyACSMessage (Some msg) of
                     Inl _ \<Rightarrow> n1 | Inr subtype \<Rightarrow> n1\<lparr>ssSlot := RecordACSInbound subtype sz (ssSlot n1)\<rparr>)
               in (case stepACS (slot_HandleMessage (neSlotEnv E) (weFrom env) (Some msg)) n2 of
                    (Inl StepPanicked, _) \<Rightarrow> None
                  | (Inl _, n3) \<Rightarrow> Some ([], n3)
                  | (Inr (out, msgs), n3) \<Rightarrow> map_option (\<lambda>(sent, n4). (msgs @ sent, n4)) (handleACSOutput E clk out n3)))
        else if weKind env = ''share'' then
          (case weShare env of
             None \<Rightarrow> Some ([], n1)
           | Some w \<Rightarrow>
               (case addWireShare E pointSize (clk 0) w n1 of
                  (Inl _, n2) \<Rightarrow> Some ([], n2)
                | (Inr _, n2) \<Rightarrow> map_option (\<lambda>n3. ([], n3)) (tryCombine E (\<lambda>i. clk (1 + i)) 1 n2)))
        else Some ([], n1))"

section \<open>Reading the result\<close>

definition publishableResultLocked :: "('s, 'a, 'b, 'c) Node \<Rightarrow> Result option" where
  "publishableResultLocked n =
     (let trace = slot_Trace (ssSlot n) in
      case ssResult n of
        None \<Rightarrow> None
      | Some r \<Rightarrow> if Enabled trace \<and> \<not> Finalized (Transport trace) then None else Some (r\<lparr>rsACSTrace := trace\<rparr>))"

text \<open>\<^verbatim>\<open>/result\<close> and \<^verbatim>\<open>/start\<close>: the status code and, for a result, the body.\<close>

definition handleResult :: "string \<Rightarrow> ('s, 'a, 'b, 'c) Node \<Rightarrow> nat \<times> Result option" where
  "handleResult slotParam n =
     (if \<not> validateRequestedSlotLocked slotParam n then (409, None)
      else if ssFailure n \<noteq> None then (422, None)
      else case publishableResultLocked n of Some r \<Rightarrow> (200, Some r) | None \<Rightarrow> (202, None))"

definition handleStart ::
  "node_env \<Rightarrow> (nat \<Rightarrow> time) \<Rightarrow> string \<Rightarrow> ('s, 'a::ab_group_add, 'b, 'c::ab_group_add) Node \<Rightarrow>
   (nat \<times> pendingEnvelope list \<times> ('s, 'a, 'b, 'c) Node) option" where
  "handleStart E clk slotParam n =
     (if \<not> validateRequestedSlotLocked slotParam n then Some (409, [], n)
      else map_option (\<lambda>(r, sent, n').
        (case r of
           Inr _ \<Rightarrow> 200
         | Inl _ \<Rightarrow> if ssFailure n' \<noteq> None \<or> ssResult n' \<noteq> None then 200 else 400, sent, n')) (startConsensus E clk n))"

definition handlePrepareSlot ::
  "node_env \<Rightarrow> (nat \<times> int) option \<Rightarrow> ('s, 'a, 'b, 'c) Node \<Rightarrow> (nat \<times> ('s, 'a, 'b, 'c) Node) option" where
  "handlePrepareSlot E request n =
     (case request of
        None \<Rightarrow> Some (400, n)
      | Some (slot, limit) \<Rightarrow>
          map_option (\<lambda>(r, n'). (case r of Inl _ \<Rightarrow> 409 | Inr _ \<Rightarrow> 200, n')) (prepareSlotWithLimit E slot limit n))"

end
