(* ===== verification/Node_Shares.thy ===== *)
theory Node_Shares
  imports Node
begin

text \<open>
  The share table of a node: what every entry satisfies, that admitting and pruning shares keep
  it, the bound on its size, and the list of shares that is handed to a combination.
\<close>

section \<open>Well-formed tables\<close>

type_synonym 'a share_table = "(int, 'a operatorShareCandidates) gomap"

definition entry_ok ::
  "int \<Rightarrow> ('a \<Rightarrow> bytes option) \<Rightarrow> (bytes \<times> nat) option \<Rightarrow> int \<Rightarrow> 'a operatorShareCandidates \<Rightarrow> int \<Rightarrow> 'a retainedShare \<Rightarrow> bool" where
  "entry_ok bmax marshal target op c k r \<longleftrightarrow>
     ocBatchSet c \<and> 0 \<le> k \<and> k < bmax \<and> dsOperatorID (rtValue r) = op \<and> dsSubBatchID (rtValue r) = k \<and>
     dsBatchID (rtValue r) = ocBatchID c \<and>
     (\<exists>v. dsShare (rtValue r) = Some (nat op, Some v) \<and> marshal v = Some (rtEncoded r)) \<and>
     (\<forall>b len. target = Some (b, len) \<longrightarrow> ocBatchID c = b \<and> k < int len)"

definition table_ok ::
  "nat list \<Rightarrow> int \<Rightarrow> ('a \<Rightarrow> bytes option) \<Rightarrow> (bytes \<times> nat) option \<Rightarrow> 'a share_table \<Rightarrow> bool" where
  "table_ok peers bmax marshal target T \<longleftrightarrow>
     wf_map T \<and>
     (\<forall>(op, c) \<in> set T. uint64_of op \<in> set peers \<and> 0 \<le> op \<and> wf_map (ocShares c) \<and>
        (\<forall>(k, r) \<in> set (ocShares c). entry_ok bmax marshal target op c k r))"

definition table_size :: "'a share_table \<Rightarrow> nat" where
  "table_size T = sum_list (map (\<lambda>(op, c). length (ocShares c)) T)"

lemma table_ok_weaken: "table_ok peers bmax marshal target T \<Longrightarrow> table_ok peers bmax marshal None T"
  by (fastforce simp: table_ok_def entry_ok_def)

lemma table_okI:
  assumes "wf_map T" and "\<And>op c. (op, c) \<in> set T \<Longrightarrow> uint64_of op \<in> set peers \<and> 0 \<le> op \<and> wf_map (ocShares c) \<and>
    (\<forall>(k, r) \<in> set (ocShares c). entry_ok bmax marshal target op c k r)"
  shows "table_ok peers bmax marshal target T"
  unfolding table_ok_def using assms by blast

lemma table_ok_Nil [simp]: "table_ok peers bmax marshal target []"
  by (simp add: table_ok_def)

lemma table_ok_lookup:
  assumes "table_ok peers bmax marshal target T" and "map_of T op = Some c"
  shows "uint64_of op \<in> set peers" "0 \<le> op" "wf_map (ocShares c)"
    "\<And>k r. (k, r) \<in> set (ocShares c) \<Longrightarrow> entry_ok bmax marshal target op c k r"
  using assms by (auto simp: table_ok_def dest!: map_of_SomeD)

lemma table_ok_update:
  assumes "table_ok peers bmax marshal target T" and "uint64_of op \<in> set peers" and "0 \<le> op" and "wf_map (ocShares c)"
    and "\<And>k r. (k, r) \<in> set (ocShares c) \<Longrightarrow> entry_ok bmax marshal target op c k r"
  shows "table_ok peers bmax marshal target (AList.update op c T)"
  using assms by (auto simp: table_ok_def set_update_wf)

lemma table_size_update:
  "wf_map T \<Longrightarrow> table_size (AList.update op c T) + (case map_of T op of None \<Rightarrow> 0 | Some c' \<Rightarrow> length (ocShares c')) =
     table_size T + length (ocShares c)"
proof (induction T)
  case (Cons x T)
  then show ?case by (cases x) (auto simp: table_size_def split: option.splits dest: map_of_SomeD)
qed (simp add: table_size_def)

lemma wf_map_filter [intro]: "wf_map m \<Longrightarrow> wf_map (filter q m)"
  by (rule distinct_map_filter)

lemma entry_pruned:
  assumes "entry_ok bmax marshal target op c k r" and "ocBatchID c = b" and "k < int len"
  shows "entry_ok bmax marshal (Some (b, len)) op (c\<lparr>ocShares := xs\<rparr>) k r"
  using assms by (simp add: entry_ok_def)

lemma prune_ok:
  assumes "table_ok peers bmax marshal target T"
  shows "table_ok peers bmax marshal (Some (b, len))
    (map (\<lambda>(op, c). (op, c\<lparr>ocShares := filter (\<lambda>(k, _). 0 \<le> k \<and> k < int len) (ocShares c)\<rparr>))
      (filter (\<lambda>(op, c). ocBatchSet c \<and> ocBatchID c = b) T))" (is "table_ok _ _ _ _ (map ?f ?T)")
proof -
  have T: "wf_map T" "\<And>op c. (op, c) \<in> set T \<Longrightarrow> uint64_of op \<in> set peers \<and> 0 \<le> op \<and> wf_map (ocShares c) \<and>
      (\<forall>(k, r) \<in> set (ocShares c). entry_ok bmax marshal target op c k r)"
    using assms by (auto simp: table_ok_def)
  have keys: "map fst (map ?f ?T) = map fst ?T" by (simp add: case_prod_unfold comp_def)
  have "wf_map (map ?f ?T)" unfolding keys by (rule wf_map_filter [OF T(1)])
  moreover have "uint64_of op \<in> set peers \<and> 0 \<le> op \<and> wf_map (ocShares c) \<and>
      (\<forall>(k, r) \<in> set (ocShares c). entry_ok bmax marshal (Some (b, len)) op c k r)" if "(op, c) \<in> set (map ?f ?T)" for op c
  proof -
    from that obtain c0 where c0: "(op, c0) \<in> set T" "ocBatchID c0 = b"
      "c = c0\<lparr>ocShares := filter (\<lambda>(k, _). 0 \<le> k \<and> k < int len) (ocShares c0)\<rparr>" by auto
    show ?thesis using T(2) [OF c0(1)] c0(2) unfolding c0(3) by (auto intro!: entry_pruned wf_map_filter)
  qed
  ultimately show ?thesis by (rule table_okI)
qed

lemma prune_size:
  "table_size (map (\<lambda>(op, c). (op, c\<lparr>ocShares := filter q (ocShares c)\<rparr>)) (filter p T)) \<le> table_size T"
  by (induction T) (auto simp: table_size_def case_prod_unfold intro: add_mono le_trans [OF _ le_add2])

section \<open>Admitting a share\<close>

definition share_target :: "('s, 'a, 'b, 'c) Node \<Rightarrow> (bytes \<times> nat) option" where
  "share_target n = (if ssPlanned n \<and> ssResult n = None then Some (bpBatchID (ssPlan n), length (bpSubBatches (ssPlan n))) else None)"

definition shares_ok :: "('s, 'a, 'b, 'c) Node \<Rightarrow> bool" where
  "shares_ok n \<longleftrightarrow>
     table_ok (ndPeers n) (cfBMax (ndCfg n)) (g1Marshal (btdSuite (clBtd (ndCluster n)))) (share_target n) (ssShareCandidates n) \<and>
     int (table_size (ssShareCandidates n)) \<le> max 0 (cfN (ndCfg n) * cfBMax (ndCfg n))"

lemma retained_size: "retainedShareCountLocked n = table_size (ssShareCandidates n)"
  by (simp add: retainedShareCountLocked_def table_size_def)

text \<open>Every field that admitting a share leaves alone.\<close>

definition same_but_shares :: "('s, 'a, 'b, 'c) Node \<Rightarrow> ('s, 'a, 'b, 'c) Node \<Rightarrow> bool" where
  "same_but_shares n n' \<longleftrightarrow>
     n' = n\<lparr>ssShareCandidates := ssShareCandidates n', ssShareVersion := ssShareVersion n', ssMetrics := ssMetrics n'\<rparr> \<and>
     ssShareVersion n \<le> ssShareVersion n' \<and> mxShareSubsetAttempts (ssMetrics n') = mxShareSubsetAttempts (ssMetrics n)"

lemma same_fields:
  assumes "same_but_shares n n'"
  shows "ssId n' = ssId n" "ssPhase n' = ssPhase n" "ssPlan n' = ssPlan n" "ssPlanned n' = ssPlanned n" "ssResult n' = ssResult n"
    "ssFailure n' = ssFailure n" "ssCombineInFlight n' = ssCombineInFlight n" "ssCombineAttemptsLeft n' = ssCombineAttemptsLeft n"
    "ndCfg n' = ndCfg n" "ndPeers n' = ndPeers n" "ndCluster n' = ndCluster n" "ndNodeIDs n' = ndNodeIDs n" "ndSelf n' = ndSelf n"
    "ssShareGenerationDone n' = ssShareGenerationDone n" "ndLastSlot n' = ndLastSlot n" "ssMaterial n' = ssMaterial n"
proof -
  have e: "n' = n\<lparr>ssShareCandidates := ssShareCandidates n', ssShareVersion := ssShareVersion n', ssMetrics := ssMetrics n'\<rparr>"
    using assms by (simp add: same_but_shares_def)
  show "ssId n' = ssId n" "ssPhase n' = ssPhase n" "ssPlan n' = ssPlan n" "ssPlanned n' = ssPlanned n" "ssResult n' = ssResult n"
    "ssFailure n' = ssFailure n" "ssCombineInFlight n' = ssCombineInFlight n" "ssCombineAttemptsLeft n' = ssCombineAttemptsLeft n"
    "ndCfg n' = ndCfg n" "ndPeers n' = ndPeers n" "ndCluster n' = ndCluster n" "ndNodeIDs n' = ndNodeIDs n" "ndSelf n' = ndSelf n"
    "ssShareGenerationDone n' = ssShareGenerationDone n" "ndLastSlot n' = ndLastSlot n" "ssMaterial n' = ssMaterial n"
    by (subst e; simp)+
qed

lemmas share_defs = rejectShare_def recordShareRejectedLocked_def on_metrics_def

lemma same_refl [simp]: "same_but_shares n n"
  by (simp add: same_but_shares_def)

lemma same_cands [simp]: "same_but_shares n (n\<lparr>ssShareCandidates := T\<rparr>)"
  by (simp add: same_but_shares_def)

lemma same_trans:
  assumes "same_but_shares n m" and "same_but_shares m l"
  shows "same_but_shares n l"
proof -
  obtain T v x where m: "m = n\<lparr>ssShareCandidates := T, ssShareVersion := v, ssMetrics := x\<rparr>"
    using assms(1) unfolding same_but_shares_def by blast
  show ?thesis using assms unfolding same_but_shares_def m by simp
qed

lemma rejected_same [simp]: "same_but_shares n (snd (rejectShare e n))" "fst (rejectShare e n) = Inl e"
  by (simp_all add: same_but_shares_def share_defs)

lemma rejected_table [simp]: "ssShareCandidates (snd (rejectShare e n)) = ssShareCandidates n"
  by (simp add: share_defs)

lemma accepted_same: "same_but_shares n (noteAccepted E now d (n\<lparr>ssShareVersion := ssShareVersion n + 1\<rparr>))"
  by (simp add: same_but_shares_def on_metrics_def noteAccepted_def)

lemma accepted_table [simp]: "ssShareCandidates (noteAccepted E now d n) = ssShareCandidates n"
  by (simp add: on_metrics_def noteAccepted_def)

lemma put_same [simp]: "same_but_shares n (putCandidates op c n)"
  by (simp add: putCandidates_def)

lemma put_table [simp]: "ssShareCandidates (putCandidates op c n) = AList.update op c (ssShareCandidates n)"
  by (simp add: putCandidates_def)

text \<open>The outcomes of \<open>addShareLocked\<close>.\<close>

lemma addShareLocked_cases:
  fixes n :: "('s, 'a, 'b, 'c) Node" and d :: "'a DecryptionShare" and enc :: bytes
  defines "op \<equiv> dsOperatorID d" and "k \<equiv> dsSubBatchID d"
  defines "c \<equiv> candidatesOf n op"
  defines "n0 \<equiv> putCandidates op c n"
  defines "n1 \<equiv> putCandidates op (withShare d enc c) n0"
  obtains (Early) e where "addShareLocked E now d enc n = rejectShare e n"
      "ssPlanned n \<and> (dsBatchID d \<noteq> bpBatchID (ssPlan n) \<or> k \<ge> int (length (bpSubBatches (ssPlan n))))"
  | (Refused) e where "addShareLocked E now d enc n = rejectShare e n0"
      "ocBatchSet c \<and> ocBatchID c \<noteq> dsBatchID d \<or> (\<exists>r. map_of (ocShares c) k = Some r \<and> rtEncoded r \<noteq> enc)"
  | (Same) r where "addShareLocked E now d enc n = (Inr (), n0)" "map_of (ocShares c) k = Some r" "rtEncoded r = enc"
  | (Full) "addShareLocked E now d enc n =
        rejectShare ShareCapacity (putCandidates op ((withShare d enc c)\<lparr>ocShares := AList.delete k (ocShares (withShare d enc c))\<rparr>) n1)"
      "map_of (ocShares c) k = None" "ocBatchSet c \<longrightarrow> ocBatchID c = dsBatchID d"
      "int (table_size (ssShareCandidates n1)) > cfN (ndCfg n) * cfBMax (ndCfg n)"
  | (New) "addShareLocked E now d enc n = (Inr (), noteAccepted E now d (n1\<lparr>ssShareVersion := ssShareVersion n1 + 1\<rparr>))"
      "map_of (ocShares c) k = None" "ocBatchSet c \<longrightarrow> ocBatchID c = dsBatchID d"
      "int (table_size (ssShareCandidates n1)) \<le> cfN (ndCfg n) * cfBMax (ndCfg n)"
      "ssPlanned n \<longrightarrow> dsBatchID d = bpBatchID (ssPlan n) \<and> k < int (length (bpSubBatches (ssPlan n)))"
proof -
  have cfg: "ndCfg n1 = ndCfg n" by (simp add: n1_def n0_def putCandidates_def)
  note folded = op_def [symmetric] k_def [symmetric] c_def [symmetric] n0_def [symmetric] n1_def [symmetric]
  have unf: "addShareLocked E now d enc n =
     (if ssPlanned n \<and> dsBatchID d \<noteq> bpBatchID (ssPlan n) then rejectShare (ShareBatch op) n
      else if ssPlanned n \<and> k \<ge> int (length (bpSubBatches (ssPlan n))) then rejectShare (SubBatchRange k) n
      else if ocBatchSet c \<and> ocBatchID c \<noteq> dsBatchID d then rejectShare (ShareOtherBatch op) n0
      else case map_of (ocShares c) k of
        Some existing \<Rightarrow> if rtEncoded existing = enc then (Inr (), n0) else rejectShare (ShareConflict op k) n0
      | None \<Rightarrow>
          if int (table_size (ssShareCandidates n1)) > cfN (ndCfg n) * cfBMax (ndCfg n)
          then rejectShare ShareCapacity
            (putCandidates op ((withShare d enc c)\<lparr>ocShares := AList.delete k (ocShares (withShare d enc c))\<rparr>) n1)
          else (Inr (), noteAccepted E now d (n1\<lparr>ssShareVersion := ssShareVersion n1 + 1\<rparr>)))"
    unfolding addShareLocked_def Let_def folded retained_size cfg by (rule refl)
  show thesis
  proof (cases "ssPlanned n \<and> (dsBatchID d \<noteq> bpBatchID (ssPlan n) \<or> k \<ge> int (length (bpSubBatches (ssPlan n))))")
    case True
    then show ?thesis using Early unf by (cases "dsBatchID d \<noteq> bpBatchID (ssPlan n)") simp_all
  next
    case planned: False
    show ?thesis
    proof (cases "ocBatchSet c \<and> ocBatchID c \<noteq> dsBatchID d")
      case True
      then have "addShareLocked E now d enc n = rejectShare (ShareOtherBatch op) n0" using unf planned True by auto
      then show ?thesis using Refused True by blast
    next
      case batch: False
      show ?thesis
      proof (cases "map_of (ocShares c) k")
        case None
        show ?thesis
        proof (cases "int (table_size (ssShareCandidates n1)) > cfN (ndCfg n) * cfBMax (ndCfg n)")
          case True
          then have "addShareLocked E now d enc n = rejectShare ShareCapacity
              (putCandidates op ((withShare d enc c)\<lparr>ocShares := AList.delete k (ocShares (withShare d enc c))\<rparr>) n1)"
            using unf planned batch None by auto
          then show ?thesis using Full True None batch by blast
        next
          case False
          then have "addShareLocked E now d enc n = (Inr (), noteAccepted E now d (n1\<lparr>ssShareVersion := ssShareVersion n1 + 1\<rparr>))"
            using unf planned batch None by auto
          then show ?thesis using New False None batch planned by force
        qed
      next
        case (Some r)
        then have "addShareLocked E now d enc n = (if rtEncoded r = enc then (Inr (), n0) else rejectShare (ShareConflict op k) n0)"
          using unf planned batch by auto
        then show ?thesis using Same Refused Some by (cases "rtEncoded r = enc") auto
      qed
    qed
  qed
qed

lemmas same_intros = same_trans [OF _ put_same] same_trans [OF _ rejected_same(1)] same_trans [OF _ accepted_same]

lemma addShareLocked_same: "same_but_shares n (snd (addShareLocked E now d enc n))"
proof (cases rule: addShareLocked_cases [of E now d enc n])
  case (Early e)
  show ?thesis unfolding Early(1) by simp
next
  case (Refused e)
  show ?thesis unfolding Refused(1) by (intro same_intros same_refl)
next
  case (Same r)
  show ?thesis unfolding Same(1) by simp
next
  case Full
  show ?thesis unfolding Full(1) by (intro same_intros same_refl)
next
  case New
  show ?thesis unfolding New(1) snd_conv by (intro same_intros same_refl)
qed

lemma addShare_same: "same_but_shares n (snd (addShare E now d n))"
proof (cases "dsShare d")
  case (Some s)
  then show ?thesis
    by (cases s; cases "snd s") (auto simp: addShare_def addShareLocked_same split: option.splits)
qed (auto simp: addShare_def)

lemma addWireShare_same: "same_but_shares n (snd (addWireShare E ps now w n))"
  by (auto simp: addWireShare_def addShare_same split: option.splits)

section \<open>The table stays well-formed\<close>

abbreviation node_marshal :: "('s, 'a, 'b, 'c) Node \<Rightarrow> 'a \<Rightarrow> bytes option" where
  "node_marshal n \<equiv> g1Marshal (btdSuite (clBtd (ndCluster n)))"

lemma shares_ok_table:
  "shares_ok n \<Longrightarrow> table_ok (ndPeers n) (cfBMax (ndCfg n)) (node_marshal n) (share_target n) (ssShareCandidates n)"
  by (simp add: shares_ok_def)

lemma shares_ok_same:
  assumes "same_but_shares n n'"
    and "table_ok (ndPeers n) (cfBMax (ndCfg n)) (node_marshal n) (share_target n) (ssShareCandidates n')"
    and "int (table_size (ssShareCandidates n')) \<le> max 0 (cfN (ndCfg n) * cfBMax (ndCfg n))"
  shows "shares_ok n'"
proof -
  have "share_target n' = share_target n" using same_fields [OF assms(1)] by (simp add: share_target_def)
  then show ?thesis using assms(2,3) same_fields [OF assms(1)] by (simp add: shares_ok_def)
qed

lemma candidates_ok:
  assumes "shares_ok n" and "configuredOperator n op"
  shows "wf_map (ocShares (candidatesOf n op))"
    "\<And>k r. (k, r) \<in> set (ocShares (candidatesOf n op)) \<Longrightarrow>
       entry_ok (cfBMax (ndCfg n)) (node_marshal n) (share_target n) op (candidatesOf n op) k r"
  using table_ok_lookup(3,4) [OF shares_ok_table [OF assms(1)], of op] by (auto simp: candidatesOf_def split: option.splits)

lemma put_ok:
  assumes "shares_ok n" and "configuredOperator n op" and "wf_map (ocShares c)"
    and "\<And>k r. (k, r) \<in> set (ocShares c) \<Longrightarrow> entry_ok (cfBMax (ndCfg n)) (node_marshal n) (share_target n) op c k r"
    and "int (table_size (ssShareCandidates (putCandidates op c n))) \<le> max 0 (cfN (ndCfg n) * cfBMax (ndCfg n))"
  shows "shares_ok (putCandidates op c n)"
proof (rule shares_ok_same [OF put_same _ assms(5)])
  show "table_ok (ndPeers n) (cfBMax (ndCfg n)) (node_marshal n) (share_target n) (ssShareCandidates (putCandidates op c n))"
    using assms(2-4) by (auto simp: configuredOperator_def intro!: table_ok_update shares_ok_table [OF assms(1)])
qed

text \<open>Writing an operator's candidates changes the size by the change of their number.\<close>

lemma put_size:
  assumes "shares_ok n"
  shows "table_size (ssShareCandidates (putCandidates op c n)) + length (ocShares (candidatesOf n op)) =
    table_size (ssShareCandidates n) + length (ocShares c)"
proof -
  have "wf_map (ssShareCandidates n)" using assms by (simp add: shares_ok_def table_ok_def)
  from table_size_update [OF this, of op c] show ?thesis
    by (cases "map_of (ssShareCandidates n) op") (simp_all add: candidatesOf_def)
qed

lemma update_twice [simp]: "AList.update k v (AList.update k w m) = AList.update k v m"
  by (induction m) auto

lemma put_put [simp]: "putCandidates op c (putCandidates op c' n) = putCandidates op c n"
  by (simp add: putCandidates_def)

lemma candidates_put [simp]: "candidatesOf (putCandidates op c n) op = c"
  by (simp add: candidatesOf_def putCandidates_def)

lemma delete_update_fresh: "k \<notin> keys_of m \<Longrightarrow> AList.delete k (AList.update k v m) = m"
  by (induction m) (auto simp: AList.delete_eq)

lemma entries_batch:
  assumes "entry_ok bmax marshal target op c k r" and "ocBatchSet c \<longrightarrow> ocBatchID c = b"
  shows "entry_ok bmax marshal target op (c\<lparr>ocBatchID := b, ocBatchSet := True, ocShares := xs\<rparr>) k r"
  using assms by (auto simp: entry_ok_def)

lemma addShareLocked_ok:
  assumes ok: "shares_ok n" and conf: "configuredOperator n (dsOperatorID d)"
    and d: "dsShare d = Some (nat (dsOperatorID d), Some v)" "node_marshal n v = Some enc"
      "0 \<le> dsSubBatchID d" "dsSubBatchID d < cfBMax (ndCfg n)"
  shows "shares_ok (snd (addShareLocked E now d enc n))"
proof -
  let ?op = "dsOperatorID d" and ?k = "dsSubBatchID d"
  let ?c = "candidatesOf n ?op"
  note c_ok = candidates_ok [OF ok conf]
  have cap: "int (table_size (ssShareCandidates n)) \<le> max 0 (cfN (ndCfg n) * cfBMax (ndCfg n))"
    using ok by (simp add: shares_ok_def)
  have size0: "table_size (ssShareCandidates (putCandidates ?op ?c n)) = table_size (ssShareCandidates n)"
    using put_size [OF ok, of ?op ?c] by simp
  have ok0: "shares_ok (putCandidates ?op ?c n)"
    using c_ok cap by (intro put_ok [OF ok conf]) (simp_all only: size0)
  show ?thesis
  proof (cases rule: addShareLocked_cases [of E now d enc n])
    case (Early e)
    show ?thesis unfolding Early(1)
      by (rule shares_ok_same [OF rejected_same(1)]) (use ok in \<open>simp_all add: shares_ok_def\<close>)
  next
    case (Refused e)
    show ?thesis unfolding Refused(1)
      by (rule shares_ok_same [OF rejected_same(1)]) (use ok0 in \<open>simp_all add: shares_ok_def\<close>)
  next
    case (Same r)
    show ?thesis unfolding Same(1) using ok0 by simp
  next
    case Full
    have fresh: "?k \<notin> keys_of (ocShares ?c)" using Full(2) by (simp add: map_of_eq_None_iff)
    let ?c1 = "?c\<lparr>ocBatchID := dsBatchID d, ocBatchSet := True\<rparr>"
    have c1: "(withShare d enc ?c)\<lparr>ocShares := AList.delete ?k (ocShares (withShare d enc ?c))\<rparr> = ?c1"
      using delete_update_fresh [OF fresh] by (simp add: withShare_def)
    have size1: "table_size (ssShareCandidates (putCandidates ?op ?c1 n)) = table_size (ssShareCandidates n)"
      using put_size [OF ok, of ?op ?c1] by simp
    have ok1: "shares_ok (putCandidates ?op ?c1 n)"
    proof (rule put_ok [OF ok conf])
      fix k r
      assume "(k, r) \<in> set (ocShares ?c1)"
      then have "entry_ok (cfBMax (ndCfg n)) (node_marshal n) (share_target n) ?op ?c k r" using c_ok(2) by simp
      from entries_batch [OF this Full(3), of "ocShares ?c"]
      show "entry_ok (cfBMax (ndCfg n)) (node_marshal n) (share_target n) ?op ?c1 k r" by simp
    qed (use c_ok(1) cap size1 in simp_all)
    show ?thesis unfolding Full(1) c1 put_put
      by (rule shares_ok_same [OF rejected_same(1)]) (use ok1 in \<open>simp_all add: shares_ok_def\<close>)
  next
    case New
    have fresh: "?k \<notin> keys_of (ocShares ?c)" using New(2) by (simp add: map_of_eq_None_iff)
    let ?n1 = "putCandidates ?op (withShare d enc ?c) n"
    have ok1: "shares_ok ?n1"
    proof (rule put_ok [OF ok conf])
      fix k r
      assume "(k, r) \<in> set (ocShares (withShare d enc ?c))"
      then consider (old) "(k, r) \<in> set (ocShares ?c)" | (added) "k = ?k" "r = \<lparr>rtValue = d, rtEncoded = enc\<rparr>"
        using fresh by (auto simp: withShare_def update_fresh)
      then show "entry_ok (cfBMax (ndCfg n)) (node_marshal n) (share_target n) ?op (withShare d enc ?c) k r"
      proof cases
        case old
        from entries_batch [OF c_ok(2) [OF old] New(3)] show ?thesis by (simp add: withShare_def)
      next
        case added
        then show ?thesis using d New(5) by (auto simp: entry_ok_def withShare_def share_target_def)
      qed
    qed (use c_ok(1) New(4) in \<open>simp_all add: withShare_def\<close>)
    show ?thesis unfolding New(1) snd_conv put_put
      by (rule shares_ok_same [OF accepted_same]) (use ok1 in \<open>simp_all add: shares_ok_def\<close>)
  qed
qed

lemma addShare_ok:
  assumes "shares_ok n"
  shows "shares_ok (snd (addShare E now d n))"
proof -
  have rej: "shares_ok (snd (rejectShare e n))" for e
    by (rule shares_ok_same [OF rejected_same(1)]) (use assms in \<open>simp_all add: shares_ok_def\<close>)
  show ?thesis
  proof (cases "configuredOperator n (dsOperatorID d) \<and> (\<exists>v enc. dsShare d = Some (nat (dsOperatorID d), Some v) \<and>
      node_marshal n v = Some enc) \<and> 0 \<le> dsSubBatchID d \<and> dsSubBatchID d < cfBMax (ndCfg n)")
    case True
    then obtain v enc where v: "dsShare d = Some (nat (dsOperatorID d), Some v)" "node_marshal n v = Some enc" by blast
    have "addShare E now d n = addShareLocked E now d enc n"
      using True v by (auto simp: addShare_def configuredOperator_def)
    then show ?thesis using addShareLocked_ok [OF assms _ v] True by simp
  next
    case False
    then have "\<exists>e. addShare E now d n = rejectShare e n"
      by (auto simp: addShare_def configuredOperator_def split: option.splits)
    then show ?thesis using rej by auto
  qed
qed

lemma addWireShare_ok: "shares_ok n \<Longrightarrow> shares_ok (snd (addWireShare E ps now w n))"
proof -
  assume ok: "shares_ok n"
  have rej: "shares_ok (snd (rejectShare e n))" for e
    by (rule shares_ok_same [OF rejected_same(1)]) (use ok in \<open>simp_all add: shares_ok_def\<close>)
  show ?thesis by (auto simp: addWireShare_def rej addShare_ok [OF ok] split: option.splits)
qed

end
