(* ===== verification/Node_Boot.thy ===== *)
theory Node_Boot
  imports Node
begin

text \<open>
  How a node comes up: \<^verbatim>\<open>readConfig\<close> and \<^verbatim>\<open>readNodeSecrets\<close> of \<^verbatim>\<open>config.go\<close>, \<^verbatim>\<open>PublicConfigID\<close> of
  \<^verbatim>\<open>be/cluster.go\<close>, and \<^verbatim>\<open>newNode\<close> and \<^verbatim>\<open>parseFaults\<close> of \<^verbatim>\<open>node.go\<close>. The file system, the JSON
  decoder, the path functions and the libp2p key functions are the parameter \<open>boot_env\<close>.
\<close>

section \<open>Files\<close>

record NodeSecretConfig =
  scVersion :: string
  scClusterID :: string
  scOperatorID :: nat
  scBTEShareScalarHex :: string
  scP2PPrivateKeyHex :: string

definition clusterConfigVersion :: string where "clusterConfigVersion = ''bloc-cluster-v3''"
definition nodeSecretVersion :: string where "nodeSecretVersion = ''bloc-node-secret-v1''"

text \<open>
  \<open>beFields\<close> gives the keys of a JSON object, \<open>beStrictConfig\<close> and \<open>beStrictSecrets\<close> are
  \<^verbatim>\<open>decodeStrictJSON\<close> at the two types, \<open>beBeside dir p\<close> is the path of \<open>p\<close> next to the file \<open>dir\<close>.
  A libp2p key is known by the peer id it derives.
\<close>

record boot_env =
  beReadFile :: "string \<Rightarrow> bytes option"
  beFields :: "bytes \<Rightarrow> string list option"
  beStrictConfig :: "bytes \<Rightarrow> ConfigFile option"
  beStrictSecrets :: "bytes \<Rightarrow> NodeSecretConfig option"
  beIsAbs :: "string \<Rightarrow> bool"
  beBeside :: "string \<Rightarrow> string \<Rightarrow> string"
  beEqualFold :: "string \<Rightarrow> string \<Rightarrow> bool"
  bePeerOfKey :: "bytes \<Rightarrow> string option"

datatype boot_error =
    CannotRead string
  | BadJSON
  | LegacyConfig
  | BadConfigVersion string
  | CRSFieldsMissing
  | CRSHashMismatch string
  | ConfigRefused node_error
  | SecretsPathMissing
  | SecretFieldMissing string
  | BadSecretVersion string
  | SecretFieldEmpty
  | SecretsForCluster string
  | SecretsForOperator nat
  | NodeNotConfigured nat
  | CRSRefused bte_error
  | PublicKeyInvalid
  | BMaxNotPositiveForID
  | CRSDigestLength nat
  | CRSDigestHex
  | PublicKeyUnencodable
  | PublicConfigUnexpected string
  | ShareScalarInvalid
  | PeerKeyInvalid
  | PeerIDMismatch string

definition readConfig :: "merge_env \<Rightarrow> boot_env \<Rightarrow> string \<Rightarrow> boot_error + ConfigFile" where
  "readConfig M B path =
     and_then (or_error (beReadFile B path) (CannotRead path)) (\<lambda>data.
     and_then (or_error (beFields B data) BadJSON) (\<lambda>fields.
     and_then (ensure (''crs_seed_hex'' \<notin> set fields) LegacyConfig) (\<lambda>_.
     and_then (ensure (''shares'' \<notin> set fields) LegacyConfig) (\<lambda>_.
     and_then (or_error (beStrictConfig B data) BadJSON) (\<lambda>cfg0.
     and_then (ensure (cfVersion cfg0 = clusterConfigVersion) (BadConfigVersion (cfVersion cfg0))) (\<lambda>_.
     and_then (ensure (TrimSpace (meUniTrim M) (cfCRSFile cfg0) \<noteq> [] \<and> TrimSpace (meUniTrim M) (cfCRSSHA256 cfg0) \<noteq> []) CRSFieldsMissing) (\<lambda>_.
     let crsPath = (if beIsAbs B (cfCRSFile cfg0) then cfCRSFile cfg0 else beBeside B path (cfCRSFile cfg0)) in
     and_then (or_error (beReadFile B crsPath) (CannotRead crsPath)) (\<lambda>crs.
     and_then (ensure (beEqualFold B (hashHex M crs) (TrimSpace (meUniTrim M) (cfCRSSHA256 cfg0))) (CRSHashMismatch (hashHex M crs))) (\<lambda>_.
     let cfg1 = cfg0\<lparr>cfCRSBytes := crs\<rparr>;
         cfg = normalizeConfig (if cfSlot cfg1 = 0 then cfg1\<lparr>cfSlot := 1\<rparr> else cfg1) in
     (case checkConfig cfg of Inl e \<Rightarrow> Inl (ConfigRefused e) | Inr _ \<Rightarrow> Inr cfg))))))))))"

definition readNodeSecrets :: "merge_env \<Rightarrow> boot_env \<Rightarrow> string \<Rightarrow> boot_error + NodeSecretConfig" where
  "readNodeSecrets M B path =
     and_then (ensure (TrimSpace (meUniTrim M) path \<noteq> []) SecretsPathMissing) (\<lambda>_.
     and_then (or_error (beReadFile B path) (CannotRead path)) (\<lambda>data.
     and_then (or_error (beFields B data) BadJSON) (\<lambda>fields.
     and_then (case find (\<lambda>r. r \<notin> set fields) [''version'', ''cluster_id'', ''operator_id'', ''bte_share_scalar_hex'', ''p2p_private_key_hex''] of
         Some r \<Rightarrow> Inl (SecretFieldMissing r) | None \<Rightarrow> Inr ()) (\<lambda>_.
     and_then (or_error (beStrictSecrets B data) BadJSON) (\<lambda>s.
     and_then (ensure (scVersion s = nodeSecretVersion) (BadSecretVersion (scVersion s))) (\<lambda>_.
     and_then (ensure (scClusterID s \<noteq> [] \<and> scBTEShareScalarHex s \<noteq> [] \<and> scP2PPrivateKeyHex s \<noteq> []) SecretFieldEmpty) (\<lambda>_.
     Inr s)))))))"

section \<open>Identity of the public setup\<close>

definition writePublicConfigField :: "bytes \<Rightarrow> bytes" where
  "writePublicConfigField value = be64 (length value) @ value"

definition PublicConfigID :: "merge_env \<Rightarrow> ('s, 'a, 'b, 'c) suite \<Rightarrow> int \<Rightarrow> string \<Rightarrow> 'a \<Rightarrow> boot_error + string" where
  "PublicConfigID M S bMax crsSHA256 pk =
     and_then (ensure (0 < bMax) BMaxNotPositiveForID) (\<lambda>_.
     let normalizedCRS = ToLower (meUniLower M) (TrimSpace (meUniTrim M) crsSHA256) in
     and_then (ensure (length normalizedCRS = 64) (CRSDigestLength (length normalizedCRS))) (\<lambda>_.
     and_then (or_error (hexDecode normalizedCRS) CRSDigestHex) (\<lambda>_.
     and_then (or_error (g1Marshal S pk) PublicKeyUnencodable) (\<lambda>encodedPK.
     Inr (hexEncode (suSha256 S (writePublicConfigField (strBytes ''bloc-bte-public-config-v1'') @
       writePublicConfigField (strBytes defaultSuiteID) @ be64 (uint64_of bMax) @
       writePublicConfigField (strBytes normalizedCRS) @ writePublicConfigField encodedPK)))))))"

section \<open>The node\<close>

text \<open>\<^verbatim>\<open>strings.Split\<close> at commas.\<close>

fun splitCommas :: "string \<Rightarrow> string \<Rightarrow> string list" where
  "splitCommas acc [] = [rev acc]"
| "splitCommas acc (c # cs) = (if c = CHR '','' then rev acc # splitCommas [] cs else splitCommas (c # acc) cs)"

text \<open>The configured delay is a pause of the sending goroutine and is not modelled.\<close>

definition parseFaults :: "merge_env \<Rightarrow> string \<Rightarrow> FaultConfig" where
  "parseFaults M raw =
     fold (\<lambda>part f.
       let p = TrimSpace (meUniTrim M) part in
       if p = ''omit-proposal'' then f\<lparr>OmitProposal := True\<rparr>
       else if p = ''withhold-share'' then f\<lparr>WithholdShare := True\<rparr>
       else if p = ''corrupt-share'' then f\<lparr>CorruptShare := True\<rparr>
       else f) (splitCommas [] raw) \<lparr>OmitProposal = False, WithholdShare = False, CorruptShare = False\<rparr>"

text \<open>An empty key decodes to the nil key.\<close>

definition unmarshalLibP2PPrivateKey :: "boot_env \<Rightarrow> string \<Rightarrow> boot_error + string option" where
  "unmarshalLibP2PPrivateKey B raw =
     (if raw = [] then Inr None
      else case hexDecode raw of
        None \<Rightarrow> Inl PeerKeyInvalid
      | Some data \<Rightarrow> (case bePeerOfKey B data of None \<Rightarrow> Inl PeerKeyInvalid | Some pid \<Rightarrow> Inr (Some pid)))"

text \<open>What \<^verbatim>\<open>newNode\<close> derives before it builds the node.\<close>

record ('s, 'a, 'b, 'c) boot_parts =
  bpConfig :: ConfigFile
  bpSelf :: NodeConfig
  bpIDs :: "nat list"
  bpCluster :: "('s, 'a, 'b, 'c) ClusterBTE"
  bpSecret :: "int \<times> nat \<times> 's"
  bpPublicID :: string

definition bootParts ::
  "merge_env \<Rightarrow> boot_env \<Rightarrow> hybrid \<Rightarrow> ('s, 'a::ab_group_add, 'b, 'c) suite \<Rightarrow> ConfigFile \<Rightarrow> NodeSecretConfig \<Rightarrow> nat \<Rightarrow>
   boot_error + ('s, 'a, 'b, 'c) boot_parts" where
  "bootParts M B hy S cfg0 secrets ident =
     (let cfg = normalizeConfig cfg0; matching = filter (\<lambda>c. ncID c = ident) (cfNodes cfg) in
      and_then (case checkConfig cfg of Inl e \<Rightarrow> Inl (ConfigRefused e) | Inr _ \<Rightarrow> Inr ()) (\<lambda>_.
      and_then (ensure (scClusterID secrets = cfClusterID cfg) (SecretsForCluster (scClusterID secrets))) (\<lambda>_.
      and_then (ensure (scOperatorID secrets = ident) (SecretsForOperator (scOperatorID secrets))) (\<lambda>_.
      and_then (ensure (matching \<noteq> []) (NodeNotConfigured ident)) (\<lambda>_.
      and_then (case NewBTDFromPublicCRS S defaultSuiteID (cfBMax cfg) (cfCRSBytes cfg) of
          Inl e \<Rightarrow> Inl (CRSRefused e) | Inr b \<Rightarrow> Inr b) (\<lambda>btd.
      and_then (or_error (unmarshalPointHex S (cfPublicKeyHex cfg)) PublicKeyInvalid) (\<lambda>pk.
      and_then (PublicConfigID M S (cfBMax cfg) (cfCRSSHA256 cfg) pk) (\<lambda>pid.
      and_then (ensure (pcExpectedPublicConfigID (cfProvider cfg) = [] \<or> pcExpectedPublicConfigID (cfProvider cfg) = pid)
          (PublicConfigUnexpected pid)) (\<lambda>_.
      and_then (or_error (unmarshalScalarHex S (scBTEShareScalarHex secrets)) ShareScalarInvalid) (\<lambda>scalar.
      let secret = (int64_of ident, ident mod 2 ^ 32, scalar) in
      Inr \<lparr>bpConfig = cfg, bpSelf = last matching, bpIDs = sortSlice (<) (map ncID (cfNodes cfg)),
        bpCluster = NewNode hy btd pk secret (nat (cfN cfg)) (nat (cfThreshold cfg)),
        bpSecret = secret, bpPublicID = pid\<rparr>))))))))))"

text \<open>
  \<^term>\<open>None\<close> is a panic: deriving the peer id of a nil key, or the constructor of the common
  subset.
\<close>

definition newNode ::
  "node_env \<Rightarrow> boot_env \<Rightarrow> hybrid \<Rightarrow> ('s, 'a::ab_group_add, 'b, 'c) suite \<Rightarrow> ConfigFile \<Rightarrow> NodeSecretConfig \<Rightarrow> nat \<Rightarrow> FaultConfig \<Rightarrow>
   (boot_error + ('s, 'a, 'b, 'c) Node) option" where
  "newNode E B hy S cfg0 secrets ident faults =
     (case bootParts (neMergeEnv E) B hy S cfg0 secrets ident of
        Inl e \<Rightarrow> Some (Inl e)
      | Inr p \<Rightarrow>
          (case unmarshalLibP2PPrivateKey B (scP2PPrivateKeyHex secrets) of
             Inl e \<Rightarrow> Some (Inl e)
           | Inr None \<Rightarrow> None
           | Inr (Some pid) \<Rightarrow>
               if pid \<noteq> ncP2PPeerID (bpSelf p) then Some (Inl (PeerIDMismatch pid))
               else (case newSlotState E (bpConfig p) (ncID (bpSelf p)) (bpIDs p) (cfSlot (bpConfig p)) of
                 None \<Rightarrow> None
               | Some st \<Rightarrow>
                   Some (Inr (slotState.extend st
                     (Node_State.Node.fields (bpConfig p) (ncID (bpSelf p)) (bpIDs p) (map ncID (cfNodes (bpConfig p))) (bpCluster p)
                        (bpSecret p) (bpPublicID p) faults (cfSlot (bpConfig p)) 0 0))))))"

section \<open>What a booted node looks like\<close>

lemma bootParts_Inr:
  assumes "bootParts M B hy S cfg secrets ident = Inr p"
  shows "bpConfig p = normalizeConfig cfg" "checkConfig (bpConfig p) = Inr ()" "bpSelf p \<in> set (cfNodes (bpConfig p))" "ncID (bpSelf p) = ident"
    "bpIDs p = sortSlice (<) (map ncID (cfNodes (bpConfig p)))" "scOperatorID secrets = ident" "scClusterID secrets = cfClusterID (bpConfig p)"
    "0 < cfBMax (bpConfig p)" "btdB (clBtd (bpCluster p)) = cfBMax (bpConfig p)" "btdN (clBtd (bpCluster p)) = nat (cfN (bpConfig p))"
    "btdT (clBtd (bpCluster p)) = nat (cfThreshold (bpConfig p))" "btdSuite (clBtd (bpCluster p)) = S"
    "pcExpectedPublicConfigID (cfProvider (bpConfig p)) \<in> {[], bpPublicID p}"
    "\<exists>v. bpSecret p = (int64_of ident, ident mod 2 ^ 32, v)"
proof -
  let ?ms = "filter (\<lambda>c. ncID c = ident) (cfNodes (normalizeConfig cfg))"
  obtain btd pk pid v where p: "checkConfig (normalizeConfig cfg) = Inr ()" "scClusterID secrets = cfClusterID (normalizeConfig cfg)"
    "scOperatorID secrets = ident" "?ms \<noteq> []"
    "NewBTDFromPublicCRS S defaultSuiteID (cfBMax (normalizeConfig cfg)) (cfCRSBytes (normalizeConfig cfg)) = Inr btd"
    "PublicConfigID M S (cfBMax (normalizeConfig cfg)) (cfCRSSHA256 (normalizeConfig cfg)) pk = Inr pid"
    "pcExpectedPublicConfigID (cfProvider (normalizeConfig cfg)) = [] \<or> pcExpectedPublicConfigID (cfProvider (normalizeConfig cfg)) = pid"
    "p = \<lparr>bpConfig = normalizeConfig cfg, bpSelf = last ?ms, bpIDs = sortSlice (<) (map ncID (cfNodes (normalizeConfig cfg))),
        bpCluster = NewNode hy btd pk (int64_of ident, ident mod 2 ^ 32, v) (nat (cfN (normalizeConfig cfg)))
          (nat (cfThreshold (normalizeConfig cfg))),
        bpSecret = (int64_of ident, ident mod 2 ^ 32, v), bpPublicID = pid\<rparr>"
    using assms by (auto simp: bootParts_def Let_def split: sum.splits)
  have self: "last ?ms \<in> set ?ms" using p(4) by (rule last_in_set)
  have btd: "btdB btd = cfBMax (normalizeConfig cfg)" "btdSuite btd = S" using p(5) by (auto simp: NewBTDFromPublicCRS_def)
  show "bpConfig p = normalizeConfig cfg" "checkConfig (bpConfig p) = Inr ()" "scOperatorID secrets = ident"
    "scClusterID secrets = cfClusterID (bpConfig p)" "bpIDs p = sortSlice (<) (map ncID (cfNodes (bpConfig p)))"
    "pcExpectedPublicConfigID (cfProvider (bpConfig p)) \<in> {[], bpPublicID p}" "\<exists>v. bpSecret p = (int64_of ident, ident mod 2 ^ 32, v)"
    using p by auto
  show "bpSelf p \<in> set (cfNodes (bpConfig p))" "ncID (bpSelf p) = ident" using self p(8) by auto
  show "0 < cfBMax (bpConfig p)" using p(6,8) by (auto simp: PublicConfigID_def Let_def)
  show "btdB (clBtd (bpCluster p)) = cfBMax (bpConfig p)" "btdN (clBtd (bpCluster p)) = nat (cfN (bpConfig p))"
    "btdT (clBtd (bpCluster p)) = nat (cfThreshold (bpConfig p))" "btdSuite (clBtd (bpCluster p)) = S"
    using p(8) btd by (simp_all add: NewNode_def withPK_def)
qed

lemma newNode_Inr:
  assumes "newNode E B hy S cfg secrets ident faults = Some (Inr n)"
  obtains p st where "bootParts (neMergeEnv E) B hy S cfg secrets ident = Inr p"
    "newSlotStateWithLimit E (bpConfig p) ident (bpIDs p) (cfSlot (bpConfig p)) 0 = Some st"
    "ndCfg n = bpConfig p" "ndSelf n = ident" "ndNodeIDs n = bpIDs p" "ndPeers n = map ncID (cfNodes (bpConfig p))"
    "ndCluster n = bpCluster p" "ndSecret n = bpSecret p" "ndPublicConfigID n = bpPublicID p" "ndFaults n = faults"
    "ndLastSlot n = cfSlot (bpConfig p)" "slotState.truncate n = st"
proof -
  obtain p st where p: "bootParts (neMergeEnv E) B hy S cfg secrets ident = Inr p"
    "newSlotState E (bpConfig p) (ncID (bpSelf p)) (bpIDs p) (cfSlot (bpConfig p)) = Some st"
    "n = slotState.extend st (Node_State.Node.fields (bpConfig p) (ncID (bpSelf p)) (bpIDs p) (map ncID (cfNodes (bpConfig p))) (bpCluster p)
       (bpSecret p) (bpPublicID p) faults (cfSlot (bpConfig p)) 0 0)"
    using assms by (auto simp: newNode_def split: sum.splits option.splits if_splits)
  show thesis
    by (rule that [OF p(1)], unfold p(3))
      (use p(2) bootParts_Inr(4) [OF p(1)] in \<open>simp_all add: newSlotState_def slotState.extend_def slotState.truncate_def Node_State.Node.fields_def\<close>)
qed

text \<open>
  C28. A node that boots is well formed: it is one of the configured operators, its operator list is
  sorted and has exactly the configured peers, its limits are within the absolute bounds and leave
  room for a proposal in an envelope, the cluster parameters are those of the configuration, the
  public setup is the expected one, and its first slot is prepared and empty.
\<close>

theorem node_boot_typed:
  assumes "newNode E B hy S cfg secrets ident faults = Some (Inr n)"
  shows "ndSelf n = ident \<and> scOperatorID secrets = ident \<and> ident \<in> set (ndPeers n) \<and> set (ndNodeIDs n) = set (ndPeers n) \<and>
    length (ndNodeIDs n) = length (cfNodes (ndCfg n)) \<and> 0 < cfBMax (ndCfg n) \<and>
    0 < MaxProposalBytes (cfLimits (ndCfg n)) \<and>
    MaxProposalBytes (cfLimits (ndCfg n)) + minimumEnvelopeHeadroomBytes \<le> MaxEnvelopeBytes (cfLimits (ndCfg n)) \<and>
    MaxEnvelopeBytes (cfLimits (ndCfg n)) \<le> absoluteMaxEnvelopeBytes \<and>
    1 \<le> MaxCombineAttemptsPerSubBatch (cfLimits (ndCfg n)) \<and> MaxCombineAttemptsPerSubBatch (cfLimits (ndCfg n)) \<le> absoluteMaxCombineAttempts \<and>
    btdB (clBtd (ndCluster n)) = cfBMax (ndCfg n) \<and> btdN (clBtd (ndCluster n)) = nat (cfN (ndCfg n)) \<and>
    btdT (clBtd (ndCluster n)) = nat (cfThreshold (ndCfg n)) \<and>
    pcExpectedPublicConfigID (cfProvider (ndCfg n)) \<in> {[], ndPublicConfigID n} \<and>
    ssId n = cfSlot (ndCfg n) \<and> ndLastSlot n = ssId n \<and> ssPhase n = slotPrepared \<and> ssResult n = None \<and> ssFailure n = None \<and>
    \<not> ssPlanned n \<and> ssShareCandidates n = []"
proof -
  obtain p st where b: "bootParts (neMergeEnv E) B hy S cfg secrets ident = Inr p"
    "newSlotStateWithLimit E (bpConfig p) ident (bpIDs p) (cfSlot (bpConfig p)) 0 = Some st"
    "ndCfg n = bpConfig p" "ndSelf n = ident" "ndNodeIDs n = bpIDs p" "ndPeers n = map ncID (cfNodes (bpConfig p))"
    "ndCluster n = bpCluster p" "ndPublicConfigID n = bpPublicID p" "ndLastSlot n = cfSlot (bpConfig p)" "slotState.truncate n = st"
    by (rule newNode_Inr [OF assms])
  note p = bootParts_Inr [OF b(1)]
  have slot: "ssId n = cfSlot (bpConfig p)" "ssPhase n = slotPrepared" "ssResult n = None" "ssFailure n = None" "\<not> ssPlanned n" "ssShareCandidates n = []"
    using b(2,10) by (auto simp: newSlotStateWithLimit_def slotState.truncate_def)
  have limits: "0 < MaxProposalBytes (cfLimits (bpConfig p))" "MaxProposalBytes (cfLimits (bpConfig p)) + minimumEnvelopeHeadroomBytes \<le> MaxEnvelopeBytes (cfLimits (bpConfig p))"
    "MaxEnvelopeBytes (cfLimits (bpConfig p)) \<le> absoluteMaxEnvelopeBytes" "1 \<le> MaxCombineAttemptsPerSubBatch (cfLimits (bpConfig p))"
    "MaxCombineAttemptsPerSubBatch (cfLimits (bpConfig p)) \<le> absoluteMaxCombineAttempts"
    using p(2) by (auto simp: checkConfig_def validateResourceLimits_def)
  have "ident \<in> ncID ` set (cfNodes (bpConfig p))" using p(3,4) by blast
  then show ?thesis using b p limits slot by simp
qed

definition demo_boot_suite :: "(rat, rat, rat, rat) suite" where
  "demo_boot_suite = demo_suite\<lparr>g1Unmarshal := (\<lambda>_. Some 13), g2Unmarshal := (\<lambda>_. Some 1), scUnmarshal := (\<lambda>_. Some 3)\<rparr>"

definition demo_crs :: bytes where
  "demo_crs = publicCRSMagic @ beFixed 4 publicCRSVersion @ beFixed 4 (length (strBytes defaultSuiteID)) @ strBytes defaultSuiteID @ beFixed 4 1 @
     concat (map (\<lambda>x. beFixed 4 (length [x]) @ [x]) [13, 1, 1])"

definition demo_peer :: "nat \<Rightarrow> NodeConfig" where
  "demo_peer i = \<lparr>ncID = i, ncHTTPAddr = ''h'', ncHTTPListenAddr = ''l'', ncHTTPAdvertiseURL = ''u'', ncP2PAddr = ''p'', ncP2PListenAddr = ''q'',
     ncP2PAdvertiseAddr = ''r'', ncP2PPeerID = (if i = 1 then ''peer1'' else ''other'')\<rparr>"

definition demo_boot_config :: ConfigFile where
  "demo_boot_config = demo_config\<lparr>cfBMax := 1, cfCRSSHA256 := replicate 64 (CHR ''0''), cfNodes := map demo_peer [2, 0, 1, 3],
     cfPublicKeyHex := ''0d'', cfCRSBytes := demo_crs\<rparr>"

definition demo_secrets :: NodeSecretConfig where
  "demo_secrets = \<lparr>scVersion = nodeSecretVersion, scClusterID = ''c'', scOperatorID = 1, scBTEShareScalarHex = ''03'', scP2PPrivateKeyHex = ''aa''\<rparr>"

definition demo_boot_env :: boot_env where
  "demo_boot_env = \<lparr>beReadFile = (\<lambda>_. None), beFields = (\<lambda>_. None), beStrictConfig = (\<lambda>_. None), beStrictSecrets = (\<lambda>_. None),
     beIsAbs = (\<lambda>_. True), beBeside = (\<lambda>d p. p), beEqualFold = (=), bePeerOfKey = (\<lambda>_. Some ''peer1'')\<rparr>"

definition demo_node_env :: node_env where
  "demo_node_env = \<lparr>neSlotEnv = demo_env, neMergeEnv = demo_merge_env, neListWire = demo_wire, neProviderEnv = demo_provider_env,
     neEncodeBlockBody = (\<lambda>_ _. None), neUnix = (\<lambda>t. t), neEthParse = (\<lambda>_. Inl []), neErrText = (\<lambda>_. [])\<rparr>"

definition no_faults :: FaultConfig where
  "no_faults = \<lparr>OmitProposal = False, WithholdShare = False, CorruptShare = False\<rparr>"

lemma demo_setup: "\<exists>btd. NewBTDFromPublicCRS demo_boot_suite defaultSuiteID 1 demo_crs = Inr btd"
proof -
  have magic: "readN (length publicCRSMagic) (publicCRSMagic @ rest) = Inr (publicCRSMagic, rest)" for rest by (simp add: readN_def)
  have num: "readUint32 (beFixed 4 k @ rest) = Inr (k, rest)" if "k < 256 ^ 4" for k rest
    using that by (simp add: readUint32_def readN_def beNat_beFixed)
  have sid: "readCRSBytes (beFixed 4 (length (strBytes defaultSuiteID)) @ strBytes defaultSuiteID @ rest) = Inr (strBytes defaultSuiteID, rest)" for rest
    by (rule readCRSBytes_write) (simp add: maxCRSPointBytes_def defaultSuiteID_def strBytes_def)
  have pt: "readCRSBytes (beFixed 4 (Suc 0) @ x # rest) = Inr ([x], rest)" for x :: byte and rest
    using readCRSBytes_write [of "[x]" rest] by (simp add: maxCRSPointBytes_def)
  show ?thesis
    by (simp add: NewBTDFromPublicCRS_def PRFSetupFromPublic_def demo_crs_def magic sid num readCRSPoint_def pt publicCRSVersion_def
        demo_boot_suite_def Let_def)
qed

lemma zero_digest:
  "ToLower u (TrimSpace v (replicate 64 (CHR ''0''))) = replicate 64 (CHR ''0'')" "hexDecode (replicate 64 (CHR ''0'')) = Some (replicate 32 0)"
proof -
  have "list_all (\<lambda>c. of_char c < (128 :: nat)) (replicate 64 (CHR ''0''))" by (simp add: list_all_iff)
  then show "ToLower u (TrimSpace v (replicate 64 (CHR ''0''))) = replicate 64 (CHR ''0'')"
    by (simp add: ToLower_def TrimSpace_def is_ascii_def isSpace_def lowerChar_def dropWhile_replicate map_replicate_const)
  show "hexDecode (replicate 64 (CHR ''0'')) = Some (replicate 32 0)" by (simp add: numeral_nat fromHexChar_def)
qed

lemma demo_public_id: "\<exists>pid. PublicConfigID demo_merge_env demo_boot_suite 1 (replicate 64 (CHR ''0'')) 13 = Inr pid"
  by (simp add: PublicConfigID_def Let_def zero_digest demo_boot_suite_def demo_suite_def)

lemma demo_parts: "\<exists>p. bootParts demo_merge_env demo_boot_env demo_hybrid demo_boot_suite demo_boot_config demo_secrets 1 = Inr p"
proof -
  have norm: "normalizeConfig demo_boot_config = demo_boot_config" by code_simp
  have check: "checkConfig demo_boot_config = Inr ()" by code_simp
  have self: "filter (\<lambda>c. ncID c = 1) (cfNodes demo_boot_config) = [demo_peer 1]" by code_simp
  have cfg: "cfBMax demo_boot_config = 1" "cfCRSBytes demo_boot_config = demo_crs" "cfCRSSHA256 demo_boot_config = replicate 64 (CHR ''0'')"
    "cfClusterID demo_boot_config = ''c''" "pcExpectedPublicConfigID (cfProvider demo_boot_config) = []"
    by (simp_all add: demo_boot_config_def demo_config_def demo_provider_def)
  have "hexDecode (TrimPrefix (cfPublicKeyHex demo_boot_config) ''0x'') = Some [13]" "hexDecode (TrimPrefix ''03'' ''0x'') = Some [3]" by code_simp+
  then have pk: "unmarshalPointHex demo_boot_suite (cfPublicKeyHex demo_boot_config) = Some 13"
    "unmarshalScalarHex demo_boot_suite ''03'' = Some 3"
    by (simp_all add: unmarshalPointHex_def unmarshalScalarHex_def demo_boot_suite_def)
  obtain btd where btd: "NewBTDFromPublicCRS demo_boot_suite defaultSuiteID 1 demo_crs = Inr btd" using demo_setup ..
  obtain pid where pid: "PublicConfigID demo_merge_env demo_boot_suite 1 (replicate 64 (CHR ''0'')) 13 = Inr pid" using demo_public_id ..
  show ?thesis unfolding bootParts_def Let_def norm self cfg check pk btd pid sum.case
    by (simp add: demo_secrets_def pk pid)
qed

lemma demo_boots: "\<exists>n. newNode demo_node_env demo_boot_env demo_hybrid demo_boot_suite demo_boot_config demo_secrets 1 no_faults = Some (Inr n)"
proof -
  obtain p where p: "bootParts demo_merge_env demo_boot_env demo_hybrid demo_boot_suite demo_boot_config demo_secrets 1 = Inr p" using demo_parts ..
  note f = bootParts_Inr [OF p]
  have "bpConfig p = demo_boot_config" unfolding f(1) by code_simp
  then have self: "ncP2PPeerID (bpSelf p) = ''peer1''" using f(3,4) by (auto simp: demo_boot_config_def demo_peer_def)
  have key: "unmarshalLibP2PPrivateKey demo_boot_env (scP2PPrivateKeyHex demo_secrets) = Inr (Some ''peer1'')" by code_simp
  have slot: "\<exists>st. newSlotState demo_node_env cfg i ids s = Some (st :: (rat, rat, rat) slotState)" for cfg i ids s
  proof -
    have "\<exists>a'. bind_fold (\<lambda>nid a. Some (g nid a)) ids a = Some (a' :: ACS)" for g a
      by (induction ids arbitrary: a) auto
    then show ?thesis
      by (simp add: newSlotState_def newSlotStateWithLimit_def NewSlotACS_def newACS_def newRBC_def demo_node_env_def demo_env_def Let_def
        split: option.split)
  qed
  obtain st :: "(rat, rat, rat) slotState" where st: "newSlotState demo_node_env (bpConfig p) (ncID (bpSelf p)) (bpIDs p) (cfSlot (bpConfig p)) = Some st"
    using slot by blast
  have "neMergeEnv demo_node_env = demo_merge_env" by (simp add: demo_node_env_def)
  then show ?thesis by (simp add: newNode_def p [simplified] key self st)
qed

theorem node_boot_typed_witness:
  "\<exists>n. newNode demo_node_env demo_boot_env demo_hybrid demo_boot_suite demo_boot_config demo_secrets 1 no_faults = Some (Inr n) \<and>
    ndSelf n = 1 \<and> 1 \<in> set (ndPeers n) \<and> ssPhase n = slotPrepared"
  using demo_boots node_boot_typed by blast

end
