(* ===== verification/Cluster_Budget.thy ===== *)
theory Cluster_Budget
  imports Cluster
begin

text \<open>
  The budget of a combination: whatever the shares, \<^verbatim>\<open>CombineSharesBounded\<close> reports for every
  sub-batch a number of attempts within the limit given for it.
\<close>

lemma combineAttempt_bounded:
  assumes "combineAttempt c items shares m indices st = Some (stop, st')" and "int (cbAttempts st) \<le> m"
  shows "int (cbAttempts st') \<le> m"
  using assms by (auto simp: combineAttempt_def Let_def split: if_splits option.splits sum.splits prod.splits)

lemma visit_bounded:
  assumes "visitCombinations fuel n k (combineAttempt c items shares m) indices st = Some st'" and "int (cbAttempts st) \<le> m"
  shows "int (cbAttempts st') \<le> m"
  using assms
proof (induction fuel arbitrary: indices st)
  case (Suc fuel)
  obtain stop st1 where st1: "combineAttempt c items shares m indices st = Some (stop, st1)"
    using Suc.prems(1) by (auto split: option.splits)
  have "int (cbAttempts st1) \<le> m" using combineAttempt_bounded [OF st1 Suc.prems(2)] .
  then show ?case using Suc st1 by (auto split: if_splits option.splits)
qed auto

lemma combineSubBatch_bounded:
  assumes "combineSubBatch c items shares m = Some (r, n)" and "0 \<le> m"
  shows "int n \<le> m"
proof -
  obtain st where st: "forEachShareCombination (length shares) (btdT (clBtd c)) (combineAttempt c items shares m)
      \<lparr>cbFirstErr = None, cbOut = None, cbAttempts = 0\<rparr> = Some st" and n: "n = cbAttempts st"
    using assms(1) by (auto simp: combineSubBatch_def split: option.splits if_splits)
  have "int (cbAttempts st) \<le> m"
    using st assms(2) by (auto simp: forEachShareCombination_def split: if_splits dest: visit_bounded)
  then show ?thesis using n by simp
qed

definition limitOf :: "CombineOptions \<Rightarrow> nat \<Rightarrow> int" where
  "limitOf opts i = (case AttemptLimitsBySubBatch opts of None \<Rightarrow> MaxAttemptsPerSubBatch opts | Some ls \<Rightarrow> ls ! i)"

definition within :: "CombineOptions \<Rightarrow> nat list \<Rightarrow> bool" where
  "within opts stats \<longleftrightarrow> (\<forall>i < length stats. int (stats ! i) \<le> max 0 (limitOf opts i))"

lemma within_update: "within opts stats \<Longrightarrow> int n \<le> max 0 (limitOf opts k) \<Longrightarrow> within opts (stats[k := n])"
  by (cases "k < length stats") (auto simp: within_def nth_list_update)

lemma combineAll_bounded:
  assumes "combineAll c opts groups k sbs attempts results = Some (r, stats)" and "within opts attempts"
  shows "within opts stats \<and> length stats = length attempts"
  using assms
proof (induction c opts groups k sbs attempts results rule: combineAll.induct)
  case (2 c opts groups k items sbs attempts results)
  let ?limit = "case AttemptLimitsBySubBatch opts of None \<Rightarrow> MaxAttemptsPerSubBatch opts | Some ls \<Rightarrow> ls ! k"
  show ?case
  proof (cases "length (sharesOf groups k) < btdT (clBtd c) \<or> ?limit < 1")
    case True
    then show ?thesis using 2(2,3) by (auto simp: Let_def split: if_splits)
  next
    case False
    obtain res n where sub: "combineSubBatch c items (sharesOf groups k) ?limit = Some (res, n)"
      using 2(2) False by (auto simp: Let_def split: option.splits prod.splits)
    have "int n \<le> ?limit" using combineSubBatch_bounded [OF sub] False by linarith
    then have upd: "within opts (attempts[k := n])" using within_update [OF 2(3)] by (simp add: limitOf_def)
    show ?thesis
    proof (cases res)
      case (Inl e)
      then show ?thesis using 2(2) False sub upd by (auto simp: Let_def)
    next
      case (Inr out)
      have "combineAll c opts groups (Suc k) sbs (attempts[k := n]) (placeResults out results) = Some (r, stats)"
        using 2(2) False sub Inr by (auto simp: Let_def)
      from 2(1) [OF refl refl _ _ sub refl Inr this upd] False show ?thesis by auto
    qed
  qed
qed auto

lemma combine_bounded:
  assumes "CombineSharesBounded c plan shares opts = Some (r, stats)"
  shows "within opts stats" "length stats = length (bpSubBatches plan)"
proof -
  have zero: "within opts (replicate m 0)" for m by (simp add: within_def)
  have "within opts stats \<and> length stats = length (bpSubBatches plan)"
    using assms zero
    by (auto simp: CombineSharesBounded_def Let_def split: if_splits sum.splits dest!: combineAll_bounded)
  then show "within opts stats" "length stats = length (bpSubBatches plan)" by auto
qed

end
