(* ===== verification/Node_Steps.thy ===== *)
theory Node_Steps
  imports Node_Shares Node_Boot Cluster_Budget
begin

text \<open>
  The node as a concurrent program. Several goroutines run the handlers of one node at once; what
  is atomic is a critical section under the slot's mutex. The relation \<open>node_step\<close> has one rule
  per critical section, so its runs are the interleavings of the handlers. The second component of
  a state lists the combinations that were claimed and are still running outside the mutex.
  Preparing a slot takes the life-cycle lock for writing, so no handler, and no combination, runs
  then. Every handler of \<^theory_text>\<open>Node\<close> is a sequence of such steps.
\<close>

section \<open>Steps\<close>

datatype ('s, 'a, 'c) flight =
    Claimed "('s, 'a, 'c) combine_attempt"
  | Combined "('s, 'a, 'c) combine_attempt" "cl_error + PlaintextResult option list"

type_synonym ('s, 'a, 'b, 'c) node_state = "('s, 'a, 'b, 'c) Node \<times> ('s, 'a, 'c) flight list"

inductive node_step ::
  "node_env \<Rightarrow> nat \<Rightarrow> ('s::field, 'a::ab_group_add, 'b, 'c::ab_group_add) node_state \<Rightarrow> ('s, 'a, 'b, 'c) node_state \<Rightarrow> bool" for E ps where
  share_received: "node_step E ps (n, fs) (snd (addWireShare E ps now w n), fs)"
| share_made: "node_step E ps (n, fs) (snd (addShare E now d n), fs)"
| submitted: "node_step E ps (n, fs) (snd (handleSubmitTx E slotParam json body r n), fs)"
| start_called: "node_step E ps (n, fs) (n\<lparr>ssStarted := True\<rparr>, fs)"
| begun: "ssFailure n = None \<Longrightarrow> ssResult n = None \<Longrightarrow> node_step E ps (n, fs) (n\<lparr>ssPhase := slotRunning\<rparr>, fs)"
| proposed: "node_step E ps (n, fs) (recordProposal E clk l n, fs)"
| inbound: "node_step E ps (n, fs) (recordInbound kind sz n, fs)"
| acs_inbound: "node_step E ps (n, fs) (n\<lparr>ssSlot := RecordACSInbound subtype sz (ssSlot n)\<rparr>, fs)"
| acs_stepped: "node_step E ps (n, fs) (snd (stepACS step n), fs)"
| sent: "node_step E ps (n, fs) (sendEnvelopeTracked env token obs n, fs)"
| captured: "node_step E ps (n, fs) (captureACSTrace E n, fs)"
| planned: "node_step E ps (n, fs) (installPlan E clk plan agreed merged n, fs)"
| emptied: "node_step E ps (n, fs) (finishEmptyMaterializedSet E clk agreed merged n, fs)"
| generated: "ssPlanned n \<Longrightarrow> node_step E ps (n, fs) (finishShareGeneration E now n, fs)"
| failed: "node_step E ps (n, fs) (markSlotFailed E now reason n, fs)"
| claimed: "claimCombine n = (Some a, n') \<Longrightarrow> node_step E ps (n, fs) (n', Claimed a # fs)"
| recorded: "runCombine n a = Some (r, stats) \<Longrightarrow>
    node_step E ps (n, xs @ Claimed a # ys) (recordCombineStats stats n, xs @ Combined a r # ys)"
| gave_up: "node_step E ps (n, xs @ Combined a (Inl e) # ys) (snd (finishFailedCombine (caShareVersion a) n), xs @ ys)"
| completed: "node_step E ps (n, xs @ Combined a (Inr results) # ys) (completeCombine E clk a results n, xs @ ys)"
| prepared: "prepareSlotWithLimit E slot limit n = Some (r, n') \<Longrightarrow> node_step E ps (n, []) (n', [])"

abbreviation node_steps ::
  "node_env \<Rightarrow> nat \<Rightarrow> ('s::field, 'a::ab_group_add, 'b, 'c::ab_group_add) node_state \<Rightarrow> ('s, 'a, 'b, 'c) node_state \<Rightarrow> bool" where
  "node_steps E ps \<equiv> (node_step E ps)\<^sup>*\<^sup>*"

section \<open>Handlers are sequences of steps\<close>

lemmas one_step = r_into_rtranclp [where r = "node_step E ps" for E ps]

lemma steps_trans: "node_steps E ps x y \<Longrightarrow> node_steps E ps y z \<Longrightarrow> node_steps E ps x z"
  by (rule rtranclp_trans)

lemma tryCombine_one_round: "tryCombine E clk (Suc fuel) n = map_option snd (tryCombineOnce E clk n)"
proof -
  have "\<not> retry" if "tryCombineOnce E clk n = Some (retry, n')" for retry n'
    using that by (auto simp: tryCombineOnce_def claimCombine_def recordCombineStats_def finishFailedCombine_def on_metrics_def Let_def split: option.splits sum.splits if_splits)
  then show ?thesis by (fastforce split: option.split)
qed

lemma tryCombine_steps:
  assumes "tryCombine E clk fuel n = Some n'"
  shows "node_steps E ps (n, fs) (n', fs)"
  using assms
proof (induction fuel arbitrary: n)
  case (Suc fuel)
  obtain retry n3 where once: "tryCombineOnce E clk n = Some (retry, n3)" using Suc.prems by (auto split: option.splits)
  have steps: "node_steps E ps (n, fs) (n3, fs)"
  proof (cases "fst (claimCombine n)")
    case None
    then have "n3 = n" using once by (auto simp: tryCombineOnce_def claimCombine_def Let_def split: prod.splits if_splits)
    then show ?thesis by simp
  next
    case (Some a)
    then obtain n1 where claim: "claimCombine n = (Some a, n1)" by (cases "claimCombine n") auto
    obtain r stats where run: "runCombine n1 a = Some (r, stats)"
      using once claim by (auto simp: tryCombineOnce_def split: option.splits)
    have s1: "node_step E ps (n, fs) (n1, Claimed a # fs)" by (rule claimed [OF claim])
    have s2: "node_step E ps (n1, Claimed a # fs) (recordCombineStats stats n1, Combined a r # fs)"
      using recorded [OF run, of E ps "[]" fs] by simp
    have s3: "node_step E ps (recordCombineStats stats n1, Combined a r # fs) (n3, fs)"
    proof (cases r)
      case (Inl e)
      then have "n3 = snd (finishFailedCombine (caShareVersion a) (recordCombineStats stats n1))"
        using once claim run by (auto simp: tryCombineOnce_def Let_def)
      then show ?thesis using gave_up [of E ps "recordCombineStats stats n1" "[]" a e fs] Inl by simp
    next
      case (Inr results)
      then have "n3 = completeCombine E clk a results (recordCombineStats stats n1)"
        using once claim run by (auto simp: tryCombineOnce_def Let_def)
      then show ?thesis using completed [of E ps "recordCombineStats stats n1" "[]" a results fs clk] Inr by simp
    qed
    show ?thesis by (rule steps_trans [OF one_step [OF s1] steps_trans [OF one_step [OF s2] one_step [OF s3]]])
  qed
  show ?case using Suc.IH [of n3] Suc.prems once steps_trans [OF steps] steps by (auto split: if_splits)
qed simp

text \<open>Making shares does nothing but admit shares and fail the slot.\<close>

lemma makeShares_preserves:
  assumes "makeShares E now plan ks sent n = (b, sent', n')" and "P n"
    and added: "\<And>m d. P m \<Longrightarrow> P (snd (addShare E now d m))" and marked: "\<And>m. P m \<Longrightarrow> P (markSlotFailed E now ''share'' m)"
  shows "P n'"
  using assms(1,2)
proof (induction ks arbitrary: sent n)
  case (Cons k ks)
  show ?case
  proof (cases "WithholdShare (ndFaults n)")
    case True
    then show ?thesis using Cons.IH Cons.prems by simp
  next
    case False
    show ?thesis
    proof (cases "MakeShare (ndCluster n) (ndSecret n) plan (int k)")
      case (Inl e)
      then show ?thesis using Cons.prems False marked by auto
    next
      case d: (Inr d)
      obtain r n1 where add: "addShare E now d n = (r, n1)" by (cases "addShare E now d n")
      have n1: "P n1" using added [OF Cons.prems(2), of d] add by simp
      show ?thesis
      proof (cases r)
        case (Inl e)
        then show ?thesis using Cons.prems(1) False d add n1 by auto
      next
        case r: (Inr u)
        show ?thesis
        proof (cases "marshalShare n1 d")
          case None
          then show ?thesis using Cons.prems(1) False d add r marked [OF n1] by auto
        next
          case (Some w)
          then show ?thesis using Cons.IH [OF _ n1] Cons.prems(1) False d add r by (auto simp: Let_def)
        qed
      qed
    qed
  qed
qed simp

lemma makeShares_steps:
  assumes "makeShares E now plan ks sent n = (b, sent', n')"
  shows "node_steps E ps (n, fs) (n', fs)"
  by (rule makeShares_preserves [OF assms, where P = "\<lambda>m. node_steps E ps (n, fs) (m, fs)"])
    (auto intro: steps_trans [OF _ one_step [OF share_made]] steps_trans [OF _ one_step [OF failed]])

text \<open>Making shares and installing the plan leave the slot planned.\<close>

lemma marked_planned: "ssPlanned (markSlotFailed E now reason n) = ssPlanned n"
  by (simp add: markSlotFailed_def)

lemma added_planned: "ssPlanned (snd (addShare E now d n)) = ssPlanned n"
  by (rule same_fields(4) [OF addShare_same])

lemma makeShares_planned:
  assumes "makeShares E now plan ks sent n = (b, sent', n')" and "ssPlanned n"
  shows "ssPlanned n'"
  by (rule makeShares_preserves [OF assms(1), where P = ssPlanned]) (simp_all add: assms(2) added_planned marked_planned)

lemma metrics_planned [simp]:
  "ssPlanned (on_metrics f n) = ssPlanned n" "ssPlanned (on_times g n) = ssPlanned n" "ssPlanned (refreshMetricsLocked n) = ssPlanned n"
  "ssPlanned (recordDecision E clk t agreed merged n) = ssPlanned n"
  by (simp_all add: on_metrics_def on_times_def refreshMetricsLocked_def recordDecision_def)

lemma installPlan_planned: "ssFailure n = None \<Longrightarrow> ssPlanned (installPlan E clk plan agreed merged n)"
  by (simp add: installPlan_def Let_def)

lemma handleACSOutput_steps:
  assumes "handleACSOutput E clk out n = Some (sent, n')"
  shows "node_steps E ps (n, fs) (n', fs)"
proof (cases out)
  case None
  then show ?thesis using assms by (simp add: handleACSOutput_def)
next
  case (Some o')
  show ?thesis
  proof (cases "soSlot o' = ssId n")
    case False
    then have "n' = markSlotFailed E (clk 0) ''decode'' n" using assms Some by (simp add: handleACSOutput_def)
    then show ?thesis using one_step [OF failed] by simp
  next
    case slot: True
    let ?n = "captureACSTrace E n"
    have s1: "node_steps E ps (n, fs) (?n, fs)" by (rule one_step [OF captured])
    have "node_steps E ps (?n, fs) (n', fs)"
    proof (cases "decide E ?n o'")
      case (DecisionFails reason)
      then have "n' = markSlotFailed E (clk 1) reason ?n" using assms Some slot by (simp add: handleACSOutput_def Let_def)
      then show ?thesis using one_step [OF failed] by simp
    next
      case (DecisionEmpty agreed merged)
      then have "n' = finishEmptyMaterializedSet E clk agreed merged ?n"
        using assms Some slot by (simp add: handleACSOutput_def Let_def)
      then show ?thesis using one_step [OF emptied] by simp
    next
      case (DecisionPlans agreed merged plan)
      show ?thesis
      proof (cases "ssPlanned ?n \<or> ssFailure ?n \<noteq> None")
        case True
        then have "n' = ?n" using assms Some slot DecisionPlans by (simp add: handleACSOutput_def Let_def)
        then show ?thesis by simp
      next
        case False
        let ?i = "installPlan E clk plan agreed merged ?n"
        obtain b sent2 n2 where ms: "makeShares E (clk 6) plan [0..<length (bpSubBatches plan)] [] ?i = (b, sent2, n2)"
          by (cases "makeShares E (clk 6) plan [0..<length (bpSubBatches plan)] [] ?i") auto
        have s2: "node_steps E ps (?n, fs) (n2, fs)"
          by (rule steps_trans [OF one_step [OF planned] makeShares_steps [OF ms]])
        show ?thesis
        proof (cases b)
          case False
          then have "n' = n2" using assms Some slot DecisionPlans \<open>\<not> (ssPlanned ?n \<or> ssFailure ?n \<noteq> None)\<close> ms
            by (simp add: handleACSOutput_def Let_def)
          then show ?thesis using s2 by simp
        next
          case True
          let ?g = "finishShareGeneration E (clk 7) n2"
          have comb: "tryCombine E (\<lambda>i. clk (8 + i)) 1 ?g = Some n'"
            using assms Some slot DecisionPlans False ms True by (simp add: handleACSOutput_def Let_def del: tryCombine.simps)
          have "ssPlanned n2" using makeShares_planned [OF ms installPlan_planned] False by simp
          then have "node_steps E ps (n2, fs) (?g, fs)" by (rule one_step [OF generated])
          from steps_trans [OF s2 steps_trans [OF this tryCombine_steps [OF comb]]] show ?thesis .
        qed
      qed
    qed
    then show ?thesis by (rule steps_trans [OF s1])
  qed
qed

lemma handleEnvelope_steps:
  assumes "handleEnvelope E ps clk env sz n = Some (sent, n')"
  shows "node_steps E ps (n, fs) (n', fs)"
proof (cases "weDirect env \<and> weTo env \<noteq> ndSelf n \<or> weSlot env \<noteq> ssId n")
  case True
  then show ?thesis using assms by (auto simp: handleEnvelope_def split: if_splits)
next
  case here: False
  let ?n = "recordInbound (weKind env) sz n"
  have s1: "node_steps E ps (n, fs) (?n, fs)" by (rule one_step [OF inbound])
  have unf: "handleEnvelope E ps clk env sz n =
     (if weKind env = ''acs'' then
          (case weACS env of
             None \<Rightarrow> Some ([], ?n)
           | Some msg \<Rightarrow>
               let n2 = (case classifyACSMessage (Some msg) of
                     Inl _ \<Rightarrow> ?n | Inr subtype \<Rightarrow> ?n\<lparr>ssSlot := RecordACSInbound subtype sz (ssSlot ?n)\<rparr>)
               in (case stepACS (slot_HandleMessage (neSlotEnv E) (weFrom env) (Some msg)) n2 of
                    (Inl StepPanicked, _) \<Rightarrow> None
                  | (Inl _, n3) \<Rightarrow> Some ([], n3)
                  | (Inr (out, msgs), n3) \<Rightarrow> map_option (\<lambda>(sent, n4). (msgs @ sent, n4)) (handleACSOutput E clk out n3)))
        else if weKind env = ''share'' then
          (case weShare env of
             None \<Rightarrow> Some ([], ?n)
           | Some w \<Rightarrow>
               (case addWireShare E ps (clk 0) w ?n of
                  (Inl _, n2) \<Rightarrow> Some ([], n2)
                | (Inr _, n2) \<Rightarrow> map_option (\<lambda>n3. ([], n3)) (tryCombine E (\<lambda>i. clk (1 + i)) 1 n2)))
        else Some ([], ?n))"
    using here unfolding handleEnvelope_def Let_def by auto
  have "node_steps E ps (?n, fs) (n', fs)"
  proof -
    consider (acs) msg where "weKind env = ''acs''" "weACS env = Some msg"
      | (share) w where "weKind env = ''share''" "weShare env = Some w" | (none) "n' = ?n"
      using assms unfolding unf by (auto split: if_splits option.splits)
    then show ?thesis
    proof cases
      case acs
      let ?n2 = "case classifyACSMessage (Some msg) of
          Inl _ \<Rightarrow> ?n | Inr subtype \<Rightarrow> ?n\<lparr>ssSlot := RecordACSInbound subtype sz (ssSlot ?n)\<rparr>"
      let ?step = "slot_HandleMessage (neSlotEnv E) (weFrom env) (Some msg)"
      have s2: "node_steps E ps (?n, fs) (?n2, fs)"
        by (cases "classifyACSMessage (Some msg)") (simp_all add: one_step [OF acs_inbound])
      obtain r n3 where step: "stepACS ?step ?n2 = (r, n3)" by (cases "stepACS ?step ?n2")
      have s3: "node_steps E ps (?n, fs) (n3, fs)"
        using steps_trans [OF s2 one_step [OF acs_stepped [of E ps ?n2 fs ?step]]] step by simp
      have "n' = n3 \<or> (\<exists>out msgs sent2. handleACSOutput E clk out n3 = Some (sent2, n'))"
        using assms acs step unfolding unf by (auto simp: Let_def split: sum.splits step_error.splits)
      then show ?thesis using s3 steps_trans [OF s3 handleACSOutput_steps] by auto
    next
      case share
      obtain r n2 where add: "addWireShare E ps (clk 0) w ?n = (r, n2)" by (cases "addWireShare E ps (clk 0) w ?n")
      have s2: "node_steps E ps (?n, fs) (n2, fs)" using one_step [OF share_received [of E ps ?n fs "clk 0" w]] add by simp
      have "n' = n2 \<or> tryCombine E (\<lambda>i. clk (1 + i)) 1 n2 = Some n'"
        using assms share add unfolding unf by (auto split: sum.splits simp del: tryCombine.simps)
      then show ?thesis using s2 steps_trans [OF s2 tryCombine_steps] by blast
    qed simp
  qed
  then show ?thesis by (rule steps_trans [OF s1])
qed

lemma startConsensus_steps:
  assumes "startConsensus E clk n = Some (r, sent, n')"
  shows "node_steps E ps (n, fs) (n', fs)"
proof (cases "ssStarted n \<or> ssFailure n \<noteq> None \<or> ssResult n \<noteq> None")
  case True
  then have "n' = n \<or> n' = n\<lparr>ssStarted := True\<rparr>" using assms
    by (cases "ssStarted n"; cases "ssFailure n"; cases "ssResult n") (auto simp: startConsensus_def)
  then show ?thesis using one_step [OF start_called] by auto
next
  case False
  let ?n = "n\<lparr>ssStarted := True, ssPhase := slotRunning\<rparr>"
  have "node_step E ps (n\<lparr>ssStarted := True\<rparr>, fs) ((n\<lparr>ssStarted := True\<rparr>)\<lparr>ssPhase := slotRunning\<rparr>, fs)"
    using False by (intro begun) auto
  from steps_trans [OF one_step [OF start_called] one_step [OF this]]
  have s1: "node_steps E ps (n, fs) (?n, fs)" by simp
  show ?thesis
  proof (cases "prepareProposal E ?n")
    case (Inl e)
    then have "n' = markSlotFailed E (clk 0) ''proposal'' ?n" using assms False by (simp add: startConsensus_def)
    then show ?thesis using steps_trans [OF s1 one_step [OF failed]] by simp
  next
    case (Inr x)
    obtain l enc where x: "x = (l, enc)" by (cases x)
    let ?step = "InputBatch (neSlotEnv E) enc"
    obtain r4 n4 where step: "stepACS ?step (recordProposal E clk l ?n) = (r4, n4)" by (cases "stepACS ?step (recordProposal E clk l ?n)")
    have "node_steps E ps (?n, fs) (n4, fs)"
      using steps_trans [OF one_step [OF proposed [of E ps ?n fs clk l]]
        one_step [OF acs_stepped [of E ps "recordProposal E clk l ?n" fs ?step]]] step by simp
    then have s4: "node_steps E ps (n, fs) (n4, fs)" by (rule steps_trans [OF s1])
    have "n' = markSlotFailed E (clk 2) ''acs'' n4 \<or> (\<exists>out sent2. handleACSOutput E (\<lambda>i. clk (3 + i)) out n4 = Some (sent2, n'))"
      using assms False Inr x step by (auto simp: startConsensus_def split: sum.splits step_error.splits)
    then show ?thesis using steps_trans [OF s4 one_step [OF failed]] steps_trans [OF s4 handleACSOutput_steps] by blast
  qed
qed

end
