(* ===== verification/Node_Safety.thy ===== *)
theory Node_Safety
  imports Node_Steps
begin

text \<open>
  Safety of a node under every interleaving of its handlers: the invariant of the slot state and
  of the running combinations, the budget of subset attempts, and the life cycle of slots as the
  refinement of a small abstract machine.
\<close>

section \<open>The fields the invariant is about\<close>

definition core where
  "core n = (ssId n, ssPhase n, ssPlan n, ssPlanned n, ssResult n, ssFailure n, ssCombineInFlight n, ssCombineAttemptsLeft n,
     mxShareSubsetAttempts (ssMetrics n), ssShareCandidates n, ssMaterial n, ndCfg n, ndSelf n, ndPeers n, ndCluster n, ndLastSlot n)"

lemma core_metrics: "mxShareSubsetAttempts (f (ssMetrics n)) = mxShareSubsetAttempts (ssMetrics n) \<Longrightarrow> core (on_metrics f n) = core n"
  by (simp add: core_def on_metrics_def)

lemma core_times [simp]: "core (on_times f n) = core n"
  by (simp add: core_def on_times_def)

lemma refresh_attempts [simp]: "mxShareSubsetAttempts (refreshMetrics t m) = mxShareSubsetAttempts m"
  by (simp add: refreshMetrics_def Let_def)

lemma core_refresh [simp]: "core (refreshMetricsLocked n) = core n"
  by (simp add: refreshMetricsLocked_def core_metrics)

lemma core_decision [simp]: "core (recordDecision E clk t agreed merged n) = core n"
  by (simp add: recordDecision_def core_metrics)

lemma core_slot [simp]: "core (n\<lparr>ssSlot := s\<rparr>) = core n"
  by (simp add: core_def)

lemma core_started [simp]: "core (n\<lparr>ssStarted := b\<rparr>) = core n"
  by (simp add: core_def)

text \<open>The critical sections that leave these fields alone.\<close>

lemma core_proposal [simp]: "core (recordProposal E clk l n) = core n"
  by (simp add: recordProposal_def Let_def core_metrics)

lemma core_inbound [simp]: "core (recordInbound kind sz n) = core n"
  by (simp add: recordInbound_def core_metrics)

lemma core_outbound [simp]: "core (recordOutbound kind sz n) = core n"
  by (simp add: recordOutbound_def core_metrics)

lemma core_sent [simp]: "core (sendEnvelopeTracked env token obs n) = core n"
  by (simp add: sendEnvelopeTracked_def Let_def)

lemma core_captured [simp]: "core (captureACSTrace E n) = core n"
  by (simp add: captureACSTrace_def Let_def core_def)

lemma core_acs [simp]: "core (snd (stepACS step n)) = core n"
  by (auto simp: stepACS_def split: prod.splits status.splits sum.splits option.splits)

text \<open>Branching rules, to walk through a long handler without splitting its conditions.\<close>

lemma snd_branches:
  "h (snd x) = c \<Longrightarrow> h (snd x') = c \<Longrightarrow> h (snd (if b then x else x')) = c"
  "h (snd x) = c \<Longrightarrow> (\<And>v. h (snd (f v)) = c) \<Longrightarrow> h (snd (case q of None \<Rightarrow> x | Some v \<Rightarrow> f v)) = c"
  "(\<And>e. h (snd (g e)) = c) \<Longrightarrow> (\<And>v. h (snd (f v)) = c) \<Longrightarrow> h (snd (case s of Inl e \<Rightarrow> g e | Inr v \<Rightarrow> f v)) = c"
  "(\<And>v w. h (snd (u v w)) = c) \<Longrightarrow> h (snd (case z of (v, w) \<Rightarrow> u v w)) = c"
  "(\<And>v. h (snd (f v)) = c) \<Longrightarrow> h (snd (let v = y in f v)) = c"
  by (simp_all split: option.splits sum.splits prod.splits)

lemma core_submit [simp]: "core (snd (handleSubmitTx E slotParam json body r n)) = core n"
  unfolding handleSubmitTx_def by (intro snd_branches [where h = core]) (simp_all add: core_def on_metrics_def)

lemmas core_frames = core_submit core_started core_slot core_proposal core_inbound core_acs core_sent core_captured

section \<open>The invariant\<close>

definition outcome_ok :: "('s, 'a, 'b, 'c) Node \<Rightarrow> bool" where
  "outcome_ok n \<longleftrightarrow>
     (ssPhase n = slotCompleted \<longleftrightarrow> ssResult n \<noteq> None) \<and> (ssPhase n = slotFailed \<longleftrightarrow> ssFailure n \<noteq> None) \<and>
     (\<forall>r. ssResult n = Some r \<longrightarrow> rsSlot r = ssId n \<and> rsNodeID r = ndSelf n \<and> ssPlanned n) \<and>
     (\<forall>f. ssFailure n = Some f \<longrightarrow> sfSlot f = ssId n)"

abbreviation attempt_limit :: "('s, 'a, 'b, 'c) Node \<Rightarrow> int" where
  "attempt_limit n \<equiv> MaxCombineAttemptsPerSubBatch (cfLimits (ndCfg n))"

definition budget_ok :: "('s, 'a, 'b, 'c) Node \<Rightarrow> bool" where
  "budget_ok n \<longleftrightarrow>
     length (ssCombineAttemptsLeft n) = length (bpSubBatches (ssPlan n)) \<and> (\<forall>x \<in> set (ssCombineAttemptsLeft n). 0 \<le> x) \<and>
     0 \<le> mxShareSubsetAttempts (ssMetrics n) \<and>
     mxShareSubsetAttempts (ssMetrics n) + sum_list (ssCombineAttemptsLeft n) =
       int (length (ssCombineAttemptsLeft n)) * attempt_limit n \<and>
     (\<not> ssPlanned n \<longrightarrow> ssCombineAttemptsLeft n = [])"

definition flight_ok :: "('s, 'a, 'b, 'c) Node \<Rightarrow> ('s, 'a, 'c) flight \<Rightarrow> bool" where
  "flight_ok n f = (case f of
       Claimed a \<Rightarrow> ssPlanned n \<and> caPlan a = ssPlan n \<and> caMaterial a = ssMaterial n \<and> caAttemptLimits a = ssCombineAttemptsLeft n
     | Combined a r \<Rightarrow> ssPlanned n \<and> caPlan a = ssPlan n \<and> caMaterial a = ssMaterial n)"

definition flights_ok :: "('s, 'a, 'b, 'c) Node \<Rightarrow> ('s, 'a, 'c) flight list \<Rightarrow> bool" where
  "flights_ok n fs \<longleftrightarrow> (ssCombineInFlight n \<longleftrightarrow> fs \<noteq> []) \<and> length fs \<le> 1 \<and> (\<forall>f \<in> set fs. flight_ok n f)"

definition slot_ok :: "('s, 'a, 'b, 'c) Node \<Rightarrow> bool" where
  "slot_ok n \<longleftrightarrow> ssId n = ndLastSlot n \<and> cfSlot (ndCfg n) = ssId n \<and> 0 < attempt_limit n"

definition node_inv :: "('s, 'a, 'b, 'c) node_state \<Rightarrow> bool" where
  "node_inv x = (case x of (n, fs) \<Rightarrow> outcome_ok n \<and> slot_ok n \<and> budget_ok n \<and> shares_ok n \<and> flights_ok n fs)"

lemma node_invI:
  "outcome_ok n \<Longrightarrow> slot_ok n \<Longrightarrow> budget_ok n \<Longrightarrow> shares_ok n \<Longrightarrow> flights_ok n fs \<Longrightarrow> node_inv (n, fs)"
  by (simp add: node_inv_def)

lemma node_invD:
  assumes "node_inv (n, fs)"
  shows "outcome_ok n" "slot_ok n" "budget_ok n" "shares_ok n" "flights_ok n fs"
  using assms by (simp_all add: node_inv_def)

text \<open>What each part depends on.\<close>

lemma outcome_cong:
  assumes "ssId n' = ssId n" "ssPhase n' = ssPhase n" "ssResult n' = ssResult n" "ssFailure n' = ssFailure n"
    "ssPlanned n' = ssPlanned n" "ndSelf n' = ndSelf n"
  shows "outcome_ok n' \<longleftrightarrow> outcome_ok n"
  by (simp add: outcome_ok_def assms)

lemma slot_cong:
  assumes "ssId n' = ssId n" "ndLastSlot n' = ndLastSlot n" "ndCfg n' = ndCfg n"
  shows "slot_ok n' \<longleftrightarrow> slot_ok n"
  by (simp add: slot_ok_def assms)

lemma budget_cong:
  assumes "ssCombineAttemptsLeft n' = ssCombineAttemptsLeft n" "ssPlan n' = ssPlan n" "ssPlanned n' = ssPlanned n" "ndCfg n' = ndCfg n"
    "mxShareSubsetAttempts (ssMetrics n') = mxShareSubsetAttempts (ssMetrics n)"
  shows "budget_ok n' \<longleftrightarrow> budget_ok n"
  by (simp add: budget_ok_def assms)

lemma flights_cong:
  assumes "ssCombineInFlight n' = ssCombineInFlight n" "ssCombineAttemptsLeft n' = ssCombineAttemptsLeft n" "ssPlan n' = ssPlan n"
    "ssPlanned n' = ssPlanned n" "ssMaterial n' = ssMaterial n"
  shows "flights_ok n' fs \<longleftrightarrow> flights_ok n fs"
  by (simp add: flights_ok_def flight_ok_def assms cong: flight.case_cong)

lemma shares_transfer:
  assumes "shares_ok n" and "ndPeers n' = ndPeers n" "ndCfg n' = ndCfg n" "ndCluster n' = ndCluster n" "ssShareCandidates n' = ssShareCandidates n"
    and "ssPlanned n' = ssPlanned n" "ssPlan n' = ssPlan n" "ssResult n' = ssResult n \<or> ssResult n' \<noteq> None"
  shows "shares_ok n'"
proof -
  have "share_target n' = share_target n \<or> share_target n' = None" using assms(6-) by (auto simp: share_target_def)
  then show ?thesis using assms(1-5) table_ok_weaken by (fastforce simp: shares_ok_def)
qed

text \<open>A change of the outcome and of the share table only.\<close>

lemma inv_frameI:
  assumes "node_inv (n, fs)" and "outcome_ok n'" and "shares_ok n'"
    and f: "ssId n' = ssId n" "ssPlan n' = ssPlan n" "ssPlanned n' = ssPlanned n" "ssCombineInFlight n' = ssCombineInFlight n"
      "ssCombineAttemptsLeft n' = ssCombineAttemptsLeft n" "mxShareSubsetAttempts (ssMetrics n') = mxShareSubsetAttempts (ssMetrics n)"
      "ssMaterial n' = ssMaterial n" "ndCfg n' = ndCfg n" "ndLastSlot n' = ndLastSlot n"
  shows "node_inv (n', fs)"
  using node_invD(2,3,5) [OF assms(1)] assms(2,3) slot_cong [OF f(1,9,8)] budget_cong [OF f(5,2,3,8,6)] flights_cong [OF f(4,5,2,3,7)]
  by (simp add: node_inv_def)

lemma inv_core:
  assumes "core n' = core n" and "node_inv (n, fs)"
  shows "node_inv (n', fs)"
proof -
  have f: "ssId n' = ssId n" "ssPhase n' = ssPhase n" "ssPlan n' = ssPlan n" "ssPlanned n' = ssPlanned n" "ssResult n' = ssResult n"
    "ssFailure n' = ssFailure n" "ssCombineInFlight n' = ssCombineInFlight n" "ssCombineAttemptsLeft n' = ssCombineAttemptsLeft n"
    "mxShareSubsetAttempts (ssMetrics n') = mxShareSubsetAttempts (ssMetrics n)" "ssShareCandidates n' = ssShareCandidates n"
    "ssMaterial n' = ssMaterial n" "ndCfg n' = ndCfg n" "ndSelf n' = ndSelf n" "ndPeers n' = ndPeers n" "ndCluster n' = ndCluster n"
    "ndLastSlot n' = ndLastSlot n" using assms(1) by (simp_all add: core_def)
  have "outcome_ok n'" using node_invD(1) [OF assms(2)] outcome_cong [OF f(1,2,5,6,4,13)] by simp
  moreover have "shares_ok n'" by (rule shares_transfer [OF node_invD(4) [OF assms(2)]]) (simp_all add: f)
  ultimately show ?thesis by (rule inv_frameI [OF assms(2)]) (simp_all add: f)
qed

section \<open>Every step keeps it\<close>

lemma inv_shares:
  assumes inv: "node_inv (n, fs)" and same: "same_but_shares n n'" and "shares_ok n'"
  shows "node_inv (n', fs)"
proof -
  have "mxShareSubsetAttempts (ssMetrics n') = mxShareSubsetAttempts (ssMetrics n)" using same by (simp add: same_but_shares_def)
  moreover note f = same_fields [OF same]
  moreover have "outcome_ok n'" using node_invD(1) [OF inv] outcome_cong [OF f(1,2,5,6,4,13)] by simp
  ultimately show ?thesis using inv_frameI [OF inv _ assms(3)] by simp
qed

lemma inv_begun:
  assumes inv: "node_inv (n, fs)" and "ssFailure n = None" and "ssResult n = None"
  shows "node_inv (n\<lparr>ssPhase := slotRunning\<rparr>, fs)"
proof (rule inv_frameI [OF inv])
  show "outcome_ok (n\<lparr>ssPhase := slotRunning\<rparr>)" using assms(2,3) by (simp add: outcome_ok_def)
  show "shares_ok (n\<lparr>ssPhase := slotRunning\<rparr>)" by (rule shares_transfer [OF node_invD(4) [OF inv]]) simp_all
qed simp_all

lemma inv_failed:
  assumes inv: "node_inv (n, fs)"
  shows "node_inv (markSlotFailed E now reason n, fs)" (is "node_inv (?n, fs)")
proof (rule inv_frameI [OF inv])
  show "outcome_ok ?n" using node_invD(1) [OF inv] by (auto simp: outcome_ok_def markSlotFailed_def)
  show "shares_ok ?n" by (rule shares_transfer [OF node_invD(4) [OF inv]]) (simp_all add: markSlotFailed_def)
qed (simp_all add: markSlotFailed_def)

lemma inv_generated:
  assumes "node_inv (n, fs)"
  shows "node_inv (finishShareGeneration E now n, fs)"
proof -
  let ?n1 = "refreshMetricsLocked (on_metrics (\<lambda>m. m\<lparr>mxSharesDoneUnixNano := neUnix E now\<rparr>)
      (on_times (\<lambda>t. t\<lparr>tmSharesDone := Some now\<rparr>) (n\<lparr>ssShareGenerationDone := True\<rparr>)))"
  have "core ?n1 = core (n\<lparr>ssShareGenerationDone := True\<rparr>)" by (simp add: core_metrics)
  then have "core ?n1 = core n" by (simp add: core_def)
  then have inv: "node_inv (?n1, fs)" using inv_core assms by blast
  let ?m = "?n1\<lparr>ssResult := map_option (\<lambda>r. r\<lparr>rsMetrics := ssMetrics ?n1\<rparr>) (ssResult ?n1)\<rparr>"
  have "node_inv (?m, fs)"
  proof (rule inv_frameI [OF inv])
    show "outcome_ok ?m" using node_invD(1) [OF inv] by (auto simp: outcome_ok_def)
    show "shares_ok ?m" by (rule shares_transfer [OF node_invD(4) [OF inv]]) auto
  qed simp_all
  then show ?thesis by (simp add: finishShareGeneration_def Let_def)
qed

text \<open>The plan: it is installed once, on an empty budget and with no combination running.\<close>

lemma unplanned_empty:
  assumes "node_inv (n, fs)" and "\<not> ssPlanned n"
  shows "fs = []" "ssCombineAttemptsLeft n = []" "mxShareSubsetAttempts (ssMetrics n) = 0" "ssResult n = None" "bpSubBatches (ssPlan n) = []"
proof -
  show "fs = []"
    using node_invD(5) [OF assms(1)] assms(2) by (cases fs) (auto simp: flights_ok_def flight_ok_def split: flight.splits)
  show l: "ssCombineAttemptsLeft n = []" using node_invD(3) [OF assms(1)] assms(2) by (simp add: budget_ok_def)
  show "mxShareSubsetAttempts (ssMetrics n) = 0" "bpSubBatches (ssPlan n) = []"
    using node_invD(3) [OF assms(1)] l by (simp_all add: budget_ok_def)
  show "ssResult n = None" using node_invD(1) [OF assms(1)] assms(2) by (cases "ssResult n") (auto simp: outcome_ok_def)
qed

lemma inv_planned:
  assumes inv: "node_inv (n, fs)"
  shows "node_inv (installPlan E clk plan agreed merged n, fs)" (is "node_inv (?n, fs)")
proof (cases "ssPlanned n \<or> ssFailure n \<noteq> None")
  case True
  then show ?thesis using inv by (auto simp: installPlan_def)
next
  case False
  note u = unplanned_empty [OF inv, simplified, OF conjunct1 [OF False [simplified]]]
  let ?n2 = "(pruneShareCandidatesLocked plan (n\<lparr>ssPlan := plan\<rparr>))\<lparr>
     ssCombineAttemptsLeft := replicate (length (bpSubBatches plan)) (attempt_limit n),
     ssMaterial := zeroMaterial\<lparr>mtSlot := ssId n, mtAgreedSetHash := asHash agreed, mtMergedSetHash := msHash merged,
       mtSelectedGas := msSelectedGas merged, mtEncryptedHashes := EncryptedHashes (msItems merged)\<rparr>, ssPlanned := True\<rparr>"
  have core: "core ?n = core ?n2" using False by (simp add: installPlan_def Let_def core_metrics)
  have lim: "0 < attempt_limit n" using node_invD(2) [OF inv] by (simp add: slot_ok_def)
  have "node_inv (?n2, fs)"
  proof (rule node_invI)
    show "outcome_ok ?n2" using node_invD(1) [OF inv] by (simp add: outcome_ok_def pruneShareCandidatesLocked_def)
    show "slot_ok ?n2" using node_invD(2) [OF inv] by (simp add: slot_ok_def pruneShareCandidatesLocked_def)
    show "budget_ok ?n2" using u lim by (simp add: budget_ok_def pruneShareCandidatesLocked_def sum_list_replicate)
    show "flights_ok ?n2 fs" using node_invD(5) [OF inv] u by (simp add: flights_ok_def pruneShareCandidatesLocked_def)
    have t: "share_target ?n2 = Some (bpBatchID plan, length (bpSubBatches plan))"
      using u by (simp add: share_target_def pruneShareCandidatesLocked_def)
    show "shares_ok ?n2"
      using node_invD(4) [OF inv] prune_ok prune_size [of "\<lambda>(k, _). 0 \<le> k \<and> k < int (length (bpSubBatches plan))"
          "\<lambda>(op, c). ocBatchSet c \<and> ocBatchID c = bpBatchID plan" "ssShareCandidates n"]
      unfolding shares_ok_def t by (auto simp: pruneShareCandidatesLocked_def)
  qed
  then show ?thesis by (rule inv_core [OF core])
qed

lemma inv_emptied:
  assumes inv: "node_inv (n, fs)"
  shows "node_inv (finishEmptyMaterializedSet E clk agreed merged n, fs)" (is "node_inv (?n, fs)")
proof (cases "ssResult n \<noteq> None \<or> ssFailure n \<noteq> None \<or> ssPlanned n")
  case True
  then show ?thesis using inv by (auto simp: finishEmptyMaterializedSet_def)
next
  case False
  note u = unplanned_empty [OF inv, simplified, OF conjunct2 [OF conjunct2 [OF False [simplified]]]]
  obtain m r where core: "core ?n = core (n\<lparr>ssPlanned := True, ssMaterial := m, ssResult := Some r, ssPhase := slotCompleted\<rparr>)"
    and r: "rsSlot r = ssId n" "rsNodeID r = ndSelf n"
    using False by (auto simp: finishEmptyMaterializedSet_def Let_def core_def recordDecision_def on_metrics_def on_times_def refreshMetricsLocked_def)
  have "node_inv (n\<lparr>ssPlanned := True, ssMaterial := m, ssResult := Some r, ssPhase := slotCompleted\<rparr>, fs)" (is "node_inv (?m, fs)")
  proof (rule node_invI)
    show "outcome_ok ?m" using False r by (simp add: outcome_ok_def)
    show "slot_ok ?m" using node_invD(2) [OF inv] by (simp add: slot_ok_def)
    show "budget_ok ?m" using u by (simp add: budget_ok_def)
    show "flights_ok ?m fs" using node_invD(5) [OF inv] u by (simp add: flights_ok_def)
    show "shares_ok ?m"
      using node_invD(4) [OF inv] False by (simp add: shares_ok_def share_target_def)
  qed
  then show ?thesis by (rule inv_core [OF core])
qed

text \<open>Claiming, and what a claim carries.\<close>

lemma claimCombine_Some:
  assumes "claimCombine n = (Some a, n')"
  shows "ssResult n = None" "ssFailure n = None" "ssPlanned n" "ssShareGenerationDone n" "\<not> ssCombineInFlight n"
    "a = \<lparr>caPlan = ssPlan n, caMaterial = ssMaterial n, caShares = retainedSharesLocked n, caShareVersion = ssShareVersion n,
       caAttemptLimits = ssCombineAttemptsLeft n\<rparr>"
    "hasThresholdPerSubBatch (retainedSharesLocked n) (ssPlan n) (cfThreshold (ndCfg n))"
    "core n' = core (n\<lparr>ssCombineInFlight := True\<rparr>)"
  using assms by (auto simp: claimCombine_def Let_def core_metrics split: if_splits)

lemma inv_claimed:
  assumes inv: "node_inv (n, fs)" and claim: "claimCombine n = (Some a, n')"
  shows "node_inv (n', Claimed a # fs)"
proof -
  note c = claimCombine_Some [OF claim]
  have fs: "fs = []" using node_invD(5) [OF inv] c(5) by (simp add: flights_ok_def)
  have "node_inv (n\<lparr>ssCombineInFlight := True\<rparr>, Claimed a # fs)" (is "node_inv (?m, _)")
  proof (rule node_invI)
    show "flights_ok ?m (Claimed a # fs)" using fs c by (simp add: flights_ok_def flight_ok_def)
    show "shares_ok ?m" by (rule shares_transfer [OF node_invD(4) [OF inv]]) simp_all
  qed (use node_invD [OF inv] in \<open>simp_all add: outcome_ok_def slot_ok_def budget_ok_def\<close>)
  then show ?thesis by (rule inv_core [OF c(8)])
qed

section \<open>The budget\<close>

lemma spend_fits:
  assumes "length stats = length left" and "\<And>i. i < length left \<Longrightarrow> int (stats ! i) \<le> left ! i"
  shows "sum_list (spend left stats) + int (sum_list stats) = sum_list left" "\<forall>x \<in> set (spend left stats). 0 \<le> x"
proof -
  have len: "length (spend left stats) = length left" by (simp add: spend_def)
  have nth: "spend left stats ! i = left ! i - int (stats ! i)" if "i < length left" for i
    using that assms by (simp add: spend_def)
  have "sum_list (spend left stats) + int (sum_list stats) =
      (\<Sum>i < length left. left ! i - int (stats ! i)) + (\<Sum>i < length left. int (stats ! i))"
    using nth assms(1) len by (simp add: sum_list_sum_nth atLeast0LessThan)
  then show "sum_list (spend left stats) + int (sum_list stats) = sum_list left"
    by (simp add: sum.distrib [symmetric] sum_list_sum_nth atLeast0LessThan)
  show "\<forall>x \<in> set (spend left stats). 0 \<le> x" using nth len assms(2) by (auto simp: in_set_conv_nth)
qed

lemma run_fits:
  assumes run: "runCombine n a = Some (r, stats)" and "length (caAttemptLimits a) = length (bpSubBatches (caPlan a))"
    and "\<forall>x \<in> set (caAttemptLimits a). 0 \<le> x"
  shows "length stats = length (caAttemptLimits a)"
    "\<And>i. i < length (caAttemptLimits a) \<Longrightarrow> int (stats ! i) \<le> caAttemptLimits a ! i"
proof -
  note b = combine_bounded [OF run [unfolded runCombine_def]]
  show len: "length stats = length (caAttemptLimits a)" using b(2) assms(2) by simp
  fix i
  assume i: "i < length (caAttemptLimits a)"
  then have "caAttemptLimits a \<noteq> []" "0 \<le> caAttemptLimits a ! i" using assms(3) by auto
  then show "int (stats ! i) \<le> caAttemptLimits a ! i" using b(1) i len by (auto simp: within_def limitOf_def)
qed

lemma single_flight: "flights_ok n (xs @ f # ys) \<Longrightarrow> xs = [] \<and> ys = [] \<and> flight_ok n f"
  by (auto simp: flights_ok_def)

lemma inv_recorded:
  assumes inv: "node_inv (n, xs @ Claimed a # ys)" and run: "runCombine n a = Some (r, stats)"
  shows "node_inv (recordCombineStats stats n, xs @ Combined a r # ys)"
proof -
  note fl = single_flight [OF node_invD(5) [OF inv]]
  have a: "ssPlanned n" "caPlan a = ssPlan n" "caMaterial a = ssMaterial n" "caAttemptLimits a = ssCombineAttemptsLeft n"
    using fl by (auto simp: flight_ok_def)
  note bud = node_invD(3) [OF inv, unfolded budget_ok_def]
  have fits: "length stats = length (ssCombineAttemptsLeft n)"
    "\<And>i. i < length (ssCombineAttemptsLeft n) \<Longrightarrow> int (stats ! i) \<le> ssCombineAttemptsLeft n ! i"
    using run_fits [OF run] a bud by auto
  note sp = spend_fits [OF fits]
  let ?n = "recordCombineStats stats n"
  have len: "length (spend (ssCombineAttemptsLeft n) stats) = length (ssCombineAttemptsLeft n)" by (simp add: spend_def)
  show ?thesis
  proof (rule node_invI)
    show "outcome_ok ?n" using node_invD(1) [OF inv] by (simp add: outcome_ok_def recordCombineStats_def on_metrics_def)
    show "slot_ok ?n" using node_invD(2) [OF inv] by (simp add: slot_ok_def recordCombineStats_def on_metrics_def)
    have "mxShareSubsetAttempts (ssMetrics n) + int (sum_list stats) + sum_list (spend (ssCombineAttemptsLeft n) stats) =
        int (length (ssCombineAttemptsLeft n)) * attempt_limit n" using bud sp(1) by linarith
    then show "budget_ok ?n" using bud sp(2) len a(1) by (simp add: budget_ok_def recordCombineStats_def on_metrics_def)
    show "shares_ok ?n" by (rule shares_transfer [OF node_invD(4) [OF inv]]) (simp_all add: recordCombineStats_def on_metrics_def)
    show "flights_ok ?n (xs @ Combined a r # ys)"
      using node_invD(5) [OF inv] fl a by (simp add: flights_ok_def flight_ok_def recordCombineStats_def on_metrics_def)
  qed
qed

lemma inv_landed:
  assumes inv: "node_inv (n, xs @ f # ys)"
  shows "node_inv (n\<lparr>ssCombineInFlight := False\<rparr>, xs @ ys)" (is "node_inv (?n, _)")
proof (rule node_invI)
  show "flights_ok ?n (xs @ ys)" using single_flight [OF node_invD(5) [OF inv]] by (simp add: flights_ok_def)
  show "shares_ok ?n" by (rule shares_transfer [OF node_invD(4) [OF inv]]) simp_all
qed (use node_invD [OF inv] in \<open>simp_all add: outcome_ok_def slot_ok_def budget_ok_def\<close>)

lemma completeCombine_core:
  obtains (kept) "ssResult n \<noteq> None \<or> ssFailure n \<noteq> None" "core (completeCombine E clk a results n) = core (n\<lparr>ssCombineInFlight := False\<rparr>)"
  | (set) r where "ssResult n = None" "ssFailure n = None"
      "core (completeCombine E clk a results n) = core (n\<lparr>ssCombineInFlight := False, ssResult := Some r, ssPhase := slotCompleted\<rparr>)"
      "rsSlot r = ssId n" "rsNodeID r = ndSelf n" "rsBatchID r = hexEncode (bpBatchID (caPlan a))" "rsCiphertexts r = length results"
      "rsPlaintexts r = map (fst \<circ> plaintextEntry E) results" "mtEncryptedHashes (rsMaterialized r) = mtEncryptedHashes (caMaterial a)"
proof (cases "ssResult n = None \<and> ssFailure n = None")
  case True
  then show ?thesis
    by (intro set [OF conjunct1 conjunct2]) (auto simp: completeCombine_def Let_def core_def on_metrics_def on_times_def refreshMetricsLocked_def)
qed (auto simp: completeCombine_def Let_def intro: kept)

lemma inv_completed:
  assumes inv: "node_inv (n, xs @ Combined a (Inr results) # ys)"
  shows "node_inv (completeCombine E clk a results n, xs @ ys)"
proof (cases rule: completeCombine_core [of n E clk a results])
  case kept
  then show ?thesis using inv_core [OF kept(2) inv_landed [OF inv]] by simp
next
  case (set r)
  have pl: "ssPlanned n" using single_flight [OF node_invD(5) [OF inv]] by (simp add: flight_ok_def)
  have "node_inv (n\<lparr>ssCombineInFlight := False, ssResult := Some r, ssPhase := slotCompleted\<rparr>, xs @ ys)" (is "node_inv (?m, _)")
  proof (rule inv_frameI [OF inv_landed [OF inv]])
    show "outcome_ok ?m" using set pl by (simp add: outcome_ok_def)
    show "shares_ok ?m" by (rule shares_transfer [OF node_invD(4) [OF inv]]) simp_all
  qed simp_all
  then show ?thesis by (rule inv_core [OF set(3)])
qed

text \<open>A fresh slot.\<close>

lemma newSlot_fields:
  assumes "newSlotStateWithLimit E cfg selfID nodeIDs slotID limit = Some st"
  shows "ssId st = slotID" "ssPhase st = slotPrepared" "ssPlan st = zeroPlan" "\<not> ssPlanned st" "ssResult st = None" "ssFailure st = None"
    "\<not> ssCombineInFlight st" "ssCombineAttemptsLeft st = []" "mxShareSubsetAttempts (ssMetrics st) = 0" "ssShareCandidates st = []"
  using assms by (auto simp: newSlotStateWithLimit_def newMetrics_def)

lemma inv_fresh:
  assumes "newSlotStateWithLimit E cfg selfID nodeIDs slotID limit = Some st"
    and "ndCfg n = cfg" "ndLastSlot n = slotID" "cfSlot cfg = slotID" "0 < MaxCombineAttemptsPerSubBatch (cfLimits cfg)"
    and n: "slotState.truncate n = st"
  shows "node_inv (n, [])"
proof -
  have f: "ssId n = slotID" "ssPhase n = slotPrepared" "ssPlan n = zeroPlan" "\<not> ssPlanned n" "ssResult n = None" "ssFailure n = None"
    "\<not> ssCombineInFlight n" "ssCombineAttemptsLeft n = []" "mxShareSubsetAttempts (ssMetrics n) = 0" "ssShareCandidates n = []"
    using newSlot_fields [OF assms(1)] n by (auto simp: slotState.truncate_def)
  show ?thesis
  proof (rule node_invI)
    show "shares_ok n" using f by (simp add: shares_ok_def table_size_def)
  qed (use f assms(2-5) in \<open>simp_all add: outcome_ok_def slot_ok_def budget_ok_def flights_ok_def zeroPlan_def\<close>)
qed

lemma prepareSlot_cases:
  assumes "prepareSlotWithLimit E slot limit n = Some (r, n')"
  obtains (refused) e where "r = Inl e" "n' = n"
  | (limited) "r = Inr ()" "n' = n\<lparr>ssProposalLimit := limit\<rparr>"
  | (fresh) "r = Inr ()" "ndLastSlot n < slot" "ssPhase n = slotCompleted \<or> ssPhase n = slotFailed" "installSlot E slot limit n = Some n'"
  using assms by (auto simp: prepareSlotWithLimit_def not_le split: if_splits)

lemma extended_fields:
  "ndCfg (slotState.extend st (slotState.more n)) = ndCfg n" "ndLastSlot (slotState.extend st (slotState.more n)) = ndLastSlot n"
  "ndSelf (slotState.extend st (slotState.more n)) = ndSelf n" "slotState.truncate (slotState.extend st (slotState.more n)) = st"
  by (cases n; simp add: slotState.extend_def slotState.truncate_def)+

lemma inv_prepared:
  assumes inv: "node_inv (n, [])" and "prepareSlotWithLimit E slot limit n = Some (r, n')"
  shows "node_inv (n', [])"
  using assms(2)
proof (cases rule: prepareSlot_cases)
  case limited
  have "core (n\<lparr>ssProposalLimit := limit\<rparr>) = core n" by (simp add: core_def)
  then show ?thesis using inv_core inv limited by blast
next
  case fresh
  then obtain st where st: "newSlotStateWithLimit E ((ndCfg n)\<lparr>cfSlot := slot\<rparr>) (ndSelf n) (ndNodeIDs n) slot limit = Some st"
    "n' = slotState.extend st (slotState.more (n\<lparr>ndCfg := (ndCfg n)\<lparr>cfSlot := slot\<rparr>, ndLastSlot := slot\<rparr>))"
    by (auto simp: installSlot_def Let_def)
  have "0 < attempt_limit n" using node_invD(2) [OF inv] by (simp add: slot_ok_def)
  then show ?thesis unfolding st(2) by (intro inv_fresh [OF st(1)]) (simp_all add: extended_fields)
qed (use inv in simp)

lemma node_step_inv: "node_step E ps x y \<Longrightarrow> node_inv x \<Longrightarrow> node_inv y"
proof (induction rule: node_step.induct)
  case (share_received n fs now w)
  then show ?case by (intro inv_shares [OF _ addWireShare_same addWireShare_ok]) (simp_all add: node_invD)
next
  case (share_made n fs now d)
  then show ?case by (intro inv_shares [OF _ addShare_same addShare_ok]) (simp_all add: node_invD)
next
  case (gave_up n xs a e ys)
  then show ?case using inv_landed by (simp add: finishFailedCombine_def)
next
  case (completed n xs a results ys clk)
  then show ?case by (rule inv_completed)
qed (auto intro: inv_core inv_begun inv_planned inv_emptied inv_generated inv_failed inv_claimed inv_recorded inv_prepared)

section \<open>Reachable states\<close>

lemma boot_inv:
  assumes "newNode E B hy S cfg secrets ident faults = Some (Inr n)"
  shows "node_inv (n, [])"
proof -
  obtain p st where b: "bootParts (neMergeEnv E) B hy S cfg secrets ident = Inr p"
    "newSlotStateWithLimit E (bpConfig p) ident (bpIDs p) (cfSlot (bpConfig p)) 0 = Some st"
    "ndCfg n = bpConfig p" "ndLastSlot n = cfSlot (bpConfig p)" "slotState.truncate n = st"
    by (rule newNode_Inr [OF assms])
  have "0 < MaxCombineAttemptsPerSubBatch (cfLimits (bpConfig p))"
    using bootParts_Inr(2) [OF b(1)] by (auto simp: checkConfig_def validateResourceLimits_def)
  then show ?thesis using inv_fresh [OF b(2,3,4) refl _ b(5)] by simp
qed

lemma boot_open:
  assumes "newNode E B hy S cfg secrets ident faults = Some (Inr n)"
  shows "ssResult n = None" "ssFailure n = None" "ssId n = cfSlot (normalizeConfig cfg)"
proof -
  obtain p st where b: "bootParts (neMergeEnv E) B hy S cfg secrets ident = Inr p"
    "newSlotStateWithLimit E (bpConfig p) ident (bpIDs p) (cfSlot (bpConfig p)) 0 = Some st" "slotState.truncate n = st"
    by (rule newNode_Inr [OF assms])
  show "ssResult n = None" "ssFailure n = None" "ssId n = cfSlot (normalizeConfig cfg)"
    using newSlot_fields [OF b(2)] b(3) bootParts_Inr(1) [OF b(1)] by (auto simp: slotState.truncate_def)
qed

text \<open>What no step changes: the operators, the cluster and the configuration up to its slot.\<close>

definition static where
  "static n = (ndNodeIDs n, ndPeers n, ndCluster n, ndSelf n, (ndCfg n)\<lparr>cfSlot := 0\<rparr>)"

lemma static_fields:
  assumes "static n' = static n"
  shows "ndCluster n' = ndCluster n" "ndNodeIDs n' = ndNodeIDs n" "cfN (ndCfg n') = cfN (ndCfg n)"
    "cfThreshold (ndCfg n') = cfThreshold (ndCfg n)" "cfLimits (ndCfg n') = cfLimits (ndCfg n)"
proof -
  show "ndCluster n' = ndCluster n" "ndNodeIDs n' = ndNodeIDs n" using assms by (simp_all add: static_def)
  have c: "(ndCfg n')\<lparr>cfSlot := 0\<rparr> = (ndCfg n)\<lparr>cfSlot := 0\<rparr>" using assms by (simp add: static_def)
  show "cfN (ndCfg n') = cfN (ndCfg n)" "cfThreshold (ndCfg n') = cfThreshold (ndCfg n)" "cfLimits (ndCfg n') = cfLimits (ndCfg n)"
    using arg_cong [OF c, of cfN] arg_cong [OF c, of cfThreshold] arg_cong [OF c, of cfLimits] by simp_all
qed

lemma static_same: "same_but_shares n n' \<Longrightarrow> static n' = static n"
  using same_fields(9-13) [of n n'] by (simp add: static_def)

lemma static_submit: "static (snd (handleSubmitTx E slotParam json body r n)) = static n"
  unfolding handleSubmitTx_def by (intro snd_branches [where h = static]) (simp_all add: static_def on_metrics_def)

lemma static_acs: "static (snd (stepACS step n)) = static n"
  by (auto simp: stepACS_def static_def split: prod.splits status.splits sum.splits option.splits)

lemmas static_defs = static_def on_metrics_def on_times_def refreshMetricsLocked_def recordDecision_def recordProposal_def recordInbound_def
  recordOutbound_def sendEnvelopeTracked_def captureACSTrace_def installPlan_def pruneShareCandidatesLocked_def finishEmptyMaterializedSet_def
  finishShareGeneration_def markSlotFailed_def recordCombineStats_def finishFailedCombine_def completeCombine_def

lemma static_claim: "claimCombine n = (Some a, n') \<Longrightarrow> static n' = static n"
  by (auto simp: claimCombine_def static_defs Let_def split: if_splits)

lemma static_prepared:
  assumes "prepareSlotWithLimit E slot limit n = Some (r, n')"
  shows "static n' = static n"
  using assms
proof (cases rule: prepareSlot_cases)
  case fresh
  then obtain st where "n' = slotState.extend st (slotState.more (n\<lparr>ndCfg := (ndCfg n)\<lparr>cfSlot := slot\<rparr>, ndLastSlot := slot\<rparr>))"
    by (auto simp: installSlot_def Let_def)
  then show ?thesis by (cases n) (simp add: static_def slotState.extend_def)
qed (simp_all add: static_def)

lemma static_step: "node_step E ps x y \<Longrightarrow> static (fst y) = static (fst x)"
proof (induction rule: node_step.induct)
  case (share_received n fs now w)
  show ?case using static_same [OF addWireShare_same] by simp
next
  case (share_made n fs now d)
  show ?case using static_same [OF addShare_same] by simp
qed (simp_all add: static_submit static_acs static_claim static_prepared, simp_all add: static_defs Let_def)

lemma static_steps: "node_steps E ps x y \<Longrightarrow> static (fst y) = static (fst x)"
  by (induction rule: rtranclp_induct) (auto dest: static_step)

lemma reachable_inv:
  assumes "newNode E B hy S cfg secrets ident faults = Some (Inr n0)" and "node_steps E ps (n0, []) x"
  shows "node_inv x"
  using assms(2) by (induction rule: rtranclp_induct) (auto intro: boot_inv [OF assms(1)] node_step_inv)

section \<open>Slots as an abstract machine\<close>

text \<open>
  What a client sees of a node: the number of the active slot and its outcome. The metrics
  attached to a published result may still be refreshed and are not part of it.
\<close>

datatype outcome = Pending | Published nat string "string list" MaterializedTransactionSet | Abandoned SlotFailure

fun outcome_from :: "SlotFailure option \<Rightarrow> Result option \<Rightarrow> outcome" where
  "outcome_from (Some f) r = Abandoned f"
| "outcome_from None None = Pending"
| "outcome_from None (Some r) = Published (rsSlot r) (rsBatchID r) (rsPlaintexts r) (rsMaterialized r)"

definition outcome_of :: "('s, 'a, 'b, 'c) Node \<Rightarrow> outcome" where
  "outcome_of n = outcome_from (ssFailure n) (ssResult n)"

lemma outcome_refreshed: "outcome_from f (map_option (\<lambda>r. r\<lparr>rsMetrics := m\<rparr>) r) = outcome_from f r"
  by (cases f; cases r) simp_all

lemma outcome_Pending: "outcome_from f r = Pending \<longleftrightarrow> f = None \<and> r = None"
  by (cases f; cases r) simp_all

abbreviation visible_slot :: "('s, 'a, 'b, 'c) Node \<Rightarrow> nat \<times> outcome" where
  "visible_slot n \<equiv> (ssId n, outcome_of n)"

inductive slot_machine :: "nat \<times> outcome \<Rightarrow> nat \<times> outcome \<Rightarrow> bool" where
  idle: "slot_machine s s"
| publish: "slot_machine (k, Pending) (k, Published k b ps m)"
| abandon: "sfSlot f = k \<Longrightarrow> slot_machine (k, Pending) (k, Abandoned f)"
| next_slot: "o' \<noteq> Pending \<Longrightarrow> k < k' \<Longrightarrow> slot_machine (k, o') (k', Pending)"

inductive_simps slot_machine_iff: "slot_machine (k, o1) (k', o2)"

lemma visible_core: "core n' = core n \<Longrightarrow> visible_slot n' = visible_slot n"
  by (simp add: core_def outcome_of_def)

lemma visible_same: "same_but_shares n n' \<Longrightarrow> visible_slot n' = visible_slot n"
  using same_fields(1,5,6) [of n n'] by (simp add: outcome_of_def)

lemma quiet_machine: "visible_slot n' = visible_slot n \<Longrightarrow> slot_machine (visible_slot n) (visible_slot n')"
  by (simp only: slot_machine.idle)

lemma failed_machine: "slot_machine (visible_slot n) (visible_slot (markSlotFailed E now reason n))"
  by (cases "ssResult n \<noteq> None \<or> ssFailure n \<noteq> None") (auto simp: slot_machine_iff outcome_of_def markSlotFailed_def)

lemma generated_machine: "visible_slot (finishShareGeneration E now n) = visible_slot n"
  by (simp add: finishShareGeneration_def Let_def outcome_of_def refreshMetricsLocked_def on_metrics_def on_times_def outcome_refreshed)

lemma planned_machine: "visible_slot (installPlan E clk plan agreed merged n) = visible_slot n"
  by (simp add: installPlan_def Let_def outcome_of_def refreshMetricsLocked_def on_metrics_def on_times_def recordDecision_def
    pruneShareCandidatesLocked_def)

lemma emptied_machine: "slot_machine (visible_slot n) (visible_slot (finishEmptyMaterializedSet E clk agreed merged n))"
  by (cases "ssResult n \<noteq> None \<or> ssFailure n \<noteq> None \<or> ssPlanned n")
    (auto simp: slot_machine_iff finishEmptyMaterializedSet_def Let_def outcome_of_def refreshMetricsLocked_def on_metrics_def on_times_def
      recordDecision_def)

lemma recorded_machine: "visible_slot (recordCombineStats stats n) = visible_slot n"
  by (simp add: recordCombineStats_def on_metrics_def outcome_of_def)

lemma completed_machine: "slot_machine (visible_slot n) (visible_slot (completeCombine E clk a results n))"
proof (cases rule: completeCombine_core [of n E clk a results])
  case kept
  then have "visible_slot (completeCombine E clk a results n) = visible_slot (n\<lparr>ssCombineInFlight := False\<rparr>)" by (intro visible_core)
  then show ?thesis by (intro quiet_machine) (simp add: outcome_of_def)
next
  case (set r)
  from visible_core [OF set(3)] show ?thesis using set by (simp add: outcome_of_def slot_machine_iff)
qed

lemma prepared_machine:
  assumes inv: "node_inv (n, [])" and "prepareSlotWithLimit E slot limit n = Some (r, n')"
  shows "slot_machine (visible_slot n) (visible_slot n')"
  using assms(2)
proof (cases rule: prepareSlot_cases)
  case limited
  then show ?thesis by (intro quiet_machine) (simp add: outcome_of_def)
next
  case fresh
  then obtain st where st: "newSlotStateWithLimit E ((ndCfg n)\<lparr>cfSlot := slot\<rparr>) (ndSelf n) (ndNodeIDs n) slot limit = Some st"
    "n' = slotState.extend st (slotState.more (n\<lparr>ndCfg := (ndCfg n)\<lparr>cfSlot := slot\<rparr>, ndLastSlot := slot\<rparr>))"
    by (auto simp: installSlot_def Let_def)
  have "visible_slot n' = (slot, Pending)" using newSlot_fields [OF st(1)] by (simp add: st(2) slotState.extend_def outcome_of_def)
  moreover have "ssId n < slot" using fresh(2) node_invD(2) [OF inv] by (simp add: slot_ok_def)
  moreover have "outcome_of n \<noteq> Pending" using fresh(3) node_invD(1) [OF inv] by (auto simp: outcome_ok_def outcome_of_def outcome_Pending)
  ultimately show ?thesis by (simp add: slot_machine_iff)
qed (intro quiet_machine, simp)

lemma step_machine:
  assumes "node_step E ps x y" and "node_inv x"
  shows "slot_machine (visible_slot (fst x)) (visible_slot (fst y))"
  using assms
proof (induction rule: node_step.induct)
  case (claimed n a n' fs)
  have "visible_slot n' = visible_slot (n\<lparr>ssCombineInFlight := True\<rparr>)" by (rule visible_core [OF claimCombine_Some(8) [OF claimed(1)]])
  then show ?case by (simp add: outcome_of_def slot_machine.idle)
next
  case (gave_up n xs a e ys)
  show ?case by (simp add: finishFailedCombine_def outcome_of_def slot_machine.idle)
next
  case (begun n fs)
  show ?case by (simp add: outcome_of_def slot_machine.idle)
qed (simp_all only: fst_conv quiet_machine [OF visible_core] quiet_machine [OF visible_same [OF addWireShare_same]]
  quiet_machine [OF visible_same [OF addShare_same]] core_frames failed_machine quiet_machine [OF generated_machine]
  quiet_machine [OF planned_machine] emptied_machine quiet_machine [OF recorded_machine] completed_machine prepared_machine)

section \<open>Properties\<close>

text \<open>
  C4. Safety of a slot under concurrency: in every state a booted node can reach, whatever the
  interleaving of its handlers, the phase agrees with the recorded outcome, a slot never has both
  a result and a failure, outcomes carry the number of the active slot, at most one combination
  runs, and it works on the installed plan; every retained share belongs to a configured
  operator, and there are never more than \<open>N * BMax\<close> of them.
\<close>

theorem node_slot_safe:
  assumes "newNode E B hy S cfg secrets ident faults = Some (Inr n0)" and "node_steps E ps (n0, []) (n, fs)"
  shows "(ssPhase n = slotCompleted \<longleftrightarrow> ssResult n \<noteq> None) \<and> (ssPhase n = slotFailed \<longleftrightarrow> ssFailure n \<noteq> None) \<and>
    \<not> (ssResult n \<noteq> None \<and> ssFailure n \<noteq> None) \<and>
    (\<forall>r. ssResult n = Some r \<longrightarrow> rsSlot r = ssId n \<and> rsNodeID r = ndSelf n \<and> ssPlanned n) \<and> (\<forall>f. ssFailure n = Some f \<longrightarrow> sfSlot f = ssId n) \<and>
    ssId n = ndLastSlot n \<and> (ssCombineInFlight n \<longleftrightarrow> fs \<noteq> []) \<and> length fs \<le> 1 \<and>
    (\<forall>a. Claimed a \<in> set fs \<longrightarrow> ssPlanned n \<and> caPlan a = ssPlan n \<and> caAttemptLimits a = ssCombineAttemptsLeft n) \<and>
    (\<forall>(op, c) \<in> set (ssShareCandidates n). uint64_of op \<in> set (ndPeers n) \<and> 0 \<le> op) \<and>
    int (retainedShareCountLocked n) \<le> max 0 (cfN (ndCfg n) * cfBMax (ndCfg n))"
proof -
  note inv = node_invD [OF reachable_inv [OF assms]]
  have "\<not> (ssResult n \<noteq> None \<and> ssFailure n \<noteq> None)" using inv(1) by (auto simp: outcome_ok_def)
  moreover have "\<forall>(op, c) \<in> set (ssShareCandidates n). uint64_of op \<in> set (ndPeers n) \<and> 0 \<le> op"
    using inv(4) by (auto simp: shares_ok_def table_ok_def)
  ultimately show ?thesis
    using inv(1,2,4,5) by (auto simp: outcome_ok_def slot_ok_def flights_ok_def flight_ok_def shares_ok_def retained_size)
qed

theorem node_slot_safe_witness:
  "\<exists>n. ssPhase n = slotFailed \<and> ssResult n = None \<and>
    (\<exists>n0. newNode demo_node_env demo_boot_env demo_hybrid demo_boot_suite demo_boot_config demo_secrets 1 no_faults = Some (Inr n0) \<and>
      node_steps demo_node_env 1 (n0, []) (n, []))"
proof -
  obtain n0 where n0: "newNode demo_node_env demo_boot_env demo_hybrid demo_boot_suite demo_boot_config demo_secrets 1 no_faults = Some (Inr n0)"
    using demo_boots ..
  have s: "node_steps demo_node_env 1 (n0, []) (markSlotFailed demo_node_env 0 ''acs'' n0, [])" by (rule one_step [OF failed])
  have "ssFailure (markSlotFailed demo_node_env 0 ''acs'' n0) \<noteq> None" using boot_open [OF n0] by (simp add: markSlotFailed_def)
  then have "ssPhase (markSlotFailed demo_node_env 0 ''acs'' n0) = slotFailed" "ssResult (markSlotFailed demo_node_env 0 ''acs'' n0) = None"
    using node_slot_safe [OF n0 s] by auto
  then show ?thesis using s n0 by auto
qed

text \<open>
  C5. The life cycle of slots: what a client sees of a node, the active slot and its outcome,
  evolves as the abstract machine that publishes or abandons a pending slot exactly once and
  then only moves on to a larger slot. Every critical section of a reachable node is a step of
  that machine.
\<close>

theorem node_refines_slots:
  assumes "newNode E B hy S cfg secrets ident faults = Some (Inr n0)" and "node_steps E ps (n0, []) x" and "node_step E ps x y"
  shows "visible_slot n0 = (cfSlot (normalizeConfig cfg), Pending) \<and> slot_machine (visible_slot (fst x)) (visible_slot (fst y))"
  using step_machine [OF assms(3) reachable_inv [OF assms(1,2)]] boot_open [OF assms(1)] by (simp add: outcome_of_def)

theorem node_refines_slots_witness:
  "\<exists>n0. newNode demo_node_env demo_boot_env demo_hybrid demo_boot_suite demo_boot_config demo_secrets 1 no_faults = Some (Inr n0) \<and>
    slot_machine (visible_slot n0) (visible_slot (markSlotFailed demo_node_env 0 ''acs'' n0))"
proof -
  obtain n0 where n0: "newNode demo_node_env demo_boot_env demo_hybrid demo_boot_suite demo_boot_config demo_secrets 1 no_faults = Some (Inr n0)"
    using demo_boots ..
  have s: "node_step demo_node_env 1 (n0, []) (markSlotFailed demo_node_env 0 ''acs'' n0, [])" by (rule failed)
  show ?thesis using node_refines_slots [OF n0 rtranclp.rtrancl_refl s] n0 by auto
qed





end
