(* ===== verification/Cluster_Roundtrip.thy ===== *)
theory Cluster_Roundtrip
  imports Cluster_Combine
begin

text \<open>
  A batch through the whole cluster API: transactions encrypted by anyone, planned, decrypted
  by any threshold of operators and combined.
\<close>

definition aead_laws :: "hybrid \<Rightarrow> bool" where
  "aead_laws hy \<longleftrightarrow>
     (\<forall>key nonce p aad. hyOpen hy key nonce (hySeal hy key nonce p aad) aad = Some p \<and>
        length (hySeal hy key nonce p aad) = length p + aeadTagSize)"

record 's tx_input =
  tiRaw :: bytes
  tiIndex :: int
  tiRandom :: "'s tx_randomness"

definition encryptInput :: "('s::field, 'a::ab_group_add, 'b, 'c::ab_group_add) ClusterBTE \<Rightarrow> 's tx_input \<Rightarrow>
    cl_error + ('s, 'a, 'c) Ciphertext" where
  "encryptInput c i = EncryptTx c (tiRaw i) (tiIndex i) (tiRandom i)"

text \<open>The cluster after key generation: every instance built by \<^verbatim>\<open>NewClusterBTE\<close> from the generated key.\<close>

definition dealtCluster :: "hybrid \<Rightarrow> ('s, 'a, 'b, 'c) BTD \<Rightarrow> nat \<Rightarrow> 's list \<Rightarrow> ('s, 'a, 'b, 'c) ClusterBTE" where
  "dealtCluster hy b0 n coeffs =
     (let b = KeyGen n (length coeffs) coeffs b0 in NewClusterBTE hy b (egPK (btdEG b)) (egShares (btdEG b)))"

lemma dealt_fields:
  "clBtd (dealtCluster hy b0 n coeffs) = KeyGen n (length coeffs) coeffs b0"
  "clPK (dealtCluster hy b0 n coeffs) = egPK (btdEG (KeyGen n (length coeffs) coeffs b0))"
  "clHybrid (dealtCluster hy b0 n coeffs) = hy" "clBMax (dealtCluster hy b0 n coeffs) = btdB b0"
  "clN (dealtCluster hy b0 n coeffs) = btdB b0"
  by (simp_all add: dealtCluster_def NewClusterBTE_def withPK_def KeyGen_def Let_def)

lemma keygen_fields [simp]:
  "btdSuite (KeyGen n t coeffs b0) = btdSuite b0" "btdPRF (KeyGen n t coeffs b0) = btdPRF b0"
  "btdB (KeyGen n t coeffs b0) = btdB b0" "btdT (KeyGen n t coeffs b0) = t" "btdN (KeyGen n t coeffs b0) = n"
  by (simp_all add: KeyGen_def)

section \<open>Hybrid ciphertexts\<close>

definition capsuleInput :: "('s, 'a, 'b, 'c) suite \<Rightarrow> 's tx_input \<Rightarrow> ('s, 'c) enc_input" where
  "capsuleInput S i = \<lparr>inI = tiIndex i, inM = PickGT S (trSecret (tiRandom i)), inK = trK (tiRandom i),
     inU = trU (tiRandom i), inUN = trUN (tiRandom i), inKN = trKN (tiRandom i)\<rparr>"

lemma encrypt_capsule:
  assumes "encryptInput c i = Inr ct"
  shows "encOf (clBtd c) (clPK c) (capsuleInput (btdSuite (clBtd c)) i) = Inr (cxCapsule ct)"
  using assms by (auto simp: encryptInput_def EncryptTx_def Let_def encOf_def capsuleInput_def split: sum.splits)

lemma encrypt_decrypt:
  assumes "encryptInput c i = Inr ct" and "aead_laws (clHybrid c)" and "length (trNonce (tiRandom i)) = aeadNonceSize"
  shows "decryptTx (btdSuite (clBtd c)) (clHybrid c) (PickGT (btdSuite (clBtd c)) (trSecret (tiRandom i))) ct = Inr (tiRaw i)"
    and "validateAEADPayloadShape (cxEncryptedTx ct) = Inr ()"
proof -
  let ?S = "btdSuite (clBtd c)" and ?hy = "clHybrid c" and ?sec = "PickGT (btdSuite (clBtd c)) (trSecret (tiRandom i))"
  obtain dg key where d: "digestCapsule ?S (cxCapsule ct) = Inr dg" "aeadFromGT ?S ?hy ?sec dg = Inr key"
    "cxEncryptedTx ct = trNonce (tiRandom i) @ hySeal ?hy key (trNonce (tiRandom i)) (tiRaw i) (hybridAAD dg)"
    using assms(1) by (auto simp: encryptInput_def EncryptTx_def Let_def split: sum.splits)
  show shape: "validateAEADPayloadShape (cxEncryptedTx ct) = Inr ()"
    using d(3) assms(2,3) by (simp add: validateAEADPayloadShape_def aead_laws_def)
  show "decryptTx ?S ?hy ?sec ct = Inr (tiRaw i)"
    using d shape assms(2,3) by (simp add: decryptTx_def aead_laws_def)
qed

section \<open>The shares of a plan\<close>

definition good_share :: "('s, 'a, 'b, 'c) ClusterBTE \<Rightarrow> ('s, 'a, 'c) BatchPlan \<Rightarrow> 'a DecryptionShare \<Rightarrow> int \<times> nat \<times> 'a \<Rightarrow> bool" where
  "good_share c plan d g \<longleftrightarrow>
     dsBatchID d = bpBatchID plan \<and> dsSubBatchID d = fst g \<and> 0 \<le> fst g \<and> fst g < int (length (bpSubBatches plan)) \<and>
     dsOperatorID d = int (fst (snd g)) \<and> fst (snd g) < btdN (clBtd c) \<and>
     dsShare d = Some (fst (snd g), Some (snd (snd g)))"

lemma group_good:
  assumes "list_all2 (good_share c plan) ds gs" and "distinct (map (\<lambda>(s, i, v). (s, i)) (groups @ gs))"
  shows "groupShares c plan ds groups = Inr (groups @ gs)"
  using assms
proof (induction ds gs arbitrary: groups rule: list_all2_induct)
  case (Cons d ds g gs)
  obtain s i v where g: "g = (s, i, v)" by (cases g)
  have fresh: "(s, i) \<notin> (\<lambda>(s, j, _). (s, j)) ` set groups" using Cons.prems g by (auto simp: image_iff)
  have "groupShares c plan (d # ds) groups = groupShares c plan ds (groups @ [(s, i, v)])"
    using Cons.hyps(1) g fresh by (simp add: good_share_def)
  then show ?case using Cons.IH [of "groups @ [g]"] Cons.prems g by simp
qed simp

lemma sharesOf_block:
  assumes "k < a"
  shows "map snd (filter (\<lambda>g. fst g = int k) (concat (map (\<lambda>j. map (\<lambda>s. (int j, f j s)) sel) [0..<a]))) = map (f k) sel"
proof -
  have "filter (\<lambda>g. fst g = int k) (concat (map (\<lambda>j. map (\<lambda>s. (int j, f j s)) sel) [0..<m])) =
      (if k < m then map (\<lambda>s. (int k, f k s)) sel else [])" for m
    by (induction m) (auto simp: filter_empty_conv less_Suc_eq filter_id_conv)
  then show ?thesis using assms by simp
qed

section \<open>Placing the results\<close>

lemma place_one: "length (placeResults out rs) = length rs"
proof -
  have "length (fold (\<lambda>p rs. rs[ppPosition p := Some (ppResult p)]) out rs) = length rs"
    by (induction out arbitrary: rs) auto
  then show ?thesis by (simp add: placeResults_def)
qed

lemma place_nth:
  assumes "distinct (map ppPosition out)"
  shows "j < length rs \<Longrightarrow> placeResults out rs ! j =
    (case find (\<lambda>p. ppPosition p = j) out of None \<Rightarrow> rs ! j | Some p \<Rightarrow> Some (ppResult p))"
  using assms
proof (induction out arbitrary: rs)
  case (Cons p out)
  have "placeResults (p # out) rs = placeResults out (rs[ppPosition p := Some (ppResult p)])" by (simp add: placeResults_def)
  moreover have "find (\<lambda>q. ppPosition q = j) out = None" if "ppPosition p = j"
    using Cons.prems that by (auto simp: find_None_iff image_iff)
  ultimately show ?case using Cons by (auto simp: nth_list_update split: option.splits)
qed (simp add: placeResults_def)

section \<open>Sub-batches of an encrypted batch\<close>

definition deployed :: "hybrid \<Rightarrow> ('s::field, 'a::ab_group_add, 'b::ab_group_add, 'c::ab_group_add) BTD \<Rightarrow> 's list \<Rightarrow> 's list \<Rightarrow> bool" where
  "deployed hy b0 xi zi \<longleftrightarrow> pairing_laws (btdSuite b0) \<and> sharing_laws (btdSuite b0) \<and> crs_for (btdSuite b0) xi zi (btdPRF b0) \<and>
     prfB (btdPRF b0) = btdB b0 \<and> aead_laws hy"

definition encrypted :: "('s::field, 'a::ab_group_add, 'b, 'c::ab_group_add) ClusterBTE \<Rightarrow> 's tx_input list \<Rightarrow>
    ('s, 'a, 'c) Ciphertext list \<Rightarrow> bool" where
  "encrypted c ins cts \<longleftrightarrow> each (encryptInput c) ins = Inr cts \<and> (\<forall>i \<in> set ins. length (trNonce (tiRandom i)) = aeadNonceSize)"

lemma encrypted_nth:
  assumes "encrypted c ins cts" and "j < length cts"
  shows "length ins = length cts" "encryptInput c (ins ! j) = Inr (cts ! j)" "length (trNonce (tiRandom (ins ! j))) = aeadNonceSize"
  using assms by (auto simp: encrypted_def each_Inr_iff list_all2_conv_all_nth)

lemma item_of_batch: "it \<in> set (itemsOf cts) \<Longrightarrow> biOriginalPosition it < length cts \<and> biCiphertext it = cts ! biOriginalPosition it"
  by (auto simp: itemsOf_def in_set_enumerate_eq)

abbreviation batchInputs :: "('s, 'a, 'b, 'c) ClusterBTE \<Rightarrow> 's tx_input list \<Rightarrow> ('s, 'a, 'c) BatchItem list \<Rightarrow> ('s, 'c) enc_input list" where
  "batchInputs c ins sb \<equiv> map (\<lambda>it. capsuleInput (btdSuite (clBtd c)) (ins ! biOriginalPosition it)) sb"

lemma sub_batch_honest:
  assumes "deployed hy b0 xi zi" and c: "c = dealtCluster hy b0 n coeffs" and "encrypted c ins cts"
    and sb: "set sb \<subseteq> set (itemsOf cts)" "distinct (map itemIndex sb)"
  shows "honest_batch (clBtd c) (batchInputs c ins sb) (capsulesFromItems sb)"
proof -
  have pk: "clPK c = egPK (btdEG (clBtd c))" by (simp add: c dealt_fields)
  have enc: "encOf (clBtd c) (egPK (btdEG (clBtd c))) (capsuleInput (btdSuite (clBtd c)) (ins ! biOriginalPosition it)) =
      Inr (cxCapsule (biCiphertext it))" if "it \<in> set sb" for it
    using that sb(1) item_of_batch [of it cts] encrypted_nth(2) [OF assms(3)] encrypt_capsule [of c] pk by (auto simp: subset_iff)
  have laws: "crs_for (btdSuite (clBtd c)) xi zi (btdPRF (clBtd c))" "pairing_laws (btdSuite (clBtd c))"
    using assms(1) by (simp_all add: c dealt_fields deployed_def)
  have "map inI (batchInputs c ins sb) = map itemIndex sb"
    using enc_parts(3) [OF enc laws] by simp
  moreover have "each (encOf (clBtd c) (egPK (btdEG (clBtd c)))) (batchInputs c ins sb) = Inr (capsulesFromItems sb)"
    using enc by (auto simp: each_Inr_iff capsulesFromItems_def list_all2_conv_all_nth)
  ultimately show ?thesis using sb(2) by (simp only: honest_batch_def)
qed

definition sharePoint :: "('s::field, 'a, 'b, 'c) ClusterBTE \<Rightarrow> 's tx_input list \<Rightarrow> ('s, 'a, 'c) BatchItem list \<Rightarrow> 'a" where
  "sharePoint c ins sb =
     g1Mul (btdSuite (clBtd c)) (sum_list (map inU (batchInputs c ins sb))) (g1Base (btdSuite (clBtd c)))"

definition expected :: "'s tx_input list \<Rightarrow> ('s, 'a, 'c) BatchItem list \<Rightarrow> positionedPlaintextResult list" where
  "expected ins sb = map (\<lambda>it. \<lparr>ppPosition = biOriginalPosition it, ppResult = Inr (tiRaw (ins ! biOriginalPosition it))\<rparr>) sb"

lemma attempt_honest:
  assumes "deployed hy b0 xi zi" and c: "c = dealtCluster hy b0 n coeffs" and "encrypted c ins cts" and "coeffs \<noteq> []"
    and sb: "set sb \<subseteq> set (itemsOf cts)" "distinct (map itemIndex sb)"
    and sel: "length sel = length coeffs" "distinct (map fst sel)" "set sel \<subseteq> set (egShares (btdEG (clBtd c)))"
  shows "attempt c sb (map (\<lambda>(i, v). (i, g1Mul (btdSuite (clBtd c)) v (sharePoint c ins sb))) sel) [0..<length coeffs] =
    Some (Inr (expected ins sb))"
proof -
  let ?b = "clBtd c" and ?S = "btdSuite (clBtd c)"
  let ?sh = "map (\<lambda>(i, v). (i, g1Mul ?S v (sharePoint c ins sb))) sel"
  have b: "?b = KeyGen n (length coeffs) coeffs b0" "clHybrid c = hy" by (simp_all add: c dealt_fields)
  have "map ((!) ?sh) [0..<length coeffs] = ?sh" using sel(1) by (metis length_map map_nth)
  moreover have "BatchCombineMessages ?b (capsulesFromItems sb) ?sh True = Some (Inr (map inM (batchInputs c ins sb)),
      length (batchInputs c ins sb) * length (batchInputs c ins sb))"
    unfolding sharePoint_def using assms(1,4) sel
    by (intro combine_honest [OF _ _ _ _ _ b(1) sub_batch_honest [OF assms(1-3) sb]]) (auto simp: deployed_def)
  moreover have "plaintextResultsFromMessages ?S (clHybrid c) sb (map inM (batchInputs c ins sb)) = expected ins sb"
  proof -
    have "decryptTx ?S (clHybrid c) (PickGT ?S (trSecret (tiRandom (ins ! biOriginalPosition it)))) (biCiphertext it) =
        Inr (tiRaw (ins ! biOriginalPosition it))" if "it \<in> set sb" for it
    proof -
      have p: "biOriginalPosition it < length cts" "biCiphertext it = cts ! biOriginalPosition it"
        using that sb(1) item_of_batch [of it cts] by auto
      show ?thesis unfolding p(2) using encrypted_nth [OF assms(3) p(1)] assms(1) b(2)
        by (intro encrypt_decrypt) (simp_all add: deployed_def)
    qed
    then show ?thesis
      by (auto simp: plaintextResultsFromMessages_def expected_def zip_map2 zip_same_conv_map comp_def capsuleInput_def)
  qed
  moreover have "find (\<lambda>p. case ppResult p of Inl _ \<Rightarrow> True | Inr _ \<Rightarrow> False) (expected ins sb) = None"
    by (auto simp: find_None_iff expected_def)
  ultimately show ?thesis by (simp add: attempt_def)
qed

lemma combs_full: "combs 0 k k = [[0..<k]]"
proof -
  have "length (combs 0 k k) = 1" by (simp add: combinations_length)
  moreover have "hd (combs 0 k k) = [0..<k]" using combs_ends [of 0 k k] by simp
  ultimately show ?thesis by (cases "combs 0 k k") auto
qed

lemma sub_batch_combined:
  assumes "deployed hy b0 xi zi" and c: "c = dealtCluster hy b0 n coeffs" and "encrypted c ins cts" and "coeffs \<noteq> []"
    and sb: "set sb \<subseteq> set (itemsOf cts)" "distinct (map itemIndex sb)"
    and sel: "length sel = length coeffs" "distinct (map fst sel)" "set sel \<subseteq> set (egShares (btdEG (clBtd c)))"
    and "1 \<le> maxAttempts"
  shows "combineSubBatch c sb (map (\<lambda>(i, v). (i, g1Mul (btdSuite (clBtd c)) v (sharePoint c ins sb))) sel) maxAttempts =
    Some (Inr (expected ins sb), 1)"
proof -
  let ?sh = "map (\<lambda>(i, v). (i, g1Mul (btdSuite (clBtd c)) v (sharePoint c ins sb))) sel"
  have T: "btdT (clBtd c) = length coeffs" by (simp add: c dealt_fields)
  have len: "length ?sh = length coeffs" using sel(1) by simp
  have "combineAttempt c sb ?sh maxAttempts [0..<length coeffs] \<lparr>cbFirstErr = None, cbOut = None, cbAttempts = 0\<rparr> =
      Some (True, \<lparr>cbFirstErr = None, cbOut = Some (expected ins sb), cbAttempts = 1\<rparr>)"
    using combineAttempt_cases [of "\<lparr>cbFirstErr = None, cbOut = None, cbAttempts = 0\<rparr>" maxAttempts c sb ?sh "[0..<length coeffs]"]
      attempt_honest [OF assms(1-9)] assms(10) by simp
  then show ?thesis
    unfolding combineSubBatch_def T len using assms(4) by (simp add: forEach_run combs_full)
qed

section \<open>All sub-batches\<close>

lemma combineAll_honest:
  assumes "\<And>j. j < length sbs \<Longrightarrow> combineSubBatch c (sbs ! j) (sharesOf groups (k + j)) (MaxAttemptsPerSubBatch opts) = Some (Inr (out (sbs ! j)), 1)"
    and "\<And>j. j < length sbs \<Longrightarrow> btdT (clBtd c) \<le> length (sharesOf groups (k + j))"
    and "AttemptLimitsBySubBatch opts = None" and "1 \<le> MaxAttemptsPerSubBatch opts"
  shows "\<exists>att'. combineAll c opts groups k sbs att res = Some (Inr (placeResults (concat (map out sbs)) res), att')"
  using assms(1,2)
proof (induction sbs arbitrary: k att res)
  case Nil
  then show ?case by (simp add: placeResults_def)
next
  case (Cons sb sbs)
  have first: "combineSubBatch c sb (sharesOf groups k) (MaxAttemptsPerSubBatch opts) = Some (Inr (out sb), 1)"
    "btdT (clBtd c) \<le> length (sharesOf groups k)"
    using Cons.prems(1) [of 0] Cons.prems(2) [of 0] by simp_all
  have "combineSubBatch c (sbs ! j) (sharesOf groups (Suc k + j)) (MaxAttemptsPerSubBatch opts) = Some (Inr (out (sbs ! j)), 1)"
    "btdT (clBtd c) \<le> length (sharesOf groups (Suc k + j))" if "j < length sbs" for j
    using Cons.prems(1) [of "Suc j"] Cons.prems(2) [of "Suc j"] that by simp_all
  then obtain att' where "combineAll c opts groups (Suc k) sbs (att[k := 1]) (placeResults (out sb) res) =
      Some (Inr (placeResults (concat (map out sbs)) (placeResults (out sb) res)), att')"
    using Cons.IH [of "Suc k" "att[k := 1]" "placeResults (out sb) res"] by blast
  then show ?case using first assms(3,4) by (simp add: Let_def placeResults_def)
qed

lemma sort_shares: "sortSlice (\<lambda>a b. fst a < fst b) (map (\<lambda>(i, v). (i, f v)) sel) =
    map (\<lambda>(i, v). (i, f v)) (sortSlice (\<lambda>a b. fst a < fst b) sel)"
proof -
  have ins: "insertBy (\<lambda>a b. fst a < fst b) (i, f v) (map (\<lambda>(i, v). (i, f v)) ys) =
      map (\<lambda>(i, v). (i, f v)) (insertBy (\<lambda>a b. fst a < fst b) (i, v) ys)" for i v ys
    by (induction ys) auto
  show ?thesis by (induction sel) (auto simp: ins)
qed

lemma planSize_all:
  assumes "mset (concat (bpSubBatches plan)) = mset (itemsOf cts)"
  shows "planSize plan = length cts"
proof -
  let ?f = "\<lambda>it m. if biOriginalPosition it + 1 > m then biOriginalPosition it + 1 else m"
  have up: "fold ?f xs m \<le> N" if "m \<le> N" "\<And>it. it \<in> set xs \<Longrightarrow> biOriginalPosition it < N" for xs and m N :: nat
    using that
  proof (induction xs arbitrary: m)
    case (Cons x xs)
    have "?f x m \<le> N" using Cons.prems(1) Cons.prems(2) [of x] by auto
    then show ?case using Cons by simp
  qed simp
  have s: "set (concat (bpSubBatches plan)) = set (itemsOf cts)" using assms by (rule mset_eq_setD)
  have "planSize plan \<le> length cts" unfolding planSize_def
    using s item_of_batch by (intro up) auto
  moreover have "length cts \<le> planSize plan"
  proof (cases "cts = []")
    case False
    let ?it = "\<lparr>biOriginalPosition = length cts - 1, biCiphertext = cts ! (length cts - 1)\<rparr>"
    have "?it \<in> set (itemsOf cts)" using False by (auto simp: itemsOf_def in_set_enumerate_eq image_iff intro!: bexI [of _ "(length cts - 1, cts ! (length cts - 1))"])
    then have "?it \<in> set (concat (bpSubBatches plan))" using s by blast
    from fold_max_mem [OF this, of "\<lambda>it. biOriginalPosition it + 1" 0] show ?thesis
      using False unfolding planSize_def by simp
  qed simp
  ultimately show ?thesis by simp
qed

lemma expected_placed:
  assumes "mset (concat sbs) = mset (itemsOf cts)" and "length ins = length cts"
  shows "placeResults (concat (map (expected ins) sbs)) (replicate (length cts) None) = map (\<lambda>i. Some (Inr (tiRaw i))) ins"
proof (rule nth_equalityI)
  show "length (placeResults (concat (map (expected ins) sbs)) (replicate (length cts) None)) = length (map (\<lambda>i. Some (Inr (tiRaw i))) ins)"
    using assms(2) by (simp add: place_one)
  fix j
  assume "j < length (placeResults (concat (map (expected ins) sbs)) (replicate (length cts) None))"
  then have j: "j < length cts" by (simp add: place_one)
  have flat: "concat (map (expected ins) sbs) = expected ins (concat sbs)" by (induction sbs) (simp_all add: expected_def)
  have pos: "map ppPosition (expected ins (concat sbs)) = map biOriginalPosition (concat sbs)"
    by (simp add: expected_def)
  have all: "map biOriginalPosition (itemsOf cts) = [0..<length cts]" by (rule nth_equalityI) (simp_all add: itemsOf_def nth_enumerate_eq)
  have m: "mset (map biOriginalPosition (concat sbs)) = mset [0..<length cts]" using assms(1) all by (metis mset_map)
  then have d: "distinct (map ppPosition (expected ins (concat sbs)))"
    using mset_eq_imp_distinct_iff [OF m] by (simp add: pos)
  have "j \<in> set (map ppPosition (expected ins (concat sbs)))" using mset_eq_setD [OF m] j by (simp add: pos)
  then have ex: "find (\<lambda>p. ppPosition p = j) (expected ins (concat sbs)) \<noteq> None" by (auto simp: find_None_iff)
  then obtain p where p: "find (\<lambda>p. ppPosition p = j) (expected ins (concat sbs)) = Some p" by blast
  then have "p \<in> set (expected ins (concat sbs))" "ppPosition p = j" by (auto simp: find_Some_iff)
  then have "ppResult p = Inr (tiRaw (ins ! j))" by (auto simp: expected_def)
  then show "placeResults (concat (map (expected ins) sbs)) (replicate (length cts) None) ! j = map (\<lambda>i. Some (Inr (tiRaw i))) ins ! j"
    unfolding flat using place_nth [OF d, of j "replicate (length cts) None"] j p assms(2) by simp
qed

lemma share_made:
  assumes "deployed hy b0 xi zi" and c: "c = dealtCluster hy b0 n coeffs" and "encrypted c ins cts"
    and plan: "k < length (bpSubBatches plan)" "set (bpSubBatches plan ! k) \<subseteq> set (itemsOf cts)"
      "distinct (map itemIndex (bpSubBatches plan ! k))"
  shows "MakeShare c (int (fst s), s) plan (int k) =
    Inr \<lparr>dsOperatorID = int (fst s), dsBatchID = bpBatchID plan, dsSubBatchID = int k,
      dsShare = Some (fst s, Some (g1Mul (btdSuite (clBtd c)) (snd s) (sharePoint c ins (bpSubBatches plan ! k))))\<rparr>"
proof -
  have laws: "crs_for (btdSuite (clBtd c)) xi zi (btdPRF (clBtd c))" "pairing_laws (btdSuite (clBtd c))"
    "prfB (btdPRF (clBtd c)) = btdB (clBtd c)"
    using assms(1) by (simp_all add: c dealt_fields deployed_def)
  from share_of_batch [OF sub_batch_honest [OF assms(1-3) plan(2,3)] laws, of "fst s" "snd s"]
  show ?thesis using plan(1) by (simp add: MakeShare_def sharePoint_def)
qed

lemma batch_planned:
  assumes "deployed hy b0 xi zi" and c: "c = dealtCluster hy b0 n coeffs" and enc: "encrypted c ins cts"
    and "cts \<noteq> []" and "int (length cts) \<le> btdB b0"
  shows "\<exists>plan. PlanBatch c cts = Inr plan \<and> mset (concat (bpSubBatches plan)) = mset (itemsOf cts) \<and>
    (\<forall>sb \<in> set (bpSubBatches plan). distinct (map itemIndex sb))"
proof -
  have laws: "crs_for (btdSuite (clBtd c)) xi zi (btdPRF (clBtd c))" "pairing_laws (btdSuite (clBtd c))"
    using assms(1) by (simp_all add: c dealt_fields deployed_def)
  have B: "clN c = int (length zi)" "clBMax c = btdB b0" "clHybrid c = hy"
    using assms(1) by (simp_all add: c dealt_fields deployed_def crs_for_def)
  have each_ct: "validateCiphertext c ct = Inr () \<and> (\<exists>e. Ciphertext_MarshalBinary (btdSuite (clBtd c)) ct = Inr e)" if ct: "ct \<in> set cts" for ct
  proof -
    obtain j where j: "j < length cts" "ct = cts ! j" using ct by (auto simp: in_set_conv_nth)
    note e = encrypted_nth [OF enc j(1)]
    have cap: "encOf (clBtd c) (clPK c) (capsuleInput (btdSuite (clBtd c)) (ins ! j)) = Inr (cxCapsule ct)"
      using encrypt_capsule e(2) j by blast
    from enc_parts(1-3) [OF cap laws] have "0 \<le> ctI (cxCapsule ct)" "ctI (cxCapsule ct) < clN c" by (simp_all add: B)
    moreover have "validateAEADPayloadShape (cxEncryptedTx ct) = Inr ()"
      using encrypt_decrypt(2) e assms(1) j(2) B(3) by (auto simp: deployed_def)
    moreover have "\<exists>m. CT_MarshalBinary (btdSuite (clBtd c)) (cxCapsule ct) = Inr m"
      using e(2) unfolding j(2) [symmetric]
      by (auto simp: encryptInput_def EncryptTx_def Let_def digestCapsule_def split: sum.splits)
    ultimately show ?thesis by (auto simp: validateCiphertext_def Ciphertext_MarshalBinary_def)
  qed
  then obtain sbs where sbs: "arrangeBatch c cts = Inr (alphaOf cts, sbs)" "mset (concat sbs) = mset (itemsOf cts)"
    "\<forall>sb \<in> set sbs. distinct (map itemIndex sb)"
    using arrangeBatch_spec [of cts c] assms(4,5) B by auto
  have "\<not> (\<exists>e. each (Ciphertext_MarshalBinary (btdSuite (clBtd c))) cts = Inl e)"
    unfolding each_Inl_iff using each_ct by fastforce
  then obtain es where "each (Ciphertext_MarshalBinary (btdSuite (clBtd c))) cts = Inr es"
    by (cases "each (Ciphertext_MarshalBinary (btdSuite (clBtd c))) cts") auto
  then show ?thesis using sbs by (auto simp: PlanBatch_def computeBatchID_def)
qed

section \<open>Property\<close>

text \<open>
  C3. End-to-end round trip of the cluster API: for transactions encrypted under the dealt key
  with any indices of the domain (repetitions included), planning succeeds, any threshold of
  operators produce their shares for every sub-batch, and combining them with the default
  budget returns every transaction at its original position.
\<close>

theorem cluster_roundtrip:
  assumes "deployed hy b0 xi zi" and "coeffs \<noteq> []"
    and "encrypted (dealtCluster hy b0 n coeffs) ins cts" and "cts \<noteq> []" and "int (length cts) \<le> btdB b0"
    and "length sel = length coeffs" and "distinct (map fst sel)"
    and "set sel \<subseteq> set (egShares (btdEG (clBtd (dealtCluster hy b0 n coeffs))))"
  shows "\<exists>plan ds. PlanBatch (dealtCluster hy b0 n coeffs) cts = Inr plan \<and>
    each (\<lambda>(k, s). MakeShare (dealtCluster hy b0 n coeffs) (int (fst s), s) plan (int k))
      (List.product [0..<length (bpSubBatches plan)] sel) = Inr ds \<and>
    CombineShares (dealtCluster hy b0 n coeffs) plan ds = Some (Inr (map (\<lambda>i. Some (Inr (tiRaw i))) ins))"
proof -
  define c where "c = dealtCluster hy b0 n coeffs"
  have enc: "encrypted c ins cts" using assms(3) by (simp add: c_def)
  have sub: "set sel \<subseteq> set (egShares (btdEG (clBtd c)))" using assms(8) by (simp add: c_def)
  obtain plan where plan: "PlanBatch c cts = Inr plan" "mset (concat (bpSubBatches plan)) = mset (itemsOf cts)"
    "\<forall>sb \<in> set (bpSubBatches plan). distinct (map itemIndex sb)"
    using batch_planned [OF assms(1) c_def enc assms(4,5)] by blast
  let ?a = "length (bpSubBatches plan)" and ?sb = "\<lambda>k. bpSubBatches plan ! k" and ?S = "btdSuite (clBtd c)"
  have items: "set (?sb k) \<subseteq> set (itemsOf cts)" "distinct (map itemIndex (?sb k))" if "k < ?a" for k
    using that plan(3) mset_eq_setD [OF plan(2)] by (auto simp: subset_iff)
  let ?pt = "\<lambda>k s. (fst s, g1Mul ?S (snd s) (sharePoint c ins (?sb k)))"
  let ?ds = "\<lambda>(k, s). \<lparr>dsOperatorID = int (fst s), dsBatchID = bpBatchID plan, dsSubBatchID = int k,
      dsShare = Some (fst s, Some (snd (?pt k s)))\<rparr>"
  let ?ps = "List.product [0..<?a] sel" and ?gs = "concat (map (\<lambda>k. map (\<lambda>s. (int k, ?pt k s)) sel) [0..<?a])"
  have made: "each (\<lambda>(k, s). MakeShare c (int (fst s), s) plan (int k)) ?ps = Inr (map ?ds ?ps)"
  proof (rule each_map)
    fix x
    assume "x \<in> set ?ps"
    then obtain k s where x: "x = (k, s)" "k < ?a" by auto
    show "(\<lambda>(k, s). MakeShare c (int (fst s), s) plan (int k)) x = Inr (?ds x)"
      unfolding x(1) using share_made [OF assms(1) c_def enc x(2) items [OF x(2)], of s] by simp
  qed
  have gs: "?gs = map (\<lambda>(k, s). (int k, ?pt k s)) ?ps" by (simp add: product_concat_map map_concat comp_def)
  have shares: "btdN (clBtd c) = n" "egShares (btdEG (clBtd c)) = shPriShares (btdSuite b0) coeffs n" "btdT (clBtd c) = length coeffs"
    by (simp_all add: c_def dealt_fields) (simp add: KeyGen_def eg_KeyGen_def)
  have op: "fst s < n" if "s \<in> set sel" for s
  proof -
    have "s \<in> set (shPriShares (btdSuite b0) coeffs n)" using that sub shares(2) by auto
    then have "fst s \<in> fst ` set (shPriShares (btdSuite b0) coeffs n)" by (rule imageI)
    then show ?thesis using assms(1) unfolding deployed_def sharing_laws_def by blast
  qed
  have good: "list_all2 (good_share c plan) (map ?ds ?ps) ?gs"
    unfolding gs using op by (auto simp: list_all2_map1 list_all2_map2 good_share_def shares intro!: list.rel_refl_strong)
  have "distinct (map (\<lambda>(s, i, v). (s, i)) ([] @ ?gs))"
  proof -
    have "map (\<lambda>(s, i, v). (s, i)) ?gs = map (\<lambda>(k, s). (int k, fst s)) ?ps" unfolding gs by (auto simp: comp_def split_beta)
    moreover have "inj_on (\<lambda>(k, s). (int k, fst s)) (set ?ps)"
      using assms(7) by (auto simp: inj_on_def distinct_map)
    ultimately show ?thesis using assms(7) by (simp add: distinct_map distinct_product)
  qed
  then have grouped: "groupShares c plan (map ?ds ?ps) [] = Inr ?gs" using group_good [OF good] by simp
  let ?sel = "sortSlice (\<lambda>a b. fst a < fst b) sel"
  have sel: "length ?sel = length coeffs" "distinct (map fst ?sel)" "set ?sel \<subseteq> set (egShares (btdEG (clBtd c)))"
  proof -
    have "mset (map fst ?sel) = mset (map fst sel)" by (simp only: mset_map mset_sortSlice)
    then show "distinct (map fst ?sel)" using assms(7) mset_eq_imp_distinct_iff by blast
  qed (use assms(6) sub in simp_all)
  have of_k: "sharesOf ?gs k = map (\<lambda>(i, v). (i, g1Mul ?S v (sharePoint c ins (?sb k)))) ?sel" if "k < ?a" for k
  proof -
    have "sharesOf ?gs k = sortSlice (\<lambda>a b. fst a < fst b) (map (\<lambda>(i, v). (i, g1Mul ?S v (sharePoint c ins (?sb k)))) sel)"
      unfolding sharesOf_def using sharesOf_block [OF that, of ?pt sel] by (simp add: case_prod_unfold)
    then show ?thesis by (simp only: sort_shares)
  qed
  let ?o = "\<lparr>MaxAttemptsPerSubBatch = defaultMaxCombineAttemptsPerSubBatch, AttemptLimitsBySubBatch = None\<rparr>"
  have "\<exists>att. combineAll c ?o ?gs 0 (bpSubBatches plan) (replicate ?a 0) (replicate (planSize plan) None) =
      Some (Inr (placeResults (concat (map (expected ins) (bpSubBatches plan))) (replicate (planSize plan) None)), att)"
    using sub_batch_combined [OF assms(1) c_def enc assms(2) items sel] of_k sel(1) shares(3)
    by (intro combineAll_honest) (simp_all add: defaultMaxCombineAttemptsPerSubBatch_def)
  moreover have "placeResults (concat (map (expected ins) (bpSubBatches plan))) (replicate (planSize plan) None) =
      map (\<lambda>i. Some (Inr (tiRaw i))) ins"
    unfolding planSize_all [OF plan(2)] using enc
    by (intro expected_placed [OF plan(2)]) (auto simp: encrypted_def each_Inr_iff list_all2_lengthD)
  ultimately have "CombineShares c plan (map ?ds ?ps) = Some (Inr (map (\<lambda>i. Some (Inr (tiRaw i))) ins))"
    using grouped by (auto simp: CombineShares_def CombineSharesBounded_def Let_def defaultMaxCombineAttemptsPerSubBatch_def)
  then show ?thesis using plan(1) made unfolding c_def by blast
qed

definition demo_b0 :: "(rat, rat, rat, rat) BTD" where
  "demo_b0 = NewBTD demo_suite 4 [1, 2, 3, 4] [5, 6, 7, 8]"

definition demo_input :: "byte \<Rightarrow> int \<Rightarrow> rat tx_input" where
  "demo_input b i = \<lparr>tiRaw = [b], tiIndex = i,
     tiRandom = \<lparr>trSecret = 3, trK = 2, trU = 5, trUN = 7, trKN = 11, trNonce = replicate 12 9\<rparr>\<rparr>"

lemma demo_deployed: "deployed demo_hybrid demo_b0 [1, 2, 3, 4] [5, 6, 7, 8]"
proof -
  have "crs_for demo_suite [1, 2, 3, 4] [5, 6, 7, 8] (PRFSetup demo_suite 4 True [1, 2, 3, 4] [5, 6, 7, 8])"
    by (rule setup_crs) simp_all
  moreover have "aead_laws demo_hybrid" by (simp add: aead_laws_def demo_hybrid_def aeadTagSize_def)
  ultimately show ?thesis
    using demo_suite_laws by (simp add: deployed_def demo_b0_def NewBTD_def) (simp add: PRFSetup_def Let_def)
qed

lemma demo_marshals:
  "g1Marshal demo_suite x = Some []" "gtMarshal demo_suite x = Some []" "scMarshal demo_suite x = Some []"
  by (simp_all add: demo_suite_def)

lemma demo_b0_fields:
  "btdSuite demo_b0 = demo_suite" "prfB (btdPRF demo_b0) = 4" "btdB demo_b0 = 4"
  by (simp_all add: demo_b0_def NewBTD_def PRFSetup_def Let_def)

lemma demo_encrypts:
  assumes "0 \<le> i" and "i < 4"
  shows "\<exists>ct. encryptInput (dealtCluster demo_hybrid demo_b0 3 [13, 17]) (demo_input b i) = Inr ct"
  using assms
  by (simp add: encryptInput_def EncryptTx_def demo_input_def Let_def dealt_fields BTD_Enc_def Puncture_def prf_Eval_def
    SHash_def digestCapsule_def CT_MarshalBinary_def aeadFromGT_def demo_b0_fields demo_marshals)

theorem cluster_roundtrip_witness:
  "\<exists>cts plan ds. PlanBatch (dealtCluster demo_hybrid demo_b0 3 [13, 17]) cts = Inr plan \<and>
    CombineShares (dealtCluster demo_hybrid demo_b0 3 [13, 17]) plan ds = Some (Inr [Some (Inr [1]), Some (Inr [2]), Some (Inr [3])])"
proof -
  let ?c = "dealtCluster demo_hybrid demo_b0 3 [13, 17]" and ?ins = "[demo_input 1 2, demo_input 2 2, demo_input 3 0]"
  obtain a b d where "encryptInput ?c (demo_input 1 2) = Inr a" "encryptInput ?c (demo_input 2 2) = Inr b"
    "encryptInput ?c (demo_input 3 0) = Inr d" using demo_encrypts [of 2 1] demo_encrypts [of 2 2] demo_encrypts [of 0 3] by auto
  then have enc: "encrypted ?c ?ins [a, b, d]" by (simp add: encrypted_def demo_input_def aeadNonceSize_def)
  have sh: "set [(2, 13), (0, 13)] \<subseteq> set (egShares (btdEG (clBtd ?c)))"
    by (simp add: dealt_fields KeyGen_def eg_KeyGen_def demo_b0_def NewBTD_def) (simp add: demo_suite_def)
  have "int (length [a, b, d]) \<le> btdB demo_b0" by (simp add: demo_b0_def NewBTD_def)
  from cluster_roundtrip [OF demo_deployed _ enc _ this _ _ sh] show ?thesis by (auto simp: demo_input_def)
qed

end
