(* ===== verification/Node_Combine.thy ===== *)
theory Node_Combine
  imports Node_Safety Cluster_Roundtrip
begin

text \<open>
  The share table seen from its clients: towards the senders it is a write-once register per
  operator and sub-batch, towards the cluster library it hands out a list of shares that a
  combination always accepts.
\<close>

section \<open>A write-once register\<close>

definition held :: "('s, 'a, 'b, 'c) Node \<Rightarrow> int \<times> int \<rightharpoonup> bytes" where
  "held n = (\<lambda>(op, k). map_option rtEncoded (map_of (ocShares (candidatesOf n op)) k))"

definition write_once :: "'k \<Rightarrow> 'v \<Rightarrow> ('k \<rightharpoonup> 'v) \<Rightarrow> ('k \<rightharpoonup> 'v)" where
  "write_once k v m = (if m k = None then m(k \<mapsto> v) else m)"

lemma candidates_put_if: "candidatesOf (putCandidates op c n) op' = (if op' = op then c else candidatesOf n op')"
  by (simp add: candidatesOf_def putCandidates_def)

lemma held_same [simp]: "held (putCandidates op (candidatesOf n op) n) = held n"
  by (auto simp: held_def candidates_put_if fun_eq_iff)

lemma held_table: "ssShareCandidates n' = ssShareCandidates n \<Longrightarrow> held n' = held n"
  by (simp add: held_def candidatesOf_def)

lemma held_reject [simp]: "held (snd (rejectShare e n)) = held n"
  by (rule held_table) simp

lemma held_locked:
  fixes n :: "('s, 'a, 'b, 'c) Node" and d :: "'a DecryptionShare"
  shows "case addShareLocked E now d enc n of
     (Inl e, n') \<Rightarrow> held n' = held n
   | (Inr _, n') \<Rightarrow> held n' = write_once (dsOperatorID d, dsSubBatchID d) enc (held n) \<and> held n' (dsOperatorID d, dsSubBatchID d) = Some enc"
proof (cases rule: addShareLocked_cases [of E now d enc n])
  case (Early e)
  then show ?thesis by (cases "rejectShare e n") (use rejected_same(2) [of e n] held_reject [of e n] in auto)
next
  case (Refused e)
  let ?m = "putCandidates (dsOperatorID d) (candidatesOf n (dsOperatorID d)) n"
  show ?thesis using Refused by (cases "rejectShare e ?m") (use rejected_same(2) [of e ?m] held_reject [of e ?m] in auto)
next
  case (Same r)
  have "held n (dsOperatorID d, dsSubBatchID d) = Some enc" using Same(2,3) by (simp add: held_def)
  then show ?thesis unfolding Same(1) by (simp add: write_once_def)
next
  case Full
  let ?c = "candidatesOf n (dsOperatorID d)"
  have "held (putCandidates (dsOperatorID d) ((withShare d enc ?c)\<lparr>ocShares := AList.delete (dsSubBatchID d) (ocShares (withShare d enc ?c))\<rparr>)
      (putCandidates (dsOperatorID d) (withShare d enc ?c) (putCandidates (dsOperatorID d) ?c n))) = held n" (is "held ?m = _")
    using Full(2) by (auto simp: held_def candidates_put_if withShare_def fun_eq_iff delete_conv' map_of_update)
  then show ?thesis using Full(1) by (cases "rejectShare ShareCapacity ?m") (use rejected_same(2) [of ShareCapacity ?m] held_reject [of ShareCapacity ?m] in auto)
next
  case New
  let ?c = "candidatesOf n (dsOperatorID d)" and ?k = "(dsOperatorID d, dsSubBatchID d)"
  have fresh: "held n ?k = None" using New(2) by (simp add: held_def)
  have m: "held (putCandidates (dsOperatorID d) (withShare d enc ?c) n) = (held n)(?k \<mapsto> enc)"
    by (auto simp: held_def candidates_put_if withShare_def fun_eq_iff)
  have "held (noteAccepted E now d ((putCandidates (dsOperatorID d) (withShare d enc ?c) n)\<lparr>ssShareVersion := v\<rparr>)) = (held n)(?k \<mapsto> enc)" for v
    unfolding m [symmetric] by (rule held_table) simp
  then show ?thesis unfolding New(1) by (simp add: write_once_def fresh)
qed

text \<open>
  C14. The share table is a write-once register: a share the node accepts is the one stored for its
  operator and sub-batch, whoever delivered the first one, and a share it rejects changes nothing.
  In particular a second, different share of the same operator for the same sub-batch is never
  accepted, and a repeated one is accepted without effect.
\<close>

theorem share_register:
  "case addShare E now d n of
     (Inl e, n') \<Rightarrow> held n' = held n
   | (Inr _, n') \<Rightarrow> \<exists>v enc. dsShare d = Some (nat (dsOperatorID d), Some v) \<and> g1Marshal (btdSuite (clBtd (ndCluster n))) v = Some enc \<and>
       held n' = write_once (dsOperatorID d, dsSubBatchID d) enc (held n) \<and> held n' (dsOperatorID d, dsSubBatchID d) = Some enc"
proof (cases "\<exists>e. addShare E now d n = rejectShare e n")
  case True
  then obtain e where "addShare E now d n = rejectShare e n" ..
  then show ?thesis by (cases "rejectShare e n") (use rejected_same(2) [of e n] held_reject [of e n] in auto)
next
  case False
  then obtain v enc where v: "dsShare d = Some (nat (dsOperatorID d), Some v)" "node_marshal n v = Some enc"
    "addShare E now d n = addShareLocked E now d enc n"
    by (auto simp: addShare_def configuredOperator_def split: option.splits if_splits)
  show ?thesis unfolding v(3) using held_locked [where E = E and now = now and d = d and enc = enc and n = n] v(1,2) by (auto split: prod.splits sum.splits)
qed

section \<open>The shares of a claim\<close>

text \<open>The retained shares come in one block per operator, keyed by the sub-batch.\<close>

definition keys_held :: "('s, 'a, 'b, 'c) Node \<Rightarrow> nat \<Rightarrow> int list" where
  "keys_held n i = (case map_of (ssShareCandidates n) (int64_of i) of None \<Rightarrow> [] | Some c \<Rightarrow> sortSlice (<) (map fst (ocShares c)))"

abbreviation share_key :: "'a DecryptionShare \<Rightarrow> int \<times> int" where
  "share_key d \<equiv> (dsOperatorID d, dsSubBatchID d)"

lemma retained_member:
  assumes ok: "shares_ok n" and "d \<in> set (retainedSharesLocked n)"
  obtains i c k r where "i \<in> set (ndNodeIDs n)" "map_of (ssShareCandidates n) (int64_of i) = Some c" "d = rtValue r"
    "entry_ok (cfBMax (ndCfg n)) (node_marshal n) (share_target n) (int64_of i) c k r"
proof -
  obtain i where i: "i \<in> set (ndNodeIDs n)" "d \<in> set (case map_of (ssShareCandidates n) (int64_of i) of None \<Rightarrow> []
      | Some c \<Rightarrow> map (\<lambda>k. rtValue (the (map_of (ocShares c) k))) (sortSlice (<) (map fst (ocShares c))))"
    using assms(2) unfolding retainedSharesLocked_def by auto
  then obtain c k where d: "map_of (ssShareCandidates n) (int64_of i) = Some c" "k \<in> fst ` set (ocShares c)"
    "d = rtValue (the (map_of (ocShares c) k))" by (cases "map_of (ssShareCandidates n) (int64_of i)") auto
  then obtain r where r: "map_of (ocShares c) k = Some r" by (metis map_of_eq_None_iff not_None_eq)
  have "entry_ok (cfBMax (ndCfg n)) (node_marshal n) (share_target n) (int64_of i) c k r"
    by (rule table_ok_lookup(4) [OF shares_ok_table [OF ok] d(1) map_of_SomeD [OF r]])
  then show thesis using that i d r by auto
qed

lemma retained_keys:
  assumes ok: "shares_ok n"
  shows "map share_key (retainedSharesLocked n) = concat (map (\<lambda>i. map (Pair (int64_of i)) (keys_held n i)) (ndNodeIDs n))"
proof -
  have "map share_key (case map_of (ssShareCandidates n) (int64_of i) of None \<Rightarrow> []
      | Some c \<Rightarrow> map (\<lambda>k. rtValue (the (map_of (ocShares c) k))) (sortSlice (<) (map fst (ocShares c)))) =
    map (Pair (int64_of i)) (keys_held n i)" for i
  proof (cases "map_of (ssShareCandidates n) (int64_of i)")
    case (Some c)
    have "share_key (rtValue (the (map_of (ocShares c) k))) = (int64_of i, k)" if k: "k \<in> fst ` set (ocShares c)" for k
    proof -
      obtain r where r: "map_of (ocShares c) k = Some r" using k by (metis map_of_eq_None_iff not_None_eq)
      then show ?thesis using table_ok_lookup(4) [OF shares_ok_table [OF ok] Some map_of_SomeD [OF r]] by (simp add: entry_ok_def)
    qed
    then show ?thesis using Some by (simp add: keys_held_def)
  qed (simp add: keys_held_def)
  then show ?thesis unfolding retainedSharesLocked_def map_concat map_map comp_def by simp
qed

lemma distinct_blocks:
  assumes "distinct xs" and "inj_on g (set xs)" and "\<And>x. x \<in> set xs \<Longrightarrow> distinct (ks x)"
  shows "distinct (concat (map (\<lambda>x. map (Pair (g x)) (ks x)) xs))"
  using assms
proof (induction xs)
  case (Cons x xs)
  have "g y \<noteq> g x" if "y \<in> set xs" for y using that Cons.prems(1,2) by (auto simp: inj_on_def)
  then show ?case using Cons by (auto simp: distinct_map inj_on_def)
qed simp

lemma retained_distinct:
  assumes ok: "shares_ok n" and ids: "distinct (ndNodeIDs n)" "\<forall>i \<in> set (ndNodeIDs n). i < 2 ^ 63"
  shows "distinct (map share_key (retainedSharesLocked n))"
  unfolding retained_keys [OF ok]
proof (rule distinct_blocks [OF ids(1)])
  show "inj_on int64_of (set (ndNodeIDs n))" using ids(2) by (auto simp: inj_on_def int64_of_def)
  show "distinct (keys_held n i)" for i
    using table_ok_lookup(3) [OF shares_ok_table [OF ok]] by (auto simp: keys_held_def distinct_sortSlice split: option.splits)
qed

text \<open>The groups the cluster library makes of them.\<close>

definition group_of :: "'a DecryptionShare \<Rightarrow> int \<times> nat \<times> 'a" where
  "group_of d = (dsSubBatchID d, nat (dsOperatorID d), the (snd (the (dsShare d))))"

lemma retained_grouped:
  assumes ok: "shares_ok n" and planned: "ssPlanned n" "ssResult n = None"
    and ids: "distinct (ndNodeIDs n)" "\<forall>i \<in> set (ndNodeIDs n). i < btdN (clBtd (ndCluster n)) \<and> i < 2 ^ 63"
  shows "groupShares (ndCluster n) (ssPlan n) (retainedSharesLocked n) [] = Inr (map group_of (retainedSharesLocked n))"
proof -
  have good: "good_share (ndCluster n) (ssPlan n) d (group_of d) \<and> 0 \<le> dsOperatorID d" if d: "d \<in> set (retainedSharesLocked n)" for d
  proof -
    obtain i c k r where e: "i \<in> set (ndNodeIDs n)" "d = rtValue r"
      "entry_ok (cfBMax (ndCfg n)) (node_marshal n) (share_target n) (int64_of i) c k r"
      by (rule retained_member [OF ok d])
    have "int64_of i = int i" using ids(2) e(1) by (simp add: int64_of_def)
    moreover have "share_target n = Some (bpBatchID (ssPlan n), length (bpSubBatches (ssPlan n)))" using planned by (simp add: share_target_def)
    ultimately show ?thesis using e ids(2) by (auto simp: entry_ok_def good_share_def group_of_def)
  qed
  have keys: "map (\<lambda>(s, i, v). (s, i)) (map group_of (retainedSharesLocked n)) =
      map ((\<lambda>(op, k). (k, nat op)) \<circ> share_key) (retainedSharesLocked n)" by (simp add: group_of_def)
  have "distinct (map (\<lambda>(s, i, v). (s, i)) (map group_of (retainedSharesLocked n)))"
    unfolding keys distinct_map
  proof (rule conjI [OF _ comp_inj_on])
    show "distinct (retainedSharesLocked n)" "inj_on share_key (set (retainedSharesLocked n))"
      using retained_distinct [OF ok ids(1)] ids(2) unfolding distinct_map by blast+
    show "inj_on (\<lambda>(op, k). (k, nat op)) (share_key ` set (retainedSharesLocked n))"
      using good by (auto simp: inj_on_def eq_nat_nat_iff)
  qed
  then show ?thesis
    using group_good [of "ndCluster n" "ssPlan n" "retainedSharesLocked n" "map group_of (retainedSharesLocked n)" "[]"] good
    by (simp add: list_all2_conv_all_nth)
qed

lemma threshold_met:
  assumes "hasThresholdPerSubBatch shares plan threshold" and "k < length (bpSubBatches plan)"
  shows "threshold \<le> int (length (sharesOf (map group_of shares) k))"
proof -
  have "threshold \<le> int (length (remdups (map dsOperatorID (filter (\<lambda>d. dsSubBatchID d = int k) shares))))"
    using assms by (simp add: hasThresholdPerSubBatch_def)
  also have "\<dots> \<le> int (length (filter (\<lambda>d. dsSubBatchID d = int k) shares))"
    using length_remdups_leq [of "map dsOperatorID (filter (\<lambda>d. dsSubBatchID d = int k) shares)"] by simp
  also have "length (filter (\<lambda>d. dsSubBatchID d = int k) shares) = length (sharesOf (map group_of shares) k)"
    by (simp add: sharesOf_def filter_map comp_def group_of_def)
  finally show ?thesis .
qed

lemma combineAll_only_decryption:
  assumes "combineAll c opts groups k sbs attempts results = Some (Inl e, stats)"
    and "\<And>i. k \<le> i \<Longrightarrow> i < k + length sbs \<Longrightarrow> btdT (clBtd c) \<le> length (sharesOf groups i) \<and> 1 \<le> limitOf opts i"
  shows "\<exists>i e'. e = AtSubBatch i e'"
  using assms
proof (induction c opts groups k sbs attempts results rule: combineAll.induct)
  case (2 c opts groups k items sbs attempts results)
  have now: "\<not> length (sharesOf groups k) < btdT (clBtd c)" "\<not> limitOf opts k < 1" using 2(3) [of k] by auto
  let ?sub = "combineSubBatch c items (sharesOf groups k) (limitOf opts k)"
  have unf: "combineAll c opts groups k (items # sbs) attempts results =
    (case ?sub of None \<Rightarrow> None | Some (Inl e, n) \<Rightarrow> Some (Inl (AtSubBatch k e), attempts[k := n])
     | Some (Inr out, n) \<Rightarrow> combineAll c opts groups (Suc k) sbs (attempts[k := n]) (placeResults out results))"
    using now by (simp add: Let_def limitOf_def)
  obtain res m where sub: "?sub = Some (res, m)" using 2(2) unfolding unf by (auto split: option.splits)
  show ?case
  proof (cases res)
    case (Inl e1)
    then show ?thesis using 2(2) sub unfolding unf by auto
  next
    case (Inr out)
    have rest: "combineAll c opts groups (Suc k) sbs (attempts[k := m]) (placeResults out results) = Some (Inl e, stats)"
      using 2(2) sub Inr unfolding unf by simp
    show ?thesis
      by (rule 2(1) [OF refl refl _ _ sub [unfolded limitOf_def] refl Inr rest]) (use now 2(3) in \<open>auto simp: limitOf_def\<close>)
  qed
qed simp


text \<open>A run that reaches a claim: a plan of one sub-batch and the shares of operators 0 and 1.\<close>

definition demo_share_of :: "int \<Rightarrow> rat DecryptionShare" where
  "demo_share_of op = \<lparr>dsOperatorID = op, dsBatchID = replicate 32 0, dsSubBatchID = 0, dsShare = Some (nat op, Some 5)\<rparr>"

definition demo_plan :: "(rat, rat, rat) BatchPlan" where
  "demo_plan = \<lparr>bpBatchID = replicate 32 0, bpAlpha = 1, bpSubBatches = [[]]\<rparr>"

definition demo_claim_state :: "(rat, rat, rat, rat) Node \<Rightarrow> (rat, rat, rat, rat) Node" where
  "demo_claim_state n = finishShareGeneration demo_node_env 0 (snd (addShare demo_node_env 0 (demo_share_of 1)
     (snd (addShare demo_node_env 0 (demo_share_of 0)
       (installPlan demo_node_env (\<lambda>_. 0) demo_plan \<lparr>asSlot = 7, asLists = [], asHash = [], asTotalItems = 0\<rparr>
         \<lparr>msSlot = 7, msItems = [], msHash = [], msSelectedGas = 0, msSkippedItems = 0\<rparr> n)))))"

lemma demo_boot_fields:
  assumes "newNode demo_node_env demo_boot_env demo_hybrid demo_boot_suite demo_boot_config demo_secrets 1 no_faults = Some (Inr n)"
  shows "ndCfg n = demo_boot_config" "ndPeers n = [2, 0, 1, 3]" "ndNodeIDs n = [0, 1, 2, 3]" "btdSuite (clBtd (ndCluster n)) = demo_boot_suite"
    "\<not> ssPlanned n" "ssShareCandidates n = []" "\<not> ssCombineInFlight n"
proof -
  obtain p st where b: "bootParts (neMergeEnv demo_node_env) demo_boot_env demo_hybrid demo_boot_suite demo_boot_config demo_secrets 1 = Inr p"
    "newSlotStateWithLimit demo_node_env (bpConfig p) 1 (bpIDs p) (cfSlot (bpConfig p)) 0 = Some st" "ndCfg n = bpConfig p" "ndNodeIDs n = bpIDs p"
    "ndPeers n = map ncID (cfNodes (bpConfig p))" "ndCluster n = bpCluster p" "slotState.truncate n = st"
    by (rule newNode_Inr [OF assms])
  note p = bootParts_Inr [OF b(1)]
  have norm: "normalizeConfig demo_boot_config = demo_boot_config" by code_simp
  have ids: "map ncID (cfNodes demo_boot_config) = [2, 0, 1, 3]" by code_simp
  show "ndCfg n = demo_boot_config" "ndPeers n = [2, 0, 1, 3]" "btdSuite (clBtd (ndCluster n)) = demo_boot_suite"
    using b p(1,12) norm ids by simp_all
  show "ndNodeIDs n = [0, 1, 2, 3]" using b(4) p(1,5) norm ids by simp
  show "\<not> ssPlanned n" "ssShareCandidates n = []" "\<not> ssCombineInFlight n"
    using newSlot_fields [OF b(2)] b(7) by (auto simp: slotState.truncate_def)
qed

lemma demo_installed:
  assumes boot: "newNode demo_node_env demo_boot_env demo_hybrid demo_boot_suite demo_boot_config demo_secrets 1 no_faults = Some (Inr n)"
  shows "core (installPlan demo_node_env (\<lambda>_. 0) demo_plan agreed merged n) = core (n\<lparr>ssPlan := demo_plan, ssCombineAttemptsLeft := [256], ssPlanned := True,
    ssMaterial := zeroMaterial\<lparr>mtSlot := ssId n, mtAgreedSetHash := asHash agreed, mtMergedSetHash := msHash merged, mtSelectedGas := msSelectedGas merged, mtEncryptedHashes := EncryptedHashes (msItems merged)\<rparr>\<rparr>)"
  "ndNodeIDs (installPlan demo_node_env (\<lambda>_. 0) demo_plan agreed merged n) = [0, 1, 2, 3]"
  using demo_boot_fields [OF boot] boot_open [OF boot]
  by (simp_all add: installPlan_def Let_def core_metrics)
   (simp_all add: static_defs core_def demo_boot_config_def demo_config_def defaultResourceLimits_def defaultMaxCombineAttempts_def demo_plan_def)


definition one_share :: "int \<Rightarrow> rat operatorShareCandidates" where
  "one_share op = \<lparr>ocBatchID = replicate 32 0, ocBatchSet = True, ocShares = [(0, \<lparr>rtValue = demo_share_of op, rtEncoded = []\<rparr>)]\<rparr>"

lemma demo_added:
  assumes "ndCfg n = demo_boot_config" "ndPeers n = [2, 0, 1, 3]" "btdSuite (clBtd (ndCluster n)) = demo_boot_suite" "ssPlanned n" "ssPlan n = demo_plan"
    "ssShareCandidates n = T" "map_of T op = None" "op \<in> {0, 1}" "length T \<le> 1" "\<forall>(x, c) \<in> set T. length (ocShares c) \<le> 1"
  shows "ssShareCandidates (snd (addShare E now (demo_share_of op) n)) = T @ [(op, one_share op)]"
proof -
  have m: "g1Marshal demo_boot_suite x = Some []" for x by (simp add: demo_boot_suite_def demo_suite_def)
  have conf: "configuredOperator n op" using assms(2,8) by (auto simp: configuredOperator_def uint64_of_def)
  have fresh: "op \<notin> keys_of T" using assms(7) by (simp add: map_of_eq_None_iff)
  have cap: "\<not> 4 < int (table_size (T @ [(op, one_share op)]))" 
    using assms(9,10) by (cases T) (auto simp: table_size_def one_share_def)
  have cfg: "cfBMax demo_boot_config = 1" "cfN demo_boot_config = 4" by (simp_all add: demo_boot_config_def demo_config_def)
  have w: "withShare (demo_share_of op) [] (candidatesOf n op) = one_share op"
    using assms(6,7) by (simp add: withShare_def candidatesOf_def one_share_def demo_share_of_def)
  have lock: "addShare E now (demo_share_of op) n = addShareLocked E now (demo_share_of op) [] n"
    using conf assms(1,3,8) by (auto simp: addShare_def demo_share_of_def m cfg)
  show ?thesis unfolding lock
  proof (cases rule: addShareLocked_cases [of E now "demo_share_of op" "[]" n])
    case (New)
    then show "ssShareCandidates (snd (addShareLocked E now (demo_share_of op) [] n)) = T @ [(op, one_share op)]"
     using w assms(6) fresh by (simp add: demo_share_of_def update_fresh)
  qed (use assms cap w fresh cfg in \<open>auto simp: demo_share_of_def demo_plan_def candidatesOf_def update_fresh\<close>)
qed

lemma demo_claim:
  assumes boot: "newNode demo_node_env demo_boot_env demo_hybrid demo_boot_suite demo_boot_config demo_secrets 1 no_faults = Some (Inr n)"
  shows "node_steps demo_node_env 1 (n, []) (demo_claim_state n, [])" "\<exists>a n'. claimCombine (demo_claim_state n) = (Some a, n')"
    "ndNodeIDs (demo_claim_state n) = [0, 1, 2, 3]" "ndCfg (demo_claim_state n) = demo_boot_config"
proof -
  let ?E = demo_node_env and ?ag = "\<lparr>asSlot = 7, asLists = [], asHash = [], asTotalItems = 0\<rparr>"
  let ?mg = "\<lparr>msSlot = 7, msItems = [], msHash = [], msSelectedGas = 0, msSkippedItems = 0\<rparr>"
  let ?n1 = "installPlan ?E (\<lambda>_. 0) demo_plan ?ag ?mg n"
  let ?n2 = "snd (addShare ?E 0 (demo_share_of 0) ?n1)"
  let ?n3 = "snd (addShare ?E 0 (demo_share_of 1) ?n2)"
  note b = demo_boot_fields [OF boot] boot_open [OF boot]
  have f1: "ndCfg ?n1 = demo_boot_config" "ndPeers ?n1 = [2, 0, 1, 3]" "btdSuite (clBtd (ndCluster ?n1)) = demo_boot_suite" "ssPlanned ?n1"
    "ssPlan ?n1 = demo_plan" "ssShareCandidates ?n1 = []" "ndNodeIDs ?n1 = [0, 1, 2, 3]" "ssResult ?n1 = None" "ssFailure ?n1 = None"
    "ssCombineAttemptsLeft ?n1 = [256]" "\<not> ssCombineInFlight ?n1"
    using demo_installed [OF boot, of ?ag ?mg] b by (simp_all add: core_def)
  note s2 = same_fields [OF addShare_same [of ?n1 ?E 0 "demo_share_of 0"]] and s3 = same_fields [OF addShare_same [of ?n2 ?E 0 "demo_share_of 1"]]
  have t2: "ssShareCandidates ?n2 = [(0, one_share 0)]" using demo_added [OF f1(1-6), of 0 ?E 0] by simp
  have t3: "ssShareCandidates ?n3 = [(0, one_share 0), (1, one_share 1)]"
    by (subst demo_added [of ?n2 "[(0, one_share 0)]" 1]) (simp_all add: s2 f1 t2, simp add: one_share_def)
  have st: "demo_claim_state n = finishShareGeneration ?E 0 ?n3" by (simp add: demo_claim_state_def)
  have "node_steps ?E 1 (?n3, []) (demo_claim_state n, [])" unfolding st by (rule one_step [OF generated]) (simp add: s2 s3 f1)
  from steps_trans [OF one_step [OF node_step.planned] steps_trans [OF one_step [OF node_step.share_made] steps_trans [OF one_step [OF node_step.share_made] this]]]
  show "node_steps ?E 1 (n, []) (demo_claim_state n, [])" .
  have f: "ssResult (demo_claim_state n) = None" "ssFailure (demo_claim_state n) = None" "ssPlanned (demo_claim_state n)"
    "ssShareGenerationDone (demo_claim_state n)" "\<not> ssCombineInFlight (demo_claim_state n)" "ssPlan (demo_claim_state n) = demo_plan"
    "ssCombineAttemptsLeft (demo_claim_state n) = [256]" "ssShareCandidates (demo_claim_state n) = [(0, one_share 0), (1, one_share 1)]"
    unfolding st by (simp_all add: finishShareGeneration_def Let_def refreshMetricsLocked_def on_metrics_def on_times_def s2 s3 f1 t3)
  show ids: "ndNodeIDs (demo_claim_state n) = [0, 1, 2, 3]" and cfg: "ndCfg (demo_claim_state n) = demo_boot_config"
    unfolding st by (simp_all add: finishShareGeneration_def Let_def refreshMetricsLocked_def on_metrics_def on_times_def s2 s3 f1)
  have ret: "retainedSharesLocked (demo_claim_state n) = [demo_share_of 0, demo_share_of 1]"
    by (simp add: retainedSharesLocked_def ids f int64_of_def one_share_def)
  have thr: "cfThreshold demo_boot_config = 2" by (simp add: demo_boot_config_def demo_config_def)
  show "\<exists>a n'. claimCombine (demo_claim_state n) = (Some a, n')"
    by (simp add: claimCombine_def f ret cfg thr hasThresholdPerSubBatch_def demo_plan_def demo_share_of_def)
qed


end
