(* ===== verification/Stream_Writer.thy ===== *)
theory Stream_Writer
  imports Envelope
begin

text \<open>
  The writer of a persistent stream (\<^verbatim>\<open>bloc-node/internal/app/transport_libp2p_persistent.go\<close>, with
  \<^verbatim>\<open>writeAll\<close> of \<^verbatim>\<open>transport_libp2p.go\<close> and \<^verbatim>\<open>transport.go\<close>). One goroutine per peer (\<^verbatim>\<open>run\<close>) owns the
  stream and serves two buffered channels; any number of goroutines call \<^verbatim>\<open>send\<close> and \<^verbatim>\<open>prewarmStream\<close>;
  closing the channel \<^verbatim>\<open>stop\<close> ends it all.

  The state \<open>peerStreamWriter\<close> holds the channels, the local variable \<open>stream\<close> of \<^verbatim>\<open>run\<close>, every stream
  that was ever opened with the bytes that went out on it, the calls in progress, and the replies
  put into the result channels. A \<^verbatim>\<open>select\<close> is an explicit choice: \<open>selection\<close> for the callers,
  \<open>run_choice\<close> for the loop, and a choice that is not ready gives \<^term>\<open>None\<close>. What contexts, clocks and
  libp2p streams answer during one turn of the loop is the argument \<open>write_io\<close>. One turn of the loop
  is one step: it shares with the callers only the channels, which it reads at its start
  and into which it puts one reply. \<open>pwLog\<close> is a history variable: which call was
  acknowledged on which stream.
\<close>

section \<open>Types\<close>

record transportSendResult =
  tsEncodedBytes :: nat
  tsEncodeDuration :: time
  tsQueueWaitDuration :: time
  tsStreamOpenDuration :: time
  tsWriteDuration :: time
  tsFinalizeDuration :: time
  tsStreamReused :: bool

definition zeroSendResult :: transportSendResult where
  "zeroSendResult = \<lparr>tsEncodedBytes = 0, tsEncodeDuration = 0, tsQueueWaitDuration = 0, tsStreamOpenDuration = 0,
     tsWriteDuration = 0, tsFinalizeDuration = 0, tsStreamReused = False\<rparr>"

datatype ctx_error = ContextCanceled | DeadlineExceeded

datatype send_error =
    SendWire wire_error
  | SendCtx ctx_error
  | SendIO string
  | ShortWrite
  | NilStream
  | NoDeadline
  | NoNegotiation
  | WriterClosed
  | WriterMissing nat
  | TransportNotStarted

definition persistentQueueCapacity :: nat where
  "persistentQueueCapacity = 1"

record persistentSendRequest =
  rqCall :: nat
  rqPayload :: bytes
  rqEnqueuedAt :: time

record persistentSendCompletion =
  scResult :: transportSendResult
  scErr :: "send_error option"

record outStream =
  osWritten :: bytes
  osReset :: bool

datatype send_phase = Offering | Waiting | Returned persistentSendCompletion

datatype prewarm_phase = PwOffering | PwWaiting | PwReturned "send_error option"

record send_call =
  slPayload :: bytes
  slEnqueuedAt :: time
  slPhase :: send_phase

record peerStreamWriter =
  pwOperatorID :: nat
  pwQueue :: "persistentSendRequest list"
  pwPrewarm :: "nat list"
  pwStop :: bool
  pwReady :: bool
  pwDone :: bool
  pwStream :: "nat option"
  pwStreams :: "outStream list"
  pwReplies :: "(nat \<times> persistentSendCompletion) list"
  pwPrewarmReplies :: "(nat \<times> send_error option) list"
  pwCalls :: "send_call list"
  pwPrewarmCalls :: "prewarm_phase list"
  pwLog :: "(nat \<times> nat) list"

definition newPeerStreamWriter :: "nat \<Rightarrow> peerStreamWriter" where
  "newPeerStreamWriter operatorID =
     \<lparr>pwOperatorID = operatorID, pwQueue = [], pwPrewarm = [], pwStop = False, pwReady = False, pwDone = False,
      pwStream = None, pwStreams = [], pwReplies = [], pwPrewarmReplies = [], pwCalls = [], pwPrewarmCalls = [], pwLog = []\<rparr>"

text \<open>
  The answers of the environment in one turn of the loop: clock readings in their order, the two looks
  at the context of the request, its deadline, the opener (an error, a nil stream or a stream),
  the deadline and the writes of the stream, the read side of a stream that is being prewarmed
  (absent when the stream has no read side), and whether \<^verbatim>\<open>stop\<close> is closed in the meantime.
\<close>

record write_io =
  ioNow :: "nat \<Rightarrow> time"
  ioCtxErr :: "nat \<Rightarrow> ctx_error option"
  ioDeadline :: "time option"
  ioOpen :: "send_error + bool"
  ioSetDeadline :: "string option"
  ioWrite :: "nat \<Rightarrow> bytes \<Rightarrow> nat \<times> string option"
  ioNegotiate :: "(string option \<times> string option \<times> string option) option"
  ioStops :: bool

section \<open>Writing\<close>

text \<open>
  \<^verbatim>\<open>writeAll\<close>: the bytes that went out, the number of the next write and the error. A writer reports how many bytes
  it took, also when it fails; taking none without an error is a short write.
\<close>

function writeAll :: "(nat \<Rightarrow> bytes \<Rightarrow> nat \<times> string option) \<Rightarrow> nat \<Rightarrow> bytes \<Rightarrow> bytes \<times> nat \<times> send_error option" where
  "writeAll wr k data =
     (if data = [] then ([], k, None)
      else case wr k data of
        (n, Some e) \<Rightarrow> (take n data, Suc k, Some (SendIO e))
      | (n, None) \<Rightarrow>
          if n = 0 then ([], Suc k, Some ShortWrite)
          else case writeAll wr (Suc k) (drop n data) of
            (out, k', err) \<Rightarrow> (take n data @ out, k', err))"
  by pat_completeness auto

termination writeAll
  by (relation "measure (\<lambda>(wr, k, data). length data)") auto

declare writeAll.simps [simp del]

definition writeEnvelopeFrameTo :: "(nat \<Rightarrow> bytes \<Rightarrow> nat \<times> string option) \<Rightarrow> bytes \<Rightarrow> bytes \<times> send_error option" where
  "writeEnvelopeFrameTo wr payload =
     (if payload = [] then ([], Some (SendWire FrameZeroLength))
      else case writeAll wr 0 (PutUvarint (length payload)) of
        (out, k, Some e) \<Rightarrow> (out, Some e)
      | (out, k, None) \<Rightarrow> (case writeAll wr k payload of (out', _, err) \<Rightarrow> (out @ out', err)))"

section \<open>The loop of the writer\<close>

definition completion :: "transportSendResult \<Rightarrow> send_error option \<Rightarrow> persistentSendCompletion" where
  "completion r e = \<lparr>scResult = r, scErr = e\<rparr>"

definition replySend :: "nat \<Rightarrow> transportSendResult \<Rightarrow> send_error option \<Rightarrow> peerStreamWriter \<Rightarrow> peerStreamWriter" where
  "replySend c r e w = w\<lparr>pwReplies := pwReplies w @ [(c, completion r e)]\<rparr>"

definition replyPrewarm :: "nat \<Rightarrow> send_error option \<Rightarrow> peerStreamWriter \<Rightarrow> peerStreamWriter" where
  "replyPrewarm c e w = w\<lparr>pwPrewarmReplies := pwPrewarmReplies w @ [(c, e)]\<rparr>"

definition openedStream :: "peerStreamWriter \<Rightarrow> nat \<times> peerStreamWriter" where
  "openedStream w = (length (pwStreams w), w\<lparr>pwStreams := pwStreams w @ [\<lparr>osWritten = [], osReset = False\<rparr>]\<rparr>)"

definition Reset :: "nat \<Rightarrow> peerStreamWriter \<Rightarrow> peerStreamWriter" where
  "Reset s w = w\<lparr>pwStreams := (pwStreams w)[s := (pwStreams w ! s)\<lparr>osReset := True\<rparr>]\<rparr>"

definition resetStream :: "nat option \<Rightarrow> peerStreamWriter \<Rightarrow> peerStreamWriter" where
  "resetStream stream w = (case stream of None \<Rightarrow> w | Some s \<Rightarrow> Reset s w)\<lparr>pwReady := False\<rparr>"

definition stopStream :: "nat option \<Rightarrow> peerStreamWriter \<Rightarrow> peerStreamWriter" where
  "stopStream stream w = resetStream stream w"

text \<open>The look at \<^verbatim>\<open>stop\<close>, which another goroutine may just have closed.\<close>

definition closeIf :: "bool \<Rightarrow> peerStreamWriter \<Rightarrow> peerStreamWriter" where
  "closeIf b w = (if b then w\<lparr>pwStop := True\<rparr> else w)"

definition persistentWriterStopped :: "write_io \<Rightarrow> peerStreamWriter \<Rightarrow> bool \<times> peerStreamWriter" where
  "persistentWriterStopped io w = (pwStop w \<or> ioStops io, closeIf (ioStops io) w)"

text \<open>The frame goes out on stream \<open>s\<close>, whole or in part.\<close>

definition transmit :: "nat \<Rightarrow> bytes \<Rightarrow> peerStreamWriter \<Rightarrow> peerStreamWriter" where
  "transmit s out w =
     w\<lparr>pwStreams := (pwStreams w)[s := (pwStreams w ! s)\<lparr>osWritten := osWritten (pwStreams w ! s) @ out\<rparr>]\<rparr>"

definition failOn :: "nat \<Rightarrow> nat \<Rightarrow> transportSendResult \<Rightarrow> send_error \<Rightarrow> peerStreamWriter \<Rightarrow> nat option \<times> peerStreamWriter" where
  "failOn s c result e w = (None, replySend c result (Some e) (resetStream (Some s) w))"

definition writeOnStream ::
  "write_io \<Rightarrow> nat \<Rightarrow> transportSendResult \<Rightarrow> persistentSendRequest \<Rightarrow> peerStreamWriter \<Rightarrow> nat option \<times> peerStreamWriter" where
  "writeOnStream io s result request w =
     (let c = rqCall request in
      case ioCtxErr io 1 of
        Some e \<Rightarrow> failOn s c result (SendCtx e) w
      | None \<Rightarrow>
        if ioDeadline io = None then failOn s c result NoDeadline w
        else case ioSetDeadline io of
          Some e \<Rightarrow> failOn s c result (SendIO e) w
        | None \<Rightarrow>
          let (out, err) = writeEnvelopeFrameTo (ioWrite io) (rqPayload request);
              w1 = transmit s out w;
              result1 = result\<lparr>tsWriteDuration := ioNow io 4 - ioNow io 3\<rparr>
          in case err of
               Some e \<Rightarrow> failOn s c result1 e w1
             | None \<Rightarrow>
                 let (stopped, w2) = persistentWriterStopped io w1 in
                 if stopped then failOn s c result1 WriterClosed w2
                 else (Some s, replySend c (result1\<lparr>tsEncodedBytes := length (rqPayload request)\<rparr>) None
                        (w2\<lparr>pwLog := pwLog w2 @ [(c, s)]\<rparr>)))"

definition writeRequest ::
  "write_io \<Rightarrow> nat option \<Rightarrow> persistentSendRequest \<Rightarrow> peerStreamWriter \<Rightarrow> nat option \<times> peerStreamWriter" where
  "writeRequest io stream request w =
     (let c = rqCall request; result = zeroSendResult\<lparr>tsQueueWaitDuration := ioNow io 0 - rqEnqueuedAt request\<rparr> in
      case ioCtxErr io 0 of
        Some e \<Rightarrow> (stream, replySend c result (Some (SendCtx e)) w)
      | None \<Rightarrow>
        (case stream of
           Some s \<Rightarrow> writeOnStream io s (result\<lparr>tsStreamReused := True\<rparr>) request w
         | None \<Rightarrow>
             let result1 = result\<lparr>tsStreamOpenDuration := ioNow io 2 - ioNow io 1\<rparr> in
             (case ioOpen io of
                Inl e \<Rightarrow> (None, replySend c result1 (Some e) w)
              | Inr False \<Rightarrow> (None, replySend c result1 (Some NilStream) w)
              | Inr True \<Rightarrow>
                  let (s, w1) = openedStream w in writeOnStream io s result1 request (w1\<lparr>pwReady := True\<rparr>))))"

definition completePersistentProtocolNegotiation :: "write_io \<Rightarrow> send_error option" where
  "completePersistentProtocolNegotiation io =
     (case ioNegotiate io of
        None \<Rightarrow> Some NoNegotiation
      | Some (setDeadline, read, clearDeadline) \<Rightarrow>
          if ioDeadline io = None then Some NoDeadline
          else case setDeadline of
            Some e \<Rightarrow> Some (SendIO e)
          | None \<Rightarrow>
              (case read of
                 Some e \<Rightarrow> Some (SendIO e)
               | None \<Rightarrow> (case clearDeadline of Some e \<Rightarrow> Some (SendIO e) | None \<Rightarrow> None)))"

definition openPrewarmedStream :: "write_io \<Rightarrow> nat option \<Rightarrow> nat \<Rightarrow> peerStreamWriter \<Rightarrow> nat option \<times> peerStreamWriter" where
  "openPrewarmedStream io stream c w =
     (case ioCtxErr io 0 of
        Some e \<Rightarrow> (stream, replyPrewarm c (Some (SendCtx e)) w)
      | None \<Rightarrow>
        if stream \<noteq> None then (stream, replyPrewarm c None w)
        else case ioOpen io of
          Inl e \<Rightarrow> (None, replyPrewarm c (Some e) w)
        | Inr False \<Rightarrow> (None, replyPrewarm c (Some NilStream) w)
        | Inr True \<Rightarrow>
            let (s, w1) = openedStream w; (stopped, w2) = persistentWriterStopped io w1 in
            if stopped then (None, replyPrewarm c (Some WriterClosed) (Reset s w2))
            else (case completePersistentProtocolNegotiation io of
                Some e \<Rightarrow> (None, replyPrewarm c (Some e) (Reset s w2))
              | None \<Rightarrow> (Some s, replyPrewarm c None (w2\<lparr>pwReady := True\<rparr>))))"

definition failQueued :: "peerStreamWriter \<Rightarrow> peerStreamWriter" where
  "failQueued w =
     w\<lparr>pwReplies := pwReplies w @ map (\<lambda>q. (rqCall q, completion zeroSendResult (Some WriterClosed))) (pwQueue w),
       pwQueue := [],
       pwPrewarmReplies := pwPrewarmReplies w @ map (\<lambda>c. (c, Some WriterClosed)) (pwPrewarm w),
       pwPrewarm := []\<rparr>"

datatype run_choice = RunStop | RunQueue | RunPrewarm

definition finishRun :: "peerStreamWriter \<Rightarrow> peerStreamWriter" where
  "finishRun w = (failQueued (stopStream (pwStream w) w))\<lparr>pwStream := None, pwDone := True\<rparr>"

definition keepStream :: "nat option \<times> peerStreamWriter \<Rightarrow> peerStreamWriter" where
  "keepStream x = (snd x)\<lparr>pwStream := fst x\<rparr>"

fun run :: "run_choice \<Rightarrow> write_io \<Rightarrow> peerStreamWriter \<Rightarrow> peerStreamWriter option" where
  "run RunStop io w = (if \<not> pwDone w \<and> pwStop w then Some (finishRun w) else None)"
| "run RunQueue io w =
     (if pwDone w then None
      else case pwQueue w of
        [] \<Rightarrow> None
      | request # rest \<Rightarrow>
          let w1 = w\<lparr>pwQueue := rest\<rparr> in
          if pwStop w1 then Some (finishRun (replySend (rqCall request) zeroSendResult (Some WriterClosed) w1))
          else Some (keepStream (writeRequest io (pwStream w1) request w1)))"
| "run RunPrewarm io w =
     (if pwDone w then None
      else case pwPrewarm w of
        [] \<Rightarrow> None
      | c # rest \<Rightarrow>
          let w1 = w\<lparr>pwPrewarm := rest\<rparr> in
          if pwStop w1 then Some (finishRun (replyPrewarm c (Some WriterClosed) w1))
          else Some (keepStream (openPrewarmedStream io (pwStream w1) c w1)))"

section \<open>The callers\<close>

datatype selection = SelChan | SelCtx ctx_error time | SelStop

text \<open>\<^verbatim>\<open>send\<close>: the call, its first \<^verbatim>\<open>select\<close> (enqueue) and its second (await the result).\<close>

definition sendCall :: "bytes \<Rightarrow> time \<Rightarrow> peerStreamWriter \<Rightarrow> peerStreamWriter" where
  "sendCall payload now w =
     w\<lparr>pwCalls := pwCalls w @ [\<lparr>slPayload = payload, slEnqueuedAt = now,
        slPhase = (if payload = [] then Returned (completion zeroSendResult (Some (SendWire FrameZeroLength))) else Offering)\<rparr>]\<rparr>"

definition setPhase :: "nat \<Rightarrow> send_phase \<Rightarrow> peerStreamWriter \<Rightarrow> peerStreamWriter" where
  "setPhase c p w = w\<lparr>pwCalls := (pwCalls w)[c := (pwCalls w ! c)\<lparr>slPhase := p\<rparr>]\<rparr>"

definition sendEnqueue :: "nat \<Rightarrow> selection \<Rightarrow> peerStreamWriter \<Rightarrow> peerStreamWriter option" where
  "sendEnqueue c sel w =
     (if length (pwCalls w) \<le> c \<or> slPhase (pwCalls w ! c) \<noteq> Offering then None
      else let call = pwCalls w ! c in
        case sel of
          SelChan \<Rightarrow>
            if persistentQueueCapacity \<le> length (pwQueue w) then None
            else Some (setPhase c Waiting
              (w\<lparr>pwQueue := pwQueue w @ [\<lparr>rqCall = c, rqPayload = slPayload call, rqEnqueuedAt = slEnqueuedAt call\<rparr>]\<rparr>))
        | SelCtx e now \<Rightarrow>
            Some (setPhase c (Returned (completion (zeroSendResult\<lparr>tsQueueWaitDuration := now - slEnqueuedAt call\<rparr>) (Some (SendCtx e)))) w)
        | SelStop \<Rightarrow>
            if pwStop w then Some (setPhase c (Returned (completion zeroSendResult (Some WriterClosed))) w) else None)"

definition sendAwait :: "nat \<Rightarrow> selection \<Rightarrow> peerStreamWriter \<Rightarrow> peerStreamWriter option" where
  "sendAwait c sel w =
     (if length (pwCalls w) \<le> c \<or> slPhase (pwCalls w ! c) \<noteq> Waiting then None
      else case sel of
        SelChan \<Rightarrow> (case map_of (pwReplies w) c of None \<Rightarrow> None | Some r \<Rightarrow> Some (setPhase c (Returned r) w))
      | SelCtx e now \<Rightarrow> Some (setPhase c (Returned (completion zeroSendResult (Some (SendCtx e)))) w)
      | SelStop \<Rightarrow>
          if pwStop w then Some (setPhase c (Returned (completion zeroSendResult (Some WriterClosed))) w) else None)"

definition prewarmCall :: "peerStreamWriter \<Rightarrow> peerStreamWriter" where
  "prewarmCall w = w\<lparr>pwPrewarmCalls := pwPrewarmCalls w @ [PwOffering]\<rparr>"

definition setPrewarm :: "nat \<Rightarrow> prewarm_phase \<Rightarrow> peerStreamWriter \<Rightarrow> peerStreamWriter" where
  "setPrewarm c p w = w\<lparr>pwPrewarmCalls := (pwPrewarmCalls w)[c := p]\<rparr>"

definition prewarmEnqueue :: "nat \<Rightarrow> selection \<Rightarrow> peerStreamWriter \<Rightarrow> peerStreamWriter option" where
  "prewarmEnqueue c sel w =
     (if length (pwPrewarmCalls w) \<le> c \<or> pwPrewarmCalls w ! c \<noteq> PwOffering then None
      else case sel of
        SelChan \<Rightarrow>
          if 1 \<le> length (pwPrewarm w) then None else Some (setPrewarm c PwWaiting (w\<lparr>pwPrewarm := pwPrewarm w @ [c]\<rparr>))
      | SelCtx e now \<Rightarrow> Some (setPrewarm c (PwReturned (Some (SendCtx e))) w)
      | SelStop \<Rightarrow> if pwStop w then Some (setPrewarm c (PwReturned (Some WriterClosed)) w) else None)"

definition prewarmAwait :: "nat \<Rightarrow> selection \<Rightarrow> peerStreamWriter \<Rightarrow> peerStreamWriter option" where
  "prewarmAwait c sel w =
     (if length (pwPrewarmCalls w) \<le> c \<or> pwPrewarmCalls w ! c \<noteq> PwWaiting then None
      else case sel of
        SelChan \<Rightarrow> (case map_of (pwPrewarmReplies w) c of None \<Rightarrow> None | Some e \<Rightarrow> Some (setPrewarm c (PwReturned e) w))
      | SelCtx e now \<Rightarrow> Some (setPrewarm c (PwReturned (Some (SendCtx e))) w)
      | SelStop \<Rightarrow> if pwStop w then Some (setPrewarm c (PwReturned (Some WriterClosed)) w) else None)"

text \<open>One step of the system, and the executions.\<close>

datatype writer_event =
    CallSend bytes time
  | Enqueue nat selection
  | Await nat selection
  | CallPrewarm
  | EnqueuePrewarm nat selection
  | AwaitPrewarm nat selection
  | Run run_choice write_io
  | CloseStop

fun writer_step :: "writer_event \<Rightarrow> peerStreamWriter \<Rightarrow> peerStreamWriter option" where
  "writer_step (CallSend payload now) w = Some (sendCall payload now w)"
| "writer_step (Enqueue c sel) w = sendEnqueue c sel w"
| "writer_step (Await c sel) w = sendAwait c sel w"
| "writer_step CallPrewarm w = Some (prewarmCall w)"
| "writer_step (EnqueuePrewarm c sel) w = prewarmEnqueue c sel w"
| "writer_step (AwaitPrewarm c sel) w = prewarmAwait c sel w"
| "writer_step (Run ch io) w = run ch io w"
| "writer_step CloseStop w = Some (w\<lparr>pwStop := True\<rparr>)"

fun writer_run :: "writer_event list \<Rightarrow> peerStreamWriter \<Rightarrow> peerStreamWriter option" where
  "writer_run [] w = Some w"
| "writer_run (e # es) w = Option.bind (writer_step e w) (writer_run es)"

section \<open>What a write puts on the stream\<close>

abbreviation frame :: "bytes \<Rightarrow> bytes" where
  "frame payload \<equiv> PutUvarint (length payload) @ payload"

lemma writeAll_prefix:
  "writeAll wr k data = (out, k', err) \<Longrightarrow> prefix out data \<and> (err = None \<longrightarrow> out = data)"
proof (induction wr k data arbitrary: out k' err rule: writeAll.induct)
  case (1 wr k data)
  show ?case
  proof (cases "data = [] \<or> (\<exists>e. snd (wr k data) = Some e) \<or> fst (wr k data) = 0")
    case True
    then show ?thesis using "1.prems" by (auto simp: writeAll.simps [of wr k data] take_is_prefix split: prod.splits option.splits if_splits)
  next
    case False
    then obtain n where n: "wr k data = (n, None)" "n \<noteq> 0" "data \<noteq> []" by (cases "wr k data") auto
    obtain o1 k1 e1 where r: "writeAll wr (Suc k) (drop n data) = (o1, k1, e1)" by (cases "writeAll wr (Suc k) (drop n data)") auto
    have "prefix o1 (drop n data) \<and> (e1 = None \<longrightarrow> o1 = drop n data)"
      by (rule "1.IH" [OF n(3) n(1) [symmetric] refl n(2) r])
    moreover have "out = take n data @ o1" "err = e1" using "1.prems" n r by (auto simp: writeAll.simps [of wr k data])
    ultimately show ?thesis by (metis append_take_drop_id same_prefix_prefix)
  qed
qed

lemma writeFrame_prefix:
  assumes "writeEnvelopeFrameTo wr payload = (out, err)"
  shows "prefix out (frame payload)" and "err = None \<Longrightarrow> out = frame payload \<and> payload \<noteq> []"
proof -
  obtain o1 k1 e1 where h: "writeAll wr 0 (PutUvarint (length payload)) = (o1, k1, e1)" by (metis prod_cases3)
  obtain o2 k2 e2 where b: "writeAll wr k1 payload = (o2, k2, e2)" by (metis prod_cases3)
  note p = writeAll_prefix [OF h] writeAll_prefix [OF b]
  show "prefix out (frame payload)"
    using assms p by (auto simp: writeEnvelopeFrameTo_def h b split: if_splits option.splits)
  show "err = None \<Longrightarrow> out = frame payload \<and> payload \<noteq> []"
    using assms p by (auto simp: writeEnvelopeFrameTo_def h b split: if_splits option.splits)
qed

section \<open>One turn of the loop\<close>

text \<open>The stream a request is written to: the one \<^verbatim>\<open>run\<close> holds, or one that was just opened.\<close>

definition attached :: "nat option \<Rightarrow> peerStreamWriter \<Rightarrow> nat \<Rightarrow> peerStreamWriter \<Rightarrow> bool" where
  "attached stream w s w1 =
     (case stream of
        Some s0 \<Rightarrow> s = s0 \<and> w1 = w
      | None \<Rightarrow> s = length (pwStreams w) \<and> w1 = w\<lparr>pwStreams := pwStreams w @ [\<lparr>osWritten = [], osReset = False\<rparr>], pwReady := True\<rparr>)"

lemma transmit_nothing: "transmit s [] w = w"
  by (simp add: transmit_def)

lemma writeOnStream_cases:
  obtains (broken) out r e b where "prefix out (frame (rqPayload q))"
      "writeOnStream io s result q w = (None, replySend (rqCall q) r (Some e) (resetStream (Some s) (transmit s out (closeIf b w))))"
  | (sent) r where "tsEncodedBytes r = length (rqPayload q)" "rqPayload q \<noteq> []"
      "writeOnStream io s result q w = (Some s, replySend (rqCall q) r None
         ((transmit s (frame (rqPayload q)) w)\<lparr>pwLog := pwLog w @ [(rqCall q, s)]\<rparr>))"
proof -
  let ?c = "rqCall q" and ?r = "result\<lparr>tsWriteDuration := ioNow io 4 - ioNow io 3\<rparr>"
  obtain out err where f: "writeEnvelopeFrameTo (ioWrite io) (rqPayload q) = (out, err)" by (metis surj_pair)
  note p = writeFrame_prefix [OF f]
  note unfold = writeOnStream_def Let_def f persistentWriterStopped_def failOn_def
  have comm: "closeIf b (transmit s out w) = transmit s out (closeIf b w)" for b by (simp add: closeIf_def transmit_def)
  show thesis
  proof (cases "ioCtxErr io 1 \<noteq> None \<or> ioDeadline io = None \<or> ioSetDeadline io \<noteq> None")
    case True
    then have "\<exists>e. writeOnStream io s result q w = failOn s ?c result e w" by (auto simp: unfold split: option.splits)
    then show ?thesis using broken [of "[]" result _ False] by (auto simp: failOn_def transmit_nothing closeIf_def)
  next
    case go: False
    show ?thesis
    proof (cases err)
      case (Some e)
      with go show ?thesis by (intro broken [OF p(1), of ?r e False]) (auto simp: unfold closeIf_def)
    next
      case None
      show ?thesis
      proof (cases "pwStop w \<or> ioStops io")
        case True
        have "pwStop (transmit s out w) = pwStop w" by (simp add: transmit_def)
        with go None True show ?thesis by (intro broken [OF p(1), of ?r WriterClosed "ioStops io"]) (auto simp: unfold comm)
      next
        case False
        with go None p(2) show ?thesis
          by (intro sent [of "?r\<lparr>tsEncodedBytes := length (rqPayload q)\<rparr>"]) (auto simp: unfold closeIf_def transmit_def)
      qed
    qed
  qed
qed

lemma writeRequest_cases:
  obtains (refused) r e where "writeRequest io stream q w = (stream, replySend (rqCall q) r (Some e) w)"
  | (broken) s w1 out r e b where "attached stream w s w1" "prefix out (frame (rqPayload q))"
      "writeRequest io stream q w = (None, replySend (rqCall q) r (Some e) (resetStream (Some s) (transmit s out (closeIf b w1))))"
  | (sent) s w1 r where "attached stream w s w1" "tsEncodedBytes r = length (rqPayload q)" "rqPayload q \<noteq> []"
      "writeRequest io stream q w = (Some s, replySend (rqCall q) r None
         ((transmit s (frame (rqPayload q)) w1)\<lparr>pwLog := pwLog w1 @ [(rqCall q, s)]\<rparr>))"
proof -
  have on: thesis if "attached stream w s w1" "writeRequest io stream q w = writeOnStream io s result q w1" for s w1 result
    by (rule writeOnStream_cases [of q io s result w1]) (auto simp: that(2) intro: that(1) broken sent)
  show thesis
  proof (cases "ioCtxErr io 0")
    case (Some e)
    then show ?thesis by (intro refused) (simp add: writeRequest_def)
  next
    case None
    then show ?thesis
    proof (cases stream)
      case (Some s)
      with None show ?thesis by (intro on [of s w]) (auto simp: writeRequest_def attached_def)
    next
      case no: None
      then show ?thesis
      proof (cases "ioOpen io = Inr True")
        case True
        then show ?thesis using None no
          by (intro on [of "length (pwStreams w)"]) (auto simp: writeRequest_def attached_def openedStream_def)
      next
        case False
        then show ?thesis using None no
          by (cases "ioOpen io") (auto simp: writeRequest_def Let_def intro: refused)
      qed
    qed
  qed
qed

lemma openPrewarmed_cases:
  obtains (kept) e where "openPrewarmedStream io stream c w = (stream, replyPrewarm c e w)"
  | (opened) s w1 where "stream = None" "attached stream w s w1" "openPrewarmedStream io stream c w = (Some s, replyPrewarm c None w1)"
  | (dropped) e b where "stream = None" "openPrewarmedStream io stream c w =
       (None, replyPrewarm c e (closeIf b (w\<lparr>pwStreams := pwStreams w @ [\<lparr>osWritten = [], osReset = True\<rparr>]\<rparr>)))"
proof (cases "ioCtxErr io 0 = None \<and> stream = None \<and> ioOpen io = Inr True")
  case False
  then show thesis
    by (cases "ioCtxErr io 0"; cases stream; cases "ioOpen io") (auto simp: openPrewarmedStream_def intro: kept)
next
  case True
  let ?w = "w\<lparr>pwStreams := pwStreams w @ [\<lparr>osWritten = [], osReset = True\<rparr>]\<rparr>"
  have r: "Reset (length (pwStreams w)) (closeIf b (w\<lparr>pwStreams := pwStreams w @ [\<lparr>osWritten = [], osReset = False\<rparr>]\<rparr>)) = closeIf b ?w" for b
    by (simp add: Reset_def closeIf_def)
  note unfold = openPrewarmedStream_def openedStream_def persistentWriterStopped_def Let_def r
  show thesis
  proof (cases "pwStop w \<or> ioStops io")
    case False
    show ?thesis
    proof (cases "completePersistentProtocolNegotiation io")
      case None
      with True False show ?thesis
        by (intro opened [of "length (pwStreams w)"]) (auto simp: unfold attached_def closeIf_def)
    next
      case (Some e)
      with True False show ?thesis by (intro dropped [of "Some e" "ioStops io"]) (simp_all add: unfold)
    qed
  next
    case stopped: True
    with True show ?thesis by (intro dropped [of "Some WriterClosed" "ioStops io"]) (auto simp: unfold)
  qed
qed

end
