(* ===== verification/Stream_Safety.thy ===== *)
theory Stream_Safety
  imports Stream_Writer
begin

text \<open>
  What the writer of a persistent stream guarantees, in every execution of its loop with any number of
  callers and any answers of the environment: the replies, the streams and the bytes on them. The
  invariants are predicates on the fields they concern, so that a step that leaves those fields
  alone keeps them by simplification.
\<close>

section \<open>The calls\<close>

definition phase_ok :: "persistentSendRequest list \<Rightarrow> (nat \<times> persistentSendCompletion) list \<Rightarrow> nat \<Rightarrow> send_call \<Rightarrow> bool" where
  "phase_ok qs reps c call =
     (case slPhase call of
        Offering \<Rightarrow> slPayload call \<noteq> [] \<and> c \<notin> rqCall ` set qs \<and> c \<notin> fst ` set reps
      | Waiting \<Rightarrow> c \<in> rqCall ` set qs \<or> c \<in> fst ` set reps
      | Returned r \<Rightarrow> scErr r = None \<longrightarrow> (c, r) \<in> set reps)"

definition calls_ok :: "persistentSendRequest list \<Rightarrow> (nat \<times> persistentSendCompletion) list \<Rightarrow> send_call list \<Rightarrow> bool" where
  "calls_ok qs reps calls \<longleftrightarrow>
     length qs \<le> 1 \<and> distinct (map fst reps) \<and>
     (\<forall>q \<in> set qs. rqCall q < length calls \<and> rqCall q \<notin> fst ` set reps \<and>
        rqPayload q = slPayload (calls ! rqCall q) \<and> rqPayload q \<noteq> []) \<and>
     (\<forall>x \<in> set reps. fst x < length calls \<and> slPayload (calls ! fst x) \<noteq> []) \<and>
     (\<forall>c < length calls. phase_ok qs reps c (calls ! c))"

lemma calls_ok_empty: "calls_ok [] [] []"
  by (simp add: calls_ok_def)

lemma calls_ok_call:
  assumes "calls_ok qs reps calls" and "phase_ok [] [] (length calls) call"
  shows "calls_ok qs reps (calls @ [call])"
proof -
  have "length calls \<notin> rqCall ` set qs" "length calls \<notin> fst ` set reps" using assms(1) by (auto simp: calls_ok_def)
  then have "phase_ok qs reps (length calls) call"
    using assms(2) by (auto simp: phase_ok_def split: send_phase.splits)
  then show ?thesis using assms(1) by (auto simp: calls_ok_def nth_append less_Suc_eq)
qed

lemma calls_ok_enqueue:
  assumes "calls_ok [] reps calls" and "c < length calls" and "slPhase (calls ! c) = Offering"
    and "rqCall q = c" and "rqPayload q = slPayload (calls ! c)"
  shows "calls_ok [q] reps (calls[c := (calls ! c)\<lparr>slPhase := Waiting\<rparr>])"
proof -
  have "phase_ok [] reps c (calls ! c)" using assms(1,2) by (simp add: calls_ok_def)
  then have p: "slPayload (calls ! c) \<noteq> []" "c \<notin> fst ` set reps" using assms(3) by (simp_all add: phase_ok_def)
  have "phase_ok [q] reps d (calls[c := (calls ! c)\<lparr>slPhase := Waiting\<rparr>] ! d)" if "d < length calls" for d
    using assms(1) that assms(2,4) by (auto simp: calls_ok_def phase_ok_def nth_list_update split: send_phase.splits)
  then show ?thesis using assms p by (auto simp: calls_ok_def nth_list_update)
qed

lemma calls_ok_return:
  assumes "calls_ok qs reps calls" and "c < length calls" and "scErr r = None \<longrightarrow> (c, r) \<in> set reps"
  shows "calls_ok qs reps (calls[c := (calls ! c)\<lparr>slPhase := Returned r\<rparr>])"
proof -
  have "phase_ok qs reps d (calls[c := (calls ! c)\<lparr>slPhase := Returned r\<rparr>] ! d)" if "d < length calls" for d
    using assms that by (auto simp: calls_ok_def phase_ok_def nth_list_update)
  then show ?thesis using assms(1,2) by (auto simp: calls_ok_def nth_list_update)
qed

lemma calls_ok_reply:
  assumes "calls_ok [q] reps calls"
  shows "calls_ok [] (reps @ [(rqCall q, r)]) calls"
  using assms by (auto simp: calls_ok_def phase_ok_def split: send_phase.splits)

lemma calls_ok_reply_all:
  assumes "calls_ok qs reps calls"
  shows "calls_ok [] (reps @ map (\<lambda>q. (rqCall q, r)) qs) calls"
proof (cases qs)
  case Nil
  with assms show ?thesis by simp
next
  case (Cons q rest)
  then have "qs = [q]" using assms by (auto simp: calls_ok_def)
  then show ?thesis using calls_ok_reply [of q reps calls r] assms by simp
qed

text \<open>The same for the requests to open a stream in advance.\<close>

definition prewarm_ok :: "nat list \<Rightarrow> (nat \<times> send_error option) list \<Rightarrow> prewarm_phase list \<Rightarrow> bool" where
  "prewarm_ok ps reps calls \<longleftrightarrow>
     length ps \<le> 1 \<and> distinct (map fst reps) \<and> (\<forall>c \<in> set ps. c < length calls \<and> c \<notin> fst ` set reps) \<and>
     (\<forall>x \<in> set reps. fst x < length calls) \<and>
     (\<forall>c < length calls. case calls ! c of
        PwOffering \<Rightarrow> c \<notin> set ps \<and> c \<notin> fst ` set reps
      | PwWaiting \<Rightarrow> c \<in> set ps \<or> c \<in> fst ` set reps
      | PwReturned e \<Rightarrow> e = None \<longrightarrow> (c, None) \<in> set reps)"

lemma prewarm_ok_empty: "prewarm_ok [] [] []"
  by (simp add: prewarm_ok_def)

lemma prewarm_ok_call: "prewarm_ok ps reps calls \<Longrightarrow> prewarm_ok ps reps (calls @ [PwOffering])"
  by (auto simp: prewarm_ok_def nth_append less_Suc_eq)

lemma prewarm_ok_enqueue:
  "prewarm_ok [] reps calls \<Longrightarrow> c < length calls \<Longrightarrow> calls ! c = PwOffering \<Longrightarrow> prewarm_ok [c] reps (calls[c := PwWaiting])"
  by (auto simp: prewarm_ok_def nth_list_update split: prewarm_phase.splits)

lemma prewarm_ok_return:
  "prewarm_ok ps reps calls \<Longrightarrow> c < length calls \<Longrightarrow> e = None \<longrightarrow> (c, None) \<in> set reps \<Longrightarrow> prewarm_ok ps reps (calls[c := PwReturned e])"
  by (auto simp: prewarm_ok_def nth_list_update)

lemma prewarm_ok_reply: "prewarm_ok [c] reps calls \<Longrightarrow> prewarm_ok [] (reps @ [(c, e)]) calls"
  by (auto simp: prewarm_ok_def split: prewarm_phase.splits)

lemma prewarm_ok_reply_all:
  assumes "prewarm_ok ps reps calls"
  shows "prewarm_ok [] (reps @ map (\<lambda>c. (c, e)) ps) calls"
proof (cases ps)
  case Nil
  with assms show ?thesis by simp
next
  case (Cons c rest)
  then have "ps = [c]" using assms by (auto simp: prewarm_ok_def)
  then show ?thesis using prewarm_ok_reply [of c reps calls e] assms by simp
qed

section \<open>The streams\<close>

definition streams_ok :: "nat option \<Rightarrow> outStream list \<Rightarrow> bool \<Rightarrow> bool" where
  "streams_ok stream streams ready \<longleftrightarrow>
     (\<forall>i < length streams. osReset (streams ! i) \<longleftrightarrow> stream \<noteq> Some i) \<and>
     (\<forall>s. stream = Some s \<longrightarrow> s < length streams) \<and> ready = (stream \<noteq> None)"

text \<open>The calls acknowledged on stream \<open>s\<close>, in the order of their frames.\<close>

definition ackedOn :: "(nat \<times> nat) list \<Rightarrow> nat \<Rightarrow> nat list" where
  "ackedOn log s = map fst (filter (\<lambda>x. snd x = s) log)"

definition log_ok :: "(nat \<times> nat) list \<Rightarrow> (nat \<times> persistentSendCompletion) list \<Rightarrow> send_call list \<Rightarrow> nat \<Rightarrow> bool" where
  "log_ok log reps calls n \<longleftrightarrow>
     distinct (map fst log) \<and>
     (\<forall>x \<in> set log. snd x < n \<and> (\<exists>r. (fst x, r) \<in> set reps \<and> scErr r = None)) \<and>
     (\<forall>x \<in> set reps. scErr (snd x) = None \<longrightarrow>
        fst x \<in> fst ` set log \<and> tsEncodedBytes (scResult (snd x)) = length (slPayload (calls ! fst x)))"

text \<open>
  The bytes of a stream: the frames of the calls acknowledged on it and, once it has been reset, possibly a
  part of the frame of one more call, which was answered with an error.
\<close>

definition bytes_ok :: "outStream \<Rightarrow> nat list \<Rightarrow> (nat \<times> persistentSendCompletion) list \<Rightarrow> send_call list \<Rightarrow> bool" where
  "bytes_ok st cs reps calls \<longleftrightarrow>
     (\<exists>tail. osWritten st = concat (map (\<lambda>c. frame (slPayload (calls ! c))) cs) @ tail \<and>
        (tail \<noteq> [] \<longrightarrow> osReset st \<and>
           (\<exists>c r. (c, r) \<in> set reps \<and> scErr r \<noteq> None \<and> prefix tail (frame (slPayload (calls ! c))))))"

definition writer_inv :: "peerStreamWriter \<Rightarrow> bool" where
  "writer_inv w \<longleftrightarrow>
     calls_ok (pwQueue w) (pwReplies w) (pwCalls w) \<and>
     prewarm_ok (pwPrewarm w) (pwPrewarmReplies w) (pwPrewarmCalls w) \<and>
     streams_ok (pwStream w) (pwStreams w) (pwReady w) \<and>
     log_ok (pwLog w) (pwReplies w) (pwCalls w) (length (pwStreams w)) \<and>
     (\<forall>s < length (pwStreams w). bytes_ok (pwStreams w ! s) (ackedOn (pwLog w) s) (pwReplies w) (pwCalls w)) \<and>
     (pwDone w \<longrightarrow> pwStop w \<and> pwStream w = None)"

text \<open>The payloads of the calls that are answered stay what they are.\<close>

definition same_payloads :: "(nat \<times> persistentSendCompletion) list \<Rightarrow> send_call list \<Rightarrow> send_call list \<Rightarrow> bool" where
  "same_payloads reps calls calls' \<longleftrightarrow> (\<forall>x \<in> set reps. slPayload (calls' ! fst x) = slPayload (calls ! fst x))"

lemma same_payloads_call: "calls_ok qs reps calls \<Longrightarrow> same_payloads reps calls (calls @ [call])"
  by (auto simp: same_payloads_def calls_ok_def nth_append)

lemma same_payloads_phase: "same_payloads reps calls (calls[c := (calls ! c)\<lparr>slPhase := p\<rparr>])"
  by (cases "c < length calls") (auto simp: same_payloads_def nth_list_update list_update_beyond)

lemma log_ok_payloads: "log_ok log reps calls n \<Longrightarrow> same_payloads reps calls calls' \<Longrightarrow> log_ok log reps calls' n"
  by (auto simp: log_ok_def same_payloads_def)

lemma log_ok_acked: "log_ok log reps calls n \<Longrightarrow> c \<in> set (ackedOn log s) \<Longrightarrow> c \<in> fst ` set reps"
  by (force simp: log_ok_def ackedOn_def)

lemma bytes_ok_payloads:
  assumes "bytes_ok st cs reps calls" and "same_payloads reps calls calls'" and "set cs \<subseteq> fst ` set reps"
  shows "bytes_ok st cs reps calls'"
proof -
  have e: "map (\<lambda>c. frame (slPayload (calls' ! c))) cs = map (\<lambda>c. frame (slPayload (calls ! c))) cs"
    using assms(2,3) by (force simp: same_payloads_def)
  have p: "slPayload (calls' ! c) = slPayload (calls ! c)" if "(c, r) \<in> set reps" for c r
    using assms(2) that by (force simp: same_payloads_def)
  obtain tail where t: "osWritten st = concat (map (\<lambda>c. frame (slPayload (calls ! c))) cs) @ tail"
    "tail \<noteq> [] \<Longrightarrow> osReset st \<and> (\<exists>c r. (c, r) \<in> set reps \<and> scErr r \<noteq> None \<and> prefix tail (frame (slPayload (calls ! c))))"
    using assms(1) unfolding bytes_ok_def by blast
  have "tail \<noteq> [] \<Longrightarrow> osReset st \<and> (\<exists>c r. (c, r) \<in> set reps \<and> scErr r \<noteq> None \<and> prefix tail (frame (slPayload (calls' ! c))))"
    using t(2) p by fastforce
  with t(1) show ?thesis unfolding bytes_ok_def e by blast
qed

lemma bytes_ok_replies: "bytes_ok st cs reps calls \<Longrightarrow> bytes_ok st cs (reps @ reps2) calls"
  by (auto simp: bytes_ok_def)

lemma bytes_ok_reset: "bytes_ok st cs reps calls \<Longrightarrow> bytes_ok (st\<lparr>osReset := True\<rparr>) cs reps calls"
  by (auto simp: bytes_ok_def)

lemma bytes_ok_new: "bytes_ok \<lparr>osWritten = [], osReset = b\<rparr> [] reps calls"
  by (simp add: bytes_ok_def)

lemma bytes_ok_sent:
  "bytes_ok st cs reps calls \<Longrightarrow> \<not> osReset st \<Longrightarrow>
   bytes_ok (st\<lparr>osWritten := osWritten st @ frame (slPayload (calls ! c))\<rparr>) (cs @ [c]) reps calls"
  by (auto simp: bytes_ok_def)

lemma bytes_ok_broken:
  assumes "bytes_ok st cs reps calls" and "\<not> osReset st" and "prefix out (frame (slPayload (calls ! c)))"
    and "(c, r) \<in> set reps" and "scErr r \<noteq> None"
  shows "bytes_ok (st\<lparr>osWritten := osWritten st @ out, osReset := True\<rparr>) cs reps calls"
  using assms by (auto simp: bytes_ok_def intro!: exI [of _ out])

section \<open>The steps keep the invariant\<close>

lemma inv_new: "writer_inv (newPeerStreamWriter op)"
  by (simp add: writer_inv_def newPeerStreamWriter_def calls_ok_empty prewarm_ok_empty streams_ok_def log_ok_def)

text \<open>A change of the calls that leaves the payloads of the answered ones alone.\<close>

lemma inv_calls:
  assumes "writer_inv w" and "calls_ok qs (pwReplies w) calls" and "same_payloads (pwReplies w) (pwCalls w) calls"
  shows "writer_inv (w\<lparr>pwQueue := qs, pwCalls := calls\<rparr>)"
proof -
  have l: "log_ok (pwLog w) (pwReplies w) (pwCalls w) (length (pwStreams w))" using assms(1) by (simp add: writer_inv_def)
  have sub: "set (ackedOn (pwLog w) s) \<subseteq> fst ` set (pwReplies w)" for s using log_ok_acked [OF l] by blast
  have "bytes_ok (pwStreams w ! s) (ackedOn (pwLog w) s) (pwReplies w) calls" if "s < length (pwStreams w)" for s
    using assms(1) that by (intro bytes_ok_payloads [OF _ assms(3) sub]) (simp add: writer_inv_def)
  then show ?thesis using assms log_ok_payloads [OF l assms(3)] by (simp add: writer_inv_def)
qed

lemma inv_prewarm:
  "writer_inv w \<Longrightarrow> prewarm_ok ps reps calls \<Longrightarrow>
   writer_inv (w\<lparr>pwPrewarm := ps, pwPrewarmReplies := reps, pwPrewarmCalls := calls\<rparr>)"
  by (simp add: writer_inv_def)

lemma inv_calls_same:
  assumes "writer_inv w" and "calls_ok (pwQueue w) (pwReplies w) calls" and "same_payloads (pwReplies w) (pwCalls w) calls"
  shows "writer_inv (w\<lparr>pwCalls := calls\<rparr>)"
  using inv_calls [OF assms] by simp

lemma inv_setPhase_return:
  assumes "writer_inv w" and "c < length (pwCalls w)" and "scErr r = None \<longrightarrow> (c, r) \<in> set (pwReplies w)"
  shows "writer_inv (setPhase c (Returned r) w)"
proof -
  have "calls_ok (pwQueue w) (pwReplies w) (pwCalls w)" using assms(1) by (simp add: writer_inv_def)
  from calls_ok_return [OF this assms(2,3)] show ?thesis
    unfolding setPhase_def by (intro inv_calls_same [OF assms(1)] same_payloads_phase) simp
qed

lemma inv_sendCall:
  assumes "writer_inv w"
  shows "writer_inv (sendCall payload now w)"
proof -
  have k: "calls_ok (pwQueue w) (pwReplies w) (pwCalls w)" using assms(1) by (simp add: writer_inv_def)
  then show ?thesis unfolding sendCall_def
    by (intro inv_calls_same [OF assms] calls_ok_call [OF k] same_payloads_call [OF k]) (simp add: phase_ok_def completion_def)
qed

lemma inv_sendEnqueue:
  assumes "writer_inv w" and "sendEnqueue c sel w = Some w'"
  shows "writer_inv w'"
proof -
  have k: "calls_ok (pwQueue w) (pwReplies w) (pwCalls w)" using assms(1) by (simp add: writer_inv_def)
  have c: "c < length (pwCalls w)" "slPhase (pwCalls w ! c) = Offering"
    using assms(2) by (auto simp: sendEnqueue_def split: if_splits)
  show ?thesis
  proof (cases sel)
    case SelChan
    let ?q = "\<lparr>rqCall = c, rqPayload = slPayload (pwCalls w ! c), rqEnqueuedAt = slEnqueuedAt (pwCalls w ! c)\<rparr>"
    from SelChan assms(2) c have e: "pwQueue w = []" "w' = w\<lparr>pwQueue := [?q], pwCalls := (pwCalls w)[c := (pwCalls w ! c)\<lparr>slPhase := Waiting\<rparr>]\<rparr>"
      by (auto simp: sendEnqueue_def persistentQueueCapacity_def setPhase_def Suc_le_eq Let_def split: if_splits)
    with k show ?thesis unfolding e(2)
      by (intro inv_calls [OF assms(1)] calls_ok_enqueue same_payloads_phase) (simp_all add: c)
  next
    case (SelCtx e now)
    then show ?thesis using assms c by (auto simp: sendEnqueue_def completion_def intro: inv_setPhase_return)
  next
    case SelStop
    then show ?thesis using assms c by (auto simp: sendEnqueue_def completion_def intro: inv_setPhase_return split: if_splits)
  qed
qed

lemma inv_sendAwait:
  assumes "writer_inv w" and "sendAwait c sel w = Some w'"
  shows "writer_inv w'"
proof -
  have c: "c < length (pwCalls w)" using assms(2) by (auto simp: sendAwait_def split: if_splits)
  then show ?thesis using assms
    by (cases sel) (auto simp: sendAwait_def completion_def dest: map_of_SomeD intro: inv_setPhase_return split: if_splits option.splits)
qed

lemma inv_prewarm_events:
  assumes "writer_inv w"
  shows "writer_inv (prewarmCall w)" and "prewarmEnqueue c sel w = Some w' \<Longrightarrow> writer_inv w'"
    and "prewarmAwait c sel w = Some w' \<Longrightarrow> writer_inv w'"
proof -
  have k: "prewarm_ok (pwPrewarm w) (pwPrewarmReplies w) (pwPrewarmCalls w)" using assms by (simp add: writer_inv_def)
  have step: "writer_inv (w\<lparr>pwPrewarm := ps, pwPrewarmCalls := calls\<rparr>)" "ps = pwPrewarm w \<Longrightarrow> writer_inv (w\<lparr>pwPrewarmCalls := calls\<rparr>)"
    if "prewarm_ok ps (pwPrewarmReplies w) calls" for ps calls
    using inv_prewarm [OF assms that] by simp_all
  show "writer_inv (prewarmCall w)" unfolding prewarmCall_def by (rule step(2) [OF prewarm_ok_call [OF k] refl])
  have ret: "writer_inv (setPrewarm c (PwReturned e) w)"
    if "c < length (pwPrewarmCalls w)" "e = None \<longrightarrow> (c, None) \<in> set (pwPrewarmReplies w)" for e
    unfolding setPrewarm_def by (rule step(2) [OF prewarm_ok_return [OF k that] refl])
  have got: "writer_inv (setPrewarm c (PwReturned e) w)" if "c < length (pwPrewarmCalls w)" "map_of (pwPrewarmReplies w) c = Some e" for e
    using that(2) by (intro ret [OF that(1)]) (auto dest: map_of_SomeD)
  have enq: "writer_inv (setPrewarm c PwWaiting (w\<lparr>pwPrewarm := pwPrewarm w @ [c]\<rparr>))"
    if "c < length (pwPrewarmCalls w)" "pwPrewarmCalls w ! c = PwOffering" "pwPrewarm w = []"
    using step(1) [OF prewarm_ok_enqueue [OF _ that(1,2)]] k that(3) by (simp add: setPrewarm_def)
  show "prewarmEnqueue c sel w = Some w' \<Longrightarrow> writer_inv w'"
    using ret enq by (cases sel) (auto simp: prewarmEnqueue_def Suc_le_eq split: if_splits)
  show "prewarmAwait c sel w = Some w' \<Longrightarrow> writer_inv w'"
    using ret got by (cases sel) (auto simp: prewarmAwait_def split: if_splits option.splits)
qed

text \<open>The loop: a reply with an error, a frame that went out, a stream given up, the end.\<close>

lemma log_ok_error: "log_ok log reps calls n \<Longrightarrow> \<forall>x \<in> set fails. scErr (snd x) \<noteq> None \<Longrightarrow> n \<le> m \<Longrightarrow> log_ok log (reps @ fails) calls m"
  by (fastforce simp: log_ok_def)

lemma log_ok_sent:
  assumes "log_ok log reps calls n" and "c \<notin> fst ` set reps" and "s < n" and "scErr r = None"
    and "tsEncodedBytes (scResult r) = length (slPayload (calls ! c))"
  shows "log_ok (log @ [(c, s)]) (reps @ [(c, r)]) calls n"
proof -
  have "c \<notin> fst ` set log" using assms(1,2) by (force simp: log_ok_def)
  then show ?thesis using assms by (fastforce simp: log_ok_def)
qed

lemma ackedOn_snoc: "ackedOn (log @ [(c, s)]) t = ackedOn log t @ (if t = s then [c] else [])"
  by (simp add: ackedOn_def)

lemma inv_reply_error:
  assumes "writer_inv w" and "pwQueue w = q # rest"
  shows "writer_inv (replySend (rqCall q) r (Some e) (w\<lparr>pwQueue := rest\<rparr>))"
proof -
  have "rest = []" "calls_ok [q] (pwReplies w) (pwCalls w)" using assms by (auto simp: writer_inv_def calls_ok_def)
  moreover have "log_ok (pwLog w) (pwReplies w @ [(rqCall q, completion r (Some e))]) (pwCalls w) (length (pwStreams w))"
    using assms(1) by (intro log_ok_error) (auto simp: writer_inv_def completion_def)
  ultimately show ?thesis
    using assms(1) calls_ok_reply [of q] by (simp add: writer_inv_def replySend_def bytes_ok_replies)
qed

lemma inv_broken:
  assumes inv: "writer_inv w" and q: "pwQueue w = q # rest" and s: "pwStream w = Some s"
    and out: "prefix out (frame (rqPayload q))"
  shows "writer_inv ((replySend (rqCall q) r (Some e) (resetStream (Some s) (transmit s out (closeIf b (w\<lparr>pwQueue := rest\<rparr>)))))\<lparr>pwStream := None\<rparr>)"
proof -
  let ?f = "[(rqCall q, completion r (Some e))]" and ?st = "(pwStreams w ! s)\<lparr>osWritten := osWritten (pwStreams w ! s) @ out, osReset := True\<rparr>"
  have k: "rest = []" "calls_ok [q] (pwReplies w) (pwCalls w)" "rqPayload q = slPayload (pwCalls w ! rqCall q)"
    using inv q by (auto simp: writer_inv_def calls_ok_def)
  have st: "s < length (pwStreams w)" "\<not> osReset (pwStreams w ! s)" "pwDone w = False"
    using inv s by (auto simp: writer_inv_def streams_ok_def)
  have "bytes_ok (pwStreams w ! s) (ackedOn (pwLog w) s) (pwReplies w @ ?f) (pwCalls w)"
    using inv st by (simp add: writer_inv_def bytes_ok_replies)
  from bytes_ok_broken [OF this st(2), of out "rqCall q" "completion r (Some e)"]
  have "bytes_ok ?st (ackedOn (pwLog w) s) (pwReplies w @ ?f) (pwCalls w)" using out k(3) by (simp add: completion_def)
  then have "\<forall>t < length (pwStreams w). bytes_ok ((pwStreams w)[s := ?st] ! t) (ackedOn (pwLog w) t) (pwReplies w @ ?f) (pwCalls w)"
    using inv st by (simp add: writer_inv_def nth_list_update bytes_ok_replies)
  moreover have "streams_ok None ((pwStreams w)[s := ?st]) False"
    using inv s st by (auto simp: writer_inv_def streams_ok_def nth_list_update)
  moreover have "log_ok (pwLog w) (pwReplies w @ ?f) (pwCalls w) (length (pwStreams w))"
    using inv by (intro log_ok_error) (auto simp: writer_inv_def completion_def)
  ultimately show ?thesis
    using inv k st calls_ok_reply [OF k(2)]
    by (simp add: writer_inv_def replySend_def resetStream_def Reset_def transmit_def closeIf_def)
qed

lemma inv_sent:
  assumes inv: "writer_inv w" and q: "pwQueue w = q # rest" and s: "pwStream w = Some s"
    and n: "tsEncodedBytes r = length (rqPayload q)"
  shows "writer_inv (replySend (rqCall q) r None
     ((transmit s (frame (rqPayload q)) (w\<lparr>pwQueue := rest\<rparr>))\<lparr>pwLog := pwLog w @ [(rqCall q, s)]\<rparr>))"
proof -
  let ?c = "rqCall q" and ?f = "[(rqCall q, completion r None)]"
  let ?st = "(pwStreams w ! s)\<lparr>osWritten := osWritten (pwStreams w ! s) @ frame (rqPayload q)\<rparr>"
  have k: "rest = []" "calls_ok [q] (pwReplies w) (pwCalls w)" "rqPayload q = slPayload (pwCalls w ! ?c)" "?c \<notin> fst ` set (pwReplies w)"
    using inv q by (auto simp: writer_inv_def calls_ok_def)
  have st: "s < length (pwStreams w)" "\<not> osReset (pwStreams w ! s)" "pwDone w = False"
    using inv s by (auto simp: writer_inv_def streams_ok_def)
  have "bytes_ok (pwStreams w ! s) (ackedOn (pwLog w) s) (pwReplies w @ ?f) (pwCalls w)"
    using inv st by (simp add: writer_inv_def bytes_ok_replies)
  from bytes_ok_sent [OF this st(2), of ?c]
  have "bytes_ok ?st (ackedOn (pwLog w) s @ [?c]) (pwReplies w @ ?f) (pwCalls w)" by (simp add: k(3))
  then have "\<forall>t < length (pwStreams w). bytes_ok ((pwStreams w)[s := ?st] ! t) (ackedOn (pwLog w @ [(?c, s)]) t) (pwReplies w @ ?f) (pwCalls w)"
    using inv st by (simp add: writer_inv_def nth_list_update bytes_ok_replies ackedOn_snoc)
  moreover have "streams_ok (Some s) ((pwStreams w)[s := ?st]) (pwReady w)"
    using inv s st by (auto simp: writer_inv_def streams_ok_def nth_list_update)
  moreover have "log_ok (pwLog w @ [(?c, s)]) (pwReplies w @ ?f) (pwCalls w) (length (pwStreams w))"
    using inv k(3,4) st(1) n by (intro log_ok_sent) (simp_all add: writer_inv_def completion_def)
  ultimately show ?thesis
    using inv k s st calls_ok_reply [OF k(2)] by (simp add: writer_inv_def replySend_def transmit_def)
qed

lemma inv_attach:
  assumes "writer_inv w" and "\<not> pwDone w" and "attached (pwStream w) w s v"
  shows "writer_inv (v\<lparr>pwStream := Some s\<rparr>)"
proof (cases "pwStream w")
  case (Some s0)
  then show ?thesis using assms by (simp add: attached_def) (metis Some peerStreamWriter.surjective peerStreamWriter.update_convs(7))
next
  case None
  let ?n = "length (pwStreams w)" and ?ss = "pwStreams w @ [\<lparr>osWritten = [], osReset = False\<rparr>]"
  have v: "s = ?n" "v = w\<lparr>pwStreams := ?ss, pwReady := True\<rparr>" using assms(3) None by (simp_all add: attached_def)
  have "streams_ok (Some ?n) ?ss True" using assms(1) None by (auto simp: writer_inv_def streams_ok_def nth_append less_Suc_eq)
  moreover have l: "log_ok (pwLog w) (pwReplies w) (pwCalls w) (Suc ?n)"
    using assms(1) log_ok_error [of "pwLog w" "pwReplies w" "pwCalls w" ?n "[]" "Suc ?n"] by (simp add: writer_inv_def)
  moreover have "ackedOn (pwLog w) ?n = []" using assms(1) by (auto simp: writer_inv_def log_ok_def ackedOn_def filter_empty_conv)
  ultimately show ?thesis
    using assms(1,2) unfolding v by (auto simp: writer_inv_def nth_append less_Suc_eq bytes_ok_new)
qed

lemma attached_queue:
  assumes "attached st (w\<lparr>pwQueue := rest\<rparr>) s w1"
  obtains v where "attached st w s v" and "w1 = v\<lparr>pwQueue := rest\<rparr>" and "pwQueue v = pwQueue w"
  using assms that by (cases st) (auto simp: attached_def)

lemma inv_writeRequest:
  assumes inv: "writer_inv w" and "\<not> pwDone w" and q: "pwQueue w = q # rest"
  shows "writer_inv (keepStream (writeRequest io (pwStream w) q (w\<lparr>pwQueue := rest\<rparr>)))"
proof (cases rule: writeRequest_cases [of io "pwStream w" q "w\<lparr>pwQueue := rest\<rparr>"])
  case (refused r e)
  have "(replySend (rqCall q) r (Some e) (w\<lparr>pwQueue := rest\<rparr>))\<lparr>pwStream := pwStream w\<rparr> = replySend (rqCall q) r (Some e) (w\<lparr>pwQueue := rest\<rparr>)"
    by (simp add: replySend_def)
  with refused inv_reply_error [OF inv q] show ?thesis by (simp add: keepStream_def)
next
  case (broken s w1 out r e b)
  from attached_queue [OF broken(1)] obtain v where v: "attached (pwStream w) w s v" "w1 = v\<lparr>pwQueue := rest\<rparr>" "pwQueue v = q # rest"
    using q by metis
  have "writer_inv (v\<lparr>pwStream := Some s\<rparr>)" by (rule inv_attach [OF inv assms(2) v(1)])
  from inv_broken [OF this _ _ broken(2), of rest s r e b] v show ?thesis unfolding broken(3)
    by (simp add: keepStream_def replySend_def resetStream_def Reset_def transmit_def closeIf_def split: if_splits)
next
  case (sent s w1 r)
  from attached_queue [OF sent(1)] obtain v where v: "attached (pwStream w) w s v" "w1 = v\<lparr>pwQueue := rest\<rparr>" "pwQueue v = q # rest"
    using q by metis
  have "writer_inv (v\<lparr>pwStream := Some s\<rparr>)" by (rule inv_attach [OF inv assms(2) v(1)])
  from inv_sent [OF this _ _ sent(2), of rest s] v show ?thesis unfolding sent(4)
    by (simp add: writer_inv_def keepStream_def replySend_def transmit_def)
qed

lemma inv_openPrewarmed:
  assumes inv: "writer_inv w" and "\<not> pwDone w" and c: "pwPrewarm w = c # rest"
  shows "writer_inv (keepStream (openPrewarmedStream io (pwStream w) c (w\<lparr>pwPrewarm := rest\<rparr>)))"
proof -
  have "rest = []" "prewarm_ok [c] (pwPrewarmReplies w) (pwPrewarmCalls w)" using inv c by (auto simp: writer_inv_def prewarm_ok_def)
  then have ok: "prewarm_ok rest (pwPrewarmReplies w @ [(c, e)]) (pwPrewarmCalls w)" for e by (simp add: prewarm_ok_reply)
  let ?n = "length (pwStreams w)" and ?ss = "pwStreams w @ [\<lparr>osWritten = [], osReset = True\<rparr>]"
  show ?thesis
  proof (cases rule: openPrewarmed_cases [of io "pwStream w" c "w\<lparr>pwPrewarm := rest\<rparr>"])
    case (kept e)
    with inv ok [of e] show ?thesis by (simp add: keepStream_def replyPrewarm_def writer_inv_def)
  next
    case (opened s w1)
    have "attached (pwStream w) w s (w1\<lparr>pwPrewarm := c # rest\<rparr>)" using opened(1,2) c by (simp add: attached_def)
    from inv_attach [OF inv assms(2) this] ok [of None] opened show ?thesis
      by (auto simp: keepStream_def replyPrewarm_def writer_inv_def attached_def)
  next
    case (dropped e b)
    have "streams_ok None ?ss (pwReady w)" using inv dropped(1) by (auto simp: writer_inv_def streams_ok_def nth_append less_Suc_eq)
    moreover have "log_ok (pwLog w) (pwReplies w) (pwCalls w) (Suc ?n)"
      using inv log_ok_error [of "pwLog w" "pwReplies w" "pwCalls w" ?n "[]" "Suc ?n"] by (simp add: writer_inv_def)
    moreover have "ackedOn (pwLog w) ?n = []" using inv by (auto simp: writer_inv_def log_ok_def ackedOn_def filter_empty_conv)
    ultimately show ?thesis using inv assms(2) ok [of e] unfolding dropped(2)
      by (auto simp: keepStream_def replyPrewarm_def closeIf_def writer_inv_def nth_append less_Suc_eq bytes_ok_new)
  qed
qed

lemma inv_finishRun:
  assumes inv: "writer_inv w" and "pwStop w"
  shows "writer_inv (finishRun w)"
proof -
  let ?f = "map (\<lambda>q. (rqCall q, completion zeroSendResult (Some WriterClosed))) (pwQueue w)"
  define ss where "ss = pwStreams (stopStream (pwStream w) w)"
  have "length ss = length (pwStreams w)" by (simp add: ss_def stopStream_def resetStream_def Reset_def split: option.splits)
  moreover have "streams_ok None ss False"
    using inv by (auto simp: ss_def stopStream_def resetStream_def Reset_def writer_inv_def streams_ok_def nth_list_update split: option.splits)
  moreover have "bytes_ok (ss ! t) (ackedOn (pwLog w) t) (pwReplies w @ ?f) (pwCalls w)" if "t < length ss" for t
    using inv that by (auto simp: ss_def stopStream_def resetStream_def Reset_def writer_inv_def streams_ok_def nth_list_update bytes_ok_replies bytes_ok_reset split: option.splits)
  moreover have "log_ok (pwLog w) (pwReplies w @ ?f) (pwCalls w) (length (pwStreams w))"
    using inv by (intro log_ok_error) (auto simp: writer_inv_def completion_def)
  moreover have "calls_ok [] (pwReplies w @ ?f) (pwCalls w)" "prewarm_ok [] (pwPrewarmReplies w @ map (\<lambda>c. (c, Some WriterClosed)) (pwPrewarm w)) (pwPrewarmCalls w)"
    using inv by (simp_all add: writer_inv_def calls_ok_reply_all prewarm_ok_reply_all)
  moreover have "finishRun w = w\<lparr>pwQueue := [], pwPrewarm := [], pwReady := False, pwDone := True, pwStream := None, pwStreams := ss,
      pwReplies := pwReplies w @ ?f, pwPrewarmReplies := pwPrewarmReplies w @ map (\<lambda>c. (c, Some WriterClosed)) (pwPrewarm w)\<rparr>"
    by (simp add: finishRun_def failQueued_def ss_def stopStream_def resetStream_def Reset_def split: option.splits)
  ultimately show ?thesis using assms(2) by (simp add: writer_inv_def)
qed

lemma inv_run:
  assumes inv: "writer_inv w" and "run ch io w = Some w'"
  shows "writer_inv w'"
proof (cases ch)
  case RunStop
  then show ?thesis using assms by (auto intro: inv_finishRun split: if_splits)
next
  case RunQueue
  with assms(2) obtain q rest where q: "pwQueue w = q # rest" "\<not> pwDone w" by (auto split: if_splits list.splits)
  have "pwStop (replySend a b d (w\<lparr>pwQueue := rest\<rparr>)) = pwStop w" for a b d by (simp add: replySend_def)
  with RunQueue assms q show ?thesis
    by (auto simp: Let_def intro: inv_finishRun inv_reply_error inv_writeRequest split: if_splits)
next
  case RunPrewarm
  with assms(2) obtain c rest where c: "pwPrewarm w = c # rest" "\<not> pwDone w" by (auto split: if_splits list.splits)
  have "rest = []" "prewarm_ok [c] (pwPrewarmReplies w) (pwPrewarmCalls w)" using inv c by (auto simp: writer_inv_def prewarm_ok_def)
  then have "writer_inv (replyPrewarm c e (w\<lparr>pwPrewarm := rest\<rparr>))" for e
    using inv prewarm_ok_reply [of c] by (simp add: writer_inv_def replyPrewarm_def)
  moreover have "pwStop (replyPrewarm c e (w\<lparr>pwPrewarm := rest\<rparr>)) = pwStop w" for e by (simp add: replyPrewarm_def)
  ultimately show ?thesis using RunPrewarm assms c
    by (auto simp: Let_def intro: inv_finishRun inv_openPrewarmed split: if_splits)
qed

lemma inv_close: "writer_inv w \<Longrightarrow> writer_inv (w\<lparr>pwStop := True\<rparr>)"
  by (simp add: writer_inv_def)

lemma inv_step: "writer_inv w \<Longrightarrow> writer_step ev w = Some w' \<Longrightarrow> writer_inv w'"
  by (cases ev) (auto intro: inv_sendCall inv_sendEnqueue inv_sendAwait inv_prewarm_events inv_run inv_close)

lemma inv_reachable: "writer_run es w = Some w' \<Longrightarrow> writer_inv w \<Longrightarrow> writer_inv w'"
  by (induction es arbitrary: w) (auto simp: bind_eq_Some_conv intro: inv_step)

section \<open>What the receiver makes of a stream\<close>

lemma readUvarint_more: "readUvarintFrom i x bs = Inr (n, rest) \<Longrightarrow> readUvarintFrom i x (bs @ more_bs) = Inr (n, rest @ more_bs)"
  by (induction i x bs rule: readUvarintFrom.induct) (auto split: if_splits)

lemma readFrame_more:
  assumes "readEnvelopeFrame m bs = Inr (p, rest)"
  shows "readEnvelopeFrame m (bs @ more_bs) = Inr (p, rest @ more_bs)"
proof -
  obtain len r where r: "readUvarintFrom 0 0 bs = Inr (len, r)" and m: "\<not> m < 1"
    using assms by (auto simp: readEnvelopeFrame_def ReadUvarint_def split: if_splits)
  have "\<not> length r < len" "len \<noteq> 0" "\<not> m < int len" "p = take len r" "rest = drop len r"
    using assms r m by (auto simp: readEnvelopeFrame_def ReadUvarint_def split: if_splits)
  then show ?thesis using m readUvarint_more [OF r, of more_bs] by (simp add: readEnvelopeFrame_def ReadUvarint_def)
qed

text \<open>A payload that \<open>prepareSend\<close> produced from an envelope of the sender, and what its receiver is given for it.\<close>

definition prepared ::
  "envelope_wire \<Rightarrow> ConfigFile \<Rightarrow> nat list \<Rightarrow> nat \<Rightarrow> nat \<Rightarrow> persistentStreamLane option \<Rightarrow> WireEnvelope \<Rightarrow> bytes \<Rightarrow> bool" where
  "prepared W cfg peers sender to lane env data \<longleftrightarrow>
     prepareSend W cfg peers sender to env = Inr (lane, data) \<and> go_ints env \<and>
     (\<forall>s. weShare env = Some s \<longrightarrow> wsOperatorID s = int64_of sender)"

definition delivery :: "nat \<Rightarrow> nat \<Rightarrow> WireEnvelope \<Rightarrow> bytes \<Rightarrow> WireEnvelope \<times> nat" where
  "delivery sender to env data = (visible (authenticatedOutboundEnvelope sender to env), length data)"

lemma prepared_length:
  "prepared W cfg peers sender to lane env data \<Longrightarrow> int (length data) \<le> MaxEnvelopeBytes (cfLimits cfg)"
  by (auto simp: prepared_def prepareSend_def Let_def)

lemma prepared_frame:
  assumes "prepared W cfg peers sender to lane env data" and "data \<noteq> []" and "MaxEnvelopeBytes (cfLimits cfg) < 2 ^ 63"
  shows "readEnvelopeFrame (MaxEnvelopeBytes (cfLimits cfg)) (frame data @ rest) = Inr (data, rest)"
  by (rule read_written_frame [OF _ prepared_length [OF assms(1)] assms(3)]) (simp add: writeEnvelopeFrame_def assms(2))

lemma received_frame:
  assumes law: "\<And>m b. ewMarshal W m = Some b \<Longrightarrow> ewUnmarshal W b = Some m"
    and p: "prepared W cfg peers sender to lane env data" "data \<noteq> []" and max: "MaxEnvelopeBytes (cfLimits cfg) < 2 ^ 63"
  shows "receiveFrames W (MaxEnvelopeBytes (cfLimits cfg)) sender to lane (frame data @ rest) =
    (case receiveFrames W (MaxEnvelopeBytes (cfLimits cfg)) sender to lane rest of
       (ds, reason) \<Rightarrow> (delivery sender to env data # ds, reason))"
proof -
  have "admitEnvelope W sender to lane data = Inr (visible (authenticatedOutboundEnvelope sender to env))"
    using p(1) by (intro prepared_admitted [OF law]) (auto simp: prepared_def)
  then show ?thesis using prepared_frame [OF p max, of rest]
    by (subst receiveFrames.simps) (simp add: delivery_def)
qed

lemma received_frames:
  assumes law: "\<And>m b. ewMarshal W m = Some b \<Longrightarrow> ewUnmarshal W b = Some m" and max: "MaxEnvelopeBytes (cfLimits cfg) < 2 ^ 63"
  shows "\<forall>x \<in> set xs. prepared W cfg peers sender to lane (fst x) (snd x) \<and> snd x \<noteq> [] \<Longrightarrow>
    receiveFrames W (MaxEnvelopeBytes (cfLimits cfg)) sender to lane (concat (map (\<lambda>x. frame (snd x)) xs) @ rest) =
      (case receiveFrames W (MaxEnvelopeBytes (cfLimits cfg)) sender to lane rest of
         (ds, reason) \<Rightarrow> (map (\<lambda>x. delivery sender to (fst x) (snd x)) xs @ ds, reason))"
proof (induction xs)
  case Nil
  then show ?case by (simp split: prod.splits)
next
  case (Cons x xs)
  have "receiveFrames W (MaxEnvelopeBytes (cfLimits cfg)) sender to lane (frame (snd x) @ concat (map (\<lambda>x. frame (snd x)) xs) @ rest) =
      (case receiveFrames W (MaxEnvelopeBytes (cfLimits cfg)) sender to lane (concat (map (\<lambda>x. frame (snd x)) xs) @ rest) of
         (ds, reason) \<Rightarrow> (delivery sender to (fst x) (snd x) # ds, reason))"
    using Cons.prems by (intro received_frame [OF law _ _ max]) auto
  with Cons show ?case by (simp split: prod.splits)
qed

text \<open>A part of a frame is no envelope.\<close>

lemma received_part:
  assumes law: "\<And>m b. ewMarshal W m = Some b \<Longrightarrow> ewUnmarshal W b = Some m"
    and p: "prepared W cfg peers sender to lane env data" "data \<noteq> []" and max: "MaxEnvelopeBytes (cfLimits cfg) < 2 ^ 63"
    and "prefix part (frame data)"
  shows "fst (receiveFrames W (MaxEnvelopeBytes (cfLimits cfg)) sender to lane part) \<in> {[], [delivery sender to env data]}"
proof (cases "readEnvelopeFrame (MaxEnvelopeBytes (cfLimits cfg)) part")
  case (Inl e)
  then show ?thesis by (cases e) (simp_all add: receiveFrames.simps [of _ _ _ _ _ part])
next
  case (Inr x)
  obtain ext where ext: "frame data = part @ ext" using assms(5) by (auto simp: prefix_def)
  obtain d rest where x: "x = (d, rest)" by (cases x)
  have "readEnvelopeFrame (MaxEnvelopeBytes (cfLimits cfg)) (part @ ext) = Inr (data, [])"
    using prepared_frame [OF p max, of "[]"] ext by simp
  moreover have "readEnvelopeFrame (MaxEnvelopeBytes (cfLimits cfg)) (part @ ext) = Inr (d, rest @ ext)"
    using Inr x by (intro readFrame_more) simp
  ultimately have "ext = []" by simp
  then have "part = frame data @ []" using ext by simp
  moreover have "1 \<le> MaxEnvelopeBytes (cfLimits cfg)" using prepared_length [OF p(1)] p(2) by (cases data) auto
  ultimately show ?thesis using received_frame [OF law p max, of "[]"]
    by (simp add: receiveFrames.simps [of _ _ _ _ _ "[]"] read_end)
qed

section \<open>Every call is answered\<close>

text \<open>
  The events of goroutines that are merely scheduled: no new call, no context that expires, nobody closing
  \<^verbatim>\<open>stop\<close>; the loop gets the answers \<open>io\<close> from the environment, whatever they are.
\<close>

fun scheduled :: "write_io \<Rightarrow> writer_event \<Rightarrow> bool" where
  "scheduled io (Enqueue c sel) = (sel = SelChan \<or> sel = SelStop)"
| "scheduled io (Await c sel) = (sel = SelChan \<or> sel = SelStop)"
| "scheduled io (EnqueuePrewarm c sel) = (sel = SelChan \<or> sel = SelStop)"
| "scheduled io (AwaitPrewarm c sel) = (sel = SelChan \<or> sel = SelStop)"
| "scheduled io (Run ch io') = (io' = io)"
| "scheduled io ev = False"

text \<open>What is still to do: offer a request, wait for its turn in the channel, take the reply.\<close>

definition send_work :: "send_call \<Rightarrow> nat" where
  "send_work call = (case slPhase call of Offering \<Rightarrow> 3 | Waiting \<Rightarrow> 1 | Returned r \<Rightarrow> 0)"

definition prewarm_work :: "prewarm_phase \<Rightarrow> nat" where
  "prewarm_work p = (case p of PwOffering \<Rightarrow> 3 | PwWaiting \<Rightarrow> 1 | PwReturned e \<Rightarrow> 0)"

definition work :: "peerStreamWriter \<Rightarrow> nat" where
  "work w = sum_list (map send_work (pwCalls w)) + length (pwQueue w) +
     sum_list (map prewarm_work (pwPrewarmCalls w)) + length (pwPrewarm w)"

lemma sum_list_update_eq:
  "c < length xs \<Longrightarrow> sum_list (map f (xs[c := y])) + f (xs ! c) = sum_list (map f xs) + f y" for f :: "'a \<Rightarrow> nat"
  by (induction xs arbitrary: c) (auto simp: nth_Cons split: nat.splits)

lemma work_setPhase:
  "c < length (pwCalls w) \<Longrightarrow>
   work (setPhase c p w) + send_work (pwCalls w ! c) = work w + send_work ((pwCalls w ! c)\<lparr>slPhase := p\<rparr>)"
  using sum_list_update_eq [of c "pwCalls w" send_work "(pwCalls w ! c)\<lparr>slPhase := p\<rparr>"]
  by (simp add: work_def setPhase_def)

lemma work_setPrewarm:
  "c < length (pwPrewarmCalls w) \<Longrightarrow>
   work (setPrewarm c p w) + prewarm_work (pwPrewarmCalls w ! c) = work w + prewarm_work p"
  using sum_list_update_eq [of c "pwPrewarmCalls w" prewarm_work p] by (simp add: work_def setPrewarm_def)

text \<open>A turn of the loop touches no call, and only takes from the channels.\<close>

lemma writeRequest_frame:
  assumes "writeRequest io st q w = x"
  shows "pwCalls (snd x) = pwCalls w" and "pwPrewarmCalls (snd x) = pwPrewarmCalls w"
    and "pwQueue (snd x) = pwQueue w" and "pwPrewarm (snd x) = pwPrewarm w"
  unfolding assms [symmetric]
  by (cases rule: writeRequest_cases [of io st q w];
      cases st; auto simp: attached_def replySend_def resetStream_def Reset_def transmit_def closeIf_def split: if_splits)+

lemma openPrewarmed_frame:
  assumes "openPrewarmedStream io st c w = x"
  shows "pwCalls (snd x) = pwCalls w" and "pwPrewarmCalls (snd x) = pwPrewarmCalls w"
    and "pwQueue (snd x) = pwQueue w" and "pwPrewarm (snd x) = pwPrewarm w"
  unfolding assms [symmetric]
  by (cases rule: openPrewarmed_cases [of io st c w];
      cases st; auto simp: attached_def replyPrewarm_def closeIf_def split: if_splits)+

lemma finishRun_frame:
  "pwCalls (finishRun w) = pwCalls w" "pwPrewarmCalls (finishRun w) = pwPrewarmCalls w"
  "pwQueue (finishRun w) = []" "pwPrewarm (finishRun w) = []" "pwDone (finishRun w)"
  by (auto simp: finishRun_def failQueued_def stopStream_def resetStream_def Reset_def split: option.splits)

lemma run_serves:
  assumes "\<not> pwDone w"
  shows "pwQueue w \<noteq> [] \<Longrightarrow> \<exists>w'. run RunQueue io w = Some w' \<and> work w' < work w"
    and "pwPrewarm w \<noteq> [] \<Longrightarrow> \<exists>w'. run RunPrewarm io w = Some w' \<and> work w' < work w"
proof -
  assume "pwQueue w \<noteq> []"
  then obtain q rest where q: "pwQueue w = q # rest" by (cases "pwQueue w") auto
  then show "\<exists>w'. run RunQueue io w = Some w' \<and> work w' < work w"
    using assms by (auto simp: Let_def work_def finishRun_frame keepStream_def writeRequest_frame [OF refl] replySend_def)
next
  assume "pwPrewarm w \<noteq> []"
  then obtain c rest where c: "pwPrewarm w = c # rest" by (cases "pwPrewarm w") auto
  then show "\<exists>w'. run RunPrewarm io w = Some w' \<and> work w' < work w"
    using assms by (auto simp: Let_def work_def finishRun_frame keepStream_def openPrewarmed_frame [OF refl] replyPrewarm_def)
qed

abbreviation progress :: "write_io \<Rightarrow> peerStreamWriter \<Rightarrow> bool" where
  "progress io w \<equiv> \<exists>ev w'. scheduled io ev \<and> writer_step ev w = Some w' \<and> work w' < work w"

lemma progress_queue: "\<not> pwDone w \<Longrightarrow> pwQueue w \<noteq> [] \<Longrightarrow> progress io w"
  using run_serves(1) [of w io] by (metis scheduled.simps(5) writer_step.simps(7))

lemma progress_prewarm_queue: "\<not> pwDone w \<Longrightarrow> pwPrewarm w \<noteq> [] \<Longrightarrow> progress io w"
  using run_serves(2) [of w io] by (metis scheduled.simps(5) writer_step.simps(7))

lemma send_progress:
  assumes inv: "writer_inv w" and c: "c < length (pwCalls w)" and "\<nexists>r. slPhase (pwCalls w ! c) = Returned r"
  shows "progress io w"
proof -
  have ph: "phase_ok (pwQueue w) (pwReplies w) c (pwCalls w ! c)" using inv c by (simp add: writer_inv_def calls_ok_def)
  have less: "work (setPhase c (Returned r) w) < work w" for r
    using work_setPhase [OF c, of "Returned r"] assms(3) by (cases "slPhase (pwCalls w ! c)") (auto simp: send_work_def)
  show ?thesis
  proof (cases "pwQueue w = [] \<or> pwDone w")
    case False
    then show ?thesis by (intro progress_queue) auto
  next
    case True
    have stop: "pwStop w" if "pwQueue w \<noteq> []" using True that inv by (auto simp: writer_inv_def)
    show ?thesis
    proof (cases "slPhase (pwCalls w ! c)")
      case Offering
      show ?thesis
      proof (cases "pwQueue w")
        case Nil
        let ?q = "\<lparr>rqCall = c, rqPayload = slPayload (pwCalls w ! c), rqEnqueuedAt = slEnqueuedAt (pwCalls w ! c)\<rparr>"
        let ?w = "setPhase c Waiting (w\<lparr>pwQueue := [?q]\<rparr>)"
        have "work ?w < work w" using work_setPhase [of c "w\<lparr>pwQueue := [?q]\<rparr>" Waiting] c Offering Nil
          by (simp add: send_work_def work_def)
        moreover have "writer_step (Enqueue c SelChan) w = Some ?w"
          using c Offering Nil by (simp add: sendEnqueue_def persistentQueueCapacity_def Let_def)
        ultimately show ?thesis by (intro exI [of _ "Enqueue c SelChan"]) auto
      next
        case (Cons q rest)
        then show ?thesis using c Offering less stop by (intro exI [of _ "Enqueue c SelStop"]) (auto simp: sendEnqueue_def)
      qed
    next
      case Waiting
      show ?thesis
      proof (cases "c \<in> fst ` set (pwReplies w)")
        case True
        then obtain r where "map_of (pwReplies w) c = Some r" by (metis map_of_eq_None_iff not_None_eq)
        then show ?thesis using c Waiting less by (intro exI [of _ "Await c SelChan"]) (auto simp: sendAwait_def)
      next
        case False
        then have "pwQueue w \<noteq> []" using ph Waiting by (auto simp: phase_ok_def)
        then show ?thesis using c Waiting less stop by (intro exI [of _ "Await c SelStop"]) (auto simp: sendAwait_def)
      qed
    next
      case (Returned r)
      then show ?thesis using assms(3) by simp
    qed
  qed
qed

lemma prewarm_progress:
  assumes inv: "writer_inv w" and c: "c < length (pwPrewarmCalls w)" and "\<nexists>e. pwPrewarmCalls w ! c = PwReturned e"
  shows "progress io w"
proof (cases "pwPrewarm w = [] \<or> pwDone w")
  case False
  then show ?thesis by (intro progress_prewarm_queue) auto
next
  case True
  have less: "work (setPrewarm c (PwReturned e) w) < work w" for e
    using work_setPrewarm [OF c, of "PwReturned e"] assms(3) by (cases "pwPrewarmCalls w ! c") (auto simp: prewarm_work_def)
  have stop: "pwStop w" if "pwPrewarm w \<noteq> []" using True that inv by (auto simp: writer_inv_def)
  show ?thesis
  proof (cases "pwPrewarmCalls w ! c")
    case PwOffering
    show ?thesis
    proof (cases "pwPrewarm w")
      case Nil
      let ?w = "setPrewarm c PwWaiting (w\<lparr>pwPrewarm := [c]\<rparr>)"
      have "work ?w < work w" using work_setPrewarm [of c "w\<lparr>pwPrewarm := [c]\<rparr>" PwWaiting] c PwOffering Nil
        by (simp add: prewarm_work_def work_def)
      then show ?thesis using c PwOffering Nil by (intro exI [of _ "EnqueuePrewarm c SelChan"]) (simp add: prewarmEnqueue_def)
    next
      case (Cons q rest)
      then show ?thesis using c PwOffering less stop by (intro exI [of _ "EnqueuePrewarm c SelStop"]) (auto simp: prewarmEnqueue_def)
    qed
  next
    case PwWaiting
    show ?thesis
    proof (cases "c \<in> fst ` set (pwPrewarmReplies w)")
      case True
      then obtain r where "map_of (pwPrewarmReplies w) c = Some r" by (metis map_of_eq_None_iff not_None_eq)
      then show ?thesis using c PwWaiting less by (intro exI [of _ "AwaitPrewarm c SelChan"]) (auto simp: prewarmAwait_def)
    next
      case False
      then have "pwPrewarm w \<noteq> []" using inv c PwWaiting by (auto simp: writer_inv_def prewarm_ok_def split: prewarm_phase.splits)
      then show ?thesis using c PwWaiting less stop by (intro exI [of _ "AwaitPrewarm c SelStop"]) (auto simp: prewarmAwait_def)
    qed
  next
    case (PwReturned e)
    then show ?thesis using assms(3) by simp
  qed
qed

abbreviation answered :: "peerStreamWriter \<Rightarrow> bool" where
  "answered w \<equiv> (\<forall>call \<in> set (pwCalls w). \<exists>r. slPhase call = Returned r) \<and> (\<forall>p \<in> set (pwPrewarmCalls w). \<exists>e. p = PwReturned e)"

lemma progress_unless_answered:
  assumes "writer_inv w" and "\<not> answered w"
  shows "progress io w"
  using assms(2) send_progress [OF assms(1)] prewarm_progress [OF assms(1)] by (auto simp: in_set_conv_nth)

lemma drains:
  "writer_inv w \<Longrightarrow> \<exists>es w'. (\<forall>ev \<in> set es. scheduled io ev) \<and> writer_run es w = Some w' \<and> answered w'"
proof (induction "work w" arbitrary: w rule: less_induct)
  case less
  show ?case
  proof (cases "answered w")
    case True
    then show ?thesis by (intro exI [of _ "[]"] exI [of _ w]) simp
  next
    case False
    from progress_unless_answered [OF less.prems this] obtain ev w1
      where ev: "scheduled io ev" "writer_step ev w = Some w1" "work w1 < work w" by blast
    from less.hyps [OF ev(3) inv_step [OF less.prems ev(2)]] obtain es w'
      where "\<forall>ev \<in> set es. scheduled io ev" "writer_run es w1 = Some w'" "answered w'" by blast
    with ev show ?thesis by (intro exI [of _ "ev # es"] exI [of _ w']) simp
  qed
qed

lemma writer_run_append: "writer_run (es @ es') w = Option.bind (writer_run es w) (writer_run es')"
  by (induction es arbitrary: w) (simp_all split: Option.bind_splits)

text \<open>A closed channel stays closed.\<close>

lemma stop_stays:
  assumes "writer_step ev w = Some w'" and "pwStop w"
  shows "pwStop w'"
proof (cases ev)
  case (Run ch io)
  have "pwStop (finishRun v) = pwStop v" for v
    by (simp add: finishRun_def failQueued_def stopStream_def resetStream_def Reset_def split: option.splits)
  moreover have "\<exists>v. w' = finishRun v \<and> pwStop v"
  proof (cases ch)
    case RunStop
    then show ?thesis using assms Run by (auto split: if_splits)
  next
    case RunQueue
    with assms Run obtain q rest where "pwQueue w = q # rest" by (cases "pwQueue w") (auto split: if_splits)
    then show ?thesis using assms Run RunQueue
      by (intro exI [of _ "replySend (rqCall q) zeroSendResult (Some WriterClosed) (w\<lparr>pwQueue := rest\<rparr>)"])
        (simp add: replySend_def split: if_splits)
  next
    case RunPrewarm
    with assms Run obtain c rest where "pwPrewarm w = c # rest" by (cases "pwPrewarm w") (auto split: if_splits)
    then show ?thesis using assms Run RunPrewarm
      by (intro exI [of _ "replyPrewarm c (Some WriterClosed) (w\<lparr>pwPrewarm := rest\<rparr>)"])
        (simp add: replyPrewarm_def split: if_splits)
  qed
  ultimately show ?thesis by auto
qed (use assms in \<open>auto simp: Let_def sendCall_def sendEnqueue_def sendAwait_def setPhase_def prewarmCall_def prewarmEnqueue_def prewarmAwait_def
    setPrewarm_def split: if_splits selection.splits option.splits\<close>)

lemma stop_stays_run: "writer_run es w = Some w' \<Longrightarrow> pwStop w \<Longrightarrow> pwStop w'"
  by (induction es arbitrary: w) (auto simp: bind_eq_Some_conv dest: stop_stays)

lemma drains_end:
  assumes "writer_run es (newPeerStreamWriter op) = Some w"
  shows "\<exists>es' w'. (\<forall>ev \<in> set es'. scheduled io ev) \<and> writer_run es' w = Some w' \<and> answered w' \<and> (pwStop w' \<longrightarrow> pwDone w')"
proof -
  have "writer_inv w" by (rule inv_reachable [OF assms inv_new])
  from drains [OF this] obtain es1 w1 where r: "\<forall>ev \<in> set es1. scheduled io ev" "writer_run es1 w = Some w1" "answered w1" by blast
  show ?thesis
  proof (cases "pwStop w1 \<and> \<not> pwDone w1")
    case True
    then have "writer_run (es1 @ [Run RunStop io]) w = Some (finishRun w1)" using r(2) by (simp add: writer_run_append)
    moreover have "\<forall>ev \<in> set (es1 @ [Run RunStop io]). scheduled io ev" using r(1) by auto
    ultimately show ?thesis using r(3) finishRun_frame [of w1] by metis
  next
    case False
    with r show ?thesis by blast
  qed
qed

lemma drains_done:
  assumes "writer_run es (newPeerStreamWriter op) = Some w" and "pwStop w"
  shows "\<exists>w'. (\<exists>es'. (\<forall>ev \<in> set es'. scheduled io ev) \<and> writer_run es' w = Some w') \<and> answered w' \<and> pwDone w'"
  using drains_end [OF assms(1), of io] stop_stays_run [OF _ assms(2)] by blast

section \<open>Properties\<close>

text \<open>
  C18. In every state of a stream writer, whatever its callers do and whatever contexts and streams answer: a
  result channel is written at most once (so the loop never blocks on it), the channel of requests
  holds at most one request, at most one stream is open, namely the one the loop holds, \<^verbatim>\<open>ready\<close> says
  whether there is one, nothing is open once the loop has ended, and a call that returned without
  error had its whole payload acknowledged, on exactly one stream.
\<close>

theorem writer_safe:
  assumes "writer_run es (newPeerStreamWriter op) = Some w"
  shows "distinct (map fst (pwReplies w)) \<and> length (pwQueue w) \<le> persistentQueueCapacity \<and>
    (\<forall>s < length (pwStreams w). osReset (pwStreams w ! s) \<longleftrightarrow> pwStream w \<noteq> Some s) \<and>
    pwReady w = (pwStream w \<noteq> None) \<and> (pwDone w \<longrightarrow> pwStop w \<and> pwStream w = None) \<and>
    (\<forall>c r. c < length (pwCalls w) \<and> slPhase (pwCalls w ! c) = Returned r \<and> scErr r = None \<longrightarrow>
       tsEncodedBytes (scResult r) = length (slPayload (pwCalls w ! c)) \<and> (\<exists>!s. (c, s) \<in> set (pwLog w)))"
proof -
  have inv: "writer_inv w" by (rule inv_reachable [OF assms inv_new])
  have ret: "tsEncodedBytes (scResult r) = length (slPayload (pwCalls w ! c)) \<and> (\<exists>!s. (c, s) \<in> set (pwLog w))"
    if "c < length (pwCalls w)" "slPhase (pwCalls w ! c) = Returned r" "scErr r = None" for c r
  proof -
    have "(c, r) \<in> set (pwReplies w)" using inv that by (auto simp: writer_inv_def calls_ok_def phase_ok_def)
    moreover have "\<forall>x \<in> set (pwReplies w). scErr (snd x) = None \<longrightarrow> fst x \<in> fst ` set (pwLog w) \<and>
        tsEncodedBytes (scResult (snd x)) = length (slPayload (pwCalls w ! fst x))"
      using inv by (simp add: writer_inv_def log_ok_def)
    ultimately have "c \<in> fst ` set (pwLog w)" "tsEncodedBytes (scResult r) = length (slPayload (pwCalls w ! c))"
      using that(3) by (metis fst_conv snd_conv)+
    moreover have "distinct (map fst (pwLog w))" using inv by (simp add: writer_inv_def log_ok_def)
    ultimately show ?thesis by (auto dest: eq_key_imp_eq_value)
  qed
  have "length (pwQueue w) \<le> persistentQueueCapacity" "distinct (map fst (pwReplies w))"
    using inv by (simp_all add: writer_inv_def calls_ok_def persistentQueueCapacity_def)
  with inv ret show ?thesis by (simp add: writer_inv_def streams_ok_def)
qed


text \<open>
  C19. No call hangs: from every state of a writer, whatever its environment answers, scheduling the
  goroutines alone, with no context expiring, makes every call to \<^verbatim>\<open>send\<close> and to \<^verbatim>\<open>prewarmStream\<close> return, and
  ends the loop if \<^verbatim>\<open>stop\<close> is closed.
\<close>

theorem writer_answers:
  assumes "writer_run es (newPeerStreamWriter op) = Some w"
  shows "\<exists>es' w'. (\<forall>ev \<in> set es'. scheduled io ev) \<and> writer_run es' w = Some w' \<and>
    (\<forall>call \<in> set (pwCalls w'). \<exists>r. slPhase call = Returned r) \<and>
    (\<forall>p \<in> set (pwPrewarmCalls w'). \<exists>e. p = PwReturned e) \<and> (pwStop w' \<longrightarrow> pwDone w')"
  using drains_end [OF assms] by blast

section \<open>A writer that sends two envelopes\<close>

definition demo_io :: write_io where
  "demo_io = \<lparr>ioNow = int, ioCtxErr = (\<lambda>_. None), ioDeadline = Some 100, ioOpen = Inr True, ioSetDeadline = None,
     ioWrite = (\<lambda>k data. (length data, None)), ioNegotiate = None, ioStops = False\<rparr>"

text \<open>The second write fails after one byte of the payload.\<close>

definition demo_io_cut :: write_io where
  "demo_io_cut = demo_io\<lparr>ioWrite := (\<lambda>k data. if k = 0 then (length data, None) else (1, Some ''reset''))\<rparr>"

definition demo_events :: "writer_event list" where
  "demo_events = [CallSend [5, 6] 0, Enqueue 0 SelChan, CallSend [7] 1, Run RunQueue demo_io, Enqueue 1 SelChan,
     Run RunQueue demo_io, Await 0 SelChan, CallSend [5, 6] 2, Enqueue 2 SelChan, Run RunQueue demo_io_cut]"

definition demo_writer :: peerStreamWriter where
  "demo_writer = the (writer_run demo_events (newPeerStreamWriter 2))"

definition demo_view :: "peerStreamWriter \<Rightarrow> outStream list \<times> bytes list \<times> bool list \<times> (nat \<times> nat) list" where
  "demo_view w = (pwStreams w, map slPayload (pwCalls w),
     map (\<lambda>c. case slPhase c of Returned r \<Rightarrow> scErr r = None | _ \<Rightarrow> False) (pwCalls w), pwLog w)"

lemma demo_state:
  "map_option demo_view (writer_run demo_events (newPeerStreamWriter 2)) =
   Some ([\<lparr>osWritten = [2, 5, 6, 1, 7, 2, 5], osReset = True\<rparr>], [[5, 6], [7], [5, 6]], [True, False, False], [(0, 0), (1, 0)])"
  by code_simp

lemma demo_run:
  "writer_run demo_events (newPeerStreamWriter 2) = Some demo_writer"
  "demo_view demo_writer = ([\<lparr>osWritten = [2, 5, 6, 1, 7, 2, 5], osReset = True\<rparr>], [[5, 6], [7], [5, 6]], [True, False, False], [(0, 0), (1, 0)])"
  using demo_state by (auto simp: demo_writer_def)

lemma demo_calls: "length (pwCalls demo_writer) = 3" "slPayload (pwCalls demo_writer ! 0) = [5, 6]"
  "slPayload (pwCalls demo_writer ! 1) = [7]" "slPayload (pwCalls demo_writer ! 2) = [5, 6]"
proof -
  have p: "map slPayload (pwCalls demo_writer) = [[5, 6], [7], [5, 6]]" using demo_run(2) by (simp add: demo_view_def)
  show "length (pwCalls demo_writer) = 3" using arg_cong [OF p, of length] by simp
  then have "slPayload (pwCalls demo_writer ! i) = [[5, 6], [7], [5, 6]] ! i" if "i < 3" for i
    using that p by (metis nth_map)
  from this [of 0] this [of 1] this [of 2]
  show "slPayload (pwCalls demo_writer ! 0) = [5, 6]" "slPayload (pwCalls demo_writer ! 1) = [7]" "slPayload (pwCalls demo_writer ! 2) = [5, 6]"
    by simp_all
qed

lemma demo_returned: obtains r where "slPhase (pwCalls demo_writer ! 0) = Returned r" and "scErr r = None"
proof -
  have "map (\<lambda>c. case slPhase c of Returned r \<Rightarrow> scErr r = None | _ \<Rightarrow> False) (pwCalls demo_writer) ! 0"
    using demo_run(2) by (simp add: demo_view_def)
  then show thesis using that demo_calls(1) by (auto split: send_phase.splits)
qed

theorem writer_safe_witness: "distinct (map fst (pwReplies demo_writer)) \<and> (\<exists>!s. (0, s) \<in> set (pwLog demo_writer))"
proof -
  obtain r where "slPhase (pwCalls demo_writer ! 0) = Returned r" "scErr r = None" by (rule demo_returned)
  moreover have "0 < length (pwCalls demo_writer)" by (simp add: demo_calls)
  ultimately show ?thesis using writer_safe [OF demo_run(1)] by blast
qed

definition demo_envs :: "nat \<Rightarrow> WireEnvelope" where
  "demo_envs c = (if c = 1 then demo_bval_env else demo_share_env)"

lemma demo_calls_prepared:
  "\<forall>c < length (pwCalls demo_writer). prepared demo_env_wire demo_config [1, 2] 1 2 None (demo_envs c) (slPayload (pwCalls demo_writer ! c))"
proof -
  have p: "prepareSend demo_env_wire demo_config [1, 2] 1 2 demo_share_env = Inr (None, [5, 6])"
    "prepareSend demo_env_wire demo_config [1, 2] 1 2 demo_bval_env = Inr (None, [7])"
    using demo_prepared(1) by auto
  have "prepared demo_env_wire demo_config [1, 2] 1 2 None demo_share_env [5, 6]" "prepared demo_env_wire demo_config [1, 2] 1 2 None demo_bval_env [7]"
    using demo_own p by (auto simp: prepared_def)
  moreover have all: "(\<forall>c < 3. P c) \<longleftrightarrow> P 0 \<and> P 1 \<and> P 2" for P :: "nat \<Rightarrow> bool"
    by (auto simp: less_Suc_eq eval_nat_numeral)
  ultimately show ?thesis unfolding demo_calls(1) all demo_calls(2-4) demo_envs_def by simp
qed


theorem writer_answers_witness:
  "\<exists>es' w'. writer_run es' demo_writer = Some w' \<and> (\<forall>call \<in> set (pwCalls w'). \<exists>r. slPhase call = Returned r)"
  using writer_answers [OF demo_run(1), of demo_io] by blast

end
