(* ===== verification/Transport.thy ===== *)
theory Transport
  imports Stream_Safety Node_Boot
begin

text \<open>
  The libp2p transport around the streams (\<^verbatim>\<open>bloc-node/internal/app/transport_libp2p.go\<close> and
  \<^verbatim>\<open>transport_libp2p_lanes.go\<close>): its start in the three stream modes, the routing of a send, the fresh stream of a send, the readiness
  barrier, static dialling with retries, and its shutdown.

  libp2p is the parameter record \<open>p2p_lib\<close>; a host is what \<^verbatim>\<open>libp2p.New\<close> returns. The writers of persistent streams are
  the state machines of the theory \<open>Stream_Writer\<close>; the map \<^verbatim>\<open>peers\<close> of the node is an association list in
  the order of its iteration. The loops that dial and prewarm are functions of the answers of
  their attempts.
\<close>

section \<open>Types\<close>

record 'pid p2p_lib =
  plDecode :: "string \<Rightarrow> 'pid option"
  plNewHost :: "string \<Rightarrow> string option \<Rightarrow> bool"
  plNewStream :: "'pid \<Rightarrow> string \<Rightarrow> send_error + unit"
  plConnected :: "'pid \<Rightarrow> bool"
  plSupports :: "'pid \<Rightarrow> string \<Rightarrow> bool"

definition blocEnvelopeProtocolFresh :: string where
  "blocEnvelopeProtocolFresh = ''/bloc/envelope/1.0.0''"

definition blocEnvelopeProtocolPersistent :: string where
  "blocEnvelopeProtocolPersistent = ''/bloc/envelope/2.0.0''"

definition persistentStreamLanes :: "persistentStreamLane list" where
  "persistentStreamLanes = [persistentLaneControl, persistentLaneData]"

fun persistentLaneProtocol :: "persistentStreamLane \<Rightarrow> string" where
  "persistentLaneProtocol persistentLaneControl = ''/bloc/envelope/3.0.0/control''"
| "persistentLaneProtocol persistentLaneData = ''/bloc/envelope/3.0.0/data''"

record peerStreamLaneWriters =
  lwControl :: peerStreamWriter
  lwData :: peerStreamWriter

definition newPeerStreamLaneWriters :: "nat \<Rightarrow> peerStreamLaneWriters" where
  "newPeerStreamLaneWriters operatorID =
     \<lparr>lwControl = newPeerStreamWriter operatorID, lwData = newPeerStreamWriter operatorID\<rparr>"

fun laneWriter :: "persistentStreamLane \<Rightarrow> peerStreamLaneWriters \<Rightarrow> peerStreamWriter" where
  "laneWriter persistentLaneControl ws = lwControl ws"
| "laneWriter persistentLaneData ws = lwData ws"

datatype inbound_handler = HandleFresh | HandlePersistent | HandleLane persistentStreamLane

record 'pid LibP2PTransport =
  ltHost :: bool
  ltPeerOperators :: "('pid, nat) gomap"
  ltHandlers :: "(string, inbound_handler) gomap"
  ltWriters :: "(nat, peerStreamWriter) gomap"
  ltLaneWriters :: "(nat, peerStreamLaneWriters) gomap"
  ltStopped :: bool
  ltClosing :: bool
  ltCloseOnce :: bool
  ltCancelled :: bool
  ltInbound :: nat

definition newLibP2PTransport :: "'pid LibP2PTransport" where
  "newLibP2PTransport = \<lparr>ltHost = False, ltPeerOperators = [], ltHandlers = [], ltWriters = [], ltLaneWriters = [],
     ltStopped = False, ltClosing = False, ltCloseOnce = False, ltCancelled = False, ltInbound = 0\<rparr>"

datatype start_error = PeersInvalid | KeyInvalid boot_error | HostFailed | UnsupportedStreamMode string

section \<open>Start\<close>

definition startPersistentWriters :: "(nat, NodeConfig) gomap \<Rightarrow> nat \<Rightarrow> 'pid LibP2PTransport \<Rightarrow> 'pid LibP2PTransport" where
  "startPersistentWriters peers self t =
     t\<lparr>ltWriters := fold (\<lambda>(op, _) ws. if op = self then ws else AList.update op (newPeerStreamWriter op) ws) peers (ltWriters t)\<rparr>"

definition startPersistentLaneWriters :: "(nat, NodeConfig) gomap \<Rightarrow> nat \<Rightarrow> 'pid LibP2PTransport \<Rightarrow> 'pid LibP2PTransport" where
  "startPersistentLaneWriters peers self t =
     t\<lparr>ltLaneWriters := fold (\<lambda>(op, _) ws. if op = self then ws else AList.update op (newPeerStreamLaneWriters op) ws) peers (ltLaneWriters t)\<rparr>"

definition startMode ::
  "string \<Rightarrow> (nat, NodeConfig) gomap \<Rightarrow> nat \<Rightarrow> 'pid LibP2PTransport \<Rightarrow> (start_error + unit) \<times> 'pid LibP2PTransport" where
  "startMode mode peers self t =
     (if mode = '''' \<or> mode = ''fresh'' then (Inr (), t\<lparr>ltHandlers := [(blocEnvelopeProtocolFresh, HandleFresh)]\<rparr>)
      else if mode = ''persistent'' then
        (Inr (), startPersistentWriters peers self (t\<lparr>ltHandlers := [(blocEnvelopeProtocolPersistent, HandlePersistent)]\<rparr>))
      else if mode = ''persistent-lanes'' then
        (Inr (), startPersistentLaneWriters peers self
           (t\<lparr>ltHandlers := map (\<lambda>l. (persistentLaneProtocol l, HandleLane l)) persistentStreamLanes\<rparr>))
      else (Inl (UnsupportedStreamMode mode), t\<lparr>ltHost := False, ltCancelled := True\<rparr>))"

definition Start ::
  "boot_env \<Rightarrow> 'pid p2p_lib \<Rightarrow> ConfigFile \<Rightarrow> (nat, NodeConfig) gomap \<Rightarrow> NodeConfig \<Rightarrow> string \<Rightarrow> 'pid LibP2PTransport \<Rightarrow>
   (start_error + unit) \<times> 'pid LibP2PTransport" where
  "Start B P cfg peers self key t =
     (case operatorByPeerID (plDecode P) (map snd peers) [] of
        None \<Rightarrow> (Inl PeersInvalid, t)
      | Some ops \<Rightarrow>
          let t1 = t\<lparr>ltPeerOperators := ops\<rparr> in
          (case unmarshalLibP2PPrivateKey B key of
             Inl e \<Rightarrow> (Inl (KeyInvalid e), t1)
           | Inr priv \<Rightarrow>
               if \<not> plNewHost P (p2pListenAddr self) priv then (Inl HostFailed, t1)
               else startMode (nwStreamMode (cfNetwork cfg)) peers (ncID self) (t1\<lparr>ltHost := True\<rparr>)))"

definition beginInboundHandler :: "'pid LibP2PTransport \<Rightarrow> bool \<times> 'pid LibP2PTransport" where
  "beginInboundHandler t = (if ltClosing t then (False, t) else (True, t\<lparr>ltInbound := ltInbound t + 1\<rparr>))"

text \<open>The handler of a stream is done.\<close>

definition endInboundHandler :: "'pid LibP2PTransport \<Rightarrow> 'pid LibP2PTransport" where
  "endInboundHandler t = t\<lparr>ltInbound := ltInbound t - 1\<rparr>"

section \<open>Sending\<close>

text \<open>The three openers differ only in the protocol they ask for.\<close>

definition openStreamWithProtocol ::
  "'pid p2p_lib \<Rightarrow> (nat, NodeConfig) gomap \<Rightarrow> string \<Rightarrow> nat \<Rightarrow> 'pid LibP2PTransport \<Rightarrow> send_error + unit" where
  "openStreamWithProtocol P peers protocol to t =
     (case map_of peers to of
        None \<Rightarrow> Inl (SendWire (UnknownPeer to))
      | Some cfg \<Rightarrow>
          (case plDecode P (ncP2PPeerID cfg) of
             None \<Rightarrow> Inl (SendIO ''peer id'')
           | Some pid \<Rightarrow> if \<not> ltHost t then Inl TransportNotStarted else plNewStream P pid protocol))"

definition openOutboundStream :: "'pid p2p_lib \<Rightarrow> (nat, NodeConfig) gomap \<Rightarrow> nat \<Rightarrow> 'pid LibP2PTransport \<Rightarrow> send_error + unit" where
  "openOutboundStream P peers to t = openStreamWithProtocol P peers blocEnvelopeProtocolFresh to t"

definition openPersistentOutboundStream :: "'pid p2p_lib \<Rightarrow> (nat, NodeConfig) gomap \<Rightarrow> nat \<Rightarrow> 'pid LibP2PTransport \<Rightarrow> send_error + unit" where
  "openPersistentOutboundStream P peers to t = openStreamWithProtocol P peers blocEnvelopeProtocolPersistent to t"

definition openPersistentLaneOutboundStream ::
  "'pid p2p_lib \<Rightarrow> (nat, NodeConfig) gomap \<Rightarrow> nat \<Rightarrow> persistentStreamLane \<Rightarrow> 'pid LibP2PTransport \<Rightarrow> send_error + unit" where
  "openPersistentLaneOutboundStream P peers to lane t = openStreamWithProtocol P peers (persistentLaneProtocol lane) to t"

text \<open>
  A send on a fresh stream: the bytes that went out, whether the stream was reset, the result and the error. The
  stream answers the deadline, the writes, \<^verbatim>\<open>CloseWrite\<close> and \<^verbatim>\<open>Close\<close>.
\<close>

record fresh_io =
  fiNow :: "nat \<Rightarrow> time"
  fiDeadline :: "time option"
  fiSetDeadline :: "string option"
  fiWrite :: "nat \<Rightarrow> bytes \<Rightarrow> nat \<times> string option"
  fiCloseWrite :: "string option"
  fiClose :: "string option"

definition sendOnFreshStream :: "fresh_io \<Rightarrow> bytes \<Rightarrow> transportSendResult \<Rightarrow> outStream \<times> transportSendResult \<times> send_error option" where
  "sendOnFreshStream io data result =
     (if fiDeadline io \<noteq> None \<and> fiSetDeadline io \<noteq> None
      then (\<lparr>osWritten = [], osReset = True\<rparr>, result, Some (SendIO (the (fiSetDeadline io))))
      else
        let (out, _, err) = writeAll (fiWrite io) 0 data;
            result1 = result\<lparr>tsWriteDuration := fiNow io 3 - fiNow io 2\<rparr> in
        case err of
          Some e \<Rightarrow> (\<lparr>osWritten = out, osReset = True\<rparr>, result1, Some e)
        | None \<Rightarrow>
            let result2 = result1\<lparr>tsFinalizeDuration := fiNow io 5 - fiNow io 4\<rparr> in
            (case fiCloseWrite io of
               Some e \<Rightarrow> (\<lparr>osWritten = out, osReset = True\<rparr>, result2, Some (SendIO e))
             | None \<Rightarrow>
                 (case fiClose io of
                    Some e \<Rightarrow> (\<lparr>osWritten = out, osReset = True\<rparr>, result2, Some (SendIO e))
                  | None \<Rightarrow> (\<lparr>osWritten = out, osReset = False\<rparr>, result2, None))))"

definition sendStream ::
  "fresh_io \<Rightarrow> send_error + unit \<Rightarrow> bytes \<Rightarrow> outStream option \<times> transportSendResult \<times> send_error option" where
  "sendStream io opened data =
     (let result = zeroSendResult\<lparr>tsStreamOpenDuration := fiNow io 1 - fiNow io 0\<rparr> in
      case opened of
        Inl e \<Rightarrow> (None, result, Some e)
      | Inr _ \<Rightarrow> (case sendOnFreshStream io data result of (st, r, e) \<Rightarrow> (Some st, r, e)))"

text \<open>Where \<^verbatim>\<open>Send\<close> hands the bytes to, and the result it returns.\<close>

datatype send_route = ToFreshStream | ToWriter nat | ToLaneWriter nat persistentStreamLane

definition routeSend ::
  "envelope_wire \<Rightarrow> ConfigFile \<Rightarrow> nat list \<Rightarrow> nat \<Rightarrow> nat \<Rightarrow> WireEnvelope \<Rightarrow> 'pid LibP2PTransport \<Rightarrow> send_error + (send_route \<times> bytes)" where
  "routeSend W cfg peers self to env t =
     (case prepareSend W cfg peers self to env of
        Inl e \<Rightarrow> Inl (SendWire e)
      | Inr (lane, data) \<Rightarrow>
          let mode = nwStreamMode (cfNetwork cfg) in
          if mode = ''persistent'' then (if has_key (ltWriters t) to then Inr (ToWriter to, data) else Inl (WriterMissing to))
          else case lane of
            Some l \<Rightarrow> if has_key (ltLaneWriters t) to then Inr (ToLaneWriter to l, data) else Inl (WriterMissing to)
          | None \<Rightarrow> Inr (ToFreshStream, data))"

definition finishSend :: "time \<Rightarrow> bytes \<Rightarrow> transportSendResult \<Rightarrow> send_error option \<Rightarrow> transportSendResult \<times> send_error option" where
  "finishSend encodeDuration data streamResult err =
     (let result = streamResult\<lparr>tsEncodeDuration := encodeDuration, tsEncodedBytes := 0\<rparr> in
      if err \<noteq> None then (result, err) else (result\<lparr>tsEncodedBytes := length data\<rparr>, None))"

section \<open>Readiness, dialling, shutdown\<close>

definition peerReady :: "'pid p2p_lib \<Rightarrow> string \<Rightarrow> 'pid LibP2PTransport \<Rightarrow> NodeConfig \<Rightarrow> bool" where
  "peerReady P mode t cfg =
     (case plDecode P (ncP2PPeerID cfg) of
        None \<Rightarrow> False
      | Some pid \<Rightarrow>
          plConnected P pid \<and>
          (mode = ''persistent'' \<longrightarrow> plSupports P pid blocEnvelopeProtocolPersistent \<and>
             (case map_of (ltWriters t) (ncID cfg) of None \<Rightarrow> False | Some w \<Rightarrow> pwReady w)) \<and>
          (mode = ''persistent-lanes'' \<longrightarrow>
             list_all (\<lambda>l. plSupports P pid (persistentLaneProtocol l)) persistentStreamLanes \<and>
             (case map_of (ltLaneWriters t) (ncID cfg) of None \<Rightarrow> False | Some ws \<Rightarrow> pwReady (lwControl ws) \<and> pwReady (lwData ws))))"

definition Ready :: "'pid p2p_lib \<Rightarrow> string \<Rightarrow> (nat, NodeConfig) gomap \<Rightarrow> nat \<Rightarrow> 'pid LibP2PTransport \<Rightarrow> bool" where
  "Ready P mode peers self t =
     (ltHost t \<and> list_all (\<lambda>(_, cfg). ncID cfg = self \<or> peerReady P mode t cfg) peers)"

text \<open>Each node dials the peers with a larger number.\<close>

definition connectStaticPeers :: "(nat, NodeConfig) gomap \<Rightarrow> nat \<Rightarrow> NodeConfig list" where
  "connectStaticPeers peers self =
     filter (\<lambda>cfg. \<not> (ncID cfg \<le> self \<or> p2pAdvertiseAddr cfg = [] \<or> ncP2PPeerID cfg = [])) (map snd peers)"

datatype retry_outcome = GivenUp | Succeeded nat | StillTrying nat

text \<open>One attempt: the context before it, the outcome of the dial, the context during the pause.\<close>

record attempt_io =
  aiCancelledBefore :: bool
  aiOk :: bool
  aiCancelledAfter :: bool

fun retryLoop :: "nat \<Rightarrow> attempt_io list \<Rightarrow> retry_outcome" where
  "retryLoop n [] = StillTrying n"
| "retryLoop n (a # as) =
     (if aiCancelledBefore a then GivenUp
      else if aiOk a then Succeeded n
      else if aiCancelledAfter a then GivenUp
      else retryLoop (Suc n) as)"

definition connectPeerWithRetry :: "(string \<Rightarrow> bool) \<Rightarrow> NodeConfig \<Rightarrow> attempt_io list \<Rightarrow> retry_outcome" where
  "connectPeerWithRetry addrOk cfg as =
     (if addrOk (p2pAdvertiseAddr cfg @ ''/p2p/'' @ ncP2PPeerID cfg) then retryLoop 1 as else GivenUp)"

definition prewarmPersistentWriter :: "'pid p2p_lib \<Rightarrow> (nat, NodeConfig) gomap \<Rightarrow> nat \<Rightarrow> attempt_io list \<Rightarrow> retry_outcome" where
  "prewarmPersistentWriter P peers op as =
     (case map_of peers op of
        None \<Rightarrow> GivenUp
      | Some cfg \<Rightarrow> (case plDecode P (ncP2PPeerID cfg) of None \<Rightarrow> GivenUp | Some _ \<Rightarrow> retryLoop 1 as))"

definition stopWriter :: "peerStreamWriter \<Rightarrow> peerStreamWriter" where
  "stopWriter w = w\<lparr>pwStop := True\<rparr>"

text \<open>\<^verbatim>\<open>Close\<close> up to the waits: every writer sees the closed channel.\<close>

definition Close :: "'pid LibP2PTransport \<Rightarrow> 'pid LibP2PTransport" where
  "Close t =
     (if ltCloseOnce t then t
      else t\<lparr>ltCloseOnce := True, ltClosing := True, ltCancelled := True, ltStopped := True,
        ltWriters := map (map_prod id stopWriter) (ltWriters t),
        ltLaneWriters := map (map_prod id (\<lambda>ws. ws\<lparr>lwControl := stopWriter (lwControl ws), lwData := stopWriter (lwData ws)\<rparr>)) (ltLaneWriters t)\<rparr>)"

text \<open>
  \<^verbatim>\<open>Close\<close> returns when the writers and the handlers of inbound streams are done. The goroutines that prewarm end
  at their next look at the cancelled context, or with the reply of a writer that has stopped.
\<close>

definition closeReturns :: "'pid LibP2PTransport \<Rightarrow> bool" where
  "closeReturns t =
     (ltCloseOnce t \<and> ltInbound t = 0 \<and> list_all (\<lambda>(_, w). pwDone w) (ltWriters t) \<and>
      list_all (\<lambda>(_, ws). pwDone (lwControl ws) \<and> pwDone (lwData ws)) (ltLaneWriters t))"

text \<open>The writers of a transport, and a transport whose writers have moved on.\<close>

definition writersOf :: "'pid LibP2PTransport \<Rightarrow> peerStreamWriter set" where
  "writersOf t = snd ` set (ltWriters t) \<union> (\<Union>ws \<in> snd ` set (ltLaneWriters t). {lwControl ws, lwData ws})"

definition mapWriters :: "(peerStreamWriter \<Rightarrow> peerStreamWriter) \<Rightarrow> 'pid LibP2PTransport \<Rightarrow> 'pid LibP2PTransport" where
  "mapWriters f t = t\<lparr>ltWriters := map (map_prod id f) (ltWriters t),
     ltLaneWriters := map (map_prod id (\<lambda>ws. \<lparr>lwControl = f (lwControl ws), lwData = f (lwData ws)\<rparr>)) (ltLaneWriters t)\<rparr>"

section \<open>Lemmas\<close>

lemma fresh_writes:
  assumes "sendStream io opened data = (st, r, e)"
  shows "e = None \<longleftrightarrow> (\<exists>s. st = Some s \<and> \<not> osReset s)"
    and "st = Some s \<Longrightarrow> prefix (osWritten s) data" and "st = Some s \<Longrightarrow> \<not> osReset s \<Longrightarrow> osWritten s = data"
proof -
  obtain out k err where w: "writeAll (fiWrite io) 0 data = (out, k, err)" by (metis prod_cases3)
  note p = writeAll_prefix [OF w]
  note unfold = sendStream_def sendOnFreshStream_def Let_def w
  show "e = None \<longleftrightarrow> (\<exists>s. st = Some s \<and> \<not> osReset s)"
    using assms by (auto simp: unfold split: sum.splits option.splits if_splits)
  show "st = Some s \<Longrightarrow> prefix (osWritten s) data"
    using assms p by (auto simp: unfold split: sum.splits option.splits if_splits)
  show "st = Some s \<Longrightarrow> \<not> osReset s \<Longrightarrow> osWritten s = data"
    using assms p by (auto simp: unfold split: sum.splits option.splits if_splits)
qed

lemma started_writers:
  "map_of (fold (\<lambda>(op, _) ws. if op = self then ws else AList.update op (mk op) ws) peers ws) op =
     (if op \<in> fst ` set peers \<and> op \<noteq> self then Some (mk op) else map_of ws op)"
proof (induction peers arbitrary: ws)
  case (Cons p peers)
  then show ?case by (cases p) (auto simp: update_conv')
qed simp

lemma key_in: "(k, v) \<in> set m \<Longrightarrow> k \<in> fst ` set m"
  by force

lemma key_of_map_of: "map_of m k = Some x \<Longrightarrow> k \<in> fst ` set m"
  by (auto dest: map_of_SomeD key_in)

lemma start_persistent:
  assumes "Start B P cfg peers self key newLibP2PTransport = (Inr (), t)"
  shows "nwStreamMode (cfNetwork cfg) = ''persistent'' \<Longrightarrow> op \<in> fst ` set peers \<Longrightarrow> op \<noteq> ncID self \<Longrightarrow>
      map_of (ltWriters t) op = Some (newPeerStreamWriter op)"
    and "nwStreamMode (cfNetwork cfg) = ''persistent-lanes'' \<Longrightarrow> op \<in> fst ` set peers \<Longrightarrow> op \<noteq> ncID self \<Longrightarrow>
      map_of (ltLaneWriters t) op = Some (newPeerStreamLaneWriters op)"
  using assms
  by (auto simp: Start_def startMode_def Let_def startPersistentWriters_def startPersistentLaneWriters_def started_writers
    split: option.splits sum.splits if_splits dest: key_in)

text \<open>Two operators whose configurations are complete dial each other once.\<close>

lemma dials_once:
  assumes "(i, ci) \<in> set peers" "(j, cj) \<in> set peers" "ncID ci = i" "ncID cj = j" "i \<noteq> j"
    and "\<forall>(_, c) \<in> set peers. p2pAdvertiseAddr c \<noteq> [] \<and> ncP2PPeerID c \<noteq> []"
  shows "(cj \<in> set (connectStaticPeers peers i)) \<noteq> (ci \<in> set (connectStaticPeers peers j))"
proof -
  have "c \<in> set (connectStaticPeers peers k) \<longleftrightarrow> k < ncID c" if "(l, c) \<in> set peers" for c k l
    using that assms(6) by (force simp: connectStaticPeers_def)
  then have "cj \<in> set (connectStaticPeers peers i) \<longleftrightarrow> i < j" "ci \<in> set (connectStaticPeers peers j) \<longleftrightarrow> j < i"
    using assms(1-4) by blast+
  then show ?thesis using assms(5) by linarith
qed

section \<open>Properties\<close>


text \<open>
  After a successful start, an envelope that can be prepared for another configured operator always finds
  its way: a fresh stream, the running writer of that operator, or the running writer of the lane the
  envelope belongs to, whose protocol the receiver serves with the handler that expects that lane.
\<close>

theorem send_routed:
  assumes start: "Start B P cfg peers self key newLibP2PTransport = (Inr (), t)"
    and prep: "prepareSend W cfg (map fst peers) (ncID self) to env = Inr (lane, data)" and other: "to \<noteq> ncID self"
  shows "case routeSend W cfg (map fst peers) (ncID self) to env t of
      Inl e \<Rightarrow> False
    | Inr (ToFreshStream, d) \<Rightarrow> d = data \<and> map_of (ltHandlers t) blocEnvelopeProtocolFresh = Some HandleFresh
    | Inr (ToWriter op, d) \<Rightarrow> d = data \<and> op = to \<and> map_of (ltWriters t) op = Some (newPeerStreamWriter to) \<and>
        map_of (ltHandlers t) blocEnvelopeProtocolPersistent = Some HandlePersistent
    | Inr (ToLaneWriter op l, d) \<Rightarrow> d = data \<and> op = to \<and> lane = Some l \<and>
        classifyEnvelopeLane (authenticatedOutboundEnvelope (ncID self) to env) = Inr l \<and>
        map_option (laneWriter l) (map_of (ltLaneWriters t) op) = Some (newPeerStreamWriter to) \<and>
        map_of (ltHandlers t) (persistentLaneProtocol l) = Some (HandleLane l)"
proof -
  have to: "to \<in> fst ` set peers" using prep by (auto simp: prepareSend_def Let_def)
  have mode: "nwStreamMode (cfNetwork cfg) \<in> {[], ''fresh'', ''persistent'', ''persistent-lanes''}"
    using start by (auto simp: Start_def startMode_def Let_def split: option.splits sum.splits if_splits)
  have lane: "(lane = None) = (nwStreamMode (cfNetwork cfg) \<noteq> ''persistent-lanes'')"
    "lane = Some l \<Longrightarrow> classifyEnvelopeLane (authenticatedOutboundEnvelope (ncID self) to env) = Inr l" for l
    using prep by (auto simp: prepareSend_def Let_def split: if_splits)
  have handlers: "ltHandlers t = (if nwStreamMode (cfNetwork cfg) = ''persistent'' then [(blocEnvelopeProtocolPersistent, HandlePersistent)]
      else if nwStreamMode (cfNetwork cfg) = ''persistent-lanes'' then map (\<lambda>l. (persistentLaneProtocol l, HandleLane l)) persistentStreamLanes
      else [(blocEnvelopeProtocolFresh, HandleFresh)])"
    using start by (auto simp: Start_def startMode_def Let_def startPersistentWriters_def startPersistentLaneWriters_def
      split: option.splits sum.splits if_splits)
  have lanes: "map_of (map (\<lambda>l. (persistentLaneProtocol l, HandleLane l)) persistentStreamLanes) (persistentLaneProtocol l) = Some (HandleLane l)"
    and fresh: "laneWriter l (newPeerStreamLaneWriters to) = newPeerStreamWriter to" for l
    by (cases l; simp add: persistentStreamLanes_def newPeerStreamLaneWriters_def)+
  note writers = start_persistent [OF start _ to other]
  show ?thesis
  proof (cases lane)
    case None
    then show ?thesis using prep lane(1) writers(1) handlers mode by (auto simp: routeSend_def Let_def key_of_map_of)
  next
    case (Some l)
    then show ?thesis using prep lane writers(2) handlers lanes fresh by (auto simp: routeSend_def Let_def key_of_map_of)
  qed
qed


section \<open>A transport with lanes\<close>

definition demo_lanes_config :: ConfigFile where
  "demo_lanes_config = demo_config\<lparr>cfNetwork := \<lparr>nwMode = ''libp2p'', nwStreamMode = ''persistent-lanes''\<rparr>\<rparr>"

definition demo_p2p :: "string p2p_lib" where
  "demo_p2p = \<lparr>plDecode = Some, plNewHost = (\<lambda>_ _. True), plNewStream = (\<lambda>_ _. Inr ()), plConnected = (\<lambda>_. True), plSupports = (\<lambda>_ _. True)\<rparr>"

definition demo_peers :: "(nat, NodeConfig) gomap" where
  "demo_peers = [(2, demo_peer 2), (1, demo_peer 1)]"

definition demo_transport :: "string LibP2PTransport" where
  "demo_transport = snd (Start demo_boot_env demo_p2p demo_lanes_config demo_peers (demo_peer 1) ''aa'' newLibP2PTransport)"

lemma demo_started:
  "Start demo_boot_env demo_p2p demo_lanes_config demo_peers (demo_peer 1) ''aa'' newLibP2PTransport = (Inr (), demo_transport)"
proof -
  have "hexDecode ''aa'' = Some [170]" by code_simp
  then have "fst (Start demo_boot_env demo_p2p demo_lanes_config demo_peers (demo_peer 1) ''aa'' newLibP2PTransport) = Inr ()"
    by (simp add: Start_def startMode_def demo_p2p_def demo_peers_def demo_peer_def demo_lanes_config_def unmarshalLibP2PPrivateKey_def
      demo_boot_env_def Let_def)
  then show ?thesis by (simp add: demo_transport_def prod_eq_iff)
qed

lemma demo_lane_prepared:
  "prepareSend demo_env_wire demo_lanes_config (map fst demo_peers) (ncID (demo_peer 1)) 2 demo_bval_env = Inr (Some persistentLaneControl, [7])"
proof -
  have "classifyEnvelopeLane (authenticatedOutboundEnvelope 1 2 demo_bval_env) = Inr persistentLaneControl"
    by (simp add: classifyEnvelopeLane_def validateEnvelopePayload_def classifyACSMessage_def authenticatedOutboundEnvelope_def demo_bval_env_def)
  then show ?thesis using demo_encodes(2)
    by (simp add: prepareSend_def Let_def demo_lanes_config_def demo_peers_def demo_peer_def demo_config_def defaultResourceLimits_def
      defaultMaxEnvelopeBytes_def)
qed

theorem send_routed_witness:
  "routeSend demo_env_wire demo_lanes_config [2, 1] 1 2 demo_bval_env demo_transport \<noteq> Inl (WriterMissing 2)"
  using send_routed [OF demo_started demo_lane_prepared] by (auto simp: demo_peers_def demo_peer_def)

definition demo_fresh_io :: fresh_io where
  "demo_fresh_io = \<lparr>fiNow = int, fiDeadline = Some 9, fiSetDeadline = None, fiWrite = (\<lambda>k data. (1, None)), fiCloseWrite = None, fiClose = None\<rparr>"

lemma demo_sent: "\<exists>r. sendStream demo_fresh_io (Inr ()) [5, 6] = (Some \<lparr>osWritten = [5, 6], osReset = False\<rparr>, r, None)"
  by (simp add: sendStream_def sendOnFreshStream_def demo_fresh_io_def writeAll.simps Let_def)



end
