(* ===== verification/Honey_Badger.thy ===== *)
theory Honey_Badger
  imports Acs_Facts
begin

text \<open>
  The top-level protocol of the consensus library (\<^verbatim>\<open>sbc/hbbft/honey_badger.go\<close>) and its transaction buffer
  (\<^verbatim>\<open>sbc/hbbft/buffer.go\<close>): one common subset per epoch, whose output is decoded, deduplicated, removed
  from the buffer and committed.

  A transaction is a value of the type \<open>'tx\<close> with the hash function \<open>heHash\<close>; the gob codec, the random generator,
  the erasure code library and the iteration orders of Go maps are parameters in the record \<open>hb_env\<close>.
  An epoch is a natural number below \<open>2\<^sup>6\<^sup>4\<close>, and the subtraction of one wraps. With an empty buffer \<^verbatim>\<open>propose\<close> sleeps and
  tries again: the model answers \<^term>\<open>Diverge\<close>, and the retry after a transaction has been added is the
  call on the state with that transaction. \<^verbatim>\<open>math.Min\<close> and \<^verbatim>\<open>math.Max\<close> on floats are exact below \<open>2\<^sup>5\<^sup>3\<close>.
\<close>

section \<open>The buffer\<close>

record 'tx hb_env =
  heHash :: "'tx \<Rightarrow> bytes"
  heEncode :: "'tx list \<Rightarrow> bytes option"
  heDecode :: "bytes \<Rightarrow> 'tx list option"
  heRand :: "nat \<Rightarrow> nat \<Rightarrow> nat"
  heRange :: "(bytes, 'tx) gomap \<Rightarrow> (bytes, 'tx) gomap"
  heRangeOut :: "(node_id, bytes) gomap \<Rightarrow> (node_id, bytes) gomap"
  heLib :: rbc_lib
  heOrd :: "node_id list \<Rightarrow> node_id list"

record 'tx buffer =
  bufData :: "'tx list"

definition newBuffer :: "'tx buffer" where
  "newBuffer = \<lparr>bufData = []\<rparr>"

definition buffer_push :: "'tx \<Rightarrow> 'tx buffer \<Rightarrow> 'tx buffer" where
  "buffer_push tx b = b\<lparr>bufData := bufData b @ [tx]\<rparr>"

definition byHash :: "'tx hb_env \<Rightarrow> 'tx list \<Rightarrow> (bytes, 'tx) gomap \<Rightarrow> (bytes, 'tx) gomap" where
  "byHash E txx m = fold (\<lambda>tx. AList.update (heHash E tx) tx) txx m"

definition buffer_delete :: "'tx hb_env \<Rightarrow> 'tx list \<Rightarrow> 'tx buffer \<Rightarrow> 'tx buffer" where
  "buffer_delete E txx b =
     (let temp = fold (\<lambda>tx. AList.delete (heHash E tx)) txx (byHash E (bufData b) [])
      in b\<lparr>bufData := map snd (heRange E temp)\<rparr>)"

definition buffer_len :: "'tx buffer \<Rightarrow> nat" where
  "buffer_len b = length (bufData b)"

text \<open>\<open>n\<close> draws with repetition; the generator panics on an empty slice.\<close>

definition sampleFrom :: "'tx hb_env \<Rightarrow> 'tx list \<Rightarrow> nat \<Rightarrow> 'tx list option" where
  "sampleFrom E txx n =
     (if n = 0 then Some [] else if txx = [] then None
      else Some (map (\<lambda>i. txx ! heRand E i (length txx)) [0..<n]))"

section \<open>The engine\<close>

record HBMessage =
  hmEpoch :: nat
  hmPayload :: ACSMessage

record 'tx HoneyBadger =
  hbConfig :: Config
  hbInstances :: "(nat, ACS) gomap"
  hbBuffer :: "'tx buffer"
  hbEpoch :: nat
  hbOutputs :: "(nat, 'tx list) gomap"
  hbQue :: "HBMessage messageQue"
  hbMsgCount :: int

datatype hb_error = HBAcsFailed acs_error | HBEncodeFailed | HBDecodeFailed

definition NewHoneyBadger :: "Config \<Rightarrow> 'tx HoneyBadger" where
  "NewHoneyBadger cfg = \<lparr>hbConfig = cfg, hbInstances = [], hbBuffer = newBuffer, hbEpoch = 0, hbOutputs = [],
     hbQue = newMessageQue, hbMsgCount = 0\<rparr>"

definition hb_Messages :: "'tx HoneyBadger \<Rightarrow> HBMessage MessageTuple list \<times> 'tx HoneyBadger" where
  "hb_Messages hb = (let (msgs, q) = que_messages (hbQue hb) in (msgs, hb\<lparr>hbQue := q\<rparr>))"

definition AddTransaction :: "'tx \<Rightarrow> 'tx HoneyBadger \<Rightarrow> 'tx HoneyBadger" where
  "AddTransaction tx hb = hb\<lparr>hbBuffer := buffer_push tx (hbBuffer hb)\<rparr>"

definition LenMempool :: "'tx HoneyBadger \<Rightarrow> nat" where
  "LenMempool hb = buffer_len (hbBuffer hb)"

definition hb_Outputs :: "'tx HoneyBadger \<Rightarrow> (nat, 'tx list) gomap \<times> 'tx HoneyBadger" where
  "hb_Outputs hb = (hbOutputs hb, hb\<lparr>hbOutputs := []\<rparr>)"

text \<open>Every message leaves with the current epoch of the engine.\<close>

definition hb_addMessages :: "ACSMessage MessageTuple list \<Rightarrow> 'tx HoneyBadger \<Rightarrow> 'tx HoneyBadger" where
  "hb_addMessages msgs hb =
     hb\<lparr>hbQue := fold (\<lambda>m. que_addMessage \<lparr>hmEpoch = hbEpoch hb, hmPayload = mtPayload m\<rparr> (mtTo m)) msgs (hbQue hb)\<rparr>"

definition putInstance :: "nat \<Rightarrow> ACS \<Rightarrow> 'tx HoneyBadger \<Rightarrow> 'tx HoneyBadger" where
  "putInstance ep acs hb = hb\<lparr>hbInstances := AList.update ep acs (hbInstances hb)\<rparr>"

definition getOrNewACSInstance :: "'tx hb_env \<Rightarrow> nat \<Rightarrow> 'tx HoneyBadger \<Rightarrow> (ACS \<times> 'tx HoneyBadger) option" where
  "getOrNewACSInstance E ep hb =
     (case map_of (hbInstances hb) ep of
        Some acs \<Rightarrow> Some (acs, hb)
      | None \<Rightarrow> map_option (\<lambda>acs. (acs, putInstance ep acs hb)) (newACS (heLib E) (hbConfig hb)))"

text \<open>The outgoing messages of an instance move to the queue of the engine.\<close>

definition takeMessages :: "nat \<Rightarrow> ACS \<Rightarrow> 'tx HoneyBadger \<Rightarrow> 'tx HoneyBadger" where
  "takeMessages ep acs hb =
     (let (msgs, q) = que_messages (acsMessageQue acs)
      in hb_addMessages msgs (putInstance ep (acs\<lparr>acsMessageQue := q\<rparr>) hb))"

definition proposedBatch :: "'tx hb_env \<Rightarrow> 'tx HoneyBadger \<Rightarrow> 'tx list option" where
  "proposedBatch E hb =
     (let nodes = length (cfgNodes (hbConfig hb));
          batchSize0 = (if cfgBatchSize (hbConfig hb) = 0 then int (nodes * 2 * 20) else cfgBatchSize (hbConfig hb));
          batchSize = min batchSize0 (int (buffer_len (hbBuffer hb)))
      in if nodes = 0 \<or> batchSize < 0 then None
         else sampleFrom E (take (nat batchSize) (bufData (hbBuffer hb))) (nat (max 1 (batchSize div int nodes))))"

definition propose :: "'tx hb_env \<Rightarrow> 'tx HoneyBadger \<Rightarrow> hb_error status \<times> 'tx HoneyBadger" where
  "propose E hb =
     (if buffer_len (hbBuffer hb) = 0 then (Diverge, hb)
      else case proposedBatch E hb of
        None \<Rightarrow> (Panic, hb)
      | Some batch \<Rightarrow>
          (case heEncode E batch of
             None \<Rightarrow> (Err HBEncodeFailed, hb)
           | Some buf \<Rightarrow>
               (case getOrNewACSInstance E (hbEpoch hb) hb of
                  None \<Rightarrow> (Panic, hb)
                | Some (acs, hb1) \<Rightarrow>
                    (case acs_inputValue (heLib E) (heOrd E) buf acs of
                       (NoErr, acs') \<Rightarrow> (NoErr, takeMessages (hbEpoch hb1) acs' hb1)
                     | (st, acs') \<Rightarrow> (lift_status HBAcsFailed st, putInstance (hbEpoch hb1) acs' hb1)))))"

text \<open>The loop over the outputs: an output that is not a batch ends it.\<close>

definition decodeOutputs :: "'tx hb_env \<Rightarrow> (node_id, bytes) gomap \<Rightarrow> (bytes, 'tx) gomap option" where
  "decodeOutputs E outs =
     bind_fold (\<lambda>(_, out) m. case heDecode E out of None \<Rightarrow> None | Some txx \<Rightarrow> Some (byHash E txx m)) (heRangeOut E outs) []"

definition commitBatch :: "'tx hb_env \<Rightarrow> 'tx list \<Rightarrow> 'tx HoneyBadger \<Rightarrow> 'tx HoneyBadger" where
  "commitBatch E txBatch hb =
     hb\<lparr>hbBuffer := buffer_delete E txBatch (hbBuffer hb), hbOutputs := AList.update (hbEpoch hb) txBatch (hbOutputs hb),
        hbEpoch := (hbEpoch hb + 1) mod 2 ^ 64, hbMsgCount := 0\<rparr>"

definition maybeProcessOutput :: "'tx hb_env \<Rightarrow> 'tx HoneyBadger \<Rightarrow> hb_error status \<times> 'tx HoneyBadger" where
  "maybeProcessOutput E hb =
     (case map_of (hbInstances hb) (hbEpoch hb) of
        None \<Rightarrow> (NoErr, hb)
      | Some acs \<Rightarrow>
          (case acs_takeOutput acs of (out, acs') \<Rightarrow>
            let hb1 = putInstance (hbEpoch hb) acs' hb in
            if out = None \<or> out = Some [] then (NoErr, hb1)
            else case decodeOutputs E (the out) of
              None \<Rightarrow> (Err HBDecodeFailed, hb1)
            | Some txMap \<Rightarrow> propose E (commitBatch E (map snd (heRange E txMap)) hb1)))"

definition removeOldEpochs :: "'tx HoneyBadger \<Rightarrow> 'tx HoneyBadger" where
  "removeOldEpochs hb = hb\<lparr>hbInstances := filter (\<lambda>(i, _). i \<ge> sub64 (hbEpoch hb) 1) (hbInstances hb)\<rparr>"

definition hb_HandleMessage ::
  "'tx hb_env \<Rightarrow> node_id \<Rightarrow> nat \<Rightarrow> ACSMessage \<Rightarrow> 'tx HoneyBadger \<Rightarrow> hb_error status \<times> 'tx HoneyBadger" where
  "hb_HandleMessage E sid ep msg hb0 =
     (let hb = hb0\<lparr>hbMsgCount := hbMsgCount hb0 + 1\<rparr> in
      if map_of (hbInstances hb) ep = None \<and> ep < hbEpoch hb then (NoErr, hb)
      else case getOrNewACSInstance E ep hb of
        None \<Rightarrow> (Panic, hb)
      | Some (acs, hb1) \<Rightarrow>
          (case acs_handleMessage (heLib E) (heOrd E) sid msg acs of
             (NoErr, acs') \<Rightarrow>
               let hb2 = takeMessages ep acs' hb1 in
               if hbEpoch hb2 = ep then maybeProcessOutput E hb2 else (NoErr, removeOldEpochs hb2)
           | (st, acs') \<Rightarrow> (lift_status HBAcsFailed st, putInstance ep acs' hb1)))"

definition hb_Start :: "'tx hb_env \<Rightarrow> 'tx HoneyBadger \<Rightarrow> hb_error status \<times> 'tx HoneyBadger" where
  "hb_Start E hb = propose E hb"

section \<open>Maps by hash\<close>

lemma byHash_inv:
  assumes "distinct (map fst m)" and "\<forall>x \<in> set m. fst x = heHash E (snd x)"
  shows "distinct (map fst (byHash E txx m)) \<and> (\<forall>x \<in> set (byHash E txx m). fst x = heHash E (snd x)) \<and>
    fst ` set (byHash E txx m) = fst ` set m \<union> heHash E ` set txx \<and> snd ` set (byHash E txx m) \<subseteq> snd ` set m \<union> set txx"
  using assms
proof (induction txx arbitrary: m)
  case Nil
  then show ?case by (simp add: byHash_def)
next
  case (Cons tx txx)
  let ?m = "AList.update (heHash E tx) tx m"
  have s: "set ?m = insert (heHash E tx, tx) {(j, w) \<in> set m. j \<noteq> heHash E tx}" by (rule set_update_wf [OF Cons.prems(1)])
  have "distinct (map fst ?m)" "\<forall>x \<in> set ?m. fst x = heHash E (snd x)"
    using Cons.prems s by (auto simp: distinct_update)
  note ih = Cons.IH [OF this]
  have k: "fst ` set ?m = insert (heHash E tx) (fst ` set m)" unfolding s by force
  have v: "snd ` set ?m \<subseteq> insert tx (snd ` set m)" unfolding s by force
  have e: "byHash E (tx # txx) m = byHash E txx ?m" by (simp add: byHash_def)
  have sub: "A \<union> C \<subseteq> B \<union> insert t C" if "A \<subseteq> insert t B" for A B C :: "'a set" and t using that by blast
  have "snd ` set (byHash E txx ?m) \<subseteq> snd ` set m \<union> set (tx # txx)"
    using order_trans [OF conjunct2 [OF conjunct2 [OF conjunct2 [OF ih]]] sub [OF v]] by simp
  moreover have "fst ` set (byHash E txx ?m) = fst ` set m \<union> heHash E ` set (tx # txx)"
    using conjunct1 [OF conjunct2 [OF conjunct2 [OF ih]]] by (simp only: k list.simps(15) image_insert Un_insert_left Un_insert_right)
  ultimately show ?case unfolding e using conjunct1 [OF ih] conjunct1 [OF conjunct2 [OF ih]] by (intro conjI) assumption+
qed

lemma deletes_keys:
  "fst ` set (fold (\<lambda>tx. AList.delete (heHash E tx)) txx m) = fst ` set m - heHash E ` set txx"
proof (induction txx arbitrary: m)
  case (Cons tx txx)
  have "fst ` set (AList.delete (heHash E tx) m) = fst ` set m - {heHash E tx}"
    by (simp add: delete_keys flip: set_map)
  moreover have "A - {a} - B = A - insert a B" for A B :: "bytes set" and a by blast
  ultimately show ?case using Cons.IH [of "AList.delete (heHash E tx) m"] by simp
qed simp

lemma deletes_subset: "set (fold (\<lambda>tx. AList.delete (heHash E tx)) txx m) \<subseteq> set m"
proof (induction txx arbitrary: m)
  case (Cons tx txx)
  have "set (AList.delete (heHash E tx) m) \<subseteq> set m" by (auto simp: AList.delete_eq)
  with Cons.IH [of "AList.delete (heHash E tx) m"] show ?case by simp
qed simp

text \<open>The transactions of a map by hash: distinct hashes, each value under its own hash.\<close>

definition hashed :: "'tx hb_env \<Rightarrow> (bytes, 'tx) gomap \<Rightarrow> 'tx set \<Rightarrow> bool" where
  "hashed E m S \<longleftrightarrow> distinct (map fst m) \<and> (\<forall>x \<in> set m. fst x = heHash E (snd x)) \<and>
     fst ` set m = heHash E ` S \<and> snd ` set m \<subseteq> S"

lemma hashed_empty: "hashed E [] {}"
  by (simp add: hashed_def)

lemma hashed_byHash:
  assumes "hashed E m S"
  shows "hashed E (byHash E txx m) (S \<union> set txx)"
proof -
  have m: "distinct (map fst m)" "\<forall>x \<in> set m. fst x = heHash E (snd x)" "fst ` set m = heHash E ` S" "snd ` set m \<subseteq> S"
    using assms unfolding hashed_def by blast+
  note b = byHash_inv [OF m(1,2), of txx]
  have "snd ` set (byHash E txx m) \<subseteq> S \<union> set txx"
    by (rule order_trans [OF conjunct2 [OF conjunct2 [OF conjunct2 [OF b]]] Un_mono [OF m(4) order_refl]])
  then show ?thesis unfolding hashed_def image_Un
    using conjunct1 [OF b] conjunct1 [OF conjunct2 [OF b]] conjunct1 [OF conjunct2 [OF conjunct2 [OF b]]] m(3) by (intro conjI) metis+
qed

lemma hashed_values:
  assumes "hashed E m S" and "mset m' = mset m"
  shows "distinct (map (heHash E) (map snd m')) \<and> heHash E ` set (map snd m') = heHash E ` S \<and> set (map snd m') \<subseteq> S"
proof -
  have s: "set m' = set m" using assms(2) by (rule mset_eq_setD)
  have d: "distinct (map fst m')"
    using assms by (metis hashed_def mset_map mset_eq_imp_distinct_iff)
  have "map (heHash E) (map snd m') = map fst m'" using assms(1) s by (auto simp: hashed_def)
  with d have f: "distinct (map (heHash E) (map snd m'))" by (simp only:)
  have "heHash E ` snd ` set m' = fst ` set m'" using assms(1) s by (force simp: hashed_def)
  also have "\<dots> = heHash E ` S" using assms(1) unfolding s hashed_def by blast
  finally have "heHash E ` set (map snd m') = heHash E ` S" by simp
  moreover have "set (map snd m') \<subseteq> S" using assms(1) s by (simp add: hashed_def)
  ultimately show ?thesis using f by blast
qed

lemma decodeOutputs_hashed:
  assumes "\<forall>x \<in> set outs. heDecode E (snd x) = Some (batch (snd x))" and "\<And>m. set (heRangeOut E m) = set m"
  shows "\<exists>m. decodeOutputs E outs = Some m \<and> hashed E m (\<Union>x \<in> set outs. set (batch (snd x)))"
proof -
  have "\<exists>m'. bind_fold (\<lambda>(_, out) m. case heDecode E out of None \<Rightarrow> None | Some txx \<Rightarrow> Some (byHash E txx m)) xs m = Some m' \<and>
      hashed E m' (S \<union> (\<Union>x \<in> set xs. set (batch (snd x))))"
    if "\<forall>x \<in> set xs. heDecode E (snd x) = Some (batch (snd x))" "hashed E m S" for xs m S
    using that
  proof (induction xs arbitrary: m S)
    case (Cons x xs)
    have "hashed E (byHash E (batch (snd x)) m) (S \<union> set (batch (snd x)))" by (rule hashed_byHash [OF Cons.prems(2)])
    from Cons.IH [OF _ this] Cons.prems show ?case by (cases x) (simp add: Un_assoc)
  qed simp
  from this [of "heRangeOut E outs" "[]" "{}"] assms show ?thesis
    by (simp add: decodeOutputs_def hashed_def)
qed

lemma propose_frame:
  "hbBuffer (snd (propose E hb)) = hbBuffer hb" "hbOutputs (snd (propose E hb)) = hbOutputs hb"
  "hbEpoch (snd (propose E hb)) = hbEpoch hb"
  by (auto simp: propose_def getOrNewACSInstance_def putInstance_def takeMessages_def hb_addMessages_def Let_def
    split: option.splits prod.splits status.splits)

section \<open>Properties\<close>

text \<open>
  C34. What an epoch commits: when the common subset of the current epoch has an output whose batches decode,
  the engine commits, under that epoch, transactions with distinct hashes that are
  exactly those of the batches (so nodes with the same output commit the same hashes, in whatever order they iterate), removes
  exactly their hashes from the buffer, keeps the other commitments and moves on to the next epoch.
\<close>

theorem epoch_commit:
  assumes acs: "map_of (hbInstances hb) (hbEpoch hb) = Some acs" "acsOutput acs = Some outs" "outs \<noteq> []"
    and batches: "\<forall>x \<in> set outs. heDecode E (snd x) = Some (batch (snd x))"
    and range: "\<And>m. mset (heRange E m) = mset m" "\<And>m. set (heRangeOut E m) = set m"
    and ep: "hbEpoch hb + 1 < 2 ^ 64"
  shows "let hb' = snd (maybeProcessOutput E hb); T = \<Union>x \<in> set outs. set (batch (snd x)) in
    (\<exists>txs. hbOutputs hb' = AList.update (hbEpoch hb) txs (hbOutputs hb) \<and> distinct (map (heHash E) txs) \<and>
       heHash E ` set txs = heHash E ` T \<and> set txs \<subseteq> T) \<and>
    heHash E ` set (bufData (hbBuffer hb')) = heHash E ` set (bufData (hbBuffer hb)) - heHash E ` T \<and>
    set (bufData (hbBuffer hb')) \<subseteq> set (bufData (hbBuffer hb)) \<and> hbEpoch hb' = hbEpoch hb + 1"
proof -
  let ?T = "\<Union>x \<in> set outs. set (batch (snd x))"
  obtain m where m: "decodeOutputs E outs = Some m" "hashed E m ?T" using decodeOutputs_hashed [OF batches range(2)] by blast
  let ?txs = "map snd (heRange E m)"
  note txs = hashed_values [OF m(2) range(1)]
  let ?buf = "byHash E (bufData (hbBuffer hb)) []"
  have buf: "hashed E ?buf (set (bufData (hbBuffer hb)))" using hashed_byHash [OF hashed_empty, of E "bufData (hbBuffer hb)"] by simp
  define left where "left = fold (\<lambda>tx. AList.delete (heHash E tx)) ?txs ?buf"
  have range_left: "set (heRange E left) = set left" by (metis range(1) set_mset_mset)
  have in_buf: "set left \<subseteq> set ?buf" unfolding left_def by (rule deletes_subset)
  have own: "\<forall>x \<in> set ?buf. fst x = heHash E (snd x)" using buf unfolding hashed_def by blast
  have "heHash E (snd x) = fst x" if "x \<in> set left" for x by (rule own [rule_format, OF subsetD [OF in_buf that], symmetric])
  then have "(\<lambda>x. heHash E (snd x)) ` set left = fst ` set left" by (rule image_cong [OF refl])
  also have "\<dots> = heHash E ` set (bufData (hbBuffer hb)) - heHash E ` ?T"
    using conjunct1 [OF conjunct2 [OF txs]] conjunct1 [OF conjunct2 [OF conjunct2 [OF buf [unfolded hashed_def]]]]
    by (simp only: deletes_keys left_def)
  finally have keys: "(\<lambda>x. heHash E (snd x)) ` set left = heHash E ` set (bufData (hbBuffer hb)) - heHash E ` ?T" .
  have sub: "snd ` set left \<subseteq> set (bufData (hbBuffer hb))"
    by (rule order_trans [OF image_mono [OF in_buf]]) (use buf in \<open>simp only: hashed_def\<close>)
  have step: "snd (maybeProcessOutput E hb) = snd (propose E (commitBatch E ?txs (putInstance (hbEpoch hb) (acs\<lparr>acsOutput := None\<rparr>) hb)))"
    using acs m(1) by (simp add: maybeProcessOutput_def acs_takeOutput_def)
  have "bufData (buffer_delete E ?txs (hbBuffer hb)) = map snd (heRange E left)" by (simp add: buffer_delete_def left_def)
  then have "heHash E ` set (bufData (buffer_delete E ?txs (hbBuffer hb))) = heHash E ` set (bufData (hbBuffer hb)) - heHash E ` ?T"
    "set (bufData (buffer_delete E ?txs (hbBuffer hb))) \<subseteq> set (bufData (hbBuffer hb))"
    using keys sub by (simp_all add: range_left image_image)
  then show ?thesis unfolding step Let_def propose_frame
    using txs ep by (intro conjI exI [of _ ?txs]) (simp_all add: commitBatch_def putInstance_def)
qed

text \<open>The messages of an instance, as they enter the queue of the engine.\<close>

lemma addMessages_tags:
  "que (hbQue (hb_addMessages msgs hb)) =
     que (hbQue hb) @ map (\<lambda>m. \<lparr>mtTo = mtTo m, mtPayload = \<lparr>hmEpoch = hbEpoch hb, hmPayload = mtPayload m\<rparr>\<rparr>) msgs"
proof -
  have "que (fold (\<lambda>m. que_addMessage \<lparr>hmEpoch = k, hmPayload = mtPayload m\<rparr> (mtTo m)) msgs q) =
      que q @ map (\<lambda>m. \<lparr>mtTo = mtTo m, mtPayload = \<lparr>hmEpoch = k, hmPayload = mtPayload m\<rparr>\<rparr>) msgs" for k q
    by (induction msgs arbitrary: q) (simp_all add: que_addMessage_def)
  then show ?thesis by (simp add: hb_addMessages_def)
qed

lemma takeMessages_effect:
  "hbEpoch (takeMessages ep acs hb) = hbEpoch hb"
  "hbInstances (takeMessages ep acs hb) = AList.update ep (acs\<lparr>acsMessageQue := (acsMessageQue acs)\<lparr>que := []\<rparr>\<rparr>) (hbInstances hb)"
  "que (hbQue (takeMessages ep acs hb)) = que (hbQue hb) @
     map (\<lambda>m. \<lparr>mtTo = mtTo m, mtPayload = \<lparr>hmEpoch = hbEpoch hb, hmPayload = mtPayload m\<rparr>\<rparr>) (que (acsMessageQue acs))"
  by (simp_all add: takeMessages_def que_messages_def addMessages_tags) (simp_all add: hb_addMessages_def putInstance_def)

text \<open>
  C35. A message of a later epoch, handled without error: the answers of the instance of that epoch leave
  with the number of the current epoch, and while the engine is in epoch zero the clean-up of old
  epochs, whose bound wraps around, removes every instance, the running one included.
\<close>

theorem later_epoch_message:
  assumes handled: "hb_HandleMessage E sid ep msg hb = (NoErr, hb')" and later: "hbEpoch hb < ep"
    and keys: "ep < 2 ^ 64 - 1" "\<forall>x \<in> set (hbInstances hb). fst x < 2 ^ 64 - 1"
  shows "(\<exists>ms. que (hbQue hb') = que (hbQue hb) @ ms \<and> (\<forall>m \<in> set ms. hmEpoch (mtPayload m) = hbEpoch hb) \<and>
      (\<exists>acs acs'. acs_handleMessage (heLib E) (heOrd E) sid msg acs = (NoErr, acs') \<and> length ms = length (que (acsMessageQue acs')))) \<and>
    (hbEpoch hb = 0 \<longrightarrow> hbInstances hb' = [])"
proof -
  let ?hb = "hb\<lparr>hbMsgCount := hbMsgCount hb + 1\<rparr>"
  obtain acs hb1 where g: "getOrNewACSInstance E ep ?hb = Some (acs, hb1)"
    using handled later by (auto simp: hb_HandleMessage_def Let_def split: option.splits)
  have "hb1 = ?hb \<or> hb1 = putInstance ep acs ?hb" using g by (auto simp: getOrNewACSInstance_def split: option.splits)
  then have hb1: "hbEpoch hb1 = hbEpoch hb" "hbQue hb1 = hbQue hb" "fst ` set (hbInstances hb1) \<subseteq> insert ep (fst ` set (hbInstances hb))"
    by (elim disjE; simp add: putInstance_def dom_update subset_insertI)+
  obtain acs' where a: "acs_handleMessage (heLib E) (heOrd E) sid msg acs = (NoErr, acs')"
    using handled later g by (cases "acs_handleMessage (heLib E) (heOrd E) sid msg acs")
      (auto simp: hb_HandleMessage_def Let_def split: status.splits)
  have hb': "hb' = removeOldEpochs (takeMessages ep acs' hb1)"
    using handled later g a hb1(1) by (simp add: hb_HandleMessage_def Let_def takeMessages_effect)
  have "fst ` set (hbInstances (takeMessages ep acs' hb1)) \<subseteq> insert ep (fst ` set (hbInstances hb))"
    using hb1(3) by (simp add: takeMessages_effect dom_update)
  then have "\<forall>x \<in> set (hbInstances (takeMessages ep acs' hb1)). fst x < 2 ^ 64 - 1" using keys by fastforce
  moreover have "sub64 0 1 = 2 ^ 64 - 1" by (simp add: sub64_def)
  ultimately have "hbEpoch hb = 0 \<Longrightarrow> hbInstances hb' = []"
    unfolding hb' by (force simp: removeOldEpochs_def takeMessages_effect(1) hb1(1) filter_empty_conv)
  moreover have "que (hbQue hb') = que (hbQue hb) @
      map (\<lambda>m. \<lparr>mtTo = mtTo m, mtPayload = \<lparr>hmEpoch = hbEpoch hb, hmPayload = mtPayload m\<rparr>\<rparr>) (que (acsMessageQue acs'))"
    unfolding hb' by (simp add: removeOldEpochs_def takeMessages_effect hb1)
  ultimately show ?thesis using a by (auto intro!: exI [of _ acs'] exI)
qed

section \<open>An engine of four nodes\<close>

definition demo_hb_env :: "nat hb_env" where
  "demo_hb_env = \<lparr>heHash = (\<lambda>tx. [of_nat tx]), heEncode = (\<lambda>txs. Some (map of_nat txs)), heDecode = (\<lambda>bs. Some (map unat bs)),
     heRand = (\<lambda>i n. 0), heRange = (\<lambda>m. m), heRangeOut = (\<lambda>m. m),
     heLib = \<lparr>rsNew = (\<lambda>_ _. True), rsSplit = (\<lambda>_ _ d. Some [d]), rsEncode = (\<lambda>_ _ s. Some s), rsReconstruct = (\<lambda>_ _ _. None),
       mtProve = (\<lambda>_ _. ([], [], 0, 0)), mtVerify = (\<lambda>_ _ _ _. False), rangeOrder = (\<lambda>x. x)\<rparr>, heOrd = (\<lambda>x. x)\<rparr>"

definition demo_hb :: "nat HoneyBadger" where
  "demo_hb = AddTransaction 9 (AddTransaction 7 (putInstance 0 (demo_acs\<lparr>acsOutput := Some [(0, [7]), (2, [5, 7])]\<rparr>) (NewHoneyBadger (acsConfig demo_acs))))"

theorem epoch_commit_witness:
  "hbEpoch (snd (maybeProcessOutput demo_hb_env demo_hb)) = 1 \<and>
   heHash demo_hb_env ` set (bufData (hbBuffer (snd (maybeProcessOutput demo_hb_env demo_hb)))) = {[9]}"
proof -
  let ?acs = "demo_acs\<lparr>acsOutput := Some [(0, [7]), (2, [5, 7])]\<rparr>"
  have acs: "map_of (hbInstances demo_hb) (hbEpoch demo_hb) = Some ?acs" "acsOutput ?acs = Some [(0, [7]), (2, [5, 7])]" "[(0, [7]), (2, [5, 7])] \<noteq> []"
    and hb: "hbEpoch demo_hb = 0" "bufData (hbBuffer demo_hb) = [7, 9]"
    by (simp_all add: demo_hb_def putInstance_def NewHoneyBadger_def AddTransaction_def buffer_push_def newBuffer_def)
  have env: "\<forall>x \<in> set [(0 :: nat, [7]), (2, [5, 7])]. heDecode demo_hb_env (snd x) = Some (map unat (snd x))"
    "\<And>m. mset (heRange demo_hb_env m) = mset m" "\<And>m. set (heRangeOut demo_hb_env m) = set m" "hbEpoch demo_hb + 1 < 2 ^ 64"
    by (simp_all add: demo_hb_env_def hb)
  from epoch_commit [OF acs env] show ?thesis by (simp add: Let_def hb demo_hb_env_def insert_Diff_if)
qed

theorem later_epoch_message_witness:
  "hbInstances (snd (hb_HandleMessage demo_hb_env 1 1 \<lparr>acsProposerID = 0, acsPayload = AgreementPayload (NewAgreementMessage 0 (BvalRequest True))\<rparr> demo_hb)) = []"
proof -
  let ?r = "hb_HandleMessage demo_hb_env 1 1 \<lparr>acsProposerID = 0, acsPayload = AgreementPayload (NewAgreementMessage 0 (BvalRequest True))\<rparr> demo_hb"
  let ?m = "\<lparr>acsProposerID = 0, acsPayload = AgreementPayload (NewAgreementMessage 0 (BvalRequest True))\<rparr>"
  have "case newACS (heLib demo_hb_env) (acsConfig demo_acs) of
      None \<Rightarrow> False | Some acs \<Rightarrow> fst (acs_handleMessage (heLib demo_hb_env) (heOrd demo_hb_env) 1 ?m acs) = NoErr" by code_simp
  then obtain acs acs' where a: "newACS (heLib demo_hb_env) (acsConfig demo_acs) = Some acs"
    "acs_handleMessage (heLib demo_hb_env) (heOrd demo_hb_env) 1 ?m acs = (NoErr, acs')"
    by (auto split: option.splits) (metis prod.collapse)
  have "hbInstances demo_hb = [(0, demo_acs\<lparr>acsOutput := Some [(0, [7]), (2, [5, 7])]\<rparr>)]" "hbConfig demo_hb = acsConfig demo_acs" "hbEpoch demo_hb = 0"
    by (simp_all add: demo_hb_def putInstance_def NewHoneyBadger_def AddTransaction_def)
  with a have "fst ?r = NoErr"
    by (simp add: hb_HandleMessage_def getOrNewACSInstance_def Let_def takeMessages_effect) (simp add: putInstance_def)
  then have "?r = (NoErr, snd ?r)" by (simp add: prod_eq_iff)
  moreover have "hbEpoch demo_hb = 0" "\<forall>x \<in> set (hbInstances demo_hb). fst x < 2 ^ 64 - 1"
    by (simp_all add: demo_hb_def putInstance_def NewHoneyBadger_def AddTransaction_def)
  ultimately show ?thesis using later_epoch_message [of demo_hb_env 1 1 _ demo_hb "snd ?r"] by simp
qed

end
