(* ===== verification/Eval_Run.thy ===== *)
theory Eval_Run
  imports Node_Boot
begin

text \<open>
  How the evaluator judges runs of a cluster: \<^verbatim>\<open>tx_source.go\<close>, \<^verbatim>\<open>bindCorpusProvider\<close> of
  \<^verbatim>\<open>corpus_config.go\<close>, and of \<^verbatim>\<open>eval.go\<close> and \<^verbatim>\<open>eval_suite.go\<close> the functions that compare the
  results of the operators, find the critical one, classify and count the runs and lay out the rows of the
  CSV files. Starting processes, HTTP, files and the floating-point statistics are not modelled:
  \<open>summarizeScenarios\<close> takes the statistics of a list of samples as a parameter.
\<close>

section \<open>The standard library\<close>

text \<open>\<^verbatim>\<open>strings.Contains\<close>, \<^verbatim>\<open>strings.SplitN\<close> with limit two, \<^verbatim>\<open>strconv.Atoi\<close> and the wrap-around of \<^verbatim>\<open>int64\<close>.\<close>

primrec strContains :: "string \<Rightarrow> string \<Rightarrow> bool" where
  "strContains needle [] = (needle = [])"
| "strContains needle (c # cs) = (take (length needle) (c # cs) = needle \<or> strContains needle cs)"

definition splitOnce :: "char \<Rightarrow> string \<Rightarrow> (string \<times> string) option" where
  "splitOnce sep s = (if sep \<in> set s then Some (takeWhile (\<lambda>c. c \<noteq> sep) s, tl (dropWhile (\<lambda>c. c \<noteq> sep) s)) else None)"

definition Atoi :: "string \<Rightarrow> int option" where
  "Atoi s =
     (let neg = (s \<noteq> [] \<and> hd s = CHR ''-''); ds = (if s \<noteq> [] \<and> hd s \<in> {CHR ''-'', CHR ''+''} then tl s else s) in
      if ds = [] then None
      else case parseDigits 0 ds of
        None \<Rightarrow> None
      | Some v \<Rightarrow> let i = (if neg then - int v else int v) in if - (2 ^ 63) \<le> i \<and> i < 2 ^ 63 then Some i else None)"

definition wrapInt64 :: "int \<Rightarrow> int" where
  "wrapInt64 i = (i + 2 ^ 63) mod 2 ^ 64 - 2 ^ 63"

lemma wrapInt64_small: "- (2 ^ 63) \<le> i \<Longrightarrow> i < 2 ^ 63 \<Longrightarrow> wrapInt64 i = i"
  by (simp add: wrapInt64_def)

text \<open>Reading a missing key of a map of strings gives the empty string.\<close>

definition strAt :: "(string, string) gomap \<Rightarrow> string \<Rightarrow> string" where
  "strAt m k = (case map_of m k of None \<Rightarrow> [] | Some v \<Rightarrow> v)"

section \<open>Transaction sources\<close>

record corpusProvenance =
  cpSchemaVersion :: string
  cpCiphertextWireVersion :: string
  cpPublicConfigID :: string
  cpPlaintextMasterCorpusID :: string
  cpPlaintextPrefixSetIDs :: "(string, string) gomap"
  cpEncryptedCorpusID :: string
  cpEncryptedPrefixSetIDs :: "(string, string) gomap"
  cpBMax :: int
  cpAvailableCount :: int

record runCorpusIdentity =
  ciCiphertextWireVersion :: string
  ciPublicConfigID :: string
  ciPlaintextMasterCorpusID :: string
  ciPlaintextPrefixID :: string
  ciEncryptedCorpusID :: string
  ciEncryptedPrefixID :: string
  ciRequestedCount :: int

datatype eval_error =
    CorpusSchemaUnsupported
  | CorpusWireVersionUnsupported
  | CorpusBMaxMismatch
  | CorpusTooSmall
  | CorpusIdentityMissing
  | CorpusPrefixMissing
  | ManifestEntryInvalid
  | ManifestNodeCountInvalid
  | ManifestDuplicate int
  | MempoolURLRequired
  | TxSourceUnknown
  | FinalCampaignSource
  | CorpusSetupMismatch
  | ProviderRejected node_error
  | FaultEntryInvalid
  | FaultNodeInvalid
  | NodeCountUnsupported int
  | BatchSizeUnsupported int
  | BatchAboveBMax int
  | UnexpectedStreamMode string
  | ManifestStreamMode node_error
  | StreamModeMissing string
  | StreamModeMismatch string

definition validateCorpusProvenance :: "corpusProvenance \<Rightarrow> int \<Rightarrow> int \<Rightarrow> eval_error + unit" where
  "validateCorpusProvenance p bMax n =
     and_then (ensure (cpSchemaVersion p = ''bloc-encrypted-corpus-v1'') CorpusSchemaUnsupported) (\<lambda>_.
     and_then (ensure (cpCiphertextWireVersion p = LibraryVersion) CorpusWireVersionUnsupported) (\<lambda>_.
     and_then (ensure (cpBMax p = bMax) CorpusBMaxMismatch) (\<lambda>_.
     and_then (ensure (\<not> (n \<le> 0 \<or> cpAvailableCount p < n)) CorpusTooSmall) (\<lambda>_.
     and_then (ensure (\<not> (cpPublicConfigID p = [] \<or> cpPlaintextMasterCorpusID p = [] \<or> cpEncryptedCorpusID p = []))
       CorpusIdentityMissing) (\<lambda>_.
     ensure (\<not> (strAt (cpPlaintextPrefixSetIDs p) (showInt n) = [] \<or> strAt (cpEncryptedPrefixSetIDs p) (showInt n) = []))
       CorpusPrefixMissing)))))"

definition corpusIdentityForCount :: "corpusProvenance \<Rightarrow> int \<Rightarrow> runCorpusIdentity" where
  "corpusIdentityForCount p n =
     \<lparr>ciCiphertextWireVersion = cpCiphertextWireVersion p, ciPublicConfigID = cpPublicConfigID p,
      ciPlaintextMasterCorpusID = cpPlaintextMasterCorpusID p,
      ciPlaintextPrefixID = strAt (cpPlaintextPrefixSetIDs p) (showInt n),
      ciEncryptedCorpusID = cpEncryptedCorpusID p,
      ciEncryptedPrefixID = strAt (cpEncryptedPrefixSetIDs p) (showInt n), ciRequestedCount = n\<rparr>"

primrec parseManifestEntries ::
  "merge_env \<Rightarrow> string list \<Rightarrow> (int, string) gomap \<Rightarrow> eval_error + (int, string) gomap" where
  "parseManifestEntries M [] paths = Inr paths"
| "parseManifestEntries M (entry # entries) paths =
     (case splitOnce (CHR ''='') (TrimSpace (meUniTrim M) entry) of
        None \<Rightarrow> Inl ManifestEntryInvalid
      | Some (left, right) \<Rightarrow>
          if TrimSpace (meUniTrim M) right = [] then Inl ManifestEntryInvalid
          else case Atoi left of
            None \<Rightarrow> Inl ManifestNodeCountInvalid
          | Some nodes \<Rightarrow>
              if nodes \<le> 0 then Inl ManifestNodeCountInvalid
              else if has_key paths nodes then Inl (ManifestDuplicate nodes)
              else parseManifestEntries M entries (AList.update nodes (TrimSpace (meUniTrim M) right) paths))"

definition parseCorpusManifestPaths :: "merge_env \<Rightarrow> string \<Rightarrow> eval_error + (int, string) gomap" where
  "parseCorpusManifestPaths M raw =
     (if TrimSpace (meUniTrim M) raw = [] then Inr [] else parseManifestEntries M (splitCommas [] raw) [])"

definition validateTxSource :: "string \<Rightarrow> string \<Rightarrow> eval_error + unit" where
  "validateTxSource src mempoolURL =
     (if src = [] \<or> src = ''synthetic'' then Inr ()
      else if src = ''mock-placeholder'' \<or> src = ''mock-encrypted-corpus'' then ensure (mempoolURL \<noteq> []) MempoolURLRequired
      else Inl TxSourceUnknown)"

definition validateFinalCampaignTxSource :: "string \<Rightarrow> string \<Rightarrow> eval_error + unit" where
  "validateFinalCampaignTxSource src mempoolURL =
     and_then (ensure (src = ''mock-encrypted-corpus'') FinalCampaignSource) (\<lambda>_. validateTxSource src mempoolURL)"

definition usesMempoolSource :: "string \<Rightarrow> bool" where
  "usesMempoolSource src \<longleftrightarrow> src = ''mock-placeholder'' \<or> src = ''mock-encrypted-corpus''"

definition txSourceManifestMeta :: "string \<Rightarrow> string \<Rightarrow> (string, string) gomap" where
  "txSourceManifestMeta src0 mempoolURL =
     (let src = (if src0 = [] then ''synthetic'' else src0);
          m1 = [(''source'', src)];
          m2 = (if usesMempoolSource src then AList.update ''mempool_url'' mempoolURL m1 else m1);
          m3 = (if src = ''mock-placeholder'' then AList.update ''model'' ''development placeholder source'' m2 else m2)
      in if src = ''mock-encrypted-corpus''
         then AList.update ''model'' ''immutable cluster-specific encrypted corpus prefixes'' m3 else m3)"

definition bindCorpusProvider :: "corpusProvenance \<Rightarrow> string \<Rightarrow> string \<Rightarrow> ConfigFile \<Rightarrow> eval_error + ConfigFile" where
  "bindCorpusProvider p computedPublicID mempoolURL cfg =
     and_then (ensure (cpPublicConfigID p = computedPublicID) CorpusSetupMismatch) (\<lambda>_.
     let provider = \<lparr>pcMode = ''mempool-http'', pcMempoolURL = mempoolURL, pcMempoolTimeoutMS = defaultMempoolTimeoutMS,
           pcExpectedPublicConfigID = cpPublicConfigID p, pcExpectedPlaintextMasterID = cpPlaintextMasterCorpusID p,
           pcExpectedEncryptedCorpusID = cpEncryptedCorpusID p, pcExpectedEncryptedPrefixSetIDs = cpEncryptedPrefixSetIDs p,
           pcRequireExactCount = True\<rparr>
     in case validateProviderConfig provider of
          Inl e \<Rightarrow> Inl (ProviderRejected e)
        | Inr _ \<Rightarrow> Inr (cfg\<lparr>cfProvider := provider\<rparr>))"

section \<open>Runs\<close>

text \<open>The zero values of the metrics and of a result.\<close>

definition zeroMetrics :: Metrics where
  "zeroMetrics = \<lparr>mxSubmittedTxs = 0, mxSubmittedBytes = 0, mxProposalTxs = 0, mxProposalHash = [], mxAgreedLists = 0,
     mxAgreedSetHash = [], mxAgreedCiphertexts = 0, mxMergedSetHash = [], mxSelectedCiphertexts = 0,
     mxSkippedCiphertexts = 0, mxSelectedGas = 0, mxMaxDecryptedGas = 0, mxMaxDecryptedTxs = 0, mxSubBatches = 0,
     mxSharesGenerated = 0, mxSharesAccepted = 0, mxSharesRejected = 0, mxShareSubsetAttempts = 0,
     mxCombineAttempts = 0, mxSharesNeededPerSub = 0, mxOutboundMessages = [], mxInboundMessages = [],
     mxOutboundBytes = [], mxInboundBytes = [], mxSlotStartUnixNano = 0, mxProposalReadyUnixNano = 0,
     mxACSDecisionUnixNano = 0, mxPlanDoneUnixNano = 0, mxShareGenerationStartUnixNano = 0, mxSharesDoneUnixNano = 0,
     mxFirstShareUnixNano = 0, mxThresholdUnixNano = 0, mxCombineDoneUnixNano = 0, mxMaterializedUnixNano = 0,
     mxProposalPreparationUS = 0, mxACSUS = 0, mxMergePlanUS = 0, mxACSOutputDecodeUS = 0, mxAgreedSetUS = 0,
     mxMergeUS = 0, mxCiphertextDecodeUS = 0, mxBatchPlanUS = 0, mxShareGenerationUS = 0, mxThresholdWaitUS = 0,
     mxCombineUS = 0, mxMaterializationUS = 0, mxCommitToPlaintextUS = 0, mxTotalSlotUS = 0,
     mxMetricsFinalized = False, mxACSMS = 0, mxPlanMS = 0, mxShareGenerationMS = 0, mxCommitToPlaintextMS = 0,
     mxTotalSlotMS = 0\<rparr>"

definition zeroResult :: Result where
  "zeroResult = \<lparr>rsSlot = 0, rsNodeID = 0, rsBatchID = [], rsCiphertexts = 0, rsPlaintexts = [], rsMaterialized = zeroMaterial,
     rsLatencyMS = 0, rsMetrics = zeroMetrics, rsACSTrace = emptyTrace\<rparr>"

record EvalRun =
  evRunID :: string
  evScenarioID :: string
  evPhase :: string
  evIteration :: int
  evOrderIndex :: int
  evMeasurementBlock :: int
  evBlockIteration :: int
  evScheduleSeed :: int
  evPlannedScenarioRuns :: int
  evSlot :: nat
  evClusterGeneration :: int
  evNodes :: int
  evThreshold :: int
  evBMax :: int
  evBatchSize :: int
  evTxSize :: int
  evTxGas :: "64 word"
  evTxSource :: string
  evCorpus :: "runCorpusIdentity option"
  evReceivedTxCount :: int
  evMaxDecryptedGas :: "64 word"
  evMaxDecryptedTxs :: int
  evNetwork :: string
  evStreamMode :: string
  evFaults :: "(nat, string) gomap"
  evSuccess :: bool
  evConsistent :: bool
  evOutcome :: string
  evDeadlineMet :: bool
  evTimedOut :: bool
  evError :: string
  evStartedAt :: time
  evFinishedAt :: time
  evHarnessWallUS :: int
  evPrepareUS :: int
  evSubmissionUS :: int
  evStartSkewUS :: int
  evCriticalNodeID :: nat
  evResults :: "Result list"

definition zeroRun :: EvalRun where
  "zeroRun = \<lparr>evRunID = [], evScenarioID = [], evPhase = [], evIteration = 0, evOrderIndex = 0, evMeasurementBlock = 0,
     evBlockIteration = 0, evScheduleSeed = 0, evPlannedScenarioRuns = 0, evSlot = 0, evClusterGeneration = 0,
     evNodes = 0, evThreshold = 0, evBMax = 0, evBatchSize = 0, evTxSize = 0, evTxGas = 0, evTxSource = [],
     evCorpus = None, evReceivedTxCount = 0, evMaxDecryptedGas = 0, evMaxDecryptedTxs = 0, evNetwork = [],
     evStreamMode = [], evFaults = [], evSuccess = False, evConsistent = False, evOutcome = [], evDeadlineMet = False,
     evTimedOut = False, evError = [], evStartedAt = zeroTime, evFinishedAt = zeroTime, evHarnessWallUS = 0,
     evPrepareUS = 0, evSubmissionUS = 0, evStartSkewUS = 0, evCriticalNodeID = 0, evResults = []\<rparr>"

definition resultStartSkewUS :: "Result list \<Rightarrow> int" where
  "resultStartSkewUS results =
     (if length results < 2 then 0
      else let stamps = map (mxSlotStartUnixNano \<circ> rsMetrics) results;
               (lo, hi) = fold (\<lambda>s (lo, hi). (if s < lo then s else lo, if hi < s then s else hi)) (tl stamps) (hd stamps, hd stamps)
           in wrapInt64 (hi - lo) sdiv 1000)"

definition criticalStep :: "Result \<Rightarrow> nat \<times> int \<Rightarrow> nat \<times> int" where
  "criticalStep r = (\<lambda>(i, top).
     if top < mxTotalSlotUS (rsMetrics r) \<or> (mxTotalSlotUS (rsMetrics r) = top \<and> rsNodeID r < i)
     then (rsNodeID r, mxTotalSlotUS (rsMetrics r)) else (i, top))"

definition criticalNodeID :: "Result list \<Rightarrow> nat" where
  "criticalNodeID results = fst (fold criticalStep results (0, -1))"

definition resultsConsistent :: "Result list \<Rightarrow> bool" where
  "resultsConsistent results =
     (case results of
        [] \<Rightarrow> False
      | first # rest \<Rightarrow>
          list_all (\<lambda>r.
            rsBatchID r = rsBatchID first \<and>
            joinWith [CHR 0x0A] (rsPlaintexts r) = joinWith [CHR 0x0A] (rsPlaintexts first) \<and>
            mtMergedSetHash (rsMaterialized r) = mtMergedSetHash (rsMaterialized first) \<and>
            mtSelectedGas (rsMaterialized r) = mtSelectedGas (rsMaterialized first) \<and>
            joinWith [CHR 0x0A] (mtPlaintextHashes (rsMaterialized r)) = joinWith [CHR 0x0A] (mtPlaintextHashes (rsMaterialized first)) \<and>
            joinWith [CHR 0x0A] (mtEthereumTxHashes (rsMaterialized r)) = joinWith [CHR 0x0A] (mtEthereumTxHashes (rsMaterialized first))) rest)"

primrec parseFaultEntries :: "merge_env \<Rightarrow> string list \<Rightarrow> (nat, string) gomap \<Rightarrow> eval_error + (nat, string) gomap" where
  "parseFaultEntries M [] out = Inr out"
| "parseFaultEntries M (entry # entries) out =
     (case splitOnce (CHR '':'') (TrimSpace (meUniTrim M) entry) of
        None \<Rightarrow> Inl FaultEntryInvalid
      | Some (left, right) \<Rightarrow>
          (case parseUint64 left of
             None \<Rightarrow> Inl FaultNodeInvalid
           | Some i \<Rightarrow> parseFaultEntries M entries (AList.update i right out)))"

definition parseEvalFault :: "merge_env \<Rightarrow> string \<Rightarrow> eval_error + (nat, string) gomap" where
  "parseEvalFault M raw =
     (if TrimSpace (meUniTrim M) raw = [] then Inr [] else parseFaultEntries M (splitCommas [] raw) [])"

definition criticalResult :: "EvalRun \<Rightarrow> Result option" where
  "criticalResult run = find (\<lambda>r. rsNodeID r = evCriticalNodeID run) (evResults run)"

definition criticalTotalUS :: "EvalRun \<Rightarrow> int" where
  "criticalTotalUS run = (case criticalResult run of None \<Rightarrow> 0 | Some r \<Rightarrow> mxTotalSlotUS (rsMetrics r))"

text \<open>
  What \<^verbatim>\<open>runLocalExperiment\<close> records of the results it polled; \<open>finished\<close> says that the poll ended
  without an error.
\<close>

definition judgeResults :: "Result list \<Rightarrow> bool \<Rightarrow> EvalRun \<Rightarrow> EvalRun" where
  "judgeResults results finished run =
     run\<lparr>evResults := results, evStartSkewUS := resultStartSkewUS results, evCriticalNodeID := criticalNodeID results,
         evConsistent := resultsConsistent results, evSuccess := (finished \<and> resultsConsistent results)\<rparr>"

text \<open>\<open>runErr\<close> is the message of the error of the run; \<open>deadline\<close> is in nanoseconds.\<close>

definition classifyRunOutcome :: "merge_env \<Rightarrow> string option \<Rightarrow> duration \<Rightarrow> EvalRun \<Rightarrow> EvalRun" where
  "classifyRunOutcome M runErr deadline run =
     (if evSuccess run \<and> evConsistent run then
        let totalUS = criticalTotalUS run in
        run\<lparr>evOutcome := ''completed'', evDeadlineMet := (0 < totalUS \<and> totalUS \<le> Microseconds deadline), evTimedOut := False\<rparr>
      else
        let m0 = ToLower (meUniLower M) (evError run);
            message = (case runErr of Some e \<Rightarrow> if m0 = [] then ToLower (meUniLower M) e else m0 | None \<Rightarrow> m0);
            timedOut = (strContains ''timed out'' message \<or> strContains ''timeout'' message \<or> strContains ''deadline exceeded'' message)
        in run\<lparr>evTimedOut := timedOut, evOutcome := (if timedOut then ''timed_out'' else ''failed''), evDeadlineMet := False\<rparr>)"

definition shouldRecoverPersistentCluster :: "merge_env \<Rightarrow> EvalRun \<Rightarrow> string option \<Rightarrow> bool" where
  "shouldRecoverPersistentCluster M run runErr =
     (case runErr of
        None \<Rightarrow> False
      | Some e \<Rightarrow> \<not> evTimedOut run \<and> \<not> strContains ''reported terminal failure'' (ToLower (meUniLower M) e))"


section \<open>The suite\<close>

record evalScenario =
  scID :: string
  scNodes :: int
  scThresholdOf :: int
  scBatchSize :: int
  scNetwork :: string

text \<open>The fields of the manifest that the checks below read.\<close>

record suiteManifest =
  smACSTraceSchema :: string
  smStreamMode :: string

definition scenarioOf :: "int \<Rightarrow> int \<Rightarrow> evalScenario" where
  "scenarioOf n batch =
     \<lparr>scID = ''n'' @ showInt n @ ''-b'' @ showInt batch @ ''-libp2p'', scNodes = n,
      scThresholdOf = 2 * ((n - 1) sdiv 3) + 1, scBatchSize = batch, scNetwork = ''libp2p''\<rparr>"

definition scenarioFor :: "int \<Rightarrow> int \<Rightarrow> int \<Rightarrow> eval_error + evalScenario" where
  "scenarioFor bmax n batch =
     and_then (ensure (batch \<in> {8, 32, 128, 512}) (BatchSizeUnsupported batch)) (\<lambda>_.
     and_then (ensure (batch \<le> bmax) (BatchAboveBMax batch)) (\<lambda>_. Inr (scenarioOf n batch)))"

definition buildScenarios :: "int list \<Rightarrow> int list \<Rightarrow> int \<Rightarrow> eval_error + evalScenario list" where
  "buildScenarios nodes batches bmax =
     and_then (each (\<lambda>n.
       and_then (ensure (n \<in> {4, 7, 10}) (NodeCountUnsupported n)) (\<lambda>_. each (scenarioFor bmax n) batches)) nodes) (Inr \<circ> concat)"

definition suiteCollectionComplete :: "int \<Rightarrow> EvalRun list \<Rightarrow> bool" where
  "suiteCollectionComplete plannedRuns runs \<longleftrightarrow>
     int (length (filter (\<lambda>run. evPhase run = ''warmup'' \<or> evPhase run = ''measured'') runs)) = plannedRuns"

definition validateSuiteStreamMode :: "suiteManifest \<Rightarrow> EvalRun list \<Rightarrow> eval_error + unit" where
  "validateSuiteStreamMode manifest runs =
     (if smStreamMode manifest = [] then
        and_then (each (\<lambda>run. ensure (evStreamMode run = []) (UnexpectedStreamMode (evRunID run))) runs) (\<lambda>_. Inr ())
      else case validateNetworkConfig \<lparr>nwMode = ''libp2p'', nwStreamMode = smStreamMode manifest\<rparr> of
        Inl e \<Rightarrow> Inl (ManifestStreamMode e)
      | Inr _ \<Rightarrow>
          and_then (each (\<lambda>run.
            and_then (ensure (evStreamMode run \<noteq> []) (StreamModeMissing (evRunID run))) (\<lambda>_.
            ensure (evStreamMode run = smStreamMode manifest) (StreamModeMismatch (evRunID run)))) runs) (\<lambda>_. Inr ()))"

definition latencyMetricNames :: "string list" where
  "latencyMetricNames = [''total_slot_us'', ''proposal_preparation_us'', ''acs_us'', ''merge_plan_us'', ''acs_output_decode_us'',
     ''agreed_set_us'', ''merge_us'', ''ciphertext_decode_us'', ''batch_plan_us'', ''share_generation_us'', ''threshold_wait_us'',
     ''combine_us'', ''materialization_us'', ''commit_to_plaintext_us'', ''harness_wall_us'', ''start_skew_us'']"

text \<open>The samples stay integers; their conversion to floating point belongs to the statistics.\<close>

definition metricValues :: "EvalRun \<Rightarrow> Result \<Rightarrow> (string, int) gomap" where
  "metricValues run result =
     (let m = rsMetrics result in
      [(''total_slot_us'', mxTotalSlotUS m), (''proposal_preparation_us'', mxProposalPreparationUS m),
       (''acs_us'', mxACSUS m), (''merge_plan_us'', mxMergePlanUS m),
       (''acs_output_decode_us'', mxACSOutputDecodeUS m), (''agreed_set_us'', mxAgreedSetUS m),
       (''merge_us'', mxMergeUS m), (''ciphertext_decode_us'', mxCiphertextDecodeUS m),
       (''batch_plan_us'', mxBatchPlanUS m),
       (''share_generation_us'', mxShareGenerationUS m), (''threshold_wait_us'', mxThresholdWaitUS m),
       (''combine_us'', mxCombineUS m), (''materialization_us'', mxMaterializationUS m),
       (''commit_to_plaintext_us'', mxCommitToPlaintextUS m),
       (''harness_wall_us'', evHarnessWallUS run),
       (''start_skew_us'', evStartSkewUS run)])"

record 'm scenarioSummary =
  ssmScenarioID :: string
  ssmNodes :: int
  ssmBatchSize :: int
  ssmNetwork :: string
  ssmAttempted :: nat
  ssmCompleted :: nat
  ssmSucceeded :: nat
  ssmConsistentWithinDeadline :: nat
  ssmFailed :: nat
  ssmTimedOut :: nat
  ssmMetrics :: "(string, 'm) gomap"

definition zeroSummary :: "'m scenarioSummary" where
  "zeroSummary = \<lparr>ssmScenarioID = [], ssmNodes = 0, ssmBatchSize = 0, ssmNetwork = [], ssmAttempted = 0, ssmCompleted = 0,
     ssmSucceeded = 0, ssmConsistentWithinDeadline = 0, ssmFailed = 0, ssmTimedOut = 0, ssmMetrics = []\<rparr>"

type_synonym samples = "(string, (string, int list) gomap) gomap"

definition sampleOf :: "samples \<Rightarrow> string \<Rightarrow> string \<Rightarrow> int list" where
  "sampleOf values scenario name =
     (case map_of values scenario of
        None \<Rightarrow> []
      | Some m \<Rightarrow> (case map_of m name of None \<Rightarrow> [] | Some xs \<Rightarrow> xs))"

definition addSample :: "string \<Rightarrow> string \<times> int \<Rightarrow> samples \<Rightarrow> samples" where
  "addSample scenario = (\<lambda>(name, v) values.
     AList.update scenario (AList.update name (sampleOf values scenario name @ [v])
       (case map_of values scenario of None \<Rightarrow> [] | Some m \<Rightarrow> m)) values)"

definition countOf :: "(string, 'm scenarioSummary) gomap \<Rightarrow> string \<Rightarrow> 'm scenarioSummary" where
  "countOf counts scenario = (case map_of counts scenario of None \<Rightarrow> zeroSummary | Some c \<Rightarrow> c)"

definition countedRun :: "EvalRun \<Rightarrow> bool" where
  "countedRun run \<longleftrightarrow> evSuccess run \<and> evConsistent run \<and> criticalResult run \<noteq> None"

definition countRun :: "EvalRun \<Rightarrow> 'm scenarioSummary \<Rightarrow> 'm scenarioSummary" where
  "countRun run c0 =
     (let c = c0\<lparr>ssmAttempted := ssmAttempted c0 + 1\<rparr> in
      if countedRun run then
        c\<lparr>ssmCompleted := ssmCompleted c + 1, ssmSucceeded := ssmSucceeded c + 1,
          ssmConsistentWithinDeadline := (if evDeadlineMet run then ssmConsistentWithinDeadline c + 1 else ssmConsistentWithinDeadline c)\<rparr>
      else if evTimedOut run \<or> evOutcome run = ''timed_out'' then c\<lparr>ssmTimedOut := ssmTimedOut c + 1\<rparr>
      else c\<lparr>ssmFailed := ssmFailed c + 1\<rparr>)"

definition tallyRun ::
  "EvalRun \<Rightarrow> (string, 'm scenarioSummary) gomap \<times> samples \<Rightarrow> (string, 'm scenarioSummary) gomap \<times> samples" where
  "tallyRun run = (\<lambda>(counts, values).
     if evPhase run \<noteq> ''measured'' then (counts, values)
     else (AList.update (evScenarioID run) (countRun run (countOf counts (evScenarioID run))) counts,
           if countedRun run then fold (addSample (evScenarioID run)) (metricValues run (the (criticalResult run))) values else values))"

definition summarizeScenarios :: "(int list \<Rightarrow> 'm) \<Rightarrow> evalScenario list \<Rightarrow> EvalRun list \<Rightarrow> 'm scenarioSummary list" where
  "summarizeScenarios summarizeMetric scenarios runs =
     (let (counts, values) = fold tallyRun runs ([], []) in
      map (\<lambda>sc. (countOf counts (scID sc))\<lparr>ssmScenarioID := scID sc, ssmNodes := scNodes sc, ssmBatchSize := scBatchSize sc,
          ssmNetwork := scNetwork sc,
          ssmMetrics := map (\<lambda>name. (name, summarizeMetric (sampleOf values (scID sc) name))) latencyMetricNames\<rparr>) scenarios)"

end
