(* ===== verification/Trace_Artifact.thy ===== *)
theory Trace_Artifact
  imports Eval_Run Trace_Facts Rbc_Agreement
begin

text \<open>
  The trace artifact of an evaluation, \<^verbatim>\<open>bloc-node/internal/app/acs_trace_artifact.go\<close>: the records
  written for every result of every run, and the validator that reads the file back and checks each
  record against the protocol and against the results.

  A check that returns its first error is a list of checks, \<open>firstError\<close>. The JSON encoder and
  decoder and the file operations are the parameter \<open>artifact_env\<close>. A nil slice and an empty slice
  are the same here, although \<^verbatim>\<open>reflect.DeepEqual\<close> tells them apart; a run with at least one node has
  neither. Where a check ranges over a map, only the choice of the reported error depends on the order.
\<close>

section \<open>Records\<close>

record acsTraceArtifactKey =
  akMeasurementBlock :: int
  akRunID :: string
  akNodeID :: nat
  akSlot :: nat

record acsTraceRunKey =
  rkMeasurementBlock :: int
  rkRunID :: string
  rkSlot :: nat

record acsRBCTraceRecord =
  arProposerID :: nat
  arTrace :: RBCTrace

record acsBBATraceRecord =
  abProposerID :: nat
  abTrace :: BBATrace

record acsMessageTraceRecord =
  amSubtype :: ACSMessageSubtype
  amTrace :: ACSMessageTrace

record acsTraceArtifactRecord =
  taKey :: acsTraceArtifactKey
  taSchemaVersion :: string
  taEnabled :: bool
  taTransport :: ACSTransportTrace
  taAggregate :: ACSAggregateTrace
  taWait :: ACSWaitTrace
  taAdapter :: ACSAdapterTrace
  taRBC :: "acsRBCTraceRecord list"
  taBBA :: "acsBBATraceRecord list"
  taMessages :: "acsMessageTraceRecord list"

record expectedACSTraceArtifact =
  exRecord :: acsTraceArtifactRecord
  exLegacyACSUS :: int

datatype record_error =
    TransportNotFinal
  | NegativeOffset string
  | MissingPoint string
  | MissingEither string string
  | OccursAfter string string
  | NegativeWait
  | UnknownProposer string nat
  | DuplicateProposer string nat
  | ImpossibleOrder string nat
  | MissingProposers string
  | MissingReadyTrigger
  | InvalidReadyTrigger
  | InvalidReadyCounts
  | ReadyThreshold
  | ReadyHistory
  | UnknownSubtype
  | DuplicateSubtype
  | NegativeSendDuration
  | PhaseCountMismatch string
  | PhaseDurationInvalid string
  | StreamCountMismatch
  | LifecycleMismatch
  | MissingSubtype ACSMessageSubtype
  | MessageMismatch
  | TraceMismatch
  | LegacyMismatch

datatype artifact_error =
    SchemaMissing string nat
  | SchemasMixed string string
  | SchemaNotCurrent string
  | SchemaUnsupported string
  | TraceNotEnabled string nat
  | ResultSchemaMismatch string nat
  | DuplicateResultKey acsTraceArtifactKey
  | ArtifactOpenFailed
  | ArtifactDecodeFailed
  | DuplicateKey acsTraceArtifactKey
  | KeysOutOfOrder acsTraceArtifactKey
  | UnexpectedKey acsTraceArtifactKey
  | RecordSchemaMismatch acsTraceArtifactKey
  | RecordNotEnabled acsTraceArtifactKey
  | RecordInvalid acsTraceArtifactKey record_error
  | MissingNodeTrace acsTraceArtifactKey
  | ArtifactCreateFailed
  | ArtifactEncodeFailed
  | ArtifactFlushFailed
  | ArtifactCloseFailed

text \<open>An error wrapped with its context.\<close>

definition wrapError :: "('e \<Rightarrow> 'f) \<Rightarrow> 'e + 'a \<Rightarrow> 'f + 'a" where
  "wrapError f r = (case r of Inl e \<Rightarrow> Inl (f e) | Inr x \<Rightarrow> Inr x)"

lemma wrapError_ok [simp]: "wrapError f r = Inr x \<longleftrightarrow> r = Inr x"
  by (cases r) (simp_all add: wrapError_def)

fun firstError :: "('e + unit) list \<Rightarrow> 'e + unit" where
  "firstError [] = Inr ()"
| "firstError (Inl e # cs) = Inl e"
| "firstError (Inr _ # cs) = firstError cs"

lemma firstError_ok: "firstError cs = Inr u \<longleftrightarrow> (\<forall>c \<in> set cs. c = Inr ())"
  by (induction cs rule: firstError.induct) auto

section \<open>Building the records\<close>

definition subtypeString :: "ACSMessageSubtype \<Rightarrow> string" where
  "subtypeString t = (case t of ACSMessageProof \<Rightarrow> ''proof'' | ACSMessageEcho \<Rightarrow> ''echo'' | ACSMessageReady \<Rightarrow> ''ready''
     | ACSMessageBVAL \<Rightarrow> ''bval'' | ACSMessageAUX \<Rightarrow> ''aux'' | OtherSubtype s \<Rightarrow> s)"

definition orderedACSMessageSubtypes :: "ACSMessageSubtype list" where
  "orderedACSMessageSubtypes = [ACSMessageProof, ACSMessageEcho, ACSMessageReady, ACSMessageBVAL, ACSMessageAUX]"

definition acsTraceLegacyToleranceUS :: int where
  "acsTraceLegacyToleranceUS = 5000"

text \<open>The position of a known subtype, \<open>None\<close> for another one.\<close>

primrec subtypePosition :: "nat \<Rightarrow> ACSMessageSubtype list \<Rightarrow> ACSMessageSubtype \<Rightarrow> nat option" where
  "subtypePosition i [] t = None"
| "subtypePosition i (known # rest) t = (if t = known then Some i else subtypePosition (Suc i) rest t)"

definition acsMessageSubtypeOrder :: "ACSMessageSubtype \<Rightarrow> nat option" where
  "acsMessageSubtypeOrder t = subtypePosition 0 orderedACSMessageSubtypes t"

definition subtypeLess :: "ACSMessageSubtype \<Rightarrow> ACSMessageSubtype \<Rightarrow> bool" where
  "subtypeLess a b =
     (case (acsMessageSubtypeOrder a, acsMessageSubtypeOrder b) of
        (Some i, Some j) \<Rightarrow> i < j
      | (Some _, None) \<Rightarrow> True
      | (None, Some _) \<Rightarrow> False
      | (None, None) \<Rightarrow> subtypeString a < subtypeString b)"

definition newACSTraceArtifactRecord :: "EvalRun \<Rightarrow> Result \<Rightarrow> acsTraceArtifactRecord" where
  "newACSTraceArtifactRecord run result =
     (let trace = rsACSTrace result in
      \<lparr>taKey = \<lparr>akMeasurementBlock = evMeasurementBlock run, akRunID = evRunID run, akNodeID = rsNodeID result, akSlot = evSlot run\<rparr>,
       taSchemaVersion = SchemaVersion trace, taEnabled = Enabled trace, taTransport = Transport trace,
       taAggregate = Aggregate trace, taWait = Wait trace, taAdapter = Adapter trace,
       taRBC = map (\<lambda>p. \<lparr>arProposerID = p, arTrace = the (map_of (RBCs trace) p)\<rparr>) (sortSlice (<) (map fst (RBCs trace))),
       taBBA = map (\<lambda>p. \<lparr>abProposerID = p, abTrace = the (map_of (BBAs trace) p)\<rparr>) (sortSlice (<) (map fst (BBAs trace))),
       taMessages = map (\<lambda>t. \<lparr>amSubtype = t, amTrace = the (map_of (Messages trace) t)\<rparr>)
         (sortSlice subtypeLess (map fst (Messages trace)))\<rparr>)"

definition acsTraceKeyLess :: "acsTraceArtifactKey \<Rightarrow> acsTraceArtifactKey \<Rightarrow> bool" where
  "acsTraceKeyLess l r =
     (if akMeasurementBlock l \<noteq> akMeasurementBlock r then akMeasurementBlock l < akMeasurementBlock r
      else if akRunID l \<noteq> akRunID r then akRunID l < akRunID r
      else if akNodeID l \<noteq> akNodeID r then akNodeID l < akNodeID r
      else akSlot l < akSlot r)"

primrec schemaLoop :: "(EvalRun \<times> Result) list \<Rightarrow> string \<Rightarrow> artifact_error + string" where
  "schemaLoop [] schema = Inr schema"
| "schemaLoop (x # xs) schema =
     (let run = fst x; trace = rsACSTrace (snd x) in
      if \<not> Enabled trace then schemaLoop xs schema
      else if SchemaVersion trace = [] then Inl (SchemaMissing (evRunID run) (rsNodeID (snd x)))
      else if schema = [] then schemaLoop xs (SchemaVersion trace)
      else if SchemaVersion trace \<noteq> schema then Inl (SchemasMixed schema (SchemaVersion trace))
      else schemaLoop xs schema)"

definition resultsOf :: "EvalRun list \<Rightarrow> (EvalRun \<times> Result) list" where
  "resultsOf runs = concat (map (\<lambda>run. map (Pair run) (evResults run)) runs)"

definition acsTraceSchemaForRuns :: "EvalRun list \<Rightarrow> artifact_error + string" where
  "acsTraceSchemaForRuns runs =
     and_then (schemaLoop (resultsOf runs) []) (\<lambda>schema.
       and_then (ensure (\<not> (schema \<noteq> [] \<and> schema \<noteq> ACSTraceSchemaVersion)) (SchemaNotCurrent schema)) (\<lambda>_. Inr schema))"

section \<open>The file\<close>

text \<open>
  \<open>aeEncode\<close> is one call of the encoder, \<open>aeStream\<close> the records the decoder returns until its
  first error and whether that error is the end of the file. \<open>aeSpilled\<close> is what a buffered
  writer that is abandoned has already written.
\<close>

record artifact_env =
  aeEncode :: "acsTraceArtifactRecord \<Rightarrow> bytes option"
  aeStream :: "bytes \<Rightarrow> acsTraceArtifactRecord list \<times> bool"
  aeCreate :: "string \<Rightarrow> bool"
  aeFlush :: "string \<Rightarrow> bool"
  aeClose :: "string \<Rightarrow> bool"
  aeOpen :: "string \<Rightarrow> bool"
  aeSpilled :: "bytes \<Rightarrow> bytes"

type_synonym files = "(string, bytes) gomap"

primrec encodeRecords :: "artifact_env \<Rightarrow> acsTraceArtifactRecord list \<Rightarrow> bytes \<times> bool" where
  "encodeRecords A [] = ([], True)"
| "encodeRecords A (r # rs) =
     (case aeEncode A r of
        None \<Rightarrow> ([], False)
      | Some b \<Rightarrow> (let (w, ok) = encodeRecords A rs in (b @ w, ok)))"

definition artifactRecords :: "EvalRun list \<Rightarrow> acsTraceArtifactRecord list" where
  "artifactRecords runs =
     sortSlice (\<lambda>l r. acsTraceKeyLess (taKey l) (taKey r)) (map (\<lambda>(run, result). newACSTraceArtifactRecord run result) (resultsOf runs))"

definition writeACSTraceArtifact :: "artifact_env \<Rightarrow> string \<Rightarrow> EvalRun list \<Rightarrow> files \<Rightarrow> (artifact_error + unit) \<times> files" where
  "writeACSTraceArtifact A path runs fs =
     (let records = artifactRecords runs in
      if \<not> aeCreate A path then (Inl ArtifactCreateFailed, fs)
      else case encodeRecords A records of
        (w, False) \<Rightarrow> (Inl ArtifactEncodeFailed, AList.update path (aeSpilled A w) fs)
      | (w, True) \<Rightarrow>
          if \<not> aeFlush A path then (Inl ArtifactFlushFailed, AList.update path (aeSpilled A w) fs)
          else (ensure (aeClose A path) ArtifactCloseFailed, AList.update path w fs))"

section \<open>Checks of one record\<close>

definition requireTracePointOrder :: "string \<Rightarrow> TracePoint \<Rightarrow> string \<Rightarrow> TracePoint \<Rightarrow> record_error + unit" where
  "requireTracePointOrder leftName left rightName right =
     firstError [ensure (Recorded left \<and> Recorded right) (MissingEither leftName rightName),
       ensure (OffsetUS left \<le> OffsetUS right) (OccursAfter leftName rightName)]"

definition validateTracePoints :: "string \<Rightarrow> TracePoint list \<Rightarrow> record_error + unit" where
  "validateTracePoints kind points =
     firstError (map (\<lambda>p. ensure (\<not> (Recorded p \<and> OffsetUS p < 0)) (NegativeOffset kind)) points)"

definition validateV3RBCReadyTrigger :: "RBCTrace \<Rightarrow> int \<Rightarrow> record_error + unit" where
  "validateV3RBCReadyTrigger trace members =
     (if ReadyTrigger trace = NoTrigger then
        ensure (\<not> Recorded (ReadySent trace) \<and> ReadyTriggerEchoCount trace = 0 \<and> ReadyTriggerReadyCount trace = 0) MissingReadyTrigger
      else if ReadyTrigger trace \<noteq> RBCReadyTriggerEchoQuorum \<and> ReadyTrigger trace \<noteq> RBCReadyTriggerRelay then Inl InvalidReadyTrigger
      else if ReadyTriggerEchoCount trace < 0 \<or> ReadyTriggerReadyCount trace < 0 \<or>
          members < ReadyTriggerEchoCount trace \<or> members < ReadyTriggerReadyCount trace then Inl InvalidReadyCounts
      else let faults = (members - 1) sdiv 3 in
        if ReadyTrigger trace = RBCReadyTriggerEchoQuorum then
          firstError [ensure (ReadyTriggerEchoCount trace = members - faults) ReadyThreshold,
            ensure (ReadyTriggerReadyCount trace < faults + 1) ReadyHistory]
        else
          firstError [ensure (ReadyTriggerReadyCount trace = faults + 1) ReadyThreshold,
            ensure (ReadyTriggerEchoCount trace < members - faults) ReadyHistory])"

definition pointsOrdered :: "TracePoint \<Rightarrow> TracePoint \<Rightarrow> bool" where
  "pointsOrdered p q \<longleftrightarrow> \<not> (Recorded p \<and> Recorded q \<and> OffsetUS q < OffsetUS p)"

primrec checkRBCs :: "nat list \<Rightarrow> string \<Rightarrow> acsRBCTraceRecord list \<Rightarrow> nat list \<Rightarrow> record_error + nat list" where
  "checkRBCs members schema [] had = Inr had"
| "checkRBCs members schema (r # rs) had =
     (let t = arTrace r; p = arProposerID r in
      and_then (firstError [ensure (p \<in> set members) (UnknownProposer ''RBC'' p),
        ensure (p \<notin> set had) (DuplicateProposer ''RBC'' p),
        validateTracePoints ''RBC'' [ProofAccepted t, EchoSent t, ReadySent t, DecodeEligible t, ReconstructionStarted t,
          ReconstructionFinished t, OutputStored t],
        (if schema = ACSTraceSchemaV3 then validateV3RBCReadyTrigger t (int (length members)) else Inr ()),
        ensure (pointsOrdered (ProofAccepted t) (EchoSent t) \<and> pointsOrdered (DecodeEligible t) (ReconstructionStarted t) \<and>
          pointsOrdered (ReconstructionStarted t) (ReconstructionFinished t) \<and>
          pointsOrdered (ReconstructionFinished t) (OutputStored t)) (ImpossibleOrder ''RBC'' p)])
      (\<lambda>_. checkRBCs members schema rs (p # had)))"

definition validateRBCRecords :: "acsRBCTraceRecord list \<Rightarrow> nat list \<Rightarrow> string \<Rightarrow> record_error + unit" where
  "validateRBCRecords records members schema =
     and_then (checkRBCs members schema records []) (\<lambda>had. ensure (length had = length members) (MissingProposers ''RBC''))"

primrec checkBBAs :: "nat list \<Rightarrow> acsBBATraceRecord list \<Rightarrow> nat list \<Rightarrow> record_error + nat list" where
  "checkBBAs members [] had = Inr had"
| "checkBBAs members (r # rs) had =
     (let t = abTrace r; p = abProposerID r in
      and_then (firstError [ensure (p \<in> set members) (UnknownProposer ''BBA'' p),
        ensure (p \<notin> set had) (DuplicateProposer ''BBA'' p),
        validateTracePoints ''BBA'' [InputPoint t, FirstBinValue t, FirstAux t, ValidAuxQuorum t, DecisionPoint t, DonePoint t],
        ensure (pointsOrdered (DecisionPoint t) (DonePoint t)) (ImpossibleOrder ''BBA'' p)])
      (\<lambda>_. checkBBAs members rs (p # had)))"

definition validateBBARecords :: "acsBBATraceRecord list \<Rightarrow> nat list \<Rightarrow> record_error + unit" where
  "validateBBARecords records members =
     and_then (checkBBAs members records []) (\<lambda>had. ensure (length had = length members) (MissingProposers ''BBA''))"

definition sendPhases :: "ACSMessageTrace \<Rightarrow> (string \<times> ACSSendPhaseTrace) list" where
  "sendPhases t = [(''encode'', EncodePhase t), (''queue_wait'', QueueWaitPhase t), (''stream_open'', StreamOpenPhase t),
     (''write'', WritePhase t), (''finalize'', FinalizePhase t)]"

definition validateV2MessagePhases :: "ACSMessageTrace \<Rightarrow> record_error + unit" where
  "validateV2MessagePhases t =
     firstError (map (\<lambda>(name, p). firstError [ensure (PhaseCount p = SendCount t) (PhaseCountMismatch name),
         ensure (0 \<le> PhaseTotalUS p \<and> 0 \<le> PhaseMaxUS p \<and> PhaseMaxUS p \<le> PhaseTotalUS p) (PhaseDurationInvalid name)]) (sendPhases t) @
       [ensure (StreamOpenCount t \<le> SendCount t \<and> StreamReuseCount t = SendCount t - StreamOpenCount t) StreamCountMismatch])"

definition validateV3MessageLifecycle :: "ACSMessageTrace \<Rightarrow> record_error + unit" where
  "validateV3MessageLifecycle t =
     firstError [ensure (ScheduledCount t = TerminalCount t) LifecycleMismatch,
       ensure (OutboundCount t \<le> TerminalCount t \<and> SendFailureCount t = TerminalCount t - OutboundCount t) LifecycleMismatch,
       ensure (SendCount t = OutboundCount t \<and> PendingAtDecision t \<le> ScheduledCount t) LifecycleMismatch]"

primrec checkMessages ::
  "string \<Rightarrow> acsMessageTraceRecord list \<Rightarrow> (ACSMessageSubtype, ACSMessageTrace) gomap \<Rightarrow>
   record_error + (ACSMessageSubtype, ACSMessageTrace) gomap" where
  "checkMessages schema [] had = Inr had"
| "checkMessages schema (r # rs) had =
     and_then (firstError [ensure (amSubtype r \<in> set orderedACSMessageSubtypes) UnknownSubtype,
       ensure (\<not> has_key had (amSubtype r)) DuplicateSubtype,
       ensure (0 \<le> SendTotalUS (amTrace r) \<and> 0 \<le> SendMaxUS (amTrace r)) NegativeSendDuration,
       (if schema = ACSTraceSchemaV2 \<or> schema = ACSTraceSchemaV3 then validateV2MessagePhases (amTrace r) else Inr ()),
       (if schema = ACSTraceSchemaV3 then validateV3MessageLifecycle (amTrace r) else Inr ())])
     (\<lambda>_. checkMessages schema rs (AList.update (amSubtype r) (amTrace r) had))"

definition validateMessageRecords ::
  "acsMessageTraceRecord list \<Rightarrow> string \<Rightarrow> record_error + (ACSMessageSubtype, ACSMessageTrace) gomap" where
  "validateMessageRecords records schema =
     and_then (checkMessages schema records []) (\<lambda>had.
       and_then (firstError (map (\<lambda>t. ensure (has_key had t) (MissingSubtype t)) orderedACSMessageSubtypes)) (\<lambda>_. Inr had))"

text \<open>Equality of two maps, as \<^verbatim>\<open>reflect.DeepEqual\<close> decides it.\<close>

definition gomapEqual :: "('k, 'v) gomap \<Rightarrow> ('k, 'v) gomap \<Rightarrow> bool" where
  "gomapEqual m n \<longleftrightarrow> length m = length n \<and> list_all (\<lambda>(k, v). map_of n k = Some v) m"

definition requiredPoints :: "acsTraceArtifactRecord \<Rightarrow> (string \<times> TracePoint) list" where
  "requiredPoints r =
     (let a = taAggregate r; d = taAdapter r in
      [(''input_started'', InputStarted a), (''first_rbc_output'', FirstRBCOutput a), (''rbc_output_quorum'', RBCOutputQuorum a),
       (''first_true_bba'', FirstTrueBBA a), (''true_bba_quorum'', TrueBBAQuorum a), (''false_input_injected'', FalseInputInjected a),
       (''all_bba_decided'', AllBBADecided a), (''truthy_rbc_ready'', TruthyRBCReady a), (''core_decision'', CoreDecision a),
       (''common_subset_decoded'', CommonSubsetDecoded d), (''block_body_built'', BlockBodyBuilt d),
       (''node_output_received'', NodeOutputReceived d)])"

definition validatePoints :: "acsTraceArtifactRecord \<Rightarrow> record_error + unit" where
  "validatePoints r =
     (let a = taAggregate r; d = taAdapter r in
      firstError (
        [ensure (\<not> (taSchemaVersion r = ACSTraceSchemaV3 \<and> (\<not> Sealed (taTransport r) \<or> \<not> Finalized (taTransport r)))) TransportNotFinal] @
        map (\<lambda>(name, p). ensure (\<not> (Recorded p \<and> OffsetUS p < 0)) (NegativeOffset name)) (requiredPoints r) @
        map (\<lambda>(name, p). ensure (name = ''false_input_injected'' \<or> Recorded p) (MissingPoint name)) (requiredPoints r) @
        [requireTracePointOrder ''first RBC output'' (FirstRBCOutput a) ''RBC output quorum'' (RBCOutputQuorum a),
         requireTracePointOrder ''first RBC output'' (FirstRBCOutput a) ''first true BBA'' (FirstTrueBBA a),
         requireTracePointOrder ''first true BBA'' (FirstTrueBBA a) ''true BBA quorum'' (TrueBBAQuorum a),
         requireTracePointOrder ''true BBA quorum'' (TrueBBAQuorum a) ''all BBA decided'' (AllBBADecided a),
         requireTracePointOrder ''all BBA decided'' (AllBBADecided a) ''core decision'' (CoreDecision a),
         requireTracePointOrder ''truthy RBC ready'' (TruthyRBCReady a) ''core decision'' (CoreDecision a),
         (if Recorded (FalseInputInjected a)
          then requireTracePointOrder ''true BBA quorum'' (TrueBBAQuorum a) ''false input injection'' (FalseInputInjected a) else Inr ()),
         requireTracePointOrder ''core decision'' (CoreDecision a) ''node output receipt'' (NodeOutputReceived d),
         requireTracePointOrder ''core decision'' (CoreDecision a) ''common subset decode'' (CommonSubsetDecoded d),
         requireTracePointOrder ''common subset decode'' (CommonSubsetDecoded d) ''block body build'' (BlockBodyBuilt d),
         requireTracePointOrder ''block body build'' (BlockBodyBuilt d) ''node output receipt'' (NodeOutputReceived d),
         ensure (\<not> (TrueBBAQuorumUS (taWait r) < 0 \<or> AllBBAUS (taWait r) < 0 \<or> TruthyRBCUS (taWait r) < 0)) NegativeWait]))"

definition validateACSTraceRecord ::
  "acsTraceArtifactRecord \<Rightarrow> nat list \<Rightarrow> expectedACSTraceArtifact \<Rightarrow> record_error + unit" where
  "validateACSTraceRecord r members expected =
     (let e = exRecord expected in
      and_then (validatePoints r) (\<lambda>_.
      and_then (validateRBCRecords (taRBC r) members (taSchemaVersion r)) (\<lambda>_.
      and_then (case find (\<lambda>b. arProposerID b = akNodeID (taKey r) \<and> Recorded (OutputStored (arTrace b))) (taRBC r) of
          None \<Rightarrow> Inr ()
        | Some b \<Rightarrow> requireTracePointOrder ''local input start'' (InputStarted (taAggregate r)) ''local RBC output'' (OutputStored (arTrace b))) (\<lambda>_.
      and_then (validateBBARecords (taBBA r) members) (\<lambda>_.
      and_then (validateMessageRecords (taMessages r) (taSchemaVersion r)) (\<lambda>messages.
      and_then (validateMessageRecords (taMessages e) (taSchemaVersion e)) (\<lambda>expectedMessages.
      and_then (ensure (gomapEqual messages expectedMessages) MessageMismatch) (\<lambda>_.
      and_then (ensure (taAggregate r = taAggregate e \<and> taTransport r = taTransport e \<and> taWait r = taWait e \<and>
        taAdapter r = taAdapter e \<and> taRBC r = taRBC e \<and> taBBA r = taBBA e) TraceMismatch) (\<lambda>_.
      let delta = wrapInt64 (OffsetUS (NodeOutputReceived (taAdapter r)) - exLegacyACSUS expected) in
      ensure (\<not> (delta < - acsTraceLegacyToleranceUS \<or> acsTraceLegacyToleranceUS < delta)) LegacyMismatch)))))))))"

section \<open>Checks of the artifact\<close>

definition supportedACSTraceSchema :: "string \<Rightarrow> bool" where
  "supportedACSTraceSchema schema \<longleftrightarrow> schema = ACSTraceSchemaV1 \<or> schema = ACSTraceSchemaV2 \<or> schema = ACSTraceSchemaV3"

definition runKeyOf :: "acsTraceArtifactKey \<Rightarrow> acsTraceRunKey" where
  "runKeyOf k = \<lparr>rkMeasurementBlock = akMeasurementBlock k, rkRunID = akRunID k, rkSlot = akSlot k\<rparr>"

type_synonym expectations = "(acsTraceArtifactKey, expectedACSTraceArtifact) gomap"

primrec expectResults :: "string \<Rightarrow> EvalRun \<Rightarrow> Result list \<Rightarrow> expectations \<Rightarrow> artifact_error + expectations" where
  "expectResults schema run [] expected = Inr expected"
| "expectResults schema run (result # results) expected =
     (let trace = rsACSTrace result; record = newACSTraceArtifactRecord run result in
      and_then (firstError [ensure (Enabled trace) (TraceNotEnabled (evRunID run) (rsNodeID result)),
        ensure (SchemaVersion trace = schema) (ResultSchemaMismatch (evRunID run) (rsNodeID result)),
        ensure (\<not> has_key expected (taKey record)) (DuplicateResultKey (taKey record))])
      (\<lambda>_. expectResults schema run results
        (AList.update (taKey record) \<lparr>exRecord = record, exLegacyACSUS = mxACSUS (rsMetrics result)\<rparr> expected)))"

primrec collectRuns :: "string \<Rightarrow> EvalRun list \<Rightarrow> expectations \<Rightarrow> artifact_error + expectations" where
  "collectRuns schema [] expected = Inr expected"
| "collectRuns schema (run # runs) expected =
     and_then (expectResults schema run (evResults run) expected) (collectRuns schema runs)"

definition membersOf :: "EvalRun \<Rightarrow> nat list" where
  "membersOf run = [0..<nat (evNodes run)]"

definition memberships :: "EvalRun list \<Rightarrow> (acsTraceRunKey, nat list) gomap" where
  "memberships runs =
     fold (\<lambda>run. AList.update \<lparr>rkMeasurementBlock = evMeasurementBlock run, rkRunID = evRunID run, rkSlot = evSlot run\<rparr> (membersOf run)) runs []"

definition membersFor :: "EvalRun list \<Rightarrow> acsTraceArtifactKey \<Rightarrow> nat list" where
  "membersFor runs k = (case map_of (memberships runs) (runKeyOf k) of None \<Rightarrow> [] | Some ms \<Rightarrow> ms)"

primrec checkRecords ::
  "string \<Rightarrow> EvalRun list \<Rightarrow> expectations \<Rightarrow> acsTraceArtifactRecord list \<Rightarrow> acsTraceArtifactKey list \<Rightarrow> acsTraceArtifactKey option \<Rightarrow>
   artifact_error + acsTraceArtifactKey list" where
  "checkRecords schema runs expected [] had previous = Inr had"
| "checkRecords schema runs expected (r # rs) had previous =
     (let k = taKey r in
      and_then (ensure (k \<notin> set had) (DuplicateKey k)) (\<lambda>_.
      and_then (ensure (\<not> (case previous of None \<Rightarrow> False | Some p \<Rightarrow> acsTraceKeyLess k p)) (KeysOutOfOrder k)) (\<lambda>_.
      and_then (or_error (map_of expected k) (UnexpectedKey k)) (\<lambda>e.
      and_then (firstError [ensure (taSchemaVersion r = schema) (RecordSchemaMismatch k), ensure (taEnabled r) (RecordNotEnabled k),
        wrapError (RecordInvalid k) (validateACSTraceRecord r (membersFor runs k) e)]) (\<lambda>_.
      checkRecords schema runs expected rs (k # had) (Some k))))))"

definition validateACSTraceArtifact :: "artifact_env \<Rightarrow> suiteManifest \<Rightarrow> EvalRun list \<Rightarrow> string \<Rightarrow> files \<Rightarrow> artifact_error + unit" where
  "validateACSTraceArtifact A manifest runs path fs =
     (let schema = smACSTraceSchema manifest in
      if schema = [] then Inr ()
      else if \<not> supportedACSTraceSchema schema then Inl (SchemaUnsupported schema)
      else
        and_then (collectRuns schema runs []) (\<lambda>expected.
        and_then (or_error (if aeOpen A path then map_of fs path else None) ArtifactOpenFailed) (\<lambda>content.
        let (rs, atEnd) = aeStream A content in
        and_then (checkRecords schema runs expected rs [] None) (\<lambda>had.
        and_then (ensure atEnd ArtifactDecodeFailed) (\<lambda>_.
        firstError (map (\<lambda>(k, _). ensure (k \<in> set had) (MissingNodeTrace k)) expected))))))"

end
