(* ===== verification/Artifact_Facts.thy ===== *)
theory Artifact_Facts
  imports Trace_Artifact
begin

text \<open>
  What an accepted trace artifact guarantees, when the artifact the evaluator writes is accepted,
  and that what the recorder and the reliable broadcast themselves record always passes the checks.
\<close>

section \<open>The order of the records\<close>

definition keyTuple :: "acsTraceArtifactKey \<Rightarrow> int \<times> string \<times> nat \<times> nat" where
  "keyTuple k = (akMeasurementBlock k, akRunID k, akNodeID k, akSlot k)"

lemma keyTuple_inj: "keyTuple k = keyTuple l \<longleftrightarrow> k = l"
  by (auto simp: keyTuple_def intro: acsTraceArtifactKey.equality)

interpretation key_order: slice_order acsTraceKeyLess keyTuple
  by unfold_locales (auto simp: acsTraceKeyLess_def keyTuple_def less_prod_def)

interpretation artifact_order: slice_order "\<lambda>l r. acsTraceKeyLess (taKey l) (taKey r)" "\<lambda>r. keyTuple (taKey r)"
  by unfold_locales (rule key_order.less_key)

lemma sorted_keys_unique:
  assumes "distinct (map keyTuple ks)" "distinct (map keyTuple ls)" "set ks = set ls"
    and "sorted (map keyTuple ks)" "sorted (map keyTuple ls)"
  shows "ks = ls"
proof -
  have "map keyTuple ks = map keyTuple ls" using assms by (metis list.set_map sorted_distinct_set_unique)
  then show ?thesis by (rule map_injective) (simp add: inj_def keyTuple_inj)
qed

section \<open>The expected records\<close>

definition keyOf :: "EvalRun \<times> Result \<Rightarrow> acsTraceArtifactKey" where
  "keyOf x = taKey (newACSTraceArtifactRecord (fst x) (snd x))"

definition expectationOf :: "EvalRun \<times> Result \<Rightarrow> acsTraceArtifactKey \<times> expectedACSTraceArtifact" where
  "expectationOf x = (keyOf x, \<lparr>exRecord = newACSTraceArtifactRecord (fst x) (snd x), exLegacyACSUS = mxACSUS (rsMetrics (snd x))\<rparr>)"

lemma fst_expectationOf [simp]: "fst (expectationOf x) = keyOf x"
  by (simp add: expectationOf_def)

definition traced :: "string \<Rightarrow> EvalRun \<times> Result \<Rightarrow> bool" where
  "traced schema x \<longleftrightarrow> Enabled (rsACSTrace (snd x)) \<and> SchemaVersion (rsACSTrace (snd x)) = schema"

lemma expectResults_ok:
  "expectResults schema run results expected = Inr out \<longleftrightarrow>
     (\<forall>x \<in> set (map (Pair run) results). traced schema x) \<and> distinct (map (keyOf \<circ> Pair run) results) \<and>
     (keyOf \<circ> Pair run) ` set results \<inter> keys_of expected = {} \<and> out = expected @ map (expectationOf \<circ> Pair run) results"
proof (induction results arbitrary: expected)
  case Nil
  then show ?case by auto
next
  case (Cons r rs)
  have e: "expectationOf (run, r) = (keyOf (run, r),
      \<lparr>exRecord = newACSTraceArtifactRecord run r, exLegacyACSUS = mxACSUS (rsMetrics r)\<rparr>)" by (simp add: expectationOf_def)
  have k: "taKey (newACSTraceArtifactRecord run r) = keyOf (run, r)" by (simp add: keyOf_def)
  show ?case
  proof (cases "keyOf (run, r) \<in> keys_of expected")
    case True
    then show ?thesis by (auto simp: Let_def firstError_ok k)
  next
    case False
    then show ?thesis
      unfolding expectResults.simps Let_def and_then_Inr_iff k update_fresh [OF False]
      by (auto simp: firstError_ok Cons.IH traced_def e)
  qed
qed

lemma collectRuns_ok:
  "collectRuns schema runs expected = Inr out \<longleftrightarrow>
     (\<forall>x \<in> set (resultsOf runs). traced schema x) \<and> distinct (map keyOf (resultsOf runs)) \<and>
     keyOf ` set (resultsOf runs) \<inter> keys_of expected = {} \<and> out = expected @ map expectationOf (resultsOf runs)"
proof (induction runs arbitrary: expected)
  case Nil
  then show ?case by (auto simp: resultsOf_def)
next
  case (Cons run runs)
  have rs: "resultsOf (run # runs) = map (Pair run) (evResults run) @ resultsOf runs" by (simp add: resultsOf_def)
  show ?case
    unfolding collectRuns.simps and_then_Inr_iff Cons.IH expectResults_ok rs
    by (simp add: image_Un image_image Int_Un_distrib Int_Un_distrib2 ball_Un comp_def) (auto simp only: Int_commute)
qed

section \<open>The records of the file\<close>

definition recordOK :: "string \<Rightarrow> EvalRun list \<Rightarrow> expectations \<Rightarrow> acsTraceArtifactRecord \<Rightarrow> bool" where
  "recordOK schema runs expected r \<longleftrightarrow>
     (\<exists>e. map_of expected (taKey r) = Some e \<and> taSchemaVersion r = schema \<and> taEnabled r \<and>
        validateACSTraceRecord r (membersFor runs (taKey r)) e = Inr ())"

lemma checkRecords_ok:
  "checkRecords schema runs expected rs had previous = Inr out \<longleftrightarrow>
     (\<forall>r \<in> set rs. recordOK schema runs expected r) \<and> distinct (map taKey rs) \<and> taKey ` set rs \<inter> set had = {} \<and>
     sorted (map keyTuple ((case previous of None \<Rightarrow> [] | Some p \<Rightarrow> [p]) @ map taKey rs)) \<and> out = rev (map taKey rs) @ had"
proof (induction rs arbitrary: had previous)
  case Nil
  then show ?case by (cases previous) auto
next
  case (Cons r rs)
  have less: "(\<not> (case previous of None \<Rightarrow> False | Some p \<Rightarrow> acsTraceKeyLess (taKey r) p)) \<longleftrightarrow>
      (case previous of None \<Rightarrow> True | Some p \<Rightarrow> keyTuple p \<le> keyTuple (taKey r))"
    by (cases previous) (auto simp: key_order.less_key)
  show ?case
    unfolding checkRecords.simps Let_def and_then_Inr_iff less Cons.IH
    by (cases previous) (auto simp: recordOK_def firstError_ok)
qed


lemma validate_ok:
  assumes "smACSTraceSchema m \<noteq> []"
  shows "validateACSTraceArtifact A m runs path fs = Inr () \<longleftrightarrow>
    supportedACSTraceSchema (smACSTraceSchema m) \<and> (\<forall>x \<in> set (resultsOf runs). traced (smACSTraceSchema m) x) \<and>
    distinct (map keyOf (resultsOf runs)) \<and> aeOpen A path \<and>
    (\<exists>content rs. map_of fs path = Some content \<and> aeStream A content = (rs, True) \<and>
      (\<forall>r \<in> set rs. recordOK (smACSTraceSchema m) runs (map expectationOf (resultsOf runs)) r) \<and> distinct (map taKey rs) \<and>
      sorted (map keyTuple (map taKey rs)) \<and> keyOf ` set (resultsOf runs) \<subseteq> taKey ` set rs)"
proof -
  have missing: "firstError (map ((\<lambda>(k, _). ensure (k \<in> S) (MissingNodeTrace k)) \<circ> expectationOf) xs) = Inr () \<longleftrightarrow> keyOf ` set xs \<subseteq> S" for xs S
    by (auto simp: firstError_ok case_prod_beta)
  show ?thesis
    using assms unfolding validateACSTraceArtifact_def Let_def
    by (auto simp: collectRuns_ok checkRecords_ok missing case_prod_beta prod_eq_iff split: if_splits)
qed

section \<open>Message records\<close>

definition messageMap :: "acsMessageTraceRecord list \<Rightarrow> (ACSMessageSubtype, ACSMessageTrace) gomap" where
  "messageMap ms = map (\<lambda>r. (amSubtype r, amTrace r)) ms"

definition messageOK :: "string \<Rightarrow> acsMessageTraceRecord \<Rightarrow> bool" where
  "messageOK schema r \<longleftrightarrow> amSubtype r \<in> set orderedACSMessageSubtypes \<and> 0 \<le> SendTotalUS (amTrace r) \<and> 0 \<le> SendMaxUS (amTrace r) \<and>
     (schema = ACSTraceSchemaV2 \<or> schema = ACSTraceSchemaV3 \<longrightarrow> validateV2MessagePhases (amTrace r) = Inr ()) \<and>
     (schema = ACSTraceSchemaV3 \<longrightarrow> validateV3MessageLifecycle (amTrace r) = Inr ())"

lemma checkMessages_ok:
  "checkMessages schema ms had = Inr out \<longleftrightarrow>
     (\<forall>r \<in> set ms. messageOK schema r) \<and> distinct (map amSubtype ms) \<and> amSubtype ` set ms \<inter> keys_of had = {} \<and>
     out = had @ messageMap ms"
proof (induction ms arbitrary: had)
  case Nil
  then show ?case by (auto simp: messageMap_def)
next
  case (Cons r ms)
  show ?case
  proof (cases "amSubtype r \<in> keys_of had")
    case True
    then show ?thesis by (auto simp: firstError_ok)
  next
    case False
    then show ?thesis
      unfolding checkMessages.simps and_then_Inr_iff update_fresh [OF False] Cons.IH
      by (auto simp: firstError_ok messageOK_def messageMap_def)
  qed
qed

lemma validateMessages_ok:
  "validateMessageRecords ms schema = Inr out \<longleftrightarrow>
     (\<forall>r \<in> set ms. messageOK schema r) \<and> distinct (map amSubtype ms) \<and> set (map amSubtype ms) = set orderedACSMessageSubtypes \<and>
     out = messageMap ms"
proof -
  have "keys_of (messageMap ms) = amSubtype ` set ms" by (simp add: messageMap_def image_image)
  moreover have "(\<forall>r \<in> set ms. messageOK schema r) \<Longrightarrow> amSubtype ` set ms \<subseteq> set orderedACSMessageSubtypes" by (auto simp: messageOK_def)
  ultimately show ?thesis by (auto simp: validateMessageRecords_def checkMessages_ok firstError_ok)
qed

lemma equal_messages:
  assumes "gomapEqual (messageMap ms) (messageMap ns)" "distinct (map amSubtype ms)" "distinct (map amSubtype ns)"
  shows "mset ms = mset ns"
proof -
  have pair: "a = b" if "amSubtype a = amSubtype b" "amTrace a = amTrace b" for a b :: acsMessageTraceRecord using that by simp
  have "set ms \<subseteq> set ns"
  proof
    fix r assume "r \<in> set ms"
    then have "map_of (messageMap ns) (amSubtype r) = Some (amTrace r)"
      using assms(1) by (fastforce simp: gomapEqual_def messageMap_def list_all_iff)
    then have "(amSubtype r, amTrace r) \<in> set (messageMap ns)" by (rule map_of_SomeD)
    then obtain q where "q \<in> set ns" "amSubtype r = amSubtype q" "amTrace r = amTrace q" by (auto simp: messageMap_def)
    then show "r \<in> set ns" using pair by metis
  qed
  moreover have "distinct ms" "distinct ns" using assms(2,3) distinct_map by blast+
  moreover have "length ms = length ns" using assms(1) by (simp add: gomapEqual_def messageMap_def)
  ultimately have "set ms = set ns" by (metis List.finite_set card_subset_eq distinct_card)
  then show ?thesis using \<open>distinct ms\<close> \<open>distinct ns\<close> by (simp add: set_eq_iff_mset_eq_distinct)
qed

section \<open>Accepted artifacts\<close>

text \<open>Two records with the same content, up to the order of the message entries.\<close>

definition sameTrace :: "acsTraceArtifactRecord \<Rightarrow> acsTraceArtifactRecord \<Rightarrow> bool" where
  "sameTrace r e \<longleftrightarrow> mset (taMessages r) = mset (taMessages e) \<and> r\<lparr>taMessages := taMessages e\<rparr> = e"

lemma valid_same:
  assumes "validateACSTraceRecord r members ex = Inr ()" "taKey r = taKey (exRecord ex)"
    "taSchemaVersion r = taSchemaVersion (exRecord ex)" "taEnabled r = taEnabled (exRecord ex)"
  shows "sameTrace r (exRecord ex)"
  using assms by (auto simp: validateACSTraceRecord_def Let_def validateMessages_ok sameTrace_def intro: equal_messages)


definition recordFor :: "EvalRun \<times> Result \<Rightarrow> acsTraceArtifactRecord" where
  "recordFor x = newACSTraceArtifactRecord (fst x) (snd x)"

lemma recordFor_fields [simp]: "taKey (recordFor x) = keyOf x" "exRecord (snd (expectationOf x)) = recordFor x"
  "taSchemaVersion (recordFor x) = SchemaVersion (rsACSTrace (snd x))" "taEnabled (recordFor x) = Enabled (rsACSTrace (snd x))"
  by (simp_all add: recordFor_def keyOf_def expectationOf_def newACSTraceArtifactRecord_def Let_def)

lemma artifactRecords_facts:
  "mset (artifactRecords runs) = mset (map recordFor (resultsOf runs))" "sorted (map keyTuple (map taKey (artifactRecords runs)))"
proof -
  have "(\<lambda>(run, result). newACSTraceArtifactRecord run result) = recordFor" by (simp add: fun_eq_iff recordFor_def)
  then show "mset (artifactRecords runs) = mset (map recordFor (resultsOf runs))" by (simp add: artifactRecords_def)
  show "sorted (map keyTuple (map taKey (artifactRecords runs)))"
    using artifact_order.computes_sorted unfolding artifactRecords_def artifact_order.sorted_by_key by (simp add: comp_def)
qed

lemma artifactRecords_keys:
  assumes "distinct (map keyOf (resultsOf runs))"
  shows "distinct (map taKey (artifactRecords runs))" "set (map taKey (artifactRecords runs)) = keyOf ` set (resultsOf runs)"
    "set (artifactRecords runs) = recordFor ` set (resultsOf runs)"
proof -
  have m: "mset (map taKey (artifactRecords runs)) = mset (map keyOf (resultsOf runs))"
    using arg_cong [OF artifactRecords_facts(1), of "image_mset taKey"] by (simp add: multiset.map_comp comp_def)
  show "distinct (map taKey (artifactRecords runs))" using assms by (simp only: mset_eq_imp_distinct_iff [OF m])
  show "set (map taKey (artifactRecords runs)) = keyOf ` set (resultsOf runs)" using mset_eq_setD [OF m] by simp
  show "set (artifactRecords runs) = recordFor ` set (resultsOf runs)"
    using mset_eq_setD [OF artifactRecords_facts(1)] by simp
qed

lemma expected_lookup:
  assumes "distinct (map keyOf xs)"
  shows "map_of (map expectationOf xs) k = Some e \<longleftrightarrow> (\<exists>x \<in> set xs. keyOf x = k \<and> snd (expectationOf x) = e)"
proof -
  have "distinct (map fst (map expectationOf xs))" using assms by (simp add: comp_def)
  then show ?thesis by (auto simp: map_of_eq_Some_iff prod_eq_iff)
qed

lemma recordOK_same:
  assumes "recordOK schema runs (map expectationOf (resultsOf runs)) r" "distinct (map keyOf (resultsOf runs))"
    and "\<forall>x \<in> set (resultsOf runs). traced schema x"
  obtains x where "x \<in> set (resultsOf runs)" "keyOf x = taKey r" "sameTrace r (recordFor x)"
    "validateACSTraceRecord r (membersFor runs (taKey r)) (snd (expectationOf x)) = Inr ()"
proof -
  obtain x where x: "x \<in> set (resultsOf runs)" "keyOf x = taKey r" "taSchemaVersion r = schema" "taEnabled r"
    "validateACSTraceRecord r (membersFor runs (taKey r)) (snd (expectationOf x)) = Inr ()"
    using assms(1) unfolding recordOK_def expected_lookup [OF assms(2)] by blast
  moreover have "sameTrace r (exRecord (snd (expectationOf x)))"
    by (rule valid_same [OF x(5)]) (use x assms(3) in \<open>auto simp: traced_def\<close>)
  ultimately show thesis using that by simp
qed

definition milestones :: "acsTraceArtifactRecord \<Rightarrow> TracePoint list" where
  "milestones r = [FirstRBCOutput (taAggregate r), FirstTrueBBA (taAggregate r), TrueBBAQuorum (taAggregate r), AllBBADecided (taAggregate r),
     CoreDecision (taAggregate r), CommonSubsetDecoded (taAdapter r), BlockBodyBuilt (taAdapter r), NodeOutputReceived (taAdapter r)]"

lemma valid_milestones:
  assumes "validateACSTraceRecord r members ex = Inr ()"
  shows "list_all Recorded (milestones r) \<and> sorted (0 # map OffsetUS (milestones r))"
proof -
  have ord: "requireTracePointOrder a p b q = Inr () \<longleftrightarrow> Recorded p \<and> Recorded q \<and> OffsetUS p \<le> OffsetUS q" for a p b q
    by (auto simp: requireTracePointOrder_def firstError_ok)
  have "validatePoints r = Inr ()"
    using assms unfolding validateACSTraceRecord_def Let_def and_then_Inr_iff by (elim exE conjE) simp
  note checks = this [unfolded validatePoints_def Let_def firstError_ok]
  have steps: "requireTracePointOrder ''first RBC output'' (FirstRBCOutput (taAggregate r)) ''first true BBA'' (FirstTrueBBA (taAggregate r)) = Inr ()"
    "requireTracePointOrder ''first true BBA'' (FirstTrueBBA (taAggregate r)) ''true BBA quorum'' (TrueBBAQuorum (taAggregate r)) = Inr ()"
    "requireTracePointOrder ''true BBA quorum'' (TrueBBAQuorum (taAggregate r)) ''all BBA decided'' (AllBBADecided (taAggregate r)) = Inr ()"
    "requireTracePointOrder ''all BBA decided'' (AllBBADecided (taAggregate r)) ''core decision'' (CoreDecision (taAggregate r)) = Inr ()"
    "requireTracePointOrder ''core decision'' (CoreDecision (taAggregate r)) ''common subset decode'' (CommonSubsetDecoded (taAdapter r)) = Inr ()"
    "requireTracePointOrder ''common subset decode'' (CommonSubsetDecoded (taAdapter r)) ''block body build'' (BlockBodyBuilt (taAdapter r)) = Inr ()"
    "requireTracePointOrder ''block body build'' (BlockBodyBuilt (taAdapter r)) ''node output receipt'' (NodeOutputReceived (taAdapter r)) = Inr ()"
    by (rule bspec [OF checks], simp)+
  have "\<forall>c \<in> set (map (\<lambda>(name, p). ensure (\<not> (Recorded p \<and> OffsetUS p < 0)) (NegativeOffset name)) (requiredPoints r)). c = Inr ()"
    by (rule checks [unfolded set_append ball_Un, THEN conjunct2, THEN conjunct1])
  moreover have "(''first_rbc_output'', FirstRBCOutput (taAggregate r)) \<in> set (requiredPoints r)" by (simp add: requiredPoints_def Let_def)
  ultimately have "\<not> (Recorded (FirstRBCOutput (taAggregate r)) \<and> OffsetUS (FirstRBCOutput (taAggregate r)) < 0)" by fastforce
  with steps show ?thesis unfolding ord milestones_def by simp
qed


text \<open>
  C36. What an accepted artifact is: if the validator accepts a file for traced runs, then the file
  decodes to the end, its records are in the strict order of their keys, they are one by one the records
  that writing the results would produce (up to the order of the message entries of a record), and in every record the
  milestones of the agreement are recorded, not negative and in their causal order.
\<close>

theorem artifact_accepted:
  assumes ok: "validateACSTraceArtifact A m runs path fs = Inr ()" and schema: "smACSTraceSchema m \<noteq> []"
  shows "\<exists>content rs. map_of fs path = Some content \<and> aeStream A content = (rs, True) \<and>
    list_all2 sameTrace rs (artifactRecords runs) \<and> sorted_wrt acsTraceKeyLess (map taKey rs) \<and>
    (\<forall>r \<in> set rs. list_all Recorded (milestones r) \<and> sorted (0 # map OffsetUS (milestones r)))"
proof -
  let ?xs = "resultsOf runs" and ?recs = "artifactRecords runs"
  obtain content rs where traced: "\<forall>x \<in> set ?xs. traced (smACSTraceSchema m) x" and dist: "distinct (map keyOf ?xs)"
    and content: "map_of fs path = Some content" "aeStream A content = (rs, True)"
    and each: "\<forall>r \<in> set rs. recordOK (smACSTraceSchema m) runs (map expectationOf ?xs) r"
    and keys: "distinct (map taKey rs)" "sorted (map keyTuple (map taKey rs))" "keyOf ` set ?xs \<subseteq> taKey ` set rs"
    using ok unfolding validate_ok [OF schema] by blast
  note same = recordOK_same [OF bspec [OF each] dist traced]
  have "taKey ` set rs \<subseteq> keyOf ` set ?xs" using same by (metis image_eqI image_subsetI)
  then have "set (map taKey rs) = set (map taKey ?recs)" using keys(3) artifactRecords_keys(2) [OF dist] by auto
  moreover have inj: "distinct (map keyTuple ks) = distinct ks" for ks by (simp add: distinct_map inj_on_def keyTuple_inj)
  ultimately have eq: "map taKey rs = map taKey ?recs"
    using keys artifactRecords_keys(1) [OF dist] artifactRecords_facts(2) by (intro sorted_keys_unique) (simp_all only: inj)
  have "sameTrace (rs ! i) (?recs ! i)" if i: "i < length rs" for i
  proof -
    have i': "i < length ?recs" using arg_cong [OF eq, of length] i by simp
    obtain x where x: "x \<in> set ?xs" "keyOf x = taKey (rs ! i)" "sameTrace (rs ! i) (recordFor x)" using same i nth_mem by metis
    obtain y where y: "y \<in> set ?xs" "?recs ! i = recordFor y" using artifactRecords_keys(3) [OF dist] nth_mem [OF i'] by auto
    have "taKey (rs ! i) = taKey (?recs ! i)" using arg_cong [OF eq, of "\<lambda>ks. ks ! i"] i i' by simp
    then have "x = y" using x y dist by (auto simp: distinct_map dest: inj_onD)
    then show ?thesis using x y by simp
  qed
  then have "list_all2 sameTrace rs ?recs" using arg_cong [OF eq, of length] by (simp add: list_all2_conv_all_nth)
  moreover have "sorted_wrt acsTraceKeyLess (map taKey rs)"
    using keys(1,2) strict_sorted_iff [of "map keyTuple (map taKey rs)"] inj [of "map taKey rs"]
    by (simp add: sorted_wrt_map key_order.less_key comp_def)
  moreover have "\<forall>r \<in> set rs. list_all Recorded (milestones r) \<and> sorted (0 # map OffsetUS (milestones r))"
    using same valid_milestones by metis
  ultimately show ?thesis using content by blast
qed

text \<open>
  C37. Writing and then validating: if the writer reports success, the decoder reads back what the encoder
  wrote and the file can be opened, then the validator accepts the artifact exactly when the results
  are traced with the schema of the manifest, no two results share a key, and the record of every
  result is valid on its own; the file cannot be the reason of a rejection.
\<close>

theorem artifact_write_validates:
  assumes wrote: "writeACSTraceArtifact A path runs fs = (Inr (), fs')" and open_ok: "aeOpen A path"
    and json: "\<And>w. encodeRecords A (artifactRecords runs) = (w, True) \<Longrightarrow> aeStream A w = (artifactRecords runs, True)"
  shows "validateACSTraceArtifact A m runs path fs' = Inr () \<longleftrightarrow>
    (smACSTraceSchema m \<noteq> [] \<longrightarrow> supportedACSTraceSchema (smACSTraceSchema m) \<and> distinct (map keyOf (resultsOf runs)) \<and>
      (\<forall>x \<in> set (resultsOf runs). traced (smACSTraceSchema m) x \<and>
        validateACSTraceRecord (recordFor x) (membersFor runs (keyOf x)) (snd (expectationOf x)) = Inr ()))"
proof (cases "smACSTraceSchema m = []")
  case True
  then show ?thesis by (simp add: validateACSTraceArtifact_def)
next
  case False
  let ?xs = "resultsOf runs" and ?recs = "artifactRecords runs"
  obtain w where w: "encodeRecords A ?recs = (w, True)" "map_of fs' path = Some w"
    using wrote by (auto simp: writeACSTraceArtifact_def Let_def split: if_splits prod.splits bool.splits)
  have each: "(\<forall>r \<in> set ?recs. recordOK (smACSTraceSchema m) runs (map expectationOf ?xs) r) \<longleftrightarrow>
      (\<forall>x \<in> set ?xs. validateACSTraceRecord (recordFor x) (membersFor runs (keyOf x)) (snd (expectationOf x)) = Inr ())"
    if dist: "distinct (map keyOf ?xs)" and traced: "\<forall>x \<in> set ?xs. traced (smACSTraceSchema m) x"
  proof -
    have "recordOK (smACSTraceSchema m) runs (map expectationOf ?xs) (recordFor x) \<longleftrightarrow>
        validateACSTraceRecord (recordFor x) (membersFor runs (keyOf x)) (snd (expectationOf x)) = Inr ()" if "x \<in> set ?xs" for x
      using that dist traced unfolding recordOK_def expected_lookup [OF dist] by (auto simp: traced_def distinct_map dest: inj_onD)
    then show ?thesis unfolding artifactRecords_keys(3) [OF dist] by simp
  qed
  have "validateACSTraceArtifact A m runs path fs' = Inr () \<longleftrightarrow>
      supportedACSTraceSchema (smACSTraceSchema m) \<and> (\<forall>x \<in> set ?xs. traced (smACSTraceSchema m) x) \<and> distinct (map keyOf ?xs) \<and>
      (\<forall>r \<in> set ?recs. recordOK (smACSTraceSchema m) runs (map expectationOf ?xs) r)"
    unfolding validate_ok [OF False] using w json [OF w(1)] open_ok artifactRecords_facts(2) [of runs]
      artifactRecords_keys(1) [of runs] artifactRecords_keys(2) [of runs] by auto
  then show ?thesis using each False by blast
qed

end
