(* ===== verification/Recorder_Artifact.thy ===== *)
theory Recorder_Artifact
  imports Artifact_Facts
begin

text \<open>
  The recorder and the reliable broadcast against the validator of the artifact: whatever calls a
  slot makes on its recorder, the message accounting of a final trace passes the checks of the
  current schema, and so does the READY trigger that a reliable broadcast reports.
\<close>

section \<open>Calls on a recorder\<close>

datatype recorder_op =
    OpStart time
  | OpCall time trace_call
  | OpInbound ACSMessageSubtype int
  | OpBegin ACSMessageSubtype
  | OpComplete ACSMessageSubtype ACSSendObservation
  | OpSeal

primrec recorderDo :: "recorder_op \<Rightarrow> traceRecorder \<Rightarrow> traceRecorder" where
  "recorderDo (OpStart base) r = begin_trace base r"
| "recorderDo (OpCall now c) r = apply_call now c r"
| "recorderDo (OpInbound t sz) r = recordMessageInbound t sz r"
| "recorderDo (OpBegin t) r = snd (beginMessageOutbound t r)"
| "recorderDo (OpComplete t obs) r = completeMessageOutbound t obs r"
| "recorderDo OpSeal r = sealMessageOutbound r"

text \<open>The timing and pending part of the accounting of one subtype.\<close>

definition phased :: "ACSMessageTrace \<Rightarrow> bool" where
  "phased e \<longleftrightarrow> (\<forall>p \<in> set (map snd (sendPhases e)). PhaseCount p = SendCount e \<and> 0 \<le> PhaseMaxUS p \<and> PhaseMaxUS p \<le> PhaseTotalUS p) \<and>
     0 \<le> SendTotalUS e \<and> 0 \<le> SendMaxUS e \<and> PendingAtDecision e \<le> ScheduledCount e"

definition timing_inv :: "traceRecorder \<Rightarrow> bool" where
  "timing_inv r \<longleftrightarrow> (\<forall>t. phased (msg_entry t r)) \<and> wf_map (Messages (trTrace r)) \<and>
     SchemaVersion (trTrace r) = ACSTraceSchemaV3 \<and> Enabled (trTrace r)"

definition recorder_inv :: "traceRecorder \<Rightarrow> bool" where
  "recorder_inv r \<longleftrightarrow> accounting r \<and> timing_inv r"

lemma finishWaitLocked_keeps [frame_simps]:
  "Messages (trTrace (finishWaitLocked now r)) = Messages (trTrace r)"
  "Transport (trTrace (finishWaitLocked now r)) = Transport (trTrace r)" "trEnabled (finishWaitLocked now r) = trEnabled r"
  "SchemaVersion (trTrace (finishWaitLocked now r)) = SchemaVersion (trTrace r)"
  "Enabled (trTrace (finishWaitLocked now r)) = Enabled (trTrace r)"
  "RBCs (trTrace (finishWaitLocked now r)) = RBCs (trTrace r)"
  by (simp_all add: finishWaitLocked_def Let_def)

lemma apply_call_keeps:
  "Messages (trTrace (apply_call now c r)) = Messages (trTrace r)"
  "Transport (trTrace (apply_call now c r)) = Transport (trTrace r)" "trEnabled (apply_call now c r) = trEnabled r"
  "SchemaVersion (trTrace (apply_call now c r)) = SchemaVersion (trTrace r)"
  "Enabled (trTrace (apply_call now c r)) = Enabled (trTrace r)"
  by (cases c; simp add: recordAggregate_def recordRBC_def recordRBCReady_def recordBBA_def recordAdapter_def transitionWait_def
    finishWait_def put_rbc_def put_bba_def Let_def frame_simps split: option.splits)+

lemma recorder_inv_frame:
  assumes "recorder_inv r" "Messages (trTrace r') = Messages (trTrace r)" "Transport (trTrace r') = Transport (trTrace r)"
    "trEnabled r' = trEnabled r" "SchemaVersion (trTrace r') = SchemaVersion (trTrace r)" "Enabled (trTrace r') = Enabled (trTrace r)"
  shows "recorder_inv r'"
  using assms(1) unfolding recorder_inv_def timing_inv_def accounting_def allMessagesTerminalLocked_def msg_entry_def assms(2-) .

lemma recordSendPhase_facts:
  assumes "0 \<le> PhaseMaxUS p" "PhaseMaxUS p \<le> PhaseTotalUS p"
  shows "0 \<le> PhaseMaxUS (recordSendPhase d p)" "PhaseMaxUS (recordSendPhase d p) \<le> PhaseTotalUS (recordSendPhase d p)"
    "PhaseCount (recordSendPhase d p) = PhaseCount p + 1"
  using assms by (auto simp: recordSendPhase_def Let_def clampUS_def)

lemma completed_phased:
  assumes "phased e"
  shows "phased (recordCompletedSend obs (e\<lparr>TerminalCount := k\<rparr>))"
proof (cases "ObsErr obs")
  case True
  then show ?thesis using assms by (simp add: recordCompletedSend_def phased_def sendPhases_def)
next
  case False
  have "0 \<le> clampUS (ObsTotal obs)" by (simp add: clampUS_def Let_def)
  then show ?thesis using assms False recordSendPhase_facts
    by (auto simp: recordCompletedSend_def Let_def phased_def sendPhases_def)
qed

lemma phased_scheduled: "phased e \<Longrightarrow> phased (e\<lparr>ScheduledCount := Suc (ScheduledCount e)\<rparr>)"
  "phased e \<Longrightarrow> phased (e\<lparr>InboundCount := i, InboundBytes := b\<rparr>)"
  by (auto simp: phased_def sendPhases_def)

lemma timing_put: "timing_inv r \<Longrightarrow> phased e \<Longrightarrow> timing_inv (put_msg t e r)"
  by (simp add: timing_inv_def msg_entry_put) (simp add: put_msg_def)

lemma timing_transport: "timing_inv r \<Longrightarrow> timing_inv (set_transport f r)"
  by (simp add: timing_inv_def) (simp add: set_transport_def)

lemma timing_entry: "timing_inv r \<Longrightarrow> map_of (Messages (trTrace r)) t = Some e \<Longrightarrow> phased e"
  using msg_entry_some [of r t e] by (auto simp: timing_inv_def)

lemma inbound_inv:
  assumes inv: "recorder_inv r"
  shows "recorder_inv (recordMessageInbound t sz r)"
proof (cases "map_of (Messages (trTrace r)) t")
  case None
  then show ?thesis using inv by (simp add: recordMessageInbound_def)
next
  case (Some e)
  let ?e = "\<lambda>b. e\<lparr>InboundCount := InboundCount e + 1, InboundBytes := b\<rparr>"
  have acc: "accounting r" and tim: "timing_inv r" using inv by (simp_all add: recorder_inv_def)
  have bal: "balanced e" using acc msg_entry_some [OF Some] by (auto simp: accounting_def)
  have "accounting (put_msg t (?e b) r)" for b
  proof -
    have "TerminalCount (msg_entry u (put_msg t (?e b) r)) = TerminalCount (msg_entry u r)"
      "ScheduledCount (msg_entry u (put_msg t (?e b) r)) = ScheduledCount (msg_entry u r)" for u
      using msg_entry_some [OF Some] by (simp_all add: msg_entry_put)
    then have all: "allMessagesTerminalLocked (put_msg t (?e b) r) = allMessagesTerminalLocked r" by (simp add: allTerminal_iff)
    have "balanced (?e b)" using bal by (simp add: balanced_def)
    then show ?thesis using acc Some unfolding accounting_def all by (auto simp: msg_entry_put)
  qed
  moreover have "timing_inv (put_msg t (?e b) r)" for b
    by (rule timing_put [OF tim phased_scheduled(2) [OF timing_entry [OF tim Some]]])
  ultimately show ?thesis using inv Some by (simp add: recordMessageInbound_def recorder_inv_def)
qed

lemma begin_timing: "timing_inv r \<Longrightarrow> timing_inv (snd (beginMessageOutbound t r))"
  by (auto simp: beginMessageOutbound_def intro: timing_put phased_scheduled timing_entry split: option.splits)

lemma complete_timing: "timing_inv r \<Longrightarrow> timing_inv (completeMessageOutbound t obs r)"
  by (auto simp: completeMessageOutbound_def Let_def intro: timing_transport timing_put completed_phased timing_entry split: option.splits)

lemma sub64_le: "b \<le> a \<Longrightarrow> sub64 a b \<le> a"
  using zmod_le_nonneg_dividend [of "int a - int b" 18446744073709551616] by (simp add: sub64_def)

lemma seal_timing:
  assumes "recorder_inv r"
  shows "timing_inv (sealMessageOutbound r)"
proof -
  have "timing_inv (seal_subtype u s) \<and> (\<forall>t. balanced (msg_entry t (seal_subtype u s)))"
    if "timing_inv s" "\<forall>t. balanced (msg_entry t s)" for u s
  proof -
    let ?e = "msg_entry u s"
    have "sub64 (ScheduledCount ?e) (TerminalCount ?e) \<le> ScheduledCount ?e"
      by (rule sub64_le) (use that(2) in \<open>simp add: balanced_def\<close>)
    then have "phased (?e\<lparr>PendingAtDecision := sub64 (ScheduledCount ?e) (TerminalCount ?e)\<rparr>)"
      using that(1) by (auto simp: timing_inv_def phased_def sendPhases_def)
    then show ?thesis using that by (simp add: seal_subtype_def Let_def timing_put msg_entry_put balanced_def)
  qed
  then have "timing_inv (fold seal_subtype ts s) \<and> (\<forall>t. balanced (msg_entry t (fold seal_subtype ts s)))"
    if "timing_inv s" "\<forall>t. balanced (msg_entry t s)" for ts s
    using that by (induction ts arbitrary: s) auto
  then have "timing_inv (fold seal_subtype acsMessageSubtypes r)" using assms by (simp add: recorder_inv_def accounting_def)
  then show ?thesis using assms by (simp add: sealMessageOutbound_def Let_def timing_transport recorder_inv_def)
qed

lemma new_timing: "timing_inv (newTraceRecorder nodes True)"
proof -
  have "phased emptyMessageTrace" by (simp add: phased_def emptyMessageTrace_def sendPhases_def emptyPhase_def)
  moreover have "Messages (trTrace (newTraceRecorder nodes True)) = map (\<lambda>t. (t, emptyMessageTrace)) acsMessageSubtypes"
    by (simp add: newTraceRecorder_def acsMessageSubtypes_def)
  moreover have "msg_entry t (newTraceRecorder nodes True) = emptyMessageTrace" for t
    unfolding msg_entry_def calculation(2) by (auto simp: acsMessageSubtypes_def)
  ultimately show ?thesis
    by (simp add: timing_inv_def acsMessageSubtypes_def) (simp add: newTraceRecorder_def ACSTraceSchemaVersion_def)
qed

lemma recorderDo_inv: "recorder_inv r \<Longrightarrow> recorder_inv (recorderDo op r)"
proof (cases op)
  case (OpStart base)
  assume "recorder_inv r"
  then show ?thesis unfolding OpStart by (rule recorder_inv_frame) (simp_all add: begin_trace_def)
next
  case (OpCall now c)
  assume "recorder_inv r"
  then show ?thesis unfolding OpCall by (rule recorder_inv_frame) (simp_all add: apply_call_keeps)
next
  case (OpInbound t sz)
  assume "recorder_inv r"
  then show ?thesis unfolding OpInbound by (simp add: inbound_inv)
next
  case OpSeal
  assume inv: "recorder_inv r"
  have "accounting (sealMessageOutbound r)"
    using inv seal_accounting [of r] by (cases "Sealed (Transport (trTrace r))") (auto simp: recorder_inv_def sealMessageOutbound_def)
  then show ?thesis using seal_timing [OF inv] unfolding OpSeal by (simp add: recorder_inv_def)
qed (simp_all add: recorder_inv_def begin_accounting begin_timing complete_accounting complete_timing)

lemma recorder_run_inv: "recorder_inv (fold recorderDo ops (newTraceRecorder nodes True))"
proof -
  have "recorder_inv (fold recorderDo ops r)" if "recorder_inv r" for r using that by (induction ops arbitrary: r) (auto intro: recorderDo_inv)
  then show ?thesis using new_timing new_accounting by (simp add: recorder_inv_def)
qed


section \<open>Message records of a final trace\<close>

lemma final_message_ok:
  assumes "phased e" "balanced e" "TerminalCount e = ScheduledCount e"
  shows "messageOK schema \<lparr>amSubtype = t, amTrace = e\<rparr> \<longleftrightarrow> t \<in> set orderedACSMessageSubtypes"
proof -
  have "validateV2MessagePhases e = Inr ()"
    using assms(1,2) unfolding validateV2MessagePhases_def firstError_ok sendPhases_def phased_def balanced_def
    by (auto simp: firstError_ok)
  moreover have "validateV3MessageLifecycle e = Inr ()"
    using assms unfolding validateV3MessageLifecycle_def firstError_ok phased_def balanced_def by auto
  ultimately show ?thesis using assms(1) by (simp add: messageOK_def phased_def)
qed

lemma ordered_subtypes: "orderedACSMessageSubtypes = acsMessageSubtypes"
  by (simp add: orderedACSMessageSubtypes_def acsMessageSubtypes_def)

lemma accounting_keys: "accounting r \<Longrightarrow> keys_of (Messages (trTrace r)) = set acsMessageSubtypes"
  unfolding dom_map_of_conv_image_fst [symmetric] dom_def accounting_def by blast



section \<open>A run of one node\<close>

definition traced_ops :: "recorder_op list" where
  "traced_ops = OpStart 0 # map (OpCall 2000) [CallAggregate traceACSInputStarted, CallAggregate traceACSFirstRBCOutput,
     CallAggregate traceACSRBCOutputQuorum, CallAggregate traceACSFirstTrueBBA, CallAggregate traceACSTrueBBAQuorum,
     CallAggregate traceACSAllBBADecided, CallAggregate traceACSTruthyRBCReady, CallAggregate traceACSCoreDecision,
     CallAdapter traceCommonSubsetDecoded, CallAdapter traceBlockBodyBuilt, CallAdapter traceNodeOutputReceived] @
     [OpBegin ACSMessageEcho, OpSeal, OpComplete ACSMessageEcho demo_obs]"

definition traced_recorder :: traceRecorder where
  "traced_recorder = fold recorderDo traced_ops (newTraceRecorder [0] True)"

definition traced_result :: Result where
  "traced_result = zeroResult\<lparr>rsACSTrace := snapshot traced_recorder\<rparr>"

definition traced_run :: EvalRun where
  "traced_run = zeroRun\<lparr>evRunID := ''r'', evSlot := 5, evNodes := 1, evResults := [traced_result]\<rparr>"

definition traced_manifest :: suiteManifest where
  "traced_manifest = \<lparr>smACSTraceSchema = ACSTraceSchemaV3, smStreamMode = []\<rparr>"

definition traced_env :: artifact_env where
  "traced_env = \<lparr>aeEncode = (\<lambda>_. Some [1]), aeStream = (\<lambda>_. (artifactRecords [traced_run], True)), aeCreate = (\<lambda>_. True),
     aeFlush = (\<lambda>_. True), aeClose = (\<lambda>_. True), aeOpen = (\<lambda>_. True), aeSpilled = (\<lambda>w. w)\<rparr>"

lemma traced_final: "traceFinalized traced_recorder"
  by code_simp


lemma traced_record_ok:
  "validateACSTraceRecord (newACSTraceArtifactRecord traced_run traced_result) [0]
     \<lparr>exRecord = newACSTraceArtifactRecord traced_run traced_result, exLegacyACSUS = 0\<rparr> = Inr ()"
  by code_simp


lemma traced_results: "resultsOf [traced_run] = [(traced_run, traced_result)]"
  by (simp add: resultsOf_def traced_run_def zeroRun_def)

lemma traced_records: "artifactRecords [traced_run] = [newACSTraceArtifactRecord traced_run traced_result]"
  by (simp add: artifactRecords_def traced_results)

lemma traced_members: "membersFor [traced_run] (keyOf (traced_run, traced_result)) = [0]"
  by (simp add: membersFor_def memberships_def runKeyOf_def keyOf_def newACSTraceArtifactRecord_def Let_def membersOf_def)
    (simp add: traced_run_def zeroRun_def)

lemma traced_facts: "supportedACSTraceSchema (smACSTraceSchema traced_manifest)" "smACSTraceSchema traced_manifest \<noteq> []"
  "traced (smACSTraceSchema traced_manifest) (traced_run, traced_result)"
  "snd (expectationOf (traced_run, traced_result)) = \<lparr>exRecord = newACSTraceArtifactRecord traced_run traced_result, exLegacyACSUS = 0\<rparr>"
proof -
  show "traced (smACSTraceSchema traced_manifest) (traced_run, traced_result)" by code_simp
  show "snd (expectationOf (traced_run, traced_result)) = \<lparr>exRecord = newACSTraceArtifactRecord traced_run traced_result, exLegacyACSUS = 0\<rparr>"
    by (simp add: expectationOf_def) (simp add: traced_result_def zeroResult_def zeroMetrics_def)
qed (simp_all add: traced_manifest_def supportedACSTraceSchema_def ACSTraceSchemaV3_def)

theorem artifact_write_validates_witness:
  "writeACSTraceArtifact traced_env ''p'' [traced_run] [] = (Inr (), [(''p'', [1])]) \<and>
   validateACSTraceArtifact traced_env traced_manifest [traced_run] ''p'' [(''p'', [1])] = Inr ()"
proof -
  have w: "writeACSTraceArtifact traced_env ''p'' [traced_run] [] = (Inr (), [(''p'', [1])])"
    by (simp add: writeACSTraceArtifact_def traced_env_def traced_records)
  moreover have "validateACSTraceArtifact traced_env traced_manifest [traced_run] ''p'' [(''p'', [1])] = Inr ()"
    unfolding artifact_write_validates [of traced_env "''p''" "[traced_run]" "[]" _ traced_manifest, OF w, simplified traced_env_def artifact_env.simps,
        OF TrueI, folded traced_env_def, OF refl]
    using traced_facts traced_record_ok traced_members by (simp add: traced_results recordFor_def)
  ultimately show ?thesis ..
qed

lemma traced_accepted: "validateACSTraceArtifact traced_env traced_manifest [traced_run] ''p'' [(''p'', [1])] = Inr ()"
proof -
  have "recordOK (smACSTraceSchema traced_manifest) [traced_run] (map expectationOf [(traced_run, traced_result)])
      (newACSTraceArtifactRecord traced_run traced_result)"
    unfolding recordOK_def using traced_facts(3,4) traced_record_ok traced_members
    by (auto simp: expected_lookup keyOf_def traced_def) (simp_all add: newACSTraceArtifactRecord_def Let_def)
  then show ?thesis
    unfolding validate_ok [OF traced_facts(2)] using traced_facts(1,3)
    by (simp add: traced_results traced_env_def traced_records keyOf_def)
qed

theorem artifact_accepted_witness:
  "\<exists>content rs. map_of [(''p'', [1 :: byte])] ''p'' = Some content \<and> aeStream traced_env content = (rs, True) \<and>
    list_all2 sameTrace rs (artifactRecords [traced_run])"
  using artifact_accepted [OF traced_accepted traced_facts(2)] by blast

end
