(* ===== verification/Ready_Artifact.thy ===== *)
theory Ready_Artifact
  imports Recorder_Artifact
begin

text \<open>
  The READY trigger of a reliable broadcast against the check of the artifact. A broadcast sends READY the
  moment a quorum is reached, so the counts it reports are the thresholds themselves: exactly \<open>N - F\<close> echos with
  fewer than \<open>F + 1\<close> readys, or exactly \<open>F + 1\<close> readys with fewer than \<open>N - F\<close> echos.
\<close>

section \<open>Runs of one broadcast\<close>

text \<open>
  Messages come from members; the READY of the node itself is counted when it is sent, so no message
  brings it in again.
\<close>

inductive rbc_exec :: "rbc_lib \<Rightarrow> node_id set \<Rightarrow> RBC \<Rightarrow> RBC \<Rightarrow> bool" for L U r0 where
  init: "rbc_exec L U r0 r0"
| msg: "rbc_exec L U r0 r \<Longrightarrow> sid \<in> U \<Longrightarrow> (\<forall>h. m = ReadyMsg h \<longrightarrow> sid \<noteq> rbcID r) \<Longrightarrow>
    rbc_exec L U r0 (snd (rbc_handleMessage L sid m r))"
| input_value: "rbc_exec L U r0 r \<Longrightarrow> rbc_exec L U r0 (snd (snd (rbc_inputValue L data r)))"
| take_messages: "rbc_exec L U r0 r \<Longrightarrow> rbc_exec L U r0 (snd (rbc_takeMessages r))"
| take_output: "rbc_exec L U r0 r \<Longrightarrow> rbc_exec L U r0 (snd (rbc_takeOutput r))"

definition quiet_log :: "RBC \<Rightarrow> trace_call \<Rightarrow> bool" where
  "quiet_log r c \<longleftrightarrow> (\<exists>e. c = CallRBC (rbcProposerID r) e \<and> e \<noteq> traceRBCReadySent)"

definition trigger_log :: "RBC \<Rightarrow> trace_call \<Rightarrow> bool" where
  "trigger_log r c \<longleftrightarrow> (\<exists>ec rc. int ec \<le> rbcN r \<and> int rc \<le> rbcN r \<and>
     (c = CallRBCReady (rbcProposerID r) RBCReadyTriggerEchoQuorum ec rc \<and> int ec = rbcN r - rbcF r \<and> int rc < rbcF r + 1 \<or>
      c = CallRBCReady (rbcProposerID r) RBCReadyTriggerRelay ec rc \<and> int rc = rbcF r + 1 \<and> int ec < rbcN r - rbcF r))"

definition logged :: "RBC \<Rightarrow> bool" where
  "logged r \<longleftrightarrow> (\<forall>c \<in> set (rbcTrace r). quiet_log r c \<or> trigger_log r c)"

definition votes_in :: "node_id set \<Rightarrow> RBC \<Rightarrow> bool" where
  "votes_in U r \<longleftrightarrow> wf_map (recvEchos r) \<and> wf_map (recvReadys r) \<and> keys_of (recvEchos r) \<subseteq> U \<and> keys_of (recvReadys r) \<subseteq> U \<and> rbcID r \<in> U"

text \<open>Before READY is sent, no root has a quorum and the own READY is not counted.\<close>

definition below_quorum :: "RBC \<Rightarrow> bool" where
  "below_quorum r \<longleftrightarrow> (\<not> readySent r \<longrightarrow> rbcID r \<notin> keys_of (recvReadys r) \<and>
     (\<forall>h. int (countEchos h r) < rbcN r - rbcF r \<and> int (countReadys h r) < rbcF r + 1))"

definition ready_inv :: "node_id set \<Rightarrow> RBC \<Rightarrow> bool" where
  "ready_inv U r \<longleftrightarrow> votes_in U r \<and> below_quorum r \<and> logged r"

text \<open>Two states with the same votes; the second has logged more protocol events.\<close>

definition same_votes :: "RBC \<Rightarrow> RBC \<Rightarrow> bool" where
  "same_votes r r' \<longleftrightarrow> rbcConfig r' = rbcConfig r \<and> rbcProposerID r' = rbcProposerID r \<and> recvEchos r' = recvEchos r \<and>
     recvReadys r' = recvReadys r \<and> readySent r' = readySent r \<and> (\<forall>c \<in> set (rbcTrace r'). c \<in> set (rbcTrace r) \<or> quiet_log r c)"

lemma same_votes_refl: "same_votes r r"
  by (simp add: same_votes_def)

lemma same_votes_trans: "same_votes r s \<Longrightarrow> same_votes s t \<Longrightarrow> same_votes r t"
  by (auto simp: same_votes_def quiet_log_def)

lemma same_votes_log: "same_votes r s \<Longrightarrow> e \<noteq> traceRBCReadySent \<Longrightarrow> p = rbcProposerID r \<Longrightarrow> same_votes r (rbc_log (CallRBC p e) s)"
  by (auto simp: same_votes_def quiet_log_def) (auto simp: rbc_log_def quiet_log_def)

lemma ready_inv_same: "ready_inv U r \<Longrightarrow> same_votes r r' \<Longrightarrow> ready_inv U r'"
  unfolding ready_inv_def same_votes_def votes_in_def below_quorum_def logged_def countEchos_def countReadys_def quiet_log_def trigger_log_def
  by auto

lemma tryDecode_votes: "same_votes r (snd (tryDecodeValue L h r))"
proof -
  have store: "same_votes r (storeOutput v s)" if "same_votes r s" for v s
    using that by (auto simp: same_votes_def) (auto simp: storeOutput_def)
  show ?thesis
    by (auto simp: tryDecodeValue_def Let_def intro!: same_votes_log store same_votes_refl split: option.splits list.splits)
qed

lemma entries_le:
  assumes "wf_map m" "keys_of m \<subseteq> U" "card U = nat n" "finite U" "u \<in> U"
  shows "int (length m) \<le> n"
proof -
  have "0 < card U" using assms(4,5) by (auto simp: card_gt_0_iff)
  then show ?thesis using card_mono [OF assms(4,2)] length_wf_map [OF assms(1)] assms(3) by simp
qed

lemma vote_counts:
  assumes "votes_in U r" "card U = nat (rbcN r)" "finite U"
  shows "int (countEchos h r) \<le> rbcN r" "int (countReadys h r) \<le> rbcN r"
proof -
  have "int (length (recvEchos r)) \<le> rbcN r" "int (length (recvReadys r)) \<le> rbcN r"
    using assms entries_le [of "recvEchos r" U "rbcN r" "rbcID r"] entries_le [of "recvReadys r" U "rbcN r" "rbcID r"]
    by (simp_all add: votes_in_def)
  then show "int (countEchos h r) \<le> rbcN r" "int (countReadys h r) \<le> rbcN r"
    using count_where_le [of "\<lambda>e. h = prRootHash e" "recvEchos r"] count_where_le [of "\<lambda>k. h = k" "recvReadys r"]
    unfolding countEchos_def countReadys_def by linarith+
qed

lemma emitReady_inv:
  assumes "votes_in U r" "logged r"
    and sent: "readySent r \<Longrightarrow> ready_inv U r"
    and unsent: "\<not> readySent r \<Longrightarrow> rbcID r \<notin> keys_of (recvReadys r) \<and>
      trigger_log r (CallRBCReady (rbcProposerID r) trig (countEchos h r) (countReadys h r))"
  shows "ready_inv U (snd (emitReady L h trig r))"
proof (cases "readySent r")
  case True
  then show ?thesis using ready_inv_same [OF sent tryDecode_votes] by (simp add: emitReady_def)
next
  case False
  let ?r3 = "(rbc_log (CallRBCReady (rbcProposerID r) trig (countEchos h r) (countReadys h r))
    (r\<lparr>recvReadys := AList.update (rbcID r) h (recvReadys r), readySent := True\<rparr>))\<lparr>rbcMessages := rbcMessages r @ [ReadyMsg h]\<rparr>"
  have "ready_inv U ?r3"
    using assms(1,2) unsent [OF False]
    by (auto simp: ready_inv_def votes_in_def below_quorum_def logged_def rbc_log_def quiet_log_def trigger_log_def)
  moreover have "emitReady L h trig r = tryDecodeValue L h ?r3"
    using False unsent [OF False] by (simp add: emitReady_def Let_def rbc_log_def)
  ultimately show ?thesis using ready_inv_same tryDecode_votes by simp
qed

lemma handleEcho_inv:
  assumes inv: "ready_inv U r" and sid: "sid \<in> U" and U: "card U = nat (rbcN r)" "finite U"
  shows "ready_inv U (snd (handleEchoRequest L sid q r))"
proof (cases "sid \<in> keys_of (recvEchos r) \<or> \<not> validateProof L q")
  case True
  then show ?thesis using inv by (auto simp: handleEchoRequest_def)
next
  case False
  let ?r1 = "r\<lparr>recvEchos := AList.update sid q (recvEchos r)\<rparr>" and ?h = "prRootHash q"
  have votes: "votes_in U ?r1" and log: "logged ?r1"
    using inv sid by (auto simp: ready_inv_def votes_in_def logged_def quiet_log_def trigger_log_def)
  have ec: "countEchos h ?r1 = countEchos h r + (if h = ?h then 1 else 0)" for h
    using False by (simp add: countEchos_def count_where_update_fresh)
  have rc: "countReadys h ?r1 = countReadys h r" for h by (simp add: countReadys_def)
  have below: "below_quorum r" using inv by (simp add: ready_inv_def)
  have stay: "ready_inv U ?r1" if "readySent r \<or> int (countEchos ?h ?r1) < rbcN r - rbcF r"
    using that votes log below by (auto simp: ready_inv_def below_quorum_def ec rc)
  have "trigger_log ?r1 (CallRBCReady (rbcProposerID ?r1) RBCReadyTriggerEchoQuorum (countEchos ?h ?r1) (countReadys ?h ?r1))"
    if "\<not> readySent r" "\<not> int (countEchos ?h ?r1) < rbcN r - rbcF r"
  proof -
    have "int (countEchos ?h ?r1) = rbcN r - rbcF r" "int (countReadys ?h ?r1) < rbcF r + 1"
      using that below spec [OF conjunct2 [OF below [unfolded below_quorum_def, rule_format, OF that(1)]], of ?h] unfolding ec rc by auto
    then show ?thesis using vote_counts [OF votes] U by (auto simp: trigger_log_def)
  qed
  then have "ready_inv U (snd (emitReady L ?h RBCReadyTriggerEchoQuorum ?r1))"
    if "\<not> readySent r" "\<not> int (countEchos ?h ?r1) < rbcN r - rbcF r"
    using that below by (intro emitReady_inv [OF votes log]) (auto simp: below_quorum_def)
  then show ?thesis
    using False stay ready_inv_same [OF _ tryDecode_votes] by (auto simp: handleEchoRequest_def Let_def)
qed

lemma handleReady_inv:
  assumes inv: "ready_inv U r" and sid: "sid \<in> U" "sid \<noteq> rbcID r" and U: "card U = nat (rbcN r)" "finite U"
  shows "ready_inv U (snd (handleReadyRequest L sid h r))"
proof (cases "sid \<in> keys_of (recvReadys r)")
  case True
  then show ?thesis using inv by (auto simp: handleReadyRequest_def)
next
  case False
  let ?r1 = "r\<lparr>recvReadys := AList.update sid h (recvReadys r)\<rparr>"
  have votes: "votes_in U ?r1" and log: "logged ?r1"
    using inv sid by (auto simp: ready_inv_def votes_in_def logged_def quiet_log_def trigger_log_def)
  have ec: "countEchos k ?r1 = countEchos k r" for k by (simp add: countEchos_def)
  have rc: "countReadys k ?r1 = countReadys k r + (if k = h then 1 else 0)" for k
    using False by (simp add: countReadys_def count_where_update_fresh)
  have below: "below_quorum r" using inv by (simp add: ready_inv_def)
  have stay: "ready_inv U ?r1" if "readySent r \<or> int (countReadys h ?r1) \<noteq> rbcF r + 1"
  proof (cases "readySent r")
    case True
    then show ?thesis using votes log by (simp add: ready_inv_def below_quorum_def)
  next
    case False
    then have lt: "int (countReadys k r) < rbcF r + 1" for k using below by (simp add: below_quorum_def)
    have "int (countReadys h ?r1) \<noteq> rbcF r + 1" using that False by blast
    then have "int (countReadys k ?r1) < rbcF r + 1" for k
      using lt [of k] lt [of h] unfolding rc [of k] rc [of h] by (cases "k = h"; simp)
    then show ?thesis using votes log below False sid(2) by (simp add: ready_inv_def below_quorum_def ec)
  qed
  have "trigger_log ?r1 (CallRBCReady (rbcProposerID ?r1) RBCReadyTriggerRelay (countEchos h ?r1) (countReadys h ?r1))"
    if "\<not> readySent r" "int (countReadys h ?r1) = rbcF r + 1"
  proof -
    have "int (countEchos h ?r1) < rbcN r - rbcF r" using below that(1) unfolding ec by (simp add: below_quorum_def)
    then show ?thesis using that vote_counts [OF votes] U by (auto simp: trigger_log_def)
  qed
  then have "ready_inv U (snd (emitReady L h RBCReadyTriggerRelay ?r1))"
    if "\<not> readySent r" "int (countReadys h ?r1) = rbcF r + 1"
    using that below sid(2) by (intro emitReady_inv [OF votes log]) (auto simp: below_quorum_def)
  then show ?thesis
    using False stay ready_inv_same [OF _ tryDecode_votes] by (auto simp: handleReadyRequest_def Let_def)
qed

lemma handleProof_inv:
  assumes inv: "ready_inv U r" and U: "card U = nat (rbcN r)" "finite U"
  shows "ready_inv U (snd (handleProofRequest L sid q r))"
proof -
  let ?r4 = "(rbc_log (CallRBC (rbcProposerID r) traceRBCEchoSent) ((rbc_log (CallRBC (rbcProposerID r) traceRBCProofAccepted) r)\<lparr>echoSent := True\<rparr>))
    \<lparr>rbcMessages := rbcMessages r @ [EchoMsg q]\<rparr>"
  have "same_votes r ?r4" by (auto simp: same_votes_def rbc_log_def quiet_log_def)
  then have "ready_inv U ?r4" by (rule ready_inv_same [OF inv])
  moreover have "rbcID r \<in> U" using inv by (simp add: ready_inv_def votes_in_def)
  ultimately have "ready_inv U (snd (handleEchoRequest L (rbcID r) q ?r4))" using handleEcho_inv [of U ?r4] U by simp
  then show ?thesis using inv by (simp add: handleProofRequest_def Let_def)
qed


section \<open>Runs\<close>

definition same_shape :: "RBC \<Rightarrow> RBC \<Rightarrow> bool" where
  "same_shape r r' \<longleftrightarrow> rbcConfig r' = rbcConfig r \<and> rbcProposerID r' = rbcProposerID r"

lemma rsteps_shape: "rsteps L Ev r r' \<Longrightarrow> same_shape r r'"
proof (induction rule: rtranclp_induct)
  case (step s t)
  then show ?case using rstep_fixed [OF step.hyps(2)] by (simp add: same_shape_def rbc_fixed_def)
qed (simp add: same_shape_def)

lemma handle_shape: "same_shape r (snd (rbc_handleMessage L sid m r))"
  by (rule rsteps_shape [OF rbc_handle_run [of sid m UNIV]]) simp

lemma exec_inv:
  assumes "rbc_exec L U r0 r" and "ready_inv U r0" and U: "card U = nat (rbcN r0)" "finite U"
  shows "ready_inv U r \<and> same_shape r0 r"
  using assms(1)
proof (induction rule: rbc_exec.induct)
  case init
  then show ?case using assms(2) by (simp add: same_shape_def)
next
  case (msg r sid m)
  then have inv: "ready_inv U r" and sh: "same_shape r0 r" and N: "card U = nat (rbcN r)" using U by (auto simp: same_shape_def)
  have "ready_inv U (snd (rbc_handleMessage L sid m r))"
    using inv handleProof_inv [OF inv N U(2)] handleEcho_inv [OF inv msg.hyps(2) N U(2)] handleReady_inv [OF inv msg.hyps(2) _ N U(2)] msg.hyps(3)
    by (cases m) simp_all
  then show ?case using sh handle_shape [of r L sid m] by (simp add: same_shape_def)
next
  case (input_value r data)
  then have inv: "ready_inv U r" and sh: "same_shape r0 r" and N: "card U = nat (rbcN r)" using U by (auto simp: same_shape_def)
  have "snd (snd (rbc_inputValue L data r)) = r \<or> (\<exists>q. snd (snd (rbc_inputValue L data r)) = snd (handleProofRequest L (rbcID r) q r))"
    by (auto simp: rbc_inputValue_def split: option.splits list.splits BroadcastMessage.splits prod.splits status.splits) (metis snd_conv)+
  moreover have "same_shape r0 (snd (handleProofRequest L (rbcID r) q r))" for q
    using sh handle_shape [of r L "rbcID r" "ProofMsg q"] by (simp add: same_shape_def)
  ultimately show ?case using inv sh handleProof_inv [OF inv N U(2)] by metis
next
  case (take_messages r)
  then show ?case using ready_inv_same [of U r] by (auto simp: rbc_takeMessages_def same_votes_def same_shape_def)
next
  case (take_output r)
  then show ?case using ready_inv_same [of U r] by (auto simp: rbc_takeOutput_def same_votes_def same_shape_def split: option.splits)
qed

lemma new_ready_inv:
  assumes "newRBC L cfg p = Some r0" "cfgID cfg \<in> U" "0 < cfgN cfg" "cfgF (defaultF cfg) = (cfgN cfg - 1) sdiv 3"
  shows "ready_inv U r0"
proof -
  have "0 < cfgN cfg - (cfgN cfg - 1) sdiv 3" "0 < (cfgN cfg - 1) sdiv 3 + 1"
    using assms(3) by (cases "cfgN cfg = 1"; simp add: signed_divide_int_def)+
  then show ?thesis using assms
    by (auto simp: newRBC_def Let_def ready_inv_def votes_in_def below_quorum_def logged_def countEchos_def countReadys_def split: if_splits)
qed


section \<open>The trigger in the trace\<close>

lemma validTrigger_point:
  "e \<noteq> traceRBCReadySent \<Longrightarrow> validateV3RBCReadyTrigger (rbc_point e f x) n = validateV3RBCReadyTrigger x n"
  by (cases e) (simp_all add: validateV3RBCReadyTrigger_def)

lemma validTrigger_logged:
  assumes "trigger_log r (CallRBCReady p t ec rc)" "rbcF r = (rbcN r - 1) sdiv 3"
  shows "validateV3RBCReadyTrigger (x\<lparr>ReadySent := q, ReadyTrigger := t, ReadyTriggerEchoCount := int ec, ReadyTriggerReadyCount := int rc\<rparr>) (rbcN r) = Inr ()"
  using assms by (auto simp: trigger_log_def validateV3RBCReadyTrigger_def Let_def firstError_ok)

lemma recorderDo_rbcs:
  assumes "\<And>now c. op = OpCall now c \<Longrightarrow> (\<forall>q e. c \<noteq> CallRBC q e) \<and> (\<forall>q t ec rc. c \<noteq> CallRBCReady q t ec rc)"
  shows "RBCs (trTrace (recorderDo op s)) = RBCs (trTrace s)"
proof (cases op)
  case (OpCall now c)
  then show ?thesis using assms [OF OpCall]
    by (cases c) (auto simp: recordAggregate_def recordBBA_def recordAdapter_def transitionWait_def finishWait_def put_bba_def Let_def
      frame_simps split: option.splits)
next
  case OpSeal
  have "RBCs (trTrace (fold seal_subtype ts u)) = RBCs (trTrace u)" for ts u
    by (induction ts arbitrary: u) (simp_all add: seal_subtype_def Let_def put_msg_def)
  then show ?thesis unfolding OpSeal by (simp add: sealMessageOutbound_def Let_def set_transport_def)
qed (simp_all add: begin_trace_def recordMessageInbound_def beginMessageOutbound_def completeMessageOutbound_def Let_def put_msg_def
  set_transport_def split: option.splits)

text \<open>The calls a run of the recorder contains for one proposer.\<close>

definition calls_for :: "node_id \<Rightarrow> recorder_op \<Rightarrow> trace_call \<Rightarrow> bool" where
  "calls_for p op c \<longleftrightarrow> (\<exists>now. op = OpCall now c) \<and> ((\<exists>e. c = CallRBC p e) \<or> (\<exists>t ec rc. c = CallRBCReady p t ec rc))"

lemma recorderDo_trigger:
  assumes valid: "\<forall>x. map_of (RBCs (trTrace s)) p = Some x \<longrightarrow> validateV3RBCReadyTrigger x (rbcN r) = Inr ()"
    and log: "\<And>c. calls_for p op c \<Longrightarrow> quiet_log r c \<or> trigger_log r c" and F: "rbcF r = (rbcN r - 1) sdiv 3"
  shows "\<forall>x. map_of (RBCs (trTrace (recorderDo op s))) p = Some x \<longrightarrow> validateV3RBCReadyTrigger x (rbcN r) = Inr ()"
proof (cases "\<exists>now q e. op = OpCall now (CallRBC q e)")
  case True
  then obtain now q e where op: "op = OpCall now (CallRBC q e)" by blast
  have "q = p \<Longrightarrow> e \<noteq> traceRBCReadySent" using log [of "CallRBC q e"] op by (auto simp: calls_for_def quiet_log_def trigger_log_def)
  then show ?thesis using valid unfolding op
    by (auto simp: recordRBC_def put_rbc_def validTrigger_point split: option.splits if_splits)
next
  case nopoint: False
  show ?thesis
  proof (cases "\<exists>now q t ec rc. op = OpCall now (CallRBCReady q t ec rc)")
    case True
    then obtain now q t ec rc where op: "op = OpCall now (CallRBCReady q t ec rc)" by blast
    have "q = p \<Longrightarrow> trigger_log r (CallRBCReady q t ec rc)" using log [of "CallRBCReady q t ec rc"] op by (auto simp: calls_for_def quiet_log_def)
    then show ?thesis using valid validTrigger_logged [OF _ F] unfolding op
      by (auto simp: recordRBCReady_def put_rbc_def split: option.splits if_splits)
  next
    case False
    then have "RBCs (trTrace (recorderDo op s)) = RBCs (trTrace s)" using nopoint by (intro recorderDo_rbcs) blast
    then show ?thesis using valid by simp
  qed
qed

lemma fold_update_const: "map_of (fold (\<lambda>i. AList.update i v) ks m) k = Some x \<Longrightarrow> x = v \<or> map_of m k = Some x"
proof (induction ks arbitrary: m)
  case (Cons a ks)
  show ?case using Cons.IH [of "AList.update a v m"] Cons.prems by (auto split: if_splits)
qed simp

text \<open>
  C39. The READY trigger of a broadcast passes the check of the artifact: for a broadcast among the members of a run
  with the default number of faults, after any messages from members and any inputs, a recorder that has
  received, besides any other calls of the slot, calls of this broadcast for its proposer holds an entry of
  the proposer that the check of the READY trigger accepts.
\<close>

theorem ready_trigger_valid:
  assumes new: "newRBC L cfg p = Some r0" and exec: "rbc_exec L (set members) r0 r"
    and members: "distinct members" "cfgID cfg \<in> set members" "cfgN cfg = int (length members)"
      "cfgF (defaultF cfg) = (cfgN cfg - 1) sdiv 3"
    and calls: "\<And>op c. op \<in> set ops \<Longrightarrow> calls_for p op c \<Longrightarrow> c \<in> set (rbcTrace r)"
    and entry: "map_of (RBCs (trTrace (fold recorderDo ops (newTraceRecorder members True)))) p = Some e"
  shows "validateV3RBCReadyTrigger e (int (length members)) = Inr ()"
proof -
  have r0: "rbcConfig r0 = defaultF cfg" "rbcProposerID r0 = p" using new by (auto simp: newRBC_def Let_def split: if_splits)
  have "0 < cfgN cfg" using members(2,3) by (cases members) auto
  then have "ready_inv (set members) r0" using new_ready_inv [OF new members(2) _ members(4)] by simp
  then have inv: "logged r" "same_shape r0 r"
    using exec_inv [OF exec] members(1,3) r0 by (simp_all add: ready_inv_def distinct_card)
  then have N: "rbcN r = int (length members)" and F: "rbcF r = (rbcN r - 1) sdiv 3" using r0 members(3,4) by (simp_all add: same_shape_def)
  have fresh: "validateV3RBCReadyTrigger emptyRBCTrace n = Inr ()" for n
    by (simp add: validateV3RBCReadyTrigger_def emptyRBCTrace_def noPoint_def)
  have "\<forall>x. map_of (RBCs (trTrace (newTraceRecorder members True))) p = Some x \<longrightarrow> validateV3RBCReadyTrigger x (rbcN r) = Inr ()"
    using fresh fold_update_const [of emptyRBCTrace members "[]" p] by (auto simp: newTraceRecorder_def)
  moreover have "\<forall>x. map_of (RBCs (trTrace (fold recorderDo os s))) p = Some x \<longrightarrow> validateV3RBCReadyTrigger x (rbcN r) = Inr ()"
    if "\<forall>x. map_of (RBCs (trTrace s)) p = Some x \<longrightarrow> validateV3RBCReadyTrigger x (rbcN r) = Inr ()" "set os \<subseteq> set ops" for os s
    using that
  proof (induction os arbitrary: s)
    case (Cons op os)
    have "quiet_log r c \<or> trigger_log r c" if "calls_for p op c" for c
      using calls [OF _ that] Cons.prems(2) inv(1) by (auto simp: logged_def)
    then show ?case using Cons.IH recorderDo_trigger [OF Cons.prems(1) _ F, of op] Cons.prems(2) by simp
  qed simp
  ultimately have "\<forall>x. map_of (RBCs (trTrace (fold recorderDo ops (newTraceRecorder members True)))) p = Some x \<longrightarrow>
      validateV3RBCReadyTrigger x (rbcN r) = Inr ()" by blast
  then show ?thesis using entry N by simp
qed


section \<open>A broadcast among four nodes\<close>

definition ready_lib :: rbc_lib where
  "ready_lib = \<lparr>rsNew = (\<lambda>_ _. True), rsSplit = (\<lambda>_ _ d. Some [d]), rsEncode = (\<lambda>_ _ s. Some s), rsReconstruct = (\<lambda>_ _ _. None),
     mtProve = (\<lambda>_ _. ([], [], 0, 0)), mtVerify = (\<lambda>_ _ _ _. False), rangeOrder = (\<lambda>x. x)\<rparr>"

definition ready_config :: Config where
  "ready_config = \<lparr>cfgN = 4, cfgF = 0, cfgID = 3, cfgNodes = [0, 1, 2, 3], cfgBatchSize = 0\<rparr>"

definition ready_start :: RBC where
  "ready_start = the (newRBC ready_lib ready_config 0)"

definition ready_end :: RBC where
  "ready_end = snd (rbc_handleMessage ready_lib 2 (ReadyMsg [7]) (snd (rbc_handleMessage ready_lib 1 (ReadyMsg [7]) ready_start)))"

definition ready_ops :: "recorder_op list" where
  "ready_ops = [OpStart 0, OpCall 5000 (CallRBCReady 0 RBCReadyTriggerRelay 0 2)]"

lemma ready_start_eq:
  "newRBC ready_lib ready_config 0 = Some ready_start"
  "ready_start = \<lparr>rbcConfig = ready_config\<lparr>cfgF := 1\<rparr>, rbcProposerID = 0, recvReadys = [], recvEchos = [], numParityShards = 2,
     numDataShards = 2, rbcMessages = [], echoSent = False, readySent = False, outputDecoded = False, rbcOutput = None, rbcTrace = []\<rparr>"
  by (simp_all add: ready_start_def newRBC_def ready_lib_def ready_config_def defaultF_def Let_def signed_divide_int_def)

lemma ready_end_trace: "rbcTrace ready_end = [CallRBCReady 0 RBCReadyTriggerRelay 0 2]"
  by (simp add: ready_end_def ready_start_eq(2) ready_config_def handleReadyRequest_def emitReady_def tryDecodeValue_def rbc_log_def Let_def
    countReadys_def countEchos_def)

theorem ready_trigger_valid_witness:
  "\<exists>e. map_of (RBCs (trTrace (fold recorderDo ready_ops (newTraceRecorder [0, 1, 2, 3] True)))) 0 = Some e \<and>
     ReadyTrigger e = RBCReadyTriggerRelay \<and> validateV3RBCReadyTrigger e 4 = Inr ()"
proof -
  let ?r = "newTraceRecorder [0, 1, 2, 3] True"
  obtain e where e: "map_of (RBCs (trTrace (fold recorderDo ready_ops ?r))) 0 = Some e" "ReadyTrigger e = RBCReadyTriggerRelay"
    by (simp add: ready_ops_def newTraceRecorder_def begin_trace_def recordRBCReady_def put_rbc_def emptyRBCTrace_def)
  have id: "rbcID (snd (rbc_handleMessage ready_lib 1 (ReadyMsg [7]) ready_start)) = 3" "rbcID ready_start = 3"
    using handle_shape [of ready_start ready_lib 1 "ReadyMsg [7]"] by (simp_all add: same_shape_def ready_start_eq(2) ready_config_def)
  have "rbc_exec ready_lib (set [0, 1, 2, 3]) ready_start ready_end" unfolding ready_end_def
    by (intro rbc_exec.msg rbc_exec.init) (use id in simp_all)
  then have "validateV3RBCReadyTrigger e (int (length [0, 1, 2, 3 :: nat])) = Inr ()"
    by (rule ready_trigger_valid [OF ready_start_eq(1) _ _ _ _ _ _ e(1)])
      (auto simp: ready_config_def defaultF_def signed_divide_int_def ready_end_trace ready_ops_def calls_for_def)
  then show ?thesis using e by auto
qed

end
