(* ===== verification/Eval_Rows.thy ===== *)
theory Eval_Rows
  imports Eval_Run
begin

text \<open>
  The rows of the CSV files of an evaluation: \<^verbatim>\<open>evalSummaryRecord\<close> and \<^verbatim>\<open>writeEvalOutputs\<close> of \<^verbatim>\<open>eval.go\<close>,
  \<^verbatim>\<open>writeNodeMeasurements\<close>, \<^verbatim>\<open>acsTraceSummaryValues\<close> and \<^verbatim>\<open>writeRunMeasurements\<close> of \<^verbatim>\<open>eval_suite.go\<close>.
  The CSV encoder and the files are not modelled. Event and byte totals are natural numbers, as in the recorder.
\<close>

section \<open>Totals of a trace\<close>

definition tracePointCSV :: "TracePoint \<Rightarrow> string" where
  "tracePointCSV p = (if \<not> Recorded p then [] else showInt (OffsetUS p))"

definition mergeSendPhaseTrace :: "ACSSendPhaseTrace \<Rightarrow> ACSSendPhaseTrace \<Rightarrow> ACSSendPhaseTrace" where
  "mergeSendPhaseTrace v tot =
     tot\<lparr>PhaseCount := PhaseCount tot + PhaseCount v, PhaseTotalUS := PhaseTotalUS tot + PhaseTotalUS v,
       PhaseMaxUS := (if PhaseMaxUS tot < PhaseMaxUS v then PhaseMaxUS v else PhaseMaxUS tot)\<rparr>"

text \<open>The totals the loop over the messages accumulates, as one message trace.\<close>

definition addMessageTrace :: "ACSMessageTrace \<Rightarrow> ACSMessageTrace \<Rightarrow> ACSMessageTrace" where
  "addMessageTrace m t =
     t\<lparr>ScheduledCount := ScheduledCount t + ScheduledCount m, TerminalCount := TerminalCount t + TerminalCount m,
       PendingAtDecision := PendingAtDecision t + PendingAtDecision m,
       InboundCount := InboundCount t + InboundCount m, InboundBytes := InboundBytes t + InboundBytes m,
       OutboundCount := OutboundCount t + OutboundCount m, OutboundBytes := OutboundBytes t + OutboundBytes m,
       SendCount := SendCount t + SendCount m, SendTotalUS := SendTotalUS t + SendTotalUS m,
       SendMaxUS := (if SendMaxUS t < SendMaxUS m then SendMaxUS m else SendMaxUS t),
       SendFailureCount := SendFailureCount t + SendFailureCount m,
       EncodePhase := mergeSendPhaseTrace (EncodePhase m) (EncodePhase t),
       QueueWaitPhase := mergeSendPhaseTrace (QueueWaitPhase m) (QueueWaitPhase t),
       StreamOpenPhase := mergeSendPhaseTrace (StreamOpenPhase m) (StreamOpenPhase t),
       WritePhase := mergeSendPhaseTrace (WritePhase m) (WritePhase t),
       FinalizePhase := mergeSendPhaseTrace (FinalizePhase m) (FinalizePhase t),
       StreamOpenCount := StreamOpenCount t + StreamOpenCount m, StreamReuseCount := StreamReuseCount t + StreamReuseCount m\<rparr>"

text \<open>\<open>msgs\<close> and \<open>bbas\<close> are the entries of the two maps in the order in which the loops meet them.\<close>

definition acsTraceSummaryValues :: "ACSMessageTrace list \<Rightarrow> BBATrace list \<Rightarrow> ACSTrace \<Rightarrow> string list" where
  "acsTraceSummaryValues msgs bbas trace =
     (if \<not> Enabled trace then replicate 42 []
      else let t = fold addMessageTrace msgs emptyMessageTrace;
               maxBBAEpoch = fold (\<lambda>b e. if e < MaxEpoch b then MaxEpoch b else e) bbas 0;
               a = Aggregate trace; d = Adapter trace
      in [SchemaVersion trace, showBool (Sealed (Transport trace)), showBool (Finalized (Transport trace)),
          showNat (ScheduledCount t), showNat (TerminalCount t), showNat (PendingAtDecision t),
          tracePointCSV (InputStarted a), tracePointCSV (FirstRBCOutput a), tracePointCSV (RBCOutputQuorum a),
          tracePointCSV (FirstTrueBBA a), tracePointCSV (TrueBBAQuorum a), tracePointCSV (FalseInputInjected a),
          tracePointCSV (AllBBADecided a), tracePointCSV (TruthyRBCReady a), tracePointCSV (CoreDecision a),
          tracePointCSV (CommonSubsetDecoded d), tracePointCSV (BlockBodyBuilt d), tracePointCSV (NodeOutputReceived d),
          showInt (TrueBBAQuorumUS (Wait trace)), showInt (AllBBAUS (Wait trace)), showInt (TruthyRBCUS (Wait trace)),
          showNat (InboundCount t), showNat (InboundBytes t), showNat (OutboundCount t), showNat (OutboundBytes t),
          showNat (SendCount t), showInt (SendTotalUS t), showInt (SendMaxUS t), showNat (SendFailureCount t),
          showInt (PhaseTotalUS (EncodePhase t)), showInt (PhaseMaxUS (EncodePhase t)),
          showInt (PhaseTotalUS (QueueWaitPhase t)), showInt (PhaseMaxUS (QueueWaitPhase t)),
          showInt (PhaseTotalUS (StreamOpenPhase t)), showInt (PhaseMaxUS (StreamOpenPhase t)),
          showInt (PhaseTotalUS (WritePhase t)), showInt (PhaseMaxUS (WritePhase t)),
          showInt (PhaseTotalUS (FinalizePhase t)), showInt (PhaseMaxUS (FinalizePhase t)),
          showNat (StreamOpenCount t), showNat (StreamReuseCount t), showNat maxBBAEpoch])"

text \<open>How the loops over the two maps of a trace range over their entries.\<close>

record trace_range =
  trMessages :: "(ACSMessageSubtype, ACSMessageTrace) gomap \<Rightarrow> (ACSMessageSubtype, ACSMessageTrace) gomap"
  trBBAs :: "(node_id, BBATrace) gomap \<Rightarrow> (node_id, BBATrace) gomap"

definition traceSummary :: "trace_range \<Rightarrow> ACSTrace \<Rightarrow> string list" where
  "traceSummary R trace =
     acsTraceSummaryValues (map snd (trMessages R (Messages trace))) (map snd (trBBAs R (BBAs trace))) trace"

section \<open>Rows\<close>

definition evalSummaryHeader :: "string list" where
  "evalSummaryHeader =
    [''run_id'', ''network'', ''nodes'', ''threshold'', ''bmax'', ''batch_size'', ''tx_size'', ''tx_gas'',
     ''max_decrypted_gas'', ''max_decrypted_txs'', ''success'', ''consistent'', ''error'', ''node_id'',
     ''agreed_lists'', ''agreed_ciphertexts'', ''selected_ciphertexts'', ''skipped_ciphertexts'', ''selected_gas'',
     ''ciphertexts'', ''slot_ms'', ''acs_ms'', ''commit_to_plaintext_ms'', ''total_slot_us'',
     ''proposal_preparation_us'', ''acs_us'', ''merge_plan_us'', ''share_generation_us'', ''threshold_wait_us'',
     ''combine_us'', ''combine_attempts'', ''materialization_us'', ''commit_to_plaintext_us'', ''metrics_finalized'',
     ''outbound_acs_bytes'', ''outbound_share_bytes'']"

text \<open>The two byte counters are read from a map, where a missing key counts zero.\<close>

definition evalSummaryRecord :: "EvalRun \<Rightarrow> Result option \<Rightarrow> string list" where
  "evalSummaryRecord run res =
    [evRunID run, evNetwork run, showInt (evNodes run), showInt (evThreshold run), showInt (evBMax run),
     showInt (evBatchSize run), showInt (evTxSize run), showNat (unat (evTxGas run)),
     showNat (unat (evMaxDecryptedGas run)), showInt (evMaxDecryptedTxs run), showBool (evSuccess run),
     showBool (evConsistent run), evError run] @
    (case res of
       None \<Rightarrow> replicate 23 []
     | Some result \<Rightarrow>
         let m = rsMetrics result; outBytes = (\<lambda>k. case map_of (mxOutboundBytes m) k of None \<Rightarrow> 0 | Some v \<Rightarrow> v) in
         [showNat (rsNodeID result), showInt (mxAgreedLists m), showInt (mxAgreedCiphertexts m),
          showInt (mxSelectedCiphertexts m), showInt (mxSkippedCiphertexts m), showNat (unat (mxSelectedGas m)),
          showNat (rsCiphertexts result), showInt (mxTotalSlotMS m), showInt (mxACSMS m),
          showInt (mxCommitToPlaintextMS m), showInt (mxTotalSlotUS m), showInt (mxProposalPreparationUS m),
          showInt (mxACSUS m), showInt (mxMergePlanUS m), showInt (mxShareGenerationUS m),
          showInt (mxThresholdWaitUS m), showInt (mxCombineUS m), showInt (mxCombineAttempts m),
          showInt (mxMaterializationUS m), showInt (mxCommitToPlaintextUS m), showBool (mxMetricsFinalized m),
          showInt (outBytes ''acs''), showInt (outBytes ''share'')])"

definition evalRows :: "EvalRun list \<Rightarrow> string list list" where
  "evalRows runs = evalSummaryHeader # concat (map (\<lambda>run. if evResults run = [] then [evalSummaryRecord run None]
     else map (evalSummaryRecord run \<circ> Some) (evResults run)) runs)"

definition nodeMeasurementHeader :: "string list" where
  "nodeMeasurementHeader =
    [''run_id'', ''scenario_id'', ''phase'', ''iteration'', ''order_index'', ''measurement_block'',
     ''block_iteration'', ''schedule_seed'', ''planned_scenario_runs'', ''stream_mode'', ''success'', ''consistent'',
     ''outcome'', ''deadline_met'', ''timed_out'', ''node_id'', ''critical_node'', ''total_slot_us'',
     ''proposal_preparation_us'', ''acs_us'', ''merge_plan_us'', ''selected_ciphertexts'', ''acs_output_decode_us'',
     ''agreed_set_us'', ''merge_us'', ''ciphertext_decode_us'', ''batch_plan_us'', ''share_generation_us'',
     ''threshold_wait_us'', ''combine_us'', ''combine_attempts'', ''materialization_us'', ''commit_to_plaintext_us'',
     ''metrics_finalized'', ''acs_trace_schema'', ''acs_trace_sealed'', ''acs_trace_finalized'',
     ''acs_scheduled_sends'', ''acs_terminal_sends'', ''acs_pending_at_decision'', ''acs_input_started_us'',
     ''acs_first_rbc_output_us'', ''acs_rbc_output_quorum_us'', ''acs_first_true_bba_us'', ''acs_true_bba_quorum_us'',
     ''acs_false_input_injected_us'', ''acs_all_bba_decided_us'', ''acs_truthy_rbc_ready_us'',
     ''acs_core_decision_us'', ''acs_common_subset_decoded_us'', ''acs_block_body_built_us'',
     ''acs_node_output_received_us'', ''acs_wait_true_bba_quorum_us'', ''acs_wait_all_bba_us'',
     ''acs_wait_truthy_rbc_us'', ''acs_inbound_messages'', ''acs_inbound_bytes'', ''acs_outbound_messages'',
     ''acs_outbound_bytes'', ''acs_send_count'', ''acs_send_total_us'', ''acs_send_max_us'', ''acs_send_failures'',
     ''acs_encode_total_us'', ''acs_encode_max_us'', ''acs_queue_wait_total_us'', ''acs_queue_wait_max_us'',
     ''acs_stream_open_total_us'', ''acs_stream_open_max_us'', ''acs_write_total_us'', ''acs_write_max_us'',
     ''acs_finalize_total_us'', ''acs_finalize_max_us'', ''acs_stream_open_count'', ''acs_stream_reuse_count'',
     ''acs_max_bba_epoch'']"

definition nodeMeasurementRow :: "trace_range \<Rightarrow> EvalRun \<Rightarrow> Result \<Rightarrow> string list" where
  "nodeMeasurementRow R run result =
    (let m = rsMetrics result in
    [evRunID run, evScenarioID run, evPhase run, showInt (evIteration run), showInt (evOrderIndex run),
     showInt (evMeasurementBlock run), showInt (evBlockIteration run), showInt (evScheduleSeed run),
     showInt (evPlannedScenarioRuns run), evStreamMode run, showBool (evSuccess run), showBool (evConsistent run),
     evOutcome run, showBool (evDeadlineMet run), showBool (evTimedOut run), showNat (rsNodeID result),
     showBool (rsNodeID result = evCriticalNodeID run), showInt (mxTotalSlotUS m), showInt (mxProposalPreparationUS m),
     showInt (mxACSUS m), showInt (mxMergePlanUS m), showInt (mxSelectedCiphertexts m),
     showInt (mxACSOutputDecodeUS m), showInt (mxAgreedSetUS m), showInt (mxMergeUS m),
     showInt (mxCiphertextDecodeUS m), showInt (mxBatchPlanUS m), showInt (mxShareGenerationUS m),
     showInt (mxThresholdWaitUS m), showInt (mxCombineUS m), showInt (mxCombineAttempts m),
     showInt (mxMaterializationUS m), showInt (mxCommitToPlaintextUS m), showBool (mxMetricsFinalized m)] @ traceSummary R (rsACSTrace result))"

definition nodeMeasurementRows :: "trace_range \<Rightarrow> EvalRun list \<Rightarrow> string list list" where
  "nodeMeasurementRows R runs =
     nodeMeasurementHeader # concat (map (\<lambda>run. map (nodeMeasurementRow R run) (evResults run)) runs)"

definition runMeasurementHeader :: "string list" where
  "runMeasurementHeader =
    [''run_id'', ''scenario_id'', ''phase'', ''iteration'', ''order_index'', ''measurement_block'',
     ''block_iteration'', ''schedule_seed'', ''planned_scenario_runs'', ''slot'', ''cluster_generation'', ''nodes'',
     ''threshold'', ''batch_size'', ''network'', ''stream_mode'', ''bmax'', ''tx_size'', ''tx_gas'', ''success'',
     ''consistent'', ''outcome'', ''deadline_met'', ''timed_out'', ''error'', ''critical_node_id'', ''total_slot_us'',
     ''proposal_preparation_us'', ''acs_us'', ''merge_plan_us'', ''selected_ciphertexts'', ''acs_output_decode_us'',
     ''agreed_set_us'', ''merge_us'', ''ciphertext_decode_us'', ''batch_plan_us'', ''share_generation_us'',
     ''threshold_wait_us'', ''combine_us'', ''combine_attempts'', ''materialization_us'', ''commit_to_plaintext_us'',
     ''prepare_us'', ''submission_us'', ''harness_wall_us'', ''start_skew_us'']"

text \<open>Without a critical result the metrics are the zero value.\<close>

definition runMeasurementRow :: "EvalRun \<Rightarrow> string list" where
  "runMeasurementRow run =
    (let m = (case criticalResult run of None \<Rightarrow> zeroMetrics | Some r \<Rightarrow> rsMetrics r) in
    [evRunID run, evScenarioID run, evPhase run, showInt (evIteration run), showInt (evOrderIndex run),
     showInt (evMeasurementBlock run), showInt (evBlockIteration run), showInt (evScheduleSeed run),
     showInt (evPlannedScenarioRuns run), showNat (evSlot run), showInt (evClusterGeneration run),
     showInt (evNodes run), showInt (evThreshold run), showInt (evBatchSize run), evNetwork run, evStreamMode run,
     showInt (evBMax run), showInt (evTxSize run), showNat (unat (evTxGas run)), showBool (evSuccess run),
     showBool (evConsistent run), evOutcome run, showBool (evDeadlineMet run), showBool (evTimedOut run), evError run,
     showNat (evCriticalNodeID run), showInt (mxTotalSlotUS m), showInt (mxProposalPreparationUS m),
     showInt (mxACSUS m), showInt (mxMergePlanUS m), showInt (mxSelectedCiphertexts m),
     showInt (mxACSOutputDecodeUS m), showInt (mxAgreedSetUS m), showInt (mxMergeUS m),
     showInt (mxCiphertextDecodeUS m), showInt (mxBatchPlanUS m), showInt (mxShareGenerationUS m),
     showInt (mxThresholdWaitUS m), showInt (mxCombineUS m), showInt (mxCombineAttempts m),
     showInt (mxMaterializationUS m), showInt (mxCommitToPlaintextUS m), showInt (evPrepareUS run),
     showInt (evSubmissionUS run), showInt (evHarnessWallUS run), showInt (evStartSkewUS run)])"

definition runMeasurementRows :: "EvalRun list \<Rightarrow> string list list" where
  "runMeasurementRows runs = runMeasurementHeader # map (runMeasurementRow) runs"

end
