(* ===== verification/Eval_Facts.thy ===== *)
theory Eval_Facts
  imports Eval_Rows
begin

text \<open>
  What the verdicts of the evaluator mean: consistency of the results of the operators, the critical operator
  and the deadline, the counts of a scenario, the rows of the CSV files, and a node whose provider is bound
  to an encrypted corpus.
\<close>

section \<open>Consistency\<close>

text \<open>
  \<^verbatim>\<open>resultsConsistent\<close> compares lists of strings by joining them at newlines. This is faithful on
  lists without newlines other than the list of one empty string, such as lists of hexadecimal strings of
  transactions and hashes.
\<close>

definition lineList :: "string list \<Rightarrow> bool" where
  "lineList xs \<longleftrightarrow> (\<forall>s \<in> set xs. CHR 0x0A \<notin> set s) \<and> xs \<noteq> [[]]"

lemma joinWith_Cons: "joinWith sep (x # xs) = x @ (if xs = [] then [] else sep @ joinWith sep xs)"
  by (cases xs) simp_all

lemma first_line:
  fixes xs ys :: "string list"
  assumes "CHR 0x0A \<notin> set x" "CHR 0x0A \<notin> set y"
    and "x @ (if xs = [] then [] else [CHR 0x0A] @ u) = y @ (if ys = [] then [] else [CHR 0x0A] @ v)"
  shows "x = y \<and> (xs = []) = (ys = []) \<and> (xs \<noteq> [] \<longrightarrow> u = v)"
proof -
  let ?t = "takeWhile (\<lambda>c. c \<noteq> CHR 0x0A)"
  have t: "?t (z @ (if zs = [] then [] else [CHR 0x0A] @ w)) = z" if "CHR 0x0A \<notin> set z" for z w and zs :: "string list"
    using that by (induction z) auto
  have "x = y" using arg_cong [OF assms(3), of ?t] unfolding t [OF assms(1)] t [OF assms(2)] .
  then show ?thesis using assms(3) by (auto split: if_splits)
qed

lemma join_lines_inj:
  assumes "joinWith [CHR 0x0A] xs = joinWith [CHR 0x0A] ys" "lineList xs" "lineList ys"
  shows "xs = ys"
proof -
  have gen: "xs = ys" if "\<forall>s \<in> set xs \<union> set ys. CHR 0x0A \<notin> set s" "(xs = []) = (ys = [])"
    "joinWith [CHR 0x0A] xs = joinWith [CHR 0x0A] ys" for xs ys
    using that
  proof (induction xs arbitrary: ys)
    case (Cons x xs)
    then obtain y ys' where y: "ys = y # ys'" by (cases ys) auto
    have "x = y \<and> (xs = []) = (ys' = []) \<and> (xs \<noteq> [] \<longrightarrow> joinWith [CHR 0x0A] xs = joinWith [CHR 0x0A] ys')"
      using Cons.prems unfolding y joinWith_Cons by (intro first_line) auto
    then show ?case using Cons.IH [of ys'] Cons.prems(1) y by auto
  qed simp
  have "(xs = []) = (ys = [])"
  proof -
    have "joinWith [CHR 0x0A] zs = [] \<longleftrightarrow> zs = []" if "lineList zs" for zs
      using that by (cases zs) (auto simp: joinWith_Cons lineList_def)
    then show ?thesis using assms by metis
  qed
  then show ?thesis using assms by (intro gen) (auto simp: lineList_def)
qed

definition judged_view :: "Result \<Rightarrow> string \<times> string list \<times> string \<times> 64 word \<times> string list \<times> string list" where
  "judged_view r = (rsBatchID r, rsPlaintexts r, mtMergedSetHash (rsMaterialized r), mtSelectedGas (rsMaterialized r),
     mtPlaintextHashes (rsMaterialized r), mtEthereumTxHashes (rsMaterialized r))"

definition lineResult :: "Result \<Rightarrow> bool" where
  "lineResult r \<longleftrightarrow> lineList (rsPlaintexts r) \<and> lineList (mtPlaintextHashes (rsMaterialized r)) \<and> lineList (mtEthereumTxHashes (rsMaterialized r))"

lemma consistent_iff:
  assumes "\<forall>r \<in> set results. lineResult r"
  shows "resultsConsistent results \<longleftrightarrow> results \<noteq> [] \<and> (\<forall>r \<in> set results. \<forall>s \<in> set results. judged_view r = judged_view s)"
proof (cases results)
  case Nil
  then show ?thesis by (simp add: resultsConsistent_def)
next
  case (Cons first rest)
  have join: "joinWith [CHR 0x0A] xs = joinWith [CHR 0x0A] ys \<longleftrightarrow> xs = ys" if "lineList xs" "lineList ys" for xs ys
    using join_lines_inj [OF _ that] by auto
  have "resultsConsistent results \<longleftrightarrow> (\<forall>r \<in> set rest. judged_view r = judged_view first)"
    unfolding Cons resultsConsistent_def list.case list_all_iff
    by (rule ball_cong [OF refl]) (use assms Cons in \<open>simp add: judged_view_def lineResult_def join\<close>)
  then show ?thesis using Cons by (metis list.set_intros(1) list.simps(3) set_ConsD list.set_intros(2))
qed

section \<open>The critical operator\<close>

abbreviation totalUS :: "Result \<Rightarrow> int" where
  "totalUS r \<equiv> mxTotalSlotUS (rsMetrics r)"

lemma critical_fold:
  assumes "\<forall>r \<in> set rs. 0 \<le> totalUS r" "fold criticalStep rs (i, hi) = (j, m)" "- 1 \<le> hi"
  shows "hi \<le> m \<and> (\<forall>r \<in> set rs. totalUS r \<le> m \<and> (totalUS r = m \<longrightarrow> j \<le> rsNodeID r)) \<and>
    ((j, m) = (i, hi) \<or> (\<exists>r \<in> set rs. rsNodeID r = j \<and> totalUS r = m)) \<and> (m = hi \<longrightarrow> j \<le> i)"
  using assms
proof (induction rs arbitrary: i hi)
  case (Cons r rs)
  obtain i' hi' where s: "criticalStep r (i, hi) = (i', hi')" by force
  have st: "hi \<le> hi'" "totalUS r \<le> hi'" "totalUS r = hi' \<longrightarrow> i' \<le> rsNodeID r" "hi' = hi \<longrightarrow> i' \<le> i"
    "(i', hi') = (i, hi) \<or> rsNodeID r = i' \<and> totalUS r = hi'"
    using s by (auto simp: criticalStep_def split: if_splits)
  have ih: "hi' \<le> m \<and> (\<forall>r \<in> set rs. totalUS r \<le> m \<and> (totalUS r = m \<longrightarrow> j \<le> rsNodeID r)) \<and>
      ((j, m) = (i', hi') \<or> (\<exists>r \<in> set rs. rsNodeID r = j \<and> totalUS r = m)) \<and> (m = hi' \<longrightarrow> j \<le> i')"
    using Cons.IH [of i' hi'] Cons.prems s st(1) by auto
  then show ?case using st by auto
qed simp

lemma critical_result:
  assumes "results \<noteq> []" "\<forall>r \<in> set results. 0 \<le> totalUS r" "distinct (map rsNodeID results)"
  obtains r where "find (\<lambda>r. rsNodeID r = criticalNodeID results) results = Some r" "r \<in> set results"
    "\<forall>s \<in> set results. totalUS s \<le> totalUS r"
proof -
  obtain j m where f: "fold criticalStep results (0, -1) = (j, m)" by force
  note facts = critical_fold [OF assms(2) f, simplified]
  obtain r0 where "r0 \<in> set results" using assms(1) by (cases results) auto
  then have "m \<noteq> - 1" using facts assms(2) by fastforce
  then obtain r where r: "r \<in> set results" "rsNodeID r = j" "totalUS r = m" using facts by auto
  have "find (\<lambda>s. rsNodeID s = j) results = Some r"
  proof -
    obtain s where s: "find (\<lambda>s. rsNodeID s = j) results = Some s" "s \<in> set results" "rsNodeID s = j"
      using r(1,2) by (cases "find (\<lambda>s. rsNodeID s = j) results") (auto simp: find_None_iff find_Some_iff)
    then have "s = r" using assms(3) r(1,2) by (auto simp: distinct_map dest: inj_onD)
    then show ?thesis using s by simp
  qed
  moreover have "criticalNodeID results = j" using f by (simp add: criticalNodeID_def)
  ultimately show thesis using that r facts by auto
qed



section \<open>The counts of a scenario\<close>

definition measured :: "string \<Rightarrow> EvalRun list \<Rightarrow> EvalRun list" where
  "measured scenario runs = filter (\<lambda>run. evPhase run = ''measured'' \<and> evScenarioID run = scenario) runs"

definition metricOf :: "string \<Rightarrow> EvalRun \<Rightarrow> int" where
  "metricOf name run = the (map_of (metricValues run (the (criticalResult run))) name)"

lemma addSample_lookup:
  "sampleOf (addSample sc (n, v) vals) s name = (if s = sc \<and> name = n then sampleOf vals s name @ [v] else sampleOf vals s name)"
  by (auto simp: addSample_def sampleOf_def split: option.splits)

lemma addSamples_lookup:
  "distinct (map fst kvs) \<Longrightarrow> sampleOf (fold (addSample sc) kvs vals) s name =
     sampleOf vals s name @ (if s = sc then (case map_of kvs name of None \<Rightarrow> [] | Some v \<Rightarrow> [v]) else [])"
proof (induction kvs arbitrary: vals)
  case (Cons kv kvs)
  obtain k v where kv: "kv = (k, v)" by force
  have "map_of kvs k = None" using Cons.prems kv by (simp add: map_of_eq_None_iff)
  then show ?case using Cons.IH Cons.prems kv by (auto simp: addSample_lookup)
qed simp

lemma metricValues_names: "map fst (metricValues run r) = latencyMetricNames"
  by (simp add: metricValues_def latencyMetricNames_def Let_def)

lemma latency_distinct: "distinct latencyMetricNames"
  by code_simp

definition timedOutRun :: "EvalRun \<Rightarrow> bool" where
  "timedOutRun run \<longleftrightarrow> \<not> countedRun run \<and> (evTimedOut run \<or> evOutcome run = ''timed_out'')"

definition tallied :: "'m scenarioSummary \<Rightarrow> EvalRun list \<Rightarrow> bool" where
  "tallied c rs \<longleftrightarrow> ssmAttempted c = length rs \<and> ssmCompleted c = length (filter countedRun rs) \<and> ssmSucceeded c = ssmCompleted c \<and>
     ssmConsistentWithinDeadline c = length (filter (\<lambda>r. countedRun r \<and> evDeadlineMet r) rs) \<and>
     ssmTimedOut c = length (filter timedOutRun rs) \<and>
     ssmAttempted c = ssmCompleted c + ssmFailed c + ssmTimedOut c"

lemma tallied_countRun: "tallied c rs \<Longrightarrow> tallied (countRun run c) (rs @ [run])"
  by (auto simp: tallied_def countRun_def Let_def timedOutRun_def)

lemma tally_all:
  fixes runs :: "EvalRun list" and c0 :: "(string, 'm scenarioSummary) gomap"
  assumes "fold tallyRun runs ([], []) = (c0, vals)"
  shows "tallied (countOf c0 s) (measured s runs) \<and>
    (name \<in> set latencyMetricNames \<longrightarrow> sampleOf vals s name = map (metricOf name) (filter countedRun (measured s runs)))"
  using assms
proof (induction runs arbitrary: c0 vals rule: rev_induct)
  case Nil
  then show ?case by (auto simp: countOf_def zeroSummary_def tallied_def measured_def sampleOf_def)
next
  case (snoc run runs)
  obtain c1 v1 where f: "fold tallyRun runs ([], []) = (c1 :: (string, 'm scenarioSummary) gomap, v1)" by force
  note ih = snoc.IH [OF f]
  have st: "tallyRun run (c1, v1) = (c0, vals)" using snoc.prems f by simp
  show ?case
  proof (cases "evPhase run = ''measured'' \<and> evScenarioID run = s")
    case True
    have c: "countOf c0 s = countRun run (countOf c1 s)" using st True by (auto simp: tallyRun_def countOf_def)
    have "map_of (metricValues run (the (criticalResult run))) name \<noteq> None" if "name \<in> set latencyMetricNames"
      using that metricValues_names [of run "the (criticalResult run)"] by (metis map_of_eq_None_iff set_map)
    then have "sampleOf vals s name = sampleOf v1 s name @ (if countedRun run then [metricOf name run] else [])" if "name \<in> set latencyMetricNames"
      using st True that latency_distinct metricValues_names [of run "the (criticalResult run)"]
      by (auto simp: tallyRun_def addSamples_lookup metricOf_def split: if_splits)
    then show ?thesis using True ih c tallied_countRun [of "countOf c1 s"] by (simp add: measured_def)
  next
    case False
    have "countOf c0 s = countOf c1 s" "sampleOf vals s name = sampleOf v1 s name"
      using st False latency_distinct metricValues_names [of run "the (criticalResult run)"]
      by (auto simp: tallyRun_def countOf_def addSamples_lookup split: if_splits)
    then show ?thesis using ih False by (auto simp: measured_def)
  qed
qed

text \<open>
  The counts of a scenario: every summary counts the measured runs of its scenario, each exactly once as
  completed, timed out or failed; the completed ones are those with a successful and consistent verdict and a critical operator,
  and the statistics of every latency metric are taken over exactly the completed runs, in their order.
\<close>

theorem scenario_counts:
  fixes sm :: "'m scenarioSummary"
  assumes "sm \<in> set (summarizeScenarios stat scenarios runs)"
  shows "tallied sm (measured (ssmScenarioID sm) runs) \<and>
    ssmMetrics sm = map (\<lambda>name. (name, stat (map (metricOf name) (filter countedRun (measured (ssmScenarioID sm) runs))))) latencyMetricNames"
proof -
  obtain counts :: "(string, 'm scenarioSummary) gomap" and vals where f: "fold tallyRun runs ([], []) = (counts, vals)" by force
  then obtain sc where sm: "sc \<in> set scenarios" "sm = (countOf counts (scID sc))\<lparr>ssmScenarioID := scID sc, ssmNodes := scNodes sc,
      ssmBatchSize := scBatchSize sc, ssmNetwork := scNetwork sc,
      ssmMetrics := map (\<lambda>name. (name, stat (sampleOf vals (scID sc) name))) latencyMetricNames\<rparr>"
    using assms by (auto simp: summarizeScenarios_def)
  note all = tally_all [OF f, of "scID sc"]
  have "tallied sm (measured (scID sc) runs)" using conjunct1 [OF all] unfolding sm(2) by (simp add: tallied_def)
  moreover have "ssmMetrics sm = map (\<lambda>name. (name, stat (map (metricOf name) (filter countedRun (measured (scID sc) runs))))) latencyMetricNames"
    unfolding sm(2) using all by simp
  ultimately show ?thesis using sm(2) by simp
qed

section \<open>Rows\<close>

lemma mergeSendPhase_comm: "mergeSendPhaseTrace a (mergeSendPhaseTrace b t) = mergeSendPhaseTrace b (mergeSendPhaseTrace a t)"
  by (simp add: mergeSendPhaseTrace_def add_ac)

lemma addMessageTrace_comm: "addMessageTrace a (addMessageTrace b t) = addMessageTrace b (addMessageTrace a t)"
  by (simp add: addMessageTrace_def mergeSendPhase_comm add_ac)

lemma fold_mset_order:
  assumes "\<And>a b s. f a (f b s) = f b (f a s)" "mset xs = mset ys"
  shows "fold f xs s = fold f ys s"
  using fold_multiset_equiv [of xs f ys] assms by (auto simp: fun_eq_iff)

definition maxEpochStep :: "BBATrace \<Rightarrow> nat \<Rightarrow> nat" where
  "maxEpochStep = (\<lambda>b e. if e < MaxEpoch b then MaxEpoch b else e)"

lemma maxEpochStep_comm: "maxEpochStep a (maxEpochStep b e) = maxEpochStep b (maxEpochStep a e)"
  by (simp add: maxEpochStep_def)

text \<open>
  The rows of the CSV files: every row of the summary and of the node and run measurements has
  exactly the columns of its header, and the rows do not depend on the order in which the loops range over the maps of a trace.
\<close>

theorem csv_rows:
  assumes "\<And>m. mset (trMessages R m) = mset (trMessages R' m)" "\<And>m. mset (trBBAs R m) = mset (trBBAs R' m)"
  shows "(\<forall>row \<in> set (evalRows runs). length row = length evalSummaryHeader) \<and>
    (\<forall>row \<in> set (nodeMeasurementRows R runs). length row = length nodeMeasurementHeader) \<and>
    (\<forall>row \<in> set (runMeasurementRows runs). length row = length runMeasurementHeader) \<and>
    nodeMeasurementRows R runs = nodeMeasurementRows R' runs"
proof -
  have len: "length (traceSummary R t) = 42" for R t by (simp add: traceSummary_def acsTraceSummaryValues_def Let_def)
  have h: "length evalSummaryHeader = 36" "length nodeMeasurementHeader = 76" "length runMeasurementHeader = 46"
    by (simp_all add: evalSummaryHeader_def nodeMeasurementHeader_def runMeasurementHeader_def)
  have "traceSummary R t = traceSummary R' t" for t
  proof -
    have m: "fold addMessageTrace (map snd (trMessages R (Messages t))) e = fold addMessageTrace (map snd (trMessages R' (Messages t))) e" for e
      by (rule fold_mset_order [of addMessageTrace, OF addMessageTrace_comm]) (simp add: assms(1))
    have b: "fold maxEpochStep (map snd (trBBAs R (BBAs t))) e = fold maxEpochStep (map snd (trBBAs R' (BBAs t))) e" for e
      by (rule fold_mset_order [of maxEpochStep, OF maxEpochStep_comm]) (simp add: assms(2))
    show ?thesis unfolding traceSummary_def acsTraceSummaryValues_def m b [unfolded maxEpochStep_def] ..
  qed
  moreover have "\<forall>row \<in> set (evalRows runs). length row = 36"
    by (auto simp: evalRows_def h evalSummaryRecord_def Let_def split: option.splits if_splits)
  moreover have "\<forall>row \<in> set (nodeMeasurementRows R runs). length row = 76"
    by (auto simp: nodeMeasurementRows_def h nodeMeasurementRow_def Let_def len)
  moreover have "\<forall>row \<in> set (runMeasurementRows runs). length row = 46"
    by (auto simp: runMeasurementRows_def h runMeasurementRow_def Let_def)
  ultimately show ?thesis by (simp add: h nodeMeasurementRows_def nodeMeasurementRow_def [abs_def])
qed


section \<open>Nodes bound to a corpus\<close>

text \<open>
  A node bound to a corpus serves that corpus: if the provenance of an encrypted corpus is valid for a
  request of \<open>n\<close> transactions and binding the provider succeeds, then an inclusion list the node accepts for
  this request has exactly \<open>n\<close> items, and the reply it came from names the wire version, the
  public setup, the master corpus, the encrypted corpus, the encrypted prefix and the count of the identity recorded for the run.
\<close>

theorem bound_provider_serves_corpus:
  assumes prov: "validateCorpusProvenance p bmax n = Inr ()" and bound: "bindCorpusProvider p pub url cfg = Inr cfg'"
    and fetched: "fetchMempoolInclusionList E P cfg' pub slot self n = Inr l"
  shows "int (length (ilItems l)) = n \<and> ilSlot l = slot \<and> ilOperatorID l = self \<and>
    (\<exists>status body r. peGet P (mempoolRequestURL (cfProvider cfg') slot n) = Some (status, body) \<and> peJson P (take 8388608 body) = Some r \<and>
      corpusIdentityForCount p n = \<lparr>ciCiphertextWireVersion = rlCiphertextWireVersion r, ciPublicConfigID = rlPublicConfigID r,
        ciPlaintextMasterCorpusID = rlPlaintextMasterCorpusID r, ciPlaintextPrefixID = strAt (cpPlaintextPrefixSetIDs p) (showInt n),
        ciEncryptedCorpusID = rlEncryptedCorpusID r, ciEncryptedPrefixID = rlEncryptedPrefixSetID r, ciRequestedCount = rlRequestedCount r\<rparr>)"
proof -
  have pr: "cpCiphertextWireVersion p = LibraryVersion" "0 < n" "cpPublicConfigID p \<noteq> []" "cpPlaintextMasterCorpusID p \<noteq> []"
    "cpEncryptedCorpusID p \<noteq> []" "strAt (cpEncryptedPrefixSetIDs p) (showInt n) \<noteq> []"
    using prov by (auto simp: validateCorpusProvenance_def)
  then obtain want where want: "map_of (cpEncryptedPrefixSetIDs p) (showInt n) = Some want" "want \<noteq> []" by (auto simp: strAt_def split: option.splits)
  have pc: "pcExpectedPublicConfigID (cfProvider cfg') = cpPublicConfigID p" "pcExpectedPlaintextMasterID (cfProvider cfg') = cpPlaintextMasterCorpusID p"
    "pcExpectedEncryptedCorpusID (cfProvider cfg') = cpEncryptedCorpusID p" "pcExpectedEncryptedPrefixSetIDs (cfProvider cfg') = cpEncryptedPrefixSetIDs p"
    "pcRequireExactCount (cfProvider cfg')"
    using bound by (auto simp: bindCorpusProvider_def Let_def split: sum.splits)
  obtain status body r where r: "peGet P (mempoolRequestURL (cfProvider cfg') slot n) = Some (status, body)" "peJson P (take 8388608 body) = Some r"
    "rlSchemaVersion r \<noteq> []" "checkProvenance (cfProvider cfg') pub slot n r = Inr ()"
    and l: "int (length (ilItems l)) = n" "ilSlot l = slot" "ilOperatorID l = self"
    using fetched pc pr unfolding fetchMempoolInclusionList_def Let_def by (auto split: if_splits)
  have "rlCiphertextWireVersion r = LibraryVersion" "rlRequestedCount r = n" "rlPublicConfigID r = cpPublicConfigID p"
    "rlPlaintextMasterCorpusID r = cpPlaintextMasterCorpusID p" "rlEncryptedCorpusID r = cpEncryptedCorpusID p" "rlEncryptedPrefixSetID r = want"
    using r(4) pr pc want unfolding checkProvenance_def by auto
  then show ?thesis using l r(1,2) pr(1) want by (auto simp: corpusIdentityForCount_def strAt_def)
qed


section \<open>Concrete runs\<close>

definition two_results :: "Result list" where
  "two_results = map (\<lambda>(i, us). zeroResult\<lparr>rsNodeID := i, rsBatchID := ''b'', rsPlaintexts := [''0a'', ''0b''],
     rsMetrics := zeroMetrics\<lparr>mxTotalSlotUS := us\<rparr>\<rparr>) [(0, 5), (1, 7)]"

definition two_run :: EvalRun where
  "two_run = classifyRunOutcome demo_merge_env None 7000 (judgeResults two_results True (zeroRun\<lparr>evScenarioID := ''s'', evPhase := ''measured''\<rparr>))"


definition demo_scenario :: evalScenario where
  "demo_scenario = \<lparr>scID = ''s'', scNodes = 4, scThresholdOf = 3, scBatchSize = 8, scNetwork = ''libp2p''\<rparr>"

theorem scenario_counts_witness:
  "\<exists>sm. summarizeScenarios sum_list [demo_scenario] [two_run, zeroRun] = [sm] \<and> tallied sm [two_run] \<and>
     ssmMetrics sm = map (\<lambda>name. (name, sum_list (map (metricOf name) (filter countedRun [two_run])))) latencyMetricNames"
proof -
  obtain sm where sm: "summarizeScenarios sum_list [demo_scenario] [two_run, zeroRun] = [sm]" "ssmScenarioID sm = ''s''"
    by (simp add: summarizeScenarios_def Let_def case_prod_beta demo_scenario_def)
  have "measured ''s'' [two_run, zeroRun] = [two_run]"
    by (simp add: measured_def zeroRun_def two_run_def classifyRunOutcome_def judgeResults_def Let_def)
  then show ?thesis using sm scenario_counts [of sm sum_list "[demo_scenario]" "[two_run, zeroRun]"] by simp
qed

definition reversed_range :: trace_range where
  "reversed_range = \<lparr>trMessages = rev, trBBAs = rev\<rparr>"

definition plain_range :: trace_range where
  "plain_range = \<lparr>trMessages = (\<lambda>m. m), trBBAs = (\<lambda>m. m)\<rparr>"

theorem csv_rows_witness: "nodeMeasurementRows plain_range [two_run] = nodeMeasurementRows reversed_range [two_run]"
  using csv_rows [of plain_range reversed_range "[two_run]"] by (simp add: plain_range_def reversed_range_def)

definition demo_corpus :: corpusProvenance where
  "demo_corpus = \<lparr>cpSchemaVersion = ''bloc-encrypted-corpus-v1'', cpCiphertextWireVersion = LibraryVersion, cpPublicConfigID = ''id'',
     cpPlaintextMasterCorpusID = ''m'', cpPlaintextPrefixSetIDs = [(''1'', ''pp'')], cpEncryptedCorpusID = ''e'',
     cpEncryptedPrefixSetIDs = [(''1'', ''ep'')], cpBMax = 4, cpAvailableCount = 3\<rparr>"

definition demo_bound_env :: provider_env where
  "demo_bound_env = \<lparr>peGet = (\<lambda>u. Some (200, [9])), peJson = (\<lambda>b. Some (demo_remote\<lparr>rlSchemaVersion := ''bloc-encrypted-corpus-v1'',
     rlCiphertextWireVersion := LibraryVersion, rlPublicConfigID := ''id'', rlPlaintextMasterCorpusID := ''m'', rlEncryptedCorpusID := ''e'',
     rlEncryptedPrefixSetID := ''ep'', rlRequestedCount := 1\<rparr>))\<rparr>"

definition demo_bound_config :: ConfigFile where
  "demo_bound_config = (case bindCorpusProvider demo_corpus ''id'' ''http://m'' demo_config of Inl _ \<Rightarrow> demo_config | Inr c \<Rightarrow> c)"

theorem bound_provider_serves_corpus_witness:
  "\<exists>l. fetchMempoolInclusionList demo_merge_env demo_bound_env demo_bound_config ''id'' 7 1 1 = Inr l \<and> length (ilItems l) = 1"
proof -
  have "validateCorpusProvenance demo_corpus 4 1 = Inr ()" by code_simp
  moreover have "bindCorpusProvider demo_corpus ''id'' ''http://m'' demo_config = Inr demo_bound_config"
    by (simp add: demo_bound_config_def bindCorpusProvider_def demo_corpus_def validateProviderConfig_def Let_def defaultMempoolTimeoutMS_def
      maximumMempoolTimeoutMS_def)
  moreover have "\<exists>l. fetchMempoolInclusionList demo_merge_env demo_bound_env demo_bound_config ''id'' 7 1 1 = Inr l"
  proof -
    have it: "each (remoteItem demo_merge_env) (rlItems demo_remote) = Inr [Some demo_sealed, None]" by code_simp
    have pr: "checkProvenance (cfProvider demo_bound_config) ''id'' 7 1 (demo_remote\<lparr>rlSchemaVersion := ''bloc-encrypted-corpus-v1'',
       rlCiphertextWireVersion := LibraryVersion, rlPublicConfigID := ''id'', rlPlaintextMasterCorpusID := ''m'', rlEncryptedCorpusID := ''e'',
       rlEncryptedPrefixSetID := ''ep'', rlRequestedCount := 1\<rparr>) = Inr ()" by code_simp
    have u: "pcMempoolURL (cfProvider demo_bound_config) \<noteq> []" by code_simp
    show ?thesis unfolding fetchMempoolInclusionList_def using it pr u
      by (simp add: Let_def demo_bound_env_def List.map_filter_simps) (simp add: demo_remote_def)
  qed
  ultimately show ?thesis using bound_provider_serves_corpus [of demo_corpus 4 1] by fastforce
qed

end
