(* ===== verification/Corpus_Source.thy ===== *)
theory Corpus_Source
  imports Mempool_Il Node_Boot
begin

text \<open>
  Where the placeholders of the sidecar come from: \<^verbatim>\<open>replay_placeholder.go\<close> (reading a corpus of
  signed transactions, encrypting them, wrapping the ciphertexts in carrier transactions), \<^verbatim>\<open>corpus.go\<close>
  (the strict corpora of an evaluation) and \<^verbatim>\<open>estimateCarrierGas\<close> of \<^verbatim>\<open>corpus_report.go\<close>.

  go-ethereum, JSON and the path functions are the parameter \<open>target_env\<close>, the file system is a
  map from paths to contents. The random choices of an encryption are an argument.
\<close>

section \<open>Text and numbers\<close>

text \<open>What \<^verbatim>\<open>hex.DecodeString\<close> returns besides an error: the bytes before the first bad pair.\<close>

fun hexPairs :: "string \<Rightarrow> bytes" where
  "hexPairs (c # d # cs) =
     (case (fromHexChar c, fromHexChar d) of
        (Some h, Some l) \<Rightarrow> of_nat (16 * h + l) # hexPairs cs
      | _ \<Rightarrow> [])"
| "hexPairs s = []"

lemma hexDecode_pairs: "hexDecode s = Some bs \<Longrightarrow> hexPairs s = bs"
  by (induction s arbitrary: bs rule: hexDecode.induct) (auto split: option.splits)

text \<open>The lines of a file, without line ends; a final empty line does not count.\<close>

fun splitLines :: "string \<Rightarrow> string \<Rightarrow> string list" where
  "splitLines acc [] = (if acc = [] then [] else [rev acc])"
| "splitLines acc (c # cs) = (if c = CHR 0x0A then rev acc # splitLines [] cs else splitLines (c # acc) cs)"

definition dropCR :: "string \<Rightarrow> string" where
  "dropCR s = (if s \<noteq> [] \<and> last s = CHR 0x0D then butlast s else s)"

definition maxLineBytes :: nat where
  "maxLineBytes = 8 * 1024 * 1024"

definition bytesStr :: "bytes \<Rightarrow> string" where
  "bytesStr bs = map (\<lambda>b. char_of (unat b)) bs"

definition parseDecimalBig :: "mp_env \<Rightarrow> string \<Rightarrow> int" where
  "parseDecimalBig E raw0 =
     (let raw = TrimSpace (mpUniTrim E) raw0 in
      if raw = [] then 0 else case SetString10 raw of None \<Rightarrow> 0 | Some v \<Rightarrow> v)"

definition estimateCarrierGas :: "bytes \<Rightarrow> 64 word" where
  "estimateCarrierGas calldata = 21000 + 10 * fold (\<lambda>v tokens. if v = 0 then tokens + 1 else tokens + 4) calldata 0"

section \<open>Transactions of a corpus\<close>

type_synonym corpusClass = string

definition corpusClassTransfer :: corpusClass where "corpusClassTransfer = ''transfer''"
definition corpusClass128 :: corpusClass where "corpusClass128 = ''calldata_128''"
definition corpusClass256 :: corpusClass where "corpusClass256 = ''calldata_256''"
definition corpusClass1024 :: corpusClass where "corpusClass1024 = ''calldata_1024''"
definition corpusClass4096 :: corpusClass where "corpusClass4096 = ''calldata_4096''"

text \<open>What the code reads of a decoded transaction; a nil chain id or recipient is \<open>None\<close>.\<close>

record eth_tx =
  etType :: nat
  etChainId :: "int option"
  etNonce :: nat
  etGas :: "64 word"
  etTo :: "string option"
  etGasFeeCap :: int
  etGasPrice :: int
  etData :: bytes
  etHash :: string

record mock_tx =
  mtChainID :: int
  mtNonce :: nat
  mtGasTipCap :: int
  mtGasFeeCap :: int
  mtGas :: "64 word"
  mtTo :: string
  mtValue :: int
  mtData :: bytes

record replayCluster =
  rcVersion :: string
  rcClusterID :: string
  rcBMax :: int
  rcN :: int
  rcThreshold :: int
  rcCRSFile :: string
  rcCRSSHA256 :: string
  rcPublicKeyHex :: string
  rcCRSBytes :: bytes

record targetCorpusEntry =
  teClass :: corpusClass
  teRawTx :: string

record txSummary =
  tsHash :: string
  tsFrom :: string
  tsTo :: string
  tsNonce :: nat
  tsGas :: "64 word"
  tsEffectiveFeePerGasWei :: string
  tsType :: nat
  tsSizeBytes :: int

record parsedTargetTx =
  ptDeclaredClass :: corpusClass
  ptEvidenceClass :: corpusClass
  ptRaw :: bytes
  ptTx :: eth_tx
  ptSummary :: txSummary

text \<open>
  \<open>teSender\<close> recovers the sender under the signer of a chain id, \<open>teSignTx\<close> signs with the key of a seed
  and encodes. \<open>teEntry\<close> and \<open>teCluster\<close> are \<^verbatim>\<open>json.Unmarshal\<close> at the two types.
\<close>

record target_env =
  teMp :: mp_env
  teUnmarshalTx :: "bytes \<Rightarrow> eth_tx option"
  teSender :: "int option \<Rightarrow> eth_tx \<Rightarrow> string option"
  teValidKey :: "bytes \<Rightarrow> bool"
  teSignTx :: "bytes \<Rightarrow> mock_tx \<Rightarrow> bytes option"
  teEntry :: "string \<Rightarrow> targetCorpusEntry option"
  teCluster :: "bytes \<Rightarrow> replayCluster option"
  teIsAbs :: "string \<Rightarrow> bool"
  teBeside :: "string \<Rightarrow> string \<Rightarrow> string"
  teEqualFold :: "string \<Rightarrow> string \<Rightarrow> bool"

datatype corpus_error =
    PathMissing string
  | FileUnreadable string
  | LineTooLong
  | EntryInvalid
  | EmptyRawTransaction
  | RawHexInvalid
  | TransactionInvalid
  | ChainIDMissing
  | SenderUnrecoverable
  | KeyUnavailable
  | SigningFailed
  | NotAPlaceholder
  | ClusterInvalid
  | ClusterVersion string
  | ClusterFieldsMissing
  | PublicCRSMismatch string
  | CRSUnusable bte_error
  | ClusterKeyInvalid
  | CorpusEmpty
  | PlaceholderFailed nat corpus_error
  | TargetFailed nat cl_error
  | RowCount nat nat
  | RowType nat
  | RowChain nat
  | RowGas nat
  | RowSize nat
  | RowClassMissing nat
  | RowClassUnknown nat
  | RowClassMismatch nat
  | RowDuplicate nat
  | ClassDistribution corpusClass
  | PrefixDistribution nat corpusClass

definition mp_decodeHexStrict :: "mp_env \<Rightarrow> string \<Rightarrow> corpus_error + bytes" where
  "mp_decodeHexStrict E raw0 =
     (let raw = TrimSpace (mpUniTrim E) (TrimPrefix raw0 ''0x'') in
      if raw = [] then Inl EmptyRawTransaction
      else or_error (hexDecode (if odd (length raw) then CHR ''0'' # raw else raw)) RawHexInvalid)"

definition effectiveFeePerGas :: "eth_tx \<Rightarrow> int" where
  "effectiveFeePerGas tx = (if etType tx = 2 then etGasFeeCap tx else etGasPrice tx)"

definition summaryOf :: "eth_tx \<Rightarrow> string \<Rightarrow> bytes \<Rightarrow> txSummary" where
  "summaryOf tx sender raw =
     \<lparr>tsHash = etHash tx, tsFrom = sender, tsTo = (case etTo tx of None \<Rightarrow> [] | Some a \<Rightarrow> a), tsNonce = etNonce tx,
      tsGas = etGas tx, tsEffectiveFeePerGasWei = showInt (effectiveFeePerGas tx), tsType = etType tx,
      tsSizeBytes = int (length raw)\<rparr>"

definition parseTargetRawTx :: "target_env \<Rightarrow> string \<Rightarrow> corpus_error + parsedTargetTx" where
  "parseTargetRawTx T rawHex =
     and_then (mp_decodeHexStrict (teMp T) rawHex) (\<lambda>raw.
     and_then (or_error (teUnmarshalTx T raw) TransactionInvalid) (\<lambda>tx.
     and_then (ensure (etChainId tx \<noteq> None \<and> etChainId tx \<noteq> Some 0) ChainIDMissing) (\<lambda>_.
     and_then (or_error (teSender T (etChainId tx) tx) SenderUnrecoverable) (\<lambda>sender.
     Inr \<lparr>ptDeclaredClass = [], ptEvidenceClass = [], ptRaw = raw, ptTx = tx, ptSummary = summaryOf tx sender raw\<rparr>))))"

definition summarizeSignedTx :: "target_env \<Rightarrow> bytes \<Rightarrow> corpus_error + txSummary" where
  "summarizeSignedTx T raw =
     and_then (or_error (teUnmarshalTx T raw) TransactionInvalid) (\<lambda>tx.
     and_then (or_error (teSender T (etChainId tx) tx) SenderUnrecoverable) (\<lambda>sender. Inr (summaryOf tx sender raw)))"

text \<open>One line of a corpus: an object with a class, or only the raw transaction.\<close>

definition parseCorpusLine :: "target_env \<Rightarrow> string \<Rightarrow> corpus_error + parsedTargetTx" where
  "parseCorpusLine T line =
     and_then (if take 1 line = ''{'' then and_then (or_error (teEntry T line) EntryInvalid) (\<lambda>e. Inr (teRawTx e, teClass e))
               else Inr (line, [])) (\<lambda>(rawHex, declaredClass).
     and_then (parseTargetRawTx T rawHex) (\<lambda>target. Inr (target\<lparr>ptDeclaredClass := declaredClass\<rparr>)))"

primrec scanTargets :: "target_env \<Rightarrow> string list \<Rightarrow> corpus_error + parsedTargetTx list" where
  "scanTargets T [] = Inr []"
| "scanTargets T (raw # rest) =
     (if length raw \<ge> maxLineBytes then Inl LineTooLong
      else let line = TrimSpace (mpUniTrim (teMp T)) (dropCR raw) in
        if line = [] then scanTargets T rest
        else and_then (parseCorpusLine T line) (\<lambda>target. and_then (scanTargets T rest) (\<lambda>targets. Inr (target # targets))))"

definition readTargetCorpus :: "target_env \<Rightarrow> (string, bytes) gomap \<Rightarrow> string \<Rightarrow> corpus_error + parsedTargetTx list" where
  "readTargetCorpus T fs path =
     and_then (ensure (TrimSpace (mpUniTrim (teMp T)) path \<noteq> []) (PathMissing ''corpus'')) (\<lambda>_.
     and_then (or_error (map_of fs path) (FileUnreadable path)) (\<lambda>data. scanTargets T (splitLines [] (bytesStr data))))"

section \<open>Clusters and carriers\<close>

definition readReplayCluster :: "target_env \<Rightarrow> (string, bytes) gomap \<Rightarrow> string \<Rightarrow> corpus_error + replayCluster" where
  "readReplayCluster T fs path =
     (let trim = TrimSpace (mpUniTrim (teMp T)) in
     and_then (ensure (trim path \<noteq> []) (PathMissing ''cluster-config'')) (\<lambda>_.
     and_then (or_error (map_of fs path) (FileUnreadable path)) (\<lambda>data.
     and_then (or_error (teCluster T data) ClusterInvalid) (\<lambda>c.
     and_then (ensure (rcVersion c = ''bloc-cluster-v3'') (ClusterVersion (rcVersion c))) (\<lambda>_.
     and_then (ensure (\<not> (rcClusterID c = [] \<or> rcBMax c \<le> 0 \<or> rcCRSFile c = [] \<or> rcCRSSHA256 c = [] \<or> rcPublicKeyHex c = []))
       ClusterFieldsMissing) (\<lambda>_.
     let crsPath = (if teIsAbs T (rcCRSFile c) then rcCRSFile c else teBeside T path (rcCRSFile c)) in
     and_then (or_error (map_of fs crsPath) (FileUnreadable crsPath)) (\<lambda>crs.
     and_then (ensure (teEqualFold T (mp_hashHex (teMp T) crs) (trim (rcCRSSHA256 c))) (PublicCRSMismatch (mp_hashHex (teMp T) crs))) (\<lambda>_.
     Inr (c\<lparr>rcCRSBytes := crs\<rparr>)))))))))"

definition newReplayEncryptor ::
  "hybrid \<Rightarrow> ('s::field, 'a::ab_group_add, 'b, 'c) suite \<Rightarrow> replayCluster \<Rightarrow> corpus_error + ('s, 'a, 'b, 'c) ClusterBTE" where
  "newReplayEncryptor hy S cluster =
     and_then (case NewBTDFromPublicCRS S defaultSuiteID (rcBMax cluster) (rcCRSBytes cluster) of
         Inl e \<Rightarrow> Inl (CRSUnusable e) | Inr b \<Rightarrow> Inr b) (\<lambda>btd.
     and_then (or_error (hexDecode (TrimPrefix (rcPublicKeyHex cluster) ''0x'')) ClusterKeyInvalid) (\<lambda>pkBytes.
     and_then (or_error (g1Unmarshal S pkBytes) ClusterKeyInvalid) (\<lambda>pk.
     Inr (NewNode hy btd pk (0, 0, 0) (nat (rcN cluster)) (nat (rcThreshold cluster))))))"

definition placeholderSeed :: "mp_env \<Rightarrow> int \<Rightarrow> nat \<Rightarrow> bytes" where
  "placeholderSeed E index k =
     mpSha256 E (strBytes (''bloc-mock-placeholder-'' @ showInt index @ ''-'' @ showNat k))"

definition mockPlaceholderPrivateKey :: "target_env \<Rightarrow> int \<Rightarrow> corpus_error + bytes" where
  "mockPlaceholderPrivateKey T index =
     or_error (find (teValidKey T) (map (placeholderSeed (teMp T) index) [0..<256])) KeyUnavailable"

definition signMockPlaceholderTx :: "target_env \<Rightarrow> int \<Rightarrow> bytes \<Rightarrow> string \<Rightarrow> corpus_error + (bytes \<times> txSummary)" where
  "signMockPlaceholderTx T index calldata feeWei =
     (let fee0 = parseDecimalBig (teMp T) feeWei; fee = (if fee0 \<le> 0 then 1 else fee0);
          tip = (if fee div 10 = 0 then 1 else fee div 10) in
      and_then (mockPlaceholderPrivateKey T index) (\<lambda>key.
      and_then (or_error (teSignTx T key \<lparr>mtChainID = 1337, mtNonce = uint64_of index, mtGasTipCap = tip, mtGasFeeCap = fee,
          mtGas = estimateCarrierGas calldata, mtTo = ''0x00000000000000000000000000000000b10c0001'', mtValue = 0,
          mtData = calldata\<rparr>) SigningFailed) (\<lambda>raw.
      and_then (summarizeSignedTx T raw) (\<lambda>summary. Inr (raw, summary)))))"

text \<open>The carrier before it is classified; the fields it does not set have their zero values.\<close>

definition carrierItem :: "target_env \<Rightarrow> parsedTargetTx \<Rightarrow> bytes \<Rightarrow> bytes \<Rightarrow> txSummary \<Rightarrow> Transaction" where
  "carrierItem T target calldata raw s =
     (let E = teMp T; lower = ToLower (mpUniLower E); fee = parseDecimalBig E (tsEffectiveFeePerGasWei s) in
      \<lparr>txHash = tsHash s, txFrom = lower (tsFrom s), txTo = lower (tsTo s), txNonce = tsNonce s, txGas = tsGas s,
       txInput = ''0x'' @ hexEncode calldata, txRawTx = ''0x'' @ hexEncode raw, txGasPriceWei = Some fee,
       txMaxFeePerGasWei = None, txMaxPriorityFeeWei = None, txKind = TxKindUnset, txPlaceholder = None, txIsQueued = False,
       txEffectiveFeePerGasW = Some fee, txTargetTxHash = [], txTargetTxType = tsType (ptSummary target),
       txTargetTxSizeBytes = tsSizeBytes (ptSummary target), txEncryptedPayloadHex = [], txEncryptedPayloadHash = [],
       txPlaceholderTxHash = tsHash s, txPlaceholderTxRaw = ''0x'' @ hexEncode raw, txPlaceholderCalldataBytes = 0,
       txPlaceholderGasEstimate = tsGas s\<rparr>)"

definition buildMockPlaceholderFromCiphertext :: "target_env \<Rightarrow> parsedTargetTx \<Rightarrow> int \<Rightarrow> bytes \<Rightarrow> corpus_error + Transaction" where
  "buildMockPlaceholderFromCiphertext T target index encoded =
     (let calldata = buildPlaceholderCalldata (teMp T) (tsHash (ptSummary target)) (tsGas (ptSummary target)) encoded in
      and_then (signMockPlaceholderTx T index calldata (tsEffectiveFeePerGasWei (ptSummary target))) (\<lambda>(raw, summary).
      let item = ClassifyAndParse (teMp T) (carrierItem T target calldata raw summary) in
      and_then (ensure (\<not> (txKind item \<noteq> TxKindPlaceholder \<or> txEncryptedPayloadHex item = [])) NotAPlaceholder) (\<lambda>_. Inr item)))"

text \<open>Encrypting at a position of the corpus and encoding the ciphertext; the slot is not used.\<close>

definition encryptReplayTarget ::
  "parsedTargetTx \<Rightarrow> int \<Rightarrow> replayCluster \<Rightarrow> ('s::field, 'a::ab_group_add, 'b, 'c::ab_group_add) ClusterBTE \<Rightarrow> 's tx_randomness \<Rightarrow>
   cl_error + bytes" where
  "encryptReplayTarget target index cluster enc r =
     and_then (EncryptTx enc (ptRaw target) (index mod rcBMax cluster) r) (Ciphertext_MarshalBinary (btdSuite (clBtd enc)))"

definition buildMockPlaceholder ::
  "target_env \<Rightarrow> parsedTargetTx \<Rightarrow> nat \<Rightarrow> replayCluster \<Rightarrow> ('s::field, 'a::ab_group_add, 'b, 'c::ab_group_add) ClusterBTE \<Rightarrow>
   's tx_randomness \<Rightarrow> corpus_error + Transaction" where
  "buildMockPlaceholder T target index cluster enc r =
     (case encryptReplayTarget target (int index) cluster enc r of
        Inl e \<Rightarrow> Inl (TargetFailed index e)
      | Inr encoded \<Rightarrow> buildMockPlaceholderFromCiphertext T target (int index) encoded)"

section \<open>The replay client\<close>

record ('s, 'a, 'b, 'c) ReplayPlaceholderClient =
  rpTargets :: "parsedTargetTx list"
  rpCluster :: replayCluster
  rpEncryptor :: "('s, 'a, 'b, 'c) ClusterBTE"
  rpCache :: "(nat, Transaction list) gomap"
  rpSlot :: nat
  rpLoop :: bool

record ReplayPlaceholderConfig =
  rfCorpusPath :: string
  rfClusterPath :: string
  rfSlot :: nat
  rfLoop :: bool

definition NewReplayPlaceholderClient ::
  "target_env \<Rightarrow> hybrid \<Rightarrow> ('s::field, 'a::ab_group_add, 'b, 'c) suite \<Rightarrow> (string, bytes) gomap \<Rightarrow> ReplayPlaceholderConfig \<Rightarrow>
   corpus_error + ('s, 'a, 'b, 'c) ReplayPlaceholderClient" where
  "NewReplayPlaceholderClient T hy S fs cfg =
     and_then (readReplayCluster T fs (rfClusterPath cfg)) (\<lambda>cluster.
     and_then (readTargetCorpus T fs (rfCorpusPath cfg)) (\<lambda>targets.
     and_then (ensure (targets \<noteq> []) CorpusEmpty) (\<lambda>_.
     and_then (newReplayEncryptor hy S cluster) (\<lambda>encryptor.
     Inr \<lparr>rpTargets = targets, rpCluster = cluster, rpEncryptor = encryptor, rpCache = [],
       rpSlot = (if rfSlot cfg = 0 then 1 else rfSlot cfg), rpLoop = rfLoop cfg\<rparr>))))"

text \<open>\<open>rnd i\<close> is the randomness of the encryption of the target at position \<open>i\<close> in this call.\<close>

definition replay_FetchSlot ::
  "target_env \<Rightarrow> (nat \<Rightarrow> 's tx_randomness) \<Rightarrow> nat \<Rightarrow> ('s::field, 'a::ab_group_add, 'b, 'c::ab_group_add) ReplayPlaceholderClient \<Rightarrow>
   (corpus_error + Transaction list) \<times> ('s, 'a, 'b, 'c) ReplayPlaceholderClient" where
  "replay_FetchSlot T rnd slot0 c =
     (let slot = (if slot0 = 0 then rpSlot c else slot0) in
      case map_of (rpCache c) slot of
        Some cached \<Rightarrow> (Inr cached, c)
      | None \<Rightarrow>
          (case each (\<lambda>(i, target).
               (case buildMockPlaceholder T target i (rpCluster c) (rpEncryptor c) (rnd i) of
                  Inl e \<Rightarrow> Inl (PlaceholderFailed i e) | Inr item \<Rightarrow> Inr item)) (enumerate 0 (rpTargets c)) of
             Inl e \<Rightarrow> (Inl e, c)
           | Inr items \<Rightarrow> (Inr items, c\<lparr>rpCache := AList.update slot items (rpCache c)\<rparr>)))"

definition replay_Fetch ::
  "target_env \<Rightarrow> (nat \<Rightarrow> 's tx_randomness) \<Rightarrow> ('s::field, 'a::ab_group_add, 'b, 'c::ab_group_add) ReplayPlaceholderClient \<Rightarrow>
   (corpus_error + Transaction list) \<times> ('s, 'a, 'b, 'c) ReplayPlaceholderClient" where
  "replay_Fetch T rnd c = replay_FetchSlot T rnd (rpSlot c) c"

section \<open>Strict corpora\<close>

record corpusClassSpec =
  csName :: corpusClass
  csCalldataBytes :: nat
  csRows :: nat

definition clientOverheadCorpusClasses :: "corpusClassSpec list" where
  "clientOverheadCorpusClasses =
     [\<lparr>csName = corpusClassTransfer, csCalldataBytes = 0, csRows = 100\<rparr>, \<lparr>csName = corpusClass128, csCalldataBytes = 128, csRows = 100\<rparr>,
      \<lparr>csName = corpusClass256, csCalldataBytes = 256, csRows = 100\<rparr>, \<lparr>csName = corpusClass1024, csCalldataBytes = 1024, csRows = 100\<rparr>,
      \<lparr>csName = corpusClass4096, csCalldataBytes = 4096, csRows = 100\<rparr>]"

definition protocolWorkloadClasses :: "corpusClassSpec list" where
  "protocolWorkloadClasses =
     [\<lparr>csName = corpusClassTransfer, csCalldataBytes = 0, csRows = 143\<rparr>, \<lparr>csName = corpusClass128, csCalldataBytes = 128, csRows = 256\<rparr>,
      \<lparr>csName = corpusClass256, csCalldataBytes = 256, csRows = 62\<rparr>, \<lparr>csName = corpusClass1024, csCalldataBytes = 1024, csRows = 41\<rparr>,
      \<lparr>csName = corpusClass4096, csCalldataBytes = 4096, csRows = 10\<rparr>]"

definition protocolWorkloadPrefixes :: "(nat \<times> (corpusClass, nat) gomap) list" where
  "protocolWorkloadPrefixes =
     [(8, [(corpusClassTransfer, 2), (corpusClass128, 4), (corpusClass256, 1), (corpusClass1024, 1), (corpusClass4096, 0)]),
      (32, [(corpusClassTransfer, 9), (corpusClass128, 16), (corpusClass256, 4), (corpusClass1024, 2), (corpusClass4096, 1)]),
      (128, [(corpusClassTransfer, 36), (corpusClass128, 64), (corpusClass256, 15), (corpusClass1024, 10), (corpusClass4096, 3)]),
      (512, [(corpusClassTransfer, 143), (corpusClass128, 256), (corpusClass256, 62), (corpusClass1024, 41), (corpusClass4096, 10)])]"

definition evidenceCorpusChainID :: int where
  "evidenceCorpusChainID = 1337"

definition countClass :: "(corpusClass, nat) gomap \<Rightarrow> corpusClass \<Rightarrow> nat" where
  "countClass counts c = (case map_of counts c of None \<Rightarrow> 0 | Some n \<Rightarrow> n)"

text \<open>The checks of one row, giving the class of its size.\<close>

definition checkRow ::
  "(corpusClass, corpusClassSpec) gomap \<Rightarrow> (nat, corpusClassSpec) gomap \<Rightarrow> string list \<Rightarrow> nat \<Rightarrow> parsedTargetTx \<Rightarrow> corpus_error + corpusClass" where
  "checkRow specByClass specByLength hashes row target =
     (let tx = ptTx target in
      and_then (ensure (etType tx = 2) (RowType row)) (\<lambda>_.
      and_then (ensure (etChainId tx = Some evidenceCorpusChainID) (RowChain row)) (\<lambda>_.
      and_then (ensure (\<not> etGas tx < estimateCarrierGas (etData tx)) (RowGas row)) (\<lambda>_.
      and_then (or_error (map_of specByLength (length (etData tx))) (RowSize row)) (\<lambda>spec.
      and_then (ensure (ptDeclaredClass target \<noteq> []) (RowClassMissing row)) (\<lambda>_.
      and_then (or_error (map_of specByClass (ptDeclaredClass target)) (RowClassUnknown row)) (\<lambda>declaredSpec.
      and_then (ensure (csName declaredSpec = csName spec) (RowClassMismatch row)) (\<lambda>_.
      and_then (ensure (tsHash (ptSummary target) \<notin> set hashes) (RowDuplicate row)) (\<lambda>_. Inr (csName spec))))))))))"

primrec checkRows ::
  "(corpusClass, corpusClassSpec) gomap \<Rightarrow> (nat, corpusClassSpec) gomap \<Rightarrow> parsedTargetTx list \<Rightarrow> nat \<Rightarrow> string list \<Rightarrow> (corpusClass, nat) gomap \<Rightarrow>
   corpus_error + (parsedTargetTx list \<times> (corpusClass, nat) gomap)" where
  "checkRows specByClass specByLength [] row hashes counts = Inr ([], counts)"
| "checkRows specByClass specByLength (target # targets) row hashes counts =
     and_then (checkRow specByClass specByLength hashes row target) (\<lambda>class.
     and_then (checkRows specByClass specByLength targets (Suc row) (tsHash (ptSummary target) # hashes)
         (AList.update class (countClass counts class + 1) counts)) (\<lambda>(rest, counts').
     Inr (target\<lparr>ptEvidenceClass := class\<rparr> # rest, counts')))"

definition readStrictCorpus ::
  "target_env \<Rightarrow> (string, bytes) gomap \<Rightarrow> string \<Rightarrow> corpusClassSpec list \<Rightarrow> corpus_error + parsedTargetTx list" where
  "readStrictCorpus T fs path specs =
     and_then (readTargetCorpus T fs path) (\<lambda>targets.
     let expectedRows = sum_list (map csRows specs);
         specByClass = fold (\<lambda>s. AList.update (csName s) s) specs [];
         specByLength = fold (\<lambda>s. AList.update (csCalldataBytes s) s) specs [] in
     and_then (ensure (length targets = expectedRows) (RowCount (length targets) expectedRows)) (\<lambda>_.
     and_then (checkRows specByClass specByLength targets 1 [] []) (\<lambda>(targets', counts).
     and_then (each (\<lambda>s. ensure (countClass counts (csName s) = csRows s) (ClassDistribution (csName s))) specs) (\<lambda>_.
     Inr targets'))))"

definition readClientOverheadCorpus :: "target_env \<Rightarrow> (string, bytes) gomap \<Rightarrow> string \<Rightarrow> corpus_error + parsedTargetTx list" where
  "readClientOverheadCorpus T fs path = readStrictCorpus T fs path clientOverheadCorpusClasses"

definition classCounts :: "parsedTargetTx list \<Rightarrow> (corpusClass, nat) gomap" where
  "classCounts targets =
     fold (\<lambda>t counts. AList.update (ptEvidenceClass t) (countClass counts (ptEvidenceClass t) + 1) counts) targets []"

definition readProtocolWorkloadCorpus :: "target_env \<Rightarrow> (string, bytes) gomap \<Rightarrow> string \<Rightarrow> corpus_error + parsedTargetTx list" where
  "readProtocolWorkloadCorpus T fs path =
     and_then (readStrictCorpus T fs path protocolWorkloadClasses) (\<lambda>targets.
     and_then (each (\<lambda>(size, wants).
         each (\<lambda>(class, want). ensure (countClass (classCounts (take size targets)) class = want) (PrefixDistribution size class)) wants)
       protocolWorkloadPrefixes) (\<lambda>_. Inr targets))"

end
