(* ===== verification/Encrypted_Corpus.thy ===== *)
theory Encrypted_Corpus
  imports Corpus_Source Eval_Run
begin

text \<open>
  The encrypted corpus of an evaluation and the server that hands it out:
  \<^verbatim>\<open>mempool-il/internal/mempool/encrypted_corpus.go\<close>, \<^verbatim>\<open>mempool-il/internal/api/server.go\<close> and
  \<^verbatim>\<open>readCorpusProvenance\<close> of \<^verbatim>\<open>tx_source.go\<close>.

  JSON and the file operations are the parameter \<open>corpus_env\<close>; files are a map from paths to
  contents. \<^term>\<open>None\<close> as the outcome of a self-check is a panic of the decryption.
\<close>

section \<open>The manifest\<close>

definition encryptedCorpusSchemaVersion :: string where "encryptedCorpusSchemaVersion = ''bloc-encrypted-corpus-v1''"
definition coordinatedIndexAssignment :: string where "coordinatedIndexAssignment = ''coordinated-position-v1''"

record EncryptedCorpusOptions =
  eoPlaintextPath :: string
  eoClusterConfigPath :: string
  eoCampaignIdentityPath :: string
  eoSecretPaths :: "string list"
  eoLimit :: int
  eoOutputPath :: string

record corpusCampaignBlockspace =
  cbMaxDecryptedGas :: "64 word"
  cbMaxDecryptedTxs :: int
  cbDefaultTxGas :: "64 word"

record corpusCampaignLimits =
  lmMaxProposalBytes :: int
  lmMaxEnvelopeBytes :: int
  lmMaxCombineAttemptsPerSubBatch :: int

record corpusCampaignOperator =
  coID :: nat
  coP2PPeerID :: string

record corpusCampaignIdentity =
  idVersion :: string
  idClusterID :: string
  idN :: int
  idThreshold :: int
  idBMax :: int
  idCRSFile :: string
  idCRSSHA256 :: string
  idPublicKeyHex :: string
  idBlockspace :: corpusCampaignBlockspace
  idLimits :: corpusCampaignLimits
  idOperators :: "corpusCampaignOperator list"

record EncryptedCorpusCandidate =
  ccPosition :: int
  ccIndex :: int
  ccClass :: corpusClass
  ccTargetTxHash :: string
  ccTargetTxSizeBytes :: int
  ccCiphertextHex :: string
  ccCiphertextSHA256 :: string
  ccEffectiveFeePerGasWei :: string
  ccTransaction :: Transaction

record EncryptedCorpusManifest =
  emSchemaVersion :: string
  emCiphertextWireVersion :: string
  emPublicConfigID :: string
  emPlaintextMasterCorpusID :: string
  emPlaintextPrefixSetIDs :: "(string, string) gomap"
  emEncryptedCorpusID :: string
  emEncryptedPrefixSetIDs :: "(string, string) gomap"
  emBMax :: int
  emAvailableCount :: int
  emIndexAssignment :: string
  emOrderedIndexSchedule :: "int list"
  emClassCounts :: "(string, (string, nat) gomap) gomap"
  emCandidates :: "EncryptedCorpusCandidate list"

record encryptedCorpusSecret =
  esVersion :: string
  esClusterID :: string
  esOperatorID :: nat
  esBTEShareScalarHex :: string
  esP2PPrivateKeyHex :: string

text \<open>The source of an encrypted corpus is the manifest it has loaded.\<close>

type_synonym EncryptedCorpusSource = EncryptedCorpusManifest

record SlotPage =
  spSchemaVersion :: string
  spCiphertextWireVersion :: string
  spPublicConfigID :: string
  spPlaintextMasterCorpusID :: string
  spEncryptedCorpusID :: string
  spEncryptedPrefixSetID :: string
  spSlot :: nat
  spRequestedCount :: int
  spAvailableCount :: int
  spReturnedCount :: int
  spTransactions :: "Transaction list"

text \<open>
  What a decoder meets after the first value of a file: the end, another value, or anything else.
  \<open>cvManifest\<close>, \<open>cvIdentity\<close> and \<open>cvSecret\<close> decode the first value without unknown fields,
  \<open>cvProvenance\<close> is \<^verbatim>\<open>json.Unmarshal\<close> of the fields the evaluator reads. \<open>cvTemp\<close> names a fresh
  temporary file in the directory of a path.
\<close>

datatype trailing = AtEOF | AnotherValue | Unreadable

record corpus_env =
  cvTarget :: target_env
  cvMerge :: merge_env
  cvManifest :: "bytes \<Rightarrow> EncryptedCorpusManifest option"
  cvProvenance :: "bytes \<Rightarrow> corpusProvenance option"
  cvIdentity :: "bytes \<Rightarrow> corpusCampaignIdentity option"
  cvSecret :: "bytes \<Rightarrow> encryptedCorpusSecret option"
  cvTrailing :: "bytes \<Rightarrow> trailing"
  cvEncode :: "EncryptedCorpusManifest \<Rightarrow> bytes option"
  cvStatFails :: "string \<Rightarrow> bool"
  cvTemp :: "string \<Rightarrow> string option"
  cvSync :: "string \<Rightarrow> bool"
  cvClose :: "string \<Rightarrow> bool"
  cvRename :: "string \<Rightarrow> bool"

datatype manifest_error =
    CorpusSource corpus_error
  | LimitNotPositive
  | OutputPathMissing
  | OutputExists
  | StatFailed
  | ConfigNotExclusive
  | LimitAboveBMax int
  | LimitAboveTargets int
  | PublicIDFailed boot_error
  | EncryptFailed nat cl_error
  | CiphertextUnencodable nat cl_error
  | PlaceholderRefused nat corpus_error
  | TooFewSecrets nat
  | SecretInvalid
  | SecretForOtherCluster
  | SecretOperator nat
  | ClusterRefused cl_error
  | PlanFailed cl_error
  | SelfShareFailed nat cl_error
  | SelfDecryptFailed cl_error
  | SelfDecryptCount nat
  | SelfDecryptMismatch nat
  | IdentityInvalid string
  | ManifestJSON
  | TrailingValue
  | ManifestSchema string
  | ManifestWireVersion string
  | ManifestIdentities
  | ManifestBounds
  | ManifestAssignment string
  | ManifestCount
  | CandidateSchedule nat
  | CandidateCiphertext nat corpus_error
  | CandidateIdentity nat
  | CandidateMetadata nat
  | CandidateFee nat
  | CorpusIDMismatch string
  | PrefixSizeInvalid string
  | PrefixIDMismatch int
  | TempFailed
  | EncodeFailed
  | SyncFailed
  | CloseFailed
  | RenameFailed

section \<open>Identities\<close>

definition writeHashField :: "bytes \<Rightarrow> bytes" where
  "writeHashField v = be64 (length v) @ v"

definition plaintextSetID :: "mp_env \<Rightarrow> parsedTargetTx list \<Rightarrow> string" where
  "plaintextSetID E targets =
     hexEncode (mpSha256 E (writeHashField (strBytes ''bloc-plaintext-set-v1'') @ concat (map (\<lambda>t. writeHashField (ptRaw t)) targets)))"

text \<open>The bytes \<^verbatim>\<open>decodeHexStrict\<close> returns when its error is ignored.\<close>

definition decodedHex :: "mp_env \<Rightarrow> string \<Rightarrow> bytes" where
  "decodedHex E raw0 =
     (let raw = TrimSpace (mpUniTrim E) (TrimPrefix raw0 ''0x'') in
      if raw = [] then [] else hexPairs (if odd (length raw) then CHR ''0'' # raw else raw))"

definition candidateHashInput :: "mp_env \<Rightarrow> EncryptedCorpusCandidate \<Rightarrow> bytes" where
  "candidateHashInput E c =
     (let lower = ToLower (mpUniLower E) in
      be64 (uint64_of (ccPosition c)) @ be64 (uint64_of (ccIndex c)) @ writeHashField (strBytes (ccClass c)) @
      writeHashField (strBytes (lower (ccTargetTxHash c))) @ writeHashField (decodedHex E (ccCiphertextHex c)) @
      writeHashField (strBytes (lower (txPlaceholderTxHash (ccTransaction c)))) @
      writeHashField (strBytes (lower (txPlaceholderTxRaw (ccTransaction c)))))"

definition encryptedCandidateSetID :: "mp_env \<Rightarrow> EncryptedCorpusCandidate list \<Rightarrow> string" where
  "encryptedCandidateSetID E candidates =
     hexEncode (mpSha256 E (writeHashField (strBytes ''bloc-encrypted-set-v1'') @ concat (map (candidateHashInput E) candidates)))"

section \<open>Validation and loading\<close>

definition validateCandidate :: "mp_env \<Rightarrow> int \<Rightarrow> int list \<Rightarrow> nat \<Rightarrow> EncryptedCorpusCandidate \<Rightarrow> manifest_error + unit" where
  "validateCandidate E bmax schedule i c =
     and_then (ensure (\<not> (ccPosition c \<noteq> int i \<or> ccIndex c \<noteq> int i mod bmax \<or> schedule ! i \<noteq> ccIndex c)) (CandidateSchedule i)) (\<lambda>_.
     (case mp_decodeHexStrict E (ccCiphertextHex c) of
        Inl e \<Rightarrow> Inl (CandidateCiphertext i e)
      | Inr encoded \<Rightarrow>
          and_then (ensure (take (length (strBytes LibraryVersion)) encoded = strBytes LibraryVersion \<and>
              mp_hashHex E encoded = ccCiphertextSHA256 c) (CandidateIdentity i)) (\<lambda>_.
          ensure (txEncryptedPayloadHex (ccTransaction c) = ccCiphertextHex c \<and> txTargetTxHash (ccTransaction c) = ccTargetTxHash c)
            (CandidateMetadata i))))"

definition validatePrefix :: "mp_env \<Rightarrow> EncryptedCorpusCandidate list \<Rightarrow> string \<times> string \<Rightarrow> manifest_error + unit" where
  "validatePrefix E candidates = (\<lambda>(size, want).
     (case Atoi size of
        None \<Rightarrow> Inl (PrefixSizeInvalid size)
      | Some n \<Rightarrow>
          and_then (ensure (0 < n \<and> n \<le> int (length candidates)) (PrefixSizeInvalid size)) (\<lambda>_.
          ensure (encryptedCandidateSetID E (take (nat n) candidates) = want) (PrefixIDMismatch n))))"

definition validateEncryptedCorpusManifest :: "mp_env \<Rightarrow> EncryptedCorpusManifest \<Rightarrow> manifest_error + unit" where
  "validateEncryptedCorpusManifest E m =
     and_then (ensure (emSchemaVersion m = encryptedCorpusSchemaVersion) (ManifestSchema (emSchemaVersion m))) (\<lambda>_.
     and_then (ensure (emCiphertextWireVersion m = LibraryVersion) (ManifestWireVersion (emCiphertextWireVersion m))) (\<lambda>_.
     and_then (ensure (emPublicConfigID m \<noteq> [] \<and> emPlaintextMasterCorpusID m \<noteq> []) ManifestIdentities) (\<lambda>_.
     and_then (ensure (\<not> (emBMax m \<le> 0 \<or> emAvailableCount m \<le> 0 \<or> emAvailableCount m > emBMax m)) ManifestBounds) (\<lambda>_.
     and_then (ensure (emIndexAssignment m = coordinatedIndexAssignment) (ManifestAssignment (emIndexAssignment m))) (\<lambda>_.
     and_then (ensure (int (length (emCandidates m)) = emAvailableCount m \<and> int (length (emOrderedIndexSchedule m)) = emAvailableCount m)
       ManifestCount) (\<lambda>_.
     and_then (each (\<lambda>(i, c). validateCandidate E (emBMax m) (emOrderedIndexSchedule m) i c) (enumerate 0 (emCandidates m))) (\<lambda>_.
     let got = encryptedCandidateSetID E (emCandidates m) in
     and_then (ensure (got = emEncryptedCorpusID m) (CorpusIDMismatch got)) (\<lambda>_.
     and_then (each (validatePrefix E (emCandidates m)) (emEncryptedPrefixSetIDs m)) (\<lambda>_. Inr ())))))))))"

definition restoreFee :: "nat \<times> EncryptedCorpusCandidate \<Rightarrow> manifest_error + EncryptedCorpusCandidate" where
  "restoreFee = (\<lambda>(i, c).
     (case SetString10 (ccEffectiveFeePerGasWei c) of
        None \<Rightarrow> Inl (CandidateFee i)
      | Some fee \<Rightarrow>
          if fee < 0 then Inl (CandidateFee i)
          else Inr (c\<lparr>ccTransaction := (ccTransaction c)\<lparr>txGasPriceWei := Some fee, txEffectiveFeePerGasW := Some fee\<rparr>\<rparr>)))"

definition checkTrailing :: "corpus_env \<Rightarrow> bytes \<Rightarrow> manifest_error + unit" where
  "checkTrailing C data =
     (case cvTrailing C data of AtEOF \<Rightarrow> Inr () | AnotherValue \<Rightarrow> Inl TrailingValue | Unreadable \<Rightarrow> Inl ManifestJSON)"

definition LoadEncryptedCorpus :: "corpus_env \<Rightarrow> (string, bytes) gomap \<Rightarrow> string \<Rightarrow> manifest_error + EncryptedCorpusManifest" where
  "LoadEncryptedCorpus C fs path =
     and_then (or_error (map_of fs path) (CorpusSource (FileUnreadable path))) (\<lambda>data.
     and_then (or_error (cvManifest C data) ManifestJSON) (\<lambda>m.
     and_then (checkTrailing C data) (\<lambda>_.
     and_then (validateEncryptedCorpusManifest (teMp (cvTarget C)) m) (\<lambda>_.
     and_then (each restoreFee (enumerate 0 (emCandidates m))) (\<lambda>candidates.
     Inr (m\<lparr>emCandidates := candidates\<rparr>))))))"

definition NewEncryptedCorpusSource :: "corpus_env \<Rightarrow> (string, bytes) gomap \<Rightarrow> string \<Rightarrow> manifest_error + EncryptedCorpusSource" where
  "NewEncryptedCorpusSource C fs path = LoadEncryptedCorpus C fs path"

text \<open>The evaluator reads the provenance from the same file.\<close>

definition readCorpusProvenance :: "corpus_env \<Rightarrow> (string, bytes) gomap \<Rightarrow> string \<Rightarrow> manifest_error + corpusProvenance" where
  "readCorpusProvenance C fs path =
     and_then (or_error (map_of fs path) (CorpusSource (FileUnreadable path))) (\<lambda>data. or_error (cvProvenance C data) ManifestJSON)"

section \<open>Serving\<close>

text \<open>
  A loaded manifest has as many candidates as it declares, so the loop that copies the transactions stays
  in range; the copies are equal to the originals.
\<close>

definition corpus_FetchSlot :: "mp_env \<Rightarrow> EncryptedCorpusSource \<Rightarrow> nat \<Rightarrow> int \<Rightarrow> manifest_error + SlotPage" where
  "corpus_FetchSlot E m slot limit =
     and_then (ensure (0 < limit) LimitNotPositive) (\<lambda>_.
     and_then (ensure (limit \<le> emBMax m) (LimitAboveBMax limit)) (\<lambda>_.
     let returned = (if limit > emAvailableCount m then emAvailableCount m else limit);
         chosen = take (nat returned) (emCandidates m) in
     Inr \<lparr>spSchemaVersion = emSchemaVersion m, spCiphertextWireVersion = emCiphertextWireVersion m,
       spPublicConfigID = emPublicConfigID m, spPlaintextMasterCorpusID = emPlaintextMasterCorpusID m,
       spEncryptedCorpusID = emEncryptedCorpusID m, spEncryptedPrefixSetID = encryptedCandidateSetID E chosen,
       spSlot = slot, spRequestedCount = limit, spAvailableCount = emAvailableCount m, spReturnedCount = returned,
       spTransactions = map ccTransaction chosen\<rparr>))"

definition corpus_Fetch :: "mp_env \<Rightarrow> EncryptedCorpusSource \<Rightarrow> manifest_error + Transaction list" where
  "corpus_Fetch E m = and_then (corpus_FetchSlot E m 0 (emAvailableCount m)) (\<lambda>page. Inr (spTransactions page))"

text \<open>The HTTP server; a server without a slot source answers from its store.\<close>

record Server =
  svStore :: Store
  svBuilder :: BuilderConfig
  svSlotSource :: "EncryptedCorpusSource option"

definition NewServer :: "Store \<Rightarrow> BuilderConfig \<Rightarrow> Server" where
  "NewServer st b = \<lparr>svStore = st, svBuilder = b, svSlotSource = None\<rparr>"

definition NewServerWithSlotSource :: "Store \<Rightarrow> BuilderConfig \<Rightarrow> EncryptedCorpusSource \<Rightarrow> Server" where
  "NewServerWithSlotSource st b src = (NewServer st b)\<lparr>svSlotSource := Some src\<rparr>"

record page_reply =
  prSchemaVersion :: string
  prCiphertextWireVersion :: string
  prPublicConfigID :: string
  prPlaintextMasterCorpusID :: string
  prEncryptedCorpusID :: string
  prEncryptedPrefixSetID :: string
  prSlot :: nat
  prRequestedCount :: int
  prAvailableCount :: int
  prReturnedCount :: int
  prList :: ItemList

datatype server_reply =
    BadRequest string
  | BadGateway manifest_error
  | PageReply page_reply
  | ListReply ItemList
  | SnapshotReply Snapshot
  | HealthReply

definition statusOf :: "server_reply \<Rightarrow> nat" where
  "statusOf r = (case r of BadRequest _ \<Rightarrow> 400 | BadGateway _ \<Rightarrow> 502 | _ \<Rightarrow> 200)"

definition handleHealthz :: "Server \<Rightarrow> server_reply" where
  "handleHealthz s = HealthReply"

definition handleSnapshot :: "mp_env \<Rightarrow> Server \<Rightarrow> server_reply" where
  "handleSnapshot E s = SnapshotReply (store_Snapshot E (svStore s))"

definition pageReply :: "SlotPage \<Rightarrow> ItemList \<Rightarrow> page_reply" where
  "pageReply page l =
     \<lparr>prSchemaVersion = spSchemaVersion page, prCiphertextWireVersion = spCiphertextWireVersion page,
      prPublicConfigID = spPublicConfigID page, prPlaintextMasterCorpusID = spPlaintextMasterCorpusID page,
      prEncryptedCorpusID = spEncryptedCorpusID page, prEncryptedPrefixSetID = spEncryptedPrefixSetID page,
      prSlot = spSlot page, prRequestedCount = spRequestedCount page, prAvailableCount = spAvailableCount page,
      prReturnedCount = liCount l, prList = l\<rparr>"

text \<open>\<open>rawSlot\<close> and \<open>rawLimit\<close> are the values of the query, empty when missing.\<close>

definition handleInclusionList :: "mp_env \<Rightarrow> Server \<Rightarrow> string \<Rightarrow> string \<Rightarrow> server_reply" where
  "handleInclusionList E s rawSlot rawLimit =
     (case svSlotSource s of
        None \<Rightarrow> ListReply (Build E (svBuilder s) (store_Snapshot E (svStore s)))
      | Some src \<Rightarrow>
          (case (if rawSlot = [] then Some 0 else parseUint64 rawSlot) of
             None \<Rightarrow> BadRequest ''invalid slot''
           | Some slot \<Rightarrow>
               (case Atoi rawLimit of
                  None \<Rightarrow> BadRequest ''invalid limit''
                | Some limit \<Rightarrow>
                    if limit \<le> 0 then BadRequest ''invalid limit''
                    else case corpus_FetchSlot E src slot limit of
                      Inl e \<Rightarrow> BadGateway e
                    | Inr page \<Rightarrow>
                        PageReply (pageReply page (BuildOrdered E (svBuilder s)
                          \<lparr>snTransactions = spTransactions page, snCount = 0, snHash = []\<rparr>)))))"

section \<open>Generating a corpus\<close>

definition identityOperators :: "mp_env \<Rightarrow> corpusCampaignOperator list \<Rightarrow> bool" where
  "identityOperators E ops \<longleftrightarrow>
     list_all (\<lambda>(i, op). coID op = i \<and> TrimSpace (mpUniTrim E) (coP2PPeerID op) \<noteq> []) (enumerate 0 ops) \<and> distinct (map coP2PPeerID ops)"

definition readCorpusCampaignIdentity :: "corpus_env \<Rightarrow> (string, bytes) gomap \<Rightarrow> string \<Rightarrow> manifest_error + replayCluster" where
  "readCorpusCampaignIdentity C fs path =
     (let E = teMp (cvTarget C); T = cvTarget C; blank = (\<lambda>s. TrimSpace (mpUniTrim E) s = []) in
     and_then (or_error (map_of fs path) (CorpusSource (FileUnreadable path))) (\<lambda>data.
     and_then (or_error (cvIdentity C data) ManifestJSON) (\<lambda>d.
     and_then (checkTrailing C data) (\<lambda>_.
     and_then (ensure (idVersion d = ''bloc-campaign-identity-v1'') (IdentityInvalid ''version'')) (\<lambda>_.
     and_then (ensure (\<not> (blank (idClusterID d) \<or> idN d < 4 \<or> idThreshold d < 1 \<or> idThreshold d > idN d \<or> idBMax d < 1))
       (IdentityInvalid ''parameters'')) (\<lambda>_.
     and_then (ensure (\<not> (blank (idCRSFile d) \<or> teIsAbs T (idCRSFile d) \<or> blank (idCRSSHA256 d) \<or> blank (idPublicKeyHex d)))
       (IdentityInvalid ''setup'')) (\<lambda>_.
     and_then (ensure (\<not> (cbMaxDecryptedTxs (idBlockspace d) < 1 \<or> cbMaxDecryptedTxs (idBlockspace d) > idBMax d \<or>
         cbDefaultTxGas (idBlockspace d) = 0)) (IdentityInvalid ''blockspace'')) (\<lambda>_.
     and_then (ensure (\<not> (lmMaxProposalBytes (idLimits d) < 1 \<or> lmMaxEnvelopeBytes (idLimits d) < lmMaxProposalBytes (idLimits d) \<or>
         lmMaxCombineAttemptsPerSubBatch (idLimits d) < 1)) (IdentityInvalid ''limits'')) (\<lambda>_.
     and_then (ensure (int (length (idOperators d)) = idN d) (IdentityInvalid ''operator count'')) (\<lambda>_.
     and_then (ensure (identityOperators E (idOperators d)) (IdentityInvalid ''operator'')) (\<lambda>_.
     let crsPath = teBeside T path (idCRSFile d) in
     and_then (or_error (map_of fs crsPath) (CorpusSource (FileUnreadable crsPath))) (\<lambda>crs.
     and_then (ensure (teEqualFold T (mp_hashHex E crs) (TrimSpace (mpUniTrim E) (idCRSSHA256 d)))
       (CorpusSource (PublicCRSMismatch (mp_hashHex E crs)))) (\<lambda>_.
     Inr \<lparr>rcVersion = ''bloc-cluster-v3'', rcClusterID = idClusterID d, rcBMax = idBMax d, rcN = idN d, rcThreshold = idThreshold d,
       rcCRSFile = idCRSFile d, rcCRSSHA256 = idCRSSHA256 d, rcPublicKeyHex = idPublicKeyHex d, rcCRSBytes = crs\<rparr>)))))))))))))"

definition liftSource :: "corpus_error + 'x \<Rightarrow> manifest_error + 'x" where
  "liftSource r = (case r of Inl e \<Rightarrow> Inl (CorpusSource e) | Inr x \<Rightarrow> Inr x)"

definition readEncryptedCorpusPublicConfig :: "corpus_env \<Rightarrow> (string, bytes) gomap \<Rightarrow> EncryptedCorpusOptions \<Rightarrow> manifest_error + replayCluster" where
  "readEncryptedCorpusPublicConfig C fs options =
     (let given = (\<lambda>s. TrimSpace (mpUniTrim (teMp (cvTarget C))) s \<noteq> []) in
      if given (eoClusterConfigPath options) = given (eoCampaignIdentityPath options) then Inl ConfigNotExclusive
      else if given (eoClusterConfigPath options) then liftSource (readReplayCluster (cvTarget C) fs (eoClusterConfigPath options))
      else readCorpusCampaignIdentity C fs (eoCampaignIdentityPath options))"

primrec readSecrets ::
  "corpus_env \<Rightarrow> (string, bytes) gomap \<Rightarrow> ('s, 'a, 'b, 'c) suite \<Rightarrow> replayCluster \<Rightarrow> string list \<Rightarrow> nat list \<Rightarrow>
   manifest_error + (nat \<times> 's option) option list" where
  "readSecrets C fs S cluster [] had = Inr []"
| "readSecrets C fs S cluster (path # paths) had =
     and_then (or_error (map_of fs path) (CorpusSource (FileUnreadable path))) (\<lambda>data.
     and_then (or_error (cvSecret C data) SecretInvalid) (\<lambda>d.
     and_then (ensure (esVersion d = ''bloc-node-secret-v1'' \<and> esClusterID d = rcClusterID cluster) SecretForOtherCluster) (\<lambda>_.
     and_then (ensure (\<not> (esOperatorID d \<in> set had \<or> int (esOperatorID d) \<ge> rcN cluster)) (SecretOperator (esOperatorID d))) (\<lambda>_.
     and_then (or_error (hexDecode (TrimPrefix (esBTEShareScalarHex d) ''0x'')) SecretInvalid) (\<lambda>raw.
     and_then (or_error (scUnmarshal S raw) SecretInvalid) (\<lambda>scalar.
     and_then (readSecrets C fs S cluster paths (esOperatorID d # had)) (\<lambda>rest.
     Inr (Some (esOperatorID d, Some scalar) # rest))))))))"

definition newReplayClusterWithSecrets ::
  "corpus_env \<Rightarrow> hybrid \<Rightarrow> ('s, 'a::ab_group_add, 'b, 'c) suite \<Rightarrow> (string, bytes) gomap \<Rightarrow> replayCluster \<Rightarrow> string list \<Rightarrow>
   manifest_error + ('s, 'a, 'b, 'c) ClusterBTE" where
  "newReplayClusterWithSecrets C hy S fs cluster secretPaths =
     and_then (ensure (\<not> int (length secretPaths) < rcThreshold cluster) (TooFewSecrets (length secretPaths))) (\<lambda>_.
     and_then (case NewBTDFromPublicCRS S defaultSuiteID (rcBMax cluster) (rcCRSBytes cluster) of
         Inl e \<Rightarrow> Inl (CorpusSource (CRSUnusable e)) | Inr b \<Rightarrow> Inr b) (\<lambda>btd.
     and_then (or_error (hexDecode (TrimPrefix (rcPublicKeyHex cluster) ''0x'')) (CorpusSource ClusterKeyInvalid)) (\<lambda>pkBytes.
     and_then (or_error (g1Unmarshal S pkBytes) (CorpusSource ClusterKeyInvalid)) (\<lambda>pk.
     and_then (readSecrets C fs S cluster secretPaths []) (\<lambda>shares.
     (case NewClusterBTEFromShares hy btd pk shares (rcN cluster) (rcThreshold cluster) of
        Inl e \<Rightarrow> Inl (ClusterRefused e) | Inr c \<Rightarrow> Inr c))))))"

text \<open>A result the combination never wrote is the zero value: no error and no plaintext.\<close>

definition resultMatches :: "PlaintextResult option \<Rightarrow> bytes \<Rightarrow> bool" where
  "resultMatches r raw = (case r of None \<Rightarrow> raw = [] | Some (Inl _) \<Rightarrow> False | Some (Inr p) \<Rightarrow> p = raw)"

definition selfShares ::
  "('s, 'a::ab_group_add, 'b, 'c) ClusterBTE \<Rightarrow> ('s, 'a, 'c) BatchPlan \<Rightarrow> manifest_error + 'a DecryptionShare list" where
  "selfShares cluster plan =
     and_then (each (\<lambda>i. each (\<lambda>secret. case MakeShare cluster secret plan (int i) of
         Inl e \<Rightarrow> Inl (SelfShareFailed i e) | Inr d \<Rightarrow> Inr d) (clShares cluster)) [0..<length (bpSubBatches plan)]) (Inr \<circ> concat)"

definition selfCheckEncryptedCorpus ::
  "('s, 'a::ab_group_add, 'b, 'c::ab_group_add) ClusterBTE \<Rightarrow> ('s, 'a, 'c) Ciphertext list \<Rightarrow> parsedTargetTx list \<Rightarrow>
   (manifest_error + unit) option" where
  "selfCheckEncryptedCorpus cluster ciphertexts targets =
     (case PlanBatch cluster ciphertexts of
        Inl e \<Rightarrow> Some (Inl (PlanFailed e))
      | Inr plan \<Rightarrow>
          (case selfShares cluster plan of
             Inl e \<Rightarrow> Some (Inl e)
           | Inr shares \<Rightarrow>
               (case CombineShares cluster plan shares of
                  None \<Rightarrow> None
                | Some (Inl e) \<Rightarrow> Some (Inl (SelfDecryptFailed e))
                | Some (Inr results) \<Rightarrow>
                    Some (and_then (ensure (length results = length targets) (SelfDecryptCount (length results))) (\<lambda>_.
                      and_then (each (\<lambda>(i, r, t). ensure (resultMatches r (ptRaw t)) (SelfDecryptMismatch i))
                        (enumerate 0 (zip results targets))) (\<lambda>_. Inr ()))))))"

text \<open>One step of the loop over the targets: the candidate and its ciphertext.\<close>

definition encryptCandidate ::
  "target_env \<Rightarrow> ('s::field, 'a::ab_group_add, 'b, 'c::ab_group_add) ClusterBTE \<Rightarrow> int \<Rightarrow> (nat \<Rightarrow> 's tx_randomness) \<Rightarrow> nat \<times> parsedTargetTx \<Rightarrow>
   manifest_error + (EncryptedCorpusCandidate \<times> ('s, 'a, 'c) Ciphertext)" where
  "encryptCandidate T cluster bmax rnd = (\<lambda>(position, target).
     (let index = int position mod bmax in
      case EncryptTx cluster (ptRaw target) index (rnd position) of
        Inl e \<Rightarrow> Inl (EncryptFailed position e)
      | Inr ct \<Rightarrow>
          (case Ciphertext_MarshalBinary (btdSuite (clBtd cluster)) ct of
             Inl e \<Rightarrow> Inl (CiphertextUnencodable position e)
           | Inr encoded \<Rightarrow>
               (case buildMockPlaceholderFromCiphertext T target (int position) encoded of
                  Inl e \<Rightarrow> Inl (PlaceholderRefused position e)
                | Inr item \<Rightarrow>
                    Inr (\<lparr>ccPosition = int position, ccIndex = index, ccClass = ptEvidenceClass target,
                      ccTargetTxHash = tsHash (ptSummary target), ccTargetTxSizeBytes = tsSizeBytes (ptSummary target),
                      ccCiphertextHex = ''0x'' @ hexEncode encoded, ccCiphertextSHA256 = mp_hashHex (teMp T) encoded,
                      ccEffectiveFeePerGasWei = showInt (EffectiveFeePerGas item), ccTransaction = item\<rparr>, ct)))))"

definition prefixesUpTo :: "int \<Rightarrow> (nat \<times> (corpusClass, nat) gomap) list" where
  "prefixesUpTo limit = filter (\<lambda>(size, _). int size \<le> limit) protocolWorkloadPrefixes"

definition corpusManifest ::
  "mp_env \<Rightarrow> string \<Rightarrow> int \<Rightarrow> int \<Rightarrow> parsedTargetTx list \<Rightarrow> EncryptedCorpusCandidate list \<Rightarrow> EncryptedCorpusManifest" where
  "corpusManifest E publicID bmax limit targets candidates =
     \<lparr>emSchemaVersion = encryptedCorpusSchemaVersion, emCiphertextWireVersion = LibraryVersion, emPublicConfigID = publicID,
      emPlaintextMasterCorpusID = plaintextSetID E targets,
      emPlaintextPrefixSetIDs = map (\<lambda>(size, _). (showNat size, plaintextSetID E (take size targets))) (prefixesUpTo limit),
      emEncryptedCorpusID = encryptedCandidateSetID E candidates,
      emEncryptedPrefixSetIDs = map (\<lambda>(size, _). (showNat size, encryptedCandidateSetID E (take size candidates))) (prefixesUpTo limit),
      emBMax = bmax, emAvailableCount = limit, emIndexAssignment = coordinatedIndexAssignment,
      emOrderedIndexSchedule = map ccIndex candidates,
      emClassCounts = map (\<lambda>(size, counts). (showNat size, counts)) (prefixesUpTo limit),
      emCandidates = candidates\<rparr>"

text \<open>\<^verbatim>\<open>os.Stat\<close> says whether a file exists, or fails.\<close>

definition requireAbsent :: "corpus_env \<Rightarrow> string \<Rightarrow> (string, bytes) gomap \<Rightarrow> manifest_error + unit" where
  "requireAbsent C path fs =
     and_then (ensure (\<not> has_key fs path) OutputExists) (\<lambda>_. ensure (\<not> cvStatFails C path) StatFailed)"

text \<open>
  The temporary file is removed when the function returns, renamed or not; only a rename changes the
  files.
\<close>

definition writeEncryptedCorpusAtomic ::
  "corpus_env \<Rightarrow> string \<Rightarrow> EncryptedCorpusManifest \<Rightarrow> (string, bytes) gomap \<Rightarrow> (manifest_error + unit) \<times> (string, bytes) gomap" where
  "writeEncryptedCorpusAtomic C path m fs =
     (case and_then (or_error (cvTemp C path) TempFailed) (\<lambda>temp.
           and_then (or_error (cvEncode C m) EncodeFailed) (\<lambda>data.
           and_then (ensure (cvSync C temp) SyncFailed) (\<lambda>_.
           and_then (ensure (cvClose C temp) CloseFailed) (\<lambda>_.
           and_then (requireAbsent C path fs) (\<lambda>_.
           and_then (ensure (cvRename C path) RenameFailed) (\<lambda>_. Inr data)))))) of
        Inl e \<Rightarrow> (Inl e, fs)
      | Inr data \<Rightarrow> (Inr (), AList.update path data fs))"

text \<open>Everything before the self-check: the cluster, the candidates with their ciphertexts, and the targets.\<close>

record ('s, 'a, 'b, 'c) corpus_parts =
  cpCluster :: "('s, 'a, 'b, 'c) ClusterBTE"
  cpPublicID :: string
  cpBMaxOf :: int
  cpTargets :: "parsedTargetTx list"
  cpEncrypted :: "(EncryptedCorpusCandidate \<times> ('s, 'a, 'c) Ciphertext) list"

definition corpusParts ::
  "corpus_env \<Rightarrow> hybrid \<Rightarrow> ('s::field, 'a::ab_group_add, 'b, 'c::ab_group_add) suite \<Rightarrow> (nat \<Rightarrow> 's tx_randomness) \<Rightarrow> EncryptedCorpusOptions \<Rightarrow>
   (string, bytes) gomap \<Rightarrow> manifest_error + ('s, 'a, 'b, 'c) corpus_parts" where
  "corpusParts C hy S rnd options fs =
     and_then (ensure (0 < eoLimit options) LimitNotPositive) (\<lambda>_.
     and_then (ensure (TrimSpace (mpUniTrim (teMp (cvTarget C))) (eoOutputPath options) \<noteq> []) OutputPathMissing) (\<lambda>_.
     and_then (requireAbsent C (eoOutputPath options) fs) (\<lambda>_.
     and_then (readEncryptedCorpusPublicConfig C fs options) (\<lambda>conf.
     and_then (ensure (eoLimit options \<le> rcBMax conf) (LimitAboveBMax (eoLimit options))) (\<lambda>_.
     and_then (liftSource (readProtocolWorkloadCorpus (cvTarget C) fs (eoPlaintextPath options))) (\<lambda>targets.
     and_then (ensure (eoLimit options \<le> int (length targets)) (LimitAboveTargets (eoLimit options))) (\<lambda>_.
     and_then (newReplayClusterWithSecrets C hy S fs conf (eoSecretPaths options)) (\<lambda>cluster.
     and_then (case PublicConfigID (cvMerge C) S (rcBMax conf) (rcCRSSHA256 conf) (clPK cluster) of
         Inl e \<Rightarrow> Inl (PublicIDFailed e) | Inr i \<Rightarrow> Inr i) (\<lambda>publicID.
     and_then (each (encryptCandidate (cvTarget C) cluster (rcBMax conf) rnd) (enumerate 0 (take (nat (eoLimit options)) targets))) (\<lambda>encrypted.
     Inr \<lparr>cpCluster = cluster, cpPublicID = publicID, cpBMaxOf = rcBMax conf, cpTargets = targets, cpEncrypted = encrypted\<rparr>))))))))))"

definition GenerateEncryptedCorpus ::
  "corpus_env \<Rightarrow> hybrid \<Rightarrow> ('s::field, 'a::ab_group_add, 'b, 'c::ab_group_add) suite \<Rightarrow> (nat \<Rightarrow> 's tx_randomness) \<Rightarrow> EncryptedCorpusOptions \<Rightarrow>
   (string, bytes) gomap \<Rightarrow> ((manifest_error + EncryptedCorpusManifest) \<times> (string, bytes) gomap) option" where
  "GenerateEncryptedCorpus C hy S rnd options fs =
     (case corpusParts C hy S rnd options fs of
        Inl e \<Rightarrow> Some (Inl e, fs)
      | Inr p \<Rightarrow>
          (case selfCheckEncryptedCorpus (cpCluster p) (map snd (cpEncrypted p)) (take (nat (eoLimit options)) (cpTargets p)) of
             None \<Rightarrow> None
           | Some (Inl e) \<Rightarrow> Some (Inl e, fs)
           | Some (Inr _) \<Rightarrow>
               let m = corpusManifest (teMp (cvTarget C)) (cpPublicID p) (cpBMaxOf p) (eoLimit options) (cpTargets p) (map fst (cpEncrypted p)) in
               (case validateEncryptedCorpusManifest (teMp (cvTarget C)) m of
                  Inl e \<Rightarrow> Some (Inl e, fs)
                | Inr _ \<Rightarrow>
                    (case writeEncryptedCorpusAtomic C (eoOutputPath options) m fs of
                       (Inl e, fs') \<Rightarrow> Some (Inl e, fs')
                     | (Inr _, fs') \<Rightarrow> Some (Inr m, fs')))))"

end
