(* ===== verification/Corpus_Facts.thy ===== *)
theory Corpus_Facts
  imports Encrypted_Corpus Eval_Facts
begin

text \<open>
  What an encrypted corpus goes through: it is generated and checked, loaded by the sidecar, bound to the
  nodes by the evaluator, served slot by slot and fetched by a node. The theorems follow a corpus
  along this way, from the plaintext transactions to the proposal of a node.
\<close>

section \<open>Decimal numbers\<close>

lemma parseDigits_append:
  "parseDigits acc (xs @ ys) = (case parseDigits acc xs of None \<Rightarrow> None | Some v \<Rightarrow> parseDigits v ys)"
  by (induction acc xs rule: parseDigits.induct) (auto split: option.splits)

lemma digitOf_digit: "k < 10 \<Longrightarrow> digitOf (char_of (48 + k)) = Some k"
  by (simp add: digitOf_def Let_def)

lemma parseDigits_showNat [simp]: "parseDigits 0 (showNat n) = Some n"
proof (induction n rule: showNat.induct)
  case (1 n)
  then show ?case
    by (subst showNat.simps) (simp add: parseDigits_append digitOf_digit [of "n mod 10"] digitOf_digit [of n])
qed

lemma showNat_digits: "c \<in> set (showNat n) \<Longrightarrow> \<exists>k < 10 :: nat. c = char_of (48 + k)"
proof (induction n rule: showNat.induct)
  case (1 n)
  show ?case
  proof (cases "n < 10")
    case True
    then show ?thesis using "1.prems" by (subst (asm) showNat.simps) auto
  next
    case False
    then have "c \<in> set (showNat (n div 10)) \<or> c = char_of (48 + n mod 10)" using "1.prems" by (subst (asm) showNat.simps) auto
    then show ?thesis using "1.IH" [OF False] by (metis mod_less_divisor zero_less_numeral)
  qed
qed

lemma showNat_nonempty [simp]: "showNat n \<noteq> []"
  by (subst showNat.simps) simp

lemma digit_facts:
  fixes k :: nat
  assumes "k < 10"
  shows "char_of (48 + k) \<noteq> CHR ''-''" "char_of (48 + k) \<noteq> CHR ''+''" "\<not> isSpace (char_of (48 + k))"
    "of_char (char_of (48 + k)) < (128 :: nat)"
proof -
  have c: "of_char (char_of (48 + k) :: char) = 48 + k" using assms by simp
  have "48 + k \<noteq> of_char (CHR ''-'')" "48 + k \<noteq> of_char (CHR ''+'')" by simp_all
  then show "char_of (48 + k) \<noteq> CHR ''-''" "char_of (48 + k) \<noteq> CHR ''+''" using c by metis+
  show "\<not> isSpace (char_of (48 + k))" "of_char (char_of (48 + k)) < (128 :: nat)" using assms c by (simp_all add: isSpace_def Let_def)
qed

lemma showNat_hd: "hd (showNat n) \<noteq> CHR ''-''" "hd (showNat n) \<noteq> CHR ''+''"
proof -
  obtain k :: nat where "k < 10" "hd (showNat n) = char_of (48 + k)" using showNat_digits [of "hd (showNat n)" n] hd_in_set [OF showNat_nonempty] by blast
  then show "hd (showNat n) \<noteq> CHR ''-''" "hd (showNat n) \<noteq> CHR ''+''" using digit_facts(1,2) by metis+
qed

lemma showInt_nonempty: "showInt n \<noteq> []"
  by (simp add: showInt_def)

lemma parseUint64_showNat: "n < 2 ^ 64 \<Longrightarrow> parseUint64 (showNat n) = Some n"
  by (simp add: parseUint64_def)

lemma Atoi_showInt: "0 \<le> n \<Longrightarrow> n < 2 ^ 63 \<Longrightarrow> Atoi (showInt n) = Some n"
  using showNat_hd [of "nat n"] by (simp add: Atoi_def showInt_def Let_def)

lemma SetString10_showInt: "SetString10 (showInt n) = Some n"
proof -
  have pos: "SetString10 (showNat k) = Some (int k)" for k
    using showNat_hd [of k] by (cases "showNat k") (auto simp: SetString10_def simp flip: parseDigits_showNat)
  show ?thesis by (auto simp: showInt_def pos) (simp add: SetString10_def)
qed

section \<open>What JSON keeps of a manifest\<close>

text \<open>The prices of a transaction are not part of its JSON object.\<close>

definition jsonCandidate :: "EncryptedCorpusCandidate \<Rightarrow> EncryptedCorpusCandidate" where
  "jsonCandidate c = c\<lparr>ccTransaction := (ccTransaction c)\<lparr>txGasPriceWei := None, txMaxFeePerGasWei := None, txMaxPriorityFeeWei := None,
     txEffectiveFeePerGasW := None\<rparr>\<rparr>"

definition jsonManifest :: "EncryptedCorpusManifest \<Rightarrow> EncryptedCorpusManifest" where
  "jsonManifest m = m\<lparr>emCandidates := map jsonCandidate (emCandidates m)\<rparr>"

definition provenanceOf :: "EncryptedCorpusManifest \<Rightarrow> corpusProvenance" where
  "provenanceOf m = \<lparr>cpSchemaVersion = emSchemaVersion m, cpCiphertextWireVersion = emCiphertextWireVersion m,
     cpPublicConfigID = emPublicConfigID m, cpPlaintextMasterCorpusID = emPlaintextMasterCorpusID m,
     cpPlaintextPrefixSetIDs = emPlaintextPrefixSetIDs m, cpEncryptedCorpusID = emEncryptedCorpusID m,
     cpEncryptedPrefixSetIDs = emEncryptedPrefixSetIDs m, cpBMax = emBMax m, cpAvailableCount = emAvailableCount m\<rparr>"

lemma jsonCandidate_fields [simp]:
  "ccPosition (jsonCandidate c) = ccPosition c" "ccIndex (jsonCandidate c) = ccIndex c" "ccClass (jsonCandidate c) = ccClass c"
  "ccTargetTxHash (jsonCandidate c) = ccTargetTxHash c" "ccCiphertextHex (jsonCandidate c) = ccCiphertextHex c"
  "ccCiphertextSHA256 (jsonCandidate c) = ccCiphertextSHA256 c" "ccEffectiveFeePerGasWei (jsonCandidate c) = ccEffectiveFeePerGasWei c"
  "txPlaceholderTxHash (ccTransaction (jsonCandidate c)) = txPlaceholderTxHash (ccTransaction c)"
  "txPlaceholderTxRaw (ccTransaction (jsonCandidate c)) = txPlaceholderTxRaw (ccTransaction c)"
  "txEncryptedPayloadHex (ccTransaction (jsonCandidate c)) = txEncryptedPayloadHex (ccTransaction c)"
  "txTargetTxHash (ccTransaction (jsonCandidate c)) = txTargetTxHash (ccTransaction c)"
  by (simp_all add: jsonCandidate_def)

lemma setID_json [simp]: "encryptedCandidateSetID E (map jsonCandidate cs) = encryptedCandidateSetID E cs"
proof -
  have "candidateHashInput E \<circ> jsonCandidate = candidateHashInput E" by (simp add: fun_eq_iff candidateHashInput_def)
  then show ?thesis by (simp add: encryptedCandidateSetID_def)
qed

lemma enumerate_map: "enumerate k (map f xs) = map (\<lambda>(i, x). (i, f x)) (enumerate k xs)"
  by (induction xs arbitrary: k) auto

lemma each_comp: "each f (map g xs) = each (f \<circ> g) xs"
  by (induction xs) simp_all

lemma each_member: "each f xs = Inr ys \<Longrightarrow> x \<in> set xs \<Longrightarrow> \<exists>y. f x = Inr y"
  by (induction xs arbitrary: ys) auto

lemma each_produced: "each f xs = Inr ys \<Longrightarrow> y \<in> set ys \<Longrightarrow> \<exists>x. f x = Inr y"
  by (induction xs arbitrary: ys) auto

lemma validateCandidate_json: "validateCandidate E b s i (jsonCandidate c) = validateCandidate E b s i c"
  by (simp only: validateCandidate_def jsonCandidate_fields)

lemma validate_json [simp]: "validateEncryptedCorpusManifest E (jsonManifest m) = validateEncryptedCorpusManifest E m"
proof -
  have c: "(\<lambda>(i, c). validateCandidate E b s i c) \<circ> (\<lambda>(i, c). (i, jsonCandidate c)) = (\<lambda>(i, c). validateCandidate E b s i c)" for b s
    by (simp add: fun_eq_iff validateCandidate_json)
  have p: "validatePrefix E (map jsonCandidate cs) = validatePrefix E cs" for cs
    by (simp only: validatePrefix_def take_map setID_json length_map)
  show ?thesis by (simp add: validateEncryptedCorpusManifest_def jsonManifest_def enumerate_map each_comp c p Let_def)
qed

lemma restored_json:
  assumes "each restoreFee (enumerate k cs) = Inr ds"
  shows "map jsonCandidate ds = map jsonCandidate cs"
  using assms
proof (induction cs arbitrary: k ds)
  case (Cons c cs)
  then obtain d rest where d: "restoreFee (k, c) = Inr d" "each restoreFee (enumerate (Suc k) cs) = Inr rest" "ds = d # rest" by auto
  have "jsonCandidate d = jsonCandidate c" using d(1) by (auto simp: restoreFee_def jsonCandidate_def split: option.splits if_splits)
  then show ?case using Cons.IH [OF d(2)] d(3) by simp
qed simp

lemma loaded_valid:
  assumes "LoadEncryptedCorpus C fs path = Inr m"
  shows "validateEncryptedCorpusManifest (teMp (cvTarget C)) m = Inr ()"
proof -
  obtain m0 cs where m0: "validateEncryptedCorpusManifest (teMp (cvTarget C)) m0 = Inr ()"
    "each restoreFee (enumerate 0 (emCandidates m0)) = Inr cs" "m = m0\<lparr>emCandidates := cs\<rparr>"
    using assms by (auto simp: LoadEncryptedCorpus_def)
  have "jsonManifest m = jsonManifest m0" using restored_json [OF m0(2)] m0(3) by (simp add: jsonManifest_def)
  then show ?thesis using m0(1) validate_json by metis
qed

section \<open>What a builder serves\<close>

lemma takeItems_all:
  assumes "unat gas + sum_list (map (unat \<circ> txGas) txs) \<le> unat g" and "int (length items + length txs) \<le> mx"
  shows "fst (takeItems mx g txs items gas) = items @ txs"
  using assms
proof (induction txs arbitrary: items gas)
  case (Cons tx txs)
  have le: "gas \<le> g" "unat (txGas tx) \<le> unat g - unat gas" using Cons.prems(1) by (auto simp: word_le_nat_alt)
  then have sub: "unat (g - gas) = unat g - unat gas" by (simp add: unat_sub)
  have add: "unat (gas + txGas tx) = unat gas + unat (txGas tx)"
    using Cons.prems(1) unsigned_less [of g, where 'a=nat] by (intro unat_add_lem [THEN iffD1]) simp
  have "\<not> txGas tx > g - gas" using le sub by (simp add: word_less_nat_alt)
  then show ?case using Cons.IH [of "gas + txGas tx" "items @ [tx]"] Cons.prems add by simp
qed simp

lemma dedup_subseq: "subseq (dedup had txs) txs"
  by (induction had txs rule: dedup.induct) auto

text \<open>Whether a builder can put all of a list of transactions, in their order, into an inclusion list.\<close>

definition fits :: "BuilderConfig \<Rightarrow> Transaction list \<Rightarrow> bool" where
  "fits b txs \<longleftrightarrow> distinct (map txHash txs) \<and> list_all (\<lambda>t. txHash t \<noteq> [] \<and> txGas t \<noteq> 0) txs \<and>
     int (length txs) \<le> MaxTransactions b \<and> sum_list (map (unat \<circ> txGas) txs) \<le> unat (MaxGas b)"

lemma chosen_all_iff:
  assumes ne: "snTransactions sn \<noteq> []"
  shows "chosen_txs b sn False = snTransactions sn \<longleftrightarrow> fits b (snTransactions sn)"
proof
  let ?txs = "snTransactions sn" and ?d = "dedup [] (snTransactions sn)"
  have cand: "candidates_of False sn = ?d" by (simp add: candidates_of_def Let_def)
  assume all: "chosen_txs b sn False = ?txs"
  then have "?d = ?txs" using chosen_subseq [of b False sn] dedup_subseq [of "[]" ?txs] cand subseq_order.antisym by metis
  moreover have "int (length ?txs) \<le> max 0 (MaxTransactions b)" "0 < int (length ?txs)"
    using takeItems_length [of "[]" "MaxTransactions b" "MaxGas b" ?d 0] all cand ne by simp_all
  then have "int (length ?txs) \<le> MaxTransactions b" by (simp add: max_def split: if_splits)
  moreover have "sum_list (map (unat \<circ> txGas) ?txs) \<le> unat (MaxGas b)"
    using takeItems_gas [of 0 "MaxGas b" "[]" "MaxTransactions b" ?d] all cand by (simp add: word_le_nat_alt)
  ultimately show "fits b ?txs"
    unfolding fits_def using dedup_distinct [of "[]" ?txs] dedup_set [of _ "[]" ?txs] by (auto simp: list_all_iff)
next
  let ?txs = "snTransactions sn"
  assume f: "fits b ?txs"
  then have "dedup [] ?txs = ?txs" using dedup_filter [of ?txs "[]"] by (auto simp: fits_def list_all_iff)
  then show "chosen_txs b sn False = ?txs"
    using takeItems_all [of 0 ?txs "MaxGas b" "[]" "MaxTransactions b"] f by (simp add: candidates_of_def fits_def)
qed

lemma chosen_of: "subseq (chosen_txs b sn False) (snTransactions sn)"
  using subseq_order.trans [OF chosen_subseq [of b False sn]] dedup_subseq by (simp add: candidates_of_def Let_def)

lemma chosen_full:
  assumes "length (snTransactions sn) = k" "0 < k"
  shows "length (chosen_txs b sn False) = k \<longleftrightarrow> fits b (snTransactions sn)"
    "length (chosen_txs b sn False) = k \<Longrightarrow> chosen_txs b sn False = snTransactions sn"
proof -
  have "chosen_txs b sn False = snTransactions sn \<longleftrightarrow> fits b (snTransactions sn)" using chosen_all_iff [of sn b] assms by auto
  then show "length (chosen_txs b sn False) = k \<longleftrightarrow> fits b (snTransactions sn)"
    "length (chosen_txs b sn False) = k \<Longrightarrow> chosen_txs b sn False = snTransactions sn"
    using subseq_same_length [OF chosen_of [of b sn]] assms(1) by metis+
qed

section \<open>What a node receives\<close>

text \<open>How the fields of a reply reach the struct a node decodes: by their JSON names.\<close>

definition jsonItem :: "Item \<Rightarrow> remote_item" where
  "jsonItem it = \<lparr>riHash = itHash it, riEncryptedPayloadHex = itEncryptedPayloadHex it, riCiphertextHex = [],
     riPlaceholderEnvelopeHex = itPlaceholderEnvelopeHex it, riGas = itGas it, riEffectiveFeePerGasWei = itEffectiveFeePerGW it,
     riFrom = itFrom it, riNonce = itNonce it, riKind = itKind it\<rparr>"

definition jsonReply :: "page_reply \<Rightarrow> remote_list" where
  "jsonReply r = \<lparr>rlSchemaVersion = prSchemaVersion r, rlCiphertextWireVersion = prCiphertextWireVersion r,
     rlPublicConfigID = prPublicConfigID r, rlPlaintextMasterCorpusID = prPlaintextMasterCorpusID r,
     rlEncryptedCorpusID = prEncryptedCorpusID r, rlEncryptedPrefixSetID = prEncryptedPrefixSetID r, rlSlot = prSlot r,
     rlRequestedCount = prRequestedCount r, rlAvailableCount = prAvailableCount r, rlReturnedCount = prReturnedCount r,
     rlItems = map jsonItem (liItems (prList r))\<rparr>"

lemma decodeHexStrict_mp: "mpUniTrim E = meUniTrim M \<Longrightarrow> mp_decodeHexStrict E h = Inr p \<longleftrightarrow> decodeHexStrict M h = Inr p"
  by (auto simp: mp_decodeHexStrict_def decodeHexStrict_def Let_def)

definition served_kind :: "Transaction \<Rightarrow> bool" where
  "served_kind t \<longleftrightarrow> kindString (txKind t) \<in> {[], ''placeholder''}"

definition served_item :: "merge_env \<Rightarrow> Transaction \<Rightarrow> bytes \<Rightarrow> EncryptedPlaceholder" where
  "served_item M t p = \<lparr>epHash = hashHex M p, epCiphertext = p, epGas = txGas t,
     epEffectiveFeePerGasWei = showInt (EffectiveFeePerGas t), epFrom = ToLower (meUniLower M) (txFrom t), epNonce = txNonce t,
     epKind = ''placeholder''\<rparr>"

lemma remoteItem_served:
  assumes "txEncryptedPayloadHex t \<noteq> []" and "decodeHexStrict M (txEncryptedPayloadHex t) = Inr p"
  shows "remoteItem M (jsonItem (toItem t)) = Inr (if served_kind t then Some (served_item M t p) else None)"
proof -
  show ?thesis using assms showInt_nonempty
    by (auto simp: remoteItem_def jsonItem_def toItem_def remotePayload_def served_kind_def served_item_def)
qed

text \<open>The facts a valid manifest gives for a request of \<open>n\<close> transactions.\<close>

lemma valid_manifest:
  assumes "validateEncryptedCorpusManifest E m = Inr ()"
  shows "emSchemaVersion m = ''bloc-encrypted-corpus-v1''" "emCiphertextWireVersion m = LibraryVersion"
    "int (length (emCandidates m)) = emAvailableCount m" "emAvailableCount m \<le> emBMax m"
    "encryptedCandidateSetID E (emCandidates m) = emEncryptedCorpusID m"
    "c \<in> set (emCandidates m) \<Longrightarrow> \<exists>p. mp_decodeHexStrict E (ccCiphertextHex c) = Inr p \<and> txEncryptedPayloadHex (ccTransaction c) = ccCiphertextHex c"
    "map_of (emEncryptedPrefixSetIDs m) (showInt n) = Some want \<Longrightarrow> 0 \<le> n \<Longrightarrow> n < 2 ^ 63 \<Longrightarrow>
       encryptedCandidateSetID E (take (nat n) (emCandidates m)) = want"
proof -
  obtain cs ps where v: "each (\<lambda>(i, c). validateCandidate E (emBMax m) (emOrderedIndexSchedule m) i c) (enumerate 0 (emCandidates m)) = Inr cs"
    "each (validatePrefix E (emCandidates m)) (emEncryptedPrefixSetIDs m) = Inr ps"
    and rest: "emSchemaVersion m = ''bloc-encrypted-corpus-v1''" "emCiphertextWireVersion m = LibraryVersion"
    "int (length (emCandidates m)) = emAvailableCount m" "emAvailableCount m \<le> emBMax m"
    "encryptedCandidateSetID E (emCandidates m) = emEncryptedCorpusID m"
    using assms by (auto simp: validateEncryptedCorpusManifest_def encryptedCorpusSchemaVersion_def Let_def)
  show "emSchemaVersion m = ''bloc-encrypted-corpus-v1''" "emCiphertextWireVersion m = LibraryVersion"
    "int (length (emCandidates m)) = emAvailableCount m" "emAvailableCount m \<le> emBMax m"
    "encryptedCandidateSetID E (emCandidates m) = emEncryptedCorpusID m" by (rule rest)+
  show "\<exists>p. mp_decodeHexStrict E (ccCiphertextHex c) = Inr p \<and> txEncryptedPayloadHex (ccTransaction c) = ccCiphertextHex c"
    if c: "c \<in> set (emCandidates m)"
  proof -
    obtain i where "i < length (emCandidates m)" "emCandidates m ! i = c" using c by (meson in_set_conv_nth)
    then have "(i, c) \<in> set (enumerate 0 (emCandidates m))" by (auto simp: in_set_enumerate_eq)
    from each_member [OF v(1) this] show ?thesis by (auto simp: validateCandidate_def split: sum.splits)
  qed
  show "encryptedCandidateSetID E (take (nat n) (emCandidates m)) = want"
    if "map_of (emEncryptedPrefixSetIDs m) (showInt n) = Some want" "0 \<le> n" "n < 2 ^ 63"
    using each_member [OF v(2) map_of_SomeD [OF that(1)]] Atoi_showInt [OF that(2,3)] by (auto simp: validatePrefix_def)
qed

lemma map_filter_if: "List.map_filter (\<lambda>x. x) (map (\<lambda>t. if P t then Some (f t) else None) ts) = map f (filter P ts)"
  by (induction ts) (simp_all add: List.map_filter_simps)

lemma filter_all_iff: "length (filter P xs) = length xs \<longleftrightarrow> list_all P xs"
  by (metis filter_id_conv length_filter_less list_all_iff nat_neq_iff)

definition payloadOf :: "merge_env \<Rightarrow> Transaction \<Rightarrow> bytes" where
  "payloadOf M t = (case decodeHexStrict M (txEncryptedPayloadHex t) of Inr p \<Rightarrow> p | Inl _ \<Rightarrow> [])"

lemma candidate_payload:
  assumes "validateEncryptedCorpusManifest E m = Inr ()" "mpUniTrim E = meUniTrim M" "c \<in> set (emCandidates m)"
  shows "txEncryptedPayloadHex (ccTransaction c) \<noteq> []"
    "decodeHexStrict M (txEncryptedPayloadHex (ccTransaction c)) = Inr (payloadOf M (ccTransaction c))"
    "mp_decodeHexStrict E (ccCiphertextHex c) = Inr (payloadOf M (ccTransaction c))"
proof -
  obtain p where p: "mp_decodeHexStrict E (ccCiphertextHex c) = Inr p" "txEncryptedPayloadHex (ccTransaction c) = ccCiphertextHex c"
    using valid_manifest(6) [OF assms(1,3)] by blast
  then have q: "decodeHexStrict M (txEncryptedPayloadHex (ccTransaction c)) = Inr p" using decodeHexStrict_mp [OF assms(2)] by simp
  then show "txEncryptedPayloadHex (ccTransaction c) \<noteq> []" by (auto simp: decodeHexStrict_def TrimPrefix_def TrimSpace_def is_ascii_def)
  show "decodeHexStrict M (txEncryptedPayloadHex (ccTransaction c)) = Inr (payloadOf M (ccTransaction c))"
    "mp_decodeHexStrict E (ccCiphertextHex c) = Inr (payloadOf M (ccTransaction c))" using p q by (simp_all add: payloadOf_def)
qed

text \<open>A node in exact mode, from the decoded reply on.\<close>

lemma fetch_checked:
  assumes "pcMempoolURL (cfProvider cfg) \<noteq> []" "pcRequireExactCount (cfProvider cfg)"
    "peGet P (mempoolRequestURL (cfProvider cfg) slot n) = Some (200, body)" "peJson P (take 8388608 body) = Some r"
    "rlSchemaVersion r \<noteq> []" "checkProvenance (cfProvider cfg) pub slot n r = Inr ()" "each (remoteItem M) (rlItems r) = Inr found"
    "0 < n" "rlReturnedCount r = int k"
  shows "(\<exists>l. fetchMempoolInclusionList M P cfg pub slot self n = Inr l) \<longleftrightarrow> length (List.map_filter (\<lambda>x. x) found) = k \<and> k = nat n"
    "fetchMempoolInclusionList M P cfg pub slot self n = Inr l \<Longrightarrow> ilItems l = List.map_filter (\<lambda>x. x) found"
  using assms by (auto simp: fetchMempoolInclusionList_def Let_def)

text \<open>The answer of a server on a corpus to a request within it.\<close>

lemma corpus_reply:
  assumes "0 < n" "n \<le> emAvailableCount m" "emAvailableCount m \<le> emBMax m" "slot < 2 ^ 64" "n < 2 ^ 63"
  shows "handleInclusionList E (NewServerWithSlotSource st b m) (showNat slot) (showInt n) =
    (let chosen = take (nat n) (emCandidates m) in
     PageReply (pageReply \<lparr>spSchemaVersion = emSchemaVersion m, spCiphertextWireVersion = emCiphertextWireVersion m,
       spPublicConfigID = emPublicConfigID m, spPlaintextMasterCorpusID = emPlaintextMasterCorpusID m,
       spEncryptedCorpusID = emEncryptedCorpusID m, spEncryptedPrefixSetID = encryptedCandidateSetID E chosen,
       spSlot = slot, spRequestedCount = n, spAvailableCount = emAvailableCount m, spReturnedCount = n,
       spTransactions = map ccTransaction chosen\<rparr>
       (BuildOrdered E b \<lparr>snTransactions = map ccTransaction chosen, snCount = 0, snHash = []\<rparr>)))"
  using assms
  by (simp add: handleInclusionList_def NewServerWithSlotSource_def NewServer_def parseUint64_showNat Atoi_showInt corpus_FetchSlot_def Let_def)

text \<open>
  C26. A corpus reaches the nodes: if a sidecar serves a loaded corpus and the evaluator accepted its provenance for \<open>n\<close>
  transactions and bound a node to it, then the request of the node for \<open>n\<close> transactions succeeds exactly when the
  builder of the sidecar can take the first \<open>n\<close> transactions of the corpus and these are placeholders; the proposal is then the
  first \<open>n\<close> ciphertexts of the corpus, in order, with the gas and the fees of their carriers.
\<close>

theorem corpus_served:
  assumes E: "E = teMp (cvTarget C)" and load: "LoadEncryptedCorpus C fs path = Inr m" and prov: "validateCorpusProvenance (provenanceOf m) bmax n = Inr ()"
    and bound: "bindCorpusProvider (provenanceOf m) pub url cfg = Inr cfg'" and url: "url \<noteq> []"
    and reply: "reply = handleInclusionList E (NewServerWithSlotSource st b m) (showNat slot) (showInt n)"
    and net: "peGet P (mempoolRequestURL (cfProvider cfg') slot n) = Some (statusOf reply, body)"
    and json: "\<And>r. reply = PageReply r \<Longrightarrow> peJson P (take 8388608 body) = Some (jsonReply r)"
    and std: "mpUniTrim E = meUniTrim M" and range: "slot < 2 ^ 64" "n < 2 ^ 63"
  shows "let first = take (nat n) (emCandidates m); result = fetchMempoolInclusionList M P cfg' pub slot self n in
    ((\<exists>l. result = Inr l) \<longleftrightarrow> fits b (map ccTransaction first) \<and> list_all served_kind (map ccTransaction first)) \<and>
    (\<forall>l. result = Inr l \<longrightarrow> list_all2 (\<lambda>x c. mp_decodeHexStrict E (ccCiphertextHex c) = Inr (epCiphertext x) \<and>
       epGas x = txGas (ccTransaction c) \<and> epEffectiveFeePerGasWei x = showInt (EffectiveFeePerGas (ccTransaction c))) (ilItems l) first)"
proof -
  let ?first = "take (nat n) (emCandidates m)" and ?f = "fetchMempoolInclusionList M P cfg' pub slot self n"
  let ?txs = "map ccTransaction ?first"
  define sn where "sn = \<lparr>snTransactions = ?txs, snCount = 0, snHash = []\<rparr>"
  let ?chosen = "chosen_txs b sn False"
  note loaded = loaded_valid [OF load]
  note valid = valid_manifest [OF loaded [folded E]]
  have n: "0 < n" "n \<le> emAvailableCount m" "emPublicConfigID m \<noteq> []" "emPlaintextMasterCorpusID m \<noteq> []" "emEncryptedCorpusID m \<noteq> []"
    "strAt (emEncryptedPrefixSetIDs m) (showInt n) \<noteq> []"
    using prov by (auto simp: validateCorpusProvenance_def provenanceOf_def)
  then obtain want where "map_of (emEncryptedPrefixSetIDs m) (showInt n) = Some want" by (auto simp: strAt_def split: option.splits)
  then have want: "map_of (emEncryptedPrefixSetIDs m) (showInt n) = Some (encryptedCandidateSetID E ?first)" using valid(7) n(1) range(2) by simp
  have len: "length ?txs = nat n" using n(1,2) valid(3) by simp
  define r where "r = pageReply \<lparr>spSchemaVersion = emSchemaVersion m, spCiphertextWireVersion = emCiphertextWireVersion m,
       spPublicConfigID = emPublicConfigID m, spPlaintextMasterCorpusID = emPlaintextMasterCorpusID m,
       spEncryptedCorpusID = emEncryptedCorpusID m, spEncryptedPrefixSetID = encryptedCandidateSetID E ?first,
       spSlot = slot, spRequestedCount = n, spAvailableCount = emAvailableCount m, spReturnedCount = n, spTransactions = ?txs\<rparr> (BuildOrdered E b sn)"
  have rep: "reply = PageReply r" using corpus_reply [OF n(1,2) valid(4) range] reply by (simp add: r_def sn_def Let_def)
  have sub: "subseq ?chosen ?txs" using chosen_of [of b sn] by (simp add: sn_def)
  have in_chosen: "t \<in> set ?txs" if "t \<in> set ?chosen" for t using list_emb_set [OF sub that] by metis
  have items: "rlItems (jsonReply r) = map (jsonItem \<circ> toItem) ?chosen" "rlReturnedCount (jsonReply r) = int (length ?chosen)"
    by (simp_all add: r_def jsonReply_def pageReply_def BuildOrdered_def build_fields)
  have check: "checkProvenance (cfProvider cfg') pub slot n (jsonReply r) = Inr ()" "rlSchemaVersion (jsonReply r) \<noteq> []"
    "pcMempoolURL (cfProvider cfg') \<noteq> []" "pcRequireExactCount (cfProvider cfg')"
    using bound url n valid(1,2) want items(2) list_emb_length [OF sub] len
    by (auto simp: bindCorpusProvider_def checkProvenance_def provenanceOf_def r_def jsonReply_def pageReply_def Let_def split: sum.splits)
  have pay: "txEncryptedPayloadHex t \<noteq> [] \<and> decodeHexStrict M (txEncryptedPayloadHex t) = Inr (payloadOf M t)" if "t \<in> set ?txs" for t
    using that candidate_payload(1,2) [OF loaded [folded E] std] by (auto dest: in_set_takeD)
  have found: "each (remoteItem M) (rlItems (jsonReply r)) =
      Inr (map (\<lambda>t. if served_kind t then Some (served_item M t (payloadOf M t)) else None) ?chosen)"
    unfolding items(1) each_comp
    by (rule each_map) (use remoteItem_served pay in_chosen in fastforce)
  note fetched = fetch_checked [OF check(3,4) net [unfolded rep statusOf_def server_reply.case] json [OF rep] check(2,1) found n(1) items(2), of self]
  have items_of: "ilItems l = map (\<lambda>t. served_item M t (payloadOf M t)) (filter served_kind ?chosen)" if "?f = Inr l" for l
    using fetched(2) [OF that] by (simp only: map_filter_if)
  have iff: "(\<exists>l. ?f = Inr l) \<longleftrightarrow> list_all served_kind ?chosen \<and> length ?chosen = nat n"
    unfolding fetched(1) map_filter_if length_map filter_all_iff ..
  have "length (snTransactions sn) = nat n" "0 < nat n" using len n(1) by (simp_all add: sn_def)
  then have all: "length ?chosen = nat n \<longleftrightarrow> fits b ?txs" "length ?chosen = nat n \<Longrightarrow> ?chosen = ?txs"
    using chosen_full [of sn "nat n" b] by (simp_all add: sn_def)
  have "list_all2 (\<lambda>x c. mp_decodeHexStrict E (ccCiphertextHex c) = Inr (epCiphertext x) \<and>
      epGas x = txGas (ccTransaction c) \<and> epEffectiveFeePerGasWei x = showInt (EffectiveFeePerGas (ccTransaction c))) (ilItems l) ?first"
    if l: "?f = Inr l" for l
  proof -
    have "?chosen = ?txs" "filter served_kind ?chosen = ?chosen" using iff l all by (auto simp: list_all_iff filter_id_conv)
    then have "ilItems l = map (\<lambda>c. served_item M (ccTransaction c) (payloadOf M (ccTransaction c))) ?first" using items_of [OF l] by simp
    moreover have "mp_decodeHexStrict E (ccCiphertextHex c) = Inr (payloadOf M (ccTransaction c))" if "c \<in> set ?first" for c
      using candidate_payload(3) [OF loaded [folded E] std in_set_takeD [OF that]] .
    ultimately show ?thesis by (auto simp: list.rel_map served_item_def intro!: list.rel_refl_strong)
  qed
  moreover have "(\<exists>l. ?f = Inr l) \<longleftrightarrow> fits b ?txs \<and> list_all served_kind ?txs" using iff all by metis
  ultimately show ?thesis by (simp add: Let_def)
qed

section \<open>Generated corpora\<close>

lemma trim_plain:
  assumes "\<And>c. c \<in> set s \<Longrightarrow> \<not> isSpace c \<and> of_char c < (128 :: nat)"
  shows "TrimSpace u s = s"
proof -
  have "dropWhile isSpace s = s" "dropWhile isSpace (rev s) = rev s" using assms by (intro dropWhile_none; simp)+
  moreover have "is_ascii s" using assms by (simp add: is_ascii_def list_all_iff)
  ultimately show ?thesis by (simp add: TrimSpace_def)
qed

lemma trim_digits: "0 \<le> f \<Longrightarrow> TrimSpace u (showInt f) = showInt f"
proof (rule trim_plain)
  fix c
  assume "0 \<le> f" "c \<in> set (showInt f)"
  then have "c \<in> set (showNat (nat f))" by (simp add: showInt_def)
  then obtain k :: nat where "k < 10" "c = char_of (48 + k)" using showNat_digits by blast
  then show "\<not> isSpace c \<and> of_char c < (128 :: nat)" using digit_facts(3,4) by metis
qed

lemma parseDecimal_show: "0 \<le> f \<Longrightarrow> parseDecimalBig E (showInt f) = f"
  by (simp add: parseDecimalBig_def trim_digits SetString10_showInt showInt_nonempty)

text \<open>Decoded transactions have no negative prices.\<close>

definition prices_ok :: "target_env \<Rightarrow> bool" where
  "prices_ok T \<longleftrightarrow> (\<forall>raw tx. teUnmarshalTx T raw = Some tx \<longrightarrow> 0 \<le> etGasFeeCap tx \<and> 0 \<le> etGasPrice tx)"

text \<open>What the evaluation knows of a carrier: its fee is the one the chain sees.\<close>

definition priced :: "Transaction \<Rightarrow> bool" where
  "priced t \<longleftrightarrow> (\<exists>f \<ge> 0. txGasPriceWei t = Some f \<and> txEffectiveFeePerGasW t = Some f \<and> txMaxFeePerGasWei t = None \<and> txMaxPriorityFeeWei t = None)"

lemma placeholder_priced:
  assumes "buildMockPlaceholderFromCiphertext T target i enc = Inr t" and "prices_ok T"
  shows "priced t"
proof -
  let ?d = "buildPlaceholderCalldata (teMp T) (tsHash (ptSummary target)) (tsGas (ptSummary target)) enc"
  obtain raw sm where sm: "signMockPlaceholderTx T i ?d (tsEffectiveFeePerGasWei (ptSummary target)) = Inr (raw, sm)"
    "t = ClassifyAndParse (teMp T) (carrierItem T target ?d raw sm)"
    using assms(1) by (auto simp: buildMockPlaceholderFromCiphertext_def Let_def)
  then have "summarizeSignedTx T raw = Inr sm" by (auto simp: signMockPlaceholderTx_def Let_def)
  then obtain tx where "teUnmarshalTx T raw = Some tx" "tsEffectiveFeePerGasWei sm = showInt (effectiveFeePerGas tx)"
    by (auto simp: summarizeSignedTx_def summaryOf_def)
  then obtain f where f: "0 \<le> f" "tsEffectiveFeePerGasWei sm = showInt f" using assms(2) by (auto simp: prices_ok_def effectiveFeePerGas_def split: if_splits)
  have "priced (carrierItem T target ?d raw sm)" using f by (auto simp: priced_def carrierItem_def parseDecimal_show Let_def)
  moreover have "priced (ClassifyAndParse E u)" if "priced u" for E u
    using that by (auto simp: priced_def ClassifyAndParse_def Let_def split: sum.splits)
  ultimately show ?thesis using sm(2) by blast
qed

lemma priced_restore:
  assumes "priced (ccTransaction c)" "ccEffectiveFeePerGasWei c = showInt (EffectiveFeePerGas (ccTransaction c))"
  shows "restoreFee (i, jsonCandidate c) = Inr c"
  using assms by (auto simp: priced_def restoreFee_def jsonCandidate_def EffectiveFeePerGas_def SetString10_showInt)

lemma encrypted_candidate:
  assumes "encryptCandidate T cluster bmax rnd x = Inr (c, ct)" and "prices_ok T"
  shows "restoreFee (i, jsonCandidate c) = Inr c"
    "\<exists>enc. Ciphertext_MarshalBinary (btdSuite (clBtd cluster)) ct = Inr enc \<and> ccCiphertextHex c = ''0x'' @ hexEncode enc"
  using assms placeholder_priced
  by (auto simp: encryptCandidate_def Let_def intro!: priced_restore split: prod.splits sum.splits)

lemma restored_all:
  assumes "each (encryptCandidate T cluster bmax rnd) xs = Inr encrypted" and "prices_ok T"
  shows "each restoreFee (enumerate 0 (map jsonCandidate (map fst encrypted))) = Inr (map fst encrypted)"
proof -
  have ok: "restoreFee (i, jsonCandidate c) = Inr c" if c: "c \<in> set (map fst encrypted)" for i c
  proof -
    obtain ct where "(c, ct) \<in> set encrypted" using c by auto
    then obtain x where "encryptCandidate T cluster bmax rnd x = Inr (c, ct)" using each_produced [OF assms(1)] by blast
    then show ?thesis by (rule encrypted_candidate(1) [OF _ assms(2)])
  qed
  have "each restoreFee (enumerate k (map jsonCandidate cs)) = Inr cs" if "set cs \<subseteq> set (map fst encrypted)" for k cs
    using that by (induction cs arbitrary: k) (use ok in auto)
  then show ?thesis by blast
qed

lemma encoded_all:
  assumes "each (encryptCandidate T cluster bmax rnd) xs = Inr encrypted" and "prices_ok T"
  shows "list_all2 (\<lambda>c ct. \<exists>enc. Ciphertext_MarshalBinary (btdSuite (clBtd cluster)) ct = Inr enc \<and> ccCiphertextHex c = ''0x'' @ hexEncode enc)
    (map fst encrypted) (map snd encrypted)"
proof -
  have "\<exists>enc. Ciphertext_MarshalBinary (btdSuite (clBtd cluster)) (snd e) = Inr enc \<and> ccCiphertextHex (fst e) = ''0x'' @ hexEncode enc"
    if e: "e \<in> set encrypted" for e
  proof -
    obtain x where "encryptCandidate T cluster bmax rnd x = Inr e" using each_produced [OF assms(1) e] by blast
    then show ?thesis using encrypted_candidate(2) [OF _ assms(2), of cluster bmax rnd x "fst e" "snd e"] by simp
  qed
  then show ?thesis by (simp add: list.rel_map list.rel_refl_strong)
qed

lemma hexEncode_nonempty: "bs \<noteq> [] \<Longrightarrow> hexEncode bs \<noteq> []"
  by (cases bs) (simp_all add: hexEncode_def)

lemma prefix_provenance:
  assumes sha: "\<And>x. mpSha256 E x \<noteq> []" and m: "m = corpusManifest E pub bmax limit targets cs"
    and valid: "validateEncryptedCorpusManifest E m = Inr ()" and k: "k \<in> fst ` set protocolWorkloadPrefixes" "int k \<le> limit"
  shows "validateCorpusProvenance (provenanceOf m) bmax (int k) = Inr ()"
proof -
  have num: "showInt (int k) = showNat k" by (simp add: showInt_def)
  have ids: "strAt (map (\<lambda>(j, x). (showNat j, hexEncode (mpSha256 E (g j)))) (prefixesUpTo limit)) (showInt (int k)) \<noteq> []" for g
  proof -
    let ?m = "map (\<lambda>(j, x). (showNat j, hexEncode (mpSha256 E (g j)))) (prefixesUpTo limit)"
    obtain x where "(k, x) \<in> set protocolWorkloadPrefixes" using k(1) by auto
    then have "(k, x) \<in> set (prefixesUpTo limit)" using k(2) by (simp add: prefixesUpTo_def)
    then have "(showNat k, hexEncode (mpSha256 E (g k))) \<in> set ?m" by force
    then obtain v where v: "map_of ?m (showInt (int k)) = Some v" unfolding num by (blast dest: weak_map_of_SomeI)
    then have "v \<noteq> []" using map_of_SomeD [OF v] hexEncode_nonempty [OF sha] by auto
    then show ?thesis using v by (simp add: strAt_def)
  qed
  have pos: "0 < k" using k(1) by (auto simp: protocolWorkloadPrefixes_def)
  have "emPublicConfigID m \<noteq> []" "emPlaintextMasterCorpusID m \<noteq> []" using valid by (auto simp: validateEncryptedCorpusManifest_def)
  moreover have "encryptedCandidateSetID E cs \<noteq> []" by (simp add: encryptedCandidateSetID_def hexEncode_nonempty sha)
  ultimately show ?thesis
    using pos k(2) ids unfolding m
    by (simp add: validateCorpusProvenance_def provenanceOf_def corpusManifest_def encryptedCorpusSchemaVersion_def
        plaintextSetID_def encryptedCandidateSetID_def)
qed

lemma selfCheck_decrypts:
  assumes "selfCheckEncryptedCorpus cluster cts targets = Some (Inr ())"
  shows "\<exists>plan shares results. PlanBatch cluster cts = Inr plan \<and> selfShares cluster plan = Inr shares \<and>
    CombineShares cluster plan shares = Some (Inr results) \<and> list_all2 (\<lambda>r t. resultMatches r (ptRaw t)) results targets"
proof -
  obtain plan shares results xs where r: "PlanBatch cluster cts = Inr plan" "selfShares cluster plan = Inr shares"
    "CombineShares cluster plan shares = Some (Inr results)" "length results = length targets"
    "each (\<lambda>(i, r, t). ensure (resultMatches r (ptRaw t)) (SelfDecryptMismatch i)) (enumerate 0 (zip results targets)) = Inr xs"
    using assms by (auto simp: selfCheckEncryptedCorpus_def split: sum.splits option.splits)
  have "resultMatches (results ! i) (ptRaw (targets ! i))" if i: "i < length results" for i
  proof -
    have "(i, results ! i, targets ! i) \<in> set (enumerate 0 (zip results targets))" using i r(4) by (auto simp: in_set_enumerate_eq)
    from each_member [OF r(5) this] show ?thesis by auto
  qed
  then show ?thesis using r(1-4) by (auto simp: list_all2_conv_all_nth)
qed

lemma generated_parts:
  assumes "GenerateEncryptedCorpus C hy S rnd options fs = Some (Inr m, fs')"
  obtains p data where "corpusParts C hy S rnd options fs = Inr p"
    "selfCheckEncryptedCorpus (cpCluster p) (map snd (cpEncrypted p)) (take (nat (eoLimit options)) (cpTargets p)) = Some (Inr ())"
    "m = corpusManifest (teMp (cvTarget C)) (cpPublicID p) (cpBMaxOf p) (eoLimit options) (cpTargets p) (map fst (cpEncrypted p))"
    "validateEncryptedCorpusManifest (teMp (cvTarget C)) m = Inr ()" "cvEncode C m = Some data" "fs' = AList.update (eoOutputPath options) data fs"
  using assms
  by (auto simp: GenerateEncryptedCorpus_def writeEncryptedCorpusAtomic_def Let_def split: sum.splits option.splits)

lemma lift_Inr: "(case r of Inl e \<Rightarrow> Inl (f e) | Inr x \<Rightarrow> Inr x) = Inr y \<longleftrightarrow> r = Inr y"
  by (cases r) simp_all

lemma parts_facts:
  assumes "corpusParts C hy S rnd options fs = Inr p"
  shows "readProtocolWorkloadCorpus (cvTarget C) fs (eoPlaintextPath options) = Inr (cpTargets p)"
    "each (encryptCandidate (cvTarget C) (cpCluster p) (cpBMaxOf p) rnd) (enumerate 0 (take (nat (eoLimit options)) (cpTargets p))) = Inr (cpEncrypted p)"
    "\<exists>conf. readEncryptedCorpusPublicConfig C fs options = Inr conf \<and> newReplayClusterWithSecrets C hy S fs conf (eoSecretPaths options) = Inr (cpCluster p) \<and>
       PublicConfigID (cvMerge C) S (rcBMax conf) (rcCRSSHA256 conf) (clPK (cpCluster p)) = Inr (cpPublicID p)"
  using assms by (auto simp: corpusParts_def liftSource_def lift_Inr)

text \<open>
  C25. A generated corpus is usable: if generation succeeds, for JSON that reads back what it wrote and transactions without negative
  prices, then loading the written file gives exactly the generated manifest, the evaluator accepts its provenance for every prefix size of
  the workload within the limit, the candidates are the encodings of ciphertexts that the cluster decrypts, with
  the shares of its secrets, to the first transactions of the plaintext corpus, the public identity is that of the cluster, and only the
  output file has changed.
\<close>

theorem corpus_generated:
  assumes gen: "GenerateEncryptedCorpus C hy S rnd options fs = Some (Inr m, fs')"
    and json: "\<And>data. cvEncode C m = Some data \<Longrightarrow>
      cvManifest C data = Some (jsonManifest m) \<and> cvTrailing C data = AtEOF \<and> cvProvenance C data = Some (provenanceOf m)"
    and prices: "prices_ok (cvTarget C)" and sha: "\<And>x. mpSha256 (teMp (cvTarget C)) x \<noteq> []"
  shows "LoadEncryptedCorpus C fs' (eoOutputPath options) = Inr m \<and> readCorpusProvenance C fs' (eoOutputPath options) = Inr (provenanceOf m) \<and>
    (\<forall>k \<in> fst ` set protocolWorkloadPrefixes. int k \<le> eoLimit options \<longrightarrow> validateCorpusProvenance (provenanceOf m) (emBMax m) (int k) = Inr ()) \<and>
    (\<exists>conf cluster cts plan shares results targets. readProtocolWorkloadCorpus (cvTarget C) fs (eoPlaintextPath options) = Inr targets \<and>
      readEncryptedCorpusPublicConfig C fs options = Inr conf \<and> newReplayClusterWithSecrets C hy S fs conf (eoSecretPaths options) = Inr cluster \<and>
      PublicConfigID (cvMerge C) S (rcBMax conf) (rcCRSSHA256 conf) (clPK cluster) = Inr (emPublicConfigID m) \<and>
      list_all2 (\<lambda>c ct. \<exists>enc. Ciphertext_MarshalBinary (btdSuite (clBtd cluster)) ct = Inr enc \<and> ccCiphertextHex c = ''0x'' @ hexEncode enc) (emCandidates m) cts \<and>
      PlanBatch cluster cts = Inr plan \<and> selfShares cluster plan = Inr shares \<and> CombineShares cluster plan shares = Some (Inr results) \<and>
      list_all2 (\<lambda>r t. resultMatches r (ptRaw t)) results (take (nat (eoLimit options)) targets)) \<and>
    (\<forall>path. path \<noteq> eoOutputPath options \<longrightarrow> map_of fs' path = map_of fs path)"
proof -
  let ?out = "eoOutputPath options"
  obtain p data where p: "corpusParts C hy S rnd options fs = Inr p"
    "selfCheckEncryptedCorpus (cpCluster p) (map snd (cpEncrypted p)) (take (nat (eoLimit options)) (cpTargets p)) = Some (Inr ())"
    and m: "m = corpusManifest (teMp (cvTarget C)) (cpPublicID p) (cpBMaxOf p) (eoLimit options) (cpTargets p) (map fst (cpEncrypted p))"
    and valid: "validateEncryptedCorpusManifest (teMp (cvTarget C)) m = Inr ()" and data: "cvEncode C m = Some data" "fs' = AList.update ?out data fs"
    by (rule generated_parts [OF gen])
  note facts = parts_facts [OF p(1)]
  have cands: "emCandidates m = map fst (cpEncrypted p)" "emBMax m = cpBMaxOf p" "emPublicConfigID m = cpPublicID p" by (simp_all add: m corpusManifest_def)
  have written: "map_of fs' ?out = Some data" "\<forall>path. path \<noteq> ?out \<longrightarrow> map_of fs' path = map_of fs path"
    using data(2) by (simp_all add: map_of_update)
  have "emCandidates (jsonManifest m) = map jsonCandidate (map fst (cpEncrypted p))" "(jsonManifest m)\<lparr>emCandidates := map fst (cpEncrypted p)\<rparr> = m"
    using cands(1) by (simp_all add: jsonManifest_def)
  then have "LoadEncryptedCorpus C fs' ?out = Inr m"
    using json [OF data(1)] written(1) valid restored_all [OF facts(2) prices]
    by (simp add: LoadEncryptedCorpus_def checkTrailing_def)
  moreover have "readCorpusProvenance C fs' ?out = Inr (provenanceOf m)" using json [OF data(1)] written(1) by (simp add: readCorpusProvenance_def)
  moreover have "\<forall>k \<in> fst ` set protocolWorkloadPrefixes. int k \<le> eoLimit options \<longrightarrow> validateCorpusProvenance (provenanceOf m) (emBMax m) (int k) = Inr ()"
    unfolding cands(2) using prefix_provenance [OF sha m valid] by blast
  moreover note enc = encoded_all [OF facts(2) prices, folded cands(1)]
  moreover obtain plan shares results where d: "PlanBatch (cpCluster p) (map snd (cpEncrypted p)) = Inr plan" "selfShares (cpCluster p) plan = Inr shares"
    "CombineShares (cpCluster p) plan shares = Some (Inr results)"
    "list_all2 (\<lambda>r t. resultMatches r (ptRaw t)) results (take (nat (eoLimit options)) (cpTargets p))"
    using selfCheck_decrypts [OF p(2)] by blast
  moreover obtain conf where "readEncryptedCorpusPublicConfig C fs options = Inr conf"
    "newReplayClusterWithSecrets C hy S fs conf (eoSecretPaths options) = Inr (cpCluster p)"
    "PublicConfigID (cvMerge C) S (rcBMax conf) (rcCRSSHA256 conf) (clPK (cpCluster p)) = Inr (emPublicConfigID m)"
    using facts(3) cands(3) by auto
  ultimately show ?thesis using facts(1) written(2)
    by (intro conjI exI [of _ conf] exI [of _ "cpCluster p"] exI [of _ "map snd (cpEncrypted p)"] exI [of _ plan] exI [of _ shares] exI [of _ results] exI [of _ "cpTargets p"])
qed

end
