(* ===== verification/Corpus_Demo.thy ===== *)
theory Corpus_Demo
  imports Corpus_Facts
begin

text \<open>
  A small campaign on which the theorems on encrypted corpora are applied: a corpus of 512 rows in the
  classes of the protocol workload, of which the first transaction is encrypted for a cluster of one operator.
\<close>

section \<open>The rows\<close>

definition demo_classes :: "corpusClass list" where
  "demo_classes = concat (map (\<lambda>(k, c). replicate k c)
     [(2, corpusClassTransfer), (4, corpusClass128), (1, corpusClass256), (1, corpusClass1024),
      (7, corpusClassTransfer), (12, corpusClass128), (3, corpusClass256), (1, corpusClass1024), (1, corpusClass4096),
      (27, corpusClassTransfer), (48, corpusClass128), (11, corpusClass256), (8, corpusClass1024), (2, corpusClass4096),
      (107, corpusClassTransfer), (192, corpusClass128), (47, corpusClass256), (31, corpusClass1024), (7, corpusClass4096)])"

definition demo_size :: "corpusClass \<Rightarrow> nat" where
  "demo_size c = (if c = corpusClassTransfer then 0 else if c = corpusClass128 then 128 else if c = corpusClass256 then 256
     else if c = corpusClass1024 then 1024 else 4096)"

lemmas class_names = corpusClassTransfer_def corpusClass128_def corpusClass256_def corpusClass1024_def corpusClass4096_def

lemma demo_classes_length: "length demo_classes = 512"
  by (simp add: demo_classes_def)

lemma demo_class_counts:
  "length (filter (\<lambda>d. d = c) (take 8 demo_classes)) = countClass [(corpusClassTransfer, 2), (corpusClass128, 4), (corpusClass256, 1), (corpusClass1024, 1), (corpusClass4096, 0)] c"
  "length (filter (\<lambda>d. d = c) (take 32 demo_classes)) = countClass [(corpusClassTransfer, 9), (corpusClass128, 16), (corpusClass256, 4), (corpusClass1024, 2), (corpusClass4096, 1)] c"
  "length (filter (\<lambda>d. d = c) (take 128 demo_classes)) = countClass [(corpusClassTransfer, 36), (corpusClass128, 64), (corpusClass256, 15), (corpusClass1024, 10), (corpusClass4096, 3)] c"
  "length (filter (\<lambda>d. d = c) (take 512 demo_classes)) = countClass [(corpusClassTransfer, 143), (corpusClass128, 256), (corpusClass256, 62), (corpusClass1024, 41), (corpusClass4096, 10)] c"
  by (simp_all add: demo_classes_def countClass_def class_names)

definition demo_row :: "nat \<Rightarrow> string" where
  "demo_row i = CHR ''{'' # showNat i"

definition demo_target_tx :: "nat \<Rightarrow> eth_tx" where
  "demo_target_tx i = \<lparr>etType = 2, etChainId = Some 1337, etNonce = i, etGas = 100000, etTo = None, etGasFeeCap = 5, etGasPrice = 0,
     etData = replicate (demo_size (demo_classes ! i)) 0, etHash = ''0x'' @ hexEncode (beFixed 32 i)\<rparr>"

definition demo_carrier_tx :: eth_tx where
  "demo_carrier_tx = \<lparr>etType = 2, etChainId = Some 1337, etNonce = 0, etGas = 30000, etTo = Some ''b10c'', etGasFeeCap = 5, etGasPrice = 0,
     etData = [], etHash = ''0xcc''\<rparr>"

definition demo_replay_cluster :: replayCluster where
  "demo_replay_cluster = \<lparr>rcVersion = ''bloc-cluster-v3'', rcClusterID = ''c'', rcBMax = 1, rcN = 1, rcThreshold = 1, rcCRSFile = ''crs'',
     rcCRSSHA256 = replicate 64 (CHR ''0''), rcPublicKeyHex = ''0d'', rcCRSBytes = []\<rparr>"

text \<open>A raw transaction is the two bytes of its row, a carrier any other text.\<close>

definition demo_target_env :: target_env where
  "demo_target_env = \<lparr>teMp = \<lparr>mpSha256 = (\<lambda>bs. replicate 32 0), mpHexToHash = (\<lambda>h. case hexDecode (drop 2 h) of Some b \<Rightarrow> b | None \<Rightarrow> []),
       mpUniLower = (\<lambda>s. s), mpUniTrim = (\<lambda>s. s), mpRange = rev\<rparr>,
     teUnmarshalTx = (\<lambda>raw. Some (if length raw = 2 then demo_target_tx (beNat raw) else demo_carrier_tx)),
     teSender = (\<lambda>chain tx. Some ''0xab''), teValidKey = (\<lambda>seed. True), teSignTx = (\<lambda>key tx. Some [1, 2, 3]),
     teEntry = (\<lambda>line. case parseDigits 0 (tl line) of None \<Rightarrow> None
       | Some i \<Rightarrow> Some \<lparr>teClass = demo_classes ! i, teRawTx = hexEncode (beFixed 2 i)\<rparr>),
     teCluster = (\<lambda>data. Some demo_replay_cluster), teIsAbs = (\<lambda>p. False), teBeside = (\<lambda>d p. p), teEqualFold = (=)\<rparr>"

section \<open>Reading the rows\<close>

lemma splitLines_line: "CHR 0x0A \<notin> set l \<Longrightarrow> splitLines acc (l @ CHR 0x0A # rest) = (rev acc @ l) # splitLines [] rest"
  by (induction l arbitrary: acc) auto

lemma splitLines_lines: "\<forall>l \<in> set ls. CHR 0x0A \<notin> set l \<Longrightarrow> splitLines [] (concat (map (\<lambda>l. l @ [CHR 0x0A]) ls)) = ls"
  by (induction ls) (simp_all add: splitLines_line)

lemma bytesStr_strBytes: "bytesStr (strBytes s) = s"
proof -
  have "char_of (unat (of_nat (of_char c) :: 8 word)) = c" for c
    using nat_of_char_less_256 [of c] by (simp add: unsigned_of_nat take_bit_nat_eq_self)
  then show ?thesis by (simp add: bytesStr_def strBytes_def map_idI)
qed

lemma demo_row_chars: "c \<in> set (demo_row i) \<Longrightarrow> c \<noteq> CHR 0x0A \<and> c \<noteq> CHR 0x0D \<and> \<not> isSpace c \<and> of_char c < (128 :: nat)"
proof -
  assume "c \<in> set (demo_row i)"
  then consider "c = CHR ''{''" | k :: nat where "k < 10" "c = char_of (48 + k)" using showNat_digits [of c i] by (auto simp: demo_row_def)
  then have "\<not> isSpace c \<and> of_char c < (128 :: nat)" using digit_facts(3,4) by cases (auto simp: isSpace_def)
  moreover have "isSpace (CHR 0x0A)" "isSpace (CHR 0x0D)" by (simp_all add: isSpace_def)
  ultimately show ?thesis by metis
qed

lemma demo_row_plain: "TrimSpace u (dropCR (demo_row i)) = demo_row i"
proof -
  have "last (demo_row i) \<noteq> CHR 0x0D" using demo_row_chars [OF last_in_set] by (metis demo_row_def list.discI)
  then have "dropCR (demo_row i) = demo_row i" by (simp add: dropCR_def)
  moreover have "TrimSpace u (demo_row i) = demo_row i" using demo_row_chars by (intro trim_plain) blast
  ultimately show ?thesis by simp
qed

lemma showNat_small: "i < 512 \<Longrightarrow> length (showNat i) \<le> 3"
  by (subst showNat.simps, subst showNat.simps, subst showNat.simps) simp

definition demo_target :: "nat \<Rightarrow> parsedTargetTx" where
  "demo_target i = \<lparr>ptDeclaredClass = demo_classes ! i, ptEvidenceClass = [], ptRaw = beFixed 2 i, ptTx = demo_target_tx i,
     ptSummary = summaryOf (demo_target_tx i) ''0xab'' (beFixed 2 i)\<rparr>"

lemma demo_raw:
  assumes "i < 512"
  shows "mp_decodeHexStrict (teMp demo_target_env) (hexEncode (beFixed 2 i)) = Inr (beFixed 2 i)"
proof -
  let ?h = "hexEncode (beFixed 2 i)"
  have ne: "?h \<noteq> []" by (simp add: hexEncode_def numeral_2_eq_2)
  have chars: "\<not> isSpace c \<and> of_char c < (128 :: nat)" if "c \<in> set ?h" for c using hexEncode_chars [OF that] by auto
  then have trim: "TrimSpace u ?h = ?h" for u by (rule trim_plain)
  have len: "length ?h = 4" by (simp add: hexEncode_def numeral_2_eq_2)
  have "take 2 ?h \<noteq> ''0x''"
  proof
    assume "take 2 ?h = ''0x''"
    then have "CHR ''x'' \<in> set ?h" by (metis in_set_takeD list.set_intros(1,2))
    then obtain n where "n < 16" "CHR ''x'' = hexDigit n" using hexEncode_chars by blast
    then show False by (auto simp: hexDigit_def split: if_splits dest!: arg_cong [where f = "of_char :: char \<Rightarrow> nat"])
  qed
  then have "TrimPrefix ?h ''0x'' = ?h" by (simp add: TrimPrefix_def numeral_2_eq_2)
  then show ?thesis using ne len by (simp add: mp_decodeHexStrict_def trim)
qed

lemma demo_line:
  assumes "i < 512"
  shows "parseCorpusLine demo_target_env (demo_row i) = Inr (demo_target i)"
proof -
  have "beNat (beFixed 2 i) = i" using assms by (simp add: beNat_beFixed)
  then show ?thesis
    using demo_raw [OF assms]
    by (simp add: parseCorpusLine_def demo_row_def parseTargetRawTx_def demo_target_def)
      (simp add: demo_target_env_def demo_target_tx_def)
qed

lemma demo_scan: "set is \<subseteq> {..<512} \<Longrightarrow> scanTargets demo_target_env (map demo_row is) = Inr (map demo_target is)"
proof (induction "is")
  case (Cons i "is")
  then have "length (demo_row i) < maxLineBytes" using showNat_small [of i] by (simp add: demo_row_def maxLineBytes_def)
  then show ?case using Cons demo_line [of i] by (simp add: demo_row_plain) (simp add: demo_row_def)
qed simp

section \<open>The workload\<close>

lemma estimate_zeros: "estimateCarrierGas (replicate k 0) = 21000 + 10 * of_nat k"
proof -
  have "fold (\<lambda>v tokens. if v = 0 then tokens + 1 else tokens + 4) (replicate k (0 :: 8 word)) (a :: 64 word) = a + of_nat k" for a
    by (induction k arbitrary: a) (simp_all add: algebra_simps)
  then show ?thesis by (simp add: estimateCarrierGas_def)
qed

lemma demo_hash_inj: "i < 512 \<Longrightarrow> j < 512 \<Longrightarrow> etHash (demo_target_tx i) = etHash (demo_target_tx j) \<Longrightarrow> i = j"
proof -
  assume "etHash (demo_target_tx i) = etHash (demo_target_tx j)"
  then have "hexEncode (beFixed 32 i) = hexEncode (beFixed 32 j)" by (simp add: demo_target_tx_def)
  then have eq: "beFixed 32 i = beFixed 32 j" by (metis hexDecode_encode option.inject)
  assume "i < 512" "j < 512"
  then have "beNat (beFixed 32 i) = i" "beNat (beFixed 32 j) = j" by (simp_all add: beNat_beFixed)
  then show "i = j" using eq by metis
qed

abbreviation demo_by_class :: "(corpusClass, corpusClassSpec) gomap" where
  "demo_by_class \<equiv> fold (\<lambda>s. AList.update (csName s) s) protocolWorkloadClasses []"

abbreviation demo_by_length :: "(nat, corpusClassSpec) gomap" where
  "demo_by_length \<equiv> fold (\<lambda>s. AList.update (csCalldataBytes s) s) protocolWorkloadClasses []"

lemma demo_classes_set: "set demo_classes \<subseteq> {corpusClassTransfer, corpusClass128, corpusClass256, corpusClass1024, corpusClass4096}"
  by (simp add: demo_classes_def)

lemma demo_row_ok:
  assumes "i < 512" "etHash (demo_target_tx i) \<notin> set hashes"
  shows "checkRow demo_by_class demo_by_length hashes row (demo_target i) = Inr (demo_classes ! i)"
proof -
  have "demo_classes ! i \<in> set demo_classes" using assms(1) demo_classes_length by simp
  then have "demo_classes ! i \<in> {corpusClassTransfer, corpusClass128, corpusClass256, corpusClass1024, corpusClass4096}"
    using demo_classes_set by (rule set_mp [rotated])
  then show ?thesis
    using assms(2)
    by (auto simp: checkRow_def demo_target_def summaryOf_def protocolWorkloadClasses_def evidenceCorpusChainID_def estimate_zeros
        demo_target_tx_def demo_size_def class_names Let_def)
qed

definition demo_checked :: "nat \<Rightarrow> parsedTargetTx" where
  "demo_checked i = (demo_target i)\<lparr>ptEvidenceClass := demo_classes ! i\<rparr>"

definition tally :: "nat list \<Rightarrow> (corpusClass, nat) gomap \<Rightarrow> (corpusClass, nat) gomap" where
  "tally is counts = fold (\<lambda>i counts. AList.update (demo_classes ! i) (countClass counts (demo_classes ! i) + 1) counts) is counts"

lemma demo_rows:
  assumes "set is \<subseteq> {..<512}" "distinct is" "set hashes \<inter> (\<lambda>i. etHash (demo_target_tx i)) ` set is = {}"
  shows "checkRows demo_by_class demo_by_length (map demo_target is) row hashes counts = Inr (map demo_checked is, tally is counts)"
  using assms
proof (induction "is" arbitrary: row hashes counts)
  case (Cons i "is")
  have "tsHash (ptSummary (demo_target i)) = etHash (demo_target_tx i)" by (simp add: demo_target_def summaryOf_def)
  moreover have "etHash (demo_target_tx i) \<notin> (\<lambda>i. etHash (demo_target_tx i)) ` set is" using Cons.prems demo_hash_inj by auto
  ultimately show ?case
    using Cons.IH [of "etHash (demo_target_tx i) # hashes" "Suc row"] Cons.prems demo_row_ok [of i hashes row]
    by (simp add: demo_checked_def tally_def)
qed (simp add: tally_def)

lemma countClass_update: "countClass (AList.update d v counts) c = (if c = d then v else countClass counts c)"
  by (simp add: countClass_def map_of_update)

lemma countClass_nil: "countClass [] c = 0"
  by (simp add: countClass_def)

lemma tally_counts: "countClass (tally is counts) c = countClass counts c + length (filter (\<lambda>d. d = c) (map ((!) demo_classes) is))"
  unfolding tally_def by (induction "is" arbitrary: counts) (simp_all add: countClass_update)

lemma demo_prefix: "k \<le> 512 \<Longrightarrow> countClass (tally [0..<k] []) c = length (filter (\<lambda>d. d = c) (take k demo_classes))"
proof -
  assume "k \<le> 512"
  then have "map ((!) demo_classes) [0..<k] = take k demo_classes" using demo_classes_length by (auto intro!: nth_equalityI)
  then show ?thesis by (simp add: tally_counts countClass_nil)
qed

lemma demo_class_tally: "classCounts (map demo_checked is) = tally is []"
proof -
  have "fold (\<lambda>t counts. AList.update (ptEvidenceClass t) (countClass counts (ptEvidenceClass t) + 1) counts) (map demo_checked is) counts = tally is counts" for counts
    unfolding tally_def by (induction "is" arbitrary: counts) (simp_all add: demo_checked_def)
  then show ?thesis by (simp add: classCounts_def)
qed

definition demo_corpus_file :: bytes where
  "demo_corpus_file = strBytes (concat (map (\<lambda>l. l @ [CHR 0x0A]) (map demo_row [0..<512])))"

lemma demo_workload:
  assumes "map_of fs ''rows'' = Some demo_corpus_file"
  shows "readProtocolWorkloadCorpus demo_target_env fs ''rows'' = Inr (map demo_checked [0..<512])"
proof -
  have lines: "splitLines [] (bytesStr demo_corpus_file) = map demo_row [0..<512]"
    unfolding demo_corpus_file_def bytesStr_strBytes by (rule splitLines_lines) (use demo_row_chars in auto)
  have "TrimSpace u ''rows'' \<noteq> []" for u by (simp add: TrimSpace_def is_ascii_def isSpace_def)
  then have "readTargetCorpus demo_target_env fs ''rows'' = Inr (map demo_target [0..<512])"
    using assms demo_scan [of "[0..<512]"] by (simp add: readTargetCorpus_def lines atLeast0LessThan del: upt_rec_numeral)
  moreover have "sum_list (map csRows protocolWorkloadClasses) = 512" by (simp add: protocolWorkloadClasses_def)
  moreover have "checkRows demo_by_class demo_by_length (map demo_target [0..<512]) 1 [] [] = Inr (map demo_checked [0..<512], tally [0..<512] [])"
    by (rule demo_rows) auto
  moreover have "each (\<lambda>s. ensure (countClass (tally [0..<512] []) (csName s) = csRows s) (ClassDistribution (csName s))) protocolWorkloadClasses = Inr [(), (), (), (), ()]"
    unfolding demo_prefix [OF order.refl] demo_class_counts(4) by (simp add: protocolWorkloadClasses_def countClass_def class_names)
  ultimately have strict: "readStrictCorpus demo_target_env fs ''rows'' protocolWorkloadClasses = Inr (map demo_checked [0..<512])"
    by (simp add: readStrictCorpus_def Let_def del: upt_rec_numeral)
  define targets where "targets = map demo_checked [0..<512]"
  have take: "take k targets = map demo_checked [0..<k]" if "k \<le> 512" for k
    using that by (simp add: targets_def take_map take_upt del: upt_rec_numeral)
  have counts: "countClass (classCounts (take k targets)) c = length (filter (\<lambda>d. d = c) (take k demo_classes))" if "k \<le> 512" for k c
    unfolding take [OF that] demo_class_tally by (rule demo_prefix [OF that])
  have "each (\<lambda>(size, wants). each (\<lambda>(class, want). ensure (countClass (classCounts (take size targets)) class = want) (PrefixDistribution size class)) wants)
      protocolWorkloadPrefixes = Inr (replicate 4 (replicate 5 ()))"
    unfolding protocolWorkloadPrefixes_def
    by (simp add: counts demo_class_counts) (simp add: countClass_def class_names numeral_nat)
  then show ?thesis using strict unfolding targets_def by (simp add: readProtocolWorkloadCorpus_def del: upt_rec_numeral)
qed

section \<open>A cluster of one operator\<close>

definition demo_files :: "(string, bytes) gomap" where
  "demo_files = [(''rows'', demo_corpus_file), (''cluster'', [1]), (''crs'', demo_crs), (''key'', [2])]"

definition demo_random :: "rat tx_randomness" where
  "demo_random = \<lparr>trSecret = 3, trK = 2, trU = 5, trUN = 7, trKN = 11, trNonce = replicate 12 9\<rparr>"

definition demo_key_cluster :: "(rat, rat, rat, rat) ClusterBTE" where
  "demo_key_cluster = (case NewBTDFromPublicCRS demo_boot_suite defaultSuiteID 1 demo_crs of Inr btd \<Rightarrow>
     (case NewClusterBTEFromShares demo_hybrid btd 13 [Some (0, Some 3)] 1 1 of Inr c \<Rightarrow> c))"

lemma demo_crs_read: "NewBTDFromPublicCRS demo_boot_suite defaultSuiteID 1 demo_crs = Inr \<lparr>btdSuite = demo_boot_suite,
   btdPRF = \<lparr>prfXi = [], prfZi = [], prfG2zi = [1], prfGTzi = [1], prfG1xi = [13], prfG2zixj = [((0, 0), 1)], prfB = 1\<rparr>, btdEG = newElGamal, btdB = 1, btdT = 0, btdN = 0\<rparr>"
proof -
  have magic: "readN (length publicCRSMagic) (publicCRSMagic @ rest) = Inr (publicCRSMagic, rest)" for rest by (simp add: readN_def)
  have num: "readUint32 (beFixed 4 k @ rest) = Inr (k, rest)" if "k < 256 ^ 4" for k rest
    using that by (simp add: readUint32_def readN_def beNat_beFixed)
  have sid: "readCRSBytes (beFixed 4 (length (strBytes defaultSuiteID)) @ strBytes defaultSuiteID @ rest) = Inr (strBytes defaultSuiteID, rest)" for rest
    by (rule readCRSBytes_write) (simp add: maxCRSPointBytes_def defaultSuiteID_def strBytes_def)
  have pt: "readCRSBytes (beFixed 4 (Suc 0) @ x # rest) = Inr ([x], rest)" for x :: byte and rest
    using readCRSBytes_write [of "[x]" rest] by (simp add: maxCRSPointBytes_def)
  show ?thesis
    by (simp add: NewBTDFromPublicCRS_def PRFSetupFromPublic_def demo_crs_def magic sid num readCRSPoint_def pt publicCRSVersion_def
        demo_boot_suite_def Let_def) (simp add: demo_suite_def putAll_def)
qed

lemma demo_boot_suite_ops: 
  "g1Mul demo_boot_suite = (*)" "gtMul demo_boot_suite = (*)" "g1Base demo_boot_suite = 1" "g2Base demo_boot_suite = 1" "suPair demo_boot_suite = (*)"
  "g1Marshal demo_boot_suite p = Some []" "gtMarshal demo_boot_suite z = Some []" "scMarshal demo_boot_suite s = Some []"
  "scSetBytes demo_boot_suite = (\<lambda>bs. of_nat (length bs))" "suHash demo_boot_suite = take 4" "suSha256 demo_boot_suite = take 4"
  "shRecoverCommit demo_boot_suite shares t n = map_option snd (if shares = [] then None else Some (hd shares))"
  by (simp_all add: demo_boot_suite_def demo_suite_def)

lemma demo_key_cluster_val: "demo_key_cluster = \<lparr>clVersion = LibraryVersion, clSuiteID = defaultSuiteID, clBMax = 1, clN = 1, clPK = 13, clShares = [(0, 0, 3)],
  clBtd = \<lparr>btdSuite = demo_boot_suite, btdPRF = \<lparr>prfXi = [], prfZi = [], prfG2zi = [1], prfGTzi = [1], prfG1xi = [13], prfG2zixj = [((0, 0), 1)], prfB = 1\<rparr>,
    btdEG = newElGamal\<lparr>egPK := 13\<rparr>, btdB = 1, btdT = 1, btdN = 1\<rparr>, clHybrid = demo_hybrid\<rparr>"
  by (simp add: demo_key_cluster_def demo_crs_read NewClusterBTEFromShares_def NewClusterBTE_def withPK_def)

definition demo_seal :: "bytes \<Rightarrow> (rat, rat, rat) Ciphertext" where
  "demo_seal raw = \<lparr>cxCapsule = \<lparr>ctI = 0, ctGamma = 5, ctKp = 26, ctC = \<lparr>egA = 5, egB = 67\<rparr>,
     ctPi = \<lparr>piAp = 7, piBp = 102, piYp = 143, piKHat = 19, piUHat = 27\<rparr>\<rparr>, cxEncryptedTx = replicate 12 9 @ raw @ replicate 16 0\<rparr>"

lemma demo_encrypt: "EncryptTx demo_key_cluster raw 0 demo_random = Inr (demo_seal raw)"
  by (simp add: EncryptTx_def demo_key_cluster_val demo_random_def Let_def PickGT_def GTBase_def BTD_Enc_def Puncture_def prf_Eval_def SHash_def digestCapsule_def CT_MarshalBinary_def aeadFromGT_def
     demo_boot_suite_ops eg_Enc_def demo_hybrid_def newElGamal_def writeBytes_def strBytes_def demo_seal_def)

definition demo_plan :: "bytes \<Rightarrow> (rat, rat, rat) BatchPlan" where
  "demo_plan raw = \<lparr>bpBatchID = [98, 108, 111, 99], bpAlpha = 1, bpSubBatches = [[\<lparr>biOriginalPosition = 0, biCiphertext = demo_seal raw\<rparr>]]\<rparr>"

lemma demo_planned: "PlanBatch demo_key_cluster [demo_seal raw] = Inr (demo_plan raw)"
  by (simp add: PlanBatch_def arrangeBatch_def demo_key_cluster_val validateCiphertext_def validateAEADPayloadShape_def aeadNonceSize_def aeadTagSize_def computeBatchID_def
   Ciphertext_MarshalBinary_def CT_MarshalBinary_def demo_boot_suite_ops Let_def alphaOf_def ceilTwoSqrtFrom.simps countIndex_def itemsOf_def roundRobin_def validateSubBatchIndices_def
   computeBatchIDFromEncoded_def batchIDDomain_def strBytes_def demo_plan_def demo_seal_def)

lemma demo_verified: "VerifyCT (clBtd demo_key_cluster) (cxCapsule (demo_seal raw)) = Inr True"
  by (simp add: VerifyCT_def SHash_def demo_key_cluster_val demo_seal_def Let_def demo_boot_suite_ops strBytes_def newElGamal_def)

abbreviation demo_item :: "bytes \<Rightarrow> (rat, rat, rat) BatchItem" where
  "demo_item raw \<equiv> \<lparr>biOriginalPosition = 0, biCiphertext = demo_seal raw\<rparr>"

lemma demo_sum: "SumEGCt (clBtd demo_key_cluster) [cxCapsule (demo_seal raw)] True = Inr \<lparr>egA = 5, egB = 67\<rparr>"
  by (simp add: SumEGCt_def demo_verified) (simp add: demo_seal_def AddCT_def NullEGct_def)

lemma demo_share: "selfShares demo_key_cluster (demo_plan raw) = Inr [\<lparr>dsOperatorID = 0, dsBatchID = [98, 108, 111, 99], dsSubBatchID = 0, dsShare = Some (0, Some 15)\<rparr>]"
proof -
  have "btdB (clBtd demo_key_cluster) = 1" "btdSuite (clBtd demo_key_cluster) = demo_boot_suite" "clShares demo_key_cluster = [(0, 0, 3)]" by (simp_all add: demo_key_cluster_val)
  then show ?thesis using demo_sum [of raw] by (simp add: selfShares_def MakeShare_def demo_plan_def capsulesFromItems_def BatchDecWithShare_def PDecWithShare_def demo_boot_suite_ops)
qed

lemma demo_opened: "BatchCombineMessages (clBtd demo_key_cluster) [cxCapsule (demo_seal raw)] [(0, 15)] True = Some (Inr [-47], 1)"
proof -
  have b: "btdB (clBtd demo_key_cluster) = 1" "btdSuite (clBtd demo_key_cluster) = demo_boot_suite" "ctI (cxCapsule (demo_seal raw)) = 0" "ctGamma (cxCapsule (demo_seal raw)) = 5"
    "prfB (btdPRF (clBtd demo_key_cluster)) = 1" "prfG2zi (btdPRF (clBtd demo_key_cluster)) = [1]" by (simp_all add: demo_key_cluster_val demo_seal_def)
  show ?thesis using demo_sum [of raw] b by (simp add: BatchCombineMessages_def eg_Combine_def demo_boot_suite_ops ExpEval_def)
qed

lemma demo_decrypts: "decryptTx demo_boot_suite demo_hybrid z (demo_seal raw) = Inr raw"
  by (simp add: decryptTx_def demo_seal_def validateAEADPayloadShape_def aeadNonceSize_def aeadTagSize_def digestCapsule_def CT_MarshalBinary_def demo_boot_suite_ops aeadFromGT_def demo_hybrid_def Let_def)

lemma demo_subbatch: "combineSubBatch demo_key_cluster [demo_item raw] [(0, 15)] 256 = Some (Inr [\<lparr>ppPosition = 0, ppResult = Inr raw\<rparr>], 1)"
proof -
  have "btdT (clBtd demo_key_cluster) = 1" "btdSuite (clBtd demo_key_cluster) = demo_boot_suite" "clHybrid demo_key_cluster = demo_hybrid" by (simp_all add: demo_key_cluster_val)
  then show ?thesis using demo_opened [of raw] by (simp add: combineSubBatch_def forEachShareCombination_def combineAttempt_def capsulesFromItems_def plaintextResultsFromMessages_def demo_decrypts)
qed

lemma demo_combined: "CombineShares demo_key_cluster (demo_plan raw) [\<lparr>dsOperatorID = 0, dsBatchID = [98, 108, 111, 99], dsSubBatchID = 0, dsShare = Some (0, Some 15)\<rparr>] =
  Some (Inr [Some (Inr raw)])"
proof -
  have "btdT (clBtd demo_key_cluster) = 1" "btdN (clBtd demo_key_cluster) = 1"  by (simp_all add: demo_key_cluster_val)
  then show ?thesis using demo_subbatch [of raw] by (simp add: CombineShares_def CombineSharesBounded_def demo_plan_def defaultMaxCombineAttemptsPerSubBatch_def planSize_def sharesOf_def placeResults_def)
qed

lemma demo_self_check: "selfCheckEncryptedCorpus demo_key_cluster [demo_seal (ptRaw t)] [t] = Some (Inr ())"
  by (simp add: selfCheckEncryptedCorpus_def demo_planned demo_share demo_combined resultMatches_def)

section \<open>The candidate\<close>

definition demo_encoded :: bytes where
  "demo_encoded = (case Ciphertext_MarshalBinary demo_boot_suite (demo_seal (beFixed 2 0)) of Inr e \<Rightarrow> e | Inl _ \<Rightarrow> [])"

lemma demo_ciphertext_marshals: "Ciphertext_MarshalBinary demo_boot_suite (demo_seal (beFixed 2 0)) = Inr demo_encoded"
    "take (length (strBytes LibraryVersion)) demo_encoded = strBytes LibraryVersion" "demo_encoded \<noteq> []"
proof -
  obtain rest where "Ciphertext_MarshalBinary demo_boot_suite (demo_seal (beFixed 2 0)) = Inr (strBytes LibraryVersion @ rest)"
    by (simp add: Ciphertext_MarshalBinary_def CT_MarshalBinary_def demo_boot_suite_ops Let_def)
  then show "Ciphertext_MarshalBinary demo_boot_suite (demo_seal (beFixed 2 0)) = Inr demo_encoded"
    "take (length (strBytes LibraryVersion)) demo_encoded = strBytes LibraryVersion" "demo_encoded \<noteq> []"
    by (simp_all add: demo_encoded_def LibraryVersion_def strBytes_def)
qed

lemma demo_key: "mockPlaceholderPrivateKey demo_target_env i = Inr (replicate 32 0)"
  by (simp add: mockPlaceholderPrivateKey_def upt_conv_Cons placeholderSeed_def demo_target_env_def)

definition demo_carrier :: Transaction where
  "demo_carrier = (case buildMockPlaceholderFromCiphertext demo_target_env (demo_checked 0) 0 demo_encoded of Inr t \<Rightarrow> t)"

lemma demo_target_0: "ptRaw (demo_checked 0) = beFixed 2 0" "tsHash (ptSummary (demo_checked 0)) = ''0x'' @ hexEncode (beFixed 32 0)"
  "tsGas (ptSummary (demo_checked 0)) = 100000"
  by (simp_all add: demo_checked_def demo_target_def summaryOf_def demo_target_tx_def)

lemma demo_wrapped: "buildMockPlaceholderFromCiphertext demo_target_env (demo_checked 0) 0 demo_encoded = Inr demo_carrier"
  "txHash demo_carrier = ''0xcc''" "txGas demo_carrier = 100000" "txKind demo_carrier = TxKindPlaceholder"
  "txTargetTxHash demo_carrier = ''0x'' @ hexEncode (beFixed 32 0)" "txEncryptedPayloadHex demo_carrier = ''0x'' @ hexEncode demo_encoded"
proof -
  let ?E = "teMp demo_target_env" and ?h = "''0x'' @ hexEncode (beFixed 32 0)"
  have hash: "mpHexToHash ?E ?h = beFixed 32 0" by (simp add: demo_target_env_def)
  then have "length (mpHexToHash ?E ?h) = 32" by simp
  note parse = placeholder_roundtrip [OF this, of 100000 demo_encoded, unfolded hash]
  obtain s where s: "signMockPlaceholderTx demo_target_env 0 d f = Inr ([1, 2, 3], s)" "tsHash s = ''0xcc''" for d f
    by (auto simp: signMockPlaceholderTx_def demo_key Let_def summarizeSignedTx_def summaryOf_def) (auto simp: demo_target_env_def demo_carrier_tx_def)
  show "buildMockPlaceholderFromCiphertext demo_target_env (demo_checked 0) 0 demo_encoded = Inr demo_carrier"
  "txHash demo_carrier = ''0xcc''" "txGas demo_carrier = 100000" "txKind demo_carrier = TxKindPlaceholder"
  "txTargetTxHash demo_carrier = ''0x'' @ hexEncode (beFixed 32 0)" "txEncryptedPayloadHex demo_carrier = ''0x'' @ hexEncode demo_encoded"
    using parse demo_ciphertext_marshals(3) s unfolding demo_carrier_def
    by (simp_all add: buildMockPlaceholderFromCiphertext_def demo_target_0 Let_def ClassifyAndParse_def carrierItem_def)
qed

definition demo_candidate :: EncryptedCorpusCandidate where
  "demo_candidate = \<lparr>ccPosition = 0, ccIndex = 0, ccClass = corpusClassTransfer, ccTargetTxHash = ''0x'' @ hexEncode (beFixed 32 0), ccTargetTxSizeBytes = 2,
     ccCiphertextHex = ''0x'' @ hexEncode demo_encoded, ccCiphertextSHA256 = replicate 64 (CHR ''0''),
     ccEffectiveFeePerGasWei = showInt (EffectiveFeePerGas demo_carrier), ccTransaction = demo_carrier\<rparr>"

lemma demo_hash: "hexEncode (mpSha256 (teMp demo_target_env) x) = replicate 64 (CHR ''0'')" "mp_hashHex (teMp demo_target_env) x = replicate 64 (CHR ''0'')"
proof -
  have "hexEncode (replicate 32 0) = replicate 64 (CHR ''0'')" by code_simp
  then show "hexEncode (mpSha256 (teMp demo_target_env) x) = replicate 64 (CHR ''0'')" "mp_hashHex (teMp demo_target_env) x = replicate 64 (CHR ''0'')"
    by (simp_all add: mp_hashHex_def demo_target_env_def)
qed

lemma demo_entry: "encryptCandidate demo_target_env demo_key_cluster 1 (\<lambda>_. demo_random) (0, demo_checked 0) = Inr (demo_candidate, demo_seal (beFixed 2 0))"
proof -
  have "ptEvidenceClass (demo_checked 0) = corpusClassTransfer" "tsSizeBytes (ptSummary (demo_checked 0)) = 2"
    by (simp_all add: demo_checked_def demo_classes_def demo_target_def summaryOf_def numeral_2_eq_2)
  moreover have "btdSuite (clBtd demo_key_cluster) = demo_boot_suite" by (simp add: demo_key_cluster_val)
  ultimately show ?thesis
    by (simp add: encryptCandidate_def demo_target_0 demo_encrypt demo_ciphertext_marshals demo_wrapped(1) demo_hash Let_def demo_candidate_def)
qed

lemma demo_ciphertext_hex: "mp_decodeHexStrict E (''0x'' @ hexEncode demo_encoded) = Inr demo_encoded"
proof -
  have ne: "hexEncode demo_encoded \<noteq> []" using demo_ciphertext_marshals(3) by (rule hexEncode_nonempty)
  have "\<not> isSpace c \<and> of_char c < (128 :: nat)" if "c \<in> set (hexEncode demo_encoded)" for c using hexEncode_chars [OF that] by auto
  then have trim: "TrimSpace u (hexEncode demo_encoded) = hexEncode demo_encoded" for u by (rule trim_plain) 
  have "even (length (hexEncode bs))" for bs by (induction bs) (simp_all add: hexEncode_def)
  then show ?thesis using ne by (simp add: mp_decodeHexStrict_def TrimPrefix_def trim)
qed

lemma demo_candidate_valid: "validateCandidate (teMp demo_target_env) 1 [0] 0 demo_candidate = Inr ()"
  using demo_ciphertext_hex [of "teMp demo_target_env"] demo_ciphertext_marshals(2) demo_wrapped(5,6) by (simp add: validateCandidate_def demo_candidate_def demo_hash)

section \<open>The campaign\<close>

lemma demo_read_cluster: "readReplayCluster demo_target_env demo_files ''cluster'' = Inr (demo_replay_cluster\<lparr>rcCRSBytes := demo_crs\<rparr>)"
proof -
  have "TrimSpace u ''cluster'' = ''cluster''" "TrimSpace u (replicate 64 (CHR ''0'')) = replicate 64 (CHR ''0'')" for u
    by (rule trim_plain; auto simp: isSpace_def)+
  then show ?thesis by (simp add: readReplayCluster_def demo_files_def demo_hash) (simp add: demo_target_env_def demo_replay_cluster_def)
qed

definition demo_options :: EncryptedCorpusOptions where
  "demo_options = \<lparr>eoPlaintextPath = ''rows'', eoClusterConfigPath = ''cluster'', eoCampaignIdentityPath = [], eoSecretPaths = [''key''], eoLimit = 1, eoOutputPath = ''out''\<rparr>"

definition demo_public :: string where
  "demo_public = (case PublicConfigID demo_merge_env demo_boot_suite 1 (replicate 64 (CHR ''0'')) 13 of Inr i \<Rightarrow> i)"

lemma demo_public: "PublicConfigID demo_merge_env demo_boot_suite 1 (replicate 64 (CHR ''0'')) 13 = Inr demo_public" "demo_public \<noteq> []"
proof -
  have "take 4 (be64 k @ r) \<noteq> []" for k r
  proof -
    have "length (take 4 (be64 k @ r)) = 4" by simp
    then show ?thesis by (metis list.size(3) zero_neq_numeral)
  qed
  then show "PublicConfigID demo_merge_env demo_boot_suite 1 (replicate 64 (CHR ''0'')) 13 = Inr demo_public" "demo_public \<noteq> []"
    by (simp_all add: demo_public_def PublicConfigID_def Let_def zero_digest demo_boot_suite_ops hexEncode_nonempty writePublicConfigField_def)
qed

definition demo_manifest :: EncryptedCorpusManifest where
  "demo_manifest = corpusManifest (teMp demo_target_env) demo_public 1 1 (map demo_checked [0..<512]) [demo_candidate]"

text \<open>The codec knows one manifest; every other file is a key file.\<close>

definition demo_corpus_env :: corpus_env where
  "demo_corpus_env = \<lparr>cvTarget = demo_target_env, cvMerge = demo_merge_env, cvManifest = (\<lambda>data. Some (jsonManifest demo_manifest)),
     cvProvenance = (\<lambda>data. Some (provenanceOf demo_manifest)), cvIdentity = (\<lambda>data. None),
     cvSecret = (\<lambda>data. Some \<lparr>esVersion = ''bloc-node-secret-v1'', esClusterID = ''c'', esOperatorID = 0, esBTEShareScalarHex = ''03'', esP2PPrivateKeyHex = []\<rparr>),
     cvTrailing = (\<lambda>data. AtEOF), cvEncode = (\<lambda>m. if m = demo_manifest then Some [9] else None), cvStatFails = (\<lambda>p. False),
     cvTemp = (\<lambda>p. Some ''tmp''), cvSync = (\<lambda>p. True), cvClose = (\<lambda>p. True), cvRename = (\<lambda>p. True)\<rparr>"

lemma demo_env_fields [simp]: "cvTarget demo_corpus_env = demo_target_env" "cvMerge demo_corpus_env = demo_merge_env"
  by (simp_all add: demo_corpus_env_def)

lemma demo_key_read: "newReplayClusterWithSecrets demo_corpus_env demo_hybrid demo_boot_suite demo_files (demo_replay_cluster\<lparr>rcCRSBytes := demo_crs\<rparr>) [''key''] = Inr demo_key_cluster"
proof -
  have "hexDecode (TrimPrefix ''03'' ''0x'') = Some [3]" "hexDecode (TrimPrefix ''0d'' ''0x'') = Some [13]" by code_simp+
  moreover have "scUnmarshal demo_boot_suite b = Some 3" "g1Unmarshal demo_boot_suite b = Some 13" for b by (simp_all add: demo_boot_suite_def)
  ultimately show ?thesis using demo_key_cluster_val
    by (simp add: newReplayClusterWithSecrets_def demo_replay_cluster_def demo_crs_read demo_files_def demo_corpus_env_def NewClusterBTEFromShares_def NewClusterBTE_def withPK_def)
qed

lemma demo_manifest_valid: "validateEncryptedCorpusManifest (teMp demo_target_env) demo_manifest = Inr ()"
  using demo_candidate_valid demo_public(2)
  by (simp add: validateEncryptedCorpusManifest_def demo_manifest_def corpusManifest_def prefixesUpTo_def protocolWorkloadPrefixes_def plaintextSetID_def
    encryptedCandidateSetID_def demo_hash Let_def demo_candidate_def del: upt_rec_numeral)

lemma demo_generated: "GenerateEncryptedCorpus demo_corpus_env demo_hybrid demo_boot_suite (\<lambda>_. demo_random) demo_options demo_files =
   Some (Inr demo_manifest, AList.update ''out'' [9] demo_files)"
proof -
  have trim: "TrimSpace u ''cluster'' = ''cluster''" "TrimSpace u ''out'' = ''out''" "TrimSpace u [] = []" for u
    by (rule trim_plain; auto simp: isSpace_def)+
  have "map_of demo_files ''rows'' = Some demo_corpus_file" by (simp add: demo_files_def)
  note work = demo_workload [OF this]
  have absent: "requireAbsent demo_corpus_env ''out'' demo_files = Inr ()" by (simp add: requireAbsent_def demo_files_def demo_corpus_env_def has_key_def)
  have conf: "readEncryptedCorpusPublicConfig demo_corpus_env demo_files demo_options = Inr (demo_replay_cluster\<lparr>rcCRSBytes := demo_crs\<rparr>)"
    by (simp add: readEncryptedCorpusPublicConfig_def demo_options_def trim demo_read_cluster liftSource_def)
  have cl: "rcBMax demo_replay_cluster = 1" "rcCRSSHA256 demo_replay_cluster = replicate 64 (CHR ''0'')" "clPK demo_key_cluster = 13"
    by (simp_all add: demo_replay_cluster_def demo_key_cluster_val)
  define targets where "targets = map demo_checked [0..<512]"
  have first: "take 1 targets = [demo_checked 0]" "length targets = 512" by (simp_all add: targets_def upt_conv_Cons)
  have "corpusParts demo_corpus_env demo_hybrid demo_boot_suite (\<lambda>_. demo_random) demo_options demo_files =
    Inr \<lparr>cpCluster = demo_key_cluster, cpPublicID = demo_public, cpBMaxOf = 1, cpTargets = targets, cpEncrypted = [(demo_candidate, demo_seal (beFixed 2 0))]\<rparr>"
    using work first conf absent demo_key_read demo_public(1) demo_entry cl
    by (simp add: corpusParts_def demo_options_def trim liftSource_def flip: targets_def)
  moreover have m: "corpusManifest (teMp demo_target_env) demo_public 1 1 targets [demo_candidate] = demo_manifest" by (simp only: demo_manifest_def targets_def)
  moreover have "writeEncryptedCorpusAtomic demo_corpus_env ''out'' demo_manifest demo_files = (Inr (), AList.update ''out'' [9] demo_files)"
    using absent by (simp add: writeEncryptedCorpusAtomic_def) (simp add: demo_corpus_env_def)
  moreover have "eoLimit demo_options = 1" "eoOutputPath demo_options = ''out''" by (simp_all add: demo_options_def)
  ultimately show ?thesis
    using demo_self_check [of "demo_checked 0"] first(1) demo_manifest_valid by (simp add: GenerateEncryptedCorpus_def demo_target_0 Let_def)
qed

theorem corpus_generated_witness:
  "GenerateEncryptedCorpus demo_corpus_env demo_hybrid demo_boot_suite (\<lambda>_. demo_random) demo_options demo_files =
     Some (Inr demo_manifest, AList.update ''out'' [9] demo_files) \<and>
   LoadEncryptedCorpus demo_corpus_env (AList.update ''out'' [9] demo_files) ''out'' = Inr demo_manifest"
proof -
  have "cvEncode demo_corpus_env demo_manifest = Some data \<Longrightarrow> cvManifest demo_corpus_env data = Some (jsonManifest demo_manifest) \<and>
      cvTrailing demo_corpus_env data = AtEOF \<and> cvProvenance demo_corpus_env data = Some (provenanceOf demo_manifest)" for data
    by (simp add: demo_corpus_env_def)
  moreover have "prices_ok (cvTarget demo_corpus_env)"
    by (auto simp: prices_ok_def demo_target_env_def demo_target_tx_def demo_carrier_tx_def)
  moreover have "mpSha256 (teMp (cvTarget demo_corpus_env)) x \<noteq> []" for x by (simp add: demo_target_env_def)
  moreover have "eoOutputPath demo_options = ''out''" by (simp add: demo_options_def)
  ultimately show ?thesis using corpus_generated [OF demo_generated] demo_generated by simp
qed

section \<open>A served corpus\<close>

definition demo_small_manifest :: EncryptedCorpusManifest where
  "demo_small_manifest = demo_manifest\<lparr>emPlaintextPrefixSetIDs := [(''1'', ''aa'')], emEncryptedPrefixSetIDs := [(''1'', replicate 64 (CHR ''0''))]\<rparr>"

definition demo_served_env :: corpus_env where
  "demo_served_env = demo_corpus_env\<lparr>cvManifest := (\<lambda>data. Some demo_small_manifest)\<rparr>"

definition demo_builder :: BuilderConfig where
  "demo_builder = \<lparr>MaxTransactions = 10, MaxGas = 1000000\<rparr>"

lemma demo_small_loads: "LoadEncryptedCorpus demo_served_env [(''out'', [9])] ''out'' = Inr demo_small_manifest"
proof -
  have "Atoi ''1'' = Some 1" by code_simp
  then have "validateEncryptedCorpusManifest (teMp demo_target_env) demo_small_manifest = Inr ()"
    using demo_manifest_valid demo_candidate_valid
    by (simp add: validateEncryptedCorpusManifest_def demo_small_manifest_def demo_manifest_def corpusManifest_def validatePrefix_def Let_def encryptedCandidateSetID_def demo_hash)
  moreover have "restoreFee (0, demo_candidate) = Inr demo_candidate"
  proof -
    have "prices_ok demo_target_env" by (auto simp: prices_ok_def demo_target_env_def demo_target_tx_def demo_carrier_tx_def)
    then have "priced demo_carrier" by (rule placeholder_priced [OF demo_wrapped(1)])
    then show ?thesis by (auto simp: priced_def restoreFee_def demo_candidate_def EffectiveFeePerGas_def SetString10_showInt)
  qed
  ultimately show ?thesis
    by (simp add: LoadEncryptedCorpus_def demo_served_env_def checkTrailing_def demo_small_manifest_def demo_manifest_def corpusManifest_def) (simp add: demo_corpus_env_def)
qed


definition demo_served_reply :: server_reply where
  "demo_served_reply = handleInclusionList (teMp demo_target_env) (NewServerWithSlotSource NewStore demo_builder demo_small_manifest) (showNat 7) (showInt 1)"

definition demo_sidecar :: provider_env where
  "demo_sidecar = \<lparr>peGet = (\<lambda>u. Some (statusOf demo_served_reply, [7])), peJson = (\<lambda>b. case demo_served_reply of PageReply r \<Rightarrow> Some (jsonReply r) | _ \<Rightarrow> None)\<rparr>"

definition demo_served_config :: ConfigFile where
  "demo_served_config = (case bindCorpusProvider (provenanceOf demo_small_manifest) demo_public ''http://m'' demo_config of Inl _ \<Rightarrow> demo_config | Inr c \<Rightarrow> c)"

theorem corpus_served_witness:
  "\<exists>l. fetchMempoolInclusionList demo_merge_env demo_sidecar demo_served_config demo_public 7 0 1 = Inr l \<and> map epCiphertext (ilItems l) = [demo_encoded]"
proof -
  let ?m = demo_small_manifest
  have small: "provenanceOf ?m = \<lparr>cpSchemaVersion = ''bloc-encrypted-corpus-v1'', cpCiphertextWireVersion = LibraryVersion, cpPublicConfigID = demo_public,
      cpPlaintextMasterCorpusID = replicate 64 (CHR ''0''), cpPlaintextPrefixSetIDs = [(''1'', ''aa'')], cpEncryptedCorpusID = replicate 64 (CHR ''0''),
      cpEncryptedPrefixSetIDs = [(''1'', replicate 64 (CHR ''0''))], cpBMax = 1, cpAvailableCount = 1\<rparr>"
    by (simp add: provenanceOf_def demo_small_manifest_def demo_manifest_def corpusManifest_def encryptedCorpusSchemaVersion_def plaintextSetID_def encryptedCandidateSetID_def demo_hash del: upt_rec_numeral)
  have "showInt 1 = ''1''" by code_simp
  then have prov: "validateCorpusProvenance (provenanceOf ?m) 1 1 = Inr ()" using demo_public(2) by (simp add: small validateCorpusProvenance_def strAt_def)
  have bound: "bindCorpusProvider (provenanceOf ?m) demo_public ''http://m'' demo_config = Inr demo_served_config"
    using demo_public(2) by (simp add: demo_served_config_def bindCorpusProvider_def small validateProviderConfig_def Let_def defaultMempoolTimeoutMS_def maximumMempoolTimeoutMS_def)
  have E: "teMp demo_target_env = teMp (cvTarget demo_served_env)" by (simp add: demo_served_env_def)
  have std: "mpUniTrim (teMp demo_target_env) = meUniTrim demo_merge_env" by (simp add: demo_target_env_def demo_merge_env_def)
  have get: "peGet demo_sidecar u = Some (statusOf demo_served_reply, [7])" for u by (simp add: demo_sidecar_def)
  have json: "peJson demo_sidecar b = Some (jsonReply r)" if "demo_served_reply = PageReply r" for r b
    unfolding demo_sidecar_def provider_env.simps that server_reply.case ..
  have first: "take (nat 1) (emCandidates ?m) = [demo_candidate]" by (simp add: demo_small_manifest_def demo_manifest_def corpusManifest_def)
  have "fits demo_builder [demo_carrier] \<and> served_kind demo_carrier"
    by (simp add: fits_def demo_builder_def demo_wrapped served_kind_def kindString_def)
  moreover have "ccTransaction demo_candidate = demo_carrier" "ccCiphertextHex demo_candidate = ''0x'' @ hexEncode demo_encoded" by (simp_all add: demo_candidate_def)
  moreover note corpus_served [OF E demo_small_loads prov bound _ demo_served_reply_def get json std, of 0, unfolded Let_def first]
  ultimately show ?thesis using demo_ciphertext_hex [of "teMp demo_target_env"] by (auto simp: list_all2_Cons2)
qed

end
